(* ===== verification/Prelude.thy ===== *)
theory Prelude
  imports Complex_Main "HOL-Library.Sublist"
begin

text \<open>
  What every component of the development shares: the errors of the HTTP layer as values, the
  world-passing computations that stand for \<^verbatim>\<open>async\<close> functions, the few JavaScript string and
  array operations the sources use, objects as association lists in insertion order, and the
  collections of facts the component proofs are run with.

  JavaScript strings are lists of characters (one \<^typ>\<open>char\<close> per code unit, so the text is
  taken to be in the range of one byte).  Identifiers, counters and millisecond timestamps are
  \<^typ>\<open>int\<close> or \<^typ>\<open>nat\<close>: the sources only add, compare and print them, far below \<open>2 ^ 53\<close>.
\<close>

named_theorems io_simps \<open>unfolding rules of world-passing computations\<close>
named_theorems js_simps \<open>evaluation rules of the JavaScript string and array operations\<close>

section \<open>Errors\<close>

text \<open>
  The error classes of the HTTP layer that the sources throw or test for, with the message where
  the source gives one; \<open>JsError\<close> is a plain \<^verbatim>\<open>Error\<close> and \<open>JsTypeError\<close> the language's own
  \<^verbatim>\<open>TypeError\<close> (reading a property of \<^verbatim>\<open>undefined\<close>).
\<close>

datatype exn =
    BadRequestError string
  | UnauthorizedError
  | ForbiddenError string
  | NotFoundError string
  | ConflictError string
  | TooManyRequestsError "(string \<times> string) list"
  | UnsupportedMediaTypeError string
  | ServiceUnavailableError string
  | InternalRequestError string
  | JsError string
  | JsTypeError

type_synonym 'a res = "exn + 'a"

fun is_http_error :: "exn \<Rightarrow> bool" where
  "is_http_error (JsError _) = False"
| "is_http_error JsTypeError = False"
| "is_http_error _ = True"

fun res_bind :: "'a res \<Rightarrow> ('a \<Rightarrow> 'b res) \<Rightarrow> 'b res" where
  "res_bind (Inl e) f = Inl e"
| "res_bind (Inr a) f = f a"

fun res_all :: "('a \<Rightarrow> 'b res) \<Rightarrow> 'a list \<Rightarrow> 'b list res" where
  "res_all f [] = Inr []"
| "res_all f (x # xs) = res_bind (f x) (\<lambda>y. res_bind (res_all f xs) (\<lambda>ys. Inr (y # ys)))"

lemma res_bind_Inr_iff: "res_bind m f = Inr b \<longleftrightarrow> (\<exists>a. m = Inr a \<and> f a = Inr b)"
  by (cases m) auto

lemma res_bind_Inl_iff:
  "res_bind m f = Inl e \<longleftrightarrow> m = Inl e \<or> (\<exists>a. m = Inr a \<and> f a = Inl e)"
  by (cases m) auto

lemma res_all_Inr_iff: "res_all f xs = Inr ys \<longleftrightarrow> list_all2 (\<lambda>x y. f x = Inr y) xs ys"
proof (induction xs arbitrary: ys)
  case Nil
  then show ?case by auto
next
  case (Cons x xs)
  then show ?case by (auto simp: res_bind_Inr_iff list_all2_Cons1)
qed

section \<open>World-passing computations\<close>

text \<open>
  An \<^verbatim>\<open>async\<close> function is a computation that takes the world (the state of the services it
  awaits) and returns an error or a value with the world after it.  \<^verbatim>\<open>await\<close> is \<open>io_bind\<close>,
  \<^verbatim>\<open>try/catch\<close> is \<open>io_catch\<close>, \<^verbatim>\<open>finally\<close> is \<open>io_finally\<close> (an error of the cleanup wins, as in
  the language).
\<close>

type_synonym ('w, 'a) io = "'w \<Rightarrow> 'a res \<times> 'w"

definition io_return :: "'a \<Rightarrow> ('w, 'a) io" where
  "io_return a = (\<lambda>w. (Inr a, w))"

definition io_throw :: "exn \<Rightarrow> ('w, 'a) io" where
  "io_throw e = (\<lambda>w. (Inl e, w))"

definition io_bind :: "('w, 'a) io \<Rightarrow> ('a \<Rightarrow> ('w, 'b) io) \<Rightarrow> ('w, 'b) io" where
  "io_bind m f = (\<lambda>w. case m w of (Inl e, w') \<Rightarrow> (Inl e, w') | (Inr a, w') \<Rightarrow> f a w')"

definition io_catch :: "('w, 'a) io \<Rightarrow> (exn \<Rightarrow> ('w, 'a) io) \<Rightarrow> ('w, 'a) io" where
  "io_catch m h = (\<lambda>w. case m w of (Inl e, w') \<Rightarrow> h e w' | (Inr a, w') \<Rightarrow> (Inr a, w'))"

definition io_finally :: "('w, 'a) io \<Rightarrow> ('w, unit) io \<Rightarrow> ('w, 'a) io" where
  "io_finally m c = (\<lambda>w. case m w of (r, w') \<Rightarrow>
     (case c w' of (Inl e, w'') \<Rightarrow> (Inl e, w'') | (Inr _, w'') \<Rightarrow> (r, w'')))"

definition io_lift :: "'a res \<Rightarrow> ('w, 'a) io" where
  "io_lift r = (\<lambda>w. (r, w))"

fun io_mapM :: "('a \<Rightarrow> ('w, 'b) io) \<Rightarrow> 'a list \<Rightarrow> ('w, 'b list) io" where
  "io_mapM f [] = io_return []"
| "io_mapM f (x # xs) = io_bind (f x) (\<lambda>y. io_bind (io_mapM f xs) (\<lambda>ys. io_return (y # ys)))"

declare io_return_def [io_simps] io_throw_def [io_simps] io_bind_def [io_simps]
  io_catch_def [io_simps] io_finally_def [io_simps] io_lift_def [io_simps]

lemma io_bind_return [simp]: "io_bind (io_return a) f = f a"
  by (simp add: io_simps)

lemma io_bind_throw [simp]: "io_bind (io_throw e) f = io_throw e"
  by (simp add: io_simps)

lemma io_catch_return [simp]: "io_catch (io_return a) h = io_return a"
  by (simp add: io_simps)

lemma io_catch_throw [simp]: "io_catch (io_throw e) h = h e"
  by (simp add: io_simps)

lemma io_bind_assoc: "io_bind (io_bind m f) g = io_bind m (\<lambda>a. io_bind (f a) g)"
  by (rule ext) (simp add: io_bind_def split: prod.splits sum.splits)

lemma io_bind_run:
  "m w = (Inr a, w') \<Longrightarrow> io_bind m f w = f a w'"
  "m w = (Inl e, w') \<Longrightarrow> io_bind m f w = (Inl e, w')"
  by (simp_all add: io_bind_def)

text \<open>What a successful run consists of.\<close>

lemma io_bind_Inr_iff:
  "io_bind m f w = (Inr b, w') \<longleftrightarrow> (\<exists>a w1. m w = (Inr a, w1) \<and> f a w1 = (Inr b, w'))"
  by (auto simp: io_bind_def split: prod.splits sum.splits)

lemma io_return_Inr_iff: "io_return a w = (Inr b, w') \<longleftrightarrow> b = a \<and> w' = w"
  by (auto simp: io_return_def)

lemma io_throw_not_Inr: "io_throw e w \<noteq> (Inr b, w')"
  by (simp add: io_throw_def)

lemma io_lift_Inr_iff: "io_lift r w = (Inr b, w') \<longleftrightarrow> r = Inr b \<and> w' = w"
  by (auto simp: io_lift_def)

lemmas io_run_iffs = io_bind_Inr_iff io_return_Inr_iff io_throw_not_Inr io_lift_Inr_iff

text \<open>A computation that leaves a part of the world as it was, whether it succeeds or fails.\<close>

definition keeps :: "('w \<Rightarrow> 'd) \<Rightarrow> ('w, 'a) io \<Rightarrow> bool" where
  "keeps part m \<longleftrightarrow> (\<forall>w. part (snd (m w)) = part w)"

lemma keepsD: "keeps part m \<Longrightarrow> m w = (r, w') \<Longrightarrow> part w' = part w"
  by (metis keeps_def snd_conv)

lemma keeps_return [intro, simp]: "keeps part (io_return a)"
  by (simp add: keeps_def io_simps)

lemma keeps_throw [intro, simp]: "keeps part (io_throw e)"
  by (simp add: keeps_def io_simps)

lemma keeps_lift [intro, simp]: "keeps part (io_lift r)"
  by (simp add: keeps_def io_simps)

lemma keeps_bind [intro]: "keeps part m \<Longrightarrow> (\<And>a. keeps part (f a)) \<Longrightarrow> keeps part (io_bind m f)"
  unfolding keeps_def io_bind_def by (auto split: prod.split sum.split) (metis snd_conv)+

lemma keeps_catch [intro]: "keeps part m \<Longrightarrow> (\<And>e. keeps part (h e)) \<Longrightarrow> keeps part (io_catch m h)"
  unfolding keeps_def io_catch_def by (auto split: prod.split sum.split) (metis snd_conv)+

text \<open>A computation that looks at the world before it acts.\<close>

lemma keeps_diag: "(\<And>v. keeps part (f v)) \<Longrightarrow> keeps part (\<lambda>w. f w w)"
  by (simp add: keeps_def)

lemma keeps_mapM [intro]: "(\<And>x. keeps part (f x)) \<Longrightarrow> keeps part (io_mapM f xs)"
  by (induction xs) auto

section \<open>Strings\<close>

definition is_digit_char :: "char \<Rightarrow> bool" where
  "is_digit_char c \<longleftrightarrow> 48 \<le> (of_char c :: nat) \<and> (of_char c :: nat) \<le> 57"

definition is_lower_char :: "char \<Rightarrow> bool" where
  "is_lower_char c \<longleftrightarrow> 97 \<le> (of_char c :: nat) \<and> (of_char c :: nat) \<le> 122"

definition is_upper_char :: "char \<Rightarrow> bool" where
  "is_upper_char c \<longleftrightarrow> 65 \<le> (of_char c :: nat) \<and> (of_char c :: nat) \<le> 90"

definition is_alpha_char :: "char \<Rightarrow> bool" where
  "is_alpha_char c \<longleftrightarrow> is_lower_char c \<or> is_upper_char c"

text \<open>The class \<^verbatim>\<open>\w\<close>.\<close>

definition is_word_char :: "char \<Rightarrow> bool" where
  "is_word_char c \<longleftrightarrow> is_alpha_char c \<or> is_digit_char c \<or> c = CHR ''_''"

definition is_space_char :: "char \<Rightarrow> bool" where
  "is_space_char c \<longleftrightarrow>
     (of_char c :: nat) = 32 \<or> (9 \<le> (of_char c :: nat) \<and> (of_char c :: nat) \<le> 13) \<or> (of_char c :: nat) = 160"

definition to_lower_char :: "char \<Rightarrow> char" where
  "to_lower_char c = (if is_upper_char c then char_of ((of_char c :: nat) + 32) else c)"

definition js_toLowerCase :: "string \<Rightarrow> string" where
  "js_toLowerCase s = map to_lower_char s"

definition js_startsWith :: "string \<Rightarrow> string \<Rightarrow> bool" where
  "js_startsWith s p \<longleftrightarrow> take (length p) s = p"

definition js_endsWith :: "string \<Rightarrow> string \<Rightarrow> bool" where
  "js_endsWith s p \<longleftrightarrow> js_startsWith (rev s) (rev p)"

definition js_trim :: "string \<Rightarrow> string" where
  "js_trim s = rev (dropWhile is_space_char (rev (dropWhile is_space_char s)))"

text \<open>\<^verbatim>\<open>s.split(d)\<close> for a separator of one character.\<close>

fun js_split :: "char \<Rightarrow> string \<Rightarrow> string list" where
  "js_split d [] = [[]]"
| "js_split d (c # cs) =
     (if c = d then [] # js_split d cs
      else case js_split d cs of [] \<Rightarrow> [[c]] | f # fs \<Rightarrow> (c # f) # fs)"

text \<open>\<^verbatim>\<open>xs.join(d)\<close>.\<close>

fun js_join :: "string \<Rightarrow> string list \<Rightarrow> string" where
  "js_join d [] = []"
| "js_join d [x] = x"
| "js_join d (x # y # xs) = x @ d @ js_join d (y # xs)"

text \<open>\<^verbatim>\<open>s.replace(p, r)\<close> for a string pattern: the first occurrence only.\<close>

fun js_replace_first :: "string \<Rightarrow> string \<Rightarrow> string \<Rightarrow> string" where
  "js_replace_first p r [] = (if p = [] then r else [])"
| "js_replace_first p r (c # cs) =
     (if js_startsWith (c # cs) p then r @ drop (length p) (c # cs)
      else c # js_replace_first p r cs)"

text \<open>
  \<^verbatim>\<open>parseInt(s, 10)\<close>: leading white space, an optional sign, the longest run of digits; \<open>None\<close>
  is \<^verbatim>\<open>NaN\<close>.
\<close>

definition digit_val :: "char \<Rightarrow> int" where
  "digit_val c = int (of_char c) - 48"

definition digits_val :: "string \<Rightarrow> int" where
  "digits_val ds = foldl (\<lambda>n c. n * 10 + digit_val c) 0 ds"

definition parse_digits :: "string \<Rightarrow> int option" where
  "parse_digits s = (let ds = takeWhile is_digit_char s in if ds = [] then None else Some (digits_val ds))"

definition parseInt10 :: "string \<Rightarrow> int option" where
  "parseInt10 s =
     (case dropWhile is_space_char s of
        [] \<Rightarrow> None
      | c # cs \<Rightarrow>
          if c = CHR ''-'' then map_option uminus (parse_digits cs)
          else if c = CHR ''+'' then parse_digits cs
          else parse_digits (c # cs))"

text \<open>\<^verbatim>\<open>String(n)\<close> of an integer.\<close>

fun show_nat :: "nat \<Rightarrow> string" where
  "show_nat n = (if n < 10 then [char_of (48 + n)] else show_nat (n div 10) @ [char_of (48 + n mod 10)])"

declare show_nat.simps [simp del]

definition show_int :: "int \<Rightarrow> string" where
  "show_int i = (if i < 0 then CHR ''-'' # show_nat (nat (- i)) else show_nat (nat i))"

lemma is_digit_char_of [simp]: "d < 10 \<Longrightarrow> is_digit_char (char_of (48 + d :: nat))"
  by (simp add: is_digit_char_def)

lemma digit_val_char_of [simp]: "d < 10 \<Longrightarrow> digit_val (char_of (48 + d :: nat)) = int d"
  by (simp add: digit_val_def)

lemma digits_val_snoc [simp]: "digits_val (ds @ [c]) = digits_val ds * 10 + digit_val c"
  by (simp add: digits_val_def)

lemma show_nat_digits: "\<forall>c \<in> set (show_nat n). is_digit_char c"
proof (induction n rule: show_nat.induct)
  case (1 n)
  then show ?case by (subst show_nat.simps) auto
qed

lemma show_nat_nonempty [simp]: "show_nat n \<noteq> []"
  by (subst show_nat.simps) simp

lemma digits_val_show_nat: "digits_val (show_nat n) = int n"
proof (induction n rule: show_nat.induct)
  case (1 n)
  show ?case
  proof (cases "n < 10")
    case True
    then show ?thesis by (subst show_nat.simps) (simp add: digits_val_def)
  next
    case False
    with "1.IH" have "digits_val (show_nat (n div 10)) = int (n div 10)" by simp
    with False show ?thesis by (subst show_nat.simps) (simp add: zdiv_int zmod_int)
  qed
qed

lemma takeWhile_all: "\<forall>c \<in> set s. P c \<Longrightarrow> takeWhile P s = s"
  by (induction s) auto

lemma parse_digits_show_nat: "parse_digits (show_nat n) = Some (int n)"
  by (simp add: parse_digits_def takeWhile_all show_nat_digits digits_val_show_nat)

lemma digit_not_space: "is_digit_char c \<Longrightarrow> \<not> is_space_char c"
  by (auto simp: is_digit_char_def is_space_char_def)

lemma digit_not_sign: "is_digit_char c \<Longrightarrow> c \<noteq> CHR ''-'' \<and> c \<noteq> CHR ''+''"
  by (auto simp: is_digit_char_def)

text \<open>Printing an integer and reading it back with \<^verbatim>\<open>parseInt\<close> gives the integer.\<close>

lemma parseInt10_show_int: "parseInt10 (show_int i) = Some i"
proof (cases "i < 0")
  case True
  then show ?thesis
    by (simp add: show_int_def parseInt10_def parse_digits_show_nat is_space_char_def)
next
  case False
  obtain c cs where s: "show_nat (nat i) = c # cs"
    by (cases "show_nat (nat i)") auto
  then have "is_digit_char c" using show_nat_digits [of "nat i"] by simp
  with s False show ?thesis
    using digit_not_space [of c] digit_not_sign [of c] parse_digits_show_nat [of "nat i"]
    by (simp add: show_int_def parseInt10_def)
qed

lemma show_int_inject: "show_int i = show_int j \<longleftrightarrow> i = j"
  by (metis parseInt10_show_int option.inject)

lemma js_split_nonempty [simp]: "js_split d s \<noteq> []"
  by (induction s) (auto split: list.splits)

lemma js_join_split [simp]: "js_join [d] (js_split d s) = s"
proof (induction s)
  case Nil
  then show ?case by simp
next
  case (Cons c cs)
  obtain f fs where s: "js_split d cs = f # fs" by (cases "js_split d cs") auto
  with Cons show ?case by (cases fs) auto
qed

lemma js_split_no_sep: "f \<in> set (js_split d s) \<Longrightarrow> d \<notin> set f"
  by (induction s arbitrary: f) (auto split: list.splits if_splits)

lemma js_startsWith_prefix: "js_startsWith s p \<longleftrightarrow> prefix p s"
  by (metis append_take_drop_id js_startsWith_def prefix_def take_append take_all_iff
      append_eq_conv_conj)

section \<open>Objects and maps in insertion order\<close>

text \<open>
  A JavaScript object (or \<^verbatim>\<open>Map\<close>) used as a dictionary is an association list with distinct keys
  in insertion order: writing an existing key keeps its place, a new key goes to the end.
\<close>

type_synonym 'v obj = "(string \<times> 'v) list"

fun obj_set :: "'k \<Rightarrow> 'v \<Rightarrow> ('k \<times> 'v) list \<Rightarrow> ('k \<times> 'v) list" where
  "obj_set k v [] = [(k, v)]"
| "obj_set k v ((k', v') # o') = (if k' = k then (k, v) # o' else (k', v') # obj_set k v o')"

definition obj_delete :: "'k \<Rightarrow> ('k \<times> 'v) list \<Rightarrow> ('k \<times> 'v) list" where
  "obj_delete k o' = filter (\<lambda>(k', _). k' \<noteq> k) o'"

definition obj_keys :: "('k \<times> 'v) list \<Rightarrow> 'k list" where
  "obj_keys o' = List.map fst o'"

text \<open>\<^verbatim>\<open>{...a, ...b}\<close>.\<close>

definition obj_merge :: "('k \<times> 'v) list \<Rightarrow> ('k \<times> 'v) list \<Rightarrow> ('k \<times> 'v) list" where
  "obj_merge a b = fold (\<lambda>(k, v). obj_set k v) b a"

lemma map_of_obj_set [simp]: "map_of (obj_set k v o') = (map_of o')(k \<mapsto> v)"
  by (induction o' rule: obj_set.induct) (auto simp: fun_eq_iff)

lemma map_of_obj_delete [simp]: "map_of (obj_delete k o') = (map_of o')(k := None)"
  by (induction o') (auto simp: obj_delete_def fun_eq_iff)

lemma set_keys_obj_set [simp]: "fst ` set (obj_set k v o') = insert k (fst ` set o')"
  by (induction k v o' rule: obj_set.induct) auto

lemma obj_keys_set: "set (obj_keys o') = dom (map_of o')"
  by (simp add: obj_keys_def dom_map_of_conv_image_fst)

lemma distinct_obj_set [simp]: "distinct (map fst o') \<Longrightarrow> distinct (map fst (obj_set k v o'))"
proof (induction k v o' rule: obj_set.induct)
  case (1 k v)
  then show ?case by simp
next
  case (2 k v k' v' o')
  then show ?case using set_keys_obj_set [of k v o'] by (auto simp: image_iff)
qed

lemma distinct_obj_delete [simp]: "distinct (map fst o') \<Longrightarrow> distinct (map fst (obj_delete k o'))"
  by (induction o') (auto simp: obj_delete_def)

lemma map_of_obj_merge [simp]:
  "map_of (obj_merge a b) = (\<lambda>k. case map_of (rev b) k of None \<Rightarrow> map_of a k | Some v \<Rightarrow> Some v)"
proof (induction b rule: rev_induct)
  case Nil
  then show ?case by (simp add: obj_merge_def)
next
  case (snoc x b)
  then show ?case by (cases x) (auto simp: obj_merge_def fun_eq_iff)
qed

lemma distinct_obj_merge: "distinct (map fst a) \<Longrightarrow> distinct (map fst (obj_merge a b))"
  unfolding obj_merge_def by (induction b arbitrary: a) (auto split: prod.splits)

lemma map_of_rev_distinct:
  assumes "distinct (map fst xs)"
  shows "map_of (rev xs) = map_of xs"
proof (rule map_of_eqI)
  show "set (map fst (rev xs)) = set (map fst xs)" by simp
  have "map_of (rev xs) k = map_of xs k" for k
  proof (cases "map_of xs k")
    case None
    then have "k \<notin> fst ` set (rev xs)" by (simp add: map_of_eq_None_iff)
    then have "map_of (rev xs) k = None" by (simp only: map_of_eq_None_iff not_False_eq_True)
    with None show ?thesis by simp
  next
    case (Some v)
    then have "(k, v) \<in> set (rev xs)" by (simp add: map_of_SomeD)
    moreover from assms have "distinct (map fst (rev xs))" by (simp add: rev_map [symmetric])
    ultimately have "map_of (rev xs) k = Some v" by (simp only: map_of_is_SomeI)
    with Some show ?thesis by simp
  qed
  then show "\<forall>k \<in> set (map fst (rev xs)). map_of (rev xs) k = map_of xs k" by simp
qed

text \<open>JSON values; numbers are integers.\<close>

datatype json =
    JNull
  | JBool bool
  | JNum int
  | JStr string
  | JArr "json list"
  | JObj "(string \<times> json) list"

text \<open>The truth of a property's value in a condition, and \<^verbatim>\<open>!= null\<close>; \<open>None\<close> is \<^verbatim>\<open>undefined\<close>.\<close>

fun truthy :: "json option \<Rightarrow> bool" where
  "truthy None = False"
| "truthy (Some JNull) = False"
| "truthy (Some (JBool b)) = b"
| "truthy (Some (JNum n)) = (n \<noteq> 0)"
| "truthy (Some (JStr s)) = (s \<noteq> [])"
| "truthy (Some (JArr _)) = True"
| "truthy (Some (JObj _)) = True"

definition not_nullish :: "json option \<Rightarrow> bool" where
  "not_nullish j \<longleftrightarrow> j \<noteq> None \<and> j \<noteq> Some JNull"

section \<open>Lists\<close>

fun find_index :: "('a \<Rightarrow> bool) \<Rightarrow> 'a list \<Rightarrow> nat option" where
  "find_index P [] = None"
| "find_index P (x # xs) = (if P x then Some 0 else map_option Suc (find_index P xs))"

lemma find_index_None: "find_index P xs = None \<longleftrightarrow> (\<forall>x \<in> set xs. \<not> P x)"
  by (induction xs) auto

lemma drop_find_index: "find_index P xs = Some i \<Longrightarrow> drop i xs = dropWhile (\<lambda>x. \<not> P x) xs"
  by (induction xs arbitrary: i) (auto split: if_splits)

lemma find_index_less: "find_index P xs = Some i \<Longrightarrow> i < length xs \<and> P (xs ! i)"
  by (induction xs arbitrary: i) (auto split: if_splits)

lemma filter_key_none: "k \<notin> f ` set xs \<Longrightarrow> filter (\<lambda>x. f x = k) xs = []"
  by (auto simp: filter_empty_conv)

lemma find_Some_in: "List.find P xs = Some x \<Longrightarrow> x \<in> set xs \<and> P x"
  by (induction xs) (auto split: if_splits)

lemma res_all_Inr: "res_all f xs = Inr ys \<Longrightarrow> list_all2 (\<lambda>x y. f x = Inr y) xs ys"
  by (induction xs arbitrary: ys) (auto simp: res_bind_Inr_iff)

lemma list_all2_concat_lists: "list_all2 (list_all2 R) xss yss \<Longrightarrow> list_all2 R (concat xss) (concat yss)"
  by (induction rule: list_all2_induct) (auto intro: list_all2_appendI)

text \<open>The first value that is there.\<close>

fun first_some :: "'a option list \<Rightarrow> 'a option" where
  "first_some [] = None"
| "first_some (None # xs) = first_some xs"
| "first_some (Some x # xs) = Some x"

lemma first_some_Cons: "first_some (x # xs) = (case x of None \<Rightarrow> first_some xs | Some y \<Rightarrow> Some y)"
  by (cases x) auto

lemma first_some_append: "first_some (xs @ ys) = first_some [first_some xs, first_some ys]"
  by (induction xs rule: first_some.induct) (auto simp: first_some_Cons split: option.split)

lemma first_some_in: "first_some xs = Some y \<Longrightarrow> Some y \<in> set xs"
  by (induction xs rule: first_some.induct) auto

text \<open>An invariant of a loop over a list that succeeds, with the set of what has been done.\<close>

lemma io_mapM_inv:
  assumes "\<And>x w r w' S. x \<in> set xs \<Longrightarrow> I S w \<Longrightarrow> f x w = (Inr r, w') \<Longrightarrow> I (S \<union> g x) w'"
    and "I S w" and "io_mapM f xs w = (Inr rs, w')"
  shows "I (S \<union> \<Union> (g ` set xs)) w'"
  using assms
proof (induction xs arbitrary: S w rs)
  case Nil
  then show ?case by (simp add: io_return_def)
next
  case (Cons x xs)
  obtain r w1 rs' where run: "f x w = (Inr r, w1)" "io_mapM f xs w1 = (Inr rs', w')"
    using Cons.prems(3) by (auto simp: io_bind_def io_return_def split: prod.splits sum.splits)
  have "I (S \<union> g x) w1"
    by (rule Cons.prems(1) [OF _ Cons.prems(2) run(1)]) simp
  from Cons.IH [OF Cons.prems(1) this run(2)] show ?case
    by (simp add: Un_assoc)
qed

text \<open>A text with one separator is split in one way only.\<close>

lemma unique_split:
  "d \<notin> set xs \<Longrightarrow> d \<notin> set xs' \<Longrightarrow> xs @ d # ys = xs' @ d # ys' \<Longrightarrow> xs = xs' \<and> ys = ys'"
  by (induction xs arbitrary: xs') (auto simp: Cons_eq_append_conv append_eq_Cons_conv)

lemma set_map_filter: "set (List.map_filter f xs) = {y. \<exists>x \<in> set xs. f x = Some y}"
  by (force simp: List.map_filter_def)

text \<open>Division of big integers rounds towards zero.\<close>

definition big_div :: "int \<Rightarrow> int \<Rightarrow> int" where
  "big_div a b = (if a < 0 then - ((- a) div b) else a div b)"

definition big_mod :: "int \<Rightarrow> int \<Rightarrow> int" where
  "big_mod a b = a - b * big_div a b"

lemma big_div_mod: "b * big_div a b + big_mod a b = a"
  by (simp add: big_mod_def)

lemma big_mod_bounds: "0 \<le> a \<Longrightarrow> 0 < b \<Longrightarrow> 0 \<le> big_mod a b \<and> big_mod a b < b"
  by (simp add: big_mod_def big_div_def minus_mult_div_eq_mod)

text \<open>The number after the largest key is a new key.\<close>

lemma fold_max: "fold max xs (m :: int) \<in> insert m (set xs) \<and> (\<forall>x \<in> insert m (set xs). x \<le> fold max xs m)"
proof -
  have "fold max xs m = Max (insert m (set xs))" by (metis Max.set_eq_fold list.set(2))
  then show ?thesis using Max_in [of "insert m (set xs)"] Max_ge [of "insert m (set xs)"] by auto
qed

lemma fresh_max_key: "map_of ks (fold max (map fst ks) (0 :: int) + 1) = None"
  using fold_max [of "map fst ks" 0] by (force simp: map_of_eq_None_iff)

end
