(* ===== verification/JsRegex.thy ===== *)
theory JsRegex
  imports Prelude
begin

text \<open>
  The regular expressions the sources write, with the matching rules of the language: a
  backtracking matcher that tries the alternatives in order, repeats greedily, refuses an empty
  iteration of a loop, and records capture groups.  A match state is the index reached, the
  text left, and the groups captured; \<open>rmatch r m\<close> lists the states in which \<open>r\<close> can stop, in
  the order the backtracking finds them, so the first one is the result of the match.

  No source pattern puts a capture group under a repetition, so resetting the groups of an
  iteration never matters and is left out.
\<close>

datatype re =
    RClass "char \<Rightarrow> bool"
  | REmpty
  | RSeq re re
  | RAlt re re
  | RStar re
  | RGroup nat re
  | RBegin
  | REnd

type_synonym mstate = "nat \<times> string \<times> (nat \<times> string) list"

abbreviation left_over :: "mstate \<Rightarrow> string" where
  "left_over m \<equiv> fst (snd m)"

function rmatch :: "re \<Rightarrow> mstate \<Rightarrow> mstate list" where
  "rmatch (RClass p) m =
     (case m of (i, s, g) \<Rightarrow> (case s of [] \<Rightarrow> [] | c # cs \<Rightarrow> if p c then [(Suc i, cs, g)] else []))"
| "rmatch REmpty m = [m]"
| "rmatch (RSeq r1 r2) m = concat (map (\<lambda>m'. rmatch r2 m') (rmatch r1 m))"
| "rmatch (RAlt r1 r2) m = rmatch r1 m @ rmatch r2 m"
| "rmatch (RStar r) m =
     concat (map (\<lambda>m'. if length (left_over m') < length (left_over m) then rmatch (RStar r) m' else [])
       (rmatch r m)) @ [m]"
| "rmatch (RGroup n r) m =
     (case m of (i, s, g) \<Rightarrow>
        map (\<lambda>(j, t, h). (j, t, obj_set n (take (j - i) s) h)) (rmatch r m))"
| "rmatch RBegin m = (if fst m = 0 then [m] else [])"
| "rmatch REnd m = (if left_over m = [] then [m] else [])"
  by pat_completeness auto
termination
  by (relation "measures [\<lambda>(r, m). size r, \<lambda>(r, m). length (left_over m)]") auto

text \<open>
  The equation of a repetition rewrites to itself, so it is applied by hand; membership in its
  results is what the proofs use.
\<close>

declare rmatch.simps(5) [simp del]

lemma in_rmatch_star:
  "x \<in> set (rmatch (RStar r) m) \<longleftrightarrow> x = m \<or>
     (\<exists>m' \<in> set (rmatch r m). length (left_over m') < length (left_over m) \<and> x \<in> set (rmatch (RStar r) m'))"
  by (subst rmatch.simps(5)) (auto split: if_splits)

text \<open>The unanchored search of \<^verbatim>\<open>exec\<close> and \<^verbatim>\<open>match\<close>: the first start index with a match.\<close>

fun re_search :: "re \<Rightarrow> nat \<Rightarrow> string \<Rightarrow> mstate option" where
  "re_search r i s =
     (case rmatch r (i, s, []) of
        m # _ \<Rightarrow> Some m
      | [] \<Rightarrow> (case s of [] \<Rightarrow> None | c # cs \<Rightarrow> re_search r (Suc i) cs))"

declare re_search.simps [simp del]

lemma re_search_Nil:
  "re_search r i [] = (case rmatch r (i, [], []) of m # _ \<Rightarrow> Some m | [] \<Rightarrow> None)"
  by (subst re_search.simps) (simp split: list.split)

lemma re_search_Cons:
  "re_search r i (c # cs) =
     (case rmatch r (i, c # cs, []) of m # _ \<Rightarrow> Some m | [] \<Rightarrow> re_search r (Suc i) cs)"
  by (subst re_search.simps) (simp split: list.split)

lemmas re_search_rec = re_search_Nil re_search_Cons

definition re_test :: "re \<Rightarrow> string \<Rightarrow> bool" where
  "re_test r s \<longleftrightarrow> re_search r 0 s \<noteq> None"

text \<open>
  \<^verbatim>\<open>s.match(r)\<close>: \<open>None\<close> is \<^verbatim>\<open>null\<close>; otherwise the groups that took part (a group that did not is
  \<^verbatim>\<open>undefined\<close> and absent here).
\<close>

definition re_match :: "re \<Rightarrow> string \<Rightarrow> (nat \<times> string) list option" where
  "re_match r s = map_option (\<lambda>m. snd (snd m)) (re_search r 0 s)"

text \<open>Derived forms.\<close>

definition RPlus :: "re \<Rightarrow> re" where
  "RPlus r = RSeq r (RStar r)"

definition ROpt :: "re \<Rightarrow> re" where
  "ROpt r = RAlt r REmpty"

definition RChar :: "char \<Rightarrow> re" where
  "RChar c = RClass (\<lambda>x. x = c)"

fun RLit :: "string \<Rightarrow> re" where
  "RLit [] = REmpty"
| "RLit [c] = RChar c"
| "RLit (c # d # cs) = RSeq (RChar c) (RLit (d # cs))"

fun RSeqs :: "re list \<Rightarrow> re" where
  "RSeqs [] = REmpty"
| "RSeqs [r] = r"
| "RSeqs (r # q # rs) = RSeq r (RSeqs (q # rs))"

section \<open>The language of a pattern\<close>

text \<open>
  The specification the matcher is compared with: \<open>re_lang r w\<close> says that the anchor-free
  pattern \<open>r\<close> describes the text \<open>w\<close>.
\<close>

fun anchor_free :: "re \<Rightarrow> bool" where
  "anchor_free (RSeq r1 r2) = (anchor_free r1 \<and> anchor_free r2)"
| "anchor_free (RAlt r1 r2) = (anchor_free r1 \<and> anchor_free r2)"
| "anchor_free (RStar r) = anchor_free r"
| "anchor_free (RGroup n r) = anchor_free r"
| "anchor_free RBegin = False"
| "anchor_free REnd = False"
| "anchor_free _ = True"

inductive re_lang :: "re \<Rightarrow> string \<Rightarrow> bool" where
  lang_class: "p c \<Longrightarrow> re_lang (RClass p) [c]"
| lang_empty: "re_lang REmpty []"
| lang_seq: "re_lang r1 u \<Longrightarrow> re_lang r2 v \<Longrightarrow> re_lang (RSeq r1 r2) (u @ v)"
| lang_alt1: "re_lang r1 u \<Longrightarrow> re_lang (RAlt r1 r2) u"
| lang_alt2: "re_lang r2 u \<Longrightarrow> re_lang (RAlt r1 r2) u"
| lang_star0: "re_lang (RStar r) []"
| lang_star: "re_lang r u \<Longrightarrow> u \<noteq> [] \<Longrightarrow> re_lang (RStar r) v \<Longrightarrow> re_lang (RStar r) (u @ v)"
| lang_group: "re_lang r u \<Longrightarrow> re_lang (RGroup n r) u"

inductive_cases lang_classE: "re_lang (RClass p) w"
inductive_cases lang_emptyE: "re_lang REmpty w"
inductive_cases lang_seqE: "re_lang (RSeq r1 r2) w"
inductive_cases lang_altE: "re_lang (RAlt r1 r2) w"
inductive_cases lang_starE: "re_lang (RStar r) w"
inductive_cases lang_groupE: "re_lang (RGroup n r) w"

inductive_simps lang_class_simp [simp]: "re_lang (RClass p) w"
inductive_simps lang_empty_simp [simp]: "re_lang REmpty w"
inductive_simps lang_alt_simp [simp]: "re_lang (RAlt r1 r2) w"
inductive_simps lang_group_simp [simp]: "re_lang (RGroup n r) w"
inductive_simps lang_seq_simp: "re_lang (RSeq r1 r2) w"

text \<open>What a successful match consumed is described by the pattern.\<close>

lemma rmatch_sound:
  assumes "anchor_free r" and "(j, t, h) \<in> set (rmatch r (i, s, g))"
  shows "\<exists>u. s = u @ t \<and> j = i + length u \<and> re_lang r u"
  using assms
proof (induction r "(i, s, g)" arbitrary: i s g j t h rule: rmatch.induct)
  case (1 p)
  then show ?case by (cases s) (auto split: if_splits)
next
  case 2
  then show ?case by simp
next
  case (3 r1 r2)
  from "3.prems" obtain k v f where
    one: "(k, v, f) \<in> set (rmatch r1 (i, s, g))" and two: "(j, t, h) \<in> set (rmatch r2 (k, v, f))"
    by auto
  from "3.hyps"(1) [OF _ one] "3.prems"(1) obtain u1
    where u1: "s = u1 @ v" "k = i + length u1" "re_lang r1 u1" by auto
  from "3.hyps"(2) [OF one _ two] "3.prems"(1) obtain u2
    where u2: "v = u2 @ t" "j = k + length u2" "re_lang r2 u2" by auto
  from u1 u2 have "s = (u1 @ u2) @ t" "j = i + length (u1 @ u2)" "re_lang (RSeq r1 r2) (u1 @ u2)"
    by (auto intro: lang_seq)
  then show ?case by blast
next
  case (4 r1 r2)
  from "4.prems" consider "(j, t, h) \<in> set (rmatch r1 (i, s, g))" | "(j, t, h) \<in> set (rmatch r2 (i, s, g))"
    by auto
  then show ?case
  proof cases
    case 1
    with "4.hyps"(1) [OF _ this] "4.prems"(1) show ?thesis by auto
  next
    case 2
    with "4.hyps"(2) [OF _ this] "4.prems"(1) show ?thesis by auto
  qed
next
  case (5 r)
  show ?case
  proof (cases "(j, t, h) = (i, s, g)")
    case True
    then show ?thesis by (auto intro: lang_star0)
  next
    case False
    with "5.prems"(2) obtain k v f where
      one: "(k, v, f) \<in> set (rmatch r (i, s, g))" and less: "length v < length s"
      and two: "(j, t, h) \<in> set (rmatch (RStar r) (k, v, f))"
      unfolding in_rmatch_star [of _ r "(i, s, g)"] by auto
    from "5.hyps"(1) [OF _ one] "5.prems"(1) obtain u1
      where u1: "s = u1 @ v" "k = i + length u1" "re_lang r u1" by auto
    from "5.hyps"(2) [OF one _ _ two] less "5.prems"(1) obtain u2
      where u2: "v = u2 @ t" "j = k + length u2" "re_lang (RStar r) u2" by auto
    have "u1 \<noteq> []" using less u1 by auto
    with u1 u2 have "s = (u1 @ u2) @ t" "j = i + length (u1 @ u2)" "re_lang (RStar r) (u1 @ u2)"
      by (auto intro: lang_star)
    then show ?thesis by blast
  qed
next
  case (6 n r)
  then show ?case by fastforce
qed auto

text \<open>Every text the pattern describes is found, whatever follows it.\<close>

lemma rmatch_complete:
  assumes "re_lang r u"
  shows "\<exists>h. (i + length u, t, h) \<in> set (rmatch r (i, u @ t, g))"
  using assms
proof (induction arbitrary: i t g rule: re_lang.induct)
  case (lang_seq r1 u r2 v)
  from lang_seq.IH(1) [of i "v @ t" g] obtain h1
    where h1: "(i + length u, v @ t, h1) \<in> set (rmatch r1 (i, u @ v @ t, g))" by auto
  from lang_seq.IH(2) [of "i + length u" t h1] obtain h2
    where "(i + length u + length v, t, h2) \<in> set (rmatch r2 (i + length u, v @ t, h1))" by auto
  with h1 show ?case by (force simp: add.assoc)
next
  case (lang_star r u v)
  from lang_star.IH(1) [of i "v @ t" g] obtain h1
    where h1: "(i + length u, v @ t, h1) \<in> set (rmatch r (i, u @ v @ t, g))" by auto
  from lang_star.IH(2) [of "i + length u" t h1] obtain h2
    where h2: "(i + length u + length v, t, h2) \<in> set (rmatch (RStar r) (i + length u, v @ t, h1))" by auto
  have "(i + length u + length v, t, h2) \<in> set (rmatch (RStar r) (i, u @ v @ t, g))"
    using h1 h2 lang_star.hyps(2) unfolding in_rmatch_star [of _ r "(i, u @ v @ t, g)"]
    by (intro disjI2 bexI [of _ "(i + length u, v @ t, h1)"]) simp_all
  then show ?case by (auto simp: add.assoc)
next
  case (lang_group r u n)
  then obtain h where "(i + length u, t, h) \<in> set (rmatch r (i, u @ t, g))" by blast
  then show ?case by force
next
  case (lang_alt1 r1 u r2)
  then obtain h where "(i + length u, t, h) \<in> set (rmatch r1 (i, u @ t, g))" by blast
  then show ?case by auto
next
  case (lang_alt2 r2 u r1)
  then obtain h where "(i + length u, t, h) \<in> set (rmatch r2 (i, u @ t, g))" by blast
  then show ?case by auto
next
  case (lang_star0 r)
  show ?case by (rule exI [of _ g]) (subst in_rmatch_star, simp)
qed simp_all

text \<open>
  A pattern anchored at both ends tests exactly the membership in its language: the matcher
  refines the specification.
\<close>

lemma re_search_begin_later: "0 < i \<Longrightarrow> re_search (RSeq RBegin r) i s = None"
  by (induction s arbitrary: i) (simp_all add: re_search_rec)

theorem re_test_anchored:
  assumes "anchor_free r"
  shows "re_test (RSeq RBegin (RSeq r REnd)) s \<longleftrightarrow> re_lang r s"
proof
  assume "re_test (RSeq RBegin (RSeq r REnd)) s"
  then obtain m where m: "re_search (RSeq RBegin (RSeq r REnd)) 0 s = Some m"
    by (auto simp: re_test_def)
  then have "m \<in> set (rmatch (RSeq RBegin (RSeq r REnd)) (0, s, []))"
    by (cases s)
      (auto simp: re_search_rec re_search_begin_later simp del: rmatch.simps split: list.splits)
  then have "m \<in> set (rmatch r (0, s, []))" and "left_over m = []"
    by (auto split: if_splits)
  then obtain j t h where "(j, t, h) \<in> set (rmatch r (0, s, []))" and "t = []"
    by (metis prod.collapse)
  with rmatch_sound [OF assms this(1)] show "re_lang r s" by auto
next
  assume "re_lang r s"
  from rmatch_complete [OF this, of 0 "[]" "[]"] obtain h
    where h: "(length s, [], h) \<in> set (rmatch r (0, s, []))" by auto
  then have "(length s, [], h) \<in> set (rmatch (RSeq RBegin (RSeq r REnd)) (0, s, []))"
    by force
  then obtain m ms where "rmatch (RSeq RBegin (RSeq r REnd)) (0, s, []) = m # ms"
    by (metis list.set_cases)
  then show "re_test (RSeq RBegin (RSeq r REnd)) s"
    by (cases s) (simp_all add: re_test_def re_search_rec del: rmatch.simps)
qed

text \<open>A pattern that is one class of characters tests for an occurrence of the class.\<close>

lemma re_search_class: "re_search (RClass p) i s = None \<longleftrightarrow> (\<forall>c \<in> set s. \<not> p c)"
  by (induction s arbitrary: i) (auto simp: re_search_rec)

lemma re_test_class: "re_test (RClass p) s \<longleftrightarrow> (\<exists>c \<in> set s. p c)"
  by (auto simp: re_test_def re_search_class)

text \<open>The form \<^verbatim>\<open>/^[p]|[q]/\<close>: the first character is in \<open>p\<close>, or some character is in \<open>q\<close>.\<close>

lemma re_search_begin_class_or:
  "re_search (RAlt (RSeq RBegin (RClass p)) (RClass q)) i s = None \<longleftrightarrow>
     (\<forall>c \<in> set s. \<not> q c) \<and> (i = 0 \<longrightarrow> (\<forall>c cs. s = c # cs \<longrightarrow> \<not> p c))"
proof (induction s arbitrary: i)
  case Nil
  then show ?case by (simp add: re_search_rec)
next
  case (Cons c cs)
  from Cons [of "Suc i"] show ?case
    by (subst re_search_Cons) auto
qed

lemma re_test_begin_class_or:
  "re_test (RAlt (RSeq RBegin (RClass p)) (RClass q)) s \<longleftrightarrow>
     (\<exists>c \<in> set s. q c) \<or> (\<exists>c cs. s = c # cs \<and> p c)"
  by (auto simp: re_test_def re_search_begin_class_or)

lemma lang_star_class: "re_lang (RStar (RClass p)) w \<longleftrightarrow> (\<forall>c \<in> set w. p c)"
proof
  have "re_lang r w \<Longrightarrow> r = RStar (RClass p) \<Longrightarrow> \<forall>c \<in> set w. p c" for r
    by (induction rule: re_lang.induct) auto
  then show "re_lang (RStar (RClass p)) w \<Longrightarrow> \<forall>c \<in> set w. p c" by simp
next
  show "\<forall>c \<in> set w. p c \<Longrightarrow> re_lang (RStar (RClass p)) w"
  proof (induction w)
    case Nil
    show ?case by (rule lang_star0)
  next
    case (Cons c w)
    then have "re_lang (RStar (RClass p)) ([c] @ w)"
      by (intro lang_star) auto
    then show ?case by simp
  qed
qed

lemma lang_plus_class:
  "re_lang (RPlus (RClass p)) w \<longleftrightarrow> w \<noteq> [] \<and> (\<forall>c \<in> set w. p c)"
  by (cases w) (auto simp: RPlus_def lang_seq_simp lang_star_class Cons_eq_append_conv
      intro: exI [of _ "[_]"])

end
