(* ===== verification/Utils.thy ===== *)
theory Utils
  imports Prelude JsRegex
begin

text \<open>
  The helpers of \<^verbatim>\<open>src/lib/utils.ts\<close>: number checks, the client address of a request, the
  throttled loop, the retry loop and the grouping into a \<^verbatim>\<open>Map\<close>.
\<close>

section \<open>Numbers\<close>

text \<open>A number of the language; finite ones are taken exactly.\<close>

datatype jsnum = NaN | Infinity | Num rat

datatype int_input = INull | INum jsnum | IStr string

text \<open>\<^verbatim>\<open>/^-?[0-9]+$/\<close>\<close>

definition CHECK_INT_REGEX :: re where
  "CHECK_INT_REGEX =
     RSeq RBegin (RSeq (RSeq (ROpt (RChar (CHR ''-''))) (RPlus (RClass is_digit_char))) REnd)"

definition checkInt :: "int_input \<Rightarrow> jsnum option" where
  "checkInt num =
     (case num of
        INull \<Rightarrow> None
      | INum n \<Rightarrow> (if n = NaN then None else Some n)
      | IStr s \<Rightarrow>
          (if \<not> re_test CHECK_INT_REGEX s then None
           else case parseInt10 s of None \<Rightarrow> None | Some n \<Rightarrow> Some (Num (of_int n))))"

fun jsnum_positive :: "jsnum \<Rightarrow> bool" where
  "jsnum_positive NaN = False"
| "jsnum_positive Infinity = True"
| "jsnum_positive (Num q) = (q > 0)"

definition isValidInteger :: "int_input \<Rightarrow> bool" where
  "isValidInteger num = (case checkInt num of None \<Rightarrow> False | Some n \<Rightarrow> jsnum_positive n)"

lemma check_int_regex_lang:
  "re_test CHECK_INT_REGEX s \<longleftrightarrow>
     (\<exists>sg ds. s = sg @ ds \<and> (sg = [] \<or> sg = ''-'') \<and> ds \<noteq> [] \<and> (\<forall>c \<in> set ds. is_digit_char c))"
proof -
  have "re_test CHECK_INT_REGEX s \<longleftrightarrow>
      re_lang (RSeq (ROpt (RChar (CHR ''-''))) (RPlus (RClass is_digit_char))) s"
    unfolding CHECK_INT_REGEX_def
    by (rule re_test_anchored) (simp add: ROpt_def RChar_def RPlus_def)
  then show ?thesis
    by (auto simp: lang_seq_simp ROpt_def RChar_def lang_plus_class)
qed

lemma parseInt10_signed_digits:
  assumes "ds \<noteq> []" and "\<forall>c \<in> set ds. is_digit_char c"
  shows "parseInt10 ds = Some (digits_val ds)" and "parseInt10 (CHR ''-'' # ds) = Some (- digits_val ds)"
proof -
  obtain c cs where ds: "ds = c # cs" using assms(1) by (cases ds) auto
  with assms(2) have c: "is_digit_char c" by simp
  have p: "parse_digits ds = Some (digits_val ds)"
    using assms by (simp add: parse_digits_def takeWhile_all)
  show "parseInt10 ds = Some (digits_val ds)"
    using p digit_not_space [OF c] digit_not_sign [OF c] by (simp add: parseInt10_def ds)
  show "parseInt10 (CHR ''-'' # ds) = Some (- digits_val ds)"
    using p by (simp add: parseInt10_def is_space_char_def)
qed

text \<open>
  \<^verbatim>\<open>checkInt\<close> accepts a string exactly when the whole of it is an optional minus sign
  and a non-empty run of digits, and then returns the number the digits denote: a prefix that
  \<^verbatim>\<open>parseInt\<close> alone would accept (\<^verbatim>\<open>12abc\<close>) is refused.
\<close>

lemma checkInt_string:
  "checkInt (IStr s) = Some n \<longleftrightarrow>
     (\<exists>sg ds. s = sg @ ds \<and> (sg = [] \<or> sg = ''-'') \<and> ds \<noteq> [] \<and> list_all is_digit_char ds \<and>
        n = Num (of_int (if sg = [] then digits_val ds else - digits_val ds)))"
  (is "?l \<longleftrightarrow> ?r")
proof
  assume l: ?l
  then have "re_test CHECK_INT_REGEX s" by (auto simp: checkInt_def split: if_splits)
  then obtain sg ds where s: "s = sg @ ds" "sg = [] \<or> sg = ''-''" "ds \<noteq> []" "\<forall>c \<in> set ds. is_digit_char c"
    unfolding check_int_regex_lang by blast
  from s(2) have "parseInt10 s = Some (if sg = [] then digits_val ds else - digits_val ds)"
    using parseInt10_signed_digits [OF s(3,4)] s(1) by auto
  with l have "n = Num (of_int (if sg = [] then digits_val ds else - digits_val ds))"
    by (simp add: checkInt_def split: if_splits)
  with s show ?r by (metis list_all_iff)
next
  assume ?r
  then obtain sg ds where s: "s = sg @ ds" "sg = [] \<or> sg = ''-''" "ds \<noteq> []" "\<forall>c \<in> set ds. is_digit_char c"
    and n: "n = Num (of_int (if sg = [] then digits_val ds else - digits_val ds))"
    by (auto simp: list_all_iff)
  from s have "re_test CHECK_INT_REGEX s" unfolding check_int_regex_lang by metis
  moreover from s(2) have "parseInt10 s = Some (if sg = [] then digits_val ds else - digits_val ds)"
    using parseInt10_signed_digits [OF s(3,4)] s(1) by auto
  ultimately show ?l using n by (simp add: checkInt_def)
qed

text \<open>An integer printed and checked comes back.\<close>

lemma checkInt_show_int: "checkInt (IStr (show_int i)) = Some (Num (of_int i))"
proof -
  have "re_test CHECK_INT_REGEX (show_int i)"
    unfolding check_int_regex_lang show_int_def
    by (rule exI [of _ "if i < 0 then ''-'' else []"], rule exI [of _ "show_nat (nat \<bar>i\<bar>)"])
      (auto simp: show_nat_digits)
  then show ?thesis by (simp add: checkInt_def parseInt10_show_int)
qed

section \<open>The client address\<close>

text \<open>The fields of a request that \<^verbatim>\<open>getIP\<close> reads; a missing field is \<open>None\<close>.\<close>

record ip_req =
  req_ip :: "string option"
  req_remoteAddress :: "string option"
  req_connection :: "string option option"

text \<open>\<^verbatim>\<open>a || b\<close> on optional strings: \<^verbatim>\<open>undefined\<close> and the empty string are falsy.\<close>

fun js_or :: "string option \<Rightarrow> string option \<Rightarrow> string option" where
  "js_or (Some (c # cs)) b = Some (c # cs)"
| "js_or _ b = b"

definition getIP :: "ip_req \<Rightarrow> string option" where
  "getIP req =
     js_or (req_ip req)
       (js_or (req_remoteAddress req)
         (js_or (case req_connection req of None \<Rightarrow> None | Some r \<Rightarrow> r) None))"

lemma js_or_nonempty: "js_or a b = Some [] \<Longrightarrow> b = Some []"
  by (cases "(a, b)" rule: js_or.cases) auto

lemma getIP_nonempty: "getIP req \<noteq> Some []"
  unfolding getIP_def by (auto dest!: js_or_nonempty)

text \<open>
  The address library is a parameter: \<open>parse\<close> (which may throw), the kind of an address, the
  test for a mapped address, the conversion of a mapped address and the printer.
\<close>

definition getIPv4 ::
  "(string \<Rightarrow> 'ip res) \<Rightarrow> ('ip \<Rightarrow> bool) \<Rightarrow> ('ip \<Rightarrow> bool) \<Rightarrow> ('ip \<Rightarrow> 'ip) \<Rightarrow> ('ip \<Rightarrow> string) \<Rightarrow> ip_req \<Rightarrow> string option"
where
  "getIPv4 parse is_ipv4 is_mapped to_ipv4 to_string req =
     (case getIP req of
        None \<Rightarrow> None
      | Some rawIp \<Rightarrow>
          (case parse rawIp of
             Inl e \<Rightarrow> None
           | Inr ip \<Rightarrow>
               (if is_ipv4 ip then Some (to_string ip)
                else if is_mapped ip then Some (to_string (to_ipv4 ip))
                else None)))"

section \<open>The throttled loop\<close>

text \<open>
  \<^verbatim>\<open>fn(item)\<close> either throws at once or returns a promise.  The model records the calls and the
  delays in the order they happen, and the promises collected for the caller.  An item may be
  \<^verbatim>\<open>null\<close>; only the last one is tested for it.
\<close>

datatype 'u called = Threw exn | Promised "'u res"

datatype 'a throttle_event = Called "'a option" | Delayed nat

definition run_fn :: "('a option \<Rightarrow> 'u called) \<Rightarrow> 'a option \<Rightarrow> 'u res list \<Rightarrow> 'u res list" where
  "run_fn fn item promises =
     (case fn item of Threw e \<Rightarrow> promises | Promised p \<Rightarrow> promises @ [p])"

fun throttle_loop ::
  "nat \<Rightarrow> ('a option \<Rightarrow> 'u called) \<Rightarrow> 'a option list \<Rightarrow> 'a throttle_event list \<times> 'u res list \<Rightarrow>
   'a throttle_event list \<times> 'u res list"
where
  "throttle_loop d fn [] st = st"
| "throttle_loop d fn (item # rest) (evs, ps) =
     throttle_loop d fn rest (evs @ [Called item, Delayed d], run_fn fn item ps)"

definition throttledForEach ::
  "'a option list \<Rightarrow> nat \<Rightarrow> ('a option \<Rightarrow> 'u called) \<Rightarrow> 'a throttle_event list \<times> 'u res list"
where
  "throttledForEach array delayMS fn =
     (let lastItem = (if array = [] then None else last array);
          (evs, ps) = throttle_loop delayMS fn (butlast array) ([], [])
      in if lastItem \<noteq> None then (evs @ [Called lastItem], run_fn fn lastItem ps) else (evs, ps))"

definition promises_of :: "('a option \<Rightarrow> 'u called) \<Rightarrow> 'a option list \<Rightarrow> 'u res list" where
  "promises_of fn items = concat (map (\<lambda>i. case fn i of Threw e \<Rightarrow> [] | Promised p \<Rightarrow> [p]) items)"

lemma throttle_loop_eq:
  "throttle_loop d fn items (evs, ps) =
     (evs @ concat (map (\<lambda>i. [Called i, Delayed d]) items), ps @ promises_of fn items)"
  by (induction items arbitrary: evs ps)
    (auto simp: run_fn_def promises_of_def split: called.splits)

text \<open>
  \<^verbatim>\<open>throttledForEach\<close> over items none of which is \<^verbatim>\<open>null\<close> calls the function once per
  item, in order, with a delay between two calls and none after the last, and hands back the
  promises of exactly the calls that did not throw, in order.
\<close>

lemma throttledForEach_events:
  "throttledForEach (map Some (xs @ [x])) d fn =
     (concat (map (\<lambda>i. [Called (Some i), Delayed d]) xs) @ [Called (Some x)],
      promises_of fn (map Some (xs @ [x])))"
  by (simp add: throttledForEach_def throttle_loop_eq butlast_append run_fn_def promises_of_def
      comp_def split: called.splits)

section \<open>The retry loop\<close>

text \<open>
  \<open>sleep\<close> stands for the timer; \<open>func\<close> is any computation on the world.
\<close>

function withRetries ::
  "(nat \<Rightarrow> 'w \<Rightarrow> 'w) \<Rightarrow> ('w, 'a) io \<Rightarrow> nat \<Rightarrow> int \<Rightarrow> ('w, 'a) io"
where
  "withRetries sleep func delayDuration retries w =
     (case func w of
        (Inr a, w') \<Rightarrow> (Inr a, w')
      | (Inl err, w') \<Rightarrow>
          (if retries \<le> 0 then (Inl err, w')
           else withRetries sleep func delayDuration (retries - 1) (sleep delayDuration w')))"
  by pat_completeness auto
termination
  by (relation "measure (\<lambda>(sleep, func, d, retries, w). nat retries)") auto

declare withRetries.simps [simp del]

text \<open>The world in which attempt number \<open>n\<close> is made, if all attempts before it failed.\<close>

fun attempt_world :: "(nat \<Rightarrow> 'w \<Rightarrow> 'w) \<Rightarrow> ('w, 'a) io \<Rightarrow> nat \<Rightarrow> 'w \<Rightarrow> nat \<Rightarrow> 'w" where
  "attempt_world sleep func d w 0 = w"
| "attempt_world sleep func d w (Suc n) = attempt_world sleep func d (sleep d (snd (func w))) n"

lemma withRetries_trace:
  "\<exists>k \<le> nat retries.
     withRetries sleep func d retries w = func (attempt_world sleep func d w k) \<and>
     (\<forall>j<k. isl (fst (func (attempt_world sleep func d w j)))) \<and>
     (k = nat retries \<or> \<not> isl (fst (withRetries sleep func d retries w)))"
proof (induction sleep func d retries w rule: withRetries.induct)
  case (1 sleep func d retries w)
  obtain r w' where fw: "func w = (r, w')" by fastforce
  show ?case
  proof (cases r)
    case (Inr a)
    with fw show ?thesis by (intro exI [of _ 0]) (simp add: withRetries.simps [of _ _ _ _ w])
  next
    case (Inl err)
    show ?thesis
    proof (cases "retries \<le> 0")
      case True
      with fw Inl show ?thesis by (intro exI [of _ 0]) (simp add: withRetries.simps [of _ _ _ _ w])
    next
      case False
      let ?w = "sleep d w'"
      from "1.IH" [OF fw [symmetric] Inl False] obtain k where
        k: "k \<le> nat (retries - 1)"
        "withRetries sleep func d (retries - 1) ?w = func (attempt_world sleep func d ?w k)"
        "\<forall>j<k. isl (fst (func (attempt_world sleep func d ?w j)))"
        "k = nat (retries - 1) \<or> \<not> isl (fst (withRetries sleep func d (retries - 1) ?w))"
        by auto
      have step: "withRetries sleep func d retries w = withRetries sleep func d (retries - 1) ?w"
        using fw Inl False by (simp add: withRetries.simps [of _ _ _ _ w])
      have before: "isl (fst (func (attempt_world sleep func d w j)))" if "j < Suc k" for j
        using k(3) fw Inl that by (cases j) auto
      show ?thesis
        using k False fw step before by (intro exI [of _ "Suc k"]) (auto simp: Suc_nat_eq_nat_zadd1)
    qed
  qed
qed

text \<open>
  \<^verbatim>\<open>withRetries\<close> returns what one of its attempts returned; every attempt before that
  one failed, there are at most \<open>retries + 1\<close> attempts, and it fails only after the last of them.
\<close>

lemma withRetries_attempts:
  "\<exists>k \<le> nat retries.
     withRetries sleep func d retries w = func (attempt_world sleep func d w k) \<and>
     (\<forall>j<k. isl (fst (func (attempt_world sleep func d w j)))) \<and>
     (isl (fst (withRetries sleep func d retries w)) \<longrightarrow> k = nat retries)"
  using withRetries_trace [of retries sleep func d w] by blast

definition flaky_demo :: "(nat, nat) io" where
  "flaky_demo w = (if w < 2 then (Inl UnauthorizedError, Suc w) else (Inr w, w))"

section \<open>Grouping into a map\<close>

definition group_step :: "('v \<Rightarrow> 'k) \<Rightarrow> ('k \<times> 'v list) list \<Rightarrow> 'v \<Rightarrow> ('k \<times> 'v list) list" where
  "group_step iteratee result entry =
     (let key = iteratee entry;
          keyGroup = (case map_of result key of None \<Rightarrow> [] | Some g \<Rightarrow> g)
      in obj_set key (keyGroup @ [entry]) result)"

definition groupByMap :: "'v list \<Rightarrow> ('v \<Rightarrow> 'k) \<Rightarrow> ('k \<times> 'v list) list" where
  "groupByMap entries iteratee = foldl (group_step iteratee) [] entries"

lemma groupByMap_snoc: "groupByMap (xs @ [x]) f = group_step f (groupByMap xs f) x"
  by (simp add: groupByMap_def)

lemma groupByMap_lookup:
  "map_of (groupByMap es f) k = (if k \<in> f ` set es then Some (filter (\<lambda>e. f e = k) es) else None)"
proof (induction es rule: rev_induct)
  case Nil
  then show ?case by (simp add: groupByMap_def)
next
  case (snoc x xs)
  have "filter (\<lambda>e. f e = k) xs = []" if "k \<notin> f ` set xs"
    using that by (auto simp: filter_empty_conv)
  with snoc show ?case by (auto simp: groupByMap_snoc group_step_def Let_def)
qed

lemma groupByMap_distinct: "distinct (map fst (groupByMap es f))"
  by (induction es rule: rev_induct) (simp_all add: groupByMap_def group_step_def Let_def)

lemma groupByMap_keys: "set (map fst (groupByMap es f)) = f ` set es"
  using dom_map_of_conv_image_fst [of "groupByMap es f"]
  by (auto simp: dom_def groupByMap_lookup split: if_splits)

lemma groupByMap_entry:
  "(k, g) \<in> set (groupByMap es f) \<longleftrightarrow> k \<in> f ` set es \<and> g = filter (\<lambda>e. f e = k) es"
  by (simp add: map_of_eq_Some_iff [OF groupByMap_distinct, symmetric] groupByMap_lookup) auto

lemma groupByMap_union: "(\<Union>(k, g) \<in> set (groupByMap es f). set g) = set es"
proof
  show "set es \<subseteq> (\<Union>(k, g) \<in> set (groupByMap es f). set g)"
  proof
    fix x assume "x \<in> set es"
    then have "(f x, filter (\<lambda>e. f e = f x) es) \<in> set (groupByMap es f)" "x \<in> set (filter (\<lambda>e. f e = f x) es)"
      by (auto simp: groupByMap_entry)
    then show "x \<in> (\<Union>(k, g) \<in> set (groupByMap es f). set g)" by blast
  qed
qed (auto simp: groupByMap_entry)

text \<open>
  \<^verbatim>\<open>groupByMap\<close> has one group per key that occurs, the group of a key holds exactly the
  entries with that key in their original order, and no entry is lost or duplicated.
\<close>

lemma groupByMap_groups:
  "map_of (groupByMap es f) k = (if k \<in> f ` set es then Some (filter (\<lambda>e. f e = k) es) else None) \<and>
   distinct (map fst (groupByMap es f)) \<and>
   sum_list (map (\<lambda>(k, g). length g) (groupByMap es f)) = length es"
proof -
  let ?len = "\<lambda>k. length (filter (\<lambda>e. f e = k) es)"
  have "map (\<lambda>(k, g). length g) (groupByMap es f) = map ?len (map fst (groupByMap es f))"
    by (auto simp: groupByMap_entry)
  then have "sum_list (map (\<lambda>(k, g). length g) (groupByMap es f)) =
      sum ?len (set (map fst (groupByMap es f)))"
    by (simp only: groupByMap_distinct sum_list_distinct_conv_sum_set)
  also have "\<dots> = sum ?len (f ` set es)" by (simp only: groupByMap_keys)
  also have "\<dots> = length es"
  proof -
    have "sum (\<lambda>k. length (filter (\<lambda>e. f e = k) es)) A = length (filter (\<lambda>e. f e \<in> A) es)"
      if "finite A" for A
      using that
    proof (induction A rule: finite_induct)
      case empty
      then show ?case by simp
    next
      case (insert k A)
      have "length (filter (\<lambda>e. f e \<in> insert k A) es) =
          length (filter (\<lambda>e. f e = k) es) + length (filter (\<lambda>e. f e \<in> A) es)"
        using insert.hyps(2) by (induction es) auto
      with insert show ?case by simp
    qed
    from this [of "f ` set es"] show ?thesis by simp
  qed
  finally show ?thesis by (simp add: groupByMap_lookup groupByMap_distinct)
qed

end
