(* ===== verification/EnvVars.thy ===== *)
theory EnvVars
  imports Prelude JsRegex
begin

text \<open>
  The names and values of configuration and environment variables:
  \<^verbatim>\<open>src/features/vars-schema/env-vars.ts\<close> (the reserved, allowed and blocked names, the
  configuration variable schema and the validity checks), the two hooks that run the checks, and
  the answer of \<^verbatim>\<open>schema.ts\<close>.
\<close>

section \<open>Reserved, allowed and blocked names\<close>

definition RESERVED_NAMES :: "string list" where
  "RESERVED_NAMES = [''RESIN'', ''BALENA'', ''USER'']"

definition RESERVED_NAMESPACES :: "string list" where
  "RESERVED_NAMESPACES = [''RESIN_'', ''BALENA_'']"

definition addReservedPrefixes :: "string list \<Rightarrow> string list" where
  "addReservedPrefixes array =
     concat (map (\<lambda>pre. map (\<lambda>value. pre @ value) array) RESERVED_NAMESPACES)"

definition ALLOWED_NAMES :: "string list" where
  "ALLOWED_NAMES = addReservedPrefixes
     [''APP_RESTART_POLICY'',
      ''APP_RESTART_RETRIES'',
      ''DEPENDENT_DEVICES_HOOK_ADDRESS'',
      ''OVERRIDE_LOCK'',
      ''SUPERVISOR_CONNECTIVITY_CHECK'',
      ''SUPERVISOR_HANDOVER_TIMEOUT'',
      ''SUPERVISOR_LOCAL_MODE'',
      ''SUPERVISOR_LOG_CONTROL'',
      ''SUPERVISOR_POLL_INTERVAL'',
      ''SUPERVISOR_UPDATE_STRATEGY'',
      ''SUPERVISOR_VPN_CONTROL'',
      ''SUPERVISOR_PERSISTENT_LOGGING'',
      ''SUPERVISOR_INSTANT_UPDATE_TRIGGER'',
      ''SUPERVISOR_HARDWARE_METRICS'']"

definition ALLOWED_NAMESPACES :: "string list" where
  "ALLOWED_NAMESPACES = addReservedPrefixes [''HOST_'', ''UI_'']"

definition BLOCKED_NAMES :: "string list" where
  "BLOCKED_NAMES = addReservedPrefixes
     [''RESTART'',
      ''DEVICE_RESTART'',
      ''SUPERVISOR_OVERRIDE_LOCK'',
      ''SUPERVISOR_NATIVE_LOGGER'',
      ''HOST_LOG_TO_DISPLAY'']"

text \<open>\<^verbatim>\<open>/^\d|\W/\<close>, \<^verbatim>\<open>/^[\d:]|[^A-Za-z0-9_:]/\<close> and \<^verbatim>\<open>/\r|\n/\<close>.\<close>

definition INVALID_ENV_VAR_REGEX :: re where
  "INVALID_ENV_VAR_REGEX =
     RAlt (RSeq RBegin (RClass is_digit_char)) (RClass (\<lambda>c. \<not> is_word_char c))"

definition config_name_char :: "char \<Rightarrow> bool" where
  "config_name_char c \<longleftrightarrow> is_alpha_char c \<or> is_digit_char c \<or> c = CHR ''_'' \<or> c = CHR '':''"

definition INVALID_CONFIG_VAR_REGEX :: re where
  "INVALID_CONFIG_VAR_REGEX =
     RAlt (RSeq RBegin (RClass (\<lambda>c. is_digit_char c \<or> c = CHR '':'')))
          (RClass (\<lambda>c. \<not> config_name_char c))"

definition INVALID_NEWLINE_REGEX :: re where
  "INVALID_NEWLINE_REGEX = RAlt (RChar (CHR 0x0D)) (RChar (CHR 0x0A))"

section \<open>The configuration variable schema\<close>

text \<open>
  A definition is a JSON schema object.  \<open>default_supervisor_poll_interval\<close> is the deployment's
  \<^verbatim>\<open>DEFAULT_SUPERVISOR_POLL_INTERVAL\<close>.
\<close>

type_synonym config_var_definition = "json obj"

record dt_properties =
  capableDeviceTypes :: "string list"
  properties :: "config_var_definition obj"

text \<open>\<^verbatim>\<open>`${definition.description} Only supported by supervisor versions >= v${version}.`\<close>\<close>

definition describe_minimum :: "string \<Rightarrow> config_var_definition \<Rightarrow> json" where
  "describe_minimum version d =
     JStr ((case map_of d ''description'' of Some (JStr s) \<Rightarrow> s | _ \<Rightarrow> ''undefined'') @
       '' Only supported by supervisor versions >= v'' @ version @ ''.'')"

definition getDefinitionWithMinimumSupervisorVersion ::
  "string list obj \<Rightarrow> config_var_definition obj \<Rightarrow> dt_properties list"
where
  "getDefinitionWithMinimumSupervisorVersion dtsPerSupervisorVersion definitions =
     map (\<lambda>(version, dts).
            \<lparr>capableDeviceTypes = dts,
              properties =
                map (\<lambda>(key, d). (key, obj_set ''description'' (describe_minimum version d) d))
                  definitions\<rparr>)
         dtsPerSupervisorVersion"

definition SUPERVISOR_CONFIG_VAR_PROPERTIES :: "int \<Rightarrow> config_var_definition obj" where
  \<open>SUPERVISOR_CONFIG_VAR_PROPERTIES default_supervisor_poll_interval =
    [(''RESIN_SUPERVISOR_CONNECTIVITY_CHECK'',
       [(''enum'', JArr [JStr ''false'', JStr ''true'']),
        (''description'', JStr ''Enable / Disable Cloudlink connectivity check''),
        (''default'', JStr ''true'')]),
     (''RESIN_SUPERVISOR_LOG_CONTROL'',
       [(''enum'', JArr [JStr ''false'', JStr ''true'']),
        (''description'', JStr ''Enable / Disable logs from being sent to balena API''),
        (''default'', JStr ''true'')]),
     (''RESIN_SUPERVISOR_POLL_INTERVAL'',
       [(''type'', JStr ''integer''),
        (''description'', JStr ''Define the balena API poll interval in milliseconds''),
        (''default'', JNum default_supervisor_poll_interval),
        (''minimum'', JNum default_supervisor_poll_interval), (''maximum'', JNum 86400000)]),
     (''RESIN_SUPERVISOR_VPN_CONTROL'',
       [(''enum'', JArr [JStr ''false'', JStr ''true'']),
        (''description'', JStr ''Enable / Disable Cloudlink service on device''),
        (''default'', JStr ''true'')]),
     (''RESIN_SUPERVISOR_PERSISTENT_LOGGING'',
       [(''enum'', JArr [JStr ''false'', JStr ''true'']),
        (''description'', JStr ''Enable persistent logging. Only supported by supervisor versions >= v7.15.0.''),
        (''will_reboot'', JBool True), (''default'', JStr ''false'')]),
     (''RESIN_SUPERVISOR_INSTANT_UPDATE_TRIGGER'',
       [(''enum'', JArr [JStr ''false'', JStr ''true'']),
        (''description'', JStr ''Enable / Disable triggering updates instantly on startup or after pushing a release. Only supported by supervisor versions >= v9.13.0.''),
        (''default'', JStr ''true'')]),
     (''RESIN_OVERRIDE_LOCK'',
       [(''type'', JStr ''integer''), (''enum'', JArr [JNum 0, JNum 1]),
        (''description'', JStr ''Override existing update lock(s) if your app is stuck in an invalid state under an update lock''),
        (''default'', JNum 0)]),
     (''BALENA_HOST_SPLASH_IMAGE'',
       [(''type'', JStr ''string''), (''format'', JStr ''data-url''),
        (''description'', JStr ''Define the PNG image to be used for the boot splash screen. Only supported by supervisor versions >= v12.3.0.''),
        (''maxLength'', JNum 13400), (''will_reboot'', JBool True),
        (''pattern'', JStr ''^data:image/png;(?:name=(.*);)?base64,(.*)$'')]),
     (''BALENA_SUPERVISOR_HARDWARE_METRICS'',
       [(''enum'', JArr [JStr ''false'', JStr ''true'']),
        (''description'', JStr ''Enable / Disable reporting device metrics such as CPU usage for bandwidth conservation. Only supported by supervisor versions >= v12.8.0.''),
        (''default'', JStr ''true'')])]\<close>

definition raspberry_pi_properties :: dt_properties where
  \<open>raspberry_pi_properties =
   \<lparr>capableDeviceTypes =
      [''fincm3'', ''npe-x500-m3'', ''raspberrypi0-2w-64'', ''raspberry-pi'',
       ''raspberry-pi2'', ''raspberrypi3'', ''raspberrypi3-64'', ''raspberrypi4-64'',
       ''raspberrypi400-64'', ''raspberrypicm4-ioboard'', ''raspberrypi5'',
       ''revpi-connect'', ''revpi-connect-s'', ''revpi-core-3'', ''revpi-connect-4''],
    properties =
    [(''RESIN_HOST_CONFIG_disable_splash'',
       [(''enum'', JArr [JStr ''0'', JStr ''1'']),
        (''description'', JStr ''Enable / Disable the splash screen to display image on boot.''),
        (''will_reboot'', JBool True), (''default'', JStr ''1'')]),
     (''RESIN_HOST_CONFIG_dtparam'',
       [(''type'', JStr ''string''),
        (''description'', JStr ''Define DT parameters for the default overlay.''),
        (''will_reboot'', JBool True), (''default'', JStr ''"i2c_arm=on","spi=on","audio=on"'')]),
     (''RESIN_HOST_CONFIG_dtoverlay'',
       [(''type'', JStr ''string''), (''description'', JStr ''Define DT overlays''),
        (''will_reboot'', JBool True),
        (''examples'', JArr [JStr ''"i2c-rtc,ds1307","lirc-rpi"''])]),
     (''RESIN_HOST_CONFIG_enable_uart'',
       [(''enum'', JArr [JStr ''0'', JStr ''1'']),
        (''description'', JStr ''Enable / Disable UART''), (''will_reboot'', JBool True),
        (''default'', JStr ''1'')]),
     (''RESIN_HOST_CONFIG_gpu_mem'',
       [(''type'', JStr ''integer''),
        (''description'', JStr ''Define device GPU memory in megabytes.''),
        (''will_reboot'', JBool True), (''default'', JNum 16)]),
     (''RESIN_HOST_CONFIG_gpio'',
       [(''type'', JStr ''string''),
        (''description'', JStr ''Allows GPIO pins to be set to specific modes and values at boot time.''),
        (''will_reboot'', JBool True), (''examples'', JArr [JStr ''"19=op,dh","0-25=a2"''])]),
     (''BALENA_HOST_CONFIG_hdmi_cvt'',
       [(''type'', JStr ''string''),
        (''description'', JStr ''Define a custom CVT mode for the HDMI''),
        (''will_reboot'', JBool True), (''examples'', JArr [JStr ''480 360 60 1 0 0 0''])]),
     (''BALENA_HOST_CONFIG_hdmi_force_hotplug'',
       [(''type'', JStr ''integer''), (''enum'', JArr [JNum 0, JNum 1]),
        (''description'', JStr ''Force the HDMI hotplug signal''), (''will_reboot'', JBool True),
        (''default'', JNum 0)]),
     (''BALENA_HOST_CONFIG_hdmi_group'',
       [(''type'', JStr ''integer''), (''description'', JStr ''Define the HDMI output group''),
        (''examples'', JArr [JNum 2]), (''will_reboot'', JBool True), (''default'', JNum 0)]),
     (''BALENA_HOST_CONFIG_hdmi_mode'',
       [(''type'', JStr ''integer''), (''description'', JStr ''Define the HDMI output format''),
        (''examples'', JArr [JNum 87]), (''will_reboot'', JBool True), (''default'', JNum 1)]),
     (''BALENA_HOST_CONFIG_display_rotate'',
       [(''type'', JStr ''string''),
        (''description'', JStr ''Define the rotation or flip of the display''),
        (''examples'', JArr [JStr ''1'', JStr ''0x10000'']), (''will_reboot'', JBool True),
        (''default'', JStr ''0'')])]\<rparr>\<close>

definition odmdata_properties :: "dt_properties list" where
  \<open>odmdata_properties =
   getDefinitionWithMinimumSupervisorVersion
    [(''11.13.0'',
      [''astro-tx2'', ''blackboard-tx2'', ''jetson-tx2'', ''n310-tx2'', ''n510-tx2'',
       ''orbitty-tx2'', ''spacely-tx2'', ''srd3-tx2''])]
    [(''RESIN_HOST_ODMDATA_configuration'',
       [(''type'', JStr ''integer''), (''oneOf'', JArr [JObj [(''const'', JNum 1),
        (''title'', JStr ''Configuration #1'')], JObj [(''const'', JNum 2),
        (''title'', JStr ''Configuration #2'')], JObj [(''const'', JNum 3),
        (''title'', JStr ''Configuration #3'')], JObj [(''const'', JNum 4),
        (''title'', JStr ''Configuration #4'')], JObj [(''const'', JNum 5),
        (''title'', JStr ''Configuration #5'')], JObj [(''const'', JNum 6),
        (''title'', JStr ''Configuration #6'')]]),
        (''description'', JStr ''Define the ODMDATA configuration to configure UPHY lanes.''),
        (''will_reboot'', JBool True), (''default'', JNum 2)])]\<close>

definition extlinux_fdt_properties :: "dt_properties list" where
  \<open>extlinux_fdt_properties =
   getDefinitionWithMinimumSupervisorVersion
    [(''11.14.2'',
      [''astro-tx2'', ''blackboard-tx2'', ''jetson-tx2'', ''n310-tx2'', ''n510-tx2'',
       ''orbitty-tx2'', ''spacely-tx2'', ''srd3-tx2'', ''jetson-nano'',
       ''jetson-nano-emmc'', ''jetson-nano-2gb-devkit'', ''floyd-nano'', ''jn30b-nano'',
       ''photon-nano'', ''jetson-tx2-nx-devkit'', ''photon-tx2-nx'']),
     (''14.0.8'',
      [''imx8m-var-dart'', ''imx8mm-var-dart'']),
     (''14.0.16'',
      [''imx8mm-var-som'']),
     (''14.2.16'',
      [''jetson-agx-orin-devkit'', ''jetson-agx-orin-devkit-64gb'']),
     (''14.10.2'',
      [''jetson-orin-nx-xavier-nx-devkit'']),
     (''14.11.11'',
      [''jetson-orin-nano-devkit-nvme'']),
     (''17.6.28'',
      [''iot-gate-imx8plus'', ''iot-gate-imx8plus-d1d8''])]
    [(''RESIN_HOST_EXTLINUX_fdt'',
       [(''type'', JStr ''string''),
        (''description'', JStr ''Define the file name of the DTB to be used.''),
        (''will_reboot'', JBool True)])]\<close>

definition extlinux_isolcpus_properties :: "dt_properties list" where
  \<open>extlinux_isolcpus_properties =
   getDefinitionWithMinimumSupervisorVersion
    [(''7.25.0'',
      [''astro-tx2'', ''blackboard-tx2'', ''jetson-tx2'', ''n310-tx2'', ''n510-tx2'',
       ''orbitty-tx2'', ''spacely-tx2'', ''srd3-tx2'', ''jetson-nano'',
       ''jetson-nano-emmc'', ''jetson-nano-2gb-devkit'', ''floyd-nano'', ''jn30b-nano'',
       ''photon-nano'', ''jetson-tx2-nx-devkit'', ''photon-tx2-nx''])]
    [(''RESIN_HOST_EXTLINUX_isolcpus'',
       [(''type'', JStr ''string''),
        (''description'', JStr ''Allows to isolate CPU cores from the kernel scheduler by specifying CPU cores in the system starting from 0.''),
        (''examples'', JArr [JStr ''0,2,3'']), (''will_reboot'', JBool True)])]\<close>

definition configfs_ssdt_properties :: "dt_properties list" where
  \<open>configfs_ssdt_properties =
   getDefinitionWithMinimumSupervisorVersion
    [(''10.9.2'',
      [''up-board''])]
    [(''RESIN_HOST_CONFIGFS_ssdt'',
       [(''type'', JStr ''string''),
        (''description'', JStr ''Define SSDT overlays. Only supported by supervisor versions >= v.''),
        (''examples'', JArr [JStr ''"spidev1.0","spidev1.1"'']), (''will_reboot'', JBool True)])]\<close>

definition hdmi_port_2_properties :: "dt_properties list" where
  \<open>hdmi_port_2_properties =
   getDefinitionWithMinimumSupervisorVersion
    [(''14.6.0'',
      [''raspberrypi4-64'', ''raspberrypi400-64'', ''raspberrypicm4-ioboard''])]
    [(''BALENA_HOST_CONFIG_hdmi_force_hotplug:1'',
       [(''type'', JStr ''integer''), (''enum'', JArr [JNum 0, JNum 1]),
        (''description'', JStr ''Force the HDMI hotplug signal on HDMI port 2''),
        (''will_reboot'', JBool True), (''default'', JNum 0)]),
     (''BALENA_HOST_CONFIG_hdmi_group:1'',
       [(''type'', JStr ''integer''),
        (''description'', JStr ''Define the HDMI output group on HDMI port 2''),
        (''examples'', JArr [JNum 2]), (''will_reboot'', JBool True), (''default'', JNum 0)]),
     (''BALENA_HOST_CONFIG_hdmi_mode:1'',
       [(''type'', JStr ''integer''),
        (''description'', JStr ''Define the HDMI output format on HDMI port 2 ''),
        (''examples'', JArr [JNum 87]), (''will_reboot'', JBool True), (''default'', JNum 1)])]\<close>

definition jetpack_6_properties :: "dt_properties list" where
  \<open>jetpack_6_properties =
   getDefinitionWithMinimumSupervisorVersion
    [(''16.10.0'',
      [''jetson-agx-orin-devkit'', ''jetson-agx-orin-devkit-64gb'',
       ''jetson-orin-nano-devkit-nvme'', ''jetson-orin-nano-seeed-j3010'',
       ''jetson-orin-nx-seeed-j4012'', ''jetson-orin-nx-xavier-nx-devkit'']),
     (''17.1.2'',
      [''forecr-dsb-ornx-orin-nano-8gb''])]
    [(''BALENA_HOST_CONFIG_power_mode'',
       [(''type'', JStr ''string''),
        (''description'', JStr ''Define the device power mode. Supported by OS with Jetpack 6 or higher.''),
        (''examples'', JArr [JStr ''low'', JStr ''mid'', JStr ''high'']),
        (''will_reboot'', JBool True)]),
     (''BALENA_HOST_CONFIG_fan_profile'',
       [(''type'', JStr ''string''),
        (''description'', JStr ''Define the device fan profile. Supported by OS with Jetpack 6 or higher.''),
        (''examples'', JArr [JStr ''quiet'', JStr ''cool'', JStr ''default'']),
        (''will_reboot'', JBool False)])]\<close>

definition DEVICE_TYPE_SPECIFIC_CONFIG_VAR_PROPERTIES :: "dt_properties list" where
  "DEVICE_TYPE_SPECIFIC_CONFIG_VAR_PROPERTIES =
     [raspberry_pi_properties] @ odmdata_properties @ extlinux_fdt_properties @
     extlinux_isolcpus_properties @ configfs_ssdt_properties @ hdmi_port_2_properties @
     jetpack_6_properties"

section \<open>The checks\<close>

definition startsWithAny :: "string list \<Rightarrow> string \<Rightarrow> bool" where
  "startsWithAny ns name \<longleftrightarrow> list_ex (\<lambda>n. js_startsWith name n) ns"

definition checkAlphaNumericWithColon :: "string \<Rightarrow> string \<Rightarrow> unit res" where
  "checkAlphaNumericWithColon ty name =
     (if re_test INVALID_CONFIG_VAR_REGEX name
      then Inl (BadRequestError
        (ty @ '' names can only contain alphanumeric characters, underscores or a colon''))
      else Inr ())"

definition checkAlphaNumeric :: "string \<Rightarrow> string \<Rightarrow> unit res" where
  "checkAlphaNumeric ty name =
     (if re_test INVALID_ENV_VAR_REGEX name
      then Inl (BadRequestError
        (ty @ '' names can only contain alphanumeric characters and underscores.''))
      else Inr ())"

definition checkVarName ::
  "string \<Rightarrow> string \<Rightarrow> (string \<Rightarrow> string \<Rightarrow> unit res) \<Rightarrow> unit res"
where
  "checkVarName ty name checkVarFormat =
     res_bind (checkVarFormat ty name) (\<lambda>_.
       if name \<in> set RESERVED_NAMES
       then Inl (BadRequestError (ty @ ''s '' @ js_join '', '' RESERVED_NAMES @ '' are reserved''))
       else Inr ())"

definition checkConfigVarNameValidity :: "string \<Rightarrow> unit res" where
  "checkConfigVarNameValidity name =
     res_bind (checkVarName ''Configuration variable'' name checkAlphaNumericWithColon) (\<lambda>_.
       if \<not> startsWithAny RESERVED_NAMESPACES name
       then Inl (BadRequestError
         (''Configuration variables must be part of one of the following namespaces: '' @
          js_join '', '' RESERVED_NAMESPACES))
       else Inr ())"

definition checkEnvVarNameValidity :: "string \<Rightarrow> unit res" where
  "checkEnvVarNameValidity name =
     res_bind (checkVarName ''Environment variable'' name checkAlphaNumeric) (\<lambda>_.
       if startsWithAny RESERVED_NAMESPACES name
       then Inl (BadRequestError
         (''Environment variables beginning with '' @ js_join '', '' RESERVED_NAMESPACES @
          '' are reserved.''))
       else Inr ())"

definition checkEnvVarValueValidity :: "string \<Rightarrow> unit res" where
  "checkEnvVarValueValidity value =
     (if re_test INVALID_NEWLINE_REGEX value
      then Inl (BadRequestError ''Variable values cannot contain line break characters'')
      else Inr ())"

text \<open>
  The bodies of the hooks in \<^verbatim>\<open>hooks/config-var-validation.ts\<close> and
  \<^verbatim>\<open>hooks/env-var-validation.ts\<close>; a missing name or value is not checked.
\<close>

record var_values =
  var_name :: "string option"
  var_value :: "string option"

definition check_opt :: "(string \<Rightarrow> unit res) \<Rightarrow> string option \<Rightarrow> unit res" where
  "check_opt check x = (case x of None \<Rightarrow> Inr () | Some s \<Rightarrow> check s)"

definition configVarHook :: "var_values \<Rightarrow> unit res" where
  "configVarHook values =
     res_bind (check_opt checkConfigVarNameValidity (var_name values)) (\<lambda>_.
       check_opt checkEnvVarValueValidity (var_value values))"

definition envVarHook :: "var_values \<Rightarrow> unit res" where
  "envVarHook values =
     res_bind (check_opt checkEnvVarNameValidity (var_name values)) (\<lambda>_.
       check_opt checkEnvVarValueValidity (var_value values))"

text \<open>
  The schema endpoint.  \<open>find_dt\<close> is the query for the device type with the given alias the
  requester may see; it answers with its slug, if there is one.
\<close>

record vars_config =
  reservedNames :: "string list"
  reservedNamespaces :: "string list"
  whiteListedNames :: "string list"
  whiteListedNamespaces :: "string list"
  blackListedNames :: "string list"
  configVarSchema_properties :: "config_var_definition obj"

definition config_var_schema_properties ::
  "int \<Rightarrow> string option \<Rightarrow> config_var_definition obj"
where
  "config_var_schema_properties default_poll deviceTypeSlug =
     foldl obj_merge (obj_merge [] (SUPERVISOR_CONFIG_VAR_PROPERTIES default_poll))
       (case deviceTypeSlug of
          None \<Rightarrow> []
        | Some slug \<Rightarrow>
            map properties
              (filter (\<lambda>config. slug \<in> set (capableDeviceTypes config))
                DEVICE_TYPE_SPECIFIC_CONFIG_VAR_PROPERTIES))"

definition schema :: "int \<Rightarrow> (string \<Rightarrow> string option) \<Rightarrow> string option \<Rightarrow> vars_config" where
  "schema default_poll find_dt query_deviceType =
     (let deviceTypeSlug = (case query_deviceType of None \<Rightarrow> None | Some dt \<Rightarrow> find_dt dt)
      in \<lparr>reservedNames = RESERVED_NAMES,
          reservedNamespaces = RESERVED_NAMESPACES,
          whiteListedNames = ALLOWED_NAMES,
          whiteListedNamespaces = ALLOWED_NAMESPACES,
          blackListedNames = BLOCKED_NAMES,
          configVarSchema_properties = config_var_schema_properties default_poll deviceTypeSlug\<rparr>)"

section \<open>What the checks accept\<close>

text \<open>
  A format check is given to \<^const>\<open>checkVarName\<close> as an argument.  The interface says what it
  must do: accept exactly the names of its format.
\<close>

locale var_format =
  fixes check :: "string \<Rightarrow> string \<Rightarrow> unit res"
    and format :: "string \<Rightarrow> bool"
  assumes check_iff: "check ty name = Inr () \<longleftrightarrow> format name"
begin

lemma checkVarName_iff:
  "checkVarName ty name check = Inr () \<longleftrightarrow> format name \<and> name \<notin> set RESERVED_NAMES"
proof -
  have "res_bind (check ty name) f = Inr () \<longleftrightarrow> format name \<and> f () = Inr ()" for f :: "unit \<Rightarrow> unit res"
    using check_iff [of ty name] by (cases "check ty name") auto
  then show ?thesis by (simp add: checkVarName_def)
qed

end

definition env_var_format :: "string \<Rightarrow> bool" where
  "env_var_format name \<longleftrightarrow>
     list_all is_word_char name \<and> \<not> (name \<noteq> [] \<and> is_digit_char (hd name))"

definition config_var_format :: "string \<Rightarrow> bool" where
  "config_var_format name \<longleftrightarrow>
     list_all config_name_char name \<and>
     \<not> (name \<noteq> [] \<and> (is_digit_char (hd name) \<or> hd name = CHR '':''))"

lemma invalid_env_var: "re_test INVALID_ENV_VAR_REGEX name \<longleftrightarrow> \<not> env_var_format name"
  unfolding INVALID_ENV_VAR_REGEX_def re_test_begin_class_or env_var_format_def
  by (cases name) (auto simp: list_all_iff)

lemma invalid_config_var: "re_test INVALID_CONFIG_VAR_REGEX name \<longleftrightarrow> \<not> config_var_format name"
  unfolding INVALID_CONFIG_VAR_REGEX_def re_test_begin_class_or config_var_format_def
  by (cases name) (auto simp: list_all_iff)

interpretation env_format: var_format checkAlphaNumeric env_var_format
  by unfold_locales (simp add: checkAlphaNumeric_def invalid_env_var)

interpretation config_format: var_format checkAlphaNumericWithColon config_var_format
  by unfold_locales (simp add: checkAlphaNumericWithColon_def invalid_config_var)

lemma res_unit_iff: "res_bind m f = Inr () \<longleftrightarrow> m = Inr () \<and> f () = Inr ()"
  for m :: "unit res"
  by (cases m) auto

lemma checkConfigVarName_iff:
  "checkConfigVarNameValidity name = Inr () \<longleftrightarrow>
     config_var_format name \<and> startsWithAny RESERVED_NAMESPACES name"
  unfolding checkConfigVarNameValidity_def res_unit_iff config_format.checkVarName_iff
  by (auto simp: RESERVED_NAMES_def RESERVED_NAMESPACES_def startsWithAny_def js_startsWith_def)

lemma checkEnvVarName_iff:
  "checkEnvVarNameValidity name = Inr () \<longleftrightarrow>
     env_var_format name \<and> name \<notin> set RESERVED_NAMES \<and> \<not> startsWithAny RESERVED_NAMESPACES name"
  unfolding checkEnvVarNameValidity_def res_unit_iff env_format.checkVarName_iff by auto

text \<open>
  A configuration variable name is accepted exactly when it begins with \<^verbatim>\<open>RESIN_\<close> or
  \<^verbatim>\<open>BALENA_\<close> and all of it is letters, digits, underscores and colons.
\<close>

lemma checkConfigVarNameValidity_accepts:
  "checkConfigVarNameValidity name = Inr () \<longleftrightarrow>
     list_all config_name_char name \<and> (prefix ''RESIN_'' name \<or> prefix ''BALENA_'' name)"
proof -
  have "config_var_format name \<longleftrightarrow> list_all config_name_char name"
    if "prefix ''RESIN_'' name \<or> prefix ''BALENA_'' name"
    using that by (auto simp: config_var_format_def prefix_def is_digit_char_def)
  then show ?thesis
    by (auto simp: checkConfigVarName_iff startsWithAny_def RESERVED_NAMESPACES_def
        js_startsWith_prefix)
qed

text \<open>
  The two namespaces are separate: no name is accepted both as an environment variable
  and as a configuration variable.
\<close>

lemma var_namespaces_disjoint:
  "\<not> (checkEnvVarNameValidity name = Inr () \<and> checkConfigVarNameValidity name = Inr ())"
  by (auto simp: checkEnvVarName_iff checkConfigVarName_iff)

lemma invalid_newline_iff:
  "re_test INVALID_NEWLINE_REGEX v \<longleftrightarrow> CHR 0x0D \<in> set v \<or> CHR 0x0A \<in> set v"
proof -
  have "re_search INVALID_NEWLINE_REGEX i v = None \<longleftrightarrow>
      CHR 0x0D \<notin> set v \<and> CHR 0x0A \<notin> set v" for i
    by (induction v arbitrary: i)
      (auto simp: INVALID_NEWLINE_REGEX_def RChar_def re_search_rec)
  then show ?thesis by (auto simp: re_test_def)
qed

text \<open>
  The environment variable hook lets a request through exactly when a name it carries is a
  C-like identifier outside the reserved names and namespaces, and a value it carries has no line
  break.
\<close>

lemma envVarHook_accepts:
  "envVarHook values = Inr () \<longleftrightarrow>
     pred_option (\<lambda>n. env_var_format n \<and> n \<notin> set RESERVED_NAMES \<and>
       \<not> prefix ''RESIN_'' n \<and> \<not> prefix ''BALENA_'' n) (var_name values) \<and>
     pred_option (\<lambda>v. CHR 0x0D \<notin> set v \<and> CHR 0x0A \<notin> set v) (var_value values)"
  unfolding envVarHook_def res_unit_iff check_opt_def
  by (auto simp: checkEnvVarName_iff checkEnvVarValueValidity_def invalid_newline_iff
      startsWithAny_def RESERVED_NAMESPACES_def js_startsWith_prefix split: option.splits)

text \<open>Every variable the schema can offer has a name a user may set.\<close>

definition offered_names :: "int \<Rightarrow> string list" where
  "offered_names default_poll =
     map fst (SUPERVISOR_CONFIG_VAR_PROPERTIES default_poll) @
     concat (map (\<lambda>d. map fst (properties d)) DEVICE_TYPE_SPECIFIC_CONFIG_VAR_PROPERTIES)"

definition settable_name :: "string \<Rightarrow> bool" where
  "settable_name n \<longleftrightarrow> checkConfigVarNameValidity n = Inr () \<and> n \<notin> set BLOCKED_NAMES"

lemma minimum_version_names:
  "concat (map (\<lambda>d. map fst (properties d)) (getDefinitionWithMinimumSupervisorVersion dts defs)) =
     concat (map (\<lambda>_. map fst defs) dts)"
  by (simp add: getDefinitionWithMinimumSupervisorVersion_def comp_def split_def)

lemmas dt_properties_defs =
  odmdata_properties_def extlinux_fdt_properties_def extlinux_isolcpus_properties_def
  configfs_ssdt_properties_def hdmi_port_2_properties_def jetpack_6_properties_def

lemma offered_names_set:
  "set (offered_names p) =
     {''RESIN_SUPERVISOR_CONNECTIVITY_CHECK'', ''RESIN_SUPERVISOR_LOG_CONTROL'',
      ''RESIN_SUPERVISOR_POLL_INTERVAL'', ''RESIN_SUPERVISOR_VPN_CONTROL'',
      ''RESIN_SUPERVISOR_PERSISTENT_LOGGING'', ''RESIN_SUPERVISOR_INSTANT_UPDATE_TRIGGER'',
      ''RESIN_OVERRIDE_LOCK'', ''BALENA_HOST_SPLASH_IMAGE'', ''BALENA_SUPERVISOR_HARDWARE_METRICS'',
      ''RESIN_HOST_CONFIG_disable_splash'', ''RESIN_HOST_CONFIG_dtparam'',
      ''RESIN_HOST_CONFIG_dtoverlay'', ''RESIN_HOST_CONFIG_enable_uart'',
      ''RESIN_HOST_CONFIG_gpu_mem'', ''RESIN_HOST_CONFIG_gpio'', ''BALENA_HOST_CONFIG_hdmi_cvt'',
      ''BALENA_HOST_CONFIG_hdmi_force_hotplug'', ''BALENA_HOST_CONFIG_hdmi_group'',
      ''BALENA_HOST_CONFIG_hdmi_mode'', ''BALENA_HOST_CONFIG_display_rotate'',
      ''RESIN_HOST_ODMDATA_configuration'', ''RESIN_HOST_EXTLINUX_fdt'',
      ''RESIN_HOST_EXTLINUX_isolcpus'', ''RESIN_HOST_CONFIGFS_ssdt'',
      ''BALENA_HOST_CONFIG_hdmi_force_hotplug:1'', ''BALENA_HOST_CONFIG_hdmi_group:1'',
      ''BALENA_HOST_CONFIG_hdmi_mode:1'', ''BALENA_HOST_CONFIG_power_mode'',
      ''BALENA_HOST_CONFIG_fan_profile''}"
  unfolding offered_names_def DEVICE_TYPE_SPECIFIC_CONFIG_VAR_PROPERTIES_def map_append concat_append
    set_append dt_properties_defs minimum_version_names
  by (simp add: SUPERVISOR_CONFIG_VAR_PROPERTIES_def raspberry_pi_properties_def insert_commute)

lemma blocked_names_eq:
  "set BLOCKED_NAMES =
     {''RESIN_RESTART'', ''RESIN_DEVICE_RESTART'', ''RESIN_SUPERVISOR_OVERRIDE_LOCK'',
      ''RESIN_SUPERVISOR_NATIVE_LOGGER'', ''RESIN_HOST_LOG_TO_DISPLAY'',
      ''BALENA_RESTART'', ''BALENA_DEVICE_RESTART'', ''BALENA_SUPERVISOR_OVERRIDE_LOCK'',
      ''BALENA_SUPERVISOR_NATIVE_LOGGER'', ''BALENA_HOST_LOG_TO_DISPLAY''}"
  by (simp add: BLOCKED_NAMES_def addReservedPrefixes_def RESERVED_NAMESPACES_def insert_commute)

lemma offered_names_settable: "\<forall>n \<in> set (offered_names p). settable_name n"
  unfolding offered_names_set settable_name_def blocked_names_eq checkConfigVarName_iff
  by (simp add: config_var_format_def config_name_char_def is_alpha_char_def is_lower_char_def
      is_upper_char_def is_digit_char_def startsWithAny_def RESERVED_NAMESPACES_def
      js_startsWith_def)

lemma obj_merge_keys: "fst ` set (obj_merge a b) = fst ` set a \<union> fst ` set b"
  unfolding obj_merge_def by (induction b arbitrary: a) (auto split: prod.splits)

lemma foldl_merge_keys:
  "fst ` set (foldl obj_merge a bs) = fst ` set a \<union> (\<Union>b \<in> set bs. fst ` set b)"
  by (induction bs arbitrary: a) (auto simp: obj_merge_keys)

text \<open>
  Whatever device type is asked for, each variable of the schema the endpoint answers with
  is one the hooks accept as a configuration variable name, and none of them is blocked.
\<close>

lemma schema_offers_settable:
  "list_all settable_name (map fst (configVarSchema_properties (schema p find_dt q)))"
proof -
  have "fst ` set (config_var_schema_properties p slug) \<subseteq> set (offered_names p)" for slug
    unfolding config_var_schema_properties_def foldl_merge_keys obj_merge_keys offered_names_def
    by (auto split: option.splits)
  then show ?thesis
    using offered_names_settable [of p] by (auto simp: schema_def Let_def list_all_iff image_subset_iff)
qed

end
