(* ===== verification/CacheStore.thy ===== *)
theory CacheStore
  imports Prelude
begin

text \<open>
  The shared caches of \<^verbatim>\<open>src/infra/cache\<close>: \<^verbatim>\<open>createMultiLevelStore\<close>, the memoizer built on it and
  the normalizer that turns the requester of a request into a part of a cache key.

  The underlying cache library is a parameter: a record of its four operations on the world.
\<close>

section \<open>The store interface\<close>

record ('w, 'v) level_store =
  store_get :: "string \<Rightarrow> ('w, 'v option) io"
  store_set :: "string \<Rightarrow> 'v \<Rightarrow> ('w, unit) io"
  store_delete :: "string \<Rightarrow> ('w, unit) io"
  store_wrap :: "string \<Rightarrow> ('w, 'v) io \<Rightarrow> ('w, 'v) io"

text \<open>
  The contract of a store: \<open>contents\<close> is what it holds in a world (an entry that expired or was
  evicted is absent, so time passing only removes entries between two operations).  A read
  returns what is held, a write shows under its key and nowhere else, and \<^verbatim>\<open>wrap\<close> either returns
  what is held without running its function or runs it and may keep the result.
\<close>

locale store_contract =
  fixes st :: "('w, 'v) level_store"
    and contents :: "'w \<Rightarrow> string \<Rightarrow> 'v option"
  assumes get_law: "store_get st k w = (Inr (contents w k), w)"
    and set_law: "\<exists>w'. store_set st k v w = (Inr (), w') \<and> contents w' = (contents w)(k \<mapsto> v)"
    and delete_law: "\<exists>w'. store_delete st k w = (Inr (), w') \<and> contents w' = (contents w)(k := None)"
    and wrap_hit: "contents w k = Some v \<Longrightarrow> store_wrap st k f w = (Inr v, w)"
    and wrap_fail: "contents w k = None \<Longrightarrow> f w = (Inl e, w') \<Longrightarrow> store_wrap st k f w = (Inl e, w')"
    and wrap_miss: "contents w k = None \<Longrightarrow> f w = (Inr v, w') \<Longrightarrow>
      \<exists>w''. store_wrap st k f w = (Inr v, w'') \<and>
        (contents w'' = (contents w')(k \<mapsto> v) \<or> contents w'' = contents w')"
begin

lemma get_set:
  assumes "store_set st k v w = (r, w')"
  shows "store_get st k' w' = (Inr (if k' = k then Some v else contents w k'), w')"
  using set_law [of k v w] assms by (auto simp: get_law)

lemma set_returns: "fst (store_set st k v w) = Inr ()"
  using set_law [of k v w] by auto

lemma wrap_value:
  assumes "store_wrap st k f w = (Inr v, w')"
  shows "contents w k = Some v \<or> (contents w k = None \<and> fst (f w) = Inr v)"
proof (cases "contents w k")
  case None
  show ?thesis
  proof (cases "f w")
    case (Pair r w1)
    then show ?thesis
      using assms None wrap_fail [OF None, of f] wrap_miss [OF None, of f] by (cases r) fastforce+
  qed
next
  case (Some u)
  then show ?thesis using assms wrap_hit [OF Some, of f] by simp
qed

end

section \<open>createMultiLevelStore\<close>

text \<open>
  \<^verbatim>\<open>cacheManager.caching\<close> and \<^verbatim>\<open>multiCaching\<close> are the parameters \<open>caching\<close> (given the options)
  and \<open>multiCaching\<close>; both give a cache, here again the four operations.
\<close>

record multi_store_opt =
  opt_ttl :: rat
  opt_max :: "nat option"
  opt_refreshThreshold :: "rat option"

datatype cache_kind = MemoryStore | RedisStore

record store_opts =
  default_opts :: multi_store_opt
  local_opts :: "multi_store_opt option option"
  global_opts :: "multi_store_opt option"
  use_version :: bool

text \<open>\<open>local_opts = Some None\<close> is \<^verbatim>\<open>local: false\<close>.\<close>

definition override_opts :: "multi_store_opt \<Rightarrow> multi_store_opt option \<Rightarrow> multi_store_opt" where
  "override_opts base over = (case over of None \<Rightarrow> base | Some o' \<Rightarrow> o')"

definition getKey :: "bool \<Rightarrow> string \<Rightarrow> string \<Rightarrow> string \<Rightarrow> string" where
  "getKey useVersion version cacheKey key =
     ''cache$'' @ (if useVersion then version else []) @ ''$'' @ cacheKey @ ''$'' @ key"

definition createMultiLevelStore ::
  "(cache_kind \<Rightarrow> multi_store_opt \<Rightarrow> ('w, 'v) level_store) \<Rightarrow>
   (('w, 'v) level_store list \<Rightarrow> ('w, 'v) level_store) \<Rightarrow> string \<Rightarrow>
   string set \<Rightarrow> string \<Rightarrow> store_opts \<Rightarrow> (('w, 'v) level_store \<times> string set) res"
where
  "createMultiLevelStore caching multiCaching version usedCacheKeys cacheKey opts =
     (if cacheKey \<in> usedCacheKeys
      then Inl (JsError (''Cache key '' @ [CHR 0x27] @ cacheKey @ [CHR 0x27] @ '' has already been taken''))
      else
        let memoryCache =
              (case local_opts opts of
                 Some None \<Rightarrow> None
               | Some (Some l) \<Rightarrow> Some (caching MemoryStore (override_opts (default_opts opts) (Some l)))
               | None \<Rightarrow> Some (caching MemoryStore (default_opts opts)));
            redisCache = caching RedisStore (override_opts (default_opts opts) (global_opts opts));
            cache = (case memoryCache of
                       Some m \<Rightarrow> multiCaching [m, redisCache]
                     | None \<Rightarrow> redisCache);
            full = getKey (use_version opts) version cacheKey
        in Inr (\<lparr>store_get = (\<lambda>key. store_get cache (full key)),
                 store_set = (\<lambda>key value. store_set cache (full key) value),
                 store_delete = (\<lambda>key. store_delete cache (full key)),
                 store_wrap = (\<lambda>key fn. store_wrap cache (full key) fn)\<rparr>,
                insert cacheKey usedCacheKeys))"

text \<open>Which values the shared cache accepts: never \<^verbatim>\<open>undefined\<close> or \<^verbatim>\<open>null\<close>.\<close>

definition redis_cacheable :: "('v option \<Rightarrow> bool) option \<Rightarrow> 'v option \<Rightarrow> bool" where
  "redis_cacheable isCacheableValue v \<longleftrightarrow>
     v \<noteq> None \<and> (case isCacheableValue of None \<Rightarrow> True | Some p \<Rightarrow> p v)"

text \<open>
  A store keeps the contract of the cache it is built on, seen through its key prefix: this is
  the provider's side of the interface.
\<close>

definition prefixed :: "('w, 'v) level_store \<Rightarrow> (string \<Rightarrow> string) \<Rightarrow> ('w, 'v) level_store" where
  "prefixed cache full =
     \<lparr>store_get = (\<lambda>key. store_get cache (full key)),
      store_set = (\<lambda>key value. store_set cache (full key) value),
      store_delete = (\<lambda>key. store_delete cache (full key)),
      store_wrap = (\<lambda>key fn. store_wrap cache (full key) fn)\<rparr>"

lemma getKey_inject: "getKey u ver ck k = getKey u ver ck k' \<longleftrightarrow> k = k'"
  by (simp add: getKey_def)

lemma prefixed_contract:
  fixes cache :: "('w, 'v) level_store"
  assumes "store_contract cache contents" and inj: "\<And>k k'. full k = full k' \<longleftrightarrow> k = k'"
  shows "store_contract (prefixed cache full) (\<lambda>w k. contents w (full k))"
proof -
  note c_laws = store_contract.get_law [OF assms(1)] store_contract.wrap_hit [OF assms(1)]
    store_contract.wrap_fail [OF assms(1)]
  show ?thesis
  proof
    fix k w v
    show "store_get (prefixed cache full) k w = (Inr (contents w (full k)), w)"
      by (simp add: prefixed_def c_laws)
    show "\<exists>w'. store_set (prefixed cache full) k v w = (Inr (), w') \<and>
        (\<lambda>ka. contents w' (full ka)) = (\<lambda>ka. contents w (full ka))(k \<mapsto> v)"
      using store_contract.set_law [OF assms(1), of "full k" v w] inj by (auto simp: prefixed_def fun_eq_iff)
    show "\<exists>w'. store_delete (prefixed cache full) k w = (Inr (), w') \<and>
        (\<lambda>ka. contents w' (full ka)) = (\<lambda>ka. contents w (full ka))(k := None)"
      using store_contract.delete_law [OF assms(1), of "full k" w] inj by (auto simp: prefixed_def fun_eq_iff)
  next
    fix w k v and f :: "('w, 'v) io"
    assume "contents w (full k) = Some v"
    then show "store_wrap (prefixed cache full) k f w = (Inr v, w)"
      by (simp add: prefixed_def c_laws)
  next
    fix w k and f :: "('w, 'v) io" and e w'
    assume "contents w (full k) = None" "f w = (Inl e, w')"
    then show "store_wrap (prefixed cache full) k f w = (Inl e, w')"
      by (simp add: prefixed_def c_laws)
  next
    fix w k and f :: "('w, 'v) io" and v w'
    assume "contents w (full k) = None" "f w = (Inr v, w')"
    from store_contract.wrap_miss [where contents = contents and w = w and f = f, OF assms(1) this] inj
    show "\<exists>w''. store_wrap (prefixed cache full) k f w = (Inr v, w'') \<and>
        ((\<lambda>ka. contents w'' (full ka)) = (\<lambda>ka. contents w' (full ka))(k \<mapsto> v) \<or>
         (\<lambda>ka. contents w'' (full ka)) = (\<lambda>ka. contents w' (full ka)))"
      by (auto simp: prefixed_def fun_eq_iff)
  qed
qed

text \<open>
  A cache that satisfies the contract: a map that keeps what it is given, with \<^verbatim>\<open>wrap\<close> keeping
  every result.  It shows that the contract can be met, and serves the witnesses.
\<close>

type_synonym 'v map_world = "string \<Rightarrow> 'v option"

definition map_cache :: "('v map_world, 'v) level_store" where
  "map_cache =
     \<lparr>store_get = (\<lambda>k w. (Inr (w k), w)),
      store_set = (\<lambda>k v w. (Inr (), w(k \<mapsto> v))),
      store_delete = (\<lambda>k w. (Inr (), w(k := None))),
      store_wrap = (\<lambda>k f w. case w k of
          Some v \<Rightarrow> (Inr v, w)
        | None \<Rightarrow> (case f w of (Inl e, w') \<Rightarrow> (Inl e, w') | (Inr v, w') \<Rightarrow> (Inr v, w'(k \<mapsto> v))))\<rparr>"

interpretation map_cache: store_contract map_cache "\<lambda>w k. w k"
  by unfold_locales (auto simp: map_cache_def)

lemma createMultiLevelStore_prefixed:
  assumes "createMultiLevelStore caching multiCaching version used ck opts = Inr (st, used')"
  shows "\<exists>cache. st = prefixed cache (getKey (use_version opts) version ck) \<and>
    (cache \<in> range (caching RedisStore) \<or> cache \<in> range multiCaching)"
  using assms
  by (auto simp: createMultiLevelStore_def Let_def prefixed_def split: if_splits option.splits)

text \<open>
  A store made by \<^verbatim>\<open>createMultiLevelStore\<close> keeps the cache contract: reads see the last
  write to the same key, a write to one key leaves the others alone, and \<^verbatim>\<open>wrap\<close> runs its function
  only on a miss. This rests on the contract of the two cache constructors of the library.
\<close>

lemma createMultiLevelStore_contract:
  assumes "createMultiLevelStore caching multiCaching version used ck opts = Inr (st, used')"
    and "\<And>o'. \<exists>c. store_contract (caching RedisStore o') c"
    and "\<And>cs. \<exists>c. store_contract (multiCaching cs) c"
  shows "\<exists>contents. store_contract st contents"
proof -
  from createMultiLevelStore_prefixed [OF assms(1)] obtain cache where
    st: "st = prefixed cache (getKey (use_version opts) version ck)"
    and "cache \<in> range (caching RedisStore) \<or> cache \<in> range multiCaching" by blast
  with assms(2,3) obtain c where "store_contract cache c" by auto
  from prefixed_contract [OF this getKey_inject] st show ?thesis by blast
qed

text \<open>
  Two stores whose cache keys have no dollar sign and differ never touch the same key of the
  shared cache.
\<close>

lemma getKey_separates_stores:
  assumes "CHR ''$'' \<notin> set ck1" and "CHR ''$'' \<notin> set ck2" and "ck1 \<noteq> ck2"
  shows "getKey u ver ck1 k1 \<noteq> getKey u ver ck2 k2"
proof
  assume "getKey u ver ck1 k1 = getKey u ver ck2 k2"
  then have "ck1 @ ''$'' @ k1 = ck2 @ ''$'' @ k2" by (simp add: getKey_def)
  then have "takeWhile (\<lambda>c. c \<noteq> CHR ''$'') (ck1 @ CHR ''$'' # k1) =
      takeWhile (\<lambda>c. c \<noteq> CHR ''$'') (ck2 @ CHR ''$'' # k2)" by simp
  moreover have "takeWhile (\<lambda>c. c \<noteq> CHR ''$'') (ck @ CHR ''$'' # k) = ck"
    if "CHR ''$'' \<notin> set ck" for ck k :: string
    using that by (subst takeWhile_append2) auto
  ultimately show False using assms by simp
qed

section \<open>The memoizer\<close>

text \<open>
  The options of \<^verbatim>\<open>multiCacheMemoizee\<close>; \<open>other_keys\<close> are option names it does not know, and
  \<open>preFetch\<close> is \<^verbatim>\<open>true\<close> or a ratio.
\<close>

datatype pre_fetch = PreFetchDefault | PreFetchRatio rat

record memo_opts =
  memo_cacheKey :: string
  memo_promise :: bool
  memo_primitive :: bool
  memo_preFetch :: "pre_fetch option"
  memo_maxAge :: rat
  memo_max :: "nat option"
  other_keys :: "string list"

record memo_level =
  level_maxAge :: "rat option"
  level_max :: "nat option"
  level_preFetch :: "pre_fetch option"
  level_other_keys :: "string list"

datatype memo_local = LocalDisabled | LocalOpts memo_level

definition checkUnsupportedExtraCacheKeys :: "memo_level option \<Rightarrow> string \<Rightarrow> unit res" where
  "checkUnsupportedExtraCacheKeys opts cacheType =
     (case opts of
        None \<Rightarrow> Inr ()
      | Some l \<Rightarrow>
          (if level_other_keys l \<noteq> []
           then Inl (JsError (''Unsupported '' @ cacheType @ '' cache options: '' @
             js_join '','' (level_other_keys l)))
           else Inr ()))"

text \<open>The time to live is in seconds, \<open>maxAge\<close> in milliseconds.\<close>

definition convertToMultiStoreOpts :: "memo_opts \<Rightarrow> multi_store_opt" where
  "convertToMultiStoreOpts options =
     (let ttl = memo_maxAge options / 1000
      in \<lparr>opt_ttl = ttl,
          opt_max = memo_max options,
          opt_refreshThreshold =
            (case memo_preFetch options of
               None \<Rightarrow> None
             | Some PreFetchDefault \<Rightarrow> Some (ttl * (333 / 1000))
             | Some (PreFetchRatio r) \<Rightarrow> Some (ttl * r))\<rparr>)"

definition override_memo :: "memo_opts \<Rightarrow> memo_level option \<Rightarrow> memo_opts" where
  "override_memo opts over =
     (case over of
        None \<Rightarrow> opts
      | Some l \<Rightarrow>
          opts\<lparr>memo_maxAge := (case level_maxAge l of None \<Rightarrow> memo_maxAge opts | Some a \<Rightarrow> a),
               memo_max := (case level_max l of None \<Rightarrow> memo_max opts | Some m \<Rightarrow> Some m),
               memo_preFetch :=
                 (case level_preFetch l of None \<Rightarrow> memo_preFetch opts | Some p \<Rightarrow> Some p)\<rparr>)"

definition multiCacheMemoizee_opts ::
  "memo_opts \<Rightarrow> memo_local option \<Rightarrow> memo_level option \<Rightarrow> bool \<Rightarrow> store_opts res"
where
  "multiCacheMemoizee_opts opts extra_local extra_global useVersion =
     (if other_keys opts \<noteq> []
      then Inl (JsError (''Unsupported options: '' @ js_join '','' (other_keys opts)))
      else
        res_bind
          (case extra_local of
             Some LocalDisabled \<Rightarrow> Inr ()
           | Some (LocalOpts l) \<Rightarrow> checkUnsupportedExtraCacheKeys (Some l) ''local''
           | None \<Rightarrow> checkUnsupportedExtraCacheKeys None ''local'') (\<lambda>_.
        res_bind (checkUnsupportedExtraCacheKeys extra_global ''shared'') (\<lambda>_.
          if \<not> memo_promise opts
          then Inl (JsError ''Only promise mode memoization is supported'')
          else if \<not> memo_primitive opts
          then Inl (JsError ''Only primitive mode memoization is supported'')
          else if memo_cacheKey opts = []
          then Inl (JsError ''cacheKey cannot be empty, this can happen if you use an anonymous function and do not manually specify a cacheKey'')
          else Inr
            \<lparr>default_opts = convertToMultiStoreOpts opts,
             local_opts =
               (case extra_local of
                  Some LocalDisabled \<Rightarrow> Some None
                | Some (LocalOpts l) \<Rightarrow> Some (Some (convertToMultiStoreOpts (override_memo opts (Some l))))
                | None \<Rightarrow> Some (Some (convertToMultiStoreOpts opts))),
             global_opts = Some (convertToMultiStoreOpts (override_memo opts extra_global)),
             use_version = useVersion\<rparr>)))"

text \<open>
  The memoized function of \<^verbatim>\<open>multiCache\<close>: a result of \<^verbatim>\<open>undefined\<close> (\<open>None\<close>) is stored as
  \<open>undefinedAs\<close> and turned back when it is read.  The values of the store are optional, since
  without \<open>undefinedAs\<close> an \<^verbatim>\<open>undefined\<close> goes to the store as it is.
\<close>

definition memoizedFn ::
  "('w, 'v option) level_store \<Rightarrow> ('args \<Rightarrow> string) \<Rightarrow> 'v option \<Rightarrow>
   ('args \<Rightarrow> ('w, 'v option) io) \<Rightarrow> 'args \<Rightarrow> ('w, 'v option) io"
where
  "memoizedFn cache normalizer undefinedAs fn args =
     io_bind
       (store_wrap cache (normalizer args)
         (io_bind (fn args) (\<lambda>valueToCache.
           io_return (case valueToCache of None \<Rightarrow> undefinedAs | Some v \<Rightarrow> Some v))))
       (\<lambda>valueFromCache. io_return (if valueFromCache = undefinedAs then None else valueFromCache))"

definition memoizedFn_delete ::
  "('w, 'v option) level_store \<Rightarrow> ('args \<Rightarrow> string) \<Rightarrow> 'args \<Rightarrow> ('w, unit) io"
where
  "memoizedFn_delete cache normalizer args = store_delete cache (normalizer args)"

context store_contract
begin

lemma wrap_run_fail:
  "contents w k = None \<Longrightarrow> fst (f w) = Inl e \<Longrightarrow> fst (store_wrap st k f w) = Inl e"
  using wrap_fail [of w k f e "snd (f w)"] by (cases "f w") auto

lemma wrap_run_ok:
  "contents w k = None \<Longrightarrow> fst (f w) = Inr v \<Longrightarrow> fst (store_wrap st k f w) = Inr v"
  using wrap_miss [of w k f v "snd (f w)"] by (cases "f w") auto

end



section \<open>The requester part of a key\<close>

record perm_holder =
  holder_actor :: "int option"
  holder_permissions :: "string list option"

record perm_req =
  req_user :: "perm_holder option"
  req_apiKey :: "perm_holder option"

text \<open>\<open>fnv1a\<close> is the hash of the library, printed in base 36.\<close>

definition hashPermissions :: "(string \<Rightarrow> string) \<Rightarrow> string list option \<Rightarrow> string" where
  "hashPermissions fnv1a permissions =
     (case permissions of
        None \<Rightarrow> []
      | Some ps \<Rightarrow> fnv1a (js_join '','' ps) @ show_nat (length ps))"

definition has_permissions :: "perm_holder option \<Rightarrow> bool" where
  "has_permissions h \<longleftrightarrow> (case h of None \<Rightarrow> False | Some p \<Rightarrow> holder_permissions p \<noteq> None)"

definition reqPermissionNormalizer :: "(string \<Rightarrow> string) \<Rightarrow> perm_req \<Rightarrow> string" where
  "reqPermissionNormalizer fnv1a req =
     (let userOrApiKey =
            (if has_permissions (req_user req) then req_user req
             else if has_permissions (req_apiKey req) then req_apiKey req
             else None)
      in (case Option.bind userOrApiKey holder_actor of None \<Rightarrow> ''undefined'' | Some a \<Rightarrow> show_int a) @
         ''$'' @ hashPermissions fnv1a (Option.bind userOrApiKey holder_permissions))"

lemma show_int_no_dollar: "CHR ''$'' \<notin> set (show_int a)"
  using show_nat_digits [of "nat a"] show_nat_digits [of "nat (- a)"]
  by (auto simp: show_int_def is_digit_char_def)

text \<open>
  The normalizer never mixes up two actors: requests whose permissions come from holders with
  different actors get different keys.
\<close>

lemma reqPermissionNormalizer_actor:
  assumes "reqPermissionNormalizer h
      \<lparr>req_user = None, req_apiKey = Some \<lparr>holder_actor = Some a, holder_permissions = Some ps\<rparr>\<rparr> =
    reqPermissionNormalizer h
      \<lparr>req_user = Some \<lparr>holder_actor = Some b, holder_permissions = Some qs\<rparr>, req_apiKey = k\<rparr>"
  shows "a = b"
proof -
  let ?tw = "takeWhile (\<lambda>c. c \<noteq> CHR ''$'')"
  have tw: "?tw (show_int i @ CHR ''$'' # s) = show_int i" for i s
    by (subst takeWhile_append2) (use show_int_no_dollar in auto)
  from assms have "?tw (show_int a @ CHR ''$'' # hashPermissions h (Some ps)) =
      ?tw (show_int b @ CHR ''$'' # hashPermissions h (Some qs))"
    by (simp add: reqPermissionNormalizer_def has_permissions_def)
  then show ?thesis by (simp add: tw show_int_inject)
qed

end
