(* ===== verification/StateGet.thy ===== *)
theory StateGet
  imports Prelude JsRegex CacheStore
begin

text \<open>
  The target state a device (or a fleet) is told to run: \<^verbatim>\<open>src/features/device-state\<close>,
  \<^verbatim>\<open>state-get-utils.ts\<close>, \<^verbatim>\<open>routes/state-get-v3.ts\<close>, \<^verbatim>\<open>routes/state-get-v2.ts\<close> and
  \<^verbatim>\<open>routes/fleet-state-get-v3.ts\<close>.

  The answers of the database client are records with the fields the queries select; a to-one
  expansion (\<^verbatim>\<open>image[0]\<close>, \<^verbatim>\<open>is_a_build_of__service[0]\<close>, \<^verbatim>\<open>belongs_to__application[0]\<close>) is
  the record itself, an optional one is an option.
\<close>

section \<open>Configuration\<close>

type_synonym env_vars = "(string \<times> string) list"

definition varListInsert :: "env_vars \<Rightarrow> string obj \<Rightarrow> (string \<Rightarrow> bool) \<Rightarrow> string obj" where
  "varListInsert varList o' filterFn =
     fold (\<lambda>(name, value) o'. if filterFn name then obj_set name value o' else o') varList o'"

abbreviation no_filter :: "string \<Rightarrow> bool" where
  "no_filter \<equiv> \<lambda>_. True"

text \<open>\<^verbatim>\<open>/^(BALENA|RESIN)_UI/\<close>\<close>

definition UI_CONFIG_REGEX :: re where
  "UI_CONFIG_REGEX =
     RSeqs [RBegin, RGroup 1 (RAlt (RLit ''BALENA'') (RLit ''RESIN'')), RLit ''_UI'']"

definition rejectUiConfig :: "string \<Rightarrow> bool" where
  "rejectUiConfig name \<longleftrightarrow> \<not> re_test UI_CONFIG_REGEX name"

text \<open>
  \<^verbatim>\<open>Math.max\<close> of a parsed number and an integer: \<^verbatim>\<open>NaN\<close> (\<open>None\<close>) is contagious, and prints as
  \<^verbatim>\<open>NaN\<close>.
\<close>

definition setMinPollInterval :: "int \<Rightarrow> string obj \<Rightarrow> string obj" where
  "setMinPollInterval default_poll config =
     (let pollInterval =
            (case map_of config ''RESIN_SUPERVISOR_POLL_INTERVAL'' of
               None \<Rightarrow> Some 0
             | Some s \<Rightarrow> parseInt10 s)
      in obj_set ''RESIN_SUPERVISOR_POLL_INTERVAL''
           (case pollInterval of
              None \<Rightarrow> ''NaN''
            | Some n \<Rightarrow> show_int (max n default_poll))
           config)"

type_synonym config_fn = "string obj \<Rightarrow> string obj"

definition addDefaultConfigVariableFn :: "config_fn list \<Rightarrow> config_fn \<Rightarrow> config_fn list" where
  "addDefaultConfigVariableFn fns fn = fns @ [fn]"

definition setDefaultConfigVariables :: "config_fn list \<Rightarrow> config_fn" where
  "setDefaultConfigVariables fns config = foldl (\<lambda>c fn. fn c) config fns"

definition filterDeviceConfig :: "string obj \<Rightarrow> string obj" where
  "filterDeviceConfig configVars = obj_delete ''RESIN_HOST_LOG_TO_DISPLAY'' configVars"

section \<open>What the queries return\<close>

record service_rec =
  svc_id :: int
  service_name :: string
  service_environment_variable :: env_vars
  service_label :: env_vars

record image_rec =
  image_id :: int
  is_stored_at__image_location :: string
  content_hash :: "string option"
  image_contract :: json
  is_a_build_of__service :: service_rec

record release_image_rec =
  ipr_image :: image_rec
  image_label :: env_vars
  image_environment_variable :: env_vars
  image_profile :: "string list"

record release_rec =
  release_id :: int
  release_commit :: string
  release_composition :: json
  release_image :: "release_image_rec list"

text \<open>
  The updater block of a hostApp is reached through four optional steps: applications, their
  target releases, the images of a release and the image itself (location and content hash).
\<close>

type_synonym updater_image = "string \<times> string option"
type_synonym updater_chain = "updater_image list list list list"

record application_rec =
  app_id :: int
  app_uuid :: string
  app_name :: string
  is_host :: bool
  is_of__class :: string
  application_environment_variable :: env_vars
  application_config_variable :: env_vars
  app_services :: "int list option"
  is_updated_by__application :: "updater_chain option"
  activates_profiles :: "(string \<times> int) list"

record dsev_rec =
  dsev_name :: string
  dsev_value :: string
  dsev_service :: int

record device_rec =
  device_name :: string
  device_config_variable :: env_vars
  device_environment_variable :: env_vars
  device_service_environment_variable :: "dsev_rec list"
  belongs_to__application :: application_rec
  should_be_running__release :: "release_rec option"
  should_be_managed_by__release :: "(release_rec \<times> application_rec) option"
  should_be_operated_by__release :: "(release_rec \<times> application_rec) option"

definition getConfig ::
  "config_fn list \<Rightarrow> device_rec option \<Rightarrow> application_rec option \<Rightarrow> string obj"
where
  "getConfig fns device application_arg =
     (let application =
            (case application_arg of
               Some a \<Rightarrow> Some a
             | None \<Rightarrow> map_option belongs_to__application device);
          config1 = (case application of
               None \<Rightarrow> []
             | Some a \<Rightarrow> varListInsert (application_config_variable a) [] rejectUiConfig);
          config2 = (case device of
               None \<Rightarrow> config1
             | Some d \<Rightarrow> varListInsert (device_config_variable d) config1 rejectUiConfig)
      in setDefaultConfigVariables fns (filterDeviceConfig config2))"

section \<open>The composition\<close>

text \<open>
  \<^verbatim>\<open>JSON.parse\<close> is a parameter.  A composition that is an object or an array is used as it is;
  anything else is first turned into a string by the parser, which only matters for strings: the
  other primitives read back as themselves.
\<close>

definition parse_composition :: "(string \<Rightarrow> json res) \<Rightarrow> json \<Rightarrow> json" where
  "parse_composition json_parse c =
     (case c of
        JStr s \<Rightarrow> (case json_parse s of Inl e \<Rightarrow> JObj [] | Inr j \<Rightarrow> j)
      | _ \<Rightarrow> c)"

text \<open>
  \<^verbatim>\<open>j?.[name]\<close>: a property of an object; \<^verbatim>\<open>null\<close>, \<^verbatim>\<open>undefined\<close> and values without the property
  give \<open>None\<close>.
\<close>

fun json_prop :: "json \<Rightarrow> string \<Rightarrow> json option" where
  "json_prop (JObj o') name = (case map_of o' name of Some JNull \<Rightarrow> None | r \<Rightarrow> r)"
| "json_prop _ name = None"

fun json_delete :: "string \<Rightarrow> json \<Rightarrow> json" where
  "json_delete name (JObj o') = JObj (obj_delete name o')"
| "json_delete name j = j"

definition composition_service :: "json \<Rightarrow> string \<Rightarrow> json option" where
  "composition_service composition name =
     map_option (json_delete ''build'')
       (Option.bind (json_prop composition ''services'') (\<lambda>ss. json_prop ss name))"

definition formatImageLocation :: "string \<Rightarrow> string" where
  "formatImageLocation imageLocation = js_toLowerCase imageLocation"

definition ConfigurationVarsToLabels :: "(string \<times> string) list" where
  "ConfigurationVarsToLabels =
     [(''RESIN_SUPERVISOR_UPDATE_STRATEGY'', ''io.resin.update.strategy''),
      (''RESIN_SUPERVISOR_HANDOVER_TIMEOUT'', ''io.resin.update.handover-timeout'')]"

definition add_config_labels :: "string obj \<Rightarrow> string obj \<Rightarrow> string obj" where
  "add_config_labels config labels =
     fold (\<lambda>(confName, labelName) labels.
             case map_of config confName of
               Some v \<Rightarrow> (if map_of labels labelName = None then obj_set labelName v labels else labels)
             | None \<Rightarrow> labels)
       ConfigurationVarsToLabels labels"

definition image_registry :: "string \<Rightarrow> string option \<Rightarrow> string" where
  "image_registry location hash =
     location @ (case hash of None \<Rightarrow> [] | Some h \<Rightarrow> ''@'' @ h)"

section \<open>State v3: one application from its release\<close>

record service_state =
  st_id :: int
  st_image_id :: int
  st_image :: string
  st_environment :: "string obj"
  st_labels :: "string obj"
  st_contract :: "json option"
  st_composition :: "json option"

record release_state =
  rst_id :: int
  rst_services :: "service_state obj option"
  rst_networks :: "json option"
  rst_volumes :: "json option"

fun opt_hd :: "'a list \<Rightarrow> 'a option" where
  "opt_hd [] = None"
| "opt_hd (x # xs) = Some x"

definition updater_image_url :: "application_rec \<Rightarrow> string option" where
  "updater_image_url application =
     (let updaterImage =
            Option.bind (is_updated_by__application application) (\<lambda>apps.
            Option.bind (opt_hd apps) (\<lambda>releases.
            Option.bind (opt_hd releases) (\<lambda>images.
            Option.bind (opt_hd images) (\<lambda>image. opt_hd image))))
      in map_option (\<lambda>(location, hash). image_registry location hash) updaterImage)"

text \<open>
  The environment of one service: image, application, service, device and device service
  variables, each overriding the ones before.  \<open>group_by\<close> is the grouping function of the
  utility library.
\<close>

definition service_environment ::
  "((dsev_rec \<Rightarrow> int) \<Rightarrow> dsev_rec list \<Rightarrow> int \<Rightarrow> dsev_rec list option) \<Rightarrow>
   device_rec option \<Rightarrow> application_rec \<Rightarrow> release_image_rec \<Rightarrow> string obj"
where
  "service_environment group_by device application ipr =
     (let svc = is_a_build_of__service (ipr_image ipr);
          e1 = varListInsert (image_environment_variable ipr) [] no_filter;
          e2 = varListInsert (application_environment_variable application) e1 no_filter;
          e3 = varListInsert (service_environment_variable svc) e2 no_filter
      in case device of
           None \<Rightarrow> e3
         | Some d \<Rightarrow>
             let e4 = varListInsert (device_environment_variable d) e3 no_filter
             in case group_by dsev_service (device_service_environment_variable d) (svc_id svc) of
                  None \<Rightarrow> e4
                | Some dsevs \<Rightarrow>
                    varListInsert (map (\<lambda>v. (dsev_name v, dsev_value v)) dsevs) e4 no_filter)"

definition service_labels ::
  "string obj \<Rightarrow> string obj option \<Rightarrow> string option \<Rightarrow> release_image_rec \<Rightarrow> string obj"
where
  "service_labels config defaultLabels updaterUrl ipr =
     (let svc = is_a_build_of__service (ipr_image ipr);
          l1 = obj_merge [] (case defaultLabels of None \<Rightarrow> [] | Some d \<Rightarrow> d);
          l2 = fold (\<lambda>(label_name, value). obj_set label_name value)
                 (image_label ipr @ service_label svc) l1;
          l3 = add_config_labels config l2
      in case updaterUrl of
           None \<Rightarrow> l3
         | Some url \<Rightarrow> obj_set ''io.balena.private.updater'' url l3)"

definition image_active :: "string set \<Rightarrow> release_image_rec \<Rightarrow> bool" where
  "image_active activeProfiles ipr \<longleftrightarrow>
     \<not> (image_profile ipr \<noteq> [] \<and> \<not> list_ex (\<lambda>p. p \<in> activeProfiles) (image_profile ipr))"

definition build_service ::
  "((dsev_rec \<Rightarrow> int) \<Rightarrow> dsev_rec list \<Rightarrow> int \<Rightarrow> dsev_rec list option) \<Rightarrow>
   device_rec option \<Rightarrow> application_rec \<Rightarrow> json \<Rightarrow> string obj \<Rightarrow> string obj option \<Rightarrow>
   release_image_rec \<Rightarrow> service_state res"
where
  "build_service group_by device application composition config defaultLabels ipr =
     (let image = ipr_image ipr;
          svc = is_a_build_of__service image
      in if (case app_services application of
               None \<Rightarrow> False
             | Some ids \<Rightarrow> \<not> list_ex (\<lambda>i. i = svc_id svc) ids)
         then Inl (JsError (''Service '' @ [CHR 0x27] @ show_int (svc_id svc) @ [CHR 0x27] @
           '' not found in application '' @ [CHR 0x27] @ app_uuid application @ [CHR 0x27]))
         else Inr
           \<lparr>st_id = svc_id svc,
            st_image_id = image_id image,
            st_image = formatImageLocation
              (image_registry (is_stored_at__image_location image) (content_hash image)),
            st_environment = service_environment group_by device application ipr,
            st_labels = service_labels config defaultLabels (updater_image_url application) ipr,
            st_contract = (if image_contract image = JNull then None else Some (image_contract image)),
            st_composition = composition_service composition (service_name svc)\<rparr>)"

text \<open>The loop over the images of the release; an error stops it.\<close>

fun build_services ::
  "(release_image_rec \<Rightarrow> service_state res) \<Rightarrow> string set \<Rightarrow> release_image_rec list \<Rightarrow>
   service_state obj \<Rightarrow> service_state obj res"
where
  "build_services build activeProfiles [] services = Inr services"
| "build_services build activeProfiles (ipr # iprs) services =
     (if \<not> image_active activeProfiles ipr
      then build_services build activeProfiles iprs services
      else res_bind (build ipr) (\<lambda>s.
        build_services build activeProfiles iprs
          (obj_set (service_name (is_a_build_of__service (ipr_image ipr))) s services)))"

text \<open>
  Reading \<^verbatim>\<open>composition.networks\<close> of a \<^verbatim>\<open>null\<close> composition is a \<^verbatim>\<open>TypeError\<close>.
\<close>

definition buildAppFromRelease ::
  "(string \<Rightarrow> json res) \<Rightarrow>
   ((dsev_rec \<Rightarrow> int) \<Rightarrow> dsev_rec list \<Rightarrow> int \<Rightarrow> dsev_rec list option) \<Rightarrow>
   device_rec option \<Rightarrow> application_rec \<Rightarrow> release_rec \<Rightarrow> string obj \<Rightarrow> string obj option \<Rightarrow>
   string set \<Rightarrow> release_state obj res"
where
  "buildAppFromRelease json_parse group_by device application release config defaultLabels activeProfiles =
     (let composition = parse_composition json_parse (release_composition release)
      in res_bind
           (build_services
             (build_service group_by device application composition config defaultLabels)
             activeProfiles (release_image release) []) (\<lambda>services.
         if composition = JNull then Inl JsTypeError
         else Inr [(release_commit release,
           \<lparr>rst_id = release_id release,
            rst_services = (if length services > 0 then Some services else None),
            rst_networks = json_prop composition ''networks'',
            rst_volumes = json_prop composition ''volumes''\<rparr>)]))"

section \<open>State v3: the device and the fleet\<close>

record app_state =
  ast_id :: int
  ast_name :: string
  ast_is_host :: bool
  ast_class :: string
  ast_releases :: "release_state obj option"

record device_state =
  dst_name :: string
  dst_apps :: "app_state obj"
  dst_config :: "string obj"

datatype target_release_field =
    Should_be_running__release
  | Should_be_managed_by__release
  | Should_be_operated_by__release

definition active_profiles :: "target_release_field \<Rightarrow> device_rec \<Rightarrow> application_rec \<Rightarrow> string set" where
  "active_profiles field device application =
     (if field = Should_be_operated_by__release
      then set (map fst (filter (\<lambda>(p, on_app). on_app = app_id application)
             (activates_profiles (belongs_to__application device))))
      else {})"

definition app_entry ::
  "application_rec \<Rightarrow> release_state obj option \<Rightarrow> app_state obj"
where
  "app_entry application releases =
     [(app_uuid application,
       \<lparr>ast_id = app_id application, ast_name = app_name application,
        ast_is_host = is_host application, ast_class = is_of__class application,
        ast_releases = releases\<rparr>)]"

text \<open>\<open>Inr None\<close> is the \<^verbatim>\<open>null\<close> returned when the device has no such release.\<close>

definition getAppState ::
  "(string \<Rightarrow> json res) \<Rightarrow>
   ((dsev_rec \<Rightarrow> int) \<Rightarrow> dsev_rec list \<Rightarrow> int \<Rightarrow> dsev_rec list option) \<Rightarrow>
   device_rec \<Rightarrow> target_release_field \<Rightarrow> string obj \<Rightarrow> string obj option \<Rightarrow>
   app_state obj option res"
where
  "getAppState json_parse group_by device field config defaultLabels =
     (let build = (\<lambda>application release.
            res_bind (buildAppFromRelease json_parse group_by (Some device) application release
                        config defaultLabels (active_profiles field device application))
              (\<lambda>r. Inr (Some (app_entry application (Some r)))))
      in case field of
           Should_be_running__release \<Rightarrow>
             (let application = belongs_to__application device
              in case should_be_running__release device of
                   None \<Rightarrow> Inr (Some (app_entry application None))
                 | Some release \<Rightarrow> build application release)
         | Should_be_managed_by__release \<Rightarrow>
             (case should_be_managed_by__release device of
                None \<Rightarrow> Inr None
              | Some (release, application) \<Rightarrow> build application release)
         | Should_be_operated_by__release \<Rightarrow>
             (case should_be_operated_by__release device of
                None \<Rightarrow> Inr None
              | Some (release, application) \<Rightarrow> build application release))"

definition spread_apps :: "app_state obj option \<Rightarrow> app_state obj \<Rightarrow> app_state obj" where
  "spread_apps a apps = (case a of None \<Rightarrow> apps | Some b \<Rightarrow> obj_merge apps b)"

definition HOSTAPP_LABELS :: "string obj" where
  "HOSTAPP_LABELS = [(''io.balena.image.store'', ''root'')]"

text \<open>The part of \<^verbatim>\<open>getStateV3\<close> after the device was fetched.\<close>

definition device_state_v3 ::
  "(string \<Rightarrow> json res) \<Rightarrow>
   ((dsev_rec \<Rightarrow> int) \<Rightarrow> dsev_rec list \<Rightarrow> int \<Rightarrow> dsev_rec list option) \<Rightarrow>
   config_fn list \<Rightarrow> device_rec \<Rightarrow> device_state res"
where
  "device_state_v3 json_parse group_by fns device =
     (let config = getConfig fns (Some device) None
      in res_bind (getAppState json_parse group_by device Should_be_managed_by__release [] None) (\<lambda>sv.
         res_bind (getAppState json_parse group_by device Should_be_operated_by__release []
                     (Some HOSTAPP_LABELS)) (\<lambda>os.
         res_bind (getAppState json_parse group_by device Should_be_running__release config None) (\<lambda>user.
         Inr \<lparr>dst_name = device_name device,
              dst_apps = spread_apps user (spread_apps os (spread_apps sv [])),
              dst_config = config\<rparr>))))"

definition getFleetAppsForState ::
  "(string \<Rightarrow> json res) \<Rightarrow>
   ((dsev_rec \<Rightarrow> int) \<Rightarrow> dsev_rec list \<Rightarrow> int \<Rightarrow> dsev_rec list option) \<Rightarrow>
   application_rec \<Rightarrow> release_rec option \<Rightarrow> string obj \<Rightarrow> app_state obj res"
where
  "getFleetAppsForState json_parse group_by fleet release config =
     (case release of
        None \<Rightarrow> Inr (app_entry fleet None)
      | Some r \<Rightarrow>
          res_bind (buildAppFromRelease json_parse group_by None fleet r config None {})
            (\<lambda>rs. Inr (app_entry fleet (Some rs))))"

text \<open>
  The queries for the fleet (with its target release) and for a successful release by commit are
  parameters.
\<close>

definition getFleet :: "(string \<Rightarrow> ('w, (application_rec \<times> release_rec option) option) io) \<Rightarrow>
  string \<Rightarrow> ('w, application_rec \<times> release_rec option) io"
where
  "getFleet state_query uuid =
     io_bind (state_query uuid) (\<lambda>fleet.
       case fleet of None \<Rightarrow> io_throw UnauthorizedError | Some f \<Rightarrow> io_return f)"

definition getSuccessfulReleaseForFleetAndCommit ::
  "(string \<Rightarrow> int \<Rightarrow> ('w, release_rec list) io) \<Rightarrow> string \<Rightarrow> int \<Rightarrow> ('w, release_rec) io"
where
  "getSuccessfulReleaseForFleetAndCommit release_query commit fleetId =
     io_bind (release_query commit fleetId) (\<lambda>releases.
       case releases of [] \<Rightarrow> io_throw UnauthorizedError | r # _ \<Rightarrow> io_return r)"

definition getFleetStateV3 ::
  "(string \<Rightarrow> json res) \<Rightarrow>
   ((dsev_rec \<Rightarrow> int) \<Rightarrow> dsev_rec list \<Rightarrow> int \<Rightarrow> dsev_rec list option) \<Rightarrow>
   config_fn list \<Rightarrow>
   (string \<Rightarrow> ('w, (application_rec \<times> release_rec option) option) io) \<Rightarrow>
   (string \<Rightarrow> int \<Rightarrow> ('w, release_rec list) io) \<Rightarrow>
   string \<Rightarrow> string option \<Rightarrow> ('w, device_state obj) io"
where
  "getFleetStateV3 json_parse group_by fns state_query release_query uuid releaseUuid =
     io_bind (getFleet state_query uuid) (\<lambda>(fleet, target).
       let config = getConfig fns None (Some fleet)
       in io_bind
            (case releaseUuid of
               Some (c # cs) \<Rightarrow>
                 io_bind (getSuccessfulReleaseForFleetAndCommit release_query (c # cs) (app_id fleet))
                   (\<lambda>r. io_return (Some r))
             | _ \<Rightarrow> io_return target) (\<lambda>release.
          io_bind (io_lift (getFleetAppsForState json_parse group_by fleet release config)) (\<lambda>apps.
            io_return [(uuid, \<lparr>dst_name = app_name fleet, dst_apps = apps, dst_config = config\<rparr>)])))"

section \<open>Delaying repeated fetches that found nothing\<close>

text \<open>
  \<open>delay\<close> is \<^verbatim>\<open>EMPTY_DEVICE_STATE_GET_DELAY_SECONDS\<close>, \<open>now\<close> reads the clock of the world.
\<close>

definition getStateDelayingEmpty ::
  "('w, int) level_store \<Rightarrow> int \<Rightarrow> ('w \<Rightarrow> int) \<Rightarrow> (perm_req \<Rightarrow> string) \<Rightarrow>
   (perm_req \<Rightarrow> string \<Rightarrow> ('w, 'a option) io) \<Rightarrow> perm_req \<Rightarrow> string \<Rightarrow> ('w, 'a) io"
where
  "getStateDelayingEmpty lastFailedDeviceStateTime delay_seconds now normalizer getStateFn req uuid =
     (let EMPTY_DEVICE_STATE_GET_DELAY = delay_seconds * 1000;
          key = uuid @ ''$'' @ normalizer req
      in io_bind (store_get lastFailedDeviceStateTime key) (\<lambda>lastFail w.
           if (case lastFail of None \<Rightarrow> True | Some t \<Rightarrow> t + EMPTY_DEVICE_STATE_GET_DELAY < now w)
           then io_bind (getStateFn req uuid) (\<lambda>result w'.
                  case result of
                    None \<Rightarrow>
                      io_bind (store_set lastFailedDeviceStateTime key (now w'))
                        (\<lambda>_. io_throw UnauthorizedError) w'
                  | Some r \<Rightarrow> io_return r w') w
           else io_throw UnauthorizedError w))"

text \<open>
  What a device request emits for the listeners of \<^verbatim>\<open>get-state\<close>, and the whole of \<^verbatim>\<open>getStateV3\<close>:
  the event is emitted after the device was fetched and before the state is built.
\<close>

record get_state_event =
  gse_deviceId :: int
  gse_config :: "string obj"
  gse_ipAddress :: "string option"

definition getStateV3 ::
  "(string \<Rightarrow> json res) \<Rightarrow>
   ((dsev_rec \<Rightarrow> int) \<Rightarrow> dsev_rec list \<Rightarrow> int \<Rightarrow> dsev_rec list option) \<Rightarrow>
   config_fn list \<Rightarrow> (get_state_event \<Rightarrow> 'w \<Rightarrow> 'w) \<Rightarrow>
   (perm_req \<Rightarrow> string \<Rightarrow> ('w, device_rec) io) \<Rightarrow>
   perm_req \<Rightarrow> int \<Rightarrow> string option \<Rightarrow> string \<Rightarrow> ('w, device_state obj) io"
where
  "getStateV3 json_parse group_by fns emit getDevice req deviceId ip uuid =
     io_bind (getDevice req uuid) (\<lambda>device w.
       let w' = emit \<lparr>gse_deviceId = deviceId, gse_config = getConfig fns (Some device) None,
                      gse_ipAddress = ip\<rparr> w
       in io_bind (io_lift (device_state_v3 json_parse group_by fns device))
            (\<lambda>st. io_return [(uuid, st)]) w')"

text \<open>
  The HTTP status and body of the endpoint; \<open>http_status\<close> is the status the error layer answers
  for its own error classes.
\<close>

definition stateV3 ::
  "(exn \<Rightarrow> int) \<Rightarrow> (string \<Rightarrow> ('w, device_state obj) io) \<Rightarrow> string \<Rightarrow> 'w \<Rightarrow>
   (int \<times> device_state obj option) \<times> 'w"
where
  "stateV3 http_status getState uuid w =
     (if uuid = [] then ((400, None), w)
      else case getState uuid w of
             (Inr state, w') \<Rightarrow> ((200, Some state), w')
           | (Inl err, w') \<Rightarrow>
               ((if is_http_error err then http_status err else 500, None), w'))"

section \<open>State v2\<close>

text \<open>
  The older answer: one application, services keyed by their id, each service a JSON object into
  which the composition of the service is spread.  Spreading an array or a string copies its
  indexed elements, spreading another primitive copies nothing.
\<close>

definition index_entries :: "json list \<Rightarrow> json obj" where
  "index_entries xs = zip (map (\<lambda>i. show_nat i) [0..<length xs]) xs"

fun spread_json :: "json \<Rightarrow> json obj" where
  "spread_json (JObj o') = o'"
| "spread_json (JArr xs) = index_entries xs"
| "spread_json (JStr s) = index_entries (map (\<lambda>c. JStr [c]) s)"
| "spread_json _ = []"

definition str_obj :: "string obj \<Rightarrow> json" where
  "str_obj o' = JObj (map (\<lambda>(k, v). (k, JStr v)) o')"

record app_state_v2 =
  v2_name :: string
  v2_commit :: "string option"
  v2_releaseId :: "int option"
  v2_services :: "json obj obj"
  v2_networks :: json
  v2_volumes :: json

definition build_service_v2 ::
  "((dsev_rec \<Rightarrow> int) \<Rightarrow> dsev_rec list \<Rightarrow> int \<Rightarrow> dsev_rec list option) \<Rightarrow>
   device_rec \<Rightarrow> application_rec \<Rightarrow> json \<Rightarrow> string obj \<Rightarrow> release_image_rec \<Rightarrow> json obj"
where
  "build_service_v2 group_by device application composition config ipr =
     (let image = ipr_image ipr;
          svc = is_a_build_of__service image;
          environment = service_environment group_by (Some device) application ipr;
          labels = add_config_labels config
            (fold (\<lambda>(label_name, value). obj_set label_name value) (image_label ipr @ service_label svc) []);
          imgRegistry = image_registry (is_stored_at__image_location image) (content_hash image);
          service =
            [(''imageId'', JNum (image_id image)),
             (''serviceName'', JStr (service_name svc)),
             (''image'', JStr (formatImageLocation imgRegistry)),
             (''running'', JBool True),
             (''environment'', str_obj environment),
             (''labels'', str_obj labels)] @
            (if image_contract image = JNull then [] else [(''contract'', image_contract image)])
      in case composition_service composition (service_name svc) of
           None \<Rightarrow> service
         | Some compositionService \<Rightarrow> obj_merge (spread_json compositionService) service)"

definition buildAppFromRelease_v2 ::
  "(string \<Rightarrow> json res) \<Rightarrow>
   ((dsev_rec \<Rightarrow> int) \<Rightarrow> dsev_rec list \<Rightarrow> int \<Rightarrow> dsev_rec list option) \<Rightarrow>
   device_rec \<Rightarrow> application_rec \<Rightarrow> release_rec \<Rightarrow> string obj \<Rightarrow> app_state_v2"
where
  "buildAppFromRelease_v2 json_parse group_by device application release config =
     (let composition = parse_composition json_parse (release_composition release)
      in \<lparr>v2_name = app_name application,
          v2_commit = Some (release_commit release),
          v2_releaseId = Some (release_id release),
          v2_services =
            fold (\<lambda>ipr services.
                    obj_set (show_int (svc_id (is_a_build_of__service (ipr_image ipr))))
                      (build_service_v2 group_by device application composition config ipr) services)
              (release_image release) [],
          v2_networks =
            (case json_prop composition ''networks'' of None \<Rightarrow> JObj [] | Some j \<Rightarrow> j),
          v2_volumes =
            (case json_prop composition ''volumes'' of None \<Rightarrow> JObj [] | Some j \<Rightarrow> j)\<rparr>)"

definition getUserAppForState ::
  "(string \<Rightarrow> json res) \<Rightarrow>
   ((dsev_rec \<Rightarrow> int) \<Rightarrow> dsev_rec list \<Rightarrow> int \<Rightarrow> dsev_rec list option) \<Rightarrow>
   device_rec \<Rightarrow> string obj \<Rightarrow> app_state_v2"
where
  "getUserAppForState json_parse group_by device config =
     (let userAppFromApi = belongs_to__application device
      in case should_be_running__release device of
           None \<Rightarrow>
             \<lparr>v2_name = app_name userAppFromApi, v2_commit = None, v2_releaseId = None,
              v2_services = [], v2_networks = JObj [], v2_volumes = JObj []\<rparr>
         | Some release \<Rightarrow>
             buildAppFromRelease_v2 json_parse group_by device userAppFromApi release config)"

record state_v2 =
  local_name :: string
  local_config :: "string obj"
  local_apps :: "app_state_v2 obj"

definition getStateV2 ::
  "(string \<Rightarrow> json res) \<Rightarrow>
   ((dsev_rec \<Rightarrow> int) \<Rightarrow> dsev_rec list \<Rightarrow> int \<Rightarrow> dsev_rec list option) \<Rightarrow>
   config_fn list \<Rightarrow> (get_state_event \<Rightarrow> 'w \<Rightarrow> 'w) \<Rightarrow>
   (perm_req \<Rightarrow> string \<Rightarrow> ('w, device_rec) io) \<Rightarrow>
   perm_req \<Rightarrow> int \<Rightarrow> string option \<Rightarrow> string \<Rightarrow> ('w, state_v2) io"
where
  "getStateV2 json_parse group_by fns emit getDevice req deviceId ip uuid =
     io_bind (getDevice req uuid) (\<lambda>device w.
       let config = getConfig fns (Some device) None;
           w' = emit \<lparr>gse_deviceId = deviceId, gse_config = config, gse_ipAddress = ip\<rparr> w
       in io_return
            \<lparr>local_name = device_name device,
             local_config = config,
             local_apps =
               [(show_int (app_id (belongs_to__application device)),
                 getUserAppForState json_parse group_by device config)]\<rparr> w')"

section \<open>The grouping function of the library\<close>

text \<open>
  \<^verbatim>\<open>_.groupBy\<close>: a key has a group exactly when some element has that key, and the group is those
  elements in order.
\<close>

locale group_by_contract =
  fixes group_by :: "('x \<Rightarrow> 'k) \<Rightarrow> 'x list \<Rightarrow> 'k \<Rightarrow> 'x list option"
  assumes group_by_law:
    "group_by f xs k = (if k \<in> f ` set xs then Some (filter (\<lambda>x. f x = k) xs) else None)"
begin

lemma group_by_default:
  "(case group_by f xs k of None \<Rightarrow> [] | Some g \<Rightarrow> g) = filter (\<lambda>x. f x = k) xs"
  by (simp add: group_by_law filter_key_none)

end

fun group_by_fold :: "('x \<Rightarrow> 'k) \<Rightarrow> 'x list \<Rightarrow> 'k \<Rightarrow> 'x list option" where
  "group_by_fold f [] k = None"
| "group_by_fold f (x # xs) k =
     (if f x = k
      then Some (x # (case group_by_fold f xs k of None \<Rightarrow> [] | Some g \<Rightarrow> g))
      else group_by_fold f xs k)"

lemma group_by_fold_eq:
  "group_by_fold f xs k = (if k \<in> f ` set xs then Some (filter (\<lambda>x. f x = k) xs) else None)"
  by (induction xs) (auto simp: filter_key_none)

interpretation group_by_fold: group_by_contract group_by_fold
  by unfold_locales (rule group_by_fold_eq)

section \<open>What the state contains\<close>

text \<open>The value a list of variables ends up giving a name: the last one wins.\<close>

definition last_value :: "env_vars \<Rightarrow> string \<Rightarrow> string option" where
  "last_value vs k = map_of (rev vs) k"

lemma map_of_varListInsert:
  "map_of (varListInsert vs o' f) k =
     (if f k then first_some [last_value vs k, map_of o' k] else map_of o' k)"
  unfolding varListInsert_def last_value_def
proof (induction vs rule: rev_induct)
  case Nil
  then show ?case by (cases "map_of o' k") auto
next
  case (snoc v vs)
  then show ?case by (cases v) auto
qed

lemma distinct_varListInsert:
  "distinct (map fst o') \<Longrightarrow> distinct (map fst (varListInsert vs o' f))"
  unfolding varListInsert_def by (induction vs arbitrary: o') (auto split: prod.splits)

text \<open>The device's own variables for one service.\<close>

definition service_vars_of :: "device_rec \<Rightarrow> int \<Rightarrow> env_vars" where
  "service_vars_of d sid =
     map (\<lambda>v. (dsev_name v, dsev_value v))
       (filter (\<lambda>v. dsev_service v = sid) (device_service_environment_variable d))"

text \<open>
  Claim C30. The environment of a service on a device: a name has the value of the device service
  variable if there is one, else of the device, else of the service, else of the application, else of
  the image; within one list the last entry wins.
\<close>

theorem service_environment_precedence:
  assumes "group_by_contract group_by"
  shows "map_of (service_environment group_by (Some d) application ipr) k =
    first_some
      [last_value (service_vars_of d (svc_id (is_a_build_of__service (ipr_image ipr)))) k,
       last_value (device_environment_variable d) k,
       last_value (service_environment_variable (is_a_build_of__service (ipr_image ipr))) k,
       last_value (application_environment_variable application) k,
       last_value (image_environment_variable ipr) k]"
proof -
  let ?sid = "svc_id (is_a_build_of__service (ipr_image ipr))"
  let ?ds = "device_service_environment_variable d"
  have none: "last_value (service_vars_of d ?sid) k = None" if "?sid \<notin> dsev_service ` set ?ds"
    using that by (simp add: service_vars_of_def last_value_def filter_key_none)
  note env = service_environment_def Let_def group_by_contract.group_by_law [OF assms]
    map_of_varListInsert first_some_Cons
  show ?thesis
  proof (cases "?sid \<in> dsev_service ` set ?ds")
    case True
    then show ?thesis by (simp add: env service_vars_of_def split: option.split)
  next
    case False
    then show ?thesis by (simp add: env none split: option.split)
  qed
qed

definition demo_service :: service_rec where
  "demo_service = \<lparr>svc_id = 5, service_name = ''main'',
     service_environment_variable = [(''A'', ''service'')], service_label = []\<rparr>"

definition demo_image :: release_image_rec where
  "demo_image = \<lparr>ipr_image = \<lparr>image_id = 9, is_stored_at__image_location = ''registry/v2/Ab'',
     content_hash = None, image_contract = JNull, is_a_build_of__service = demo_service\<rparr>,
     image_label = [], image_environment_variable = [(''A'', ''image''), (''B'', ''image'')],
     image_profile = []\<rparr>"

definition demo_extension :: release_image_rec where
  "demo_extension = \<lparr>ipr_image = \<lparr>image_id = 10, is_stored_at__image_location = ''registry/v2/cd'',
     content_hash = Some ''sha256:00'', image_contract = JNull,
     is_a_build_of__service = demo_service\<lparr>svc_id := 6, service_name := ''ext''\<rparr>\<rparr>,
     image_label = [], image_environment_variable = [], image_profile = [''debug'']\<rparr>"

definition demo_app :: application_rec where
  "demo_app = \<lparr>app_id = 1, app_uuid = ''fleet'', app_name = ''Fleet'', is_host = False,
     is_of__class = ''fleet'', application_environment_variable = [(''A'', ''app'')],
     application_config_variable = [(''RESIN_SUPERVISOR_POLL_INTERVAL'', ''7'')],
     app_services = None, is_updated_by__application = None,
     activates_profiles = [(''debug'', 2)]\<rparr>"

definition demo_os :: application_rec where
  "demo_os = demo_app\<lparr>app_id := 2, app_uuid := ''os'', app_name := ''OS'', is_host := True\<rparr>"

definition demo_release :: release_rec where
  "demo_release = \<lparr>release_id = 3, release_commit = ''c0ffee'', release_composition = JObj [],
     release_image = [demo_image, demo_extension]\<rparr>"

definition demo_device :: device_rec where
  "demo_device = \<lparr>device_name = ''dev'', device_config_variable = [],
     device_environment_variable = [(''A'', ''device'')],
     device_service_environment_variable =
       [\<lparr>dsev_name = ''A'', dsev_value = ''device-service'', dsev_service = 5\<rparr>],
     belongs_to__application = demo_app,
     should_be_running__release = None, should_be_managed_by__release = None,
     should_be_operated_by__release = Some (demo_release, demo_os)\<rparr>"

theorem service_environment_precedence_witness:
  "map_of (service_environment group_by_fold (Some demo_device) demo_app demo_image) ''A'' =
     Some ''device-service''"
  by (subst service_environment_precedence [OF group_by_fold.group_by_contract_axioms])
    (simp add: demo_device_def demo_image_def demo_service_def service_vars_of_def last_value_def)

subsection \<open>Configuration\<close>

lemma map_of_setMinPollInterval:
  "map_of (setMinPollInterval p c) k =
     (if k = ''RESIN_SUPERVISOR_POLL_INTERVAL''
      then Some (case (case map_of c k of None \<Rightarrow> Some 0 | Some s \<Rightarrow> parseInt10 s) of
                   None \<Rightarrow> ''NaN'' | Some n \<Rightarrow> show_int (max n p))
      else map_of c k)"
  by (simp add: setMinPollInterval_def)

lemma rejectUiConfig_names:
  "rejectUiConfig ''RESIN_SUPERVISOR_POLL_INTERVAL''" "rejectUiConfig ''RESIN_HOST_LOG_TO_DISPLAY''"
  by code_simp+

text \<open>The variables before the defaults are applied.\<close>

definition raw_config :: "device_rec \<Rightarrow> string \<Rightarrow> string option" where
  "raw_config d k =
     (if rejectUiConfig k
      then first_some [last_value (device_config_variable d) k,
             last_value (application_config_variable (belongs_to__application d)) k]
      else None)"

lemma getConfig_poll_interval:
  "map_of (getConfig [setMinPollInterval p] (Some d) None) ''RESIN_SUPERVISOR_POLL_INTERVAL'' =
     Some (case (case raw_config d ''RESIN_SUPERVISOR_POLL_INTERVAL'' of
                   None \<Rightarrow> Some 0 | Some s \<Rightarrow> parseInt10 s) of
             None \<Rightarrow> ''NaN'' | Some n \<Rightarrow> show_int (max n p))"
  by (simp add: getConfig_def Let_def setDefaultConfigVariables_def map_of_setMinPollInterval
      filterDeviceConfig_def map_of_varListInsert raw_config_def rejectUiConfig_names first_some_Cons
      split: option.splits)

text \<open>
  The configuration sent to a device never holds the log-to-display variable or a user
  interface variable; the poll interval is always there, and is the configured one raised to the
  minimum (the text \<^verbatim>\<open>NaN\<close> when the configured one is not a number); every other variable is
  the device's, else the application's.
\<close>

lemma getConfig_device:
  "map_of (getConfig [setMinPollInterval p] (Some d) None) k =
     (if k = ''RESIN_SUPERVISOR_POLL_INTERVAL''
      then Some (case (case raw_config d k of None \<Rightarrow> Some 0 | Some s \<Rightarrow> parseInt10 s) of
                   None \<Rightarrow> ''NaN'' | Some n \<Rightarrow> show_int (max n p))
      else if k = ''RESIN_HOST_LOG_TO_DISPLAY'' then None
      else raw_config d k)"
  by (auto simp: getConfig_def Let_def setDefaultConfigVariables_def map_of_setMinPollInterval
      filterDeviceConfig_def map_of_varListInsert raw_config_def rejectUiConfig_names first_some_Cons
      split: option.splits)

text \<open>
  A poll interval that is a number is sent as a number of at least the minimum, and one that
  is not is sent as a text that is no number.
\<close>

lemma getConfig_poll_interval_bound:
  assumes "map_of (getConfig [setMinPollInterval p] (Some d) None) ''RESIN_SUPERVISOR_POLL_INTERVAL'' = Some s"
  shows "(case parseInt10 s of None \<Rightarrow> s = ''NaN'' | Some n \<Rightarrow> p \<le> n)"
proof -
  have nan: "parseInt10 ''NaN'' = None" by code_simp
  let ?v = "case raw_config d ''RESIN_SUPERVISOR_POLL_INTERVAL'' of None \<Rightarrow> Some 0 | Some s \<Rightarrow> parseInt10 s"
  from assms have "s = (case ?v of None \<Rightarrow> ''NaN'' | Some n \<Rightarrow> show_int (max n p))"
    by (simp add: getConfig_poll_interval)
  then show ?thesis
    by (cases ?v) (simp_all add: nan parseInt10_show_int)
qed

subsection \<open>Services and profiles\<close>

lemma build_services_keys:
  assumes "build_services build ps iprs acc = Inr services"
  shows "fst ` set services =
    fst ` set acc \<union>
    (\<lambda>i. service_name (is_a_build_of__service (ipr_image i))) ` set (filter (image_active ps) iprs)"
  using assms
proof (induction iprs arbitrary: acc)
  case Nil
  then show ?case by simp
next
  case (Cons i rest)
  show ?case
  proof (cases "image_active ps i")
    case True
    with Cons.prems obtain s where
      "build_services build ps rest
        (obj_set (service_name (is_a_build_of__service (ipr_image i))) s acc) = Inr services"
      by (auto simp: res_bind_Inr_iff)
    from Cons.IH [OF this] True show ?thesis by (simp only: set_keys_obj_set) auto
  next
    case False
    with Cons show ?thesis by simp
  qed
qed

definition release_services :: "app_state \<Rightarrow> string \<Rightarrow> string set" where
  "release_services a commit =
     (case ast_releases a of
        None \<Rightarrow> {}
      | Some rs \<Rightarrow>
          (case map_of rs commit of
             None \<Rightarrow> {}
           | Some r \<Rightarrow> (case rst_services r of None \<Rightarrow> {} | Some ss \<Rightarrow> fst ` set ss)))"

definition service_names :: "string set \<Rightarrow> release_rec \<Rightarrow> string set" where
  "service_names ps release =
     (\<lambda>i. service_name (is_a_build_of__service (ipr_image i))) `
       set (filter (image_active ps) (release_image release))"

lemma buildAppFromRelease_services:
  assumes "buildAppFromRelease jp gb dev app release config dl ps = Inr rs"
  shows "release_services (a\<lparr>ast_releases := Some rs\<rparr>) (release_commit release) = service_names ps release"
proof -
  from assms obtain services where
    s: "build_services (build_service gb dev app
          (parse_composition jp (release_composition release)) config dl)
          ps (release_image release) [] = Inr services"
    and rs: "\<exists>n v. rs = [(release_commit release,
        \<lparr>rst_id = release_id release,
         rst_services = (if length services > 0 then Some services else None),
         rst_networks = n, rst_volumes = v\<rparr>)]"
    by (auto simp: buildAppFromRelease_def Let_def res_bind_Inr_iff split: if_splits)
  from build_services_keys [OF s] rs show ?thesis
    by (auto simp: release_services_def service_names_def split: if_splits)
qed

lemma app_entry_services:
  assumes "buildAppFromRelease jp gb dev app release config dl ps = Inr rs"
  shows "\<exists>a. app_entry app (Some rs) = [(app_uuid app, a)] \<and> ast_is_host a = is_host app \<and>
    release_services a (release_commit release) = service_names ps release"
proof -
  let ?a = "\<lparr>ast_id = app_id app, ast_name = app_name app, ast_is_host = is_host app,
    ast_class = is_of__class app, ast_releases = Some rs\<rparr>"
  from buildAppFromRelease_services [OF assms, of ?a]
  have "release_services ?a (release_commit release) = service_names ps release" by simp
  then show ?thesis by (simp add: app_entry_def)
qed

text \<open>
  Claim C9. On the host application, exactly those images are sent whose profile list is empty or
  names a profile the fleet has activated on this host application (when the host application and the
  fleet are different applications).
\<close>

theorem hostapp_profiles_gate_services:
  assumes "device_state_v3 jp gb fns d = Inr st"
    and "should_be_operated_by__release d = Some (release, os)"
    and "app_uuid os \<noteq> app_uuid (belongs_to__application d)"
  shows "\<exists>a. map_of (dst_apps st) (app_uuid os) = Some a \<and>
    release_services a (release_commit release) =
      (\<lambda>i. service_name (is_a_build_of__service (ipr_image i))) `
        {i \<in> set (release_image release).
           image_profile i = [] \<or>
           (\<exists>p \<in> set (image_profile i). (p, app_id os) \<in> set (activates_profiles (belongs_to__application d)))}"
proof -
  let ?ps = "active_profiles Should_be_operated_by__release d os"
  from assms(1) obtain sv osapp user where
    os: "getAppState jp gb d Should_be_operated_by__release [] (Some HOSTAPP_LABELS) = Inr osapp"
    and user: "getAppState jp gb d Should_be_running__release (getConfig fns (Some d) None) None = Inr user"
    and apps: "dst_apps st = spread_apps user (spread_apps osapp (spread_apps sv []))"
    by (auto simp: device_state_v3_def Let_def res_bind_Inr_iff)
  from os assms(2) obtain rs where
    b: "buildAppFromRelease jp gb (Some d) os release [] (Some HOSTAPP_LABELS) ?ps = Inr rs"
    and e: "osapp = Some (app_entry os (Some rs))"
    by (auto simp: getAppState_def Let_def res_bind_Inr_iff)
  from app_entry_services [OF b] obtain a where
    a: "app_entry os (Some rs) = [(app_uuid os, a)]"
    "release_services a (release_commit release) = service_names ?ps release" by blast
  from user have "\<exists>u. user = Some [(app_uuid (belongs_to__application d), u)]"
    by (auto simp: getAppState_def Let_def res_bind_Inr_iff app_entry_def split: option.splits)
  then have "map_of (dst_apps st) (app_uuid os) = Some a"
    using assms(3) by (auto simp: apps e a(1) spread_apps_def)
  moreover have "service_names ?ps release =
      (\<lambda>i. service_name (is_a_build_of__service (ipr_image i))) `
        {i \<in> set (release_image release).
           image_profile i = [] \<or>
           (\<exists>p \<in> set (image_profile i). (p, app_id os) \<in> set (activates_profiles (belongs_to__application d)))}"
    unfolding service_names_def
    by (rule arg_cong [of _ _ "\<lambda>A. _ ` A"])
      (force simp: image_active_def active_profiles_def list_ex_iff)
  ultimately show ?thesis using a(2) by auto
qed

lemma build_service_total:
  "app_services app = None \<Longrightarrow> \<exists>s. build_service gb dev app cmp config dl ipr = Inr s"
  by (simp add: build_service_def Let_def)

lemma build_services_total:
  assumes "\<And>ipr. \<exists>s. build ipr = Inr s"
  shows "\<exists>services. build_services build ps iprs acc = Inr services"
proof (induction iprs arbitrary: acc)
  case Nil
  then show ?case by simp
next
  case (Cons ipr rest)
  from assms [of ipr] obtain s where "build ipr = Inr s" by blast
  then show ?case using Cons.IH by simp
qed

lemma buildAppFromRelease_total:
  assumes "app_services app = None" and "parse_composition jp (release_composition release) \<noteq> JNull"
  shows "\<exists>rs. buildAppFromRelease jp gb dev app release config dl ps = Inr rs"
proof -
  obtain services where
    "build_services (build_service gb dev app
       (parse_composition jp (release_composition release)) config dl)
       ps (release_image release) [] = Inr services"
    using build_services_total [of "build_service gb dev app
       (parse_composition jp (release_composition release)) config dl"]
      build_service_total [OF assms(1)] by blast
  then show ?thesis using assms(2) by (simp add: buildAppFromRelease_def Let_def)
qed

lemmas demo_defs =
  demo_device_def demo_release_def demo_image_def demo_extension_def demo_os_def demo_app_def
  demo_service_def

lemma demo_builds:
  "\<exists>rs. buildAppFromRelease (\<lambda>_. Inr JNull) gb dev demo_os demo_release config dl ps = Inr rs"
  "\<exists>rs. buildAppFromRelease (\<lambda>_. Inr JNull) gb dev demo_app demo_release config dl ps = Inr rs"
  by (rule buildAppFromRelease_total; simp add: demo_os_def demo_app_def demo_release_def parse_composition_def)+

lemma demo_state:
  "\<exists>st. device_state_v3 (\<lambda>_. Inr JNull) gb fns (demo_device\<lparr>should_be_running__release := r\<rparr>) = Inr st"
  if "r = None \<or> r = Some demo_release"
proof -
  let ?jp = "\<lambda>_::string. Inr JNull :: json res"
  let ?d = "demo_device\<lparr>should_be_running__release := r\<rparr>"
  have app: "belongs_to__application ?d = demo_app" "should_be_managed_by__release ?d = None"
    "should_be_operated_by__release ?d = Some (demo_release, demo_os)"
    by (simp_all add: demo_device_def)
  have "\<exists>x. getAppState ?jp gb ?d Should_be_operated_by__release [] (Some HOSTAPP_LABELS) = Inr x"
    using demo_builds(1) [of gb "Some ?d" "[]" "Some HOSTAPP_LABELS"
        "active_profiles Should_be_operated_by__release ?d demo_os"]
    by (auto simp: getAppState_def Let_def app)
  moreover have "\<exists>x. getAppState ?jp gb ?d Should_be_running__release config None = Inr x" for config
    using demo_builds(2) [of gb "Some ?d" config None
        "active_profiles Should_be_running__release ?d demo_app"] that
    by (auto simp: getAppState_def Let_def app)
  moreover have "getAppState ?jp gb ?d Should_be_managed_by__release [] None = Inr None"
    by (simp add: getAppState_def app)
  ultimately obtain x y where
    "getAppState ?jp gb ?d Should_be_operated_by__release [] (Some HOSTAPP_LABELS) = Inr x"
    "getAppState ?jp gb ?d Should_be_running__release (getConfig fns (Some ?d) None) None = Inr y"
    "getAppState ?jp gb ?d Should_be_managed_by__release [] None = Inr None"
    by metis
  then show ?thesis by (simp add: device_state_v3_def Let_def)
qed

theorem hostapp_profiles_gate_services_witness:
  "\<exists>st a. device_state_v3 (\<lambda>_. Inr JNull) group_by_fold [] demo_device = Inr st \<and>
     map_of (dst_apps st) ''os'' = Some a \<and> ''ext'' \<in> release_services a ''c0ffee''"
proof -
  obtain st where st: "device_state_v3 (\<lambda>_. Inr JNull) group_by_fold [] demo_device = Inr st"
    using demo_state [of None group_by_fold "[]"] by (auto simp: demo_device_def)
  have o1: "should_be_operated_by__release demo_device = Some (demo_release, demo_os)"
    by (simp add: demo_device_def)
  have o2: "app_uuid demo_os \<noteq> app_uuid (belongs_to__application demo_device)"
    by (simp add: demo_defs)
  let ?S = "(\<lambda>i. service_name (is_a_build_of__service (ipr_image i))) `
        {i \<in> set (release_image demo_release).
           image_profile i = [] \<or>
           (\<exists>p \<in> set (image_profile i).
              (p, app_id demo_os) \<in> set (activates_profiles (belongs_to__application demo_device)))}"
  have ext: "''ext'' \<in> ?S"
    by (rule image_eqI [of _ _ demo_extension]) (simp_all add: demo_defs)
  from hostapp_profiles_gate_services [OF st o1 o2] obtain a where
    a: "map_of (dst_apps st) (app_uuid demo_os) = Some a"
       "release_services a (release_commit demo_release) = ?S" by blast
  have n: "app_uuid demo_os = ''os''" "release_commit demo_release = ''c0ffee''"
    by (simp_all add: demo_defs)
  have "''ext'' \<in> release_services a ''c0ffee''"
    using a(2) ext unfolding n by (simp only:)
  then show ?thesis using st a(1) unfolding n by (intro exI conjI)
qed

text \<open>
  Outside the host application no image that has a profile is ever sent: the release the
  device should run contributes exactly its images without profiles.
\<close>

lemma user_release_services:
  assumes "device_state_v3 jp gb fns d = Inr st"
    and "should_be_running__release d = Some release"
  shows "\<exists>a. map_of (dst_apps st) (app_uuid (belongs_to__application d)) = Some a \<and>
    release_services a (release_commit release) =
      (\<lambda>i. service_name (is_a_build_of__service (ipr_image i))) `
        {i \<in> set (release_image release). image_profile i = []}"
proof -
  let ?app = "belongs_to__application d"
  from assms(1) obtain sv osapp user where
    user: "getAppState jp gb d Should_be_running__release (getConfig fns (Some d) None) None = Inr user"
    and apps: "dst_apps st = spread_apps user (spread_apps osapp (spread_apps sv []))"
    by (auto simp: device_state_v3_def Let_def res_bind_Inr_iff)
  from user assms(2) obtain rs where
    b: "buildAppFromRelease jp gb (Some d) ?app release (getConfig fns (Some d) None) None {} = Inr rs"
    and e: "user = Some (app_entry ?app (Some rs))"
    by (auto simp: getAppState_def Let_def res_bind_Inr_iff active_profiles_def)
  from app_entry_services [OF b] obtain a where
    a: "app_entry ?app (Some rs) = [(app_uuid ?app, a)]"
    "release_services a (release_commit release) = service_names {} release" by blast
  have "map_of (dst_apps st) (app_uuid ?app) = Some a"
    by (simp add: apps e a(1) spread_apps_def)
  moreover have "service_names {} release =
      (\<lambda>i. service_name (is_a_build_of__service (ipr_image i))) `
        {i \<in> set (release_image release). image_profile i = []}"
    unfolding service_names_def
    by (rule arg_cong [of _ _ "\<lambda>A. _ ` A"]) (auto simp: image_active_def list_ex_iff)
  ultimately show ?thesis using a(2) by auto
qed

subsection \<open>Delayed fetches\<close>

text \<open>
  After a fetch that found nothing, every further request with the same key is refused, and
  the fetch is not run again and nothing changes, as long as the entry is held and the delay has not
  passed.
\<close>

lemma getStateDelayingEmpty_delays:
  assumes "store_contract store contents"
    and "contents w (uuid @ ''$'' @ normalizer req) = None"
    and "getStateFn req uuid w = (Inr None, w1)"
    and "getStateDelayingEmpty store delay now normalizer getStateFn req uuid w = (r, w2)"
    and "contents w3 (uuid @ ''$'' @ normalizer req) = contents w2 (uuid @ ''$'' @ normalizer req)"
    and "now w3 \<le> now w1 + delay * 1000"
  shows "r = Inl UnauthorizedError \<and>
    getStateDelayingEmpty store delay now normalizer otherFn req uuid w3 = (Inl UnauthorizedError, w3)"
proof -
  let ?k = "uuid @ ''$'' @ normalizer req"
  note get = store_contract.get_law [OF assms(1)]
  obtain w' where w': "store_set store ?k (now w1) w1 = (Inr (), w')"
    "contents w' = (contents w1)(?k \<mapsto> now w1)"
    using store_contract.set_law [OF assms(1)] by blast
  have "getStateDelayingEmpty store delay now normalizer getStateFn req uuid w =
      (Inl UnauthorizedError, w')"
    using assms(2,3) w'(1) by (simp add: getStateDelayingEmpty_def Let_def io_simps get)
  with assms(4) have r: "r = Inl UnauthorizedError" and w2: "w2 = w'" by auto
  from assms(5) w'(2) w2 have "contents w3 ?k = Some (now w1)" by simp
  with assms(6) show ?thesis
    by (simp add: r getStateDelayingEmpty_def Let_def io_simps get)
qed

end
