(* ===== verification/PatchUtils.thy ===== *)
theory PatchUtils
  imports CacheStore "HOL-Library.Sublist" "HOL-Library.Countable"
begin

text \<open>
  What the endpoints that receive the state of a device share
  (\<^verbatim>\<open>src/features/device-state/state-patch-utils.ts\<close>): the fields they take, the limits on them,
  the rate limits of metrics and download progress, and the writes of image installs.

  The database client, the utility library and the clock are the fields of one record,
  \<open>patch_env\<close>; what the code relies on is the locale \<open>install_api\<close>.  Reports to the error tracker
  (\<^verbatim>\<open>ThisShouldNeverHappenError\<close>) have no effect on the answer and are left out.
\<close>

section \<open>Fields\<close>

definition v3ValidPatchFields :: "string list" where
  "v3ValidPatchFields =
     [''status'', ''is_online'', ''os_version'', ''os_variant'', ''supervisor_version'',
      ''provisioning_progress'', ''provisioning_state'', ''ip_address'', ''mac_address'',
      ''api_port'', ''api_secret'', ''cpu_id'', ''is_undervolted'', ''update_status'']"

definition v2ValidPatchFields :: "string list" where
  "v2ValidPatchFields =
     filter (\<lambda>f. f \<noteq> ''update_status'') v3ValidPatchFields @
     [''device_name'', ''note'', ''download_progress'']"

definition metricsPatchNumbers :: "string list" where
  "metricsPatchNumbers =
     [''memory_usage'', ''memory_total'', ''storage_usage'', ''storage_total'', ''cpu_temp'',
      ''cpu_usage'']"

definition metricsPatchFields :: "string list" where
  "metricsPatchFields = metricsPatchNumbers @ [''storage_block_device'']"

section \<open>Truncation\<close>

definition truncateText :: "string \<Rightarrow> nat \<Rightarrow> char option \<Rightarrow> string" where
  "truncateText longText len delimiter =
     (case delimiter of
        None \<Rightarrow> take len longText
      | Some d \<Rightarrow>
          js_trim
            (fold (\<lambda>fragment text.
                     let textWithFragment = text @ [d] @ fragment
                     in if length textWithFragment \<le> len then textWithFragment else text)
               (js_split d longText) []))"

type_synonym constrained_fields = "(string \<times> nat \<times> char option) list"

definition truncateConstrainedFields :: "constrained_fields \<Rightarrow> json obj \<Rightarrow> json obj" where
  "truncateConstrainedFields constrained o' =
     fold (\<lambda>(key, maxLength, delimiter) acc.
             case map_of acc key of
               Some (JStr value) \<Rightarrow>
                 (if length value \<le> maxLength then acc
                  else obj_set key (JStr (truncateText value maxLength delimiter)) acc)
             | _ \<Rightarrow> acc)
       constrained o'"

definition device_constrained_fields :: constrained_fields where
  "device_constrained_fields =
     [(''status'', 50, None), (''os_version'', 70, None), (''supervisor_version'', 20, None),
      (''api_secret'', 64, None), (''ip_address'', 2000, Some (CHR '' '')),
      (''mac_address'', 900, Some (CHR '' '')), (''note'', 1000000, None)]"

definition truncateConstrainedDeviceFields :: "json obj \<Rightarrow> json obj" where
  "truncateConstrainedDeviceFields = truncateConstrainedFields device_constrained_fields"

section \<open>Normalization of the fields\<close>

definition normalizeDeviceWriteBody :: "json obj \<Rightarrow> json obj" where
  "normalizeDeviceWriteBody deviceBody =
     (case map_of deviceBody ''os_variant'' of
        None \<Rightarrow> deviceBody
      | Some v \<Rightarrow>
          (if v \<noteq> JNull \<and> v \<noteq> JStr ''dev'' \<and> v \<noteq> JStr ''prod''
           then obj_delete ''os_variant'' deviceBody else deviceBody))"

definition limitMetricNumbers :: "int \<Rightarrow> json obj \<Rightarrow> json obj" where
  "limitMetricNumbers max_value body =
     fold (\<lambda>key body.
             case map_of body key of
               Some (JNum value) \<Rightarrow>
                 (if value > max_value then obj_set key (JNum max_value) body else body)
             | _ \<Rightarrow> body)
       metricsPatchNumbers body"

definition imageInstallKnownStatuses :: "string list" where
  "imageInstallKnownStatuses =
     [''Downloading'', ''Downloaded'', ''Installing'', ''Installed'', ''Starting'', ''Running'',
      ''Idle'', ''Handing over'', ''Awaiting handover'', ''Stopping'', ''Stopped'', ''exited'',
      ''Deleting'', ''deleted'', ''Dead'', ''paused'', ''restarting'', ''removing'',
      ''configuring'', ''Unknown'']"

definition normalizeImageInstallStatus :: "string option \<Rightarrow> string option" where
  "normalizeImageInstallStatus status =
     (case status of
        None \<Rightarrow> None
      | Some s \<Rightarrow> (if s \<notin> set imageInstallKnownStatuses then None else Some s))"

section \<open>The environment of the endpoints\<close>

text \<open>\<open>None\<close> in a body is a field left out, \<open>Some JNull\<close> an explicit \<^verbatim>\<open>null\<close>.\<close>

record install_update =
  iu_status :: "string option"
  iu_release :: int
  iu_progress :: "json option"

record install_report =
  ir_body :: install_update
  ir_updateTime :: int

record install_post =
  ip_device :: int
  ip_image :: int
  ip_date :: int
  ip_status :: "string option"
  ip_progress :: "json option"
  ip_release :: int

record install_row =
  in_id :: int
  in_image :: int

record device_row =
  dvr_id :: int
  dvr_uuid :: string
  dvr_app :: string

record release_row =
  rlr_id :: int
  rlr_commit :: string
  rlr_images :: "(int \<times> string) list option"

text \<open>
  The filter of the bulk write of image installs: the device, and the negation of the body and,
  when there are any, of the images.
\<close>

record install_filter =
  if_device :: int
  if_not_status :: string
  if_not_images :: "int list option"

record 'w patch_env =
  pe_pick :: "json obj \<Rightarrow> string list \<Rightarrow> json obj"
  pe_keyByUuid :: "device_row list \<Rightarrow> string \<Rightarrow> device_row option"
  pe_keyByImage :: "install_row list \<Rightarrow> int \<Rightarrow> install_row option"
  pe_now :: "'w \<Rightarrow> int"
  pe_metrics_store :: "('w, int) level_store"
  pe_install_store :: "('w, install_report) level_store"
  pe_metrics_interval :: int
  pe_progress_interval :: int
  pe_metrics_max :: int
  pe_get_devices :: "int list \<Rightarrow> ('w, device_row list) io"
  pe_get_releases :: "string \<Rightarrow> string list \<Rightarrow> (string \<times> string option) list \<Rightarrow> ('w, release_row list) io"
  pe_resolve_release :: "int \<Rightarrow> string \<Rightarrow> ('w, int option) io"
  pe_get_installs :: "int \<Rightarrow> int list \<Rightarrow> ('w, install_row list) io"
  pe_post_install :: "install_post \<Rightarrow> ('w, unit) io"
  pe_patch_install :: "int \<Rightarrow> install_update \<Rightarrow> ('w, unit) io"
  pe_patch_installs :: "install_filter \<Rightarrow> ('w, unit) io"
  pe_patch_device :: "int \<Rightarrow> json obj \<Rightarrow> json obj \<Rightarrow> ('w, unit) io"
  pe_rollback :: "'w \<Rightarrow> 'w \<Rightarrow> 'w"

text \<open>A write transaction: an error undoes what it wrote.\<close>

definition db_transaction :: "'w patch_env \<Rightarrow> ('w, 'a) io \<Rightarrow> ('w, 'a) io" where
  "db_transaction env body w =
     (case body w of
        (Inr a, w') \<Rightarrow> (Inr a, w')
      | (Inl e, w') \<Rightarrow> (Inl e, pe_rollback env w w'))"

section \<open>Rate limits\<close>

definition shouldUpdateMetrics :: "'w patch_env \<Rightarrow> string \<Rightarrow> ('w, bool) io" where
  "shouldUpdateMetrics env uuid =
     (let METRICS_MAX_REPORT_INTERVAL = pe_metrics_interval env * 1000
      in io_bind (store_get (pe_metrics_store env) uuid) (\<lambda>lastMetricsUpdate w.
           let now = pe_now env w
           in if (case lastMetricsUpdate of
                    None \<Rightarrow> True | Some t \<Rightarrow> t + METRICS_MAX_REPORT_INTERVAL < now)
              then io_bind (store_set (pe_metrics_store env) uuid now) (\<lambda>_. io_return True) w
              else io_return False w))"

definition install_report_due :: "int \<Rightarrow> int \<Rightarrow> install_report option \<Rightarrow> install_update \<Rightarrow> bool" where
  "install_report_due interval now lastReport body \<longleftrightarrow>
     (case lastReport of
        None \<Rightarrow> True
      | Some r \<Rightarrow>
          let last = ir_body r;
              nullish = (\<lambda>p. p = None \<or> p = Some JNull)
          in (iu_progress last \<noteq> iu_progress body \<and> ir_updateTime r + interval < now) \<or>
             iu_status last \<noteq> iu_status body \<or>
             iu_release last \<noteq> iu_release body \<or>
             (nullish (iu_progress last) \<and> \<not> nullish (iu_progress body)) \<or>
             (\<not> nullish (iu_progress last) \<and> nullish (iu_progress body)) \<or>
             iu_progress body = Some (JNum 100))"

text \<open>The entry kept: the last known progress stays if the report has none.\<close>

definition kept_report :: "int \<Rightarrow> install_report option \<Rightarrow> install_update \<Rightarrow> install_report" where
  "kept_report now lastReport body =
     \<lparr>ir_body = body\<lparr>iu_progress :=
        (case iu_progress body of
           None \<Rightarrow> Option.bind lastReport (\<lambda>r. iu_progress (ir_body r))
         | Some p \<Rightarrow> Some p)\<rparr>,
      ir_updateTime = now\<rparr>"

definition shouldUpdateImageInstall :: "'w patch_env \<Rightarrow> int \<Rightarrow> install_update \<Rightarrow> ('w, bool) io" where
  "shouldUpdateImageInstall env imageInstallId body =
     (let key = show_int imageInstallId;
          DOWNLOAD_PROGRESS_MAX_REPORT_INTERVAL = pe_progress_interval env * 1000
      in io_bind (store_get (pe_install_store env) key) (\<lambda>lastReport w.
           let now = pe_now env w
           in if install_report_due DOWNLOAD_PROGRESS_MAX_REPORT_INTERVAL now lastReport body
              then io_bind (store_set (pe_install_store env) key (kept_report now lastReport body))
                     (\<lambda>_. io_return True) w
              else io_return False w))"

section \<open>Writes of image installs\<close>

record img_install =
  ii_image :: int
  ii_release :: int
  ii_status :: "string option"
  ii_progress :: "json option"

definition upsertImageInstall ::
  "'w patch_env \<Rightarrow> install_row option \<Rightarrow> img_install \<Rightarrow> int \<Rightarrow> ('w, unit) io"
where
  "upsertImageInstall env imgInstall install deviceId =
     (let status = normalizeImageInstallStatus (ii_status install)
      in case imgInstall of
           None \<Rightarrow>
             (\<lambda>w. pe_post_install env
                \<lparr>ip_device = deviceId, ip_image = ii_image install, ip_date = pe_now env w,
                 ip_status = status, ip_progress = ii_progress install,
                 ip_release = ii_release install\<rparr> w)
         | Some row \<Rightarrow>
             (let body = \<lparr>iu_status = status, iu_release = ii_release install,
                          iu_progress = ii_progress install\<rparr>
              in io_bind (shouldUpdateImageInstall env (in_id row) body) (\<lambda>due.
                   if due then pe_patch_install env (in_id row) body else io_return ())))"

definition deleteOldImageInstalls :: "'w patch_env \<Rightarrow> int \<Rightarrow> int list \<Rightarrow> ('w, unit) io" where
  "deleteOldImageInstalls env deviceId imageIds =
     pe_patch_installs env
       \<lparr>if_device = deviceId, if_not_status = ''deleted'',
        if_not_images = (if length imageIds \<noteq> 0 then Some imageIds else None)\<rparr>"

text \<open>The part of an update that concerns the image installs of one device.\<close>

definition update_image_installs ::
  "'w patch_env \<Rightarrow> int \<Rightarrow> img_install list \<Rightarrow> ('w, unit) io"
where
  "update_image_installs env deviceId imgInstalls =
     (let imageIds = map ii_image imgInstalls
      in io_bind
           (if length imageIds > 0
            then io_bind (pe_get_installs env deviceId imageIds) (\<lambda>existing.
                   io_bind
                     (io_mapM (\<lambda>i. upsertImageInstall env (pe_keyByImage env existing (ii_image i))
                        i deviceId) imgInstalls)
                     (\<lambda>_. io_return ()))
            else io_return ())
           (\<lambda>_. deleteOldImageInstalls env deviceId imageIds))"

section \<open>Fields and metrics of a report\<close>

definition split_metrics ::
  "'w patch_env \<Rightarrow> string list \<Rightarrow> json obj \<Rightarrow> string \<Rightarrow> ('w, json obj \<times> json obj) io"
where
  "split_metrics env valid_fields state uuid =
     (let deviceBody = normalizeDeviceWriteBody (pe_pick env state valid_fields);
          metricsBody = limitMetricNumbers (pe_metrics_max env) (pe_pick env state metricsPatchFields)
      in if length metricsBody > 0
         then io_bind (shouldUpdateMetrics env uuid) (\<lambda>due.
                if due then io_return (obj_merge deviceBody metricsBody, [])
                else io_return (deviceBody, metricsBody))
         else io_return (deviceBody, metricsBody))"

text \<open>\<^verbatim>\<open>/[^\x20-\x7E]/\<close>\<close>

definition unprintable :: "string \<Rightarrow> bool" where
  "unprintable s \<longleftrightarrow> list_ex (\<lambda>c. \<not> (32 \<le> (of_char c :: nat) \<and> (of_char c :: nat) \<le> 126)) s"

definition normalize_cpu_id :: "json obj \<Rightarrow> json obj" where
  "normalize_cpu_id deviceBody =
     (case map_of deviceBody ''cpu_id'' of
        Some (JStr cpu_id) \<Rightarrow>
          (if unprintable cpu_id then obj_delete ''cpu_id'' deviceBody
           else obj_set ''cpu_id'' (JStr (js_toLowerCase cpu_id)) deviceBody)
      | _ \<Rightarrow> deviceBody)"

section \<open>Limits on the fields\<close>

lemma js_trim_length: "length (js_trim s) \<le> length s"
  using length_dropWhile_le [of is_space_char "rev (dropWhile is_space_char s)"]
    length_dropWhile_le [of is_space_char s]
  by (simp add: js_trim_def)

lemma fold_fragments:
  "\<exists>gs. subseq gs fragments \<and>
     fold (\<lambda>fragment text.
             let t = text @ [d] @ fragment in if length t \<le> len then t else text) fragments acc =
       acc @ concat (map ((#) d) gs) \<and>
     (length acc \<le> len \<longrightarrow> length (acc @ concat (map ((#) d) gs)) \<le> len)"
proof (induction fragments arbitrary: acc)
  case Nil
  then show ?case by simp
next
  case (Cons f rest)
  show ?case
  proof (cases "length (acc @ [d] @ f) \<le> len")
    case True
    obtain gs where
      "subseq gs rest"
      "fold (\<lambda>fragment text.
           let t = text @ [d] @ fragment in if length t \<le> len then t else text) rest (acc @ [d] @ f) =
         (acc @ [d] @ f) @ concat (map ((#) d) gs)"
      "length ((acc @ [d] @ f) @ concat (map ((#) d) gs)) \<le> len"
      using Cons.IH [of "acc @ [d] @ f"] True by blast
    with True show ?thesis by (intro exI [of _ "f # gs"]) (simp add: Let_def)
  next
    case False
    then show ?thesis using Cons.IH [of acc] by (auto simp: Let_def intro: list_emb_Cons)
  qed
qed

lemma truncateText_length: "length (truncateText t len delimiter) \<le> len"
proof (cases delimiter)
  case None
  then show ?thesis by (simp add: truncateText_def)
next
  case (Some d)
  then show ?thesis
    using fold_fragments [of "js_split d t" d len "[]"] js_trim_length order_trans
    by (fastforce simp: truncateText_def)
qed

text \<open>
  Truncation at a delimiter never cuts an address: what is kept are whole fragments of the
  original text, in their order, joined by the delimiter and trimmed, and it fits the limit.
\<close>

lemma truncateText_whole_fragments:
  "\<exists>gs. subseq gs (js_split d t) \<and> truncateText t len (Some d) = js_trim (concat (map ((#) d) gs)) \<and>
     length (truncateText t len (Some d)) \<le> len"
  using fold_fragments [of "js_split d t" d len "[]"] truncateText_length [of t len "Some d"]
  by (auto simp: truncateText_def)

lemma map_of_truncateConstrainedFields:
  assumes "distinct (map fst table)"
  shows "map_of (truncateConstrainedFields table body) k =
    (case map_of body k of
       Some (JStr s) \<Rightarrow>
         (case map_of table k of
            None \<Rightarrow> Some (JStr s)
          | Some (n, d) \<Rightarrow> Some (JStr (if length s \<le> n then s else truncateText s n d)))
     | r \<Rightarrow> r)"
  using assms
proof (induction table arbitrary: body)
  case Nil
  then show ?case by (simp add: truncateConstrainedFields_def split: option.splits json.splits)
next
  case (Cons c table)
  obtain key n d where c: "c = (key, n, d)" by (cases c)
  define b where "b = (case map_of body key of
      Some (JStr value) \<Rightarrow>
        (if length value \<le> n then body else obj_set key (JStr (truncateText value n d)) body)
    | _ \<Rightarrow> body)"
  have step: "truncateConstrainedFields ((key, n, d) # table) body = truncateConstrainedFields table b"
    by (simp add: truncateConstrainedFields_def b_def)
  have out: "map_of table key = None" using Cons.prems c by (simp add: map_of_eq_None_iff)
  have IH: "map_of (truncateConstrainedFields table b) k = (case map_of b k of
       Some (JStr s) \<Rightarrow>
         (case map_of table k of
            None \<Rightarrow> Some (JStr s)
          | Some (n, d) \<Rightarrow> Some (JStr (if length s \<le> n then s else truncateText s n d)))
     | r \<Rightarrow> r)" using Cons by simp
  show ?case
  proof (cases "k = key")
    case True
    have "map_of b key = (case map_of body key of
        Some (JStr s) \<Rightarrow> Some (JStr (if length s \<le> n then s else truncateText s n d)) | r \<Rightarrow> r)"
      by (auto simp: b_def split: option.split json.split)
    then show ?thesis by (auto simp: step IH [unfolded True] True c out split: option.split json.split)
  next
    case False
    then have "map_of b k = map_of body k" by (auto simp: b_def split: option.split json.split)
    moreover have "map_of ((key, n, d) # table) k = map_of table k" using False by simp
    ultimately show ?thesis unfolding c step IH by (simp only:)
  qed
qed

lemma device_constrained_fields_distinct: "distinct (map fst device_constrained_fields)"
  by (simp add: device_constrained_fields_def)

text \<open>
  After truncation every text field that has a limit is within it, a field within its limit
  is unchanged, and so is every field without a limit or that is not a text.
\<close>

lemma truncateConstrainedDeviceFields_fields:
  "(case map_of (truncateConstrainedDeviceFields body) k of
      Some (JStr s) \<Rightarrow>
        (case map_of device_constrained_fields k of None \<Rightarrow> True | Some (n, d) \<Rightarrow> length s \<le> n) \<and>
        (\<exists>s'. map_of body k = Some (JStr s') \<and>
           (s = s' \<or> (\<exists>n d. map_of device_constrained_fields k = Some (n, d) \<and> n < length s')))
    | r \<Rightarrow> map_of body k = r)"
proof -
  note m = truncateConstrainedDeviceFields_def
    map_of_truncateConstrainedFields [OF device_constrained_fields_distinct]
  consider (str) s where "map_of body k = Some (JStr s)" | (other) "\<nexists>s. map_of body k = Some (JStr s)"
    by blast
  then show ?thesis
  proof cases
    case str
    then show ?thesis
      by (cases "map_of device_constrained_fields k") (auto simp: m truncateText_length not_le)
  next
    case other
    then have "map_of (truncateConstrainedDeviceFields body) k = map_of body k"
      by (auto simp: m split: option.splits json.splits)
    with other show ?thesis by (auto split: option.splits json.splits)
  qed
qed

lemma map_of_limitMetricNumbers:
  "map_of (limitMetricNumbers m body) k =
     (if k \<in> set metricsPatchNumbers
      then (case map_of body k of Some (JNum v) \<Rightarrow> Some (JNum (min v m)) | r \<Rightarrow> r)
      else map_of body k)"
proof -
  define step where "step = (\<lambda>(key :: string) body. case map_of body key of
              Some (JNum value) \<Rightarrow> (if value > m then obj_set key (JNum m) body else body)
            | _ \<Rightarrow> body)"
  define limited where "limited = (\<lambda>x. case x of Some (JNum v) \<Rightarrow> Some (JNum (min v m)) | r \<Rightarrow> r)"
  have step: "map_of (step key b) j = (if j = key then limited (map_of b j) else map_of b j)" for key b j
    by (simp add: step_def limited_def min_def split: option.split json.split)
  have idem: "limited (limited x) = limited x" for x
    by (simp add: limited_def split: option.split json.split)
  have "map_of (fold step ks body) k = (if k \<in> set ks then limited (map_of body k) else map_of body k)" for ks
    by (induction ks arbitrary: body) (simp_all add: step idem)
  then show ?thesis by (simp add: limitMetricNumbers_def step_def limited_def)
qed

text \<open>No metric number sent on is above the maximum, and one within it is unchanged.\<close>

lemma limitMetricNumbers_bounds:
  "(case map_of (limitMetricNumbers m body) k of
      Some (JNum v) \<Rightarrow>
        (if k \<in> set metricsPatchNumbers
         then v \<le> m \<and> (\<exists>v'. map_of body k = Some (JNum v') \<and> (v = v' \<or> m < v'))
         else map_of body k = Some (JNum v))
    | r \<Rightarrow> map_of body k = r)"
  by (auto simp: map_of_limitMetricNumbers min_def split: option.splits json.splits)

section \<open>Rate limits: theorems\<close>

lemma shouldUpdateMetrics_run:
  assumes "store_contract (pe_metrics_store env) contents"
  shows "\<exists>w'. shouldUpdateMetrics env uuid w =
    (Inr (contents w uuid = None \<or> the (contents w uuid) + pe_metrics_interval env * 1000 < pe_now env w), w') \<and>
    (if contents w uuid = None \<or> the (contents w uuid) + pe_metrics_interval env * 1000 < pe_now env w
     then contents w' = (contents w)(uuid \<mapsto> pe_now env w) else w' = w)"
proof -
  obtain w' where w': "store_set (pe_metrics_store env) uuid (pe_now env w) w = (Inr (), w')"
    "contents w' = (contents w)(uuid \<mapsto> pe_now env w)"
    using store_contract.set_law [OF assms] by blast
  then show ?thesis
    by (cases "contents w uuid")
      (auto simp: shouldUpdateMetrics_def Let_def io_simps store_contract.get_law [OF assms])
qed

text \<open>
  Two metric reports of a device are never written closer together than the interval: once
  a report was let through, every report made while the entry is held and no more than the interval
  later is refused, and leaves everything as it is.
\<close>

lemma shouldUpdateMetrics_spacing:
  assumes "store_contract (pe_metrics_store env) contents"
    and "shouldUpdateMetrics env uuid w = (Inr True, w1)"
    and "contents w2 uuid = contents w1 uuid"
    and "pe_now env w2 \<le> pe_now env w + pe_metrics_interval env * 1000"
  shows "shouldUpdateMetrics env uuid w2 = (Inr False, w2)"
proof -
  obtain w' where "shouldUpdateMetrics env uuid w =
      (Inr (contents w uuid = None \<or> the (contents w uuid) + pe_metrics_interval env * 1000 < pe_now env w), w')"
    "if contents w uuid = None \<or> the (contents w uuid) + pe_metrics_interval env * 1000 < pe_now env w
     then contents w' = (contents w)(uuid \<mapsto> pe_now env w) else w' = w"
    using shouldUpdateMetrics_run [OF assms(1)] by blast
  with assms(2) have "contents w1 uuid = Some (pe_now env w)" by (auto split: if_splits)
  with assms(3,4) show ?thesis
    by (simp add: shouldUpdateMetrics_def Let_def io_simps store_contract.get_law [OF assms(1)])
qed

lemma shouldUpdateImageInstall_run:
  assumes "store_contract (pe_install_store env) contents"
  shows "\<exists>w'. shouldUpdateImageInstall env iid body w =
    (Inr (install_report_due (pe_progress_interval env * 1000) (pe_now env w) (contents w (show_int iid)) body), w') \<and>
    (if install_report_due (pe_progress_interval env * 1000) (pe_now env w) (contents w (show_int iid)) body
     then contents w' = (contents w)(show_int iid \<mapsto>
            kept_report (pe_now env w) (contents w (show_int iid)) body)
     else w' = w)"
proof -
  obtain w' where w': "store_set (pe_install_store env) (show_int iid)
      (kept_report (pe_now env w) (contents w (show_int iid)) body) w = (Inr (), w')"
    "contents w' = (contents w)(show_int iid \<mapsto>
       kept_report (pe_now env w) (contents w (show_int iid)) body)"
    using store_contract.set_law [OF assms] by blast
  then show ?thesis
    by (auto simp: shouldUpdateImageInstall_def Let_def io_simps store_contract.get_law [OF assms])
qed

text \<open>
  An image install report that is repeated while its entry is held is written again only
  when it is at 100 percent, or when it leaves the progress out although the last known progress is
  a value: the second case defeats the rate limit, because the entry then keeps a progress that every
  repetition differs from.
\<close>

lemma shouldUpdateImageInstall_repeated:
  assumes "store_contract (pe_install_store env) contents"
    and "shouldUpdateImageInstall env iid body w = (Inr True, w1)"
    and "contents w2 (show_int iid) = contents w1 (show_int iid)"
    and "pe_now env w2 \<le> pe_now env w + pe_progress_interval env * 1000"
    and "shouldUpdateImageInstall env iid body w2 = (Inr due, w3)"
  shows "due \<longleftrightarrow> iu_progress body = Some (JNum 100) \<or>
    (iu_progress body = None \<and>
     (\<exists>r p. contents w (show_int iid) = Some r \<and> iu_progress (ir_body r) = Some p \<and> p \<noteq> JNull))"
proof -
  let ?k = "show_int iid"
  have "contents w1 ?k = Some (kept_report (pe_now env w) (contents w ?k) body)"
    using shouldUpdateImageInstall_run [where contents = contents and w = w and iid = iid and body = body,
        OF assms(1)] assms(2) by (auto split: if_splits)
  with assms(3) have held: "contents w2 ?k = Some (kept_report (pe_now env w) (contents w ?k) body)"
    by simp
  have due: "due = install_report_due (pe_progress_interval env * 1000) (pe_now env w2)
      (Some (kept_report (pe_now env w) (contents w ?k) body)) body"
    using shouldUpdateImageInstall_run [where contents = contents and w = w2 and iid = iid and body = body,
        OF assms(1)] assms(5) unfolding held by auto
  show ?thesis
    by (cases "iu_progress body"; cases "contents w ?k")
      (use assms(4) in \<open>auto simp: due install_report_due_def Let_def kept_report_def\<close>)
qed

section \<open>What the image install writes rely on\<close>

text \<open>
  The contents of the image install table as the code relies on them: \<open>inst\<close> gives the row of a
  device and an image.  A read returns the rows of the images it names, a creation adds the row of a
  pair that has none, a write by id changes exactly that row, the bulk write marks the rows its filter
  selects as deleted, and the cache is no part of the table.
\<close>

record install_state =
  is_id :: int
  is_status :: "string option"
  is_release :: int
  is_progress :: "json option"

definition apply_update :: "install_update \<Rightarrow> install_state \<Rightarrow> install_state" where
  "apply_update b s =
     s\<lparr>is_status := (case iu_status b of None \<Rightarrow> is_status s | Some x \<Rightarrow> Some x),
       is_release := iu_release b,
       is_progress := (case iu_progress b of None \<Rightarrow> is_progress s | Some p \<Rightarrow> Some p)\<rparr>"

definition mark_deleted :: "install_state \<Rightarrow> install_state" where
  "mark_deleted s = s\<lparr>is_status := Some ''deleted'', is_progress := Some JNull\<rparr>"

definition set_inst ::
  "int \<Rightarrow> int \<Rightarrow> install_state \<Rightarrow> (int \<Rightarrow> int \<Rightarrow> install_state option) \<Rightarrow> int \<Rightarrow> int \<Rightarrow> install_state option"
where
  "set_inst d i s f = (\<lambda>d' i'. if d' = d \<and> i' = i then Some s else f d' i')"

text \<open>One report: the row exists afterwards, and is new, updated, or untouched (rate limited).\<close>

definition reported :: "img_install \<Rightarrow> install_state option \<Rightarrow> install_state option \<Rightarrow> bool" where
  "reported ii before after \<longleftrightarrow>
     (case before of
        None \<Rightarrow> (\<exists>n. after = Some \<lparr>is_id = n, is_status = normalizeImageInstallStatus (ii_status ii),
                   is_release = ii_release ii, is_progress = ii_progress ii\<rparr>)
      | Some s \<Rightarrow> after = Some s \<or>
          after = Some (apply_update \<lparr>iu_status = normalizeImageInstallStatus (ii_status ii),
                          iu_release = ii_release ii, iu_progress = ii_progress ii\<rparr> s))"

locale install_api =
  fixes env :: "'w patch_env"
    and inst :: "'w \<Rightarrow> int \<Rightarrow> int \<Rightarrow> install_state option"
    and reports :: "'w \<Rightarrow> string \<Rightarrow> install_report option"
  assumes reports_store: "store_contract (pe_install_store env) reports"
    and store_frame: "store_set (pe_install_store env) k r w = (x, w') \<Longrightarrow> inst w' = inst w"
    and get_law: "\<exists>rows. pe_get_installs env d ids w = (Inr rows, w) \<and>
      (\<forall>i \<in> set ids. pe_keyByImage env rows i = map_option (\<lambda>s. \<lparr>in_id = is_id s, in_image = i\<rparr>) (inst w d i))"
    and post_law: "inst w (ip_device p) (ip_image p) = None \<Longrightarrow>
      \<exists>w' n. pe_post_install env p w = (Inr (), w') \<and>
        inst w' = set_inst (ip_device p) (ip_image p)
          \<lparr>is_id = n, is_status = ip_status p, is_release = ip_release p, is_progress = ip_progress p\<rparr> (inst w)"
    and patch_law: "inst w d i = Some s \<Longrightarrow>
      \<exists>w'. pe_patch_install env (is_id s) b w = (Inr (), w') \<and> inst w' = set_inst d i (apply_update b s) (inst w)"
    and bulk_law: "\<exists>w'. pe_patch_installs env f w = (Inr (), w') \<and>
      inst w' = (\<lambda>d i. if d = if_device f \<and>
                          (case if_not_images f of None \<Rightarrow> True | Some ids \<Rightarrow> i \<notin> set ids)
                       then map_option mark_deleted (inst w d i) else inst w d i)"
begin

lemma upsert_one:
  assumes "row = map_option (\<lambda>s. \<lparr>in_id = is_id s, in_image = ii_image ii\<rparr>) (inst w d (ii_image ii))"
  shows "\<exists>w' s. upsertImageInstall env row ii d w = (Inr (), w') \<and>
    reported ii (inst w d (ii_image ii)) (Some s) \<and> inst w' = set_inst d (ii_image ii) s (inst w)"
proof (cases "inst w d (ii_image ii)")
  case None
  let ?p = "\<lparr>ip_device = d, ip_image = ii_image ii, ip_date = pe_now env w,
    ip_status = normalizeImageInstallStatus (ii_status ii), ip_progress = ii_progress ii,
    ip_release = ii_release ii\<rparr>"
  from post_law [of w ?p] None show ?thesis
    using assms by (auto simp: upsertImageInstall_def Let_def reported_def)
next
  case (Some s)
  let ?b = "\<lparr>iu_status = normalizeImageInstallStatus (ii_status ii), iu_release = ii_release ii,
    iu_progress = ii_progress ii\<rparr>"
  from Some have same: "set_inst d (ii_image ii) s (inst w) = inst w"
    by (auto simp: set_inst_def fun_eq_iff)
  obtain due w1 where run: "shouldUpdateImageInstall env (is_id s) ?b w = (Inr due, w1)"
    using shouldUpdateImageInstall_run [where w = w and iid = "is_id s" and body = ?b, OF reports_store]
    by blast
  have frame: "inst w1 = inst w"
    using run store_frame
    by (auto simp: shouldUpdateImageInstall_def Let_def io_simps store_contract.get_law [OF reports_store]
        split: if_splits sum.splits prod.splits)
  from patch_law [of w1 d "ii_image ii" s ?b] Some frame obtain w2 where
    "pe_patch_install env (is_id s) ?b w1 = (Inr (), w2)"
    "inst w2 = set_inst d (ii_image ii) (apply_update ?b s) (inst w)" by auto
  then show ?thesis
    using assms Some run frame same
    by (cases due) (auto simp: upsertImageInstall_def Let_def reported_def io_simps)
qed

lemma upsert_all:
  assumes "distinct (map ii_image iis)"
    and "\<forall>ii \<in> set iis. rows (ii_image ii) =
      map_option (\<lambda>s. \<lparr>in_id = is_id s, in_image = ii_image ii\<rparr>) (inst w d (ii_image ii))"
  shows "\<exists>w' us. io_mapM (\<lambda>ii. upsertImageInstall env (rows (ii_image ii)) ii d) iis w = (Inr us, w') \<and>
    (\<forall>ii \<in> set iis. inst w' d (ii_image ii) \<noteq> None \<and>
       reported ii (inst w d (ii_image ii)) (inst w' d (ii_image ii))) \<and>
    (\<forall>d' i. d' \<noteq> d \<or> i \<notin> ii_image ` set iis \<longrightarrow> inst w' d' i = inst w d' i)"
  using assms
proof (induction iis arbitrary: w)
  case Nil
  then show ?case by (simp add: io_simps)
next
  case (Cons ii iis)
  have row: "rows (ii_image ii) =
      map_option (\<lambda>s. \<lparr>in_id = is_id s, in_image = ii_image ii\<rparr>) (inst w d (ii_image ii))"
    using Cons.prems(2) by simp
  obtain w1 s where one: "upsertImageInstall env (rows (ii_image ii)) ii d w = (Inr (), w1)"
    "reported ii (inst w d (ii_image ii)) (Some s)" "inst w1 = set_inst d (ii_image ii) s (inst w)"
    using upsert_one [OF row] by blast
  have later: "ii_image jj \<noteq> ii_image ii" if "jj \<in> set iis" for jj
    using Cons.prems(1) that by (metis distinct.simps(2) image_eqI list.simps(9) set_map)
  have dist: "distinct (map ii_image iis)" using Cons.prems(1) by simp
  have rest: "\<forall>jj \<in> set iis. rows (ii_image jj) =
      map_option (\<lambda>s. \<lparr>in_id = is_id s, in_image = ii_image jj\<rparr>) (inst w1 d (ii_image jj))"
    using Cons.prems(2) later by (simp add: one(3) set_inst_def)
  obtain w2 us where all: "io_mapM (\<lambda>ii. upsertImageInstall env (rows (ii_image ii)) ii d) iis w1 = (Inr us, w2)"
    "\<forall>jj \<in> set iis. inst w2 d (ii_image jj) \<noteq> None \<and>
       reported jj (inst w1 d (ii_image jj)) (inst w2 d (ii_image jj))"
    "\<forall>d' i. d' \<noteq> d \<or> i \<notin> ii_image ` set iis \<longrightarrow> inst w2 d' i = inst w1 d' i"
    using Cons.IH [OF dist rest] by blast
  have "ii_image ii \<notin> ii_image ` set iis" using Cons.prems(1) by simp
  with all(3) have "inst w2 d (ii_image ii) = inst w1 d (ii_image ii)" by blast
  then have "inst w2 d (ii_image ii) = Some s" by (simp add: one(3) set_inst_def)
  moreover have "inst w1 d (ii_image jj) = inst w d (ii_image jj)" if "jj \<in> set iis" for jj
    using later [OF that] by (simp add: one(3) set_inst_def)
  ultimately show ?case
    using one all by (intro exI [of _ w2]) (auto simp: io_simps set_inst_def)
qed

lemma update_image_installs_run:
  assumes "distinct (map ii_image iis)"
  shows "\<exists>w'. update_image_installs env d iis w = (Inr (), w') \<and>
    (\<forall>ii \<in> set iis. reported ii (inst w d (ii_image ii)) (inst w' d (ii_image ii)) \<and>
       inst w' d (ii_image ii) \<noteq> None) \<and>
    (\<forall>i. i \<notin> ii_image ` set iis \<longrightarrow> inst w' d i = map_option mark_deleted (inst w d i)) \<and>
    (\<forall>d'. d' \<noteq> d \<longrightarrow> inst w' d' = inst w d')"
proof (cases "iis = []")
  case True
  obtain w' where "pe_patch_installs env \<lparr>if_device = d, if_not_status = ''deleted'', if_not_images = None\<rparr> w =
      (Inr (), w')" "inst w' = (\<lambda>d' i. if d' = d then map_option mark_deleted (inst w d' i) else inst w d' i)"
    using bulk_law [of "\<lparr>if_device = d, if_not_status = ''deleted'', if_not_images = None\<rparr>" w] by auto
  with True show ?thesis by (simp add: update_image_installs_def deleteOldImageInstalls_def)
next
  case False
  obtain rows where rows: "pe_get_installs env d (map ii_image iis) w = (Inr rows, w)"
    "\<forall>ii \<in> set iis. pe_keyByImage env rows (ii_image ii) =
       map_option (\<lambda>s. \<lparr>in_id = is_id s, in_image = ii_image ii\<rparr>) (inst w d (ii_image ii))"
    using get_law [of d "map ii_image iis" w] by auto
  obtain w1 us where up: "io_mapM (\<lambda>ii. upsertImageInstall env (pe_keyByImage env rows (ii_image ii)) ii d) iis w =
      (Inr us, w1)"
    "\<forall>ii \<in> set iis. inst w1 d (ii_image ii) \<noteq> None \<and>
       reported ii (inst w d (ii_image ii)) (inst w1 d (ii_image ii))"
    "\<forall>d' i. d' \<noteq> d \<or> i \<notin> ii_image ` set iis \<longrightarrow> inst w1 d' i = inst w d' i"
    using upsert_all [OF assms rows(2)] by blast
  let ?f = "\<lparr>if_device = d, if_not_status = ''deleted'', if_not_images = Some (map ii_image iis)\<rparr>"
  obtain w2 where "pe_patch_installs env ?f w1 = (Inr (), w2)"
    "inst w2 = (\<lambda>d' i. if d' = d \<and> i \<notin> set (map ii_image iis)
       then map_option mark_deleted (inst w1 d' i) else inst w1 d' i)"
    using bulk_law [of ?f w1] by auto
  with up rows False show ?thesis
    by (intro exI [of _ w2])
      (auto simp: update_image_installs_def deleteOldImageInstalls_def Let_def io_simps fun_eq_iff)
qed

end

section \<open>An in-memory database\<close>

text \<open>
  A database that meets the contract: a table of installs whose row ids number the pairs of device
  and image, the device bodies, and the two caches as maps.
\<close>

record mem_install =
  mi_status :: "string option"
  mi_release :: int
  mi_progress :: "json option"

record mem_db =
  md_clock :: int
  md_metrics :: "string \<Rightarrow> int option"
  md_reports :: "string \<Rightarrow> install_report option"
  md_installs :: "int \<Rightarrow> int \<Rightarrow> mem_install option"
  md_devices :: "device_row list"
  md_releases :: "string \<Rightarrow> release_row list"
  md_bodies :: "int \<Rightarrow> json obj"

definition field_store :: "('w \<Rightarrow> string \<Rightarrow> 'v option) \<Rightarrow> ((string \<Rightarrow> 'v option) \<Rightarrow> 'w \<Rightarrow> 'w) \<Rightarrow>
  ('w, 'v) level_store"
where
  "field_store get put =
     \<lparr>store_get = (\<lambda>k w. (Inr (get w k), w)),
      store_set = (\<lambda>k v w. (Inr (), put ((get w)(k \<mapsto> v)) w)),
      store_delete = (\<lambda>k w. (Inr (), put ((get w)(k := None)) w)),
      store_wrap = (\<lambda>k f w. case get w k of
          Some v \<Rightarrow> (Inr v, w)
        | None \<Rightarrow> (case f w of
            (Inl e, w') \<Rightarrow> (Inl e, w') | (Inr v, w') \<Rightarrow> (Inr v, put ((get w')(k \<mapsto> v)) w')))\<rparr>"

lemma field_store_contract:
  assumes "\<And>m w. get (put m w) = m"
  shows "store_contract (field_store get put) get"
  by unfold_locales (auto simp: field_store_def assms)

definition mem_id :: "int \<Rightarrow> int \<Rightarrow> int" where
  "mem_id d i = int (to_nat (d, i))"

lemma mem_id_inject [simp]: "mem_id d i = mem_id d' i' \<longleftrightarrow> d = d' \<and> i = i'"
  by (simp add: mem_id_def)

definition obj_pick :: "json obj \<Rightarrow> string list \<Rightarrow> json obj" where
  "obj_pick o' keys = filter (\<lambda>(k, _). k \<in> set keys) o'"

definition last_by :: "('x \<Rightarrow> 'k) \<Rightarrow> 'x list \<Rightarrow> 'k \<Rightarrow> 'x option" where
  "last_by f xs k = List.find (\<lambda>x. f x = k) (rev xs)"

definition mem_update :: "install_update \<Rightarrow> mem_install \<Rightarrow> mem_install" where
  "mem_update b s =
     \<lparr>mi_status = (case iu_status b of None \<Rightarrow> mi_status s | Some x \<Rightarrow> Some x),
      mi_release = iu_release b,
      mi_progress = (case iu_progress b of None \<Rightarrow> mi_progress s | Some p \<Rightarrow> Some p)\<rparr>"

definition mem_delete :: "mem_install \<Rightarrow> mem_install" where
  "mem_delete s = s\<lparr>mi_status := Some ''deleted'', mi_progress := Some JNull\<rparr>"

definition mem_env :: "mem_db patch_env" where
  "mem_env =
     \<lparr>pe_pick = obj_pick,
      pe_keyByUuid = last_by dvr_uuid,
      pe_keyByImage = last_by in_image,
      pe_now = md_clock,
      pe_metrics_store = field_store md_metrics (\<lambda>m. md_metrics_update (\<lambda>_. m)),
      pe_install_store = field_store md_reports (\<lambda>m. md_reports_update (\<lambda>_. m)),
      pe_metrics_interval = 60,
      pe_progress_interval = 30,
      pe_metrics_max = 2147483647,
      pe_get_devices = (\<lambda>ids w. (Inr (filter (\<lambda>d. dvr_id d \<in> set ids) (md_devices w)), w)),
      pe_get_releases = (\<lambda>app commits locations w.
        (Inr (filter (\<lambda>r. rlr_commit r \<in> set commits) (md_releases w app)), w)),
      pe_resolve_release = (\<lambda>d commit w. (Inr None, w)),
      pe_get_installs = (\<lambda>d ids w.
        (Inr (map (\<lambda>i. \<lparr>in_id = mem_id d i, in_image = i\<rparr>) (filter (\<lambda>i. md_installs w d i \<noteq> None) ids)), w)),
      pe_post_install = (\<lambda>p w.
        (Inr (), w\<lparr>md_installs := (\<lambda>d i.
           if d = ip_device p \<and> i = ip_image p
           then Some \<lparr>mi_status = ip_status p, mi_release = ip_release p, mi_progress = ip_progress p\<rparr>
           else md_installs w d i)\<rparr>)),
      pe_patch_install = (\<lambda>n b w.
        (Inr (), w\<lparr>md_installs := (\<lambda>d i.
           if mem_id d i = n then map_option (mem_update b) (md_installs w d i)
           else md_installs w d i)\<rparr>)),
      pe_patch_installs = (\<lambda>f w.
        (Inr (), w\<lparr>md_installs := (\<lambda>d i.
           if d = if_device f \<and> (case if_not_images f of None \<Rightarrow> True | Some ids \<Rightarrow> i \<notin> set ids)
           then map_option mem_delete (md_installs w d i) else md_installs w d i)\<rparr>)),
      pe_patch_device = (\<lambda>d skip b w.
        (Inr (), w\<lparr>md_bodies := (md_bodies w)(d := obj_merge (md_bodies w d) b)\<rparr>)),
      pe_rollback = (\<lambda>w w'. w'\<lparr>md_installs := md_installs w, md_bodies := md_bodies w\<rparr>)\<rparr>"

definition mem_inst :: "mem_db \<Rightarrow> int \<Rightarrow> int \<Rightarrow> install_state option" where
  "mem_inst w d i =
     map_option (\<lambda>m. \<lparr>is_id = mem_id d i, is_status = mi_status m, is_release = mi_release m,
        is_progress = mi_progress m\<rparr>) (md_installs w d i)"

lemma find_rev_row:
  "List.find (\<lambda>x. in_image x = i) (rev (map (\<lambda>i. \<lparr>in_id = f i, in_image = i\<rparr>) ids)) =
     (if i \<in> set ids then Some \<lparr>in_id = f i, in_image = i\<rparr> else None)"
  unfolding rev_map by (induction ids rule: rev_induct) auto

interpretation mem: install_api mem_env mem_inst md_reports
proof (rule install_api.intro)
  show "store_contract (pe_install_store mem_env) md_reports"
    by (simp add: mem_env_def field_store_contract)
  show "mem_inst w' = mem_inst w" if "store_set (pe_install_store mem_env) k r w = (x, w')"
    for k r w x w'
    using that by (auto simp: mem_env_def field_store_def mem_inst_def fun_eq_iff)
  show "\<exists>rows. pe_get_installs mem_env d ids w = (Inr rows, w) \<and>
      (\<forall>i \<in> set ids. pe_keyByImage mem_env rows i =
         map_option (\<lambda>s. \<lparr>in_id = is_id s, in_image = i\<rparr>) (mem_inst w d i))" for d ids w
    by (auto simp: mem_env_def mem_inst_def last_by_def find_rev_row)
  show "\<exists>w' n. pe_post_install mem_env p w = (Inr (), w') \<and>
        mem_inst w' = set_inst (ip_device p) (ip_image p)
          \<lparr>is_id = n, is_status = ip_status p, is_release = ip_release p, is_progress = ip_progress p\<rparr>
          (mem_inst w)" for w p
    by (auto simp: mem_env_def mem_inst_def set_inst_def fun_eq_iff)
  show "\<exists>w'. pe_patch_install mem_env (is_id s) b w = (Inr (), w') \<and>
      mem_inst w' = set_inst d i (apply_update b s) (mem_inst w)" if "mem_inst w d i = Some s" for w d i s b
    using that by (auto simp: mem_env_def mem_inst_def set_inst_def fun_eq_iff apply_update_def mem_update_def
        split: option.split)
  show "\<exists>w'. pe_patch_installs mem_env f w = (Inr (), w') \<and>
      mem_inst w' = (\<lambda>d i. if d = if_device f \<and>
                          (case if_not_images f of None \<Rightarrow> True | Some ids \<Rightarrow> i \<notin> set ids)
                       then map_option mark_deleted (mem_inst w d i) else mem_inst w d i)" for f w
    by (auto simp: mem_env_def mem_inst_def fun_eq_iff option.map_comp comp_def mem_delete_def mark_deleted_def)
qed

definition mem_db0 :: mem_db where
  "mem_db0 = \<lparr>md_clock = 1000000, md_metrics = Map.empty, md_reports = Map.empty,
     md_installs = (\<lambda>_ _. None), md_devices = [], md_releases = (\<lambda>_. []), md_bodies = (\<lambda>_. [])\<rparr>"

section \<open>The image installs of a device after a report\<close>


definition demo_report :: img_install where
  "demo_report = \<lparr>ii_image = 7, ii_release = 3, ii_status = Some ''Running'', ii_progress = None\<rparr>"


lemma mem_metrics_contract: "store_contract (pe_metrics_store mem_env) md_metrics"
  by (simp add: mem_env_def field_store_contract)

end
