(* ===== verification/StatePatchV3.thy ===== *)
theory StatePatchV3
  imports PatchUtils
begin

text \<open>
  The endpoint a device reports its state to
  (\<^verbatim>\<open>src/features/device-state/routes/state-patch-v3.ts\<close>).

  The body is modelled after its validation: the fields of a device as an object, its applications
  as records.  The functions the handler collects and runs in one transaction are data
  (\<open>update_fn\<close>) with an interpreter; they run one after the other, in the order the handler starts
  them.  The keys of objects are in insertion order.
\<close>

section \<open>The body\<close>

record service_report =
  sr_image :: string
  sr_status :: "string option"
  sr_progress :: "json option"

record release_report =
  rr_update_status :: "string option"
  rr_services :: "service_report obj option"

record app_report =
  ar_release_uuid :: "string option"
  ar_releases :: "release_report obj option"

record device_report =
  dr_fields :: "json obj"
  dr_apps :: "app_report obj option"

definition updateStatusPrecedence :: "nat obj" where
  "updateStatusPrecedence =
     [(''rejected'', 0), (''aborted'', 1), (''downloading'', 2), (''downloaded'', 3),
      (''applying changes'', 4), (''done'', 5)]"

text \<open>The keys of a body whose values are objects (or arrays).\<close>

definition is_object :: "json \<Rightarrow> bool" where
  "is_object j = (case j of JArr _ \<Rightarrow> True | JObj _ \<Rightarrow> True | _ \<Rightarrow> False)"

definition resolveDeviceUuids :: "json \<Rightarrow> string list" where
  "resolveDeviceUuids body =
     (case body of
        JObj o' \<Rightarrow> filter (\<lambda>uuid. case map_of o' uuid of None \<Rightarrow> False | Some v \<Rightarrow> is_object v) (obj_keys o')
      | JArr js \<Rightarrow> map (\<lambda>i. show_nat i) (filter (\<lambda>i. is_object (js ! i)) [0..<length js])
      | _ \<Rightarrow> [])"

definition body_json :: "device_report obj \<Rightarrow> json" where
  "body_json body = JObj (map (\<lambda>(uuid, r). (uuid, JObj (dr_fields r))) body)"

section \<open>What to fetch\<close>

record app_criteria =
  ac_releaseUuids :: "string list"
  ac_imageLocations :: "string list"

text \<open>\<^verbatim>\<open>Set.add\<close>.\<close>

definition set_add :: "'a \<Rightarrow> 'a list \<Rightarrow> 'a list" where
  "set_add x xs = (if x \<in> set xs then xs else xs @ [x])"

definition release_criteria :: "string \<times> release_report \<Rightarrow> app_criteria \<Rightarrow> app_criteria" where
  "release_criteria r c =
     \<lparr>ac_releaseUuids = set_add (fst r) (ac_releaseUuids c),
      ac_imageLocations = ac_imageLocations c @
        (case rr_services (snd r) of None \<Rightarrow> [] | Some ss \<Rightarrow> map (\<lambda>(_, s). sr_image s) ss)\<rparr>"

definition app_report_criteria :: "app_report \<Rightarrow> app_criteria \<Rightarrow> app_criteria" where
  "app_report_criteria report c =
     (let c1 = (case ar_release_uuid report of
                  None \<Rightarrow> c
                | Some u \<Rightarrow> (if u = [] then c else c\<lparr>ac_releaseUuids := set_add u (ac_releaseUuids c)\<rparr>))
      in case ar_releases report of None \<Rightarrow> c1 | Some rs \<Rightarrow> fold release_criteria rs c1)"

definition appReleasesCriteria :: "device_report obj \<Rightarrow> string list \<Rightarrow> app_criteria obj" where
  "appReleasesCriteria body uuids =
     fold (\<lambda>uuid criteria.
             case Option.bind (map_of body uuid) dr_apps of
               None \<Rightarrow> criteria
             | Some apps \<Rightarrow>
                 fold (\<lambda>(appUuid, report) criteria.
                         let c = (case map_of criteria appUuid of
                                    None \<Rightarrow> \<lparr>ac_releaseUuids = [], ac_imageLocations = []\<rparr>
                                  | Some c \<Rightarrow> c)
                         in obj_set appUuid (app_report_criteria report c) criteria)
                   apps criteria)
       uuids []"

record fetched =
  fd_devicesByUuid :: "string \<Rightarrow> device_row option"
  fd_images :: "(int \<times> string) list"
  fd_releases :: "release_row list obj"

definition image_location_filter :: "string \<Rightarrow> string \<times> string option" where
  "image_location_filter imgLocation =
     (case js_split (CHR ''@'') imgLocation of
        [] \<Rightarrow> ([], None)
      | [location] \<Rightarrow> (location, None)
      | location # contentHash # _ \<Rightarrow>
          (location, if contentHash = [] then None else Some contentHash))"

fun fetch_apps ::
  "'w patch_env \<Rightarrow> app_criteria obj \<Rightarrow> (int \<times> string) list \<Rightarrow> release_row list obj \<Rightarrow>
   ('w, (int \<times> string) list \<times> release_row list obj) io"
where
  "fetch_apps env [] images releases = io_return (images, releases)"
| "fetch_apps env ((appUuid, c) # rest) images releases =
     (if ac_releaseUuids c = [] then fetch_apps env rest images (obj_set appUuid [] releases)
      else io_bind
             (pe_get_releases env appUuid (ac_releaseUuids c)
               (map image_location_filter (ac_imageLocations c))) (\<lambda>appReleases.
           if length appReleases \<noteq> length (ac_releaseUuids c) then io_throw UnauthorizedError
           else if length (ac_imageLocations c) > 0
           then (let appImages = concat (map (\<lambda>r. case rlr_images r of None \<Rightarrow> [] | Some is' \<Rightarrow> is') appReleases)
                 in if length (ac_imageLocations c) \<noteq> length appImages then io_throw UnauthorizedError
                    else fetch_apps env rest (images @ appImages) (obj_set appUuid appReleases releases))
           else fetch_apps env rest images (obj_set appUuid appReleases releases)))"

definition fetchData :: "'w patch_env \<Rightarrow> int list \<Rightarrow> app_criteria obj \<Rightarrow> ('w, fetched) io" where
  "fetchData env deviceIds criteria =
     io_bind (pe_get_devices env deviceIds) (\<lambda>devices.
       if length devices \<noteq> length deviceIds then io_throw UnauthorizedError
       else io_bind (fetch_apps env criteria [] []) (\<lambda>(images, releases).
              io_return \<lparr>fd_devicesByUuid = pe_keyByUuid env devices, fd_images = images,
                         fd_releases = releases\<rparr>))"

section \<open>One device\<close>

datatype update_fn =
    DevicePatch int "json obj" "json obj"
  | ImageInstalls int "img_install list"

text \<open>The release the device runs, taken from the report on the application it belongs to.\<close>

definition running_release ::
  "fetched \<Rightarrow> string \<Rightarrow> app_report obj \<Rightarrow> json obj \<Rightarrow> json obj res"
where
  "running_release data userAppUuid apps deviceBody =
     (case map_of (fd_releases data) userAppUuid of
        None \<Rightarrow> Inr deviceBody
      | Some [] \<Rightarrow> Inr deviceBody
      | Some rs \<Rightarrow>
          (case map_of apps userAppUuid of
             None \<Rightarrow> Inl JsTypeError
           | Some a \<Rightarrow>
               (case List.find (\<lambda>r. Some (rlr_commit r) = ar_release_uuid a) rs of
                  None \<Rightarrow> Inr deviceBody
                | Some release \<Rightarrow> Inr (obj_set ''is_running__release'' (JNum (rlr_id release)) deviceBody))))"

text \<open>Comparison with \<^verbatim>\<open>undefined\<close>, for a status that is no key of the table, is false.\<close>

definition precedes :: "string \<Rightarrow> json \<Rightarrow> bool" where
  "precedes s current =
     (case current of
        JStr c \<Rightarrow>
          (case (map_of updateStatusPrecedence s, map_of updateStatusPrecedence c) of
             (Some a, Some b) \<Rightarrow> a < b
           | _ \<Rightarrow> False)
      | _ \<Rightarrow> False)"

definition reduce_update_status :: "release_report obj \<Rightarrow> json obj \<Rightarrow> json obj" where
  "reduce_update_status releases deviceBody =
     fold (\<lambda>(_, r) body.
             case rr_update_status r of
               None \<Rightarrow> body
             | Some updateStatus \<Rightarrow>
                 (case map_of body ''update_status'' of
                    None \<Rightarrow> obj_set ''update_status'' (JStr updateStatus) body
                  | Some current \<Rightarrow>
                      (if current = JNull \<or> precedes updateStatus current
                       then obj_set ''update_status'' (JStr updateStatus) body else body)))
       releases deviceBody"

definition release_fields :: "fetched \<Rightarrow> device_row \<Rightarrow> app_report obj \<Rightarrow> json obj \<Rightarrow> json obj res" where
  "release_fields data device apps deviceBody =
     res_bind (running_release data (dvr_app device) apps deviceBody) (\<lambda>deviceBody.
       Inr (case Option.bind (map_of apps (dvr_app device)) ar_releases of
              None \<Rightarrow> deviceBody
            | Some releases \<Rightarrow> reduce_update_status releases deviceBody))"

definition service_install ::
  "fetched \<Rightarrow> release_row \<Rightarrow> string \<times> service_report \<Rightarrow> img_install res"
where
  "service_install data release s =
     (let serviceLocation = hd (js_split (CHR ''@'') (sr_image (snd s)))
      in case List.find (\<lambda>(_, l). l = serviceLocation) (fd_images data) of
           None \<Rightarrow> Inl (InternalRequestError [])
         | Some (imageId, _) \<Rightarrow>
             Inr \<lparr>ii_image = imageId, ii_release = rlr_id release, ii_status = sr_status (snd s),
                  ii_progress = sr_progress (snd s)\<rparr>)"

definition release_installs ::
  "fetched \<Rightarrow> string \<Rightarrow> string \<times> release_report \<Rightarrow> img_install list res"
where
  "release_installs data appUuid r =
     (case map_of (fd_releases data) appUuid of
        None \<Rightarrow> Inl JsTypeError
      | Some rs \<Rightarrow>
          (case List.find (\<lambda>row. rlr_commit row = fst r) rs of
             None \<Rightarrow> Inl (InternalRequestError [])
           | Some release \<Rightarrow>
               res_all (service_install data release)
                 (case rr_services (snd r) of None \<Rightarrow> [] | Some ss \<Rightarrow> ss)))"

definition app_installs :: "fetched \<Rightarrow> string \<times> app_report \<Rightarrow> img_install list res" where
  "app_installs data a =
     res_bind
       (res_all (release_installs data (fst a))
         (case ar_releases (snd a) of None \<Rightarrow> [] | Some rs \<Rightarrow> rs))
       (\<lambda>iss. Inr (concat iss))"

definition collect_installs :: "fetched \<Rightarrow> app_report obj \<Rightarrow> img_install list res" where
  "collect_installs data apps = res_bind (res_all (app_installs data) apps) (\<lambda>iss. Inr (concat iss))"

text \<open>
  One round of the loop over the devices: the fetched data is shared by the rounds and fetched by
  the first one that needs it.
\<close>

definition device_updates ::
  "fetched \<Rightarrow> device_row \<Rightarrow> app_report obj option \<Rightarrow> json obj \<Rightarrow> json obj \<Rightarrow> update_fn list res"
where
  "device_updates data device apps deviceBody0 metricsBody =
     res_bind (case apps of None \<Rightarrow> Inr deviceBody0 | Some as \<Rightarrow> release_fields data device as deviceBody0)
       (\<lambda>deviceBody.
       let patch = (if length deviceBody > 0
                    then (let body = truncateConstrainedDeviceFields deviceBody
                          in [DevicePatch (dvr_id device) body (obj_merge body metricsBody)])
                    else [])
       in case apps of
            None \<Rightarrow> Inr patch
          | Some as \<Rightarrow>
              res_bind (collect_installs data as) (\<lambda>installs.
                Inr (patch @ [ImageInstalls (dvr_id device) installs])))"

definition patch_device_step ::
  "'w patch_env \<Rightarrow> int list \<Rightarrow> app_criteria obj \<Rightarrow> string \<Rightarrow> device_report \<Rightarrow> fetched option \<Rightarrow>
   ('w, fetched option \<times> update_fn list) io"
where
  "patch_device_step env resolvedDeviceIds criteria uuid state data =
     io_bind (split_metrics env v3ValidPatchFields (dr_fields state) uuid) (\<lambda>(deviceBody0, metricsBody).
       let deviceBody = normalize_cpu_id deviceBody0
       in if dr_apps state \<noteq> None \<or> length deviceBody > 0
          then io_bind (case data of
                          None \<Rightarrow> fetchData env resolvedDeviceIds criteria
                        | Some d \<Rightarrow> io_return d) (\<lambda>d.
                 case fd_devicesByUuid d uuid of
                   None \<Rightarrow> io_throw JsTypeError
                 | Some device \<Rightarrow>
                     io_bind (io_lift (device_updates d device (dr_apps state) deviceBody metricsBody))
                       (\<lambda>fns. io_return (Some d, fns)))
          else io_return (data, []))"

fun patch_devices ::
  "'w patch_env \<Rightarrow> int list \<Rightarrow> app_criteria obj \<Rightarrow> device_report obj \<Rightarrow> string list \<Rightarrow>
   fetched option \<Rightarrow> update_fn list \<Rightarrow> ('w, update_fn list) io"
where
  "patch_devices env ids criteria body [] data updateFns = io_return updateFns"
| "patch_devices env ids criteria body (uuid # uuids) data updateFns =
     (case map_of body uuid of
        None \<Rightarrow> io_throw JsTypeError
      | Some state \<Rightarrow>
          io_bind (patch_device_step env ids criteria uuid state data) (\<lambda>(data', fns).
            patch_devices env ids criteria body uuids data' (updateFns @ fns)))"

section \<open>The handler\<close>

fun run_update_fn :: "'w patch_env \<Rightarrow> update_fn \<Rightarrow> ('w, unit) io" where
  "run_update_fn env (DevicePatch deviceId skip body) = pe_patch_device env deviceId skip body"
| "run_update_fn env (ImageInstalls deviceId installs) = update_image_installs env deviceId installs"

definition run_updates :: "'w patch_env \<Rightarrow> update_fn list \<Rightarrow> ('w, unit) io" where
  "run_updates env updateFns =
     (if length updateFns > 0
      then db_transaction env (io_bind (io_mapM (run_update_fn env) updateFns) (\<lambda>_. io_return ()))
      else io_return ())"

definition statePatchV3_body ::
  "'w patch_env \<Rightarrow> int list \<Rightarrow> device_report obj \<Rightarrow> ('w, unit) io"
where
  "statePatchV3_body env resolvedDeviceIds body =
     (let uuids = resolveDeviceUuids (body_json body)
      in if length uuids = 0 then io_throw (BadRequestError [])
         else io_bind
                (patch_devices env resolvedDeviceIds (appReleasesCriteria body uuids) body uuids None [])
                (run_updates env))"

text \<open>The answer: \<open>http_status\<close> is the status the error layer gives its own errors.\<close>

definition patch_answer :: "(exn \<Rightarrow> int) \<Rightarrow> ('w, unit) io \<Rightarrow> 'w \<Rightarrow> int \<times> 'w" where
  "patch_answer http_status m w =
     (case m w of
        (Inr _, w') \<Rightarrow> (200, w')
      | (Inl err, w') \<Rightarrow> (if is_http_error err then http_status err else 500, w'))"

definition statePatchV3 ::
  "'w patch_env \<Rightarrow> (exn \<Rightarrow> int) \<Rightarrow> int list \<Rightarrow> device_report obj \<Rightarrow> 'w \<Rightarrow> int \<times> 'w"
where
  "statePatchV3 env http_status resolvedDeviceIds body =
     patch_answer http_status (statePatchV3_body env resolvedDeviceIds body)"

section \<open>The update status\<close>

definition reported_status :: "release_report obj \<Rightarrow> string \<Rightarrow> bool" where
  "reported_status releases s \<longleftrightarrow> Some s \<in> (rr_update_status \<circ> snd) ` set releases"

definition best_status :: "release_report obj \<Rightarrow> json option \<Rightarrow> bool" where
  "best_status releases r \<longleftrightarrow>
     (case r of
        None \<Rightarrow> \<not> Bex UNIV (reported_status releases)
      | Some j \<Rightarrow>
          (\<exists>s p. j = JStr s \<and> reported_status releases s \<and> map_of updateStatusPrecedence s = Some p \<and>
             (\<forall>s' p'. reported_status releases s' \<longrightarrow> map_of updateStatusPrecedence s' = Some p' \<longrightarrow> p \<le> p')))"

lemma best_status_reduce:
  assumes "\<And>s. reported_status releases s \<Longrightarrow> map_of updateStatusPrecedence s \<noteq> None"
    and "map_of body ''update_status'' = None"
  shows "best_status releases (map_of (reduce_update_status releases body) ''update_status'')"
  using assms(1)
proof (induction releases rule: rev_induct)
  case Nil
  then show ?case using assms(2) by (simp add: best_status_def reduce_update_status_def reported_status_def)
next
  case (snoc r rs)
  let ?b = "reduce_update_status rs body"
  have IH: "best_status rs (map_of ?b ''update_status'')"
    using snoc by (auto simp: reported_status_def)
  obtain a rel where r: "r = (a, rel)" by (cases r)
  have rep: "reported_status (rs @ [(a, rel)]) s \<longleftrightarrow> reported_status rs s \<or> rr_update_status rel = Some s" for s
    by (auto simp: reported_status_def)
  show ?case
  proof (cases "rr_update_status rel")
    case None
    then have "reduce_update_status (rs @ [r]) body = ?b" by (simp add: reduce_update_status_def r)
    with IH None show ?thesis by (auto simp: best_status_def rep r split: option.splits)
  next
    case (Some u)
    then obtain q where q: "map_of updateStatusPrecedence u = Some q"
      using snoc.prems [of u] by (auto simp: rep r)
    show ?thesis
    proof (cases "map_of ?b ''update_status''")
      case None
      with Some have "map_of (reduce_update_status (rs @ [r]) body) ''update_status'' = Some (JStr u)"
        by (simp add: reduce_update_status_def r)
      moreover have "\<not> reported_status rs s" for s using IH None by (auto simp: best_status_def)
      ultimately show ?thesis using Some q by (auto simp: best_status_def rep r)
    next
      case (Some j)
      then obtain s p where s: "j = JStr s" "reported_status rs s" "map_of updateStatusPrecedence s = Some p"
        "\<forall>s' p'. reported_status rs s' \<longrightarrow> map_of updateStatusPrecedence s' = Some p' \<longrightarrow> p \<le> p'"
        using IH by (auto simp: best_status_def)
      have "map_of (reduce_update_status (rs @ [r]) body) ''update_status'' =
          Some (JStr (if q < p then u else s))"
        using Some \<open>rr_update_status rel = Some u\<close> s(1,3) q
        by (simp add: reduce_update_status_def r precedes_def)
      with s(2-4) q \<open>rr_update_status rel = Some u\<close> show ?thesis
        by (auto simp: best_status_def rep r)
    qed
  qed
qed

text \<open>
  The update status written for a device is the one with the lowest precedence among those
  its releases report, in whatever order they come; without a report no status is written.
\<close>

lemma update_status_lowest:
  assumes "\<And>s. reported_status releases s \<Longrightarrow> map_of updateStatusPrecedence s \<noteq> None"
    and "map_of body ''update_status'' = None"
  shows "case map_of (reduce_update_status releases body) ''update_status'' of
      None \<Rightarrow> \<not> (\<exists>s. reported_status releases s)
    | Some j \<Rightarrow>
        (\<exists>s p. j = JStr s \<and> reported_status releases s \<and> map_of updateStatusPrecedence s = Some p \<and>
           (\<forall>s' p'. reported_status releases s' \<longrightarrow> map_of updateStatusPrecedence s' = Some p' \<longrightarrow> p \<le> p'))"
  using best_status_reduce [of releases body, OF assms]
  by (cases "map_of (reduce_update_status releases body) ''update_status''") (auto simp: best_status_def)

definition status_report :: "string \<Rightarrow> release_report" where
  "status_report s = \<lparr>rr_update_status = Some s, rr_services = None\<rparr>"

section \<open>Which fields a device can write\<close>

text \<open>\<^verbatim>\<open>_.pick\<close>.\<close>

locale pick_contract =
  fixes pick :: "json obj \<Rightarrow> string list \<Rightarrow> json obj"
  assumes pick_law: "map_of (pick o' ks) k = (if k \<in> set ks then map_of o' k else None)"
begin

lemma dom_pick: "dom (map_of (pick o' ks)) \<subseteq> set ks"
  by (auto simp: pick_law split: if_splits)

end

interpretation obj_pick: pick_contract obj_pick
proof
  show "map_of (obj_pick o' ks) k = (if k \<in> set ks then map_of o' k else None)" for o' ks k
    by (induction o') (auto simp: obj_pick_def)
qed

lemma dom_truncateConstrainedDeviceFields [simp]:
  "dom (map_of (truncateConstrainedDeviceFields b)) = dom (map_of b)"
  by (auto simp: truncateConstrainedDeviceFields_def dom_def
      map_of_truncateConstrainedFields [OF device_constrained_fields_distinct]
      split: option.splits json.splits)

lemma dom_limitMetricNumbers [simp]: "dom (map_of (limitMetricNumbers m b)) = dom (map_of b)"
  by (auto simp: map_of_limitMetricNumbers dom_def split: option.splits json.splits if_splits)

lemma dom_obj_merge: "dom (map_of (obj_merge a b)) \<subseteq> dom (map_of a) \<union> dom (map_of b)"
proof -
  have "map_of a k \<noteq> None \<or> map_of b k \<noteq> None" if "map_of (obj_merge a b) k \<noteq> None" for k
    using that by (cases "map_of (rev b) k") (auto dest!: map_of_SomeD simp: map_of_eq_None_iff, force+)
  then show ?thesis by blast
qed

lemma dom_normalizeDeviceWriteBody: "dom (map_of (normalizeDeviceWriteBody b)) \<subseteq> dom (map_of b)"
  by (auto simp: normalizeDeviceWriteBody_def split: option.splits if_splits)

lemma dom_normalize_cpu_id: "dom (map_of (normalize_cpu_id b)) \<subseteq> dom (map_of b)"
  by (auto simp: normalize_cpu_id_def split: option.splits json.splits if_splits)

lemma dom_reduce_update_status:
  "dom (map_of (reduce_update_status rs b)) \<subseteq> insert ''update_status'' (dom (map_of b))"
proof (induction rs arbitrary: b)
  case Nil
  then show ?case by (auto simp: reduce_update_status_def)
next
  case (Cons r rs)
  obtain a rel where r: "r = (a, rel)" by (cases r)
  have step: "reduce_update_status (r # rs) b =
      reduce_update_status rs (reduce_update_status [r] b)"
    by (simp add: reduce_update_status_def)
  have one: "dom (map_of (reduce_update_status [r] b)) \<subseteq> insert ''update_status'' (dom (map_of b))"
    by (auto simp: reduce_update_status_def r split: option.splits if_splits)
  from one Cons.IH [of "reduce_update_status [r] b"] show ?case unfolding step by blast
qed

lemma dom_release_fields:
  assumes "release_fields data device apps b = Inr b'"
  shows "dom (map_of b') \<subseteq> insert ''update_status'' (insert ''is_running__release'' (dom (map_of b)))"
proof -
  from assms obtain b1 where
    b1: "running_release data (dvr_app device) apps b = Inr b1"
    and b': "b' = b1 \<or> (\<exists>rs. b' = reduce_update_status rs b1)"
    by (auto simp: release_fields_def res_bind_Inr_iff split: option.splits)
  have "dom (map_of b1) \<subseteq> insert ''is_running__release'' (dom (map_of b))"
    using b1 by (auto simp: running_release_def split: option.splits list.splits)
  with b' dom_reduce_update_status [of _ b1] show ?thesis by blast
qed

lemma dom_split_metrics:
  assumes "pick_contract (pe_pick env)"
    and "split_metrics env fs state uuid w = (Inr (deviceBody, metricsBody), w')"
  shows "dom (map_of deviceBody) \<subseteq> set fs \<union> set metricsPatchFields \<and>
    dom (map_of metricsBody) \<subseteq> set metricsPatchFields"
proof -
  let ?d = "normalizeDeviceWriteBody (pe_pick env state fs)"
  let ?m = "limitMetricNumbers (pe_metrics_max env) (pe_pick env state metricsPatchFields)"
  have d: "dom (map_of ?d) \<subseteq> set fs"
    using dom_normalizeDeviceWriteBody pick_contract.dom_pick [OF assms(1)] by blast
  have m: "dom (map_of ?m) \<subseteq> set metricsPatchFields"
    using pick_contract.dom_pick [OF assms(1)] by simp
  from assms(2) have "(deviceBody = ?d \<and> metricsBody = ?m) \<or> (deviceBody = obj_merge ?d ?m \<and> metricsBody = [])"
    by (auto simp: split_metrics_def Let_def io_simps split: if_splits prod.splits sum.splits)
  then show ?thesis
  proof
    assume "deviceBody = ?d \<and> metricsBody = ?m"
    then show ?thesis using d m by blast
  next
    assume b: "deviceBody = obj_merge ?d ?m \<and> metricsBody = []"
    have "dom (map_of (obj_merge ?d ?m)) \<subseteq> set fs \<union> set metricsPatchFields"
      using subset_trans [OF dom_obj_merge Un_mono [OF d m]] .
    with b show ?thesis by simp
  qed
qed

definition device_fields :: "string set" where
  "device_fields = set v3ValidPatchFields \<union> set metricsPatchFields \<union> {''is_running__release''}"

definition write_allowed :: "fetched \<Rightarrow> string \<Rightarrow> update_fn \<Rightarrow> bool" where
  "write_allowed d uuid fn \<longleftrightarrow>
     (\<exists>dev. fd_devicesByUuid d uuid = Some dev \<and>
        (case fn of
           DevicePatch did skip b \<Rightarrow> did = dvr_id dev \<and> dom (map_of b) \<subseteq> device_fields
         | ImageInstalls did iis \<Rightarrow> did = dvr_id dev))"

lemma device_updates_allowed:
  assumes "device_updates d dev apps b m = Inr fns" and "fn \<in> set fns"
    and "fd_devicesByUuid d uuid = Some dev"
    and "dom (map_of b) \<subseteq> device_fields" and "dom (map_of m) \<subseteq> device_fields"
  shows "write_allowed d uuid fn"
proof -
  from assms(1) obtain b' where
    b': "(case apps of None \<Rightarrow> Inr b | Some as \<Rightarrow> release_fields d dev as b) = Inr b'"
    and fn: "fn = DevicePatch (dvr_id dev) (truncateConstrainedDeviceFields b')
        (obj_merge (truncateConstrainedDeviceFields b') m) \<or> (\<exists>iis. fn = ImageInstalls (dvr_id dev) iis)"
    using assms(2)
    by (auto simp: device_updates_def Let_def res_bind_Inr_iff split: option.splits if_splits)
  have "dom (map_of b') \<subseteq> device_fields"
  proof (cases apps)
    case None
    with b' assms(4) show ?thesis by simp
  next
    case (Some as)
    with b' dom_release_fields [of d dev as b b'] have
      "dom (map_of b') \<subseteq> insert ''update_status'' (insert ''is_running__release'' (dom (map_of b)))" by simp
    moreover have "''update_status'' \<in> device_fields" "''is_running__release'' \<in> device_fields"
      by (simp_all add: device_fields_def v3ValidPatchFields_def)
    ultimately show ?thesis using assms(4) by blast
  qed
  then have "dom (map_of (obj_merge (truncateConstrainedDeviceFields b') m)) \<subseteq> device_fields"
    using dom_obj_merge [of "truncateConstrainedDeviceFields b'" m] assms(5)
    unfolding dom_truncateConstrainedDeviceFields by blast
  with fn assms(3) show ?thesis by (auto simp only: write_allowed_def update_fn.case)
qed

lemma patch_device_step_allowed:
  assumes "pick_contract (pe_pick env)"
    and "patch_device_step env ids criteria uuid state data w = (Inr (data', fns), w')"
    and "fn \<in> set fns"
  shows "\<exists>d. data' = Some d \<and> write_allowed d uuid fn"
proof -
  from assms(2) obtain b m w1 where
    sm: "split_metrics env v3ValidPatchFields (dr_fields state) uuid w = (Inr (b, m), w1)"
    by (auto simp: patch_device_step_def io_bind_def split: prod.splits sum.splits)
  from assms(2,3) sm obtain d dev where
    d: "data' = Some d" "fd_devicesByUuid d uuid = Some dev"
    and u: "device_updates d dev (dr_apps state) (normalize_cpu_id b) m = Inr fns"
    by (auto simp: patch_device_step_def Let_def io_bind_def io_return_def io_throw_def io_lift_def
        split: prod.splits sum.splits if_splits option.splits)
  from dom_split_metrics [OF assms(1) sm] dom_normalize_cpu_id [of b]
  have "dom (map_of (normalize_cpu_id b)) \<subseteq> device_fields" "dom (map_of m) \<subseteq> device_fields"
    by (auto simp only: device_fields_def)
  from device_updates_allowed [OF u assms(3) d(2) this] d show ?thesis by blast
qed

lemma patch_devices_allowed:
  assumes "pick_contract (pe_pick env)"
    and "patch_devices env ids criteria body uuids data acc w = (Inr fns, w')"
    and "fn \<in> set fns" and "fn \<notin> set acc"
  shows "\<exists>d. \<exists>uuid \<in> set uuids. write_allowed d uuid fn"
  using assms(2-4)
proof (induction uuids arbitrary: data acc w)
  case Nil
  then show ?case by (simp add: io_simps)
next
  case (Cons uuid uuids)
  then obtain state where state: "map_of body uuid = Some state"
    by (cases "map_of body uuid") (auto simp: io_simps)
  from Cons.prems(1) obtain data' new w1 where
    step: "patch_device_step env ids criteria uuid state data w = (Inr (data', new), w1)"
    and rest: "patch_devices env ids criteria body uuids data' (acc @ new) w1 = (Inr fns, w')"
    by (auto simp: state io_bind_def split: prod.splits sum.splits)
  show ?case
  proof (cases "fn \<in> set new")
    case True
    from patch_device_step_allowed [OF assms(1) step this] show ?thesis by auto
  next
    case False
    with Cons.IH [OF rest] Cons.prems(2,3) show ?thesis by auto
  qed
qed

text \<open>
  The writes a report leads to concern only devices named in the body, and a device write
  has no field outside the fixed list of state fields, metrics and the running release: a device
  cannot set any other column through this endpoint.
\<close>

lemma patch_devices_writes:
  assumes "pick_contract (pe_pick env)"
    and "patch_devices env ids criteria body uuids None [] w = (Inr fns, w')"
    and "fn \<in> set fns"
  shows "\<exists>d :: fetched. \<exists>uuid \<in> set uuids. \<exists>dev. fd_devicesByUuid d uuid = Some dev \<and>
    (case fn of
       DevicePatch did skip b \<Rightarrow> did = dvr_id dev \<and> dom (map_of b) \<subseteq>
         set v3ValidPatchFields \<union> set metricsPatchFields \<union> {''is_running__release''}
     | ImageInstalls did iis \<Rightarrow> did = dvr_id dev)"
proof -
  have "\<exists>d. \<exists>uuid \<in> set uuids. write_allowed d uuid fn"
    using patch_devices_allowed [OF assms] by simp
  then show ?thesis unfolding write_allowed_def device_fields_def .
qed

definition demo_device_report :: device_report where
  "demo_device_report = \<lparr>dr_fields = [(''status'', JStr ''Idle''), (''uuid'', JStr ''x'')], dr_apps = None\<rparr>"

definition demo_db :: mem_db where
  "demo_db = mem_db0\<lparr>md_devices := [\<lparr>dvr_id = 1, dvr_uuid = ''u'', dvr_app = ''app''\<rparr>]\<rparr>"

lemma demo_run:
  "patch_devices mem_env [1] [] [(''u'', demo_device_report)] [''u''] None [] demo_db =
     (Inr [DevicePatch 1 [(''status'', JStr ''Idle'')] [(''status'', JStr ''Idle'')]], demo_db)"
  by (simp add: patch_device_step_def split_metrics_def Let_def io_simps demo_device_report_def
      mem_env_def obj_pick_def v3ValidPatchFields_def metricsPatchFields_def metricsPatchNumbers_def
      normalizeDeviceWriteBody_def limitMetricNumbers_def normalize_cpu_id_def fetchData_def demo_db_def
      mem_db0_def last_by_def device_updates_def truncateConstrainedDeviceFields_def
      truncateConstrainedFields_def device_constrained_fields_def obj_merge_def)

section \<open>Nothing is written when the answer is not a success\<close>

text \<open>
  \<open>db\<close> is the content of the database: reads and the caches are no part of it, and undoing a
  transaction brings it back.
\<close>

locale patch_db =
  fixes env :: "'w patch_env" and db :: "'w \<Rightarrow> 'd"
  assumes devices_keep: "keeps db (pe_get_devices env ids)"
    and releases_keep: "keeps db (pe_get_releases env app commits locations)"
    and resolve_keep: "keeps db (pe_resolve_release env d commit)"
    and metrics_get_keep: "keeps db (store_get (pe_metrics_store env) k)"
    and metrics_set_keep: "keeps db (store_set (pe_metrics_store env) k t)"
    and rollback_law: "db (pe_rollback env w w') = db w"
begin

lemma shouldUpdateMetrics_keeps: "keeps db (shouldUpdateMetrics env uuid)"
proof -
  have "keeps db (\<lambda>w. (if P w then io_bind (store_set (pe_metrics_store env) uuid (pe_now env w))
      (\<lambda>_. io_return True) else io_return False) w)" for P
    by (rule keeps_diag) (auto intro: metrics_set_keep)
  then have "keeps db (\<lambda>w. if P w then io_bind (store_set (pe_metrics_store env) uuid (pe_now env w))
      (\<lambda>_. io_return True) w else io_return False w)" for P
    by (simp only: if_distribR)
  then show ?thesis
    unfolding shouldUpdateMetrics_def Let_def by (intro keeps_bind metrics_get_keep)
qed

lemma split_metrics_keeps: "keeps db (split_metrics env fs state uuid)"
  unfolding split_metrics_def Let_def
  by (auto intro: shouldUpdateMetrics_keeps)

lemma fetch_apps_keeps: "keeps db (fetch_apps env cs images releases)"
proof (induction cs arbitrary: images releases)
  case Nil
  then show ?case by simp
next
  case (Cons c cs)
  then show ?case by (cases c) (auto intro: releases_keep simp: Let_def)
qed

lemma fetchData_keeps: "keeps db (fetchData env ids criteria)"
  unfolding fetchData_def by (auto intro!: keeps_bind devices_keep fetch_apps_keeps split: prod.split)

lemma patch_device_step_keeps: "keeps db (patch_device_step env ids criteria uuid state data)"
  unfolding patch_device_step_def Let_def
  by (auto intro!: keeps_bind split_metrics_keeps fetchData_keeps split: option.split)

lemma patch_devices_keeps: "keeps db (patch_devices env ids criteria body uuids data fns)"
  by (induction uuids arbitrary: data fns)
    (auto intro!: keeps_bind patch_device_step_keeps split: option.split)

lemma run_updates_atomic:
  assumes "run_updates env fns w = (Inl e, w')"
  shows "db w' = db w"
  using assms rollback_law
  by (auto simp: run_updates_def db_transaction_def io_return_def split: if_splits prod.splits sum.splits)

lemma statePatchV3_body_atomic:
  assumes "statePatchV3_body env ids body w = (Inl e, w')"
  shows "db w' = db w"
proof -
  let ?uuids = "resolveDeviceUuids (body_json body)"
  let ?run = "patch_devices env ids (appReleasesCriteria body ?uuids) body ?uuids None []"
  consider "w' = w" | "?run w = (Inl e, w')"
    | fns w1 where "?run w = (Inr fns, w1)" "run_updates env fns w1 = (Inl e, w')"
    using assms by (auto simp: statePatchV3_body_def Let_def io_bind_def io_throw_def
        split: if_splits prod.splits sum.splits)
  then show ?thesis
    using patch_devices_keeps run_updates_atomic by cases (metis keepsD)+
qed

end

interpretation mem_db: patch_db mem_env "\<lambda>w. (md_installs w, md_bodies w)"
  by (rule patch_db.intro)
    (simp_all add: mem_env_def keeps_def field_store_def)

text \<open>
  Claim C1. An answer other than 200 leaves the database as it was: a report that fails halfway,
  in validation, in fetching or in one of its writes, changes neither devices nor image installs.
\<close>

theorem statePatchV3_atomic:
  assumes "patch_db env db" and "\<And>e. http_status e \<noteq> 200"
    and "statePatchV3 env http_status ids body w = (status, w')" and "status \<noteq> 200"
  shows "db w' = db w"
  using assms(3,4) patch_db.statePatchV3_body_atomic [OF assms(1)]
  by (auto simp: statePatchV3_def patch_answer_def split: prod.splits sum.splits)

theorem statePatchV3_atomic_witness:
  "\<exists>w'. statePatchV3 mem_env (\<lambda>_. 400) [1] [] demo_db = (400, w') \<and>
     md_installs w' = md_installs demo_db \<and> md_bodies w' = md_bodies demo_db"
proof -
  obtain w' where run: "statePatchV3 mem_env (\<lambda>_. 400) [1] [] demo_db = (400, w')"
    by (auto simp: statePatchV3_def patch_answer_def statePatchV3_body_def resolveDeviceUuids_def
        body_json_def obj_keys_def io_throw_def)
  from statePatchV3_atomic [OF mem_db.patch_db_axioms _ this] run show ?thesis by simp
qed

section \<open>The installs of a report\<close>

definition reported_services :: "app_report obj \<Rightarrow> (string \<times> string \<times> service_report) list" where
  "reported_services apps =
     concat (map (\<lambda>(a, app).
       concat (map (\<lambda>(c, rel).
         map (\<lambda>(_, s). (a, c, s)) (case rr_services rel of None \<Rightarrow> [] | Some ss \<Rightarrow> ss))
         (case ar_releases app of None \<Rightarrow> [] | Some rs \<Rightarrow> rs))) apps)"

definition install_of :: "fetched \<Rightarrow> string \<times> string \<times> service_report \<Rightarrow> img_install \<Rightarrow> bool" where
  "install_of data x ii =
     (case x of (a, c, s) \<Rightarrow>
        (\<exists>rs row. map_of (fd_releases data) a = Some rs \<and> row \<in> set rs \<and> rlr_commit row = c \<and>
           ii_release ii = rlr_id row) \<and>
        (ii_image ii, hd (js_split (CHR ''@'') (sr_image s))) \<in> set (fd_images data) \<and>
        ii_status ii = sr_status s \<and> ii_progress ii = sr_progress s)"

lemma service_install_of:
  assumes "service_install data row (n, s) = Inr ii"
    and "map_of (fd_releases data) a = Some rs" and "row \<in> set rs"
  shows "install_of data (a, rlr_commit row, s) ii"
  using assms
  by (auto simp: service_install_def install_of_def Let_def split: option.splits dest!: find_Some_in)

lemma release_installs_of:
  assumes "release_installs data a (c, rel) = Inr iis"
  shows "list_all2 (install_of data)
    (map (\<lambda>(_, s). (a, c, s)) (case rr_services rel of None \<Rightarrow> [] | Some ss \<Rightarrow> ss)) iis"
proof -
  let ?ss = "case rr_services rel of None \<Rightarrow> [] | Some ss \<Rightarrow> ss"
  from assms obtain rs row where
    rs: "map_of (fd_releases data) a = Some rs"
    and row: "List.find (\<lambda>row. rlr_commit row = c) rs = Some row"
    and all: "res_all (service_install data row) ?ss = Inr iis"
    by (auto simp: release_installs_def split: option.splits)
  from find_Some_in [OF row] have r: "row \<in> set rs" "rlr_commit row = c" by auto
  have one: "install_of data (a, c, snd x) ii" if "service_install data row x = Inr ii" for x ii
    using service_install_of [of data row "fst x" "snd x", OF _ rs r(1)] that r(2) by simp
  show ?thesis
    using res_all_Inr [OF all]
    by (simp add: list_all2_map1 case_prod_beta) (erule list_all2_mono, rule one)
qed

lemma app_installs_of:
  assumes "app_installs data (a, app) = Inr iis"
  shows "list_all2 (install_of data) (reported_services [(a, app)]) iis"
proof -
  let ?rs = "case ar_releases app of None \<Rightarrow> [] | Some rs \<Rightarrow> rs"
  from assms obtain iss where
    iss: "res_all (release_installs data a) ?rs = Inr iss" "iis = concat iss"
    by (auto simp: app_installs_def res_bind_Inr_iff)
  have "list_all2 (list_all2 (install_of data))
      (map (\<lambda>(c, rel). map (\<lambda>(_, s). (a, c, s)) (case rr_services rel of None \<Rightarrow> [] | Some ss \<Rightarrow> ss)) ?rs) iss"
    using res_all_Inr [OF iss(1)]
    by (simp add: list_all2_map1) (erule list_all2_mono, use release_installs_of in fastforce)
  from list_all2_concat_lists [OF this] show ?thesis
    by (simp add: reported_services_def iss(2))
qed

text \<open>
  The image installs of a report are exactly its services, one for each service of each
  release of each application in the order of the body: each has the id of the release with the
  reported commit in that application, and an image stored at the reported location.
\<close>

lemma collect_installs_services:
  assumes "collect_installs data apps = Inr iis"
  shows "list_all2
    (\<lambda>(a, c, s) ii.
       (\<exists>rs row. map_of (fd_releases data) a = Some rs \<and> row \<in> set rs \<and> rlr_commit row = c \<and>
          ii_release ii = rlr_id row) \<and>
       (ii_image ii, hd (js_split (CHR ''@'') (sr_image s))) \<in> set (fd_images data) \<and>
       ii_status ii = sr_status s \<and> ii_progress ii = sr_progress s)
    (reported_services apps) iis"
proof -
  from assms obtain iss where iss: "res_all (app_installs data) apps = Inr iss" "iis = concat iss"
    by (auto simp: collect_installs_def res_bind_Inr_iff)
  have "list_all2 (\<lambda>x. list_all2 (install_of data) (reported_services [x])) apps iss"
    using res_all_Inr [OF iss(1)] by (rule list_all2_mono) (use app_installs_of in fastforce)
  then have "list_all2 (list_all2 (install_of data)) (map (\<lambda>x. reported_services [x]) apps) iss"
    by (simp add: list_all2_map1)
  from list_all2_concat_lists [OF this]
  have "list_all2 (install_of data) (concat (map (\<lambda>x. reported_services [x]) apps)) iis"
    by (simp add: iss(2))
  moreover have "concat (map (\<lambda>x. reported_services [x]) apps) = reported_services apps"
    by (simp add: reported_services_def)
  ultimately have "list_all2 (install_of data) (reported_services apps) iis" by simp
  then show ?thesis by (rule list_all2_mono) (auto simp: install_of_def split: prod.splits)
qed

definition demo_fetched :: fetched where
  "demo_fetched = \<lparr>fd_devicesByUuid = (\<lambda>_. None), fd_images = [(9, ''registry/a'')],
     fd_releases = [(''app'', [\<lparr>rlr_id = 3, rlr_commit = ''c0'', rlr_images = None\<rparr>])]\<rparr>"

definition demo_apps :: "app_report obj" where
  "demo_apps = [(''app'', \<lparr>ar_release_uuid = None, ar_releases = Some [(''c0'',
     \<lparr>rr_update_status = None, rr_services = Some [(''main'',
        \<lparr>sr_image = ''registry/a@sha256:1'', sr_status = Some ''Running'', sr_progress = None\<rparr>)]\<rparr>)]\<rparr>)]"

end
