(* ===== verification/StatePatchV2.thy ===== *)
theory StatePatchV2
  imports StatePatchV3
begin

text \<open>
  The older endpoint a device reports its state to
  (\<^verbatim>\<open>src/features/device-state/routes/state-patch-v2.ts\<close>): one device per request, services by image
  and release id, the running release by commit.

  The body is modelled after its validation; \<open>pe_resolve_release\<close> is the query for a successful
  release of the device's application with a commit.  An update function that does nothing is left
  out of the list of updates.
\<close>

record v2_service =
  vs_releaseId :: "int + string"
  vs_status :: "string option"
  vs_progress :: "json option"

type_synonym v2_apps = "v2_service obj option obj"

record v2_local =
  vl_fields :: "json obj"
  vl_apps :: "v2_apps option"

text \<open>The fields of the device, before the running release is known.\<close>

definition v2_device_body ::
  "'w patch_env \<Rightarrow> string \<Rightarrow> json obj \<Rightarrow> ('w, json obj \<times> json obj) io"
where
  "v2_device_body env uuid local =
     io_bind (split_metrics env v2ValidPatchFields local uuid) (\<lambda>(deviceBody, metricsBody).
       let b1 = (case map_of local ''should_be_running__release'' of
                   None \<Rightarrow> deviceBody
                 | Some r \<Rightarrow> obj_set ''is_pinned_on__release'' r deviceBody);
           b2 = (case map_of local ''name'' of
                   None \<Rightarrow> b1
                 | Some n \<Rightarrow> (if n = JNull then b1 else obj_set ''device_name'' n b1))
       in io_return (normalize_cpu_id b2, metricsBody))"

definition v2_running_release ::
  "'w patch_env \<Rightarrow> int \<Rightarrow> json obj \<Rightarrow> json obj \<Rightarrow> ('w, json obj) io"
where
  "v2_running_release env deviceId local deviceBody =
     (case map_of local ''is_on__commit'' of
        None \<Rightarrow> io_return deviceBody
      | Some JNull \<Rightarrow> io_return (obj_set ''is_running__release'' JNull deviceBody)
      | Some (JStr commit) \<Rightarrow>
          io_bind (pe_resolve_release env deviceId commit) (\<lambda>releaseId.
            io_return (case releaseId of
                         None \<Rightarrow> deviceBody
                       | Some r \<Rightarrow> obj_set ''is_running__release'' (JNum r) deviceBody))
      | Some _ \<Rightarrow> io_return deviceBody)"

definition v2_service_install :: "string \<times> v2_service \<Rightarrow> img_install res" where
  "v2_service_install entry =
     (case parseInt10 (fst entry) of
        None \<Rightarrow> Inl (BadRequestError ''Invalid image ID value in request'')
      | Some imageId \<Rightarrow>
          (case (case vs_releaseId (snd entry) of Inl n \<Rightarrow> Some n | Inr s \<Rightarrow> parseInt10 s) of
             None \<Rightarrow> Inl (BadRequestError ''Invalid release ID value in request'')
           | Some releaseId \<Rightarrow>
               Inr \<lparr>ii_image = imageId, ii_release = releaseId, ii_status = vs_status (snd entry),
                    ii_progress = vs_progress (snd entry)\<rparr>))"

definition v2_installs :: "v2_apps \<Rightarrow> img_install list res" where
  "v2_installs apps =
     res_bind
       (res_all (\<lambda>(_, services). case services of None \<Rightarrow> Inr [] | Some ss \<Rightarrow> res_all v2_service_install ss) apps)
       (\<lambda>iss. Inr (concat iss))"

definition v2_updates ::
  "'w patch_env \<Rightarrow> int \<Rightarrow> string \<Rightarrow> v2_local \<Rightarrow> ('w, update_fn list) io"
where
  "v2_updates env deviceId uuid local =
     io_bind (v2_device_body env uuid (vl_fields local)) (\<lambda>(deviceBody0, metricsBody).
     io_bind
       (if map_of (vl_fields local) ''is_on__commit'' \<noteq> None \<or> length deviceBody0 > 0
        then io_bind (v2_running_release env deviceId (vl_fields local) deviceBody0) (\<lambda>deviceBody.
               io_return
                 (if length deviceBody > 0
                  then (let body = truncateConstrainedDeviceFields deviceBody
                        in [DevicePatch deviceId body (obj_merge body metricsBody)])
                  else []))
        else io_return [])
       (\<lambda>patch.
          case vl_apps local of
            None \<Rightarrow> io_return patch
          | Some apps \<Rightarrow>
              io_bind (io_lift (v2_installs apps)) (\<lambda>installs.
                io_return (patch @ [ImageInstalls deviceId installs]))))"

definition statePatchV2_body ::
  "'w patch_env \<Rightarrow> int option \<Rightarrow> string \<Rightarrow> v2_local option \<Rightarrow> ('w, unit) io"
where
  "statePatchV2_body env deviceId uuid local =
     (if uuid = [] then io_throw (BadRequestError [])
      else case deviceId of
             None \<Rightarrow> io_throw UnauthorizedError
           | Some did \<Rightarrow>
               io_bind (case local of None \<Rightarrow> io_return [] | Some l \<Rightarrow> v2_updates env did uuid l)
                 (run_updates env))"

definition statePatchV2 ::
  "'w patch_env \<Rightarrow> (exn \<Rightarrow> int) \<Rightarrow> int option \<Rightarrow> string \<Rightarrow> v2_local option \<Rightarrow> 'w \<Rightarrow> int \<times> 'w"
where
  "statePatchV2 env http_status deviceId uuid local =
     patch_answer http_status (statePatchV2_body env deviceId uuid local)"

section \<open>Nothing is written when the answer is not a success\<close>

context patch_db
begin

lemma v2_device_body_keeps: "keeps db (v2_device_body env uuid local)"
  unfolding v2_device_body_def Let_def
  by (auto intro!: keeps_bind split_metrics_keeps split: prod.split)

lemma v2_running_release_keeps: "keeps db (v2_running_release env d local b)"
  unfolding v2_running_release_def
  by (auto intro!: keeps_bind resolve_keep split: option.split json.split)

lemma v2_updates_keeps: "keeps db (v2_updates env d uuid local)"
  unfolding v2_updates_def Let_def
  by (auto intro!: keeps_bind v2_device_body_keeps v2_running_release_keeps split: prod.split option.split)

lemma statePatchV2_body_atomic:
  assumes "statePatchV2_body env deviceId uuid local w = (Inl e, w')"
  shows "db w' = db w"
proof (cases "uuid = [] \<or> deviceId = None")
  case True
  with assms show ?thesis by (auto simp: statePatchV2_body_def io_throw_def split: if_splits)
next
  case False
  then obtain did where did: "deviceId = Some did" "uuid \<noteq> []" by blast
  let ?m = "case local of None \<Rightarrow> io_return [] | Some l \<Rightarrow> v2_updates env did uuid l"
  have keep: "keeps db ?m" using v2_updates_keeps by (auto split: option.split)
  consider "?m w = (Inl e, w')" | fns w1 where "?m w = (Inr fns, w1)" "run_updates env fns w1 = (Inl e, w')"
    using assms did by (auto simp: statePatchV2_body_def io_bind_def split: prod.splits sum.splits)
  then show ?thesis
    using keep run_updates_atomic by cases (metis keepsD)+
qed

end

text \<open>
  As for the newer endpoint, an answer other than 200 leaves the database as it was.
\<close>

lemma statePatchV2_atomic:
  assumes "patch_db env db" and "\<And>e. http_status e \<noteq> 200"
    and "statePatchV2 env http_status deviceId uuid local w = (status, w')" and "status \<noteq> 200"
  shows "db w' = db w"
  using assms(3,4) patch_db.statePatchV2_body_atomic [OF assms(1)]
  by (auto simp: statePatchV2_def patch_answer_def split: prod.splits sum.splits)

definition demo_bad_local :: v2_local where
  "demo_bad_local = \<lparr>vl_fields = [], vl_apps = Some [(''1'', Some [(''x'',
     \<lparr>vs_releaseId = Inl 3, vs_status = None, vs_progress = None\<rparr>)])]\<rparr>"

end
