(* ===== verification/DeviceGate.thy ===== *)
theory DeviceGate
  imports StatePatchV3
begin

text \<open>
  The check in front of the device endpoints (\<^verbatim>\<open>src/features/device-state/middleware.ts\<close>) and the
  endpoint for the tags of devices (\<^verbatim>\<open>routes/tags-patch-v3.ts\<close>, \<^verbatim>\<open>src/features/tags/validation.ts\<close>).
\<close>

section \<open>Deleted and frozen devices\<close>

text \<open>The memoized query stores \<^verbatim>\<open>false\<close> for a device that does not exist.\<close>

datatype cached_device = CachedFalse | CachedDevice int bool

definition checkDeviceExistsIsFrozen ::
  "('w, cached_device option) level_store \<Rightarrow> (string \<Rightarrow> string) \<Rightarrow>
   (string \<Rightarrow> ('w, (int \<times> bool) option) io) \<Rightarrow> string \<Rightarrow> ('w, (int \<times> bool) option) io"
where
  "checkDeviceExistsIsFrozen cache normalizer query uuid =
     io_bind
       (memoizedFn cache normalizer (Some CachedFalse)
         (\<lambda>uuid. io_bind (query uuid) (\<lambda>r.
            io_return (map_option (\<lambda>(did, is_frozen). CachedDevice did is_frozen) r))) uuid)
       (\<lambda>v. io_return (case v of Some (CachedDevice did is_frozen) \<Rightarrow> Some (did, is_frozen) | _ \<Rightarrow> None))"

datatype status_codes = SameStatus int | Statuses int int

datatype gate = Denied int | Passed "int list"

fun resolve_devices ::
  "(string \<Rightarrow> ('w, (int \<times> bool) option) io) \<Rightarrow> (int \<Rightarrow> ('w, unit) io) \<Rightarrow> int \<Rightarrow> int \<Rightarrow>
   string list \<Rightarrow> int list \<Rightarrow> ('w, gate) io"
where
  "resolve_devices check respond deleted frozen [] deviceIds = io_return (Passed deviceIds)"
| "resolve_devices check respond deleted frozen (uuid # uuids) deviceIds =
     io_bind (check uuid) (\<lambda>device.
       case device of
         None \<Rightarrow> io_bind (respond deleted) (\<lambda>_. io_return (Denied deleted))
       | Some (did, is_frozen) \<Rightarrow>
           (if is_frozen then io_bind (respond frozen) (\<lambda>_. io_return (Denied frozen))
            else resolve_devices check respond deleted frozen uuids (deviceIds @ [did])))"

text \<open>\<open>respond delayMs status\<close> is the response function; the handlers behind it run on \<open>Passed\<close>.\<close>

definition resolveOrDenyDevicesWithStatus ::
  "(string \<Rightarrow> ('w, (int \<times> bool) option) io) \<Rightarrow> (nat \<Rightarrow> int \<Rightarrow> ('w, unit) io) \<Rightarrow>
   status_codes \<Rightarrow> nat \<Rightarrow> string list \<Rightarrow> ('w, gate) io"
where
  "resolveOrDenyDevicesWithStatus check respondFn statusCode delayMs uuids =
     (let deleted = (case statusCode of SameStatus s \<Rightarrow> s | Statuses d f \<Rightarrow> d);
          frozen = (case statusCode of SameStatus s \<Rightarrow> s | Statuses d f \<Rightarrow> f)
      in if length uuids = 0
         then io_bind (respondFn delayMs deleted) (\<lambda>_. io_return (Denied deleted))
         else resolve_devices check (respondFn delayMs) deleted frozen uuids [])"

definition defaultRespondFn ::
  "(nat \<Rightarrow> 'w \<Rightarrow> 'w) \<Rightarrow> (int \<Rightarrow> 'w \<Rightarrow> 'w) \<Rightarrow> nat \<Rightarrow> int \<Rightarrow> ('w, unit) io"
where
  "defaultRespondFn sleep send delayMs status w =
     (Inr (), send status (if delayMs > 0 then sleep delayMs w else w))"

text \<open>What the endpoints assume of the check: it answers what \<open>dev\<close> says, whatever the world.\<close>

locale device_check =
  fixes check :: "string \<Rightarrow> ('w, (int \<times> bool) option) io"
    and dev :: "string \<Rightarrow> (int \<times> bool) option"
  assumes check_law: "fst (check uuid w) = Inr (dev uuid)"
begin

definition denied :: "string \<Rightarrow> bool" where
  "denied uuid \<longleftrightarrow> (case dev uuid of None \<Rightarrow> True | Some (_, is_frozen) \<Rightarrow> is_frozen)"

lemma resolve_devices_result:
  assumes "\<And>s w. fst (respond s w) = Inr ()"
  shows "fst (resolve_devices check respond deleted frozen uuids ids w) =
    Inr (case List.find denied uuids of
           None \<Rightarrow> Passed (ids @ map (\<lambda>u. fst (the (dev u))) uuids)
         | Some u \<Rightarrow> Denied (if dev u = None then deleted else frozen))"
proof (induction uuids arbitrary: ids w)
  case Nil
  then show ?case by (simp add: io_simps)
next
  case (Cons u us)
  obtain w' where c: "check u w = (Inr (dev u), w')" using check_law [of u w] by (metis prod.collapse)
  have b: "io_bind (check u) f w = f (dev u) w'" for f :: "(int \<times> bool) option \<Rightarrow> ('w, gate) io"
    by (simp add: io_bind_def c)
  have r: "fst (io_bind (respond s) (\<lambda>_. io_return (Denied s)) w) = Inr (Denied s)" for s w
    using assms [of s w] by (cases "respond s w") (auto simp: io_simps)
  show ?case
  proof (cases "dev u")
    case None
    then show ?thesis using r by (simp add: b denied_def)
  next
    case (Some p)
    obtain did fr where p: "p = (did, fr)" by (cases p)
    show ?thesis
      using Some r Cons.IH [of "ids @ [did]" w'] by (cases fr) (simp_all add: b denied_def p split: option.split)
  qed
qed

end

definition table_check :: "(string \<Rightarrow> (int \<times> bool) option) \<Rightarrow> string \<Rightarrow> ('w, (int \<times> bool) option) io" where
  "table_check dev uuid w = (Inr (dev uuid), w)"

interpretation table_check: device_check "table_check dev" dev for dev
  by unfold_locales (simp add: table_check_def)



section \<open>Tags of devices\<close>

definition RESERVED_TAG_NAMESPACES :: "string list" where
  "RESERVED_TAG_NAMESPACES = [''io.resin.'', ''io.balena.'']"

definition checkTagKeyValidity :: "string \<Rightarrow> unit res" where
  "checkTagKeyValidity key =
     (if list_ex is_space_char key then Inl (BadRequestError ''Tag keys cannot contain whitespace.'')
      else case List.find (\<lambda>ns. js_startsWith key ns) RESERVED_TAG_NAMESPACES of
             Some ns \<Rightarrow> Inl (BadRequestError (''Tag keys beginning with '' @ ns @ '' are reserved.''))
           | None \<Rightarrow> Inr ())"

definition tagHook :: "string option \<Rightarrow> unit res" where
  "tagHook tag_key = (case tag_key of None \<Rightarrow> Inr () | Some key \<Rightarrow> checkTagKeyValidity key)"

type_synonym tags = "string obj"

definition tags_body_valid :: "tags obj \<Rightarrow> bool" where
  "tags_body_valid body \<longleftrightarrow> list_all (\<lambda>(_, ts). list_all (\<lambda>(key, _). checkTagKeyValidity key = Inr ()) ts) body"

record 'w tags_env =
  te_get_devices :: "int list \<Rightarrow> ('w, (int \<times> string) list) io"
  te_get_tags :: "int \<Rightarrow> string list option \<Rightarrow> ('w, (string \<times> string) list) io"
  te_patch_tag :: "int \<Rightarrow> string \<Rightarrow> string \<Rightarrow> ('w, unit) io"
  te_post_tag :: "int \<Rightarrow> string \<Rightarrow> string \<Rightarrow> ('w, unit) io"
  te_rollback :: "'w \<Rightarrow> 'w \<Rightarrow> 'w"

definition fetch_tags ::
  "'w tags_env \<Rightarrow> int list \<Rightarrow> string list obj \<Rightarrow> ('w, (int \<times> tags) obj) io"
where
  "fetch_tags env deviceIds deviceTagKeys =
     io_bind (te_get_devices env deviceIds) (\<lambda>devices.
       if length devices \<noteq> length deviceIds then io_throw UnauthorizedError
       else io_bind
              (io_mapM (\<lambda>(did, uuid).
                 io_bind (te_get_tags env did (map_of deviceTagKeys uuid)) (\<lambda>rows.
                   io_return (uuid, (did, obj_merge [] rows)))) devices)
              (\<lambda>entries. io_return (obj_merge [] entries)))"

text \<open>Which keys change and which are new.\<close>

definition tag_changes :: "tags \<Rightarrow> tags \<Rightarrow> string list \<times> string list" where
  "tag_changes tags existing =
     (filter (\<lambda>k. case map_of existing k of None \<Rightarrow> False | Some v \<Rightarrow> map_of tags k \<noteq> Some v) (obj_keys tags),
      filter (\<lambda>k. map_of existing k = None) (obj_keys tags))"

definition write_tag :: "(string \<Rightarrow> string \<Rightarrow> ('w, unit) io) \<Rightarrow> tags \<Rightarrow> string \<Rightarrow> ('w, unit) io" where
  "write_tag write tags key = (case map_of tags key of None \<Rightarrow> io_throw JsTypeError | Some v \<Rightarrow> write key v)"

definition update_device_tags :: "'w tags_env \<Rightarrow> int \<Rightarrow> tags \<Rightarrow> tags \<Rightarrow> ('w, unit) io" where
  "update_device_tags env deviceId tags existing =
     (let (updatedKeys, newKeys) = tag_changes tags existing
      in io_bind (io_mapM (write_tag (te_patch_tag env deviceId) tags) updatedKeys) (\<lambda>_.
         io_bind (io_mapM (write_tag (te_post_tag env deviceId) tags) newKeys) (\<lambda>_. io_return ())))"

fun tag_updates ::
  "'w tags_env \<Rightarrow> tags obj \<Rightarrow> (int \<times> tags) obj \<Rightarrow> string list obj \<Rightarrow> string list \<Rightarrow> ('w, unit) io list res"
where
  "tag_updates env body tagsByDevice deviceTagKeys [] = Inr []"
| "tag_updates env body tagsByDevice deviceTagKeys (uuid # uuids) =
     (case (map_of deviceTagKeys uuid, map_of body uuid) of
        (Some (_ # _), Some tags) \<Rightarrow>
          (case map_of tagsByDevice uuid of
             None \<Rightarrow> Inl JsTypeError
           | Some (deviceId, existing) \<Rightarrow>
               res_bind (tag_updates env body tagsByDevice deviceTagKeys uuids) (\<lambda>fns.
                 Inr (update_device_tags env deviceId tags existing # fns)))
      | _ \<Rightarrow> tag_updates env body tagsByDevice deviceTagKeys uuids)"

definition tags_transaction :: "'w tags_env \<Rightarrow> ('w, 'a) io \<Rightarrow> ('w, 'a) io" where
  "tags_transaction env m w =
     (case m w of (Inr a, w') \<Rightarrow> (Inr a, w') | (Inl e, w') \<Rightarrow> (Inl e, te_rollback env w w'))"

definition tagsPatchV3_body :: "'w tags_env \<Rightarrow> int list \<Rightarrow> tags obj \<Rightarrow> ('w, unit) io" where
  "tagsPatchV3_body env resolvedDeviceIds body =
     (let uuids = resolveDeviceUuids (JObj (map (\<lambda>(u, ts). (u, JObj (map (\<lambda>(k, v). (k, JStr v)) ts))) body));
          deviceTagKeys = filter (\<lambda>(_, keys). length keys > 0) (map (\<lambda>(u, ts). (u, obj_keys ts)) body)
      in if length uuids = 0 then io_throw (BadRequestError [])
         else if length deviceTagKeys = 0
         then io_throw (BadRequestError ''No tags were sent to be updated.'')
         else io_bind (fetch_tags env resolvedDeviceIds deviceTagKeys) (\<lambda>tagsByDevice.
              io_bind (io_lift (tag_updates env body tagsByDevice deviceTagKeys uuids)) (\<lambda>updateFns.
                if length updateFns > 0
                then tags_transaction env (io_bind (io_mapM (\<lambda>f. f) updateFns) (\<lambda>_. io_return ()))
                else io_return ())))"

definition tagsPatchV3 ::
  "'w tags_env \<Rightarrow> (exn \<Rightarrow> int) \<Rightarrow> int list \<Rightarrow> tags obj \<Rightarrow> 'w \<Rightarrow> int \<times> 'w"
where
  "tagsPatchV3 env http_status resolvedDeviceIds body w =
     (if \<not> tags_body_valid body then (400, w)
      else patch_answer http_status (tagsPatchV3_body env resolvedDeviceIds body) w)"

section \<open>The tags after the update\<close>

text \<open>
  \<open>tg\<close> is the table of tags: changing an existing tag and adding a missing one set its value and
  nothing else (a change of a missing tag writes nothing, adding an existing one is an error).
\<close>

locale tags_api =
  fixes env :: "'w tags_env" and tg :: "'w \<Rightarrow> int \<Rightarrow> string \<Rightarrow> string option"
  assumes patch_law: "tg w d k = Some v' \<Longrightarrow> \<exists>w'. te_patch_tag env d k v w = (Inr (), w') \<and>
      tg w' = (tg w)(d := (tg w d)(k \<mapsto> v))"
    and post_law: "tg w d k = None \<Longrightarrow> \<exists>w'. te_post_tag env d k v w = (Inr (), w') \<and>
      tg w' = (tg w)(d := (tg w d)(k \<mapsto> v))"
begin

lemma write_all:
  assumes "distinct ks" and "\<And>k. k \<in> set ks \<Longrightarrow> map_of tags k \<noteq> None"
    and "\<And>k v w. k \<in> set ks \<Longrightarrow> P (tg w d k) \<Longrightarrow> \<exists>w'. write k v w = (Inr (), w') \<and>
      tg w' = (tg w)(d := (tg w d)(k \<mapsto> v))"
    and "\<And>k. k \<in> set ks \<Longrightarrow> P (tg w d k)"
  shows "\<exists>us w'. io_mapM (write_tag write tags) ks w = (Inr us, w') \<and>
    tg w' = (tg w)(d := (\<lambda>k. if k \<in> set ks then map_of tags k else tg w d k))"
  using assms
proof (induction ks arbitrary: w)
  case Nil
  then show ?case by (simp add: io_simps)
next
  case (Cons k ks)
  obtain v where v: "map_of tags k = Some v" using Cons.prems(2) [of k] by auto
  obtain w1 where w1: "write k v w = (Inr (), w1)" "tg w1 = (tg w)(d := (tg w d)(k \<mapsto> v))"
    using Cons.prems(3) [of k w v] Cons.prems(4) [of k] by (meson list.set_intros(1))
  have "P (tg w1 d k')" if "k' \<in> set ks" for k'
    using Cons.prems(1) Cons.prems(4) [of k'] that w1(2) by auto
  then obtain us w2 where w2: "io_mapM (write_tag write tags) ks w1 = (Inr us, w2)"
    "tg w2 = (tg w1)(d := (\<lambda>k. if k \<in> set ks then map_of tags k else tg w1 d k))"
    using Cons.IH [of w1] Cons.prems by force
  have "write_tag write tags k w = (Inr (), w1)" by (simp add: write_tag_def v w1)
  then show ?case using w1(2) w2 v by (auto simp: io_simps fun_eq_iff)
qed

lemma update_device_tags_result:
  assumes "distinct (map fst tags)" and "\<And>k. k \<in> set (obj_keys tags) \<Longrightarrow> map_of existing k = tg w d k"
  shows "\<exists>w'. update_device_tags env d tags existing w = (Inr (), w') \<and>
    tg w' = (tg w)(d := (\<lambda>k. case map_of tags k of None \<Rightarrow> tg w d k | Some v \<Rightarrow> Some v))"
proof -
  obtain upd new where ch: "tag_changes tags existing = (upd, new)" by (cases "tag_changes tags existing")
  have sets: "set upd = {k. k \<in> set (obj_keys tags) \<and> tg w d k \<noteq> None \<and> tg w d k \<noteq> map_of tags k}"
    "set new = {k. k \<in> set (obj_keys tags) \<and> tg w d k = None}"
    using ch assms(2) by (auto simp: tag_changes_def split: option.splits)
  have dist: "distinct upd" "distinct new"
    using ch assms(1) by (auto simp: tag_changes_def obj_keys_def)
  have has: "map_of tags k \<noteq> None" if "k \<in> set (obj_keys tags)" for k
    using that by (simp add: obj_keys_set domIff)
  obtain us w1 where w1: "io_mapM (write_tag (te_patch_tag env d) tags) upd w = (Inr us, w1)"
    "tg w1 = (tg w)(d := (\<lambda>k. if k \<in> set upd then map_of tags k else tg w d k))"
  proof -
    have "\<exists>w'. te_patch_tag env d k v wa = (Inr (), w') \<and> tg w' = (tg wa)(d := (tg wa d)(k \<mapsto> v))"
      if "tg wa d k \<noteq> None" for k v wa
      using that patch_law by blast
    then show thesis
      using write_all [of upd tags "\<lambda>x. x \<noteq> None" d "te_patch_tag env d" w, OF dist(1)] sets(1) has that
      by fastforce
  qed
  have fresh: "tg w1 d k = None" if "k \<in> set new" for k
    using that sets by (auto simp: w1(2))
  obtain us' w2 where w2: "io_mapM (write_tag (te_post_tag env d) tags) new w1 = (Inr us', w2)"
    "tg w2 = (tg w1)(d := (\<lambda>k. if k \<in> set new then map_of tags k else tg w1 d k))"
    using write_all [of new tags "\<lambda>x. x = None" d "te_post_tag env d" w1, OF dist(2) _ post_law fresh]
      sets(2) has by fastforce
  have val: "tg w2 d k = (case map_of tags k of None \<Rightarrow> tg w d k | Some v \<Rightarrow> Some v)" for k
    using sets has by (cases "map_of tags k") (auto simp: w2(2) w1(2) obj_keys_set)
  have "tg w2 = (tg w)(d := (\<lambda>k. case map_of tags k of None \<Rightarrow> tg w d k | Some v \<Rightarrow> Some v))"
  proof
    fix d'
    show "tg w2 d' = ((tg w)(d := (\<lambda>k. case map_of tags k of None \<Rightarrow> tg w d k | Some v \<Rightarrow> Some v))) d'"
      by (cases "d' = d") (use val in auto, simp add: w2(2) w1(2))
  qed
  with w1 w2 show ?thesis by (simp add: update_device_tags_def ch io_simps)
qed

end

definition mem_tags_env :: "(int \<Rightarrow> string \<Rightarrow> string option) tags_env" where
  "mem_tags_env =
     \<lparr>te_get_devices = (\<lambda>ids w. (Inr (map (\<lambda>i. (i, show_int i)) ids), w)),
      te_get_tags = (\<lambda>d keys w. (Inr (case keys of
         None \<Rightarrow> [] | Some ks \<Rightarrow> concat (map (\<lambda>k. case w d k of None \<Rightarrow> [] | Some v \<Rightarrow> [(k, v)]) ks)), w)),
      te_patch_tag = (\<lambda>d k v w. (Inr (), if w d k = None then w else w(d := (w d)(k \<mapsto> v)))),
      te_post_tag = (\<lambda>d k v w. if w d k = None then (Inr (), w(d := (w d)(k \<mapsto> v)))
                               else (Inl (ConflictError []), w)),
      te_rollback = (\<lambda>w w'. w)\<rparr>"

interpretation mem_tags: tags_api mem_tags_env "\<lambda>w. w"
  by unfold_locales (simp_all add: mem_tags_env_def)

text \<open>
  Updating the tags of a device never fails and makes exactly the sent tags hold their sent
  values: other tags of the device and the tags of other devices stay as they are.
\<close>

lemma update_device_tags_exact:
  assumes "tags_api env tg" and "distinct (map fst tags)"
    and "\<And>k. k \<in> set (obj_keys tags) \<Longrightarrow> map_of existing k = tg w d k"
  shows "\<exists>w'. update_device_tags env d tags existing w = (Inr (), w') \<and>
    tg w' = (tg w)(d := (\<lambda>k. case map_of tags k of None \<Rightarrow> tg w d k | Some v \<Rightarrow> Some v))"
  by (rule tags_api.update_device_tags_result [OF assms])

end
