(* ===== verification/Registry.thy ===== *)
theory Registry
  imports JsRegex CacheStore
begin

text \<open>
  The token service of the image registry (\<^verbatim>\<open>src/features/registry/registry.ts\<close>, first part): which
  actions a token grants on the repositories a client asks for.

  The queries of the database client, the caches, the random ids, the clock and the signature are the
  fields of \<open>registry_env\<close>; secrets of the configuration are the fields of \<open>registry_config\<close>.  The
  two access checks of a scope and the scopes of a request run one after the other.
\<close>

section \<open>Names and scopes\<close>

definition RESINOS_REPOSITORY :: string where
  "RESINOS_REPOSITORY = ''resin/resinos''"

definition lower_digit :: "char \<Rightarrow> bool" where
  "lower_digit c \<longleftrightarrow> is_lower_char c \<or> is_digit_char c"

definition slug_char :: "char \<Rightarrow> bool" where
  "slug_char c \<longleftrightarrow> lower_digit c \<or> c = CHR ''_'' \<or> c = CHR ''-''"

definition slug_dot_char :: "char \<Rightarrow> bool" where
  "slug_dot_char c \<longleftrightarrow> slug_char c \<or> c = CHR ''.''"

definition digit_dash :: "char \<Rightarrow> bool" where
  "digit_dash c \<longleftrightarrow> is_digit_char c \<or> c = CHR ''-''"

text \<open>\<^verbatim>\<open>/^resin\/(?:[a-zA-Z0-9]+-)+supervisor$/\<close>\<close>

definition SUPERVISOR_REPOSITORIES :: re where
  "SUPERVISOR_REPOSITORIES =
     RSeqs [RBegin, RLit ''resin/'',
       RPlus (RSeq (RPlus (RClass (\<lambda>c. is_alpha_char c \<or> is_digit_char c))) (RChar (CHR ''-''))),
       RLit ''supervisor'', REnd]"

text \<open>\<^verbatim>\<open>/(^(\d+)\/[\d-]+$|^(v2\/[a-z0-9]+)(-[0-9]+)?)/\<close>\<close>

definition NEW_REGISTRY_REGEX :: re where
  "NEW_REGISTRY_REGEX =
     RGroup 1 (RAlt
       (RSeqs [RBegin, RGroup 2 (RPlus (RClass is_digit_char)), RChar (CHR ''/''),
          RPlus (RClass digit_dash), REnd])
       (RSeqs [RBegin, RGroup 3 (RSeq (RLit ''v2/'') (RPlus (RClass lower_digit))),
          ROpt (RGroup 4 (RSeq (RChar (CHR ''-'')) (RPlus (RClass is_digit_char))))]))"

text \<open>
  \<^verbatim>\<open>/^(([a-z0-9_-]+)\/([a-z0-9_-]+))(?:\/([a-z0-9_.-]+))?(?:\/([a-z0-9_-]+))?$/\<close>
\<close>

definition APP_RELEASE_REGEX :: re where
  "APP_RELEASE_REGEX =
     RSeqs [RBegin,
       RGroup 1 (RSeqs [RGroup 2 (RPlus (RClass slug_char)), RChar (CHR ''/''),
         RGroup 3 (RPlus (RClass slug_char))]),
       ROpt (RSeq (RChar (CHR ''/'')) (RGroup 4 (RPlus (RClass slug_dot_char)))),
       ROpt (RSeq (RChar (CHR ''/'')) (RGroup 5 (RPlus (RClass slug_char)))),
       REnd]"

definition TARGET_RELEASE_KEYWORDS :: "string list" where
  "TARGET_RELEASE_KEYWORDS = [''latest'', ''current'', ''default'', ''pinned'']"

definition SCOPE_PARSE_REGEX :: re where
  "SCOPE_PARSE_REGEX =
     RSeqs [RBegin,
       RGroup 1 (RPlus (RClass is_lower_char)), RChar (CHR '':''),
       RGroup 2 (RAlt
         (RSeqs [RPlus (RClass slug_char), RChar (CHR ''/''), RPlus (RClass slug_char),
            ROpt (RSeq (RChar (CHR ''/'')) (RPlus (RClass slug_dot_char))),
            ROpt (RSeq (RChar (CHR ''/'')) (RPlus (RClass slug_char)))])
         (RAlt
           (RSeqs [RPlus (RClass is_digit_char), RChar (CHR ''/''), RPlus (RClass digit_dash)])
           (RSeqs [RLit ''v2/'', RPlus (RClass lower_digit), RChar (CHR ''-''),
              RPlus (RClass is_digit_char)]))),
       ROpt (RAlt
         (RSeq (RChar (CHR '':'')) (RPlus (RClass lower_digit)))
         (RSeq (RLit ''@sha256:'') (RPlus (RClass (\<lambda>c. is_digit_char c \<or> c \<in> set ''abcdef''))))),
       RChar (CHR '':''),
       RGroup 3 (RPlus (RAlt (RLit ''push'') (RAlt (RLit ''pull'') (RChar (CHR '','')))))
       , REnd]"

record access =
  acc_name :: string
  acc_type :: string
  acc_actions :: "string list"
  acc_alias :: "string option"

type_synonym scope = "string \<times> string \<times> string list"

text \<open>\<^verbatim>\<open>params[n]\<close> of a group that always takes part.\<close>

definition group_text :: "(nat \<times> string) list \<Rightarrow> nat \<Rightarrow> string" where
  "group_text groups n = (case map_of groups n of None \<Rightarrow> [] | Some s \<Rightarrow> s)"

definition parseScope :: "string \<Rightarrow> scope option" where
  "parseScope scope =
     (if scope = [] then None
      else case re_match SCOPE_PARSE_REGEX scope of
             None \<Rightarrow> None
           | Some params \<Rightarrow>
               (if group_text params 1 \<noteq> ''repository'' then None
                else Some (group_text params 1, group_text params 2,
                       js_split (CHR '','') (group_text params 3))))"

section \<open>The environment\<close>

text \<open>The caches that use \<^verbatim>\<open>undefinedAs: false\<close> hold \<open>FalseValue\<close> for \<^verbatim>\<open>undefined\<close>.\<close>

datatype 'a or_false = FalseValue | Val 'a

record registry_config =
  rc_builder_token :: string
  rc_resinos_code :: "string option"

record 'w registry_env =
  ge_intersection :: "string list \<Rightarrow> string list \<Rightarrow> string list"
  ge_permission_key :: "perm_req \<Rightarrow> string"
  ge_read_cache :: "('w, bool option) level_store"
  ge_id_cache :: "('w, int or_false option) level_store"
  ge_location_cache :: "('w, string or_false option) level_store"
  ge_application_with_image :: "perm_req \<Rightarrow> int \<Rightarrow> ('w, int option) io"
  ge_can_push :: "perm_req \<Rightarrow> int \<Rightarrow> ('w, int option) io"
  ge_image_at :: "string \<Rightarrow> ('w, int option) io"
  ge_release_location :: "perm_req \<Rightarrow> string \<Rightarrow> string option \<Rightarrow> string option \<Rightarrow> ('w, string option) io"

definition memo_or_false ::
  "('w, 'v or_false option) level_store \<Rightarrow> ('args \<Rightarrow> string) \<Rightarrow> ('args \<Rightarrow> ('w, 'v option) io) \<Rightarrow>
   'args \<Rightarrow> ('w, 'v option) io"
where
  "memo_or_false cache normalizer fn args =
     io_bind
       (memoizedFn cache normalizer (Some FalseValue)
         (\<lambda>a. io_bind (fn a) (\<lambda>r. io_return (map_option Val r))) args)
       (\<lambda>v. io_return (case v of Some (Val x) \<Rightarrow> Some x | _ \<Rightarrow> None))"

section \<open>Resolving images and access\<close>

definition resolveReadAccess :: "'w registry_env \<Rightarrow> perm_req \<Rightarrow> int option \<Rightarrow> ('w, bool) io" where
  "resolveReadAccess env req imageId =
     (case imageId of
        None \<Rightarrow> io_return False
      | Some i \<Rightarrow>
          io_bind
            (memoizedFn (ge_read_cache env) (\<lambda>i. show_int i @ ''$'' @ ge_permission_key env req) None
              (\<lambda>i. io_bind (ge_application_with_image env req i) (\<lambda>a. io_return (Some (a \<noteq> None)))) i)
            (\<lambda>r. io_return (r = Some True)))"

definition resolveWriteAccess :: "'w registry_env \<Rightarrow> perm_req \<Rightarrow> int option \<Rightarrow> ('w, bool) io" where
  "resolveWriteAccess env req imageId =
     (case imageId of
        None \<Rightarrow> io_return False
      | Some i \<Rightarrow>
          io_catch (io_bind (ge_can_push env req i) (\<lambda>r. io_return (r = Some i)))
            (\<lambda>_. io_return False))"

definition resolveImageId :: "'w registry_env \<Rightarrow> string \<Rightarrow> ('w, int option) io" where
  "resolveImageId env effectiveName =
     memo_or_false (ge_id_cache env) (\<lambda>n. n) (ge_image_at env) effectiveName"

text \<open>An \<^verbatim>\<open>undefined\<close> part of the key is printed as such.\<close>

definition location_key :: "string \<Rightarrow> string option \<Rightarrow> string option \<Rightarrow> string \<Rightarrow> string" where
  "location_key applicationSlug releaseHashOrVersion serviceName permission_key =
     applicationSlug @
     (case releaseHashOrVersion of None \<Rightarrow> ''undefined'' | Some r \<Rightarrow> r) @
     (case serviceName of None \<Rightarrow> ''undefined'' | Some s \<Rightarrow> s) @ permission_key"

definition resolveImageLocation ::
  "'w registry_env \<Rightarrow> string \<Rightarrow> string option \<Rightarrow> string option \<Rightarrow> perm_req \<Rightarrow> ('w, string option) io"
where
  "resolveImageLocation env applicationSlug releaseHashOrVersion serviceName req =
     memo_or_false (ge_location_cache env)
       (\<lambda>(slug, release, service, req). location_key slug release service (ge_permission_key env req))
       (\<lambda>(slug, release, service, req).
          io_catch (ge_release_location env req slug release service) (\<lambda>_. io_return None))
       (applicationSlug, releaseHashOrVersion, serviceName, req)"

definition resolveAccess ::
  "'w registry_env \<Rightarrow> perm_req \<Rightarrow> string \<Rightarrow> string \<Rightarrow> string \<Rightarrow> string list \<Rightarrow> string list \<Rightarrow>
   string option \<Rightarrow> ('w, access) io"
where
  "resolveAccess env req scope_type name effectiveName requestedActions defaultActions alias =
     (let needsPull = (''pull'' \<in> set requestedActions \<and> ''pull'' \<notin> set defaultActions);
          needsPush = (''push'' \<in> set requestedActions \<and> ''push'' \<notin> set defaultActions)
      in io_bind
           (if \<not> needsPush \<and> \<not> needsPull then io_return defaultActions
            else io_catch
              (io_bind (resolveImageId env effectiveName) (\<lambda>imageId.
               io_bind (if needsPull then resolveReadAccess env req imageId else io_return False)
                 (\<lambda>hasReadAccess.
               io_bind (if needsPush then resolveWriteAccess env req imageId else io_return False)
                 (\<lambda>hasWriteAccess.
                 io_return (defaultActions @ (if hasReadAccess then [''pull''] else []) @
                   (if hasWriteAccess then [''push''] else []))))))
              (\<lambda>_. io_return defaultActions))
           (\<lambda>allowedActions.
              io_return \<lparr>acc_name = name, acc_type = scope_type,
                acc_actions = ge_intersection env requestedActions allowedActions,
                acc_alias = alias\<rparr>))"

section \<open>Authorization of a request\<close>

definition grantAllToBuilder :: "'w registry_env \<Rightarrow> scope list \<Rightarrow> access list" where
  "grantAllToBuilder env parsedScopes =
     map (\<lambda>(scope_type, name, requestedActions).
       let allowedActions =
             (if re_test SUPERVISOR_REPOSITORIES name then [''pull'']
              else if name = RESINOS_REPOSITORY then [''pull''] else [''pull'', ''push''])
       in \<lparr>acc_name = name, acc_type = scope_type,
           acc_actions = ge_intersection env requestedActions allowedActions, acc_alias = None\<rparr>)
       parsedScopes"

text \<open>The images of the operating system and of the supervisor.\<close>

definition resinos_access ::
  "registry_config \<Rightarrow> 'w registry_env \<Rightarrow> string option \<Rightarrow> scope \<Rightarrow> access"
where
  "resinos_access cfg env apikey scope =
     (case scope of (scope_type, name, requestedActions) \<Rightarrow>
        let allowedActions =
              (if rc_resinos_code cfg \<noteq> None \<and> apikey = rc_resinos_code cfg
               then [''pull'', ''push''] else [''pull''])
        in \<lparr>acc_name = name, acc_type = scope_type,
            acc_actions = ge_intersection env requestedActions allowedActions, acc_alias = None\<rparr>)"

text \<open>A release of an application: by semver or commit, or its target release.\<close>

definition app_release_access ::
  "'w registry_env \<Rightarrow> perm_req \<Rightarrow> scope \<Rightarrow> (nat \<times> string) list \<Rightarrow> ('w, access option) io"
where
  "app_release_access env req scope groups =
     (case scope of (scope_type, name, requestedActions) \<Rightarrow>
        let none = \<lparr>acc_name = name, acc_type = scope_type, acc_actions = [], acc_alias = None\<rparr>;
            applicationSlug = group_text groups 1;
            given = (case map_of groups 4 of Some [] \<Rightarrow> None | r \<Rightarrow> r);
            serviceName = map_of groups 5
        in if serviceName \<noteq> None then io_return (Some none)
           else let semverOrCommit =
                      (case given of
                         None \<Rightarrow> None
                       | Some s \<Rightarrow> if s \<in> set TARGET_RELEASE_KEYWORDS then None else Some s)
                in io_bind (resolveImageLocation env applicationSlug semverOrCommit serviceName req)
                     (\<lambda>imageLocation.
                        case imageLocation of
                          Some location \<Rightarrow>
                            (let real = js_join ''/'' (tl (js_split (CHR ''/'') location))
                             in io_bind
                                  (resolveAccess env req scope_type real real
                                    (ge_intersection env requestedActions [''pull'']) [''pull''] (Some name))
                                  (\<lambda>a. io_return (Some a)))
                        | None \<Rightarrow> io_return (if semverOrCommit \<noteq> None then Some none else None)))"

definition authorizeScope ::
  "registry_config \<Rightarrow> 'w registry_env \<Rightarrow> perm_req \<Rightarrow> string option \<Rightarrow> scope \<Rightarrow> ('w, access) io"
where
  "authorizeScope cfg env req apikey scope =
     (case scope of (scope_type, name, requestedActions) \<Rightarrow>
        if name = RESINOS_REPOSITORY \<or> re_test SUPERVISOR_REPOSITORIES name
        then io_return (resinos_access cfg env apikey scope)
        else case re_match NEW_REGISTRY_REGEX name of
          Some groups \<Rightarrow>
            (let effectiveName = (if map_of groups 4 \<noteq> None then group_text groups 3 else name)
             in resolveAccess env req scope_type name effectiveName requestedActions [] None)
        | None \<Rightarrow>
            io_bind
              (case re_match APP_RELEASE_REGEX name of
                 Some groups \<Rightarrow> app_release_access env req scope groups
               | None \<Rightarrow> io_return None)
              (\<lambda>found.
                 case found of
                   Some a \<Rightarrow> io_return a
                 | None \<Rightarrow> resolveAccess env req scope_type name name requestedActions [''pull''] None))"

definition authorizeRequest ::
  "registry_config \<Rightarrow> 'w registry_env \<Rightarrow> perm_req \<Rightarrow> string option \<Rightarrow> string list \<Rightarrow> ('w, access list) io"
where
  "authorizeRequest cfg env req apikey scopes =
     (let parsedScopes = List.map_filter parseScope scopes
      in if apikey = Some (rc_builder_token cfg) then io_return (grantAllToBuilder env parsedScopes)
         else io_mapM (authorizeScope cfg env req apikey) parsedScopes)"

section \<open>Tokens\<close>

record token_payload =
  tp_jti :: string
  tp_nbf :: int
  tp_access :: "access list"

record token_options =
  to_algorithm :: string
  to_issuer :: string
  to_audience :: string
  to_subject :: string
  to_expiresIn :: int
  to_keyid :: string

record registry_cert =
  ct_algo :: string
  ct_issuer :: string
  ct_kid :: string

text \<open>\<open>now\<close> is the clock in milliseconds, \<open>sign\<close> the signature with the registry's key.\<close>

definition generateToken ::
  "('w \<Rightarrow> string) \<Rightarrow> ('w \<Rightarrow> int) \<Rightarrow> registry_cert \<Rightarrow> int \<Rightarrow> (token_payload \<Rightarrow> token_options \<Rightarrow> string) \<Rightarrow>
   string option \<Rightarrow> string \<Rightarrow> access list \<Rightarrow> 'w \<Rightarrow> string"
where
  "generateToken randomUUID now CERT expiry sign subject audience access w =
     sign \<lparr>tp_jti = randomUUID w, tp_nbf = now w div 1000 - 10, tp_access = access\<rparr>
       \<lparr>to_algorithm = ct_algo CERT, to_issuer = ct_issuer CERT, to_audience = audience,
        to_subject = (case subject of None \<Rightarrow> [] | Some s \<Rightarrow> s), to_expiresIn = expiry,
        to_keyid = ct_kid CERT\<rparr>"

definition generateDeleteToken ::
  "(string option \<Rightarrow> string \<Rightarrow> access list \<Rightarrow> 'w \<Rightarrow> string) \<Rightarrow> string \<Rightarrow> string \<Rightarrow> string \<Rightarrow> 'w \<Rightarrow> string"
where
  "generateDeleteToken generate REGISTRY2_HOST subject repo =
     generate (Some subject) REGISTRY2_HOST
       [\<lparr>acc_name = repo, acc_type = ''repository'', acc_actions = [''delete''], acc_alias = None\<rparr>]"

text \<open>Who a token is for: the device or the user of an api key, or the logged-in user.\<close>

record 'w subject_env =
  se_subject_cache :: "('w, string or_false option) level_store"
  se_device_with_key :: "string \<Rightarrow> string \<Rightarrow> ('w, int option) io"
  se_user_of_key :: "string \<Rightarrow> ('w, string option) io"
  se_username :: "int \<Rightarrow> ('w, string option) io"

definition strip_d :: "string \<Rightarrow> string" where
  "strip_d subject = (if js_startsWith subject ''d_'' then drop 2 subject else subject)"

definition getSubject_of_key ::
  "'w subject_env \<Rightarrow> string \<Rightarrow> string option \<Rightarrow> ('w, string option) io"
where
  "getSubject_of_key env apiKey subject =
     memo_or_false (se_subject_cache env)
       (\<lambda>(k, s). k @ [CHR 0x01] @ (case s of None \<Rightarrow> ''undefined'' | Some x \<Rightarrow> x))
       (\<lambda>(k, s).
          io_bind
            (case s of
               None \<Rightarrow> io_return False
             | Some x \<Rightarrow>
                 (if x = [] then io_return False
                  else io_catch (io_bind (se_device_with_key env (strip_d x) k) (\<lambda>d. io_return (d \<noteq> None)))
                         (\<lambda>_. io_return False)))
            (\<lambda>is_device. if is_device then io_return s else se_user_of_key env k))
       (apiKey, subject)"

record token_requester =
  tr_apiKey :: "(string \<times> string list option) option"
  tr_user :: "int option"
  tr_subject :: "string option"

definition getSubject :: "'w subject_env \<Rightarrow> token_requester \<Rightarrow> ('w, string option) io" where
  "getSubject env req =
     (case tr_apiKey req of
        Some (key, Some (_ # _)) \<Rightarrow> getSubject_of_key env key (tr_subject req)
      | _ \<Rightarrow>
          (case tr_user req of
             Some uid \<Rightarrow> se_username env uid
           | None \<Rightarrow> io_return None))"

datatype scope_query = NoScope | ScopeString string | ScopeList "string list" | ScopeRecord "string obj"

fun scopes_of_query :: "scope_query \<Rightarrow> string list" where
  "scopes_of_query NoScope = []"
| "scopes_of_query (ScopeString s) = [s]"
| "scopes_of_query (ScopeList ss) = ss"
| "scopes_of_query (ScopeRecord o') = map snd o'"

definition token ::
  "(exn \<Rightarrow> int) \<Rightarrow> ('w, string option) io \<Rightarrow> (string list \<Rightarrow> ('w, access list) io) \<Rightarrow>
   (string option \<Rightarrow> access list \<Rightarrow> 'w \<Rightarrow> string) \<Rightarrow> scope_query \<Rightarrow> 'w \<Rightarrow> (int \<times> string option) \<times> 'w"
where
  "token http_status subject authorize generate scope w =
     (case io_bind subject (\<lambda>sub. io_bind (authorize (scopes_of_query scope)) (\<lambda>access.
             io_return (sub, access))) w of
        (Inr (sub, access), w') \<Rightarrow> ((200, Some (generate sub access w')), w')
      | (Inl err, w') \<Rightarrow> ((if is_http_error err then http_status err else 400, None), w'))"

section \<open>What a token grants\<close>

text \<open>\<^verbatim>\<open>_.intersection\<close>.\<close>

locale intersection_contract =
  fixes inter :: "string list \<Rightarrow> string list \<Rightarrow> string list"
  assumes inter_law: "set (inter xs ys) = set xs \<inter> set ys"
begin

lemma inter_left: "a \<in> set (inter xs ys) \<Longrightarrow> a \<in> set xs"
  by (simp add: inter_law)

lemma inter_right: "a \<in> set (inter xs ys) \<Longrightarrow> a \<in> set ys"
  by (simp add: inter_law)

end

definition list_intersection :: "string list \<Rightarrow> string list \<Rightarrow> string list" where
  "list_intersection xs ys = remdups (filter (\<lambda>x. x \<in> set ys) xs)"

interpretation list_intersection: intersection_contract list_intersection
  by unfold_locales (auto simp: list_intersection_def)

definition may_push :: "'w registry_env \<Rightarrow> perm_req \<Rightarrow> string \<Rightarrow> bool" where
  "may_push env req location \<longleftrightarrow>
     (\<exists>i w1 w2. fst (resolveImageId env location w1) = Inr (Some i) \<and>
        fst (ge_can_push env req i w2) = Inr (Some i))"

definition may_pull :: "'w registry_env \<Rightarrow> perm_req \<Rightarrow> string \<Rightarrow> bool" where
  "may_pull env req location \<longleftrightarrow>
     (\<exists>i w1 w2. fst (resolveImageId env location w1) = Inr (Some i) \<and>
        fst (resolveReadAccess env req (Some i) w2) = Inr True)"

lemma resolveWriteAccess_true:
  assumes "resolveWriteAccess env req i w = (Inr True, w')"
  shows "\<exists>j. i = Some j \<and> fst (ge_can_push env req j w) = Inr (Some j)"
  using assms
  by (auto simp: resolveWriteAccess_def io_catch_def io_bind_def io_return_def
      split: option.splits prod.splits sum.splits)

lemma resolveReadAccess_true:
  assumes "resolveReadAccess env req i w = (Inr True, w')"
  shows "\<exists>j. i = Some j"
  using assms by (auto simp: resolveReadAccess_def io_return_def split: option.splits)

lemma resolveAccess_granted:
  assumes "resolveAccess env req ty name eff requested defaults alias w = (r, w')"
  shows "\<exists>allowed. r = Inr \<lparr>acc_name = name, acc_type = ty,
      acc_actions = ge_intersection env requested allowed, acc_alias = alias\<rparr> \<and>
    set allowed \<subseteq> set defaults \<union> {''pull'', ''push''} \<and>
    (''push'' \<in> set allowed \<longrightarrow> ''push'' \<in> set defaults \<or> may_push env req eff) \<and>
    (''pull'' \<in> set allowed \<longrightarrow> ''pull'' \<in> set defaults \<or> may_pull env req eff)"
proof -
  let ?pull = "''pull'' \<in> set requested \<and> ''pull'' \<notin> set defaults"
  let ?push = "''push'' \<in> set requested \<and> ''push'' \<notin> set defaults"
  let ?m = "io_bind (resolveImageId env eff) (\<lambda>imageId.
     io_bind (if ?pull then resolveReadAccess env req imageId else io_return False) (\<lambda>rd.
     io_bind (if ?push then resolveWriteAccess env req imageId else io_return False) (\<lambda>wr.
       io_return (defaults @ (if rd then [''pull''] else []) @ (if wr then [''push''] else [])))))"
  have m: "set al \<subseteq> set defaults \<union> {''pull'', ''push''} \<and>
      (''push'' \<in> set al \<longrightarrow> ''push'' \<in> set defaults \<or> may_push env req eff) \<and>
      (''pull'' \<in> set al \<longrightarrow> ''pull'' \<in> set defaults \<or> may_pull env req eff)"
    if run: "?m w = (Inr al, w2)" for al w2
  proof -
    from run obtain i rd wr wa wb wc where
      i: "resolveImageId env eff w = (Inr i, wa)"
      and rd: "(if ?pull then resolveReadAccess env req i else io_return False) wa = (Inr rd, wb)"
      and wr: "(if ?push then resolveWriteAccess env req i else io_return False) wb = (Inr wr, wc)"
      and al: "al = defaults @ (if rd then [''pull''] else []) @ (if wr then [''push''] else [])"
      by (auto simp: io_bind_def io_return_def split: prod.splits sum.splits)
    have "may_pull env req eff" if rd
    proof -
      from rd that have "resolveReadAccess env req i wa = (Inr True, wb)"
        by (auto simp: io_return_def split: if_splits)
      with resolveReadAccess_true [OF this] i show ?thesis by (auto simp: may_pull_def) (metis fst_conv)
    qed
    moreover have "may_push env req eff" if wr
    proof -
      from wr that have "resolveWriteAccess env req i wb = (Inr True, wc)"
        by (auto simp: io_return_def split: if_splits)
      from resolveWriteAccess_true [OF this] i show ?thesis by (auto simp: may_push_def) (metis fst_conv)
    qed
    ultimately show ?thesis by (auto simp: al)
  qed
  have "\<exists>al w1. (if \<not> ?push \<and> \<not> ?pull then io_return defaults
        else io_catch ?m (\<lambda>_. io_return defaults)) w = (Inr al, w1) \<and>
      set al \<subseteq> set defaults \<union> {''pull'', ''push''} \<and>
      (''push'' \<in> set al \<longrightarrow> ''push'' \<in> set defaults \<or> may_push env req eff) \<and>
      (''pull'' \<in> set al \<longrightarrow> ''pull'' \<in> set defaults \<or> may_pull env req eff)"
  proof (cases "?m w")
    case (Pair x w2)
    then show ?thesis
      using m by (cases x) (auto simp: io_catch_def io_return_def)
  qed
  then show ?thesis using assms
    by (auto simp: resolveAccess_def Let_def io_bind_def io_return_def)
qed

text \<open>An access answers a scope: for the name asked for, or for its real location with the name as alias.\<close>

definition answers :: "scope \<Rightarrow> access \<Rightarrow> bool" where
  "answers s a \<longleftrightarrow>
     (case s of (ty, name, requested) \<Rightarrow>
        acc_type a = ty \<and>
        ((acc_alias a = None \<and> acc_name a = name) \<or> acc_alias a = Some name) \<and>
        set (acc_actions a) \<subseteq> set requested \<inter> {''pull'', ''push''})"

lemma app_release_access_found:
  assumes "intersection_contract (ge_intersection env)"
    and "app_release_access env req (ty, name, requested) groups w = (Inr (Some a), w')"
  shows "answers (ty, name, requested) a \<and> ''push'' \<notin> set (acc_actions a)"
proof -
  note inter = intersection_contract.inter_law [OF assms(1)]
  let ?none = "\<lparr>acc_name = name, acc_type = ty, acc_actions = [], acc_alias = None\<rparr>"
  have "a = ?none \<or> (\<exists>real w1. resolveAccess env req ty real real
      (ge_intersection env requested [''pull'']) [''pull''] (Some name) w1 = (Inr a, w'))"
    using assms(2)
    by (auto simp: app_release_access_def Let_def io_bind_def io_return_def
        split: if_splits option.splits prod.splits sum.splits list.splits)
  then show ?thesis
  proof
    assume "a = ?none"
    then show ?thesis by (simp add: answers_def)
  next
    assume "\<exists>real w1. resolveAccess env req ty real real
      (ge_intersection env requested [''pull'']) [''pull''] (Some name) w1 = (Inr a, w')"
    then obtain real w1 where r: "resolveAccess env req ty real real
      (ge_intersection env requested [''pull'']) [''pull''] (Some name) w1 = (Inr a, w')" by blast
    from resolveAccess_granted [OF r] show ?thesis by (auto simp: answers_def inter)
  qed
qed

lemma authorizeScope_cases:
  assumes "authorizeScope cfg env req apikey (ty, name, requested) w = (Inr a, w')"
  obtains (resinos) "name = RESINOS_REPOSITORY \<or> re_test SUPERVISOR_REPOSITORIES name"
      "a = resinos_access cfg env apikey (ty, name, requested)"
  | (image) groups where "re_match NEW_REGISTRY_REGEX name = Some groups"
      "resolveAccess env req ty name (if map_of groups 4 \<noteq> None then group_text groups 3 else name)
         requested [] None w = (Inr a, w')"
  | (release) groups where "re_match NEW_REGISTRY_REGEX name = None"
      "app_release_access env req (ty, name, requested) groups w = (Inr (Some a), w')"
  | (legacy) w1 where "re_match NEW_REGISTRY_REGEX name = None"
      "resolveAccess env req ty name name requested [''pull''] None w1 = (Inr a, w')"
proof (cases "name = RESINOS_REPOSITORY \<or> re_test SUPERVISOR_REPOSITORIES name")
  case True
  with assms resinos show thesis by (auto simp: authorizeScope_def io_return_def)
next
  case False
  show thesis
  proof (cases "re_match NEW_REGISTRY_REGEX name")
    case (Some groups)
    with assms False image show thesis by (simp add: authorizeScope_def Let_def)
  next
    case None
    show thesis
    proof (cases "re_match APP_RELEASE_REGEX name")
      case no_app: None
      with assms False None legacy [of w] show thesis by (simp add: authorizeScope_def)
    next
      case app: (Some groups)
      obtain r w1 where run: "app_release_access env req (ty, name, requested) groups w = (r, w1)"
        by fastforce
      show thesis
      proof (cases r)
        case (Inl e)
        with assms False None app run show thesis by (auto simp: authorizeScope_def io_bind_def)
      next
        case (Inr found)
        with assms False None app run release [of groups] legacy [of w1] show thesis
          by (cases found) (auto simp: authorizeScope_def io_bind_def io_return_def)
      qed
    qed
  qed
qed

lemma authorizeScope_answers:
  assumes "intersection_contract (ge_intersection env)"
    and "authorizeScope cfg env req apikey s w = (Inr a, w')"
  shows "answers s a"
proof -
  note inter = intersection_contract.inter_law [OF assms(1)]
  obtain ty name requested where s: "s = (ty, name, requested)" by (cases s)
  from assms(2) [unfolded s] have "answers (ty, name, requested) a"
  proof (cases rule: authorizeScope_cases)
    case resinos
    then show ?thesis by (auto simp: answers_def resinos_access_def Let_def inter split: if_splits)
  next
    case (image groups)
    from resolveAccess_granted [OF image(2)] show ?thesis by (auto simp: answers_def inter)
  next
    case (release groups)
    from app_release_access_found [OF assms(1) release(2)] show ?thesis ..
  next
    case (legacy w1)
    from resolveAccess_granted [OF legacy(2)] show ?thesis by (auto simp: answers_def inter)
  qed
  then show ?thesis by (simp add: s)
qed

lemma grantAllToBuilder_answers:
  assumes "intersection_contract (ge_intersection env)"
  shows "list_all2 answers scopes (grantAllToBuilder env scopes)"
  by (induction scopes)
    (auto simp: grantAllToBuilder_def answers_def Let_def intersection_contract.inter_law [OF assms]
      split: if_splits)

lemma io_mapM_all2:
  assumes "io_mapM f xs w = (Inr ys, w')" and "\<And>x y w w'. f x w = (Inr y, w') \<Longrightarrow> R x y"
  shows "list_all2 R xs ys"
  using assms(1)
proof (induction xs arbitrary: ys w w')
  case Nil
  then show ?case by (simp add: io_return_def)
next
  case (Cons x xs)
  then obtain y w1 zs w2 where "f x w = (Inr y, w1)" "io_mapM f xs w1 = (Inr zs, w2)" "ys = y # zs"
    by (auto simp: io_bind_def io_return_def split: prod.splits sum.splits)
  with Cons.IH assms(2) show ?case by simp
qed

text \<open>
  A token answers the scopes of the request one to one, in order: an access has the type of
  its scope, its name (as name or, for a release, as alias), and only actions that were asked for,
  never anything but pull and push.
\<close>

lemma authorizeRequest_requested:
  assumes "intersection_contract (ge_intersection env)"
    and "authorizeRequest cfg env req apikey scopes w = (Inr accesses, w')"
  shows "list_all2
    (\<lambda>(ty, name, requested) a.
       acc_type a = ty \<and> ((acc_alias a = None \<and> acc_name a = name) \<or> acc_alias a = Some name) \<and>
       set (acc_actions a) \<subseteq> set requested \<inter> {''pull'', ''push''})
    (List.map_filter parseScope scopes) accesses"
proof -
  have "list_all2 answers (List.map_filter parseScope scopes) accesses"
  proof (cases "apikey = Some (rc_builder_token cfg)")
    case True
    with assms(2) grantAllToBuilder_answers [OF assms(1)] show ?thesis
      by (auto simp: authorizeRequest_def Let_def io_return_def)
  next
    case False
    with assms(2) have "io_mapM (authorizeScope cfg env req apikey) (List.map_filter parseScope scopes) w =
        (Inr accesses, w')" by (simp add: authorizeRequest_def)
    from io_mapM_all2 [OF this, of answers] authorizeScope_answers [OF assms(1)] show ?thesis by blast
  qed
  then show ?thesis by (rule list_all2_mono) (auto simp: answers_def split: prod.splits)
qed


text \<open>
  A name of the authenticated kind (\<^verbatim>\<open>v2/<hash>\<close>, or an application and build id) can be
  pulled only if an image is stored at its location and the requester can read it.
\<close>

lemma authorizeScope_pull_private:
  assumes "intersection_contract (ge_intersection env)"
    and "name \<noteq> RESINOS_REPOSITORY" and "\<not> re_test SUPERVISOR_REPOSITORIES name"
    and "re_match NEW_REGISTRY_REGEX name = Some groups"
    and "authorizeScope cfg env req apikey (ty, name, requested) w = (Inr a, w')"
    and "''pull'' \<in> set (acc_actions a)"
  shows "\<exists>i w1 w2.
    fst (resolveImageId env (if map_of groups 4 \<noteq> None then group_text groups 3 else name) w1) = Inr (Some i) \<and>
    fst (resolveReadAccess env req (Some i) w2) = Inr True"
proof -
  note inter = intersection_contract.inter_law [OF assms(1)]
  from assms(5) have "may_pull env req (if map_of groups 4 \<noteq> None then group_text groups 3 else name)"
  proof (cases rule: authorizeScope_cases)
    case resinos
    with assms(2,3) show ?thesis by blast
  next
    case (image groups')
    from resolveAccess_granted [OF image(2)] assms(4,6) image(1) show ?thesis by (auto simp: inter)
  qed (use assms(4) in auto)
  then show ?thesis by (auto simp: may_pull_def)
qed

text \<open>
  The key under which the location of a release is remembered does not separate the slug from
  the release: two different requests of the same requester share an entry, and the second one is
  answered with the image of the first.
\<close>

lemma location_key_collision:
  "location_key slug (Some (c # release)) service key = location_key (slug @ [c]) (Some release) service key"
  by (simp add: location_key_def)

section \<open>A concrete registry\<close>

text \<open>Caches that keep nothing, one image, readable and writable by everybody.\<close>

definition no_cache :: "('w, 'v) level_store" where
  "no_cache = \<lparr>store_get = (\<lambda>k w. (Inr None, w)), store_set = (\<lambda>k v w. (Inr (), w)),
     store_delete = (\<lambda>k w. (Inr (), w)), store_wrap = (\<lambda>k f. f)\<rparr>"

definition demo_registry :: "unit registry_env" where
  "demo_registry =
     \<lparr>ge_intersection = list_intersection, ge_permission_key = (\<lambda>_. ''k''),
      ge_read_cache = no_cache, ge_id_cache = no_cache, ge_location_cache = no_cache,
      ge_application_with_image = (\<lambda>_ _ w. (Inr (Some 1), w)), ge_can_push = (\<lambda>_ i w. (Inr (Some i), w)),
      ge_image_at = (\<lambda>_ w. (Inr (Some 7), w)), ge_release_location = (\<lambda>_ _ _ _ w. (Inr None, w))\<rparr>"

definition demo_config :: registry_config where
  "demo_config = \<lparr>rc_builder_token = ''secret'', rc_resinos_code = Some ''code''\<rparr>"

definition nobody :: perm_req where
  "nobody = \<lparr>req_user = None, req_apiKey = None\<rparr>"

definition demo_access :: access where
  "demo_access = \<lparr>acc_name = ''v2/a'', acc_type = ''repository'', acc_actions = [''push'', ''pull''],
     acc_alias = None\<rparr>"

lemma demo_names:
  "re_match NEW_REGISTRY_REGEX ''v2/a'' = Some [(3, ''v2/a''), (1, ''v2/a'')]"
  "\<not> re_test SUPERVISOR_REPOSITORIES ''v2/a''"
  "parseScope ''repository:v2/a:push,pull'' = Some (''repository'', ''v2/a'', [''push'', ''pull''])"
  by code_simp+

lemma demo_intersection: "intersection_contract (ge_intersection demo_registry)"
  using list_intersection.intersection_contract_axioms by (simp add: demo_registry_def)

lemma demo_scope:
  "authorizeScope demo_config demo_registry nobody None (''repository'', ''v2/a'', [''push'', ''pull'']) () =
     (Inr demo_access, ())"
  by (simp add: authorizeScope_def demo_names RESINOS_REPOSITORY_def resolveAccess_def Let_def
      resolveImageId_def memo_or_false_def memoizedFn_def resolveReadAccess_def resolveWriteAccess_def
      demo_registry_def no_cache_def list_intersection_def io_simps demo_access_def)


end
