(* ===== verification/RegistryStorage.thy ===== *)
theory RegistryStorage
  imports JsRegex "HOL-Library.List_Lexorder" "HOL-Library.Char_ord"
begin

text \<open>
  The storage behind the image registry (\<^verbatim>\<open>src/features/registry/registry.ts\<close>, second part): listing
  the digests and the cache repositories of an image, and deleting its manifests page by page.

  The storage service is the record \<open>s3\<close> of its two calls.  The loops over pages go on as long as the
  service hands out continuation tokens, so they carry fuel: \<open>None\<close> is a loop that was not done.
\<close>

section \<open>The client\<close>

record s3_page =
  pg_keys :: "string option list"
  pg_prefixes :: "string option list"
  pg_truncated :: bool
  pg_token :: "string option"

record 'w s3 =
  s3_list :: "string \<Rightarrow> string option \<Rightarrow> string option \<Rightarrow> ('w, s3_page) io"
  s3_delete :: "string list \<Rightarrow> ('w, (string \<times> string) list) io"

text \<open>An empty continuation token ends the loop as well.\<close>

definition next_token :: "s3_page \<Rightarrow> string option" where
  "next_token res =
     (if pg_truncated res then (case pg_token res of Some [] \<Rightarrow> None | t \<Rightarrow> t) else None)"

fun list_pages ::
  "nat \<Rightarrow> 'w s3 \<Rightarrow> string \<Rightarrow> string option \<Rightarrow> string list \<Rightarrow> ('w, string list option) io"
where
  "list_pages 0 s3 pfx continuationToken children = io_return None"
| "list_pages (Suc fuel) s3 pfx continuationToken children =
     io_bind (s3_list s3 pfx (Some ''/'') continuationToken) (\<lambda>res.
       let children' = children @ List.map_filter (\<lambda>p. p) (pg_prefixes res)
       in case next_token res of
            None \<Rightarrow> io_return (Some children')
          | Some t \<Rightarrow> list_pages fuel s3 pfx (Some t) children')"

definition listChildPrefixes :: "nat \<Rightarrow> 'w s3 \<Rightarrow> string \<Rightarrow> ('w, string list option) io" where
  "listChildPrefixes fuel s3 pfx = list_pages fuel s3 pfx None []"

text \<open>\<^verbatim>\<open>.replace(/\/$/, '')\<close>\<close>

definition strip_slash :: "string \<Rightarrow> string" where
  "strip_slash s = (if s \<noteq> [] \<and> last s = CHR ''/'' then butlast s else s)"

text \<open>\<^verbatim>\<open>/^[a-f0-9]+$/\<close>\<close>

definition HASH_REGEX :: re where
  "HASH_REGEX = RSeqs [RBegin, RPlus (RClass (\<lambda>c. is_digit_char c \<or> c \<in> set ''abcdef'')), REnd]"

definition listDigestsAt :: "nat \<Rightarrow> 'w s3 \<Rightarrow> string \<Rightarrow> ('w, string list option) io" where
  "listDigestsAt fuel s3 pfx =
     io_bind (listChildPrefixes fuel s3 pfx) (\<lambda>children.
       io_return (map_option
         (\<lambda>cs. concat (map (\<lambda>child.
            let hash = strip_slash (js_replace_first pfx [] child)
            in if re_test HASH_REGEX hash then [''sha256:'' @ hash] else []) cs))
         children))"

definition listTagDigests ::
  "nat \<Rightarrow> 'w s3 \<Rightarrow> string \<Rightarrow> string \<Rightarrow> string \<Rightarrow> ('w, string list option) io"
where
  "listTagDigests fuel s3 rootPath repo tag =
     listDigestsAt fuel s3
       (rootPath @ ''/repositories/'' @ repo @ ''/_manifests/tags/'' @ tag @ ''/index/sha256/'')"

definition listCacheRepos :: "nat \<Rightarrow> 'w s3 \<Rightarrow> string \<Rightarrow> string \<Rightarrow> ('w, string list option) io" where
  "listCacheRepos fuel s3 rootPath repo =
     (let reposPath = rootPath @ ''/repositories/''
      in io_bind (listChildPrefixes fuel s3 (reposPath @ repo @ ''-'')) (\<lambda>children.
           io_return (map_option (map (\<lambda>child. strip_slash (js_replace_first reposPath [] child))) children)))"

text \<open>\<open>aborted\<close> is the state of the abort signal in a world.\<close>

fun delete_pages ::
  "nat \<Rightarrow> 'w s3 \<Rightarrow> ('w \<Rightarrow> bool) \<Rightarrow> string \<Rightarrow> string option \<Rightarrow> ('w, unit option) io"
where
  "delete_pages 0 s3 aborted pfx continuationToken = io_return None"
| "delete_pages (Suc fuel) s3 aborted pfx continuationToken =
     (\<lambda>w. if aborted w then (Inl (JsError ''AbortError''), w)
      else io_bind (s3_list s3 pfx None continuationToken) (\<lambda>res.
        let objects = List.map_filter (\<lambda>k. k) (pg_keys res)
        in io_bind
             (if length objects > 0
              then io_bind (s3_delete s3 objects) (\<lambda>errors.
                     case errors of
                       [] \<Rightarrow> io_return ()
                     | (code, msg) # _ \<Rightarrow>
                         io_throw (JsError (''Failed to delete '' @ show_nat (length errors) @
                           '' object(s) under '' @ [CHR 0x27] @ pfx @ [CHR 0x27] @ '': ['' @ code @ ''] '' @ msg)))
              else io_return ())
             (\<lambda>_. case next_token res of
                    None \<Rightarrow> io_return (Some ())
                  | Some t \<Rightarrow> delete_pages fuel s3 aborted pfx (Some t))) w)"

definition manifests_prefix :: "string \<Rightarrow> string \<Rightarrow> string" where
  "manifests_prefix rootPath repo = rootPath @ ''/repositories/'' @ repo @ ''/_manifests/''"

definition deleteRepoManifests ::
  "nat \<Rightarrow> 'w s3 \<Rightarrow> ('w \<Rightarrow> bool) \<Rightarrow> string \<Rightarrow> string \<Rightarrow> ('w, unit option) io"
where
  "deleteRepoManifests fuel s3 aborted rootPath repo =
     delete_pages fuel s3 aborted (manifests_prefix rootPath repo) None"

text \<open>Marking an image for deletion; \<open>request\<close> is the HTTP client.\<close>

definition deleteImage ::
  "(string \<Rightarrow> string \<Rightarrow> ('w, int \<times> string \<times> string) io) \<Rightarrow> string \<Rightarrow> string \<Rightarrow> string \<Rightarrow> string \<Rightarrow>
   ('w, unit) io"
where
  "deleteImage request REGISTRY2_HOST registryToken repo digest =
     io_bind
       (request (''https://'' @ REGISTRY2_HOST @ ''/v2/'' @ repo @ ''/manifests/'' @ digest)
         (''Bearer '' @ registryToken))
       (\<lambda>(statusCode, statusMessage, body).
          if statusCode \<noteq> 202 \<and> statusCode \<noteq> 404
          then io_throw (JsError (''Failed to mark '' @ repo @ ''/'' @ digest @ '' for deletion: ['' @
                 show_int statusCode @ ''] '' @ statusMessage @ '' '' @ body))
          else io_return ())"

section \<open>What the deletion relies on\<close>

text \<open>
  \<open>objs\<close> are the keys stored.  A page lists keys with the prefix that come after the token
  (\<open>past t k\<close>); without a next token it lists them all, otherwise it lists at least one and the ones
  left out come after the next token.  A deletion without errors removes exactly its keys.
\<close>

locale s3_contract =
  fixes s3 :: "'w s3" and objs :: "'w \<Rightarrow> string set" and past :: "string \<Rightarrow> string \<Rightarrow> bool"
  assumes finite_objs: "finite (objs w)"
    and list_law: "\<exists>pg. s3_list s3 p None tok w = (Inr pg, w) \<and>
      (let ks = set (List.map_filter (\<lambda>k. k) (pg_keys pg));
           here = {k \<in> objs w. js_startsWith k p \<and> (case tok of None \<Rightarrow> True | Some t \<Rightarrow> past t k)}
       in ks \<subseteq> here \<and>
          (case next_token pg of
             None \<Rightarrow> ks = here
           | Some t \<Rightarrow> ks \<noteq> {} \<and> (\<forall>k \<in> here - ks. past t k)))"
    and delete_law: "\<exists>errs w'. s3_delete s3 ks w = (Inr errs, w') \<and>
      (errs = [] \<longrightarrow> objs w' = objs w - set ks)"
begin

lemma delete_pages_result:
  assumes "card (objs w) < fuel"
    and "\<And>k. k \<in> objs w \<Longrightarrow> js_startsWith k p \<Longrightarrow> (case tok of None \<Rightarrow> True | Some t \<Rightarrow> past t k)"
    and "delete_pages fuel s3 aborted p tok w = (r, w')"
  shows "r \<noteq> Inr None \<and> (r = Inr (Some ()) \<longrightarrow> objs w' = {k \<in> objs w. \<not> js_startsWith k p})"
  using assms
proof (induction fuel arbitrary: w tok)
  case 0
  then show ?case by simp
next
  case (Suc fuel)
  let ?here = "{k \<in> objs w. js_startsWith k p}"
  have after: "{k \<in> objs w. js_startsWith k p \<and> (case tok of None \<Rightarrow> True | Some t \<Rightarrow> past t k)} = ?here"
    using Suc.prems(2) by auto
  obtain pg where pg: "s3_list s3 p None tok w = (Inr pg, w)"
    "set (List.map_filter (\<lambda>k. k) (pg_keys pg)) \<subseteq> ?here"
    "next_token pg = None \<Longrightarrow> set (List.map_filter (\<lambda>k. k) (pg_keys pg)) = ?here"
    "\<And>t. next_token pg = Some t \<Longrightarrow> set (List.map_filter (\<lambda>k. k) (pg_keys pg)) \<noteq> {} \<and>
       (\<forall>k \<in> ?here - set (List.map_filter (\<lambda>k. k) (pg_keys pg)). past t k)"
    using list_law [of p tok w] unfolding Let_def after by (auto split: option.splits)
  define ks where "ks = List.map_filter (\<lambda>k. k) (pg_keys pg)"
  show ?case
  proof (cases "aborted w")
    case True
    with Suc.prems(3) show ?thesis by auto
  next
    case False
    obtain errs w1 where del: "s3_delete s3 ks w = (Inr errs, w1)" "errs = [] \<Longrightarrow> objs w1 = objs w - set ks"
      using delete_law [of ks w] by blast
    show ?thesis
    proof (cases "ks = []")
      case True
      with pg have "next_token pg = None" "?here = {}"
        by (cases "next_token pg"; force simp: ks_def)+
      with Suc.prems(3) True False pg(1) show ?thesis
        by (auto simp: io_bind_def io_return_def ks_def)
    next
      case nonempty: False
      show ?thesis
      proof (cases errs)
        case (Cons e es)
        with Suc.prems(3) False pg(1) del(1) nonempty show ?thesis
          by (cases e) (auto simp: io_bind_def io_throw_def ks_def Let_def)
      next
        case Nil
        then have w1: "objs w1 = objs w - set ks" using del(2) by simp
        show ?thesis
        proof (cases "next_token pg")
          case None
          with Suc.prems(3) False pg(1,3) del(1) nonempty Nil w1 show ?thesis
            by (auto simp: io_bind_def io_return_def ks_def Let_def)
        next
          case (Some t)
          have "hd ks \<in> set ks" using nonempty by simp
          moreover have "set ks \<subseteq> objs w" using pg(2) by (auto simp: ks_def)
          ultimately have "hd ks \<in> objs w" "hd ks \<notin> objs w1" by (auto simp: w1)
          then have "objs w1 \<subset> objs w" using w1 by auto
          then have card: "card (objs w1) < fuel"
            using psubset_card_mono [OF finite_objs, of "objs w1" w] Suc.prems(1) by linarith
          have past: "case Some t of None \<Rightarrow> True | Some t \<Rightarrow> past t k" if "k \<in> objs w1" "js_startsWith k p" for k
            using that pg(4) [OF Some] by (auto simp: w1 ks_def)
          have "delete_pages fuel s3 aborted p (Some t) w1 = (r, w')"
            using Suc.prems(3) False pg(1) del(1) nonempty Nil Some
            by (simp add: io_bind_def io_return_def ks_def Let_def)
          from Suc.IH [OF card past this] show ?thesis
            using pg(2) by (auto simp: w1 ks_def)
        qed
      qed
    qed
  qed
qed

end

text \<open>
  A store of keys in lexical order with pages of one key; the token of a page is its key.
\<close>

definition mem_s3 :: "string list s3" where
  "mem_s3 =
     \<lparr>s3_list = (\<lambda>p delimiter tok w.
        let ks = sort (filter (\<lambda>k. js_startsWith k p \<and> (case tok of None \<Rightarrow> True | Some t \<Rightarrow> tl t < k)) (remdups w))
        in (Inr \<lparr>pg_keys = map Some (take 1 ks), pg_prefixes = [], pg_truncated = length ks > 1,
                pg_token = map_option (\<lambda>k. CHR ''k'' # k) (case ks of [] \<Rightarrow> None | k # _ \<Rightarrow> Some k)\<rparr>, w)),
      s3_delete = (\<lambda>ks w. (Inr [], filter (\<lambda>k. k \<notin> set ks) w))\<rparr>"

lemma map_filter_Some [simp]: "List.map_filter (\<lambda>k. k) (map Some xs) = xs"
  by (induction xs) (simp_all add: List.map_filter_simps)

interpretation mem_s3: s3_contract mem_s3 set "\<lambda>t k. tl t < k"
proof
  fix p tok and w :: "string list"
  define ks where "ks = sort (filter (\<lambda>k. js_startsWith k p \<and> (case tok of None \<Rightarrow> True | Some t \<Rightarrow> tl t < k)) (remdups w))"
  have sd: "sorted ks" "distinct ks" by (simp_all add: ks_def)
  have set: "set ks = {k \<in> set w. js_startsWith k p \<and> (case tok of None \<Rightarrow> True | Some t \<Rightarrow> tl t < k)}"
    by (auto simp: ks_def)
  let ?pg = "\<lparr>pg_keys = map Some (take 1 ks), pg_prefixes = [], pg_truncated = length ks > 1,
    pg_token = map_option (\<lambda>k. CHR ''k'' # k) (case ks of [] \<Rightarrow> None | k # _ \<Rightarrow> Some k)\<rparr>"
  have run: "s3_list mem_s3 p None tok w = (Inr ?pg, w)"
    by (simp add: mem_s3_def ks_def Let_def)
  show "\<exists>pg. s3_list mem_s3 p None tok w = (Inr pg, w) \<and>
      (let ks = set (List.map_filter (\<lambda>k. k) (pg_keys pg));
           here = {k \<in> set w. js_startsWith k p \<and> (case tok of None \<Rightarrow> True | Some t \<Rightarrow> tl t < k)}
       in ks \<subseteq> here \<and>
          (case next_token pg of
             None \<Rightarrow> ks = here
           | Some t \<Rightarrow> ks \<noteq> {} \<and> (\<forall>k \<in> here - ks. tl t < k)))"
    unfolding set [symmetric]
  proof (intro exI conjI)
    show "s3_list mem_s3 p None tok w = (Inr ?pg, w)" by (rule run)
    show "let kss = set (List.map_filter (\<lambda>k. k) (pg_keys ?pg)); here = set ks
       in kss \<subseteq> here \<and>
          (case next_token ?pg of
             None \<Rightarrow> kss = here
           | Some t \<Rightarrow> kss \<noteq> {} \<and> (\<forall>k \<in> here - kss. tl t < k))"
    proof (cases ks)
      case Nil
      then show ?thesis by (simp add: next_token_def)
    next
      case (Cons k rest)
      have "k < k'" if "k' \<in> set rest" for k'
        using sd that by (auto simp: Cons order.strict_iff_order)
      then show ?thesis by (cases rest) (auto simp: Cons next_token_def Let_def)
    qed
  qed
qed (auto simp: mem_s3_def)

text \<open>
  Deleting the manifests of a repository ends: with more fuel than there are objects the
  loop is always done, and unless a call fails or the signal aborts it has removed every object under
  the repository's manifests and nothing else.
\<close>

lemma deleteRepoManifests_complete:
  assumes "s3_contract s3 objs past" and "card (objs w) < fuel"
    and "deleteRepoManifests fuel s3 aborted rootPath repo w = (r, w')"
  shows "r \<noteq> Inr None \<and>
    (r = Inr (Some ()) \<longrightarrow> objs w' = {k \<in> objs w. \<not> js_startsWith k (manifests_prefix rootPath repo)})"
  using s3_contract.delete_pages_result [where tok = None, OF assms(1,2) _ assms(3) [unfolded deleteRepoManifests_def]]
  by simp

end
