(* ===== verification/LogRead.thy ===== *)
theory LogRead
  imports Utils
begin

text \<open>
  Reading the logs of a device (\<^verbatim>\<open>src/features/device-logs/lib/read.ts\<close>): the parameters of a request,
  and the stream that joins the history of the backend with what the subscription delivers.

  The stream is a state machine.  Its callbacks are events; what \<^verbatim>\<open>res.write\<close> returned (whether
  the connection takes more) is a part of the event that writes.  Lines written are logs, or the empty
  line of the heartbeat.  Throttled flushing has no effect on what is written.
\<close>

section \<open>Logs and parameters\<close>

record output_log =
  log_message :: string
  log_timestamp :: int
  log_isSystem :: bool
  log_isStdErr :: bool
  log_serviceId :: "int option"
  log_createdAt :: int

record log_context =
  ctx_id :: int
  ctx_uuid :: string
  ctx_retention_limit :: nat

text \<open>Counts: \<open>None\<close> is \<^verbatim>\<open>Infinity\<close>, which the retention limit bounds.\<close>

definition getCount :: "int \<Rightarrow> string option \<Rightarrow> int \<Rightarrow> int" where
  "getCount LOGS_DEFAULT_RETENTION_LIMIT countParam defaultCount =
     (let count =
            (case countParam of
               None \<Rightarrow> Some defaultCount
             | Some s \<Rightarrow>
                 (if s = ''all'' then None
                  else case parseInt10 s of Some n \<Rightarrow> Some n | None \<Rightarrow> Some defaultCount))
      in case count of
           None \<Rightarrow> LOGS_DEFAULT_RETENTION_LIMIT
         | Some c \<Rightarrow> min c LOGS_DEFAULT_RETENTION_LIMIT)"

text \<open>\<open>parse_date\<close> is \<^verbatim>\<open>new Date(s).getTime()\<close>, \<open>None\<close> for \<^verbatim>\<open>NaN\<close>.\<close>

definition getStart :: "(string \<Rightarrow> int option) \<Rightarrow> int \<Rightarrow> string option \<Rightarrow> int \<Rightarrow> int" where
  "getStart parse_date now startParam defaultSince =
     (let start =
            (case startParam of
               None \<Rightarrow> now - defaultSince
             | Some s \<Rightarrow>
                 (case (case checkInt (IStr s) of
                          Some (Num n) \<Rightarrow> (if n = 0 then parse_date s else Some (floor n))
                        | _ \<Rightarrow> parse_date s) of
                    None \<Rightarrow> now - defaultSince
                  | Some t \<Rightarrow> t))
      in max start (now - 30 * 86400000))"

record history_opts =
  ho_count :: int
  ho_start :: int

definition getHistory ::
  "(log_context \<Rightarrow> history_opts \<Rightarrow> ('w, output_log list) io) \<Rightarrow> log_context \<Rightarrow> history_opts \<Rightarrow>
   ('w, output_log list) io"
where
  "getHistory history ctx opts = (if ho_count opts = 0 then io_return [] else history ctx opts)"

definition addRetentionLimit :: "nat \<Rightarrow> int \<Rightarrow> string \<Rightarrow> log_context" where
  "addRetentionLimit LOGS_DEFAULT_RETENTION_LIMIT did uuid =
     \<lparr>ctx_id = did, ctx_uuid = uuid, ctx_retention_limit = LOGS_DEFAULT_RETENTION_LIMIT\<rparr>"

definition getReadContext :: "nat \<Rightarrow> (string \<Rightarrow> ('w, int option) io) \<Rightarrow> string \<Rightarrow> ('w, log_context) io" where
  "getReadContext limit find_device uuid =
     io_bind (find_device uuid) (\<lambda>device.
       case device of
         None \<Rightarrow> io_throw (NotFoundError (''No device with uuid '' @ uuid))
       | Some did \<Rightarrow> io_return (addRetentionLimit limit did uuid))"

section \<open>The stream\<close>

datatype stream_state = Buffering | Flushing | Writable | Saturated | Closed

datatype line = LogLine output_log | Heartbeat

record read_stream =
  rs_state :: stream_state
  rs_dropped :: nat
  rs_buffer :: "output_log list"
  rs_written :: "line list"
  rs_subscribed :: bool
  rs_heartbeat :: bool

definition stream_start :: read_stream where
  "stream_start = \<lparr>rs_state = Buffering, rs_dropped = 0, rs_buffer = [], rs_written = [],
     rs_subscribed = True, rs_heartbeat = True\<rparr>"

definition write_line :: "line \<Rightarrow> read_stream \<Rightarrow> read_stream" where
  "write_line l st = st\<lparr>rs_written := rs_written st @ [l]\<rparr>"

text \<open>\<open>ok\<close> is what the write returns, if there is one.\<close>

definition onLog :: "output_log \<Rightarrow> bool \<Rightarrow> read_stream \<Rightarrow> read_stream" where
  "onLog entry ok st =
     (case rs_state st of
        Buffering \<Rightarrow> st\<lparr>rs_buffer := rs_buffer st @ [entry]\<rparr>
      | Saturated \<Rightarrow> st\<lparr>rs_dropped := Suc (rs_dropped st)\<rparr>
      | Closed \<Rightarrow> st
      | _ \<Rightarrow>
          (let st' = write_line (LogLine entry) st
           in if \<not> ok \<and> rs_state st' = Writable then st'\<lparr>rs_state := Saturated\<rparr> else st'))"

definition suppressed_log :: "nat \<Rightarrow> int \<Rightarrow> output_log" where
  "suppressed_log dropped now =
     \<lparr>log_message = ''Warning: Suppressed '' @ show_nat dropped @ '' message(s) due to slow reading'',
      log_timestamp = now, log_isSystem = True, log_isStdErr = True, log_serviceId = None,
      log_createdAt = now\<rparr>"

definition onDrain :: "int \<Rightarrow> bool \<Rightarrow> read_stream \<Rightarrow> read_stream" where
  "onDrain now ok st =
     (if rs_state st = Closed then st
      else
        let st1 = (if rs_state st = Saturated then st\<lparr>rs_state := Writable\<rparr> else st)
        in if rs_dropped st1 \<noteq> 0
           then (onLog (suppressed_log (rs_dropped st1) now) ok st1)\<lparr>rs_dropped := 0\<rparr>
           else st1)"

definition close :: "read_stream \<Rightarrow> read_stream" where
  "close st =
     (let st1 = (if rs_state st \<noteq> Closed then st\<lparr>rs_state := Closed, rs_subscribed := False\<rparr> else st)
      in st1\<lparr>rs_heartbeat := False\<rparr>)"

definition onHeartbeat :: "read_stream \<Rightarrow> read_stream" where
  "onHeartbeat st =
     (if \<not> rs_heartbeat st then st
      else if rs_state st = Closed then close st
      else write_line Heartbeat st)"

text \<open>The logs sent when the history has arrived.\<close>

definition merge_history :: "nat \<Rightarrow> output_log list \<Rightarrow> output_log list \<Rightarrow> output_log list" where
  "merge_history retention_limit history buffer =
     (let afterDate = (case history of [] \<Rightarrow> 0 | _ \<Rightarrow> log_createdAt (last history));
          firstAfterDateIndex = find_index (\<lambda>entry. log_createdAt entry > afterDate) buffer;
          logs = (case firstAfterDateIndex of
                    None \<Rightarrow> history
                  | Some i \<Rightarrow> history @ drop i buffer)
      in if retention_limit \<noteq> 0 \<and> length logs > retention_limit
         then drop (length logs - retention_limit) logs else logs)"

text \<open>\<open>None\<close> is a history that failed; the writes of the burst do not change the state.\<close>

definition onHistory :: "nat \<Rightarrow> output_log list option \<Rightarrow> read_stream \<Rightarrow> read_stream" where
  "onHistory retention_limit history st =
     (if rs_state st = Closed then st
      else
        let logs = merge_history retention_limit (case history of None \<Rightarrow> [] | Some h \<Rightarrow> h) (rs_buffer st);
            st1 = st\<lparr>rs_buffer := [], rs_state := Flushing\<rparr>;
            st2 = fold (\<lambda>entry s. onLog entry True s) logs st1
        in st2\<lparr>rs_state := Writable\<rparr>)"

datatype stream_event =
    LogArrived output_log bool
  | Drained int bool
  | HeartbeatTick
  | Finished
  | HistoryArrived "output_log list option"

fun stream_step :: "nat \<Rightarrow> stream_event \<Rightarrow> read_stream \<Rightarrow> read_stream" where
  "stream_step limit (LogArrived entry ok) st = (if rs_subscribed st then onLog entry ok st else st)"
| "stream_step limit (Drained now ok) st = onDrain now ok st"
| "stream_step limit HeartbeatTick st = onHeartbeat st"
| "stream_step limit Finished st = close st"
| "stream_step limit (HistoryArrived h) st = onHistory limit h st"

fun stream_run :: "nat \<Rightarrow> stream_event list \<Rightarrow> read_stream \<Rightarrow> read_stream" where
  "stream_run limit [] st = st"
| "stream_run limit (e # es) st = stream_run limit es (stream_step limit e st)"

section \<open>Runs\<close>

definition is_history :: "stream_event \<Rightarrow> bool" where
  "is_history e \<longleftrightarrow> (case e of HistoryArrived _ \<Rightarrow> True | _ \<Rightarrow> False)"

definition log_lines :: "line list \<Rightarrow> output_log list" where
  "log_lines ls = List.map_filter (\<lambda>l. case l of LogLine entry \<Rightarrow> Some entry | Heartbeat \<Rightarrow> None) ls"

text \<open>The logs that reach an open stream, and the numbers its warnings report.\<close>

fun received :: "nat \<Rightarrow> stream_event list \<Rightarrow> read_stream \<Rightarrow> nat" where
  "received limit [] st = 0"
| "received limit (e # es) st =
     (case e of LogArrived _ _ \<Rightarrow> if rs_subscribed st then 1 else 0 | _ \<Rightarrow> 0) +
     received limit es (stream_step limit e st)"

fun warnings :: "nat \<Rightarrow> stream_event list \<Rightarrow> read_stream \<Rightarrow> nat list" where
  "warnings limit [] st = []"
| "warnings limit (e # es) st =
     (case e of
        Drained _ _ \<Rightarrow> if rs_state st \<noteq> Closed \<and> rs_dropped st \<noteq> 0 then [rs_dropped st] else []
      | _ \<Rightarrow> []) @ warnings limit es (stream_step limit e st)"

definition stream_ok :: "read_stream \<Rightarrow> bool" where
  "stream_ok st \<longleftrightarrow>
     (rs_subscribed st \<longleftrightarrow> rs_state st \<noteq> Closed) \<and> rs_state st \<noteq> Flushing \<and>
     (rs_state st \<in> {Writable, Saturated} \<longrightarrow> rs_buffer st = []) \<and>
     (rs_state st \<in> {Buffering, Writable} \<longrightarrow> rs_dropped st = 0)"

lemma log_lines_append [simp]: "log_lines (xs @ ys) = log_lines xs @ log_lines ys"
  by (induction xs) (auto simp: log_lines_def List.map_filter_simps split: option.split)

lemma log_lines_one [simp]:
  "log_lines [LogLine l] = [l]" "log_lines [Heartbeat] = []" "log_lines [] = []"
  by (simp_all add: log_lines_def List.map_filter_simps)

lemma fold_onLog_flushing:
  assumes "rs_state st = Flushing"
  shows "fold (\<lambda>entry s. onLog entry True s) logs st = st\<lparr>rs_written := rs_written st @ map LogLine logs\<rparr>"
  using assms
proof (induction logs arbitrary: st)
  case Nil
  then show ?case by simp
next
  case (Cons l ls)
  have "onLog l True st = st\<lparr>rs_written := rs_written st @ [LogLine l]\<rparr>"
    using Cons.prems by (simp add: onLog_def write_line_def)
  with Cons show ?case by simp
qed

lemma onHistory_eq:
  "onHistory limit h st =
     (if rs_state st = Closed then st
      else st\<lparr>rs_buffer := [], rs_state := Writable,
        rs_written := rs_written st @
          map LogLine (merge_history limit (case h of None \<Rightarrow> [] | Some x \<Rightarrow> x) (rs_buffer st))\<rparr>)"
  by (simp add: onHistory_def Let_def fold_onLog_flushing)

lemma stream_ok_start: "stream_ok stream_start"
  by (simp add: stream_ok_def stream_start_def)

lemma stream_ok_step:
  assumes "stream_ok st" and "is_history e \<Longrightarrow> rs_state st \<noteq> Saturated"
  shows "stream_ok (stream_step limit e st)"
  using assms
  by (cases e; cases "rs_state st")
    (auto simp: stream_ok_def onLog_def onDrain_def close_def onHeartbeat_def onHistory_eq write_line_def
      Let_def is_history_def)

section \<open>Reachable streams\<close>

text \<open>The history arrives once, to a stream that is still buffering or was closed meanwhile.\<close>

inductive stream_reach :: "nat \<Rightarrow> read_stream \<Rightarrow> bool" for limit where
  reach_start: "stream_reach limit stream_start"
| reach_event: "stream_reach limit st \<Longrightarrow> \<not> is_history e \<Longrightarrow> stream_reach limit (stream_step limit e st)"
| reach_history: "stream_reach limit st \<Longrightarrow> rs_state st \<in> {Buffering, Closed} \<Longrightarrow>
    stream_reach limit (stream_step limit (HistoryArrived h) st)"

lemma stream_reach_ok: "stream_reach limit st \<Longrightarrow> stream_ok st"
proof (induction rule: stream_reach.induct)
  case reach_start
  show ?case by (rule stream_ok_start)
next
  case (reach_event st e)
  then show ?case by (intro stream_ok_step) auto
next
  case (reach_history st h)
  then show ?case by (intro stream_ok_step) auto
qed

lemma stream_step_account:
  assumes "stream_ok st" and "\<not> is_history e"
  shows "length (log_lines (rs_written (stream_step limit e st))) + sum_list (warnings limit [e] st) +
      rs_dropped (stream_step limit e st) + length (rs_buffer (stream_step limit e st)) =
    length (log_lines (rs_written st)) + length (warnings limit [e] st) + received limit [e] st +
      rs_dropped st + length (rs_buffer st)"
  using assms
  by (cases e; cases "rs_state st")
    (auto simp: stream_ok_def onLog_def onDrain_def close_def onHeartbeat_def write_line_def
      Let_def is_history_def)

lemma stream_run_account:
  assumes "stream_ok st" and "\<forall>e \<in> set es. \<not> is_history e"
  shows "length (log_lines (rs_written (stream_run limit es st))) + sum_list (warnings limit es st) +
      rs_dropped (stream_run limit es st) + length (rs_buffer (stream_run limit es st)) =
    length (log_lines (rs_written st)) + length (warnings limit es st) + received limit es st +
      rs_dropped st + length (rs_buffer st)"
  using assms
proof (induction es arbitrary: st)
  case Nil
  then show ?case by simp
next
  case (Cons e es)
  have ok: "stream_ok (stream_step limit e st)"
    using Cons.prems by (intro stream_ok_step) auto
  have rest: "\<forall>e \<in> set es. \<not> is_history e" using Cons.prems by simp
  from Cons.IH [OF ok rest] stream_step_account [of st e limit] Cons.prems
  show ?case by simp
qed


definition demo_log :: "int \<Rightarrow> output_log" where
  "demo_log t = \<lparr>log_message = ''m'', log_timestamp = t, log_isSystem = False, log_isStdErr = False,
     log_serviceId = None, log_createdAt = t\<rparr>"

definition demo_stream :: read_stream where
  "demo_stream = stream_step 10 (HistoryArrived (Some [demo_log 1])) stream_start"


lemma stream_closed_step:
  assumes "rs_state st = Closed" and "\<not> rs_subscribed st"
  shows "rs_state (stream_step limit e st) = Closed \<and> \<not> rs_subscribed (stream_step limit e st) \<and>
    rs_written (stream_step limit e st) = rs_written st"
  using assms by (cases e) (auto simp: onDrain_def close_def onHeartbeat_def onHistory_def)

lemma stream_closed_run:
  assumes "rs_state st = Closed" and "\<not> rs_subscribed st"
  shows "rs_state (stream_run limit es st) = Closed \<and> \<not> rs_subscribed (stream_run limit es st) \<and>
    rs_written (stream_run limit es st) = rs_written st"
  using assms
proof (induction es arbitrary: st)
  case Nil
  then show ?case by simp
next
  case (Cons e es)
  then show ?case using stream_closed_step [of st limit e] by simp
qed

text \<open>
  Once the connection is finished the stream is unsubscribed for good and nothing more is
  written to it, whatever happens afterwards: late logs, drains, heartbeats or a late history.
\<close>

lemma stream_finished_silent:
  assumes "stream_reach limit st"
  shows "rs_written (stream_run limit es (stream_step limit Finished st)) = rs_written st \<and>
    \<not> rs_subscribed (stream_run limit es (stream_step limit Finished st))"
proof -
  have "rs_state (close st) = Closed" "\<not> rs_subscribed (close st)" "rs_written (close st) = rs_written st"
    using stream_reach_ok [OF assms] by (auto simp: close_def stream_ok_def Let_def)
  then show ?thesis using stream_closed_run [of "close st" limit es] by simp
qed

section \<open>Joining history and subscription\<close>

lemma dropWhile_filter_sorted:
  assumes "sorted_wrt (\<lambda>a b. log_createdAt a \<le> log_createdAt b) xs"
  shows "dropWhile (\<lambda>x. \<not> log_createdAt x > t) xs = filter (\<lambda>x. log_createdAt x > t) xs"
  using assms
proof (induction xs)
  case Nil
  then show ?case by simp
next
  case (Cons x xs)
  show ?case
  proof (cases "log_createdAt x > t")
    case True
    with Cons.prems have "filter (\<lambda>x. log_createdAt x > t) xs = xs"
      by (intro filter_True) auto
    with True show ?thesis by simp
  next
    case False
    with Cons show ?thesis by simp
  qed
qed

lemma merge_history_joined:
  assumes "sorted_wrt (\<lambda>a b. log_createdAt a \<le> log_createdAt b) buffer"
  shows "\<exists>n. merge_history limit history buffer =
      drop n (history @ filter (\<lambda>b. log_createdAt b > (case history of [] \<Rightarrow> 0 | _ \<Rightarrow> log_createdAt (last history))) buffer) \<and>
    (n \<noteq> 0 \<longrightarrow> length (merge_history limit history buffer) = limit)"
proof -
  let ?t = "case history of [] \<Rightarrow> 0 | _ \<Rightarrow> log_createdAt (last history)"
  let ?i = "find_index (\<lambda>b. log_createdAt b > ?t) buffer"
  have joined: "(case ?i of None \<Rightarrow> history | Some i \<Rightarrow> history @ drop i buffer) =
      history @ filter (\<lambda>b. log_createdAt b > ?t) buffer"
  proof (cases ?i)
    case None
    then have "\<forall>b \<in> set buffer. \<not> log_createdAt b > ?t" by (simp only: find_index_None)
    with None show ?thesis by (simp add: filter_empty_conv)
  next
    case (Some i)
    then show ?thesis
      using drop_find_index [OF Some] dropWhile_filter_sorted [OF assms, of ?t] by simp
  qed
  show ?thesis
    unfolding merge_history_def Let_def joined
    by (intro exI [of _ "if limit \<noteq> 0 \<and>
          length (history @ filter (\<lambda>b. log_createdAt b > ?t) buffer) > limit
        then length (history @ filter (\<lambda>b. log_createdAt b > ?t) buffer) - limit else 0"]) auto
qed

text \<open>
  What a stream sends when the history arrives: the history followed by exactly the buffered
  logs that are newer than its end, cut at the front to the retention limit. So if both come in order,
  the logs sent are in strictly increasing order of creation and none is sent twice.
\<close>

lemma merge_history_ordered:
  assumes "sorted_wrt (\<lambda>a b. log_createdAt a < log_createdAt b) history"
    and "sorted_wrt (\<lambda>a b. log_createdAt a < log_createdAt b) buffer"
  shows "sorted_wrt (\<lambda>a b. log_createdAt a < log_createdAt b) (merge_history limit history buffer) \<and>
    (limit \<noteq> 0 \<longrightarrow> length (merge_history limit history buffer) \<le> limit) \<and>
    (\<exists>n. merge_history limit history buffer =
       drop n (history @ filter (\<lambda>b. log_createdAt b > (case history of [] \<Rightarrow> 0 | _ \<Rightarrow> log_createdAt (last history))) buffer))"
proof -
  let ?lt = "\<lambda>a b. log_createdAt a < log_createdAt b"
  let ?t = "case history of [] \<Rightarrow> 0 | _ \<Rightarrow> log_createdAt (last history)"
  let ?all = "history @ filter (\<lambda>b. log_createdAt b > ?t) buffer"
  have "sorted_wrt (\<lambda>a b. log_createdAt a \<le> log_createdAt b) buffer"
    using assms(2) by (rule sorted_wrt_mono_rel [rotated]) simp
  from merge_history_joined [OF this, of limit history] obtain n where
    n: "merge_history limit history buffer = drop n ?all" by blast
  have below: "log_createdAt h \<le> ?t" if "h \<in> set history" for h
  proof (cases history rule: rev_cases)
    case Nil
    with that show ?thesis by simp
  next
    case (snoc hs y)
    then have "?t = log_createdAt y" by (cases hs) simp_all
    with snoc assms(1) that show ?thesis by (auto simp: sorted_wrt_append less_imp_le)
  qed
  have "sorted_wrt ?lt ?all"
    using assms below by (force simp: sorted_wrt_append sorted_wrt_filter)
  then have "sorted_wrt ?lt (drop n ?all)" by (rule sorted_wrt_drop)
  moreover have "limit \<noteq> 0 \<longrightarrow> length (merge_history limit history buffer) \<le> limit"
    by (auto simp: merge_history_def Let_def)
  ultimately show ?thesis using n by auto
qed

end
