(* ===== verification/LogStore.thy ===== *)
theory LogStore
  imports LogRead CacheStore
begin

text \<open>
  Storing the logs of a device: the conversion of what a supervisor sends
  (\<^verbatim>\<open>src/features/device-logs/lib/supervisor.ts\<close>), the endpoint for batches and the stream for
  continuous writing (\<^verbatim>\<open>store.ts\<close>), and the backend that keeps them (\<^verbatim>\<open>backends/redis.ts\<close>).

  The write stream is a state machine over its callbacks.  The scripts the backend runs inside the
  database are modelled on its lists, counters and channels; serialization and compression are the
  parameter that turns a log into a text, which \<open>RedisCodec\<close> provides.
\<close>

section \<open>Conversion\<close>

record internal_log =
  il_nano :: int
  il_timestamp :: int
  il_isSystem :: bool
  il_isStdErr :: bool
  il_serviceId :: "int option"
  il_message :: string

definition MAX_LOGS_PER_BATCH :: nat where
  "MAX_LOGS_PER_BATCH = 10"

definition convertLog :: "int \<Rightarrow> json obj \<Rightarrow> internal_log option res" where
  "convertLog nanoTimestamp l =
     (if truthy (map_of l ''uuid'') then Inr None
      else case map_of l ''message'' of
        Some (JStr message) \<Rightarrow>
          (case map_of l ''timestamp'' of
             Some (JNum timestamp) \<Rightarrow>
               (let validated = \<lparr>il_nano = nanoTimestamp, il_timestamp = timestamp,
                      il_isSystem = (map_of l ''isSystem'' = Some (JBool True)),
                      il_isStdErr = (map_of l ''isStdErr'' = Some (JBool True)),
                      il_serviceId = None, il_message = message\<rparr>
                in case map_of l ''serviceId'' of
                     None \<Rightarrow> Inr (Some validated)
                   | Some (JNum s) \<Rightarrow> Inr (Some (validated\<lparr>il_serviceId := Some s\<rparr>))
                   | Some _ \<Rightarrow> Inl (BadRequestError ''DeviceLog serviceId must be number or undefined''))
           | _ \<Rightarrow> Inl (BadRequestError ''DeviceLog timestamp must be number''))
      | _ \<Rightarrow> Inl (BadRequestError ''DeviceLog message must be string''))"

definition isOldLog :: "json obj \<Rightarrow> bool" where
  "isOldLog l \<longleftrightarrow>
     not_nullish (map_of l ''is_stderr'') \<or> not_nullish (map_of l ''is_system'') \<or>
     not_nullish (map_of l ''image_id'')"

definition convertAnyLog :: "int \<Rightarrow> json obj \<Rightarrow> internal_log option res" where
  "convertAnyLog nanoTimestamp l =
     (if isOldLog l then Inl (BadRequestError []) else convertLog nanoTimestamp l)"

text \<open>\<open>nano i\<close> is the clock when the log at index \<open>i\<close> is converted.\<close>

definition convertLogs :: "(nat \<Rightarrow> int) \<Rightarrow> json obj list \<Rightarrow> internal_log list res" where
  "convertLogs nano logs =
     (if length logs > MAX_LOGS_PER_BATCH
      then Inl (BadRequestError (''Batches cannot include more than '' @ show_nat MAX_LOGS_PER_BATCH @ '' logs''))
      else res_bind (res_all (\<lambda>(i, l). convertAnyLog (nano i) l) (zip [0..<length logs] logs))
             (\<lambda>ls. Inr (List.map_filter (\<lambda>l. l) ls)))"

section \<open>Batches\<close>

text \<open>The cached context of a writer; \<open>None\<close> is \<^verbatim>\<open>false\<close>.\<close>

definition getWriteContext ::
  "nat \<Rightarrow> ('w, log_context option option) level_store \<Rightarrow> (perm_req \<Rightarrow> string) \<Rightarrow>
   (perm_req \<Rightarrow> string \<Rightarrow> ('w, int option) io) \<Rightarrow> perm_req \<Rightarrow> string \<Rightarrow> ('w, log_context) io"
where
  "getWriteContext limit cache normalizer can_write req uuid =
     io_bind
       (memoizedFn cache (\<lambda>(uuid, req). uuid @ ''$'' @ normalizer req) None
         (\<lambda>(uuid, req). io_catch
            (io_bind (can_write req uuid) (\<lambda>deviceId.
               io_return (Some (map_option (\<lambda>i. addRetentionLimit limit i uuid) deviceId))))
            (\<lambda>_. io_return (Some None)))
         (uuid, req))
       (\<lambda>maybe. case maybe of
          Some (Some ctx) \<Rightarrow> io_return ctx
        | _ \<Rightarrow> io_throw UnauthorizedError)"

type_synonym 'w publisher = "log_context \<Rightarrow> internal_log list \<Rightarrow> ('w, unit) io"

text \<open>Both backends are started; an error of the secondary one is only reported.\<close>

definition publishBackend ::
  "'w publisher \<Rightarrow> 'w publisher option \<Rightarrow> ('w \<Rightarrow> bool) \<Rightarrow> 'w publisher"
where
  "publishBackend primaryBackend secondaryBackend shouldPublishToSecondary ctx buffer w =
     (case primaryBackend ctx buffer w of
        (r, w1) \<Rightarrow>
          (r, if shouldPublishToSecondary w1
              then (case secondaryBackend of None \<Rightarrow> w1 | Some p \<Rightarrow> snd (p ctx buffer w1))
              else w1))"

definition store_body ::
  "(nat \<Rightarrow> int) \<Rightarrow> ('w, log_context) io \<Rightarrow> 'w publisher \<Rightarrow> json obj list \<Rightarrow> ('w, unit) io"
where
  "store_body nano writeContext publish body =
     io_bind (io_lift (convertLogs nano body)) (\<lambda>logs.
       if length logs > 0 then io_bind writeContext (\<lambda>ctx. publish ctx logs) else io_return ())"

definition store ::
  "(exn \<Rightarrow> int) \<Rightarrow> (nat \<Rightarrow> int) \<Rightarrow> ('w, log_context) io \<Rightarrow> 'w publisher \<Rightarrow> json obj list \<Rightarrow> 'w \<Rightarrow> int \<times> 'w"
where
  "store http_status nano writeContext publish body w =
     (case store_body nano writeContext publish body w of
        (Inr _, w') \<Rightarrow> (201, w')
      | (Inl err, w') \<Rightarrow> (if is_http_error err then http_status err else 500, w'))"

section \<open>The write stream\<close>

text \<open>Whether a stream is taken, from its headers and the state of the backend.\<close>

definition accept_stream :: "bool \<Rightarrow> string \<Rightarrow> string \<Rightarrow> unit res" where
  "accept_stream available NDJSON_CTYPE content_type =
     (if \<not> available then Inl (ServiceUnavailableError ''The logs storage is unavailable'')
      else if content_type \<noteq> NDJSON_CTYPE
      then Inl (UnsupportedMediaTypeError (''Streaming requests require Content-Type '' @ NDJSON_CTYPE))
      else Inr ())"

text \<open>
  \<open>ws_timer\<close> is the delay of the pending timer, \<open>ws_publishing\<close> an unfinished publication,
  \<open>ws_batches\<close> what was handed to the backends.
\<close>

record write_stream =
  ws_buffer :: "internal_log list"
  ws_publishScheduled :: bool
  ws_timer :: "nat option"
  ws_publishing :: bool
  ws_paused :: bool
  ws_batches :: "internal_log list list"

record write_config =
  wc_bufferLimit :: nat
  wc_flush_interval :: nat
  wc_unavailable_interval :: nat

definition bufferLimit :: "nat \<Rightarrow> log_context \<Rightarrow> nat" where
  "bufferLimit LOGS_WRITE_BUFFER_LIMIT ctx = min LOGS_WRITE_BUFFER_LIMIT (ctx_retention_limit ctx)"

definition write_start :: write_stream where
  "write_start = \<lparr>ws_buffer = [], ws_publishScheduled = False, ws_timer = None,
     ws_publishing = False, ws_paused = False, ws_batches = []\<rparr>"

definition schedule :: "write_config \<Rightarrow> bool \<Rightarrow> write_stream \<Rightarrow> write_stream" where
  "schedule cfg available st =
     (if ws_publishScheduled st then st
      else st\<lparr>ws_timer := Some (if available then wc_flush_interval cfg else wc_unavailable_interval cfg),
              ws_publishScheduled := True\<rparr>)"

definition onData :: "write_config \<Rightarrow> internal_log \<Rightarrow> bool \<Rightarrow> write_stream \<Rightarrow> write_stream" where
  "onData cfg l available st =
     (let st1 = (if length (ws_buffer st) = 0 then schedule cfg available st else st);
          st2 = st1\<lparr>ws_buffer := ws_buffer st1 @ [l]\<rparr>
      in if length (ws_buffer st2) \<ge> wc_bufferLimit cfg \<or> \<not> available
         then st2\<lparr>ws_paused := True\<rparr> else st2)"

definition rate_warning :: "nat \<Rightarrow> internal_log \<Rightarrow> internal_log" where
  "rate_warning deleteCount first =
     \<lparr>il_nano = il_nano first, il_timestamp = il_timestamp first, il_isSystem = True,
      il_isStdErr = True, il_serviceId = None,
      il_message = ''Warning: Suppressed '' @ show_nat deleteCount @ '' message(s) due to rate limiting''\<rparr>"

definition limit_buffer :: "nat \<Rightarrow> internal_log list \<Rightarrow> internal_log list" where
  "limit_buffer limit buffer =
     (if length buffer > limit
      then (let deleteCount = length buffer - limit
            in rate_warning deleteCount (hd buffer) # drop deleteCount buffer)
      else buffer)"

definition publish_done :: "write_config \<Rightarrow> bool \<Rightarrow> write_stream \<Rightarrow> write_stream" where
  "publish_done cfg available st =
     (let st1 = st\<lparr>ws_publishScheduled := False\<rparr>
      in if length (ws_buffer st1) > 0 then schedule cfg available st1 else st1)"

text \<open>\<open>tryPublish\<close> up to the point where it waits for the backends.\<close>

definition tryPublish :: "write_config \<Rightarrow> bool \<Rightarrow> write_stream \<Rightarrow> write_stream" where
  "tryPublish cfg available st =
     (if length (ws_buffer st) > 0 \<and> available
      then st\<lparr>ws_batches := ws_batches st @ [limit_buffer (wc_bufferLimit cfg) (ws_buffer st)],
              ws_buffer := [], ws_paused := False, ws_publishing := True\<rparr>
      else publish_done cfg available st)"

text \<open>
  The callbacks: a log from the parser, the timer, and the end of a publication.  A publication that
  fails only answers the request with an error.  The flag is whether the backend is available when the
  callback runs.
\<close>

datatype write_event = WLog internal_log bool | WTimer bool | WPublished bool | WFailed

fun write_step :: "write_config \<Rightarrow> write_event \<Rightarrow> write_stream \<Rightarrow> write_stream option" where
  "write_step cfg (WLog l available) st = Some (onData cfg l available st)"
| "write_step cfg (WTimer available) st =
     (if ws_timer st = None then None else Some (tryPublish cfg available (st\<lparr>ws_timer := None\<rparr>)))"
| "write_step cfg (WPublished available) st =
     (if ws_publishing st then Some (publish_done cfg available (st\<lparr>ws_publishing := False\<rparr>)) else None)"
| "write_step cfg WFailed st =
     (if ws_publishing st then Some (st\<lparr>ws_publishing := False\<rparr>) else None)"

fun write_run :: "write_config \<Rightarrow> write_event list \<Rightarrow> write_stream \<Rightarrow> write_stream option" where
  "write_run cfg [] st = Some st"
| "write_run cfg (ev # evs) st = Option.bind (write_step cfg ev st) (write_run cfg evs)"

fun event_logs :: "write_event list \<Rightarrow> internal_log list" where
  "event_logs [] = []"
| "event_logs (WLog l _ # evs) = l # event_logs evs"
| "event_logs (_ # evs) = event_logs evs"

section \<open>The log backend\<close>

record redis_db =
  rd_lists :: "string \<Rightarrow> string list"
  rd_counters :: "string \<Rightarrow> int option"
  rd_expiries :: "string \<Rightarrow> int option"
  rd_messages :: "(string \<times> string) list"

definition redis_key :: "log_context \<Rightarrow> string \<Rightarrow> string" where
  "redis_key ctx sfx = ''{device:'' @ show_int (ctx_id ctx) @ ''}:'' @ sfx"

text \<open>\<^verbatim>\<open>ltrim key -limit -1\<close>: with limit 0 the list stays whole.\<close>

definition ltrim_last :: "nat \<Rightarrow> string list \<Rightarrow> string list" where
  "ltrim_last limit xs = (if limit = 0 then xs else drop (length xs - limit) xs)"

definition publishLogs ::
  "int \<Rightarrow> string \<Rightarrow> string \<Rightarrow> string \<Rightarrow> string list \<Rightarrow> int \<Rightarrow> nat \<Rightarrow> redis_db \<Rightarrow> redis_db"
where
  "publishLogs KEY_EXPIRATION logsKey bytesKey subscribersKey logs bytesWritten limit db =
     (let db1 = db\<lparr>rd_lists := (rd_lists db)(logsKey := ltrim_last limit (rd_lists db logsKey @ logs))\<rparr>;
          db2 = (if rd_counters db1 subscribersKey \<noteq> None
                 then db1\<lparr>rd_messages := rd_messages db1 @ map (\<lambda>l. (logsKey, l)) logs\<rparr> else db1)
      in db2\<lparr>rd_counters := (rd_counters db2)(bytesKey \<mapsto>
               (case rd_counters db2 bytesKey of None \<Rightarrow> 0 | Some n \<Rightarrow> n) + bytesWritten),
             rd_expiries := (rd_expiries db2)(logsKey \<mapsto> KEY_EXPIRATION, bytesKey \<mapsto> KEY_EXPIRATION)\<rparr>)"

definition incrSubscribers :: "int \<Rightarrow> string \<Rightarrow> redis_db \<Rightarrow> redis_db" where
  "incrSubscribers expiry key db =
     db\<lparr>rd_counters := (rd_counters db)(key \<mapsto> (case rd_counters db key of None \<Rightarrow> 0 | Some n \<Rightarrow> n) + 1),
        rd_expiries := (rd_expiries db)(key \<mapsto> expiry)\<rparr>"

definition decrSubscribers :: "string \<Rightarrow> redis_db \<Rightarrow> int \<times> redis_db" where
  "decrSubscribers key db =
     (let current = (case rd_counters db key of None \<Rightarrow> 0 | Some n \<Rightarrow> n) - 1
      in (current, if current \<le> 0 then db\<lparr>rd_counters := (rd_counters db)(key := None)\<rparr>
                   else db\<lparr>rd_counters := (rd_counters db)(key \<mapsto> current)\<rparr>))"

text \<open>
  One process: its listeners and heartbeats by key, and the shared database.  \<open>encode\<close> and \<open>decode\<close>
  are the serialization of logs.
\<close>

record redis_backend =
  rb_listeners :: "string \<Rightarrow> nat list"
  rb_heartbeats :: "string \<Rightarrow> int option"
  rb_channels :: "string set"
  rb_db :: redis_db

record redis_config =
  rf_key_expiration :: int
  rf_subscription_expiry :: int
  rf_heartbeat_interval :: int

definition redis_history ::
  "(string \<Rightarrow> output_log option) \<Rightarrow> bool \<Rightarrow> log_context \<Rightarrow> history_opts \<Rightarrow> redis_backend \<Rightarrow> output_log list res"
where
  "redis_history decode conn ctx opts rb =
     (if \<not> conn then Inl (ServiceUnavailableError [])
      else
        let xs = rd_lists (rb_db rb) (redis_key ctx ''logs'');
            payloads = (if ho_count opts \<le> 0 then drop (nat (- ho_count opts)) xs
                        else drop (length xs - nat (ho_count opts)) xs)
        in Inr (filter (\<lambda>l. log_createdAt l \<ge> ho_start opts) (List.map_filter decode payloads)))"

definition redis_publish ::
  "redis_config \<Rightarrow> (internal_log \<Rightarrow> string res) \<Rightarrow> bool \<Rightarrow> log_context \<Rightarrow> internal_log list \<Rightarrow>
   redis_backend \<Rightarrow> redis_backend res"
where
  "redis_publish cfg encode conn ctx logs rb =
     (if \<not> conn then Inl (ServiceUnavailableError [])
      else res_bind (res_all encode logs) (\<lambda>redisLogs.
        Inr (rb\<lparr>rb_db := publishLogs (rf_key_expiration cfg) (redis_key ctx ''logs'')
                 (redis_key ctx ''logBytesWritten'') (redis_key ctx ''subscribers'') redisLogs
                 (int (sum_list (map length redisLogs))) (ctx_retention_limit ctx) (rb_db rb)\<rparr>)))"

definition redis_subscribe ::
  "redis_config \<Rightarrow> bool \<Rightarrow> log_context \<Rightarrow> nat \<Rightarrow> redis_backend \<Rightarrow> redis_backend"
where
  "redis_subscribe cfg conn ctx subscription rb =
     (if \<not> conn then rb
      else
        let key = redis_key ctx ''logs'';
            rb1 = (if rb_listeners rb key = []
                   then rb\<lparr>rb_channels := insert key (rb_channels rb),
                           rb_db := incrSubscribers (rf_subscription_expiry cfg)
                             (redis_key ctx ''subscribers'') (rb_db rb),
                           rb_heartbeats := (rb_heartbeats rb)(key \<mapsto> rf_heartbeat_interval cfg)\<rparr>
                   else rb)
        in rb1\<lparr>rb_listeners := (rb_listeners rb1)(key := rb_listeners rb1 key @ [subscription])\<rparr>)"

definition redis_unsubscribe :: "log_context \<Rightarrow> nat \<Rightarrow> redis_backend \<Rightarrow> redis_backend" where
  "redis_unsubscribe ctx subscription rb =
     (let key = redis_key ctx ''logs'';
          rb1 = rb\<lparr>rb_listeners := (rb_listeners rb)(key := rev (remove1 subscription (rev (rb_listeners rb key))))\<rparr>
      in if rb_listeners rb1 key = []
         then rb1\<lparr>rb_heartbeats := (rb_heartbeats rb1)(key := None),
                  rb_db := snd (decrSubscribers (redis_key ctx ''subscribers'') (rb_db rb1)),
                  rb_channels := rb_channels rb1 - {key}\<rparr>
         else rb1)"

section \<open>What the write stream guarantees\<close>

text \<open>
  The flag and what it stands for: something is scheduled when the timer is pending or a publication
  is running, and a log that waits always has one of the two unless a publication failed.
\<close>

definition write_inv :: "bool \<Rightarrow> write_stream \<Rightarrow> bool" where
  "write_inv failed st \<longleftrightarrow>
     (ws_buffer st \<noteq> [] \<longrightarrow> ws_publishScheduled st) \<and>
     (ws_paused st \<longrightarrow> ws_buffer st \<noteq> []) \<and>
     (ws_timer st \<noteq> None \<or> ws_publishing st \<longrightarrow> ws_publishScheduled st) \<and>
     \<not> (ws_timer st \<noteq> None \<and> ws_publishing st) \<and>
     (if failed then ws_publishScheduled st \<and> ws_timer st = None \<and> \<not> ws_publishing st
      else ws_publishScheduled st \<longrightarrow> ws_timer st \<noteq> None \<or> ws_publishing st)"

lemma write_inv_start: "write_inv False write_start"
  by (simp add: write_inv_def write_start_def)

lemmas write_defs = onData_def schedule_def tryPublish_def publish_done_def Let_def

lemma write_inv_step:
  assumes "write_inv failed st" and "write_step cfg ev st = Some st'"
  shows "write_inv (failed \<or> ev = WFailed) st'"
proof (cases ev)
  case (WLog l a)
  then show ?thesis
    using assms by (cases failed) (auto simp: write_inv_def write_defs split: if_splits)
next
  case (WTimer a)
  then show ?thesis
    using assms by (cases failed) (auto simp: write_inv_def write_defs split: if_splits)
next
  case (WPublished a)
  then show ?thesis
    using assms by (cases failed) (auto simp: write_inv_def write_defs split: if_splits)
next
  case WFailed
  then show ?thesis
    using assms by (cases failed) (auto simp: write_inv_def split: if_splits)
qed

lemma write_inv_run:
  "write_inv failed st \<Longrightarrow> write_run cfg evs st = Some st' \<Longrightarrow> write_inv (failed \<or> WFailed \<in> set evs) st'"
proof (induction evs arbitrary: st failed)
  case (Cons ev evs)
  obtain st1 where st1: "write_step cfg ev st = Some st1" "write_run cfg evs st1 = Some st'"
    using Cons.prems(2) by (auto simp: bind_eq_Some_conv)
  have "write_inv ((failed \<or> ev = WFailed) \<or> WFailed \<in> set evs) st'"
    by (rule Cons.IH [OF write_inv_step [OF Cons.prems(1) st1(1)] st1(2)])
  then show ?case
    by (auto simp: eq_commute [of ev] disj_assoc)
qed simp

text \<open>Every log received is in exactly one batch or waits in the buffer, in the order of arrival.\<close>

definition accounts :: "write_config \<Rightarrow> internal_log list \<Rightarrow> write_stream \<Rightarrow> bool" where
  "accounts cfg ls st \<longleftrightarrow>
     (\<exists>segs. (\<forall>s\<in>set segs. s \<noteq> []) \<and> ws_batches st = map (limit_buffer (wc_bufferLimit cfg)) segs \<and>
             concat segs @ ws_buffer st = ls)"

lemma accounts_step:
  assumes acc: "accounts cfg ls st" and step: "write_step cfg ev st = Some st'"
  shows "accounts cfg (ls @ event_logs [ev]) st'"
proof -
  obtain segs where segs: "\<forall>s\<in>set segs. s \<noteq> []"
    "ws_batches st = map (limit_buffer (wc_bufferLimit cfg)) segs" "concat segs @ ws_buffer st = ls"
    using acc by (auto simp: accounts_def)
  have quiet: "accounts cfg ls u"
    if "ws_batches u = ws_batches st" "ws_buffer u = ws_buffer st" for u
    using that acc by (simp add: accounts_def)
  show ?thesis
  proof (cases ev)
    case (WLog l a)
    then have "ws_batches st' = ws_batches st" "ws_buffer st' = ws_buffer st @ [l]"
      using step by (auto simp: write_defs)
    then show ?thesis
      using segs WLog unfolding accounts_def by (intro exI [of _ segs]) simp
  next
    case (WTimer a)
    show ?thesis
    proof (cases "ws_buffer st \<noteq> [] \<and> a")
      case True
      then have "ws_batches st' = map (limit_buffer (wc_bufferLimit cfg)) (segs @ [ws_buffer st])"
        "ws_buffer st' = []"
        using step WTimer segs by (auto simp: write_defs split: if_splits)
      then show ?thesis
        using segs(1,3) True WTimer unfolding accounts_def
        by (intro exI [of _ "segs @ [ws_buffer st]"]) simp
    next
      case False
      then show ?thesis
        using step WTimer by (auto simp: write_defs split: if_splits intro!: quiet)
    qed
  next
    case (WPublished a)
    then show ?thesis
      using step by (auto simp: write_defs split: if_splits intro!: quiet)
  next
    case WFailed
    then show ?thesis
      using step by (auto split: if_splits intro!: quiet)
  qed
qed

lemma event_logs_Cons: "event_logs (ev # evs) = event_logs [ev] @ event_logs evs"
  by (cases ev) auto

lemma accounts_run:
  "accounts cfg ls st \<Longrightarrow> write_run cfg evs st = Some st' \<Longrightarrow> accounts cfg (ls @ event_logs evs) st'"
proof (induction evs arbitrary: st ls)
  case (Cons ev evs)
  obtain st1 where st1: "write_step cfg ev st = Some st1" "write_run cfg evs st1 = Some st'"
    using Cons.prems(2) by (auto simp: bind_eq_Some_conv)
  have "accounts cfg ((ls @ event_logs [ev]) @ event_logs evs) st'"
    by (rule Cons.IH [OF accounts_step [OF Cons.prems(1) st1(1)] st1(2)])
  then show ?case
    by (simp add: event_logs_Cons [of ev evs])
qed simp

lemma accounts_start: "accounts cfg [] write_start"
  by (simp add: accounts_def write_start_def)

lemma limit_buffer_length: "length (limit_buffer n xs) \<le> Suc n"
  by (simp add: limit_buffer_def Let_def)

lemma limit_buffer_nonempty: "xs \<noteq> [] \<Longrightarrow> limit_buffer n xs \<noteq> []"
  by (simp add: limit_buffer_def Let_def)

text \<open>
  Claim C22. A write stream publishes what it receives: after any sequence of callbacks the logs
  received are, in their order, the segments published so far followed by the buffer, where each batch
  is its segment or, over the limit, a warning and the segment's tail; no batch is empty or has more
  than one entry above the limit.  And while no publication has failed the stream cannot get stuck:
  if logs wait or the request is paused, exactly one of the timer and a running publication will
  resume it.
\<close>

theorem write_stream_delivers:
  assumes "write_run cfg evs write_start = Some st"
  shows "(\<exists>segs. concat segs @ ws_buffer st = event_logs evs \<and>
            ws_batches st = map (limit_buffer (wc_bufferLimit cfg)) segs) \<and>
         list_all (\<lambda>b. b \<noteq> [] \<and> length b \<le> wc_bufferLimit cfg + 1) (ws_batches st) \<and>
         (WFailed \<notin> set evs \<longrightarrow> ws_buffer st \<noteq> [] \<or> ws_paused st \<longrightarrow>
            (ws_timer st \<noteq> None) \<noteq> ws_publishing st)"
proof -
  have acc: "accounts cfg (event_logs evs) st"
    using accounts_run [OF accounts_start assms] by simp
  have inv: "write_inv (WFailed \<in> set evs) st"
    using write_inv_run [OF write_inv_start assms] by simp
  obtain segs where segs: "\<forall>s\<in>set segs. s \<noteq> []" "concat segs @ ws_buffer st = event_logs evs"
    "ws_batches st = map (limit_buffer (wc_bufferLimit cfg)) segs"
    using acc by (auto simp: accounts_def)
  have "list_all (\<lambda>b. b \<noteq> [] \<and> length b \<le> wc_bufferLimit cfg + 1) (ws_batches st)"
    using segs(1) by (auto simp: segs(3) list_all_iff limit_buffer_length limit_buffer_nonempty)
  moreover have "WFailed \<notin> set evs \<Longrightarrow> ws_buffer st \<noteq> [] \<or> ws_paused st \<Longrightarrow>
      (ws_timer st \<noteq> None) \<noteq> ws_publishing st"
    using inv by (auto simp: write_inv_def)
  ultimately show ?thesis
    using segs(2,3) by blast
qed

definition test_cfg :: write_config where
  "test_cfg = \<lparr>wc_bufferLimit = 1, wc_flush_interval = 500, wc_unavailable_interval = 5000\<rparr>"

definition test_log :: "string \<Rightarrow> internal_log" where
  "test_log m = \<lparr>il_nano = 1, il_timestamp = 2, il_isSystem = False, il_isStdErr = False,
     il_serviceId = None, il_message = m\<rparr>"

lemma test_run:
  "write_run test_cfg [WLog (test_log ''a'') True, WLog (test_log ''b'') True, WTimer True,
     WLog (test_log ''c'') True] write_start =
   Some \<lparr>ws_buffer = [test_log ''c''], ws_publishScheduled = True, ws_timer = None,
     ws_publishing = True, ws_paused = True,
     ws_batches = [[rate_warning 1 (test_log ''a''), test_log ''b'']]\<rparr>"
  by (simp add: write_start_def test_cfg_def write_defs limit_buffer_def)

theorem write_stream_delivers_witness:
  "\<exists>segs. concat segs @ [test_log ''c''] = [test_log ''a'', test_log ''b'', test_log ''c''] \<and>
     [[rate_warning 1 (test_log ''a''), test_log ''b'']] = map (limit_buffer 1) segs"
  using write_stream_delivers [OF test_run] by (simp add: test_cfg_def)

lemma failed_batches:
  assumes "write_inv True st" and "write_step cfg ev st = Some st'"
  shows "ws_batches st' = ws_batches st"
  using assms by (cases ev) (auto simp: write_inv_def write_defs split: if_splits)

lemma failed_run_batches:
  "write_inv True st \<Longrightarrow> write_run cfg evs st = Some st' \<Longrightarrow> ws_batches st' = ws_batches st"
proof (induction evs arbitrary: st)
  case (Cons ev evs)
  obtain st1 where st1: "write_step cfg ev st = Some st1" "write_run cfg evs st1 = Some st'"
    using Cons.prems(2) by (auto simp: bind_eq_Some_conv)
  have "write_inv True st1"
    using write_inv_step [OF Cons.prems(1) st1(1)] by simp
  then show ?case
    using Cons.IH [OF _ st1(2)] failed_batches [OF Cons.prems(1) st1(1)] by simp
qed simp

text \<open>
  One failed publication ends the delivery for good: \<^verbatim>\<open>publishScheduled\<close> stays set with no
  timer behind it, so whatever arrives on the stream afterwards, and however available the backend
  is, no batch is published any more.
\<close>

lemma failed_publish_stops_stream:
  assumes "write_run cfg evs1 write_start = Some st1"
      and "write_run cfg (WFailed # evs2) st1 = Some st"
  shows "ws_batches st = ws_batches st1 \<and> ws_publishScheduled st"
proof -
  obtain st2 where st2: "write_step cfg WFailed st1 = Some st2" "write_run cfg evs2 st2 = Some st"
    using assms(2) by (auto simp: bind_eq_Some_conv)
  have "write_inv True st2"
    using write_inv_step [OF write_inv_run [OF write_inv_start assms(1)] st2(1)] by simp
  moreover have "ws_batches st2 = ws_batches st1"
    using st2(1) by (auto split: if_splits)
  moreover have "write_inv True st"
    using write_inv_run [OF calculation(1) st2(2)] by simp
  ultimately show ?thesis
    using failed_run_batches [OF _ st2(2)] by (simp add: write_inv_def)
qed

lemma test_run_failed:
  "write_run test_cfg [WFailed, WLog (test_log ''d'') True]
     \<lparr>ws_buffer = [test_log ''c''], ws_publishScheduled = True, ws_timer = None,
     ws_publishing = True, ws_paused = True,
     ws_batches = [[rate_warning 1 (test_log ''a''), test_log ''b'']]\<rparr> =
   Some \<lparr>ws_buffer = [test_log ''c'', test_log ''d''], ws_publishScheduled = True, ws_timer = None,
     ws_publishing = False, ws_paused = True,
     ws_batches = [[rate_warning 1 (test_log ''a''), test_log ''b'']]\<rparr>"
  by (simp add: test_cfg_def write_defs)

section \<open>What the backend guarantees\<close>

lemma ltrim_last_take: "0 < n \<Longrightarrow> ltrim_last n xs = drop (length xs - n) xs"
  by (simp add: ltrim_last_def)

text \<open>
  The logs of a device, as the database holds them after publications: the last \<open>limit\<close> of everything
  ever published.
\<close>

lemma publish_keeps_last:
  assumes "0 < n" and "xs = drop (length all - n) all"
  shows "ltrim_last n (xs @ ys) = drop (length (all @ ys) - n) (all @ ys)"
  using assms by (cases "length all \<le> n") (auto simp: ltrim_last_take drop_drop add.commute)

fun redis_publish_all ::
  "redis_config \<Rightarrow> (internal_log \<Rightarrow> string res) \<Rightarrow> log_context \<Rightarrow> internal_log list list \<Rightarrow>
   redis_backend \<Rightarrow> redis_backend res"
where
  "redis_publish_all cfg encode ctx [] rb = Inr rb"
| "redis_publish_all cfg encode ctx (b # bs) rb =
     res_bind (redis_publish cfg encode True ctx b rb) (redis_publish_all cfg encode ctx bs)"

lemma redis_publish_lists:
  assumes "redis_publish cfg encode c ctx b rb = Inr rb'"
  shows "\<exists>ps. res_all encode b = Inr ps \<and>
           rd_lists (rb_db rb') (redis_key ctx ''logs'') =
             ltrim_last (ctx_retention_limit ctx) (rd_lists (rb_db rb) (redis_key ctx ''logs'') @ ps)"
  using assms
  by (auto simp: redis_publish_def publishLogs_def Let_def res_bind_Inr_iff split: if_splits)

lemma res_bind_assoc: "res_bind (res_bind m f) g = res_bind m (\<lambda>x. res_bind (f x) g)"
  by (cases m) auto

lemma res_bind_Inr_right: "res_bind m Inr = m"
  by (cases m) auto

lemma res_all_append_Inr:
  "res_all f (xs @ ys) = res_bind (res_all f xs) (\<lambda>us. res_bind (res_all f ys) (\<lambda>vs. Inr (us @ vs)))"
  by (induction xs) (auto simp: res_bind_assoc res_bind_Inr_right intro!: arg_cong2 [where f = res_bind] ext)

lemma redis_publish_all_lists:
  assumes "redis_publish_all cfg encode ctx bs rb = Inr rb'" and "0 < ctx_retention_limit ctx"
      and "rd_lists (rb_db rb) (redis_key ctx ''logs'') = drop (length all - ctx_retention_limit ctx) all"
  shows "\<exists>ps. res_all encode (concat bs) = Inr ps \<and>
           rd_lists (rb_db rb') (redis_key ctx ''logs'') =
             drop (length (all @ ps) - ctx_retention_limit ctx) (all @ ps)"
  using assms
proof (induction bs arbitrary: rb all)
  case (Cons b bs)
  obtain rb1 where rb1: "redis_publish cfg encode True ctx b rb = Inr rb1"
    "redis_publish_all cfg encode ctx bs rb1 = Inr rb'"
    using Cons.prems(1) by (auto simp: res_bind_Inr_iff)
  obtain ps where ps: "res_all encode b = Inr ps"
    "rd_lists (rb_db rb1) (redis_key ctx ''logs'') =
       ltrim_last (ctx_retention_limit ctx) (rd_lists (rb_db rb) (redis_key ctx ''logs'') @ ps)"
    using redis_publish_lists [OF rb1(1)] by blast
  have "rd_lists (rb_db rb1) (redis_key ctx ''logs'') =
          drop (length (all @ ps) - ctx_retention_limit ctx) (all @ ps)"
    using ps(2) publish_keeps_last [OF Cons.prems(2,3)] Cons.prems(3) by simp
  from Cons.IH [OF rb1(2) Cons.prems(2) this] obtain qs where
    "res_all encode (concat bs) = Inr qs"
    "rd_lists (rb_db rb') (redis_key ctx ''logs'') =
       drop (length ((all @ ps) @ qs) - ctx_retention_limit ctx) ((all @ ps) @ qs)"
    by blast
  then show ?case
    using ps(1) by (auto simp: res_all_append_Inr)
qed auto

lemma map_filter_decoded:
  "list_all2 (\<lambda>x y. decode y = Some (f x)) xs ys \<Longrightarrow> List.map_filter decode ys = map f xs"
  by (induction rule: list_all2_induct) (auto simp: map_filter_simps)

text \<open>
  What is published can be read back, in order, within the retention limit: once batches
  have been published for a device that had no logs, its history is the last \<^verbatim>\<open>count\<close> of the last
  \<^verbatim>\<open>retention_limit\<close> logs of all the batches, without those created before the requested start.
\<close>

lemma redis_history_reads_back:
  assumes "redis_publish_all cfg encode ctx bs rb = Inr rb'" and "0 < ctx_retention_limit ctx"
      and "rd_lists (rb_db rb) (redis_key ctx ''logs'') = []"
      and "\<And>l p. encode l = Inr p \<Longrightarrow> decode p = Some (out l)"
      and "0 < ho_count opts"
  shows "redis_history decode True ctx opts rb' =
           Inr (filter (\<lambda>l. log_createdAt l \<ge> ho_start opts)
                  (map out (drop (length (concat bs) - min (nat (ho_count opts)) (ctx_retention_limit ctx)) (concat bs))))"
proof -
  obtain ps where ps: "res_all encode (concat bs) = Inr ps"
    "rd_lists (rb_db rb') (redis_key ctx ''logs'') = drop (length ps - ctx_retention_limit ctx) ps"
    using redis_publish_all_lists [of cfg encode ctx bs rb rb' "[]"] assms(1-3) by auto
  have dec: "list_all2 (\<lambda>x y. decode y = Some (out x)) (concat bs) ps"
    using res_all_Inr [OF ps(1)] by (rule list_all2_mono) (rule assms(4))
  let ?k = "min (nat (ho_count opts)) (ctx_retention_limit ctx)"
  have len: "length (concat bs) = length ps"
    using dec by (rule list_all2_lengthD)
  have "drop (length (drop (length ps - ctx_retention_limit ctx) ps) - nat (ho_count opts))
          (drop (length ps - ctx_retention_limit ctx) ps) = drop (length ps - ?k) ps"
    by (auto simp: drop_drop min_def intro!: arg_cong [where f = "\<lambda>n. drop n ps"])
  moreover have "List.map_filter decode (drop (length ps - ?k) ps) =
      map out (drop (length ps - ?k) (concat bs))"
    using dec by (intro map_filter_decoded list_all2_dropI)
  ultimately show ?thesis
    using ps(2) assms(5) by (simp only: redis_history_def len Let_def simp_thms if_False not_le [symmetric] if_not_P)
qed

definition test_ctx :: log_context where
  "test_ctx = \<lparr>ctx_id = 7, ctx_uuid = ''u'', ctx_retention_limit = 2\<rparr>"

definition test_redis :: redis_config where
  "test_redis = \<lparr>rf_key_expiration = 100, rf_subscription_expiry = 90, rf_heartbeat_interval = 30\<rparr>"

definition test_backend :: "(string \<Rightarrow> int option) \<Rightarrow> redis_backend" where
  "test_backend counters =
     \<lparr>rb_listeners = (\<lambda>_. []), rb_heartbeats = (\<lambda>_. None), rb_channels = {},
      rb_db = \<lparr>rd_lists = (\<lambda>_. []), rd_counters = counters, rd_expiries = (\<lambda>_. None), rd_messages = []\<rparr>\<rparr>"

text \<open>
  A subscription made while the database was unreachable takes another process's subscriber
  away when it ends: if one other process watches the device, a process that subscribes while
  disconnected and then unsubscribes removes the subscriber counter, and from then on publications of
  the device's logs notify nobody.
\<close>

lemma disconnected_subscription_silences:
  assumes "rb_listeners rb (redis_key ctx ''logs'') = []"
      and "rd_counters (rb_db rb) (redis_key ctx ''subscribers'') = Some 1"
      and "redis_publish cfg encode True ctx ls
             (redis_unsubscribe ctx s (redis_subscribe cfg False ctx s rb)) = Inr rb'"
  shows "rd_messages (rb_db rb') = rd_messages (rb_db rb)"
  using assms
  by (auto simp: redis_publish_def redis_unsubscribe_def redis_subscribe_def decrSubscribers_def
      publishLogs_def Let_def res_bind_Inr_iff)

text \<open>With the connection up the subscription counts itself and takes only itself away.\<close>

lemma connected_subscription_balanced:
  assumes "rb_listeners rb (redis_key ctx ''logs'') = []"
      and "rd_counters (rb_db rb) (redis_key ctx ''subscribers'') = Some n" "0 < n"
  shows "rd_counters (rb_db (redis_unsubscribe ctx s (redis_subscribe cfg True ctx s rb)))
           (redis_key ctx ''subscribers'') = Some n"
  using assms
  by (simp add: redis_unsubscribe_def redis_subscribe_def decrSubscribers_def incrSubscribers_def Let_def)


end
