(* ===== verification/DeviceHeartbeat.thy ===== *)
theory DeviceHeartbeat
  imports Utils
begin

text \<open>
  The heartbeat state of devices (\<^verbatim>\<open>src/features/device-heartbeat/index.ts\<close>).  Each poll of a device
  marks it online and leaves a delayed message that will mark it timed out; consuming that message
  leaves another one that will mark it offline.  The next poll removes the message still pending.

  The queue, redis and the database are fields of the environment; the locale
  \<open>heartbeat_services\<close> states what they do when they work, over views of the world: the database
  state and cache entry of each device and the messages pending in the queue.  Times are in
  milliseconds, delays in seconds as in the source.
\<close>

section \<open>Poll interval\<close>

definition POLL_JITTER_FACTOR :: rat where
  "POLL_JITTER_FACTOR = 3 / 2"

definition config_poll_interval :: "string obj \<Rightarrow> string option" where
  "config_poll_interval config =
     (case map_of config ''RESIN_SUPERVISOR_POLL_INTERVAL'' of
        Some v \<Rightarrow> Some v
      | None \<Rightarrow> map_of config ''BALENA_SUPERVISOR_POLL_INTERVAL'')"

definition poll_interval_of :: "int \<Rightarrow> string option \<Rightarrow> rat" where
  "poll_interval_of DEFAULT_SUPERVISOR_POLL_INTERVAL pollIntervalString =
     of_int (case pollIntervalString of
               None \<Rightarrow> DEFAULT_SUPERVISOR_POLL_INTERVAL
             | Some s \<Rightarrow> max (case parseInt10 s of None \<Rightarrow> 0 | Some n \<Rightarrow> n) DEFAULT_SUPERVISOR_POLL_INTERVAL)
     * POLL_JITTER_FACTOR"

text \<open>The two queries return the values found, the one to use first.\<close>

definition getPollInterval ::
  "int \<Rightarrow> (int \<Rightarrow> ('w, string list) io) \<Rightarrow> (int \<Rightarrow> ('w, string list) io) \<Rightarrow> int \<Rightarrow>
   string obj option \<Rightarrow> ('w, rat) io"
where
  "getPollInterval DEFAULT_POLL getPollIntervalForDevice getPollIntervalForParentApplication deviceId config =
     (case config of
        Some c \<Rightarrow> io_return (poll_interval_of DEFAULT_POLL (config_poll_interval c))
      | None \<Rightarrow>
          io_bind (getPollIntervalForDevice deviceId) (\<lambda>vs.
            case vs of
              v # _ \<Rightarrow> io_return (poll_interval_of DEFAULT_POLL (Some v))
            | [] \<Rightarrow>
                io_bind (getPollIntervalForParentApplication deviceId) (\<lambda>us.
                  io_return (poll_interval_of DEFAULT_POLL (case us of [] \<Rightarrow> None | u # _ \<Rightarrow> Some u)))))"

section \<open>States and messages\<close>

datatype online_state = Unknown | Timeout | Offline | Online

record manager_message =
  mm_id :: string
  mm_currentState :: online_state
  mm_updatedAt :: "int option"

record 'w hb_env =
  he_enabled :: bool
  he_cache_timeout :: "int option"
  he_timeout_seconds :: int
  he_now :: "'w \<Rightarrow> int"
  he_get :: "int \<Rightarrow> ('w, manager_message option) io"
  he_set :: "int \<Rightarrow> manager_message \<Rightarrow> int \<Rightarrow> ('w, unit) io"
  he_del :: "int \<Rightarrow> ('w, unit) io"
  he_send :: "int \<Rightarrow> online_state \<Rightarrow> int \<Rightarrow> ('w, string) io"
  he_receive :: "('w, (string \<times> int \<times> online_state) option) io"
  he_delete_message :: "string \<Rightarrow> ('w, unit) io"
  he_patch_device :: "int \<Rightarrow> online_state \<Rightarrow> int \<Rightarrow> ('w, unit) io"
  he_emit_change :: "int \<Rightarrow> online_state \<Rightarrow> exn option \<Rightarrow> 'w \<Rightarrow> 'w"
  he_wait :: "int \<Rightarrow> 'w \<Rightarrow> 'w"

section \<open>The state manager\<close>

text \<open>
  \<open>he_patch_device d s t\<close> sets the state of the device to \<open>s\<close> with the change date \<open>t\<close>, unless it is
  \<open>s\<close> already.  The event is emitted whether the patch worked or not.
\<close>

definition updateDeviceModel :: "'w hb_env \<Rightarrow> int \<Rightarrow> online_state \<Rightarrow> ('w, unit) io" where
  "updateDeviceModel env deviceId newState w =
     (case he_patch_device env deviceId newState (he_now env w) w of
        (r, w') \<Rightarrow> (r, he_emit_change env deviceId newState (case r of Inl e \<Rightarrow> Some e | Inr _ \<Rightarrow> None) w'))"

definition getDeviceOnlineState :: "'w hb_env \<Rightarrow> int \<Rightarrow> ('w, manager_message option) io" where
  "getDeviceOnlineState env deviceId = io_catch (he_get env deviceId) (\<lambda>_. io_return None)"

definition carry_updatedAt ::
  "int option \<Rightarrow> manager_message option \<Rightarrow> online_state \<Rightarrow> int option \<Rightarrow> int option"
where
  "carry_updatedAt cache_timeout previous currentState updatedAt =
     (case previous of
        None \<Rightarrow> updatedAt
      | Some p \<Rightarrow>
          (if cache_timeout \<noteq> None \<and> mm_currentState p = currentState
           then (case updatedAt of None \<Rightarrow> mm_updatedAt p | Some t \<Rightarrow> Some t) else updatedAt))"

definition scheduleChangeOfStateForDevice ::
  "'w hb_env \<Rightarrow> int \<Rightarrow> manager_message option \<Rightarrow> online_state \<Rightarrow> online_state \<Rightarrow> int \<Rightarrow> int option \<Rightarrow>
   ('w, unit) io"
where
  "scheduleChangeOfStateForDevice env deviceId previousManagerState currentState nextState delay updatedAt =
     io_bind
       (case previousManagerState of
          None \<Rightarrow> io_return ()
        | Some p \<Rightarrow> io_catch (he_delete_message env (mm_id p)) (\<lambda>_. io_return ()))
       (\<lambda>_. io_bind (he_send env deviceId nextState delay) (\<lambda>newId.
         he_set env deviceId
           \<lparr>mm_id = newId, mm_currentState = currentState,
            mm_updatedAt = carry_updatedAt (he_cache_timeout env) previousManagerState currentState updatedAt\<rparr>
           (delay + 5)))"

definition needs_update :: "int option \<Rightarrow> manager_message option \<Rightarrow> int \<Rightarrow> bool" where
  "needs_update cache_timeout previous now \<longleftrightarrow>
     (case previous of
        None \<Rightarrow> True
      | Some p \<Rightarrow> mm_currentState p \<noteq> Online \<or>
          (case cache_timeout of
             None \<Rightarrow> False
           | Some c \<Rightarrow> (case mm_updatedAt p of None \<Rightarrow> True | Some t \<Rightarrow> now > t + c)))"

definition captureEventFor :: "'w hb_env \<Rightarrow> int \<Rightarrow> rat \<Rightarrow> ('w, unit) io" where
  "captureEventFor env deviceId timeoutSeconds =
     (if \<not> he_enabled env then io_return ()
      else io_bind (getDeviceOnlineState env deviceId) (\<lambda>previous.
        io_bind
          (\<lambda>w. if needs_update (he_cache_timeout env) previous (he_now env w)
               then io_bind (updateDeviceModel env deviceId Online)
                      (\<lambda>_ w'. (Inr (if he_cache_timeout env \<noteq> None then Some (he_now env w') else None), w')) w
               else (Inr None, w))
          (\<lambda>updatedAt.
            scheduleChangeOfStateForDevice env deviceId previous Online Timeout \<lceil>timeoutSeconds\<rceil> updatedAt)))"

text \<open>The schedule of the offline message is not awaited: its errors go nowhere.\<close>

definition handle_message :: "'w hb_env \<Rightarrow> string \<Rightarrow> int \<Rightarrow> online_state \<Rightarrow> ('w, unit) io" where
  "handle_message env msg_id deviceId nextState =
     io_bind
       (case nextState of
          Timeout \<Rightarrow>
            io_bind (updateDeviceModel env deviceId Timeout) (\<lambda>_.
              io_bind (getDeviceOnlineState env deviceId) (\<lambda>previous.
                io_catch (scheduleChangeOfStateForDevice env deviceId previous Timeout Offline
                            (he_timeout_seconds env) None)
                  (\<lambda>_. io_return ())))
        | Offline \<Rightarrow>
            io_bind (updateDeviceModel env deviceId Offline) (\<lambda>_. he_del env deviceId)
        | _ \<Rightarrow> io_throw (JsError ''An unexpected value was encountered for the target device state''))
       (\<lambda>_. he_delete_message env msg_id)"

text \<open>One round of the consumer; whatever happens it goes on to the next.\<close>

definition consume :: "'w hb_env \<Rightarrow> 'w \<Rightarrow> 'w" where
  "consume env w =
     snd (io_catch
       (io_bind (he_receive env) (\<lambda>msg.
          case msg of
            None \<Rightarrow> (\<lambda>w'. (Inr (), he_wait env 1000 w'))
          | Some (msg_id, deviceId, nextState) \<Rightarrow>
              io_catch (handle_message env msg_id deviceId nextState) (\<lambda>_. io_return ())))
       (\<lambda>_. io_return ()) w)"

text \<open>The listener of state requests; errors are reported only.\<close>

definition on_get_state ::
  "'w hb_env \<Rightarrow> (string \<Rightarrow> ('w, bool) io) \<Rightarrow> (int \<Rightarrow> string obj option \<Rightarrow> ('w, rat) io) \<Rightarrow> int \<Rightarrow>
   string option \<Rightarrow> string obj option \<Rightarrow> 'w \<Rightarrow> 'w"
where
  "on_get_state env isDeviceApiKey poll_interval deviceId key config w =
     snd (io_catch
       (case key of
          None \<Rightarrow> io_return ()
        | Some k \<Rightarrow> io_bind (isDeviceApiKey k) (\<lambda>ok.
            if \<not> ok then io_return ()
            else io_bind (poll_interval deviceId config) (\<lambda>pollInterval.
              captureEventFor env deviceId (pollInterval / 1000))))
       (\<lambda>_. io_return ()) w)"

text \<open>\<open>start\<close> answers whether this call begins to consume.\<close>

definition hb_start :: "bool \<Rightarrow> bool \<Rightarrow> bool" where
  "hb_start isConsuming featureIsEnabled \<longleftrightarrow> \<not> (isConsuming \<or> \<not> featureIsEnabled)"

section \<open>Runs\<close>

text \<open>What happens to the manager: a poll is captured, the consumer does a round, time passes.\<close>

datatype hb_event = Polled int rat | Consumed | Waited nat

fun hb_step :: "'w hb_env \<Rightarrow> hb_event \<Rightarrow> 'w \<Rightarrow> 'w" where
  "hb_step env (Polled d t) w = snd (captureEventFor env d t w)"
| "hb_step env Consumed w = consume env w"
| "hb_step env (Waited n) w = he_wait env (int n) w"

fun hb_run :: "'w hb_env \<Rightarrow> hb_event list \<Rightarrow> 'w \<Rightarrow> 'w" where
  "hb_run env [] w = w"
| "hb_run env (e # es) w = hb_run env es (hb_step env e w)"

lemma hb_run_append: "hb_run env (xs @ ys) w = hb_run env ys (hb_run env xs w)"
  by (induction xs arbitrary: w) auto

section \<open>Services that work\<close>

text \<open>
  Views of a world: \<open>db\<close>, the state of each device in the database; \<open>entry\<close>, the value last set for it
  with the time it expires; \<open>pending\<close>, the messages of the queue with the time they become visible.

  In a sane world the queue only holds the two kinds of messages the code sends, and what an entry
  says of a device that is online is true in the database.
\<close>

definition hb_sane ::
  "('w \<Rightarrow> int \<Rightarrow> online_state) \<Rightarrow> ('w \<Rightarrow> int \<Rightarrow> (manager_message \<times> int) option) \<Rightarrow>
   ('w \<Rightarrow> string \<Rightarrow> (int \<times> online_state \<times> int) option) \<Rightarrow> 'w \<Rightarrow> bool"
where
  "hb_sane db entry pending w \<longleftrightarrow> finite (dom (pending w)) \<and>
     (\<forall>i d s t. pending w i = Some (d, s, t) \<longrightarrow> s = Timeout \<or> s = Offline) \<and>
     (\<forall>d m t. entry w d = Some (m, t) \<and> mm_currentState m = Online \<longrightarrow> db w d = Online)"

text \<open>
  One message is pending for the device, due at \<open>t\<close> and asking for state \<open>s\<close>; the entry of the
  device, and no other entry, names it.
\<close>

definition hb_watched ::
  "('w \<Rightarrow> int \<Rightarrow> (manager_message \<times> int) option) \<Rightarrow> ('w \<Rightarrow> string \<Rightarrow> (int \<times> online_state \<times> int) option) \<Rightarrow>
   'w \<Rightarrow> int \<Rightarrow> online_state \<Rightarrow> int \<Rightarrow> bool"
where
  "hb_watched entry pending w d s t \<longleftrightarrow>
     (\<exists>i. pending w i = Some (d, s, t) \<and> (\<forall>j s' t'. pending w j = Some (d, s', t') \<longrightarrow> j = i) \<and>
        (\<forall>d' m e. entry w d' = Some (m, e) \<longrightarrow> (mm_id m = i) = (d' = d)))"

text \<open>Nothing pending for the device, and no entry.\<close>

definition hb_settled ::
  "('w \<Rightarrow> int \<Rightarrow> (manager_message \<times> int) option) \<Rightarrow> ('w \<Rightarrow> string \<Rightarrow> (int \<times> online_state \<times> int) option) \<Rightarrow>
   'w \<Rightarrow> int \<Rightarrow> bool"
where
  "hb_settled entry pending w d \<longleftrightarrow> entry w d = None \<and> (\<forall>i s t. pending w i \<noteq> Some (d, s, t))"

text \<open>What the services do when they work; a received message is hidden for \<open>vt\<close> milliseconds.\<close>

locale heartbeat_services =
  fixes env :: "'w hb_env"
    and db :: "'w \<Rightarrow> int \<Rightarrow> online_state"
    and entry :: "'w \<Rightarrow> int \<Rightarrow> (manager_message \<times> int) option"
    and pending :: "'w \<Rightarrow> string \<Rightarrow> (int \<times> online_state \<times> int) option"
    and vt :: int
  assumes vt: "0 < vt"
    and get: "he_get env d w =
      (Inr (case entry w d of None \<Rightarrow> None | Some (m, t) \<Rightarrow> if he_now env w < t then Some m else None), w)"
    and set: "\<exists>w'. he_set env d m ex w = (Inr (), w') \<and> db w' = db w \<and> pending w' = pending w \<and>
      he_now env w' = he_now env w \<and> entry w' = (entry w)(d \<mapsto> (m, he_now env w + ex * 1000))"
    and del: "\<exists>w'. he_del env d w = (Inr (), w') \<and> db w' = db w \<and> pending w' = pending w \<and>
      he_now env w' = he_now env w \<and> entry w' = (entry w)(d := None)"
    and send: "\<exists>w' i. he_send env d s delay w = (Inr i, w') \<and> db w' = db w \<and> entry w' = entry w \<and>
      he_now env w' = he_now env w \<and> pending w i = None \<and> (\<forall>d' m t. entry w d' = Some (m, t) \<longrightarrow> mm_id m \<noteq> i) \<and>
      pending w' = (pending w)(i \<mapsto> (d, s, he_now env w + delay * 1000))"
    and delete: "\<exists>w'. he_delete_message env i w = (Inr (), w') \<and> db w' = db w \<and> entry w' = entry w \<and>
      he_now env w' = he_now env w \<and> pending w' = (pending w)(i := None)"
    and receive: "\<exists>w' r. he_receive env w = (Inr r, w') \<and> db w' = db w \<and> entry w' = entry w \<and>
      he_now env w' = he_now env w \<and>
      (case r of
         None \<Rightarrow> pending w' = pending w \<and> (\<forall>i d s t. pending w i = Some (d, s, t) \<longrightarrow> he_now env w < t)
       | Some (i, d, s) \<Rightarrow> \<exists>t. pending w i = Some (d, s, t) \<and> t \<le> he_now env w \<and>
           pending w' = (pending w)(i \<mapsto> (d, s, he_now env w + vt)))"
    and patch: "\<exists>w'. he_patch_device env d s date w = (Inr (), w') \<and> db w' = (db w)(d := s) \<and>
      entry w' = entry w \<and> pending w' = pending w \<and> he_now env w' = he_now env w"
    and emit: "db (he_emit_change env d s e w) = db w" "entry (he_emit_change env d s e w) = entry w"
      "pending (he_emit_change env d s e w) = pending w" "he_now env (he_emit_change env d s e w) = he_now env w"
    and wait: "db (he_wait env n w) = db w" "entry (he_wait env n w) = entry w"
      "pending (he_wait env n w) = pending w" "he_now env (he_wait env n w) = he_now env w + n"
begin

abbreviation sane :: "'w \<Rightarrow> bool" where "sane \<equiv> hb_sane db entry pending"

abbreviation watched :: "'w \<Rightarrow> int \<Rightarrow> online_state \<Rightarrow> int \<Rightarrow> bool" where
  "watched \<equiv> hb_watched entry pending"

abbreviation settled :: "'w \<Rightarrow> int \<Rightarrow> bool" where "settled \<equiv> hb_settled entry pending"

lemmas sane_def = hb_sane_def [of db entry pending]
lemmas watched_def = hb_watched_def [of entry pending]
lemmas settled_def = hb_settled_def [of entry pending]

text \<open>The entry the code sees.\<close>

definition live :: "'w \<Rightarrow> int \<Rightarrow> manager_message option" where
  "live w d = (case entry w d of None \<Rightarrow> None | Some (m, t) \<Rightarrow> if he_now env w < t then Some m else None)"

lemma getDeviceOnlineState: "getDeviceOnlineState env d w = (Inr (live w d), w)"
  by (simp add: getDeviceOnlineState_def io_catch_def get live_def)

lemma update:
  "\<exists>w'. updateDeviceModel env d s w = (Inr (), w') \<and> db w' = (db w)(d := s) \<and>
     entry w' = entry w \<and> pending w' = pending w \<and> he_now env w' = he_now env w"
  using patch [of d s "he_now env w" w] by (auto simp: updateDeviceModel_def emit)

text \<open>The messages left after the previous one of the entry has been deleted.\<close>

definition without :: "manager_message option \<Rightarrow> 'w \<Rightarrow> string \<Rightarrow> (int \<times> online_state \<times> int) option" where
  "without p w = (case p of None \<Rightarrow> pending w | Some m \<Rightarrow> (pending w)(mm_id m := None))"

lemma schedule:
  "\<exists>w' i u. scheduleChangeOfStateForDevice env d p cur nxt delay updatedAt w = (Inr (), w') \<and>
     db w' = db w \<and> he_now env w' = he_now env w \<and> without p w i = None \<and>
     (\<forall>d' m t. entry w d' = Some (m, t) \<longrightarrow> mm_id m \<noteq> i) \<and>
     pending w' = (without p w)(i \<mapsto> (d, nxt, he_now env w + delay * 1000)) \<and>
     entry w' = (entry w)(d \<mapsto> (\<lparr>mm_id = i, mm_currentState = cur, mm_updatedAt = u\<rparr>,
       he_now env w + (delay + 5) * 1000))"
proof -
  obtain w1 where w1: "(case p of None \<Rightarrow> io_return ()
      | Some p \<Rightarrow> io_catch (he_delete_message env (mm_id p)) (\<lambda>_. io_return ())) w = (Inr (), w1)"
    "db w1 = db w" "entry w1 = entry w" "he_now env w1 = he_now env w" "pending w1 = without p w"
  proof (cases p)
    case None
    then show ?thesis using that by (simp add: io_return_def without_def)
  next
    case (Some m)
    then show ?thesis using that delete [of "mm_id m" w] by (auto simp: io_catch_def without_def)
  qed
  obtain w2 i where w2: "he_send env d nxt delay w1 = (Inr i, w2)" "db w2 = db w1" "entry w2 = entry w1"
    "he_now env w2 = he_now env w1" "pending w1 i = None" "\<forall>d' m t. entry w1 d' = Some (m, t) \<longrightarrow> mm_id m \<noteq> i"
    "pending w2 = (pending w1)(i \<mapsto> (d, nxt, he_now env w1 + delay * 1000))"
    using send [of d nxt delay w1] by blast
  let ?m = "\<lparr>mm_id = i, mm_currentState = cur,
      mm_updatedAt = carry_updatedAt (he_cache_timeout env) p cur updatedAt\<rparr>"
  obtain w3 where w3: "he_set env d ?m (delay + 5) w2 = (Inr (), w3)" "db w3 = db w2"
    "pending w3 = pending w2" "he_now env w3 = he_now env w2"
    "entry w3 = (entry w2)(d \<mapsto> (?m, he_now env w2 + (delay + 5) * 1000))"
    using set [of d ?m "delay + 5" w2] by blast
  show ?thesis
    using w1(2-) w2(2-) w3(2-)
    by (simp only: scheduleChangeOfStateForDevice_def io_bind_def w1(1) w2(1) w3(1) prod.case sum.case) auto
qed

lemma capture:
  assumes "he_enabled env"
  shows "\<exists>w' i u. captureEventFor env d t w = (Inr (), w') \<and> he_now env w' = he_now env w \<and>
    db w' = (if needs_update (he_cache_timeout env) (live w d) (he_now env w) then (db w)(d := Online) else db w) \<and>
    without (live w d) w i = None \<and> (\<forall>d' m t. entry w d' = Some (m, t) \<longrightarrow> mm_id m \<noteq> i) \<and>
    pending w' = (without (live w d) w)(i \<mapsto> (d, Timeout, he_now env w + \<lceil>t\<rceil> * 1000)) \<and>
    entry w' = (entry w)(d \<mapsto> (\<lparr>mm_id = i, mm_currentState = Online, mm_updatedAt = u\<rparr>,
      he_now env w + (\<lceil>t\<rceil> + 5) * 1000))"
proof -
  let ?upd = "needs_update (he_cache_timeout env) (live w d) (he_now env w)"
  obtain w1 where w1: "updateDeviceModel env d Online w = (Inr (), w1)" "db w1 = (db w)(d := Online)"
    "entry w1 = entry w" "pending w1 = pending w" "he_now env w1 = he_now env w"
    using update [of d Online w] by blast
  define w2 where "w2 = (if ?upd then w1 else w)"
  define u where "u = (if ?upd \<and> he_cache_timeout env \<noteq> None then Some (he_now env w1) else None)"
  have run: "captureEventFor env d t w =
      scheduleChangeOfStateForDevice env d (live w d) Online Timeout \<lceil>t\<rceil> u w2"
    by (simp add: captureEventFor_def assms io_bind_def getDeviceOnlineState w1(1) w2_def u_def)
  have same: "entry w2 = entry w" "pending w2 = pending w" "he_now env w2 = he_now env w"
    "without (live w d) w2 = without (live w d) w"
    "db w2 = (if ?upd then (db w)(d := Online) else db w)"
    using w1 by (auto simp: w2_def without_def split: option.splits)
  show ?thesis
    unfolding run using schedule [of d "live w d" Online Timeout "\<lceil>t\<rceil>" u w2] unfolding same by blast
qed

definition hidden :: "string \<Rightarrow> int \<Rightarrow> online_state \<Rightarrow> 'w \<Rightarrow> string \<Rightarrow> (int \<times> online_state \<times> int) option" where
  "hidden i d s w = (pending w)(i \<mapsto> (d, s, he_now env w + vt))"

lemma consume_none:
  assumes "he_receive env w = (Inr None, w1)" "db w1 = db w" "entry w1 = entry w" "pending w1 = pending w"
    "he_now env w1 = he_now env w"
  shows "db (consume env w) = db w" "entry (consume env w) = entry w" "pending (consume env w) = pending w"
    "he_now env (consume env w) = he_now env w + 1000"
  using assms by (simp_all add: consume_def io_catch_def io_bind_def wait)

lemma consume_offline:
  assumes rc: "he_receive env w = (Inr (Some (i, d, Offline)), w1)" "db w1 = db w" "entry w1 = entry w"
    "pending w1 = hidden i d Offline w" "he_now env w1 = he_now env w"
  shows "db (consume env w) = (db w)(d := Offline) \<and> entry (consume env w) = (entry w)(d := None) \<and>
    pending (consume env w) = (pending w)(i := None) \<and> he_now env (consume env w) = he_now env w"
proof -
  obtain w2 where w2: "updateDeviceModel env d Offline w1 = (Inr (), w2)" "db w2 = (db w1)(d := Offline)"
    "entry w2 = entry w1" "pending w2 = pending w1" "he_now env w2 = he_now env w1"
    using update [of d Offline w1] by blast
  obtain w3 where w3: "he_del env d w2 = (Inr (), w3)" "db w3 = db w2" "pending w3 = pending w2"
    "he_now env w3 = he_now env w2" "entry w3 = (entry w2)(d := None)"
    using del [of d w2] by blast
  obtain w4 where w4: "he_delete_message env i w3 = (Inr (), w4)" "db w4 = db w3" "entry w4 = entry w3"
    "he_now env w4 = he_now env w3" "pending w4 = (pending w3)(i := None)"
    using delete [of i w3] by blast
  have "consume env w = w4"
    by (simp add: consume_def io_catch_def io_bind_def rc(1) handle_message_def w2(1) w3(1) w4(1))
  then show ?thesis
    using rc w2 w3 w4 by (simp add: hidden_def)
qed

lemma consume_timeout:
  assumes rc: "he_receive env w = (Inr (Some (i, d, Timeout)), w1)" "db w1 = db w" "entry w1 = entry w"
    "pending w1 = hidden i d Timeout w" "he_now env w1 = he_now env w"
  shows "\<exists>j u. j \<noteq> i \<and> (pending w j = None \<or> (\<exists>m. live w d = Some m \<and> mm_id m = j)) \<and>
    (\<forall>d' m t. entry w d' = Some (m, t) \<longrightarrow> mm_id m \<noteq> j) \<and>
    db (consume env w) = (db w)(d := Timeout) \<and> he_now env (consume env w) = he_now env w \<and>
    entry (consume env w) = (entry w)(d \<mapsto> (\<lparr>mm_id = j, mm_currentState = Timeout, mm_updatedAt = u\<rparr>,
      he_now env w + (he_timeout_seconds env + 5) * 1000)) \<and>
    pending (consume env w) =
      ((without (live w d) w)(j \<mapsto> (d, Offline, he_now env w + he_timeout_seconds env * 1000)))(i := None)"
proof -
  obtain w2 where w2: "updateDeviceModel env d Timeout w1 = (Inr (), w2)" "db w2 = (db w1)(d := Timeout)"
    "entry w2 = entry w1" "pending w2 = pending w1" "he_now env w2 = he_now env w1"
    using update [of d Timeout w1] by blast
  have live2: "live w2 d = live w d"
    by (simp only: live_def rc(3,5) w2(3,5))
  obtain w3 j u where w3: "scheduleChangeOfStateForDevice env d (live w2 d) Timeout Offline
      (he_timeout_seconds env) None w2 = (Inr (), w3)" "db w3 = db w2" "he_now env w3 = he_now env w2"
    "without (live w2 d) w2 j = None" "\<forall>d' m t. entry w2 d' = Some (m, t) \<longrightarrow> mm_id m \<noteq> j"
    "pending w3 = (without (live w2 d) w2)(j \<mapsto> (d, Offline, he_now env w2 + he_timeout_seconds env * 1000))"
    "entry w3 = (entry w2)(d \<mapsto> (\<lparr>mm_id = j, mm_currentState = Timeout, mm_updatedAt = u\<rparr>,
       he_now env w2 + (he_timeout_seconds env + 5) * 1000))"
    using schedule [of d "live w2 d" Timeout Offline "he_timeout_seconds env" None w2] by blast
  obtain w4 where w4: "he_delete_message env i w3 = (Inr (), w4)" "db w4 = db w3" "entry w4 = entry w3"
    "he_now env w4 = he_now env w3" "pending w4 = (pending w3)(i := None)"
    using delete [of i w3] by blast
  have "consume env w = w4"
    by (simp add: consume_def io_catch_def io_bind_def rc(1) handle_message_def w2(1) getDeviceOnlineState
        w3(1) w4(1))
  moreover have "j \<noteq> i"
    using w3(4,5) w2(3,4) rc(3,4)
    by (auto simp: without_def hidden_def live_def split: option.splits if_splits prod.splits)
  moreover have "(without (live w2 d) w2)(i := None) = (without (live w d) w)(i := None)"
    unfolding live2 without_def using w2(4) rc(4) by (auto simp: hidden_def fun_eq_iff split: option.splits)
  moreover have "pending w j = None \<or> (\<exists>m. live w d = Some m \<and> mm_id m = j)"
    using w3(4) calculation(2) unfolding live2 without_def using w2(4) rc(4)
    by (auto simp: hidden_def split: option.splits if_splits)
  ultimately show ?thesis
    using rc w2 w3(2,3,5-) w4 by (intro exI [of _ j] exI [of _ u]) (auto simp: fun_upd_twist)
qed

lemma sane_fields:
  assumes "sane w" "dom (pending w') \<subseteq> insert i (dom (pending w))"
    "\<And>k d s t. pending w' k = Some (d, s, t) \<Longrightarrow> pending w k = Some (d, s, t) \<or> s = Timeout \<or> s = Offline"
    "\<And>d m t. entry w' d = Some (m, t) \<Longrightarrow> mm_currentState m = Online \<Longrightarrow> db w' d = Online"
  shows "sane w'"
proof -
  have "finite (dom (pending w'))"
    using assms(1,2) finite_subset [of "dom (pending w')"] by (simp add: sane_def)
  then show ?thesis
    using assms(1,3,4) unfolding sane_def by blast
qed

lemma without_le: "without p w k = Some x \<Longrightarrow> pending w k = Some x"
  by (auto simp: without_def split: option.splits if_splits)

lemma live_entry: "live w d = Some m \<Longrightarrow> \<exists>t. entry w d = Some (m, t)"
  by (auto simp: live_def split: option.splits if_splits)

lemma not_needs_update: "\<not> needs_update c p n \<Longrightarrow> \<exists>m. p = Some m \<and> mm_currentState m = Online"
  by (auto simp: needs_update_def split: option.splits)

lemma capture_online:
  assumes "he_enabled env" "sane w"
  shows "db (hb_step env (Polled d t) w) = (db w)(d := Online)"
proof -
  have "db w d = Online" if "\<not> needs_update (he_cache_timeout env) (live w d) (he_now env w)"
    using not_needs_update [OF that] live_entry [of w d] assms(2) by (auto simp: sane_def)
  then show ?thesis
    using capture [OF assms(1), of d t w] by (auto simp: fun_eq_iff)
qed

lemma sane_poll:
  assumes "he_enabled env" "sane w"
  shows "sane (hb_step env (Polled d t) w)"
proof -
  obtain w' i u where c: "captureEventFor env d t w = (Inr (), w')"
    "pending w' = (without (live w d) w)(i \<mapsto> (d, Timeout, he_now env w + \<lceil>t\<rceil> * 1000))"
    "entry w' = (entry w)(d \<mapsto> (\<lparr>mm_id = i, mm_currentState = Online, mm_updatedAt = u\<rparr>,
      he_now env w + (\<lceil>t\<rceil> + 5) * 1000))"
    using capture [OF assms(1), of d t w] by blast
  have db: "db w' = (db w)(d := Online)"
    using capture_online [OF assms, of d t] c(1) by simp
  show ?thesis
  proof (rule sane_fields [OF assms(2), of _ i])
    show "dom (pending (hb_step env (Polled d t) w)) \<subseteq> insert i (dom (pending w))"
      using c(1,2) by (auto simp: dom_def dest: without_le split: if_splits)
  next
    fix d' m t'
    assume "entry (hb_step env (Polled d t) w) d' = Some (m, t')" "mm_currentState m = Online"
    then show "db (hb_step env (Polled d t) w) d' = Online"
      using c db assms(2) by (auto simp: sane_def split: if_splits)
  qed (use c in \<open>auto dest: without_le split: if_splits\<close>)
qed

lemma received_cases [consumes 1, case_names idle offline timeout]:
  assumes "sane w"
  obtains (idle) "\<forall>i d s t. pending w i = Some (d, s, t) \<longrightarrow> he_now env w < t"
      "db (consume env w) = db w" "entry (consume env w) = entry w" "pending (consume env w) = pending w"
      "he_now env (consume env w) = he_now env w + 1000"
    | (offline) i d t where "pending w i = Some (d, Offline, t)" "t \<le> he_now env w"
      "db (consume env w) = (db w)(d := Offline)" "entry (consume env w) = (entry w)(d := None)"
      "pending (consume env w) = (pending w)(i := None)" "he_now env (consume env w) = he_now env w"
    | (timeout) i d t j u where "pending w i = Some (d, Timeout, t)" "t \<le> he_now env w" "j \<noteq> i"
      "pending w j = None \<or> (\<exists>m. live w d = Some m \<and> mm_id m = j)"
      "\<forall>d' m t. entry w d' = Some (m, t) \<longrightarrow> mm_id m \<noteq> j"
      "db (consume env w) = (db w)(d := Timeout)" "he_now env (consume env w) = he_now env w"
      "entry (consume env w) = (entry w)(d \<mapsto> (\<lparr>mm_id = j, mm_currentState = Timeout, mm_updatedAt = u\<rparr>,
        he_now env w + (he_timeout_seconds env + 5) * 1000))"
      "pending (consume env w) =
        ((without (live w d) w)(j \<mapsto> (d, Offline, he_now env w + he_timeout_seconds env * 1000)))(i := None)"
proof -
  obtain w1 r where r: "he_receive env w = (Inr r, w1)" "db w1 = db w" "entry w1 = entry w"
    "he_now env w1 = he_now env w"
    "case r of
       None \<Rightarrow> pending w1 = pending w \<and> (\<forall>i d s t. pending w i = Some (d, s, t) \<longrightarrow> he_now env w < t)
     | Some (i, d, s) \<Rightarrow> \<exists>t. pending w i = Some (d, s, t) \<and> t \<le> he_now env w \<and>
         pending w1 = (pending w)(i \<mapsto> (d, s, he_now env w + vt))"
    using receive [of w] by blast
  show ?thesis
  proof (cases r)
    case None
    then show ?thesis
      using r consume_none [of w w1] by (intro idle) auto
  next
    case (Some x)
    obtain i d s where x: "x = (i, d, s)" by (cases x)
    obtain t where t: "pending w i = Some (d, s, t)" "t \<le> he_now env w" "pending w1 = hidden i d s w"
      using r(5) Some x by (auto simp: hidden_def)
    have rc: "he_receive env w = (Inr (Some (i, d, s)), w1)"
      using r(1) Some x by simp
    have "s = Timeout \<or> s = Offline"
      using t(1) assms unfolding sane_def by blast
    then show ?thesis
    proof
      assume s: "s = Timeout"
      show ?thesis
        using consume_timeout [OF rc [unfolded s] r(2,3) t(3) [unfolded s] r(4)] t(1,2) s timeout by metis
    next
      assume s: "s = Offline"
      show ?thesis
        using consume_offline [OF rc [unfolded s] r(2,3) t(3) [unfolded s] r(4)] t(1,2) s offline by metis
    qed
  qed
qed

lemma sane_consume:
  assumes "sane w"
  shows "sane (consume env w)"
  using assms
proof (cases rule: received_cases)
  case idle
  with assms show ?thesis by (simp add: sane_def)
next
  case (offline i d t)
  show ?thesis
  proof (rule sane_fields [OF assms, of _ i])
    fix d' m t'
    assume "entry (consume env w) d' = Some (m, t')" "mm_currentState m = Online"
    then show "db (consume env w) d' = Online"
      using offline assms by (auto simp: sane_def split: if_splits)
  qed (use offline in \<open>auto split: if_splits\<close>)
next
  case (timeout i d t j u)
  show ?thesis
  proof (rule sane_fields [OF assms, of _ j])
    show "dom (pending (consume env w)) \<subseteq> insert j (dom (pending w))"
      using timeout by (auto simp: dom_def dest: without_le split: if_splits)
  next
    fix d' m t'
    assume "entry (consume env w) d' = Some (m, t')" "mm_currentState m = Online"
    then show "db (consume env w) d' = Online"
      using timeout assms by (auto simp: sane_def split: if_splits)
  qed (use timeout in \<open>auto dest: without_le split: if_splits\<close>)
qed

lemma sane_step:
  assumes "he_enabled env" "sane w"
  shows "sane (hb_step env e w)"
proof (cases e)
  case (Polled d t)
  then show ?thesis using sane_poll [OF assms] by simp
next
  case Consumed
  then show ?thesis using sane_consume [OF assms(2)] by simp
next
  case (Waited n)
  then show ?thesis using assms(2) by (simp add: sane_def wait)
qed

lemma sane_run: "he_enabled env \<Longrightarrow> sane w \<Longrightarrow> sane (hb_run env es w)"
  by (induction es arbitrary: w) (auto simp: sane_step)

lemma now_step: "he_enabled env \<Longrightarrow> sane w \<Longrightarrow> he_now env w \<le> he_now env (hb_step env e w)"
proof (cases e)
  case (Polled d t)
  assume "he_enabled env"
  then show ?thesis using Polled capture [of d t w] by auto
next
  case Consumed
  assume "sane w"
  then show ?thesis using Consumed by (cases rule: received_cases) auto
next
  case (Waited n)
  then show ?thesis by (simp add: wait)
qed

lemma now_run: "he_enabled env \<Longrightarrow> sane w \<Longrightarrow> he_now env w \<le> he_now env (hb_run env es w)"
proof (induction es arbitrary: w)
  case (Cons e es)
  then have "he_now env w \<le> he_now env (hb_step env e w)"
      "he_now env (hb_step env e w) \<le> he_now env (hb_run env es (hb_step env e w))"
    by (simp_all add: now_step sane_step)
  then show ?case by simp
qed simp

lemma watchedI:
  assumes "pending w i = Some (d, s, t)" "\<And>j s' e. pending w j = Some (d, s', e) \<Longrightarrow> j = i"
    "\<And>d' m e. entry w d' = Some (m, e) \<Longrightarrow> (mm_id m = i) = (d' = d)"
  shows "watched w d s t"
  using assms unfolding watched_def by blast

lemma watched_other:
  assumes "watched w d s t" "d' \<noteq> d" "without (live w d') w i = None \<or> pending w i = None"
    "\<forall>k m e. entry w k = Some (m, e) \<longrightarrow> mm_id m \<noteq> i"
    "pending w' = (without (live w d') w)(i \<mapsto> (d', s', t'))"
    "entry w' = (entry w)(d' \<mapsto> (m', e'))" "mm_id m' = i"
  shows "watched w' d s t"
proof -
  obtain k where k: "pending w k = Some (d, s, t)" "\<forall>j s' t'. pending w j = Some (d, s', t') \<longrightarrow> j = k"
    "\<forall>d' m e. entry w d' = Some (m, e) \<longrightarrow> (mm_id m = k) = (d' = d)"
    using assms(1) by (auto simp: watched_def)
  have live: "live w d' = Some m \<Longrightarrow> mm_id m \<noteq> k" for m
    using live_entry [of w d' m] k(3) assms(2) by blast
  then have keep: "without (live w d') w k = Some (d, s, t)"
    using k(1) by (auto simp: without_def split: option.splits)
  then have "i \<noteq> k"
    using assms(3) k(1) by auto
  then show ?thesis
    unfolding watched_def using keep k(2,3) assms(2,4-)
    by (intro exI [of _ k]) (auto dest: without_le split: if_splits)
qed

lemma capture_watched_other:
  assumes "he_enabled env" "watched w d s t" "d' \<noteq> d"
  shows "watched (hb_step env (Polled d' t') w) d s t"
proof -
  obtain w' i u where c: "captureEventFor env d' t' w = (Inr (), w')"
    "without (live w d') w i = None" "\<forall>k m e. entry w k = Some (m, e) \<longrightarrow> mm_id m \<noteq> i"
    "pending w' = (without (live w d') w)(i \<mapsto> (d', Timeout, he_now env w + \<lceil>t'\<rceil> * 1000))"
    "entry w' = (entry w)(d' \<mapsto> (\<lparr>mm_id = i, mm_currentState = Online, mm_updatedAt = u\<rparr>,
      he_now env w + (\<lceil>t'\<rceil> + 5) * 1000))"
    using capture [OF assms(1), of d' t' w] by blast
  show ?thesis
    using watched_other [OF assms(2,3) disjI1 [OF c(2)] c(3-5)] c(1) by simp
qed

text \<open>
  A poll leaves exactly one message when the previous one, if there is any, is the one of an entry
  that has not expired.
\<close>

lemma capture_watched:
  assumes "he_enabled env"
    and "settled w d \<or> (\<exists>s t m. watched w d s t \<and> live w d = Some m)"
  shows "watched (hb_step env (Polled d r) w) d Timeout (he_now env w + \<lceil>r\<rceil> * 1000)"
proof -
  obtain w' i u where c: "captureEventFor env d r w = (Inr (), w')"
    "without (live w d) w i = None" "\<forall>k m e. entry w k = Some (m, e) \<longrightarrow> mm_id m \<noteq> i"
    "pending w' = (without (live w d) w)(i \<mapsto> (d, Timeout, he_now env w + \<lceil>r\<rceil> * 1000))"
    "entry w' = (entry w)(d \<mapsto> (\<lparr>mm_id = i, mm_currentState = Online, mm_updatedAt = u\<rparr>,
      he_now env w + (\<lceil>r\<rceil> + 5) * 1000))"
    using capture [OF assms(1), of d r w] by blast
  have none: "without (live w d) w j \<noteq> Some (d, s', t')" for j s' t'
    using assms(2)
  proof
    assume "settled w d"
    then show ?thesis using without_le [of "live w d" w j] by (auto simp: settled_def)
  next
    assume "\<exists>s t m. watched w d s t \<and> live w d = Some m"
    then obtain s t m where m: "watched w d s t" "live w d = Some m"
      by blast
    obtain e where "entry w d = Some (m, e)"
      using live_entry [OF m(2)] by blast
    then have "pending w j = Some (d, s', t') \<Longrightarrow> j = mm_id m"
      using m(1) unfolding watched_def by blast
    then show ?thesis using m(2) by (auto simp: without_def)
  qed
  show ?thesis
    unfolding watched_def using c(1) none c(3-5)
    by (intro exI [of _ i]) (auto split: if_splits)
qed

lemma consume_watched:
  assumes "sane w" "watched w d s t"
  shows "(watched (consume env w) d s t \<and> db (consume env w) d = db w d) \<or>
    (t \<le> he_now env w \<and> s = Timeout \<and> db (consume env w) d = Timeout \<and>
       watched (consume env w) d Offline (he_now env w + he_timeout_seconds env * 1000)) \<or>
    (t \<le> he_now env w \<and> s = Offline \<and> db (consume env w) d = Offline \<and> settled (consume env w) d)"
proof -
  obtain k where k: "pending w k = Some (d, s, t)" "\<forall>j s' t'. pending w j = Some (d, s', t') \<longrightarrow> j = k"
    "\<forall>d' m e. entry w d' = Some (m, e) \<longrightarrow> (mm_id m = k) = (d' = d)"
    using assms(2) by (auto simp: watched_def)
  show ?thesis
    using assms(1)
  proof (cases rule: received_cases)
    case idle
    then show ?thesis using assms(2) by (simp add: watched_def)
  next
    case (offline i d' t')
    show ?thesis
    proof (cases "i = k")
      case True
      have eq: "d' = d" "s = Offline" "t' = t" using True k(1) offline(1) by auto
      have "settled (consume env w) d"
        unfolding settled_def offline(4,5) using k(2) True eq(1) by auto
      then show ?thesis using offline(2,3) eq by simp
    next
      case False
      then have "d' \<noteq> d" using k(2) offline(1) by auto
      moreover have "watched (consume env w) d s t"
      proof (rule watchedI [of _ k])
        show "pending (consume env w) k = Some (d, s, t)" using False k(1) offline(5) by simp
      next
        fix j s' e assume "pending (consume env w) j = Some (d, s', e)"
        then have "pending w j = Some (d, s', e)" by (simp add: offline(5) split: if_splits)
        then show "j = k" using k(2) by blast
      next
        fix d'' m e assume "entry (consume env w) d'' = Some (m, e)"
        then have "entry w d'' = Some (m, e)" by (simp add: offline(4) split: if_splits)
        then show "(mm_id m = k) = (d'' = d)" using k(3) by blast
      qed
      ultimately show ?thesis using offline(3) by simp
    qed
  next
    case (timeout i d' t' j u)
    show ?thesis
    proof (cases "i = k")
      case True
      have eq: "d' = d" "s = Timeout" "t' = t" using True k(1) timeout(1) by auto
      have "watched (consume env w) d Offline (he_now env w + he_timeout_seconds env * 1000)"
      proof (rule watchedI [of _ j])
        show "pending (consume env w) j = Some (d, Offline, he_now env w + he_timeout_seconds env * 1000)"
          using timeout(3,9) eq(1) by simp
      next
        fix l s' e assume "pending (consume env w) l = Some (d, s', e)"
        then have "l \<noteq> i \<and> (l = j \<or> pending w l = Some (d, s', e))"
          by (auto simp: timeout(9) dest: without_le split: if_splits)
        then show "l = j" using k(2) True by blast
      next
        fix d'' m e assume "entry (consume env w) d'' = Some (m, e)"
        then show "(mm_id m = j) = (d'' = d)" using timeout(5) by (auto simp: timeout(8) eq(1) split: if_splits)
      qed
      then show ?thesis using timeout eq by simp
    next
      case False
      then have d': "d' \<noteq> d" using k(2) timeout(1) by auto
      have live: "live w d' = Some m \<Longrightarrow> mm_id m \<noteq> k" for m
        using live_entry [of w d' m] k(3) d' by blast
      then have keep: "without (live w d') w k = Some (d, s, t)"
        using k(1) by (auto simp: without_def split: option.splits)
      have "j \<noteq> k" using timeout(4) live k(1) by auto
      then have "watched (consume env w) d s t"
      proof (intro watchedI [of _ k])
        show "pending (consume env w) k = Some (d, s, t)"
          using keep \<open>j \<noteq> k\<close> False by (simp add: timeout(9))
      next
        fix l s' e assume "pending (consume env w) l = Some (d, s', e)"
        then have "pending w l = Some (d, s', e)"
          using d' by (auto simp: timeout(9) dest: without_le split: if_splits)
        then show "l = k" using k(2) by blast
      next
        fix d'' m e assume e: "entry (consume env w) d'' = Some (m, e)"
        show "(mm_id m = k) = (d'' = d)"
        proof (cases "d'' = d'")
          case True
          then show ?thesis using e d' \<open>j \<noteq> k\<close> by (auto simp: timeout(8))
        next
          case False
          then have "entry w d'' = Some (m, e)" using e by (simp add: timeout(8))
          then show ?thesis using k(3) by blast
        qed
      qed
      then show ?thesis using timeout d' by simp
    qed
  qed
qed

text \<open>The messages that can be received now; each round handles one of them.\<close>

definition due :: "'w \<Rightarrow> string set" where
  "due w = {i. \<exists>d s t. pending w i = Some (d, s, t) \<and> t \<le> he_now env w}"

lemma consume_due:
  assumes "sane w" "due w \<noteq> {}" "0 < he_timeout_seconds env"
  shows "card (due (consume env w)) < card (due w) \<and> he_now env (consume env w) = he_now env w"
  using assms(1)
proof (cases rule: received_cases)
  case idle
  then show ?thesis using assms(2) by (force simp: due_def)
next
  case (offline i d t)
  have "due (consume env w) \<subseteq> due w - {i}"
    using offline by (auto simp: due_def split: if_splits)
  moreover have "finite (due w)" "i \<in> due w"
    using assms(1) offline finite_subset [of "due w" "dom (pending w)"] by (auto simp: sane_def due_def)
  ultimately show ?thesis
    using offline psubset_card_mono [of "due w" "due (consume env w)"] by auto
next
  case (timeout i d t j u)
  have "due (consume env w) \<subseteq> due w - {i}"
    using timeout(7,9) assms(3) by (auto simp: due_def dest: without_le split: if_splits)
  moreover have "finite (due w)" "i \<in> due w"
    using assms(1) timeout finite_subset [of "due w" "dom (pending w)"] by (auto simp: sane_def due_def)
  ultimately show ?thesis
    using timeout psubset_card_mono [of "due w" "due (consume env w)"] by auto
qed

lemma consume_until_due:
  assumes "sane w" "watched w d s t" "t \<le> he_now env w" "0 < he_timeout_seconds env"
  shows "\<exists>n. db (hb_run env (replicate n Consumed) w) d = s \<and>
    he_now env (hb_run env (replicate n Consumed) w) = he_now env w \<and>
    (if s = Timeout
     then watched (hb_run env (replicate n Consumed) w) d Offline (he_now env w + he_timeout_seconds env * 1000)
     else settled (hb_run env (replicate n Consumed) w) d)"
  using assms
proof (induction "card (due w)" arbitrary: w rule: less_induct)
  case (less w)
  obtain k where "pending w k = Some (d, s, t)" using less.prems(2) by (auto simp: watched_def)
  then have "due w \<noteq> {}" using less.prems(3) by (auto simp: due_def)
  then have c: "card (due (consume env w)) < card (due w)" "he_now env (consume env w) = he_now env w"
    using consume_due [OF less.prems(1) _ less.prems(4)] by auto
  from consume_watched [OF less.prems(1,2)] show ?case
  proof (elim disjE conjE)
    assume "watched (consume env w) d s t"
    from less.hyps [OF c(1) sane_consume [OF less.prems(1)] this _ less.prems(4), unfolded c(2), OF less.prems(3)]
    obtain n where "db (hb_run env (replicate n Consumed) (consume env w)) d = s \<and>
      he_now env (hb_run env (replicate n Consumed) (consume env w)) = he_now env w \<and>
      (if s = Timeout
       then watched (hb_run env (replicate n Consumed) (consume env w)) d Offline (he_now env w + he_timeout_seconds env * 1000)
       else settled (hb_run env (replicate n Consumed) (consume env w)) d)"
      by blast
    then show ?thesis by (intro exI [of _ "Suc n"]) simp
  next
    assume "s = Timeout" "db (consume env w) d = Timeout"
      "watched (consume env w) d Offline (he_now env w + he_timeout_seconds env * 1000)"
    then show ?thesis using c(2) by (intro exI [of _ "Suc 0"]) simp
  next
    assume "s = Offline" "db (consume env w) d = Offline" "settled (consume env w) d"
    then show ?thesis using c(2) by (intro exI [of _ "Suc 0"]) simp
  qed
qed

lemma sane_consumes: "sane w \<Longrightarrow> sane (hb_run env (replicate n Consumed) w)"
  by (induction n arbitrary: w) (auto simp: sane_consume)

lemma watched_wait: "watched (he_wait env n w) d s t = watched w d s t"
  by (simp add: watched_def wait)

lemma sane_wait: "sane (he_wait env n w) = sane w"
  by (simp add: sane_def wait)

lemma silent_goes_offline:
  assumes "sane w" "watched w d Timeout t" "t \<le> he_now env w" "0 < he_timeout_seconds env"
  shows "\<exists>n m. db (hb_run env (replicate n Consumed) w) d = Timeout \<and>
    db (hb_run env (replicate n Consumed @ Waited (nat (he_timeout_seconds env * 1000)) # replicate m Consumed) w) d = Offline \<and>
    settled (hb_run env (replicate n Consumed @ Waited (nat (he_timeout_seconds env * 1000)) # replicate m Consumed) w) d"
proof -
  obtain n where n: "db (hb_run env (replicate n Consumed) w) d = Timeout"
    "he_now env (hb_run env (replicate n Consumed) w) = he_now env w"
    "watched (hb_run env (replicate n Consumed) w) d Offline (he_now env w + he_timeout_seconds env * 1000)"
    using consume_until_due [OF assms] by auto
  define w1 where "w1 = hb_run env (replicate n Consumed) w"
  define w2 where "w2 = he_wait env (int (nat (he_timeout_seconds env * 1000))) w1"
  have "sane w1" by (simp add: w1_def sane_consumes assms(1))
  then have "sane w2" "watched w2 d Offline (he_now env w + he_timeout_seconds env * 1000)"
    "he_now env w + he_timeout_seconds env * 1000 \<le> he_now env w2"
    using n(2,3) assms(4) by (simp_all add: w2_def w1_def sane_wait watched_wait wait)
  from consume_until_due [OF this assms(4)] obtain m where
    "db (hb_run env (replicate m Consumed) w2) d = Offline" "settled (hb_run env (replicate m Consumed) w2) d"
    by auto
  then show ?thesis
    using n(1) by (intro exI [of _ n] exI [of _ m]) (simp add: hb_run_append w1_def w2_def)
qed

lemma unmarked_before_due:
  assumes "he_enabled env" "sane w" "watched w d s t" "\<forall>r. Polled d r \<notin> set es" "he_now env (hb_run env es w) < t"
  shows "db (hb_run env es w) d = db w d \<and> watched (hb_run env es w) d s t"
  using assms(2-)
proof (induction es arbitrary: w)
  case (Cons e es)
  let ?w = "hb_step env e w"
  have sane: "sane ?w" by (rule sane_step [OF assms(1) Cons.prems(1)])
  have now: "he_now env w < t"
    using now_run [OF assms(1) sane, of es] now_step [OF assms(1) Cons.prems(1), of e] Cons.prems(4) by simp
  have "db ?w d = db w d \<and> watched ?w d s t"
  proof (cases e)
    case (Polled d' r)
    then have "d' \<noteq> d" using Cons.prems(3) by auto
    then show ?thesis
      using Polled capture_online [OF assms(1) Cons.prems(1), of d' r]
        capture_watched_other [OF assms(1) Cons.prems(2)] by (simp del: hb_step.simps)
  next
    case Consumed
    then show ?thesis using consume_watched [OF Cons.prems(1,2)] now by auto
  next
    case (Waited n)
    then show ?thesis using Cons.prems(2) by (simp add: watched_wait wait)
  qed
  then show ?case
    using Cons.IH [OF sane] Cons.prems(3,4) by simp
qed simp

end

section \<open>An in-memory queue and cache\<close>

record hb_world =
  hw_now :: int
  hw_db :: "int \<Rightarrow> online_state"
  hw_entries :: "(int \<times> manager_message \<times> int) list"
  hw_queue :: "(string \<times> int \<times> online_state \<times> int) list"
  hw_changes :: "(int \<times> online_state \<times> bool) list"

definition hw_entry :: "hb_world \<Rightarrow> int \<Rightarrow> (manager_message \<times> int) option" where
  "hw_entry w = map_of (hw_entries w)"

definition hw_pending :: "hb_world \<Rightarrow> string \<Rightarrow> (int \<times> online_state \<times> int) option" where
  "hw_pending w = map_of (hw_queue w)"

definition fresh_id :: "hb_world \<Rightarrow> string" where
  "fresh_id w = replicate (Suc (sum_list (map length (map fst (hw_queue w) @ map (mm_id \<circ> fst \<circ> snd) (hw_entries w))))) CHR ''m''"

definition first_due :: "hb_world \<Rightarrow> string option" where
  "first_due w = List.find (\<lambda>i. case hw_pending w i of None \<Rightarrow> False | Some (d, s, t) \<Rightarrow> t \<le> hw_now w)
     (map fst (hw_queue w))"

definition mem_hb_env :: "hb_world hb_env" where
  "mem_hb_env =
     \<lparr>he_enabled = True, he_cache_timeout = Some 60000, he_timeout_seconds = 15, he_now = hw_now,
      he_get = (\<lambda>d w. (Inr (case hw_entry w d of None \<Rightarrow> None
          | Some (m, t) \<Rightarrow> if hw_now w < t then Some m else None), w)),
      he_set = (\<lambda>d m ex w. (Inr (), w\<lparr>hw_entries := obj_set d (m, hw_now w + ex * 1000) (hw_entries w)\<rparr>)),
      he_del = (\<lambda>d w. (Inr (), w\<lparr>hw_entries := obj_delete d (hw_entries w)\<rparr>)),
      he_send = (\<lambda>d s delay w. (Inr (fresh_id w),
          w\<lparr>hw_queue := hw_queue w @ [(fresh_id w, d, s, hw_now w + delay * 1000)]\<rparr>)),
      he_receive = (\<lambda>w. case first_due w of
          None \<Rightarrow> (Inr None, w)
        | Some i \<Rightarrow> (case the (hw_pending w i) of (d, s, t) \<Rightarrow>
            (Inr (Some (i, d, s)), w\<lparr>hw_queue := obj_set i (d, s, hw_now w + 30000) (hw_queue w)\<rparr>))),
      he_delete_message = (\<lambda>i w. (Inr (), w\<lparr>hw_queue := obj_delete i (hw_queue w)\<rparr>)),
      he_patch_device = (\<lambda>d s date w. (Inr (), w\<lparr>hw_db := (hw_db w)(d := s)\<rparr>)),
      he_emit_change = (\<lambda>d s e w. w\<lparr>hw_changes := hw_changes w @ [(d, s, e = None)]\<rparr>),
      he_wait = (\<lambda>n w. w\<lparr>hw_now := hw_now w + n\<rparr>)\<rparr>"

lemma fresh_id_new: "fresh_id w \<notin> set (map fst (hw_queue w) @ map (mm_id \<circ> fst \<circ> snd) (hw_entries w))"
proof
  let ?ids = "map fst (hw_queue w) @ map (mm_id \<circ> fst \<circ> snd) (hw_entries w)"
  assume "fresh_id w \<in> set ?ids"
  then have "length (fresh_id w) \<le> sum_list (map length ?ids)"
    using member_le_sum_list [of "length (fresh_id w)" "map length ?ids"] by (simp only: set_map imageI simp_thms)
  then show False by (simp add: fresh_id_def)
qed

lemma fresh_id_pending: "hw_pending w (fresh_id w) = None"
  using fresh_id_new [of w] by (simp add: hw_pending_def map_of_eq_None_iff)

lemma fresh_id_entry: "hw_entry w d = Some (m, t) \<Longrightarrow> mm_id m \<noteq> fresh_id w"
  using fresh_id_new [of w] by (force simp: hw_entry_def dest: map_of_SomeD)

lemma first_due_None: "first_due w = None \<Longrightarrow> hw_pending w i = Some (d, s, t) \<Longrightarrow> hw_now w < t"
proof -
  assume none: "first_due w = None" and some: "hw_pending w i = Some (d, s, t)"
  have "i \<in> set (map fst (hw_queue w))"
    using some by (force simp: hw_pending_def dest: map_of_SomeD)
  then have "\<not> t \<le> hw_now w"
    using none some by (force simp: first_due_def find_None_iff)
  then show ?thesis by simp
qed

lemma first_due_Some: "first_due w = Some i \<Longrightarrow> \<exists>d s t. hw_pending w i = Some (d, s, t) \<and> t \<le> hw_now w"
  by (auto simp: first_due_def dest!: find_Some_in split: option.splits)

interpretation mem_hb: heartbeat_services mem_hb_env hw_db hw_entry hw_pending 30000
proof
  fix w
  show "\<exists>w' r. he_receive mem_hb_env w = (Inr r, w') \<and> hw_db w' = hw_db w \<and> hw_entry w' = hw_entry w \<and>
      he_now mem_hb_env w' = he_now mem_hb_env w \<and>
      (case r of
         None \<Rightarrow> hw_pending w' = hw_pending w \<and>
           (\<forall>i d s t. hw_pending w i = Some (d, s, t) \<longrightarrow> he_now mem_hb_env w < t)
       | Some (i, d, s) \<Rightarrow> \<exists>t. hw_pending w i = Some (d, s, t) \<and> t \<le> he_now mem_hb_env w \<and>
           hw_pending w' = (hw_pending w)(i \<mapsto> (d, s, he_now mem_hb_env w + 30000)))"
  proof (cases "first_due w")
    case None
    then show ?thesis using first_due_None [OF None] by (auto simp: mem_hb_env_def)
  next
    case (Some i)
    then show ?thesis
      using first_due_Some [OF Some] by (auto simp: mem_hb_env_def hw_entry_def hw_pending_def)
  qed
next
  fix d s delay w
  show "\<exists>w' i. he_send mem_hb_env d s delay w = (Inr i, w') \<and> hw_db w' = hw_db w \<and> hw_entry w' = hw_entry w \<and>
      he_now mem_hb_env w' = he_now mem_hb_env w \<and> hw_pending w i = None \<and>
      (\<forall>d' m t. hw_entry w d' = Some (m, t) \<longrightarrow> mm_id m \<noteq> i) \<and>
      hw_pending w' = (hw_pending w)(i \<mapsto> (d, s, he_now mem_hb_env w + delay * 1000))"
    using fresh_id_pending [of w] fresh_id_entry [of w]
    by (auto simp: mem_hb_env_def hw_entry_def hw_pending_def map_add_def fun_eq_iff split: option.splits)
qed (auto simp: mem_hb_env_def hw_entry_def hw_pending_def split: option.splits)

section \<open>What the heartbeat guarantees\<close>

lemma poll_interval_at_least:
  "of_int DEFAULT * POLL_JITTER_FACTOR \<le> poll_interval_of DEFAULT v"
  by (simp add: poll_interval_of_def POLL_JITTER_FACTOR_def split: option.split)

definition demo_world :: hb_world where
  "demo_world = \<lparr>hw_now = 0, hw_db = (\<lambda>_. Unknown), hw_entries = [], hw_queue = [], hw_changes = []\<rparr>"

lemma demo_sane: "hb_sane hw_db hw_entry hw_pending demo_world"
  by (simp add: hb_sane_def demo_world_def hw_entry_def hw_pending_def)

lemma demo_settled: "hb_settled hw_entry hw_pending demo_world d"
  by (simp add: hb_settled_def demo_world_def hw_entry_def hw_pending_def)

lemma demo_enabled: "he_enabled mem_hb_env" "he_timeout_seconds mem_hb_env = 15"
  by (simp_all add: mem_hb_env_def)

text \<open>
  Whatever polls, rounds of the consumer and waiting came before, a captured poll makes the
  device online in the database and changes no other device: the cached entry that lets the write be
  skipped is never wrong.
\<close>

lemma poll_marks_online:
  assumes "heartbeat_services env db entry pending vt" and "he_enabled env"
    and "hb_sane db entry pending w"
  shows "db (hb_run env (es @ [Polled d r]) w) = (db (hb_run env es w))(d := Online)"
  using heartbeat_services.capture_online [OF assms(1,2) heartbeat_services.sane_run [OF assms]]
  by (simp add: hb_run_append)

text \<open>
  A device that polls in time is never marked: after a captured poll, if nothing older was
  left in the queue for the device (it was settled, or its pending message is the one of an entry that
  has not expired), then until the announced window is over the device stays online, whatever other
  devices poll and however often the queue is consumed.
\<close>

lemma online_within_window:
  assumes "heartbeat_services env db entry pending vt" and "he_enabled env"
    and "hb_sane db entry pending w"
    and "hb_settled entry pending w d \<or>
      (\<exists>s t m e. hb_watched entry pending w d s t \<and> entry w d = Some (m, e) \<and> he_now env w < e)"
    and "\<forall>r'. Polled d r' \<notin> set es"
    and "he_now env (hb_run env (Polled d r # es) w) < he_now env w + \<lceil>r\<rceil> * 1000"
  shows "db (hb_run env (Polled d r # es) w) d = Online"
proof -
  note hb = assms(1)
  have "hb_settled entry pending w d \<or>
      (\<exists>s t m. hb_watched entry pending w d s t \<and> heartbeat_services.live env entry w d = Some m)"
    using assms(4) by (auto simp: heartbeat_services.live_def [OF hb])
  note watched = heartbeat_services.capture_watched [OF hb assms(2) this, of r]
  have "db (hb_run env es (hb_step env (Polled d r) w)) d = db (hb_step env (Polled d r) w) d"
    using heartbeat_services.unmarked_before_due [OF hb assms(2) heartbeat_services.sane_step [OF hb assms(2,3)] watched assms(5)]
      assms(6) by (simp del: hb_step.simps)
  then show ?thesis
    using heartbeat_services.capture_online [OF hb assms(2,3), of d r] by (simp del: hb_step.simps)
qed

lemma demo_now:
  "he_now mem_hb_env (hb_run mem_hb_env [Polled 1 2, Waited 1500] demo_world) < he_now mem_hb_env demo_world + \<lceil>2 :: rat\<rceil> * 1000"
  by (simp add: mem_hb_env_def captureEventFor_def getDeviceOnlineState_def scheduleChangeOfStateForDevice_def
      updateDeviceModel_def needs_update_def io_simps demo_world_def hw_entry_def split: option.split)

text \<open>
  Claim C4. A device that goes silent is marked: under the same condition, once the window announced by
  its last poll is over, finitely many rounds of the consumer mark it timed out, and after the timeout
  has passed as well finitely many more mark it offline and leave neither an entry nor a message for
  it, however many other devices have messages in the queue.
\<close>

theorem silent_device_goes_offline:
  assumes "heartbeat_services env db entry pending vt" and "he_enabled env"
    and "hb_sane db entry pending w" and "0 < he_timeout_seconds env"
    and "hb_settled entry pending w d \<or>
      (\<exists>s t m e. hb_watched entry pending w d s t \<and> entry w d = Some (m, e) \<and> he_now env w < e)"
    and "w1 = hb_run env [Polled d r, Waited (nat (\<lceil>r\<rceil> * 1000))] w"
  shows "\<exists>n m. db (hb_run env (replicate n Consumed) w1) d = Timeout \<and>
    db (hb_run env (replicate n Consumed @ Waited (nat (he_timeout_seconds env * 1000)) # replicate m Consumed) w1) d = Offline \<and>
    hb_settled entry pending
      (hb_run env (replicate n Consumed @ Waited (nat (he_timeout_seconds env * 1000)) # replicate m Consumed) w1) d"
proof -
  note hb = assms(1)
  have "hb_settled entry pending w d \<or>
      (\<exists>s t m. hb_watched entry pending w d s t \<and> heartbeat_services.live env entry w d = Some m)"
    using assms(5) by (auto simp: heartbeat_services.live_def [OF hb])
  note watched = heartbeat_services.capture_watched [OF hb assms(2) this, of r]
  have sane: "hb_sane db entry pending w1"
    unfolding assms(6) by (rule heartbeat_services.sane_run [OF hb assms(2,3)])
  have w1: "w1 = he_wait env (int (nat (\<lceil>r\<rceil> * 1000))) (hb_step env (Polled d r) w)"
    unfolding assms(6) by simp
  have "hb_watched entry pending w1 d Timeout (he_now env w + \<lceil>r\<rceil> * 1000)"
    unfolding w1 heartbeat_services.watched_wait [OF hb] by (rule watched)
  moreover have "he_now env w + \<lceil>r\<rceil> * 1000 \<le> he_now env w1"
    using heartbeat_services.now_step [OF hb assms(2,3), of "Polled d r"]
    unfolding w1 heartbeat_services.wait(4) [OF hb] by linarith
  ultimately show ?thesis
    using heartbeat_services.silent_goes_offline [OF hb sane _ _ assms(4)] by blast
qed

theorem silent_device_goes_offline_witness:
  "\<exists>n. hw_db (hb_run mem_hb_env (replicate n Consumed)
     (hb_run mem_hb_env [Polled 1 2, Waited (nat (\<lceil>2 :: rat\<rceil> * 1000))] demo_world)) 1 = Timeout"
  using silent_device_goes_offline [OF mem_hb.heartbeat_services_axioms demo_enabled(1) demo_sane _
      disjI1 [OF demo_settled] refl, of 1 2]
  by (auto simp: demo_enabled simp del: hb_run.simps)

end
