(* ===== verification/ReleaseVersioning.thy ===== *)
theory ReleaseVersioning
  imports Utils JsRegex
begin

text \<open>
  Versions of releases: the hooks that number releases
  (\<^verbatim>\<open>src/features/ci-cd/hooks/release-versioning.ts\<close>), that move applications to their latest
  release (\<^verbatim>\<open>track-latest-release.ts\<close>) and that protect releases in use
  (\<^verbatim>\<open>releases/hooks/restrict-release-deletion.ts\<close>), and the version fields computed for a release
  (\<^verbatim>\<open>ci-cd/models/release-additions.ts\<close>).

  A final release has a revision: together with its application, its version core (major, minor,
  patch and prerelease) and its variant it has to be unique.  The parser of versions is a library and
  a parameter; the queries are fields of an environment, and the locale \<open>release_db\<close> says what they do
  to the table of releases.
\<close>

section \<open>Releases and their versions\<close>

record semver =
  sv_major :: int
  sv_minor :: int
  sv_patch :: int
  sv_prerelease :: "string list"
  sv_build :: "string list"

record release_row =
  rl_app :: int
  rl_major :: int
  rl_minor :: int
  rl_patch :: int
  rl_prerelease :: string
  rl_build :: string
  rl_variant :: string
  rl_revision :: "int option"
  rl_finalized :: "int option"

type_synonym version_core = "int \<times> int \<times> int \<times> string"

definition sv_core :: "semver \<Rightarrow> version_core" where
  "sv_core sv = (sv_major sv, sv_minor sv, sv_patch sv, js_join ''.'' (sv_prerelease sv))"

definition rl_core :: "release_row \<Rightarrow> version_core" where
  "rl_core r = (rl_major r, rl_minor r, rl_patch r, rl_prerelease r)"

text \<open>What a revision has to be unique in.\<close>

definition rl_key :: "release_row \<Rightarrow> int \<times> version_core \<times> string" where
  "rl_key r = (rl_app r, rl_core r, rl_variant r)"

text \<open>The computed fields.\<close>

definition is_final_release :: "release_row \<Rightarrow> bool" where
  "is_final_release r \<longleftrightarrow> rl_revision r \<noteq> None"

definition version_core_text :: "release_row \<Rightarrow> string" where
  "version_core_text r = show_int (rl_major r) @ ''.'' @ show_int (rl_minor r) @ ''.'' @ show_int (rl_patch r)"

definition semver_text :: "release_row \<Rightarrow> string" where
  "semver_text r = version_core_text r
     @ (if rl_prerelease r \<noteq> [] then ''-'' @ rl_prerelease r else [])
     @ (if rl_build r \<noteq> [] then ''+'' @ rl_build r else [])"

text \<open>\<open>created\<close> is the creation time in milliseconds.\<close>

definition versionCoreAndPrerelease :: "int \<Rightarrow> release_row \<Rightarrow> string" where
  "versionCoreAndPrerelease created r =
     (let parts = (if rl_prerelease r \<noteq> [] then [rl_prerelease r] else [])
                @ (if \<not> is_final_release r then [show_int created] else [])
      in version_core_text r @ (if parts \<noteq> [] then ''-'' @ js_join ''.'' parts else []))"

definition rev_text :: "int \<Rightarrow> string" where
  "rev_text n = ''rev'' @ show_int n"

definition hasPositiveRevisionNotInBuild :: "release_row \<Rightarrow> bool" where
  "hasPositiveRevisionNotInBuild r \<longleftrightarrow>
     (case rl_revision r of
        None \<Rightarrow> False
      | Some n \<Rightarrow> n > 0 \<and> \<not> sublist (''.'' @ rev_text n @ ''.'') (''.'' @ rl_build r @ ''.''))"

definition build_parts :: "release_row \<Rightarrow> string list" where
  "build_parts r =
     (if rl_build r \<noteq> [] then [rl_build r] else [])
     @ (if hasPositiveRevisionNotInBuild r then [rev_text (the (rl_revision r))] else [])
     @ (if rl_variant r \<noteq> [] then [rl_variant r] else [])"

definition raw_version :: "int \<Rightarrow> release_row \<Rightarrow> string" where
  "raw_version created r =
     versionCoreAndPrerelease created r
     @ (if rl_build r \<noteq> [] \<or> (case rl_revision r of None \<Rightarrow> False | Some n \<Rightarrow> n > 0) \<or> rl_variant r \<noteq> []
        then ''+'' else [])
     @ js_join ''.'' (build_parts r)"

section \<open>Reading the fields of a request\<close>

record release_custom =
  cu_is_final :: "json option"
  cu_semver :: "semver option"

definition semver_part_names :: "string list" where
  "semver_part_names = [''semver_major'', ''semver_minor'', ''semver_patch'', ''semver_prerelease'', ''semver_build'']"

definition set_semver_parts :: "semver \<Rightarrow> json obj \<Rightarrow> json obj" where
  "set_semver_parts sv values =
     obj_set ''semver_build'' (JStr (js_join ''.'' (sv_build sv)))
       (obj_set ''semver_prerelease'' (JStr (js_join ''.'' (sv_prerelease sv)))
         (obj_set ''semver_patch'' (JNum (sv_patch sv))
           (obj_set ''semver_minor'' (JNum (sv_minor sv))
             (obj_set ''semver_major'' (JNum (sv_major sv)) values))))"

definition parseReleaseVersioningFields ::
  "(string \<Rightarrow> semver option) \<Rightarrow> json obj \<Rightarrow> (json obj \<times> release_custom) res"
where
  "parseReleaseVersioningFields parse values =
     res_bind
       (if not_nullish (map_of values ''semver'')
        then (case (case map_of values ''semver'' of Some (JStr s) \<Rightarrow> parse s | _ \<Rightarrow> None) of
                None \<Rightarrow> Inl (BadRequestError ''Invalid semver format'')
              | Some sv \<Rightarrow> Inr (set_semver_parts sv values, Some sv))
        else Inr (fold obj_delete semver_part_names values, None))
       (\<lambda>(values1, sv). Inr (obj_delete ''semver'' (obj_delete ''is_final'' values1),
          \<lparr>cu_is_final = map_of values ''is_final'', cu_semver = sv\<rparr>))"

text \<open>\<^verbatim>\<open>/^rev(\d+)$/\<close>\<close>

definition REVISION_REGEXP :: re where
  "REVISION_REGEXP = RSeqs [RBegin, RLit ''rev'', RGroup 1 (RPlus (RClass is_digit_char)), REnd]"

definition user_revisions :: "semver \<Rightarrow> string list" where
  "user_revisions sv =
     List.map_filter (\<lambda>b. case re_match REVISION_REGEXP b of None \<Rightarrow> None | Some groups \<Rightarrow> map_of groups 1)
       (sv_build sv)"

definition checkNotDifferentRevision :: "semver \<Rightarrow> int \<Rightarrow> unit res" where
  "checkNotDifferentRevision sv revision =
     (if list_ex (\<lambda>rev. show_int revision \<noteq> rev) (user_revisions sv)
      then Inl (BadRequestError ''The provided revision does not match the autogenerated one.'')
      else Inr ())"

text \<open>The application named by a body; a text is a number (\<^verbatim>\<open>parseInt\<close>).\<close>

definition body_app :: "json obj \<Rightarrow> int option" where
  "body_app values =
     (case map_of values ''belongs_to__application'' of
        Some (JNum n) \<Rightarrow> Some n
      | Some (JStr s) \<Rightarrow> parseInt10 s
      | _ \<Rightarrow> None)"

definition body_variant :: "json obj \<Rightarrow> string option" where
  "body_variant values = (case map_of values ''variant'' of Some (JStr s) \<Rightarrow> Some s | _ \<Rightarrow> None)"

section \<open>The queries\<close>

text \<open>
  \<open>re_select ids p\<close> returns the releases among \<open>ids\<close> that satisfy the filter \<open>p\<close>, ordered by
  application, finalization date and id; \<open>re_latest\<close> the revisions of an application's releases with a
  core and a variant, the highest first, at most one.  \<open>re_insert\<close> and \<open>re_update\<close> are the write of the
  request itself.
\<close>

record 'w release_env =
  re_parse :: "string \<Rightarrow> semver option"
  re_now :: "'w \<Rightarrow> int"
  re_lock :: "int \<Rightarrow> ('w, unit) io"
  re_affected :: "('w, int list) io"
  re_has_final :: "int list \<Rightarrow> ('w, bool) io"
  re_latest :: "int \<Rightarrow> version_core \<Rightarrow> string \<Rightarrow> ('w, int list) io"
  re_select :: "int list \<Rightarrow> (release_row \<Rightarrow> bool) \<Rightarrow> ('w, (int \<times> release_row) list) io"
  re_null_revisions :: "int list \<Rightarrow> ('w, unit) io"
  re_set_revision :: "int \<Rightarrow> int \<Rightarrow> int option \<Rightarrow> ('w, unit) io"
  re_insert :: "json obj \<Rightarrow> ('w, int) io"
  re_update :: "json obj \<Rightarrow> ('w, unit) io"

definition preventChangingFinalToDraft :: "'w release_env \<Rightarrow> release_custom \<Rightarrow> ('w, unit) io" where
  "preventChangingFinalToDraft env custom =
     (if cu_is_final custom \<noteq> Some (JBool False) then io_return ()
      else io_bind (re_affected env) (\<lambda>releaseIds.
        if length releaseIds = 0 then io_return ()
        else io_bind (re_has_final env releaseIds) (\<lambda>finalized.
          if finalized then io_throw (BadRequestError ''Finalized releases cannot be converted to draft.'')
          else io_return ())))"

definition getNextRevision :: "'w release_env \<Rightarrow> int \<Rightarrow> semver \<Rightarrow> string \<Rightarrow> ('w, int) io" where
  "getNextRevision env applicationId sv variant =
     io_bind (re_latest env applicationId (sv_core sv) variant) (\<lambda>rs.
       io_return (case rs of r # _ \<Rightarrow> r + 1 | [] \<Rightarrow> 0))"

section \<open>Creating a release\<close>

definition DEFAULT_SEMVER :: semver where
  "DEFAULT_SEMVER = \<lparr>sv_major = 0, sv_minor = 0, sv_patch = 0, sv_prerelease = [], sv_build = []\<rparr>"

definition post_parse :: "(string \<Rightarrow> semver option) \<Rightarrow> json obj \<Rightarrow> (json obj \<times> release_custom) res" where
  "post_parse parse values =
     res_bind (parseReleaseVersioningFields parse values) (\<lambda>(values1, custom).
       Inr (if not_nullish (map_of values1 ''variant'') then values1 else obj_set ''variant'' (JStr []) values1,
            if not_nullish (cu_is_final custom) then custom else custom\<lparr>cu_is_final := Some (JBool True)\<rparr>))"

definition post_run :: "'w release_env \<Rightarrow> json obj \<Rightarrow> release_custom \<Rightarrow> int \<Rightarrow> ('w, unit) io" where
  "post_run env values custom releaseId =
     (if \<not> truthy (cu_is_final custom) then io_return ()
      else
        let sv = (case cu_semver custom of Some s \<Rightarrow> s | None \<Rightarrow> DEFAULT_SEMVER);
            app = the (body_app values); variant = the (body_variant values)
        in io_bind (re_lock env app) (\<lambda>_.
           io_bind (getNextRevision env app sv variant) (\<lambda>revision.
           io_bind (io_lift (checkNotDifferentRevision sv revision)) (\<lambda>_.
             (\<lambda>w. re_set_revision env releaseId revision (Some (re_now env w)) w)))))"

text \<open>
  The request: the hooks around the insertion.  The database refuses a release without an application
  or with a variant that is not a text.
\<close>

definition post_release :: "'w release_env \<Rightarrow> json obj \<Rightarrow> ('w, int) io" where
  "post_release env body =
     io_bind (io_lift (post_parse (re_parse env) body)) (\<lambda>(values, custom).
       if body_app values = None \<or> body_variant values = None then io_throw (BadRequestError [])
       else io_bind (re_insert env values) (\<lambda>releaseId.
         io_bind (post_run env values custom releaseId) (\<lambda>_. io_return releaseId)))"

section \<open>Changing releases\<close>

definition unique_part_filters :: "json obj \<Rightarrow> release_custom \<Rightarrow> (release_row \<Rightarrow> bool) list" where
  "unique_part_filters values custom =
     (case cu_semver custom of
        None \<Rightarrow> []
      | Some sv \<Rightarrow> [\<lambda>r. rl_revision r \<noteq> None \<and> rl_core r \<noteq> sv_core sv]) @
     (case body_app values of
        None \<Rightarrow> []
      | Some app \<Rightarrow> [\<lambda>r. rl_revision r \<noteq> None \<and> rl_app r \<noteq> app]) @
     (case body_variant values of
        None \<Rightarrow> []
      | Some variant \<Rightarrow> [\<lambda>r. rl_revision r \<noteq> None \<and> rl_variant r \<noteq> variant])"

definition revision_filters :: "json obj \<Rightarrow> release_custom \<Rightarrow> (release_row \<Rightarrow> bool) list" where
  "revision_filters values custom =
     (if truthy (cu_is_final custom) then [\<lambda>r. rl_revision r = None] else []) @ unique_part_filters values custom"

text \<open>The releases to number, \<open>None\<close> when the request does not set them.\<close>

definition setReleasesToSetRevision ::
  "'w release_env \<Rightarrow> json obj \<Rightarrow> release_custom \<Rightarrow> ('w, (int \<times> release_row) list option) io"
where
  "setReleasesToSetRevision env values custom =
     (let filters = revision_filters values custom
      in if length filters = 0 then io_return None
         else io_bind (re_affected env) (\<lambda>releaseIds.
           if length releaseIds = 0 then io_return None
           else io_bind (re_select env releaseIds (\<lambda>r. list_ex (\<lambda>f. f r) filters)) (\<lambda>releases.
             if length releases = 0 then io_return None
             else if length (unique_part_filters values custom) = 0 then io_return (Some releases)
             else io_bind (re_null_revisions env (map fst releases)) (\<lambda>_. io_return (Some releases)))))"

definition finalized_date :: "'w release_env \<Rightarrow> release_custom \<Rightarrow> release_row \<Rightarrow> 'w \<Rightarrow> int option" where
  "finalized_date env custom r w =
     (if truthy (cu_is_final custom) \<and> rl_finalized r = None then Some (re_now env w) else None)"

definition number_release ::
  "'w release_env \<Rightarrow> release_custom \<Rightarrow> int \<times> release_row \<Rightarrow> int \<Rightarrow> ('w, unit) io"
where
  "number_release env custom release revision w =
     re_set_revision env (fst release) revision (finalized_date env custom (snd release) w) w"

definition number_group ::
  "'w release_env \<Rightarrow> release_custom \<Rightarrow> int \<Rightarrow> string \<Rightarrow> (int \<times> release_row) list \<Rightarrow> ('w, unit) io"
where
  "number_group env custom appId variant releases =
     (case cu_semver custom of
        Some sv \<Rightarrow>
          io_bind (getNextRevision env appId sv variant) (\<lambda>nextRevision.
          io_bind (io_lift (res_all (\<lambda>index. checkNotDifferentRevision sv (nextRevision + int index))
                     [0..<length releases])) (\<lambda>_.
          io_bind (io_mapM (\<lambda>(index, release). number_release env custom release (nextRevision + int index))
                     (zip [0..<length releases] releases)) (\<lambda>_. io_return ())))
      | None \<Rightarrow>
          io_bind (io_mapM (\<lambda>release.
            case re_parse env (semver_text (snd release)) of
              None \<Rightarrow> io_throw (BadRequestError ''Could not parse the semver a pre-existing release'')
            | Some sv \<Rightarrow>
                io_bind (getNextRevision env appId sv variant) (\<lambda>nextRevision.
                io_bind (io_lift (checkNotDifferentRevision sv nextRevision)) (\<lambda>_.
                  number_release env custom release nextRevision))) releases) (\<lambda>_. io_return ()))"

definition releases_by_app :: "json obj \<Rightarrow> (int \<times> release_row) list \<Rightarrow> (int \<times> (int \<times> release_row) list) list" where
  "releases_by_app values releases =
     (case body_app values of
        Some app \<Rightarrow> [(app, releases)]
      | None \<Rightarrow> groupByMap releases (\<lambda>r. rl_app (snd r)))"

definition releases_by_variant ::
  "json obj \<Rightarrow> (int \<times> release_row) list \<Rightarrow> (string \<times> (int \<times> release_row) list) list"
where
  "releases_by_variant values releases =
     (case body_variant values of
        Some variant \<Rightarrow> [(variant, releases)]
      | None \<Rightarrow> groupByMap releases (\<lambda>r. rl_variant (snd r)))"

definition patch_post_run ::
  "'w release_env \<Rightarrow> json obj \<Rightarrow> release_custom \<Rightarrow> (int \<times> release_row) list option \<Rightarrow> ('w, unit) io"
where
  "patch_post_run env values custom releasesToSetRevision =
     (case releasesToSetRevision of
        None \<Rightarrow> io_return ()
      | Some releases \<Rightarrow>
          let byApp = releases_by_app values releases
          in io_bind (io_mapM (\<lambda>(appId, _). re_lock env appId) byApp) (\<lambda>_.
             io_bind (io_mapM (\<lambda>(appId, releasesOfApp).
                io_bind (io_mapM (\<lambda>(variant, rs). number_group env custom appId variant rs)
                  (releases_by_variant values releasesOfApp)) (\<lambda>_. io_return ())) byApp)
             (\<lambda>_. io_return ())))"

text \<open>
  The request.  The two hooks before the write run at the same time; the query of the check is sent
  before the revisions are removed, so it comes first here.
\<close>

definition patch_release :: "'w release_env \<Rightarrow> json obj \<Rightarrow> ('w, unit) io" where
  "patch_release env body =
     io_bind (io_lift (parseReleaseVersioningFields (re_parse env) body)) (\<lambda>(values, custom).
     io_bind (preventChangingFinalToDraft env custom) (\<lambda>_.
     io_bind (setReleasesToSetRevision env values custom) (\<lambda>releases.
     io_bind (re_update env values) (\<lambda>_.
       patch_post_run env values custom releases))))"

section \<open>The table of releases\<close>

text \<open>The fields of a release that a body sets.\<close>

definition json_int :: "json option \<Rightarrow> int \<Rightarrow> int" where
  "json_int j d = (case j of Some (JNum n) \<Rightarrow> n | _ \<Rightarrow> d)"

definition json_text :: "json option \<Rightarrow> string \<Rightarrow> string" where
  "json_text j d = (case j of Some (JStr s) \<Rightarrow> s | _ \<Rightarrow> d)"

definition apply_values :: "json obj \<Rightarrow> release_row \<Rightarrow> release_row" where
  "apply_values values r =
     r\<lparr>rl_app := (case body_app values of Some a \<Rightarrow> a | None \<Rightarrow> rl_app r),
       rl_major := json_int (map_of values ''semver_major'') (rl_major r),
       rl_minor := json_int (map_of values ''semver_minor'') (rl_minor r),
       rl_patch := json_int (map_of values ''semver_patch'') (rl_patch r),
       rl_prerelease := json_text (map_of values ''semver_prerelease'') (rl_prerelease r),
       rl_build := json_text (map_of values ''semver_build'') (rl_build r),
       rl_variant := (case body_variant values of Some v \<Rightarrow> v | None \<Rightarrow> rl_variant r)\<rparr>"

definition blank_release :: release_row where
  "blank_release = \<lparr>rl_app = 0, rl_major = 0, rl_minor = 0, rl_patch = 0, rl_prerelease = [], rl_build = [],
     rl_variant = [], rl_revision = None, rl_finalized = None\<rparr>"

type_synonym releases = "int \<Rightarrow> release_row option"

definition unique_revisions :: "releases \<Rightarrow> bool" where
  "unique_revisions R \<longleftrightarrow>
     (\<forall>i j a b. R i = Some a \<and> R j = Some b \<and> rl_key a = rl_key b \<and>
        rl_revision a = rl_revision b \<and> rl_revision a \<noteq> None \<longrightarrow> i = j)"

definition finals :: "releases \<Rightarrow> int set" where
  "finals R = {i. \<exists>r. R i = Some r \<and> rl_revision r \<noteq> None}"

text \<open>The version of every release is one the parser reads.\<close>

definition readable :: "(string \<Rightarrow> semver option) \<Rightarrow> releases \<Rightarrow> bool" where
  "readable parse R \<longleftrightarrow>
     (\<forall>i r. R i = Some r \<longrightarrow>
        (\<exists>s sv. parse s = Some sv \<and> rl_core r = sv_core sv \<and> rl_build r = js_join ''.'' (sv_build sv)))"

definition semver_row :: "semver \<Rightarrow> release_row" where
  "semver_row sv = blank_release\<lparr>rl_major := sv_major sv, rl_minor := sv_minor sv, rl_patch := sv_patch sv,
     rl_prerelease := js_join ''.'' (sv_prerelease sv), rl_build := js_join ''.'' (sv_build sv)\<rparr>"

text \<open>What the parser relies on: it reads back the text of a version it has read, and reads 0.0.0.\<close>

definition parse_contract :: "(string \<Rightarrow> semver option) \<Rightarrow> bool" where
  "parse_contract parse \<longleftrightarrow>
     (\<forall>s sv. parse s = Some sv \<longrightarrow> parse (semver_text (semver_row sv)) = Some sv) \<and>
     (\<exists>s. parse s = Some DEFAULT_SEMVER)"

text \<open>
  \<open>rel\<close> is the table; \<open>aff\<close> the releases the request is about, which do not change while it runs.
\<close>

locale release_db =
  fixes env :: "'w release_env"
    and rel :: "'w \<Rightarrow> releases"
    and aff :: "int list"
  assumes lock: "re_lock env a w = (Inr (), w') \<Longrightarrow> rel w' = rel w"
    and affected: "re_affected env w = (Inr ids, w') \<Longrightarrow> ids = aff \<and> rel w' = rel w"
    and has_final: "re_has_final env ids w = (Inr b, w') \<Longrightarrow>
      rel w' = rel w \<and> b = (\<exists>i \<in> set ids. i \<in> finals (rel w))"
    and latest: "re_latest env a c v w = (Inr rs, w') \<Longrightarrow> rel w' = rel w \<and>
      (case rs of
         [] \<Rightarrow> \<forall>i r. rel w i = Some r \<and> rl_key r = (a, c, v) \<longrightarrow> rl_revision r = None
       | n # _ \<Rightarrow> (\<exists>i r. rel w i = Some r \<and> rl_key r = (a, c, v) \<and> rl_revision r = Some n) \<and>
           (\<forall>i r m. rel w i = Some r \<and> rl_key r = (a, c, v) \<and> rl_revision r = Some m \<longrightarrow> m \<le> n))"
    and select: "re_select env ids p w = (Inr xs, w') \<Longrightarrow> rel w' = rel w \<and> distinct (map fst xs) \<and>
      set xs = {(i, r). i \<in> set ids \<and> rel w i = Some r \<and> p r}"
    and null_revisions: "re_null_revisions env ids w = (Inr (), w') \<Longrightarrow>
      rel w' = (\<lambda>i. if i \<in> set ids then map_option (rl_revision_update (\<lambda>_. None)) (rel w i) else rel w i)"
    and set_revision: "re_set_revision env i n d w = (Inr (), w') \<Longrightarrow>
      rel w' = (rel w)(i := map_option
        (\<lambda>r. r\<lparr>rl_revision := Some n, rl_finalized := (case d of None \<Rightarrow> rl_finalized r | Some t \<Rightarrow> Some t)\<rparr>) (rel w i))"
    and insert: "re_insert env values w = (Inr i, w') \<Longrightarrow>
      rel w i = None \<and> rel w' = (rel w)(i \<mapsto> apply_values values blank_release)"
    and update: "re_update env values w = (Inr (), w') \<Longrightarrow>
      rel w' = (\<lambda>i. if i \<in> set aff then map_option (apply_values values) (rel w i) else rel w i)"

text \<open>A number above all those of its key keeps revisions unique.\<close>

lemma unique_revisions_set:
  assumes "unique_revisions R" "R i = Some r" "rl_key r' = rl_key r" "rl_revision r' = Some n"
    "\<And>j s m. R j = Some s \<Longrightarrow> rl_key s = rl_key r \<Longrightarrow> rl_revision s = Some m \<Longrightarrow> m < n"
  shows "unique_revisions (R(i \<mapsto> r'))"
  unfolding unique_revisions_def
proof (intro allI impI, elim conjE)
  fix k j a b
  assume ab: "(R(i \<mapsto> r')) k = Some a" "(R(i \<mapsto> r')) j = Some b" "rl_key a = rl_key b"
    "rl_revision a = rl_revision b" "rl_revision a \<noteq> None"
  then consider "k = i" "j = i" | "k \<noteq> i" "j \<noteq> i" | "k = i" "j \<noteq> i" | "k \<noteq> i" "j = i" by blast
  then show "k = j"
  proof cases
    case 2
    then have "R k = Some a" "R j = Some b" using ab(1,2) by simp_all
    then show ?thesis using assms(1) ab(3-5) unfolding unique_revisions_def by blast
  next
    case 3
    then have "R j = Some b" "a = r'" using ab(1,2) by simp_all
    then show ?thesis using assms(3-5) ab(3,4) by fastforce
  next
    case 4
    then have "R k = Some a" "b = r'" using ab(1,2) by simp_all
    then show ?thesis using assms(3-5) ab(3,4) by fastforce
  qed simp
qed

text \<open>All groups of a request.\<close>

definition body_core :: "release_custom \<Rightarrow> release_row \<Rightarrow> version_core" where
  "body_core custom r = (case cu_semver custom of Some sv \<Rightarrow> sv_core sv | None \<Rightarrow> rl_core r)"

definition body_key :: "json obj \<Rightarrow> release_custom \<Rightarrow> release_row \<Rightarrow> int \<times> version_core \<times> string" where
  "body_key values custom r =
     (case body_app values of Some a \<Rightarrow> a | None \<Rightarrow> rl_app r, body_core custom r,
      case body_variant values of Some v \<Rightarrow> v | None \<Rightarrow> rl_variant r)"

lemma names_of_groups: "(\<Union>(k, ys) \<in> A. fst ` set ys) = fst ` (\<Union>(k, ys) \<in> A. set ys)"
  by (simp add: image_UN split_def)

lemma by_app:
  "(a, ys) \<in> set (releases_by_app values xs) \<Longrightarrow>
     set ys \<subseteq> set xs \<and> (\<forall>x \<in> set ys. a = (case body_app values of Some a \<Rightarrow> a | None \<Rightarrow> rl_app (snd x)))"
  by (auto simp: releases_by_app_def groupByMap_entry split: option.splits)

lemma by_app_all: "(\<Union>(a, ys) \<in> set (releases_by_app values xs). set ys) = set xs"
  by (simp add: releases_by_app_def groupByMap_union split: option.split)

lemma by_variant:
  "(v, ys) \<in> set (releases_by_variant values xs) \<Longrightarrow>
     set ys \<subseteq> set xs \<and> (\<forall>x \<in> set ys. v = (case body_variant values of Some v \<Rightarrow> v | None \<Rightarrow> rl_variant (snd x)))"
  by (auto simp: releases_by_variant_def groupByMap_entry split: option.splits)

lemma by_variant_all: "(\<Union>(v, ys) \<in> set (releases_by_variant values xs). set ys) = set xs"
  by (simp add: releases_by_variant_def groupByMap_union split: option.split)

context release_db
begin

text \<open>
  What numbering keeps: the key of every release, unique revisions, readable versions, and that the
  releases of \<open>S\<close> are final.
\<close>

definition numbered :: "(int \<Rightarrow> (int \<times> version_core \<times> string) option) \<Rightarrow> int set \<Rightarrow> 'w \<Rightarrow> bool" where
  "numbered K S w \<longleftrightarrow> (\<forall>i. map_option rl_key (rel w i) = K i) \<and> unique_revisions (rel w) \<and>
     readable (re_parse env) (rel w) \<and> S \<subseteq> finals (rel w)"

definition below :: "int \<times> version_core \<times> string \<Rightarrow> int \<Rightarrow> 'w \<Rightarrow> bool" where
  "below k n w \<longleftrightarrow> (\<forall>j s m. rel w j = Some s \<and> rl_key s = k \<and> rl_revision s = Some m \<longrightarrow> m < n)"

lemma below_mono: "below k n w \<Longrightarrow> n \<le> m \<Longrightarrow> below k m w"
  unfolding below_def by fastforce

lemma getNextRevision_below:
  assumes "getNextRevision env a sv v w = (Inr n, w')"
  shows "rel w' = rel w \<and> below (a, sv_core sv, v) n w"
proof -
  obtain rs where "re_latest env a (sv_core sv) v w = (Inr rs, w')" "n = (case rs of r # _ \<Rightarrow> r + 1 | [] \<Rightarrow> 0)"
    using assms by (auto simp: getNextRevision_def io_run_iffs)
  then show ?thesis
    using latest [of a "sv_core sv" v w rs w'] unfolding below_def by (cases rs) (force, force)
qed

lemma set_revision_numbered:
  assumes "numbered K S w" "K i = Some k" "below k n w" "re_set_revision env i n d w = (Inr (), w')"
  shows "numbered K (S \<union> {i}) w' \<and> below k (n + 1) w'"
proof -
  obtain r where r: "rel w i = Some r" "rl_key r = k"
    using assms(1,2) unfolding numbered_def by (metis map_option_eq_Some)
  define r' where "r' = r\<lparr>rl_revision := Some n, rl_finalized := (case d of None \<Rightarrow> rl_finalized r | Some t \<Rightarrow> Some t)\<rparr>"
  have rel': "rel w' = (rel w)(i \<mapsto> r')"
    using set_revision [OF assms(4)] r(1) by (simp add: r'_def)
  have key: "rl_key r' = rl_key r" "rl_revision r' = Some n"
    by (simp_all add: r'_def rl_key_def rl_core_def)
  have "unique_revisions (rel w')"
    unfolding rel' using assms(1,3) r key
    by (intro unique_revisions_set [of _ _ r]) (auto simp: numbered_def below_def)
  moreover have "\<forall>j. map_option rl_key (rel w' j) = K j"
    using assms(1,2) r key unfolding rel' numbered_def by auto
  moreover have "readable (re_parse env) (rel w')"
  proof -
    have "rl_core r' = rl_core r" "rl_build r' = rl_build r"
      by (simp_all add: r'_def rl_core_def)
    then show ?thesis
      using assms(1) r(1) unfolding rel' numbered_def readable_def by (metis fun_upd_apply option.inject)
  qed
  moreover have "S \<union> {i} \<subseteq> finals (rel w')"
    using assms(1) key(2) unfolding rel' numbered_def finals_def by auto
  moreover have "below k (n + 1) w'"
    unfolding rel' below_def
  proof (intro allI impI, elim conjE)
    fix j s m
    assume "((rel w)(i \<mapsto> r')) j = Some s" "rl_key s = k" "rl_revision s = Some m"
    then show "m < n + 1"
      using assms(3) key(2) unfolding below_def by (cases "j = i") fastforce+
  qed
  ultimately show ?thesis unfolding numbered_def by blast
qed

lemma number_release_numbered:
  assumes "numbered K S w" "K (fst x) = Some k" "below k n w" "number_release env custom x n w = (Inr (), w')"
  shows "numbered K (S \<union> {fst x}) w' \<and> below k (n + 1) w'"
  using set_revision_numbered [OF assms(1-3)] assms(4) by (simp add: number_release_def)

lemma number_consecutive:
  assumes "\<forall>x \<in> set xs. K (fst x) = Some k" "numbered K S w" "below k (n + int m) w"
    "io_mapM (\<lambda>(index, x). number_release env custom x (n + int index)) (zip [m..<m + length xs] xs) w = (Inr us, w')"
  shows "numbered K (S \<union> fst ` set xs) w'"
  using assms
proof (induction xs arbitrary: m S w us)
  case Nil
  then show ?case by (simp add: io_return_def)
next
  case (Cons x xs)
  have "[m..<m + length (x # xs)] = m # [Suc m..<Suc m + length xs]"
    by (simp add: upt_rec)
  then obtain w1 us' where run: "number_release env custom x (n + int m) w = (Inr (), w1)"
    "io_mapM (\<lambda>(index, x). number_release env custom x (n + int index)) (zip [Suc m..<Suc m + length xs] xs) w1 = (Inr us', w')"
    using Cons.prems(4) by (auto simp: io_bind_def io_return_def split: prod.splits sum.splits)
  have step: "numbered K (S \<union> {fst x}) w1" "below k (n + int m + 1) w1"
    using number_release_numbered [OF Cons.prems(2) _ Cons.prems(3) run(1)] Cons.prems(1) by auto
  have "below k (n + int (Suc m)) w1"
    using step(2) by (simp add: add.commute add.left_commute)
  from Cons.IH [OF _ step(1) this run(2)] Cons.prems(1) show ?case
    by (simp add: Un_assoc)
qed

lemma numbered_same: "numbered K S w \<Longrightarrow> rel w' = rel w \<Longrightarrow> numbered K S w'"
  by (simp add: numbered_def)

lemma below_same: "below k n w \<Longrightarrow> rel w' = rel w \<Longrightarrow> below k n w'"
  by (simp add: below_def)

text \<open>A group: all its releases have the key the group says, with the version of the body or their own.\<close>

definition group_ok ::
  "(int \<Rightarrow> (int \<times> version_core \<times> string) option) \<Rightarrow> release_custom \<Rightarrow> int \<Rightarrow> string \<Rightarrow> (int \<times> release_row) list \<Rightarrow> bool"
where
  "group_ok K custom a v xs \<longleftrightarrow>
     (\<forall>x \<in> set xs. \<exists>c. K (fst x) = Some (a, c, v) \<and>
        (case cu_semver custom of
           Some sv \<Rightarrow> c = sv_core sv
         | None \<Rightarrow> \<forall>sv. re_parse env (semver_text (snd x)) = Some sv \<longrightarrow> c = sv_core sv))"

lemma number_group_numbered:
  assumes "group_ok K custom a v xs" "numbered K S w" "number_group env custom a v xs w = (Inr (), w')"
  shows "numbered K (S \<union> fst ` set xs) w'"
proof (cases "cu_semver custom")
  case (Some sv)
  obtain n w1 us where run: "getNextRevision env a sv v w = (Inr n, w1)"
    "io_mapM (\<lambda>(index, x). number_release env custom x (n + int index)) (zip [0..<length xs] xs) w1 = (Inr us, w')"
    using assms(3) Some
    by (auto simp: number_group_def io_run_iffs)
  note nr = getNextRevision_below [OF run(1)]
  have "\<forall>x \<in> set xs. K (fst x) = Some (a, sv_core sv, v)"
    using assms(1) Some by (auto simp: group_ok_def)
  then show ?thesis
    using number_consecutive [of xs K "(a, sv_core sv, v)" S w1 n 0 custom us w'] run(2)
      numbered_same [OF assms(2)] nr below_same [of "(a, sv_core sv, v)" n w w1] by simp
next
  case None
  obtain us where run: "io_mapM (\<lambda>release.
            case re_parse env (semver_text (snd release)) of
              None \<Rightarrow> io_throw (BadRequestError ''Could not parse the semver a pre-existing release'')
            | Some sv \<Rightarrow>
                io_bind (getNextRevision env a sv v) (\<lambda>nextRevision.
                io_bind (io_lift (checkNotDifferentRevision sv nextRevision)) (\<lambda>_.
                  number_release env custom release nextRevision))) xs w = (Inr us, w')"
    using assms(3) None
    by (auto simp: number_group_def io_run_iffs)
  have "numbered K (S \<union> \<Union> ((\<lambda>x. {fst x}) ` set xs)) w'"
  proof (rule io_mapM_inv [where I = "numbered K" and g = "\<lambda>x. {fst x}", OF _ assms(2) run])
    fix x w r w' S
    assume x: "x \<in> set xs" "numbered K S w"
      and go: "(case re_parse env (semver_text (snd x)) of
              None \<Rightarrow> io_throw (BadRequestError ''Could not parse the semver a pre-existing release'')
            | Some sv \<Rightarrow>
                io_bind (getNextRevision env a sv v) (\<lambda>nextRevision.
                io_bind (io_lift (checkNotDifferentRevision sv nextRevision)) (\<lambda>_.
                  number_release env custom x nextRevision))) w = (Inr r, w')"
    then obtain sv n w1 where run: "re_parse env (semver_text (snd x)) = Some sv"
      "getNextRevision env a sv v w = (Inr n, w1)" "number_release env custom x n w1 = (Inr (), w')"
      by (auto simp: io_run_iffs split: option.splits)
    have "K (fst x) = Some (a, sv_core sv, v)"
      using assms(1) None x(1) run(1) by (auto simp: group_ok_def)
    then show "numbered K (S \<union> {fst x}) w'"
      using number_release_numbered [OF numbered_same [OF x(2)] _ below_same run(3)]
        getNextRevision_below [OF run(2)] by blast
  qed
  then show ?thesis by (simp add: UNION_singleton_eq_range)
qed

lemma patch_post_run_numbered:
  assumes "numbered K S0 w" "patch_post_run env values custom (Some xs) w = (Inr (), w')"
    and keys: "\<And>x. x \<in> set xs \<Longrightarrow> K (fst x) = Some (body_key values custom (snd x))"
    and vers: "\<And>x sv. x \<in> set xs \<Longrightarrow> re_parse env (semver_text (snd x)) = Some sv \<Longrightarrow> rl_core (snd x) = sv_core sv"
  shows "numbered K (S0 \<union> fst ` set xs) w'"
proof -
  let ?inner = "\<lambda>(appId, releasesOfApp). io_bind (io_mapM (\<lambda>(variant, rs). number_group env custom appId variant rs)
      (releases_by_variant values releasesOfApp)) (\<lambda>_. io_return ())"
  obtain us w1 vs where run: "io_mapM (\<lambda>(appId, _). re_lock env appId) (releases_by_app values xs) w = (Inr us, w1)"
    "io_mapM ?inner (releases_by_app values xs) w1 = (Inr vs, w')"
    using assms(2)
    by (auto simp: patch_post_run_def Let_def io_run_iffs)
  have "numbered K (S0 \<union> \<Union> ((\<lambda>x. {}) ` set (releases_by_app values xs))) w1"
  proof (rule io_mapM_inv [where I = "numbered K" and g = "\<lambda>x. {}", OF _ assms(1) run(1)])
    fix x w r w' S
    assume "numbered K S w" "(case x of (appId, _) \<Rightarrow> re_lock env appId) w = (Inr r, w')"
    then show "numbered K (S \<union> {}) w'"
      using numbered_same lock by (cases x) auto
  qed
  then have w1: "numbered K S0 w1" by simp
  have group: "numbered K (S \<union> fst ` set rs) w'"
    if "(a, ys) \<in> set (releases_by_app values xs)" "(v, rs) \<in> set (releases_by_variant values ys)"
      "numbered K S w" "number_group env custom a v rs w = (Inr (), w')" for a ys v rs S w w'
  proof (rule number_group_numbered [OF _ that(3,4)])
    show "group_ok K custom a v rs"
      unfolding group_ok_def
    proof
      fix x assume x: "x \<in> set rs"
      have "x \<in> set xs" "a = (case body_app values of Some a \<Rightarrow> a | None \<Rightarrow> rl_app (snd x))"
        "v = (case body_variant values of Some v \<Rightarrow> v | None \<Rightarrow> rl_variant (snd x))"
        using by_app [OF that(1)] by_variant [OF that(2)] x by blast+
      then show "\<exists>c. K (fst x) = Some (a, c, v) \<and>
          (case cu_semver custom of Some sv \<Rightarrow> c = sv_core sv
           | None \<Rightarrow> \<forall>sv. re_parse env (semver_text (snd x)) = Some sv \<longrightarrow> c = sv_core sv)"
        using keys [of x] vers [of x] by (auto simp: body_key_def body_core_def split: option.splits)
    qed
  qed
  have "numbered K (S0 \<union> \<Union> ((\<lambda>(a, ys). fst ` set ys) ` set (releases_by_app values xs))) w'"
  proof (rule io_mapM_inv [where I = "numbered K" and g = "\<lambda>(a, ys). fst ` set ys", OF _ w1 run(2)])
    fix p w r w' S
    assume p: "p \<in> set (releases_by_app values xs)" "numbered K S w" "?inner p w = (Inr r, w')"
    obtain a ys where a: "p = (a, ys)" by (cases p)
    obtain ts where inner: "io_mapM (\<lambda>(variant, rs). number_group env custom a variant rs)
        (releases_by_variant values ys) w = (Inr ts, w')"
      using p(3) a by (auto simp: io_run_iffs)
    have "numbered K (S \<union> \<Union> ((\<lambda>(v, rs). fst ` set rs) ` set (releases_by_variant values ys))) w'"
    proof (rule io_mapM_inv [where I = "numbered K" and g = "\<lambda>(v, rs). fst ` set rs", OF _ p(2) inner])
      fix q w r w' S
      assume q: "q \<in> set (releases_by_variant values ys)" "numbered K S w"
        "(case q of (variant, rs) \<Rightarrow> number_group env custom a variant rs) w = (Inr r, w')"
      obtain v rs where "q = (v, rs)" by (cases q)
      then show "numbered K (S \<union> (case q of (v, rs) \<Rightarrow> fst ` set rs)) w'"
        using group [of a ys v rs S w w'] p(1) a q by simp
    qed
    moreover have "\<Union> ((\<lambda>(v, rs). fst ` set rs) ` set (releases_by_variant values ys)) = fst ` set ys"
      unfolding by_variant_all [of "values" ys, symmetric] by (rule names_of_groups)
    ultimately show "numbered K (S \<union> (case p of (a, ys) \<Rightarrow> fst ` set ys)) w'"
      by (simp add: a)
  qed
  moreover have "\<Union> ((\<lambda>(a, ys). fst ` set ys) ` set (releases_by_app values xs)) = fst ` set xs"
    unfolding by_app_all [of "values" xs, symmetric] by (rule names_of_groups)
  ultimately show ?thesis by simp
qed

lemma prevent_rel:
  assumes "preventChangingFinalToDraft env custom w = (Inr (), w')"
  shows "rel w' = rel w \<and> (cu_is_final custom = Some (JBool False) \<longrightarrow> set aff \<inter> finals (rel w) = {})"
  using assms
  by (auto simp: preventChangingFinalToDraft_def io_run_iffs dest!: affected has_final split: if_splits)

text \<open>What the first part of a change does to the table.\<close>

lemma set_releases:
  assumes "setReleasesToSetRevision env values custom w = (Inr rs, w')"
  defines "P \<equiv> (\<lambda>r. list_ex (\<lambda>f. f r) (revision_filters values custom))"
  shows "case rs of
      None \<Rightarrow> rel w' = rel w \<and> (\<forall>i \<in> set aff. \<forall>r. rel w i = Some r \<longrightarrow> \<not> P r)
    | Some xs \<Rightarrow> set xs = {(i, r). i \<in> set aff \<and> rel w i = Some r \<and> P r} \<and>
        rel w' = (\<lambda>i. if i \<in> fst ` set xs \<and> unique_part_filters values custom \<noteq> []
                      then map_option (rl_revision_update (\<lambda>_. None)) (rel w i) else rel w i)"
proof (cases "revision_filters values custom = []")
  case True
  then show ?thesis
    using assms(1) by (simp add: setReleasesToSetRevision_def P_def io_return_def)
next
  case filters: False
  obtain ids w1 where ids: "re_affected env w = (Inr ids, w1)"
    using assms(1) filters by (auto simp: setReleasesToSetRevision_def Let_def io_run_iffs)
  note aff = affected [OF ids]
  show ?thesis
  proof (cases "ids = []")
    case True
    then show ?thesis
      using assms(1) filters ids aff by (auto simp: setReleasesToSetRevision_def Let_def io_run_iffs)
  next
    case False
    obtain xs w2 where xs: "re_select env ids P w1 = (Inr xs, w2)"
      "(if length xs = 0 then io_return None
        else if length (unique_part_filters values custom) = 0 then io_return (Some xs)
        else io_bind (re_null_revisions env (map fst xs)) (\<lambda>_. io_return (Some xs))) w2 = (Inr rs, w')"
      using assms(1) filters ids False
      by (auto simp: setReleasesToSetRevision_def Let_def io_run_iffs P_def)
    have sel: "rel w2 = rel w" "set xs = {(i, r). i \<in> set aff \<and> rel w i = Some r \<and> P r}"
      using select [OF xs(1)] aff by simp_all
    consider "xs = []" "rs = None" "w' = w2"
      | "unique_part_filters values custom = []" "rs = Some xs" "w' = w2"
      | "unique_part_filters values custom \<noteq> []" "rs = Some xs" "re_null_revisions env (map fst xs) w2 = (Inr (), w')"
      using xs(2) by (auto simp: io_run_iffs split: if_splits)
    then show ?thesis
    proof cases
      case 1
      then show ?thesis using sel by auto
    next
      case 2
      then show ?thesis using sel by simp
    next
      case 3
      then show ?thesis using null_revisions [OF 3(3)] sel by (simp add: fun_eq_iff)
    qed
  qed
qed

end

lemma rl_build_applied: "rl_build (apply_values values r) = json_text (map_of values ''semver_build'') (rl_build r)"
  by (simp add: apply_values_def)

lemma parse_fields:
  assumes "parseReleaseVersioningFields parse body = Inr (values, custom)"
  shows "cu_is_final custom = map_of body ''is_final''"
    "rl_key (apply_values values r) = body_key values custom r"
    "rl_core (apply_values values r) = body_core custom r"
    "rl_revision (apply_values values r) = rl_revision r"
    "case cu_semver custom of
       Some sv \<Rightarrow> (\<exists>s. parse s = Some sv) \<and> rl_build (apply_values values r) = js_join ''.'' (sv_build sv)
     | None \<Rightarrow> rl_build (apply_values values r) = rl_build r"
proof -
  obtain v1 sv where v1: "values = obj_delete ''semver'' (obj_delete ''is_final'' v1)"
    "custom = \<lparr>cu_is_final = map_of body ''is_final'', cu_semver = sv\<rparr>"
    "(\<exists>s sv'. parse s = Some sv' \<and> sv = Some sv' \<and> v1 = set_semver_parts sv' body) \<or>
     (sv = None \<and> v1 = fold obj_delete semver_part_names body)"
    using assms
    by (auto simp: parseReleaseVersioningFields_def split: if_splits option.splits json.splits)
  show "cu_is_final custom = map_of body ''is_final''" by (simp add: v1(2))
  show core: "rl_core (apply_values values r) = body_core custom r"
    using v1(3)
    by (auto simp: v1(1,2) rl_core_def apply_values_def body_core_def sv_core_def json_int_def json_text_def
        set_semver_parts_def semver_part_names_def)
  show "rl_key (apply_values values r) = body_key values custom r"
    using core by (simp add: rl_key_def body_key_def apply_values_def)
  show "rl_revision (apply_values values r) = rl_revision r" by (simp add: apply_values_def)
  show "case cu_semver custom of
       Some sv \<Rightarrow> (\<exists>s. parse s = Some sv) \<and> rl_build (apply_values values r) = js_join ''.'' (sv_build sv)
     | None \<Rightarrow> rl_build (apply_values values r) = rl_build r"
    using v1(3)
  proof (elim disjE exE conjE)
    fix s sv' assume "parse s = Some sv'" "sv = Some sv'" "v1 = set_semver_parts sv' body"
    then show ?thesis by (auto simp: v1(1,2) rl_build_applied json_text_def set_semver_parts_def)
  next
    assume "sv = None" "v1 = fold obj_delete semver_part_names body"
    then show ?thesis by (simp add: v1(1,2) rl_build_applied semver_part_names_def json_text_def)
  qed
qed

lemma changed_key_filtered:
  assumes "rl_revision r \<noteq> None"
  shows "list_ex (\<lambda>f. f r) (unique_part_filters values custom) \<longleftrightarrow> body_key values custom r \<noteq> rl_key r"
  using assms by (auto simp: unique_part_filters_def body_key_def body_core_def rl_key_def split: option.splits)

lemma semver_text_row: "rl_core r = sv_core sv \<Longrightarrow> rl_build r = js_join ''.'' (sv_build sv) \<Longrightarrow>
    semver_text r = semver_text (semver_row sv)"
  by (simp add: semver_text_def version_core_text_def semver_row_def rl_core_def sv_core_def blank_release_def)

lemma readable_parse:
  assumes "parse_contract parse" "readable parse R" "R i = Some r" "parse (semver_text r) = Some sv"
  shows "rl_core r = sv_core sv"
proof -
  obtain s sv' where sv': "parse s = Some sv'" "rl_core r = sv_core sv'" "rl_build r = js_join ''.'' (sv_build sv')"
    using assms(2,3) unfolding readable_def by blast
  then have "parse (semver_text r) = Some sv'"
    using assms(1) semver_text_row [OF sv'(2,3)] unfolding parse_contract_def by auto
  then show ?thesis using assms(4) sv'(2) by simp
qed

lemma revision_filters_eq:
  "list_ex (\<lambda>f. f r) (revision_filters values custom) \<longleftrightarrow>
     (truthy (cu_is_final custom) \<and> rl_revision r = None) \<or>
     list_ex (\<lambda>f. f r) (unique_part_filters values custom)"
  by (auto simp: revision_filters_def)

lemma unique_part_filters_final: "list_ex (\<lambda>f. f r) (unique_part_filters values custom) \<Longrightarrow> rl_revision r \<noteq> None"
  by (auto simp: unique_part_filters_def split: option.splits)

context release_db
begin

text \<open>The table between the write of the request and the numbering.\<close>

lemma patch_before_numbering:
  assumes parse: "parse_contract (re_parse env)" "readable (re_parse env) (rel w)" "unique_revisions (rel w)"
    and fields: "parseReleaseVersioningFields (re_parse env) body = Inr (values, custom)"
    and sel: "setReleasesToSetRevision env values custom w = (Inr rs, w1)"
    and upd: "re_update env values w1 = (Inr (), w2)"
  shows "numbered (\<lambda>i. map_option rl_key (rel w2 i)) (finals (rel w2)) w2"
    "finals (rel w) \<subseteq> finals (rel w2) \<union> fst ` set (case rs of None \<Rightarrow> [] | Some xs \<Rightarrow> xs)"
    "truthy (cu_is_final custom) \<Longrightarrow>
       {i \<in> set aff. rel w i \<noteq> None} \<subseteq> finals (rel w2) \<union> fst ` set (case rs of None \<Rightarrow> [] | Some xs \<Rightarrow> xs)"
    "\<And>xs x. rs = Some xs \<Longrightarrow> x \<in> set xs \<Longrightarrow> map_option rl_key (rel w2 (fst x)) = Some (body_key values custom (snd x))"
    "\<And>xs x sv. rs = Some xs \<Longrightarrow> x \<in> set xs \<Longrightarrow> re_parse env (semver_text (snd x)) = Some sv \<Longrightarrow>
       rl_core (snd x) = sv_core sv"
proof -
  let ?P = "\<lambda>r. list_ex (\<lambda>f. f r) (revision_filters values custom)"
  let ?U = "\<lambda>r. list_ex (\<lambda>f. f r) (unique_part_filters values custom)"
  define xs where "xs = (case rs of None \<Rightarrow> [] | Some xs \<Rightarrow> xs)"
  have xs: "set xs = {(i, r). i \<in> set aff \<and> rel w i = Some r \<and> ?P r}"
    using set_releases [OF sel] by (auto simp: xs_def split: option.splits)
  have w1: "rel w1 i = (if i \<in> fst ` set xs \<and> unique_part_filters values custom \<noteq> []
      then map_option (rl_revision_update (\<lambda>_. None)) (rel w i) else rel w i)" for i
    using set_releases [OF sel] by (auto simp: xs_def split: option.splits)
  have w2: "rel w2 i = (if i \<in> set aff then map_option (apply_values values) (rel w1 i) else rel w1 i)" for i
    using update [OF upd] by simp
  note pf = parse_fields [OF fields]
  have in_xs: "i \<in> fst ` set xs \<longleftrightarrow> i \<in> set aff \<and> ?P r" if "rel w i = Some r" for i r
    using that by (force simp: xs)
  have old: "rel w2 i = Some a \<Longrightarrow> \<exists>r. rel w i = Some r \<and> (i \<in> set aff \<or> a = r) \<and>
      (i \<in> set aff \<longrightarrow> rl_key a = body_key values custom r) \<and>
      rl_revision a = (if i \<in> set aff \<and> ?P r \<and> unique_part_filters values custom \<noteq> [] then None else rl_revision r)" for i a
  proof -
    assume a: "rel w2 i = Some a"
    obtain r where r: "rel w i = Some r"
      using a by (cases "rel w i") (auto simp: w1 w2 split: if_splits)
    have key: "rl_key (apply_values values (r\<lparr>rl_revision := None\<rparr>)) = body_key values custom r"
      using pf(2) [of "r\<lparr>rl_revision := None\<rparr>"] by (simp add: body_key_def body_core_def rl_core_def split: option.splits)
    show ?thesis
      using a r in_xs [OF r] key pf(2,4) [of r] by (auto simp: w1 w2 apply_values_def split: if_splits)
  qed
  have kept: "\<exists>r. rel w i = Some r \<and> rl_key a = rl_key r \<and> rl_revision a = rl_revision r"
    if rev: "rel w2 i = Some a" "rl_revision a \<noteq> None" for i a
  proof -
    obtain r where r: "rel w i = Some r" "i \<in> set aff \<or> a = r"
      "i \<in> set aff \<longrightarrow> rl_key a = body_key values custom r" "rl_revision a = rl_revision r"
      "\<not> (i \<in> set aff \<and> ?P r \<and> unique_part_filters values custom \<noteq> [])"
      using old [OF rev(1)] rev(2) by (auto split: if_splits)
    have "rl_key a = rl_key r"
    proof (cases "i \<in> set aff")
      case True
      then have "\<not> ?U r" using r(5) revision_filters_eq [of r "values" custom] by auto
      then show ?thesis
        using changed_key_filtered [of r "values" custom] rev(2) r(3,4) True by auto
    qed (use r(2) in simp)
    with r show ?thesis by blast
  qed
  have "unique_revisions (rel w2)"
    unfolding unique_revisions_def
  proof (intro allI impI, elim conjE)
    fix i j a b
    assume ij: "rel w2 i = Some a" "rel w2 j = Some b" "rl_key a = rl_key b" "rl_revision a = rl_revision b"
      "rl_revision a \<noteq> None"
    obtain r s where "rel w i = Some r" "rl_key a = rl_key r" "rl_revision a = rl_revision r"
      "rel w j = Some s" "rl_key b = rl_key s" "rl_revision b = rl_revision s"
      using kept [OF ij(1,5)] kept [OF ij(2)] ij(4,5) by auto
    then show "i = j"
      using parse(3) ij(3-5) unfolding unique_revisions_def by metis
  qed
  moreover have "readable (re_parse env) (rel w2)"
    unfolding readable_def
  proof (intro allI impI)
    fix i a assume a: "rel w2 i = Some a"
    then obtain r0 where r0: "rel w1 i = Some r0" "a = (if i \<in> set aff then apply_values values r0 else r0)"
      by (auto simp: w2 split: if_splits)
    obtain r where r: "rel w i = Some r" "rl_core r0 = rl_core r" "rl_build r0 = rl_build r"
      using r0(1) by (auto simp: w1 rl_core_def split: if_splits)
    obtain t sv where t: "re_parse env t = Some sv" "rl_core r0 = sv_core sv" "rl_build r0 = js_join ''.'' (sv_build sv)"
      using parse(2) r unfolding readable_def by metis
    show "\<exists>s sv. re_parse env s = Some sv \<and> rl_core a = sv_core sv \<and> rl_build a = js_join ''.'' (sv_build sv)"
      using t r0(2) pf(3,5) [of r0] by (cases "cu_semver custom") (auto simp: body_core_def)
  qed
  ultimately show "numbered (\<lambda>i. map_option rl_key (rel w2 i)) (finals (rel w2)) w2"
    by (simp add: numbered_def)
  have final2: "i \<in> finals (rel w2)" if "rel w i = Some r" "rl_revision r \<noteq> None" "i \<notin> fst ` set xs" for i r
    using that pf(4) [of r] by (auto simp: finals_def w1 w2)
  show "finals (rel w) \<subseteq> finals (rel w2) \<union> fst ` set (case rs of None \<Rightarrow> [] | Some xs \<Rightarrow> xs)"
    unfolding xs_def [symmetric] using final2 by (auto simp: finals_def)
  show "{i \<in> set aff. rel w i \<noteq> None} \<subseteq> finals (rel w2) \<union> fst ` set (case rs of None \<Rightarrow> [] | Some xs \<Rightarrow> xs)"
    if "truthy (cu_is_final custom)"
    unfolding xs_def [symmetric]
  proof
    fix i assume i: "i \<in> {i \<in> set aff. rel w i \<noteq> None}"
    then obtain r where r: "rel w i = Some r" by auto
    then show "i \<in> finals (rel w2) \<union> fst ` set xs"
      using i that in_xs [OF r] revision_filters_eq [of r "values" custom] final2 [OF r]
      by (cases "rl_revision r = None") auto
  qed
  show "map_option rl_key (rel w2 (fst x)) = Some (body_key values custom (snd x))"
    if "rs = Some ys" "x \<in> set ys" for ys x
  proof -
    have x: "fst x \<in> set aff" "rel w (fst x) = Some (snd x)"
      using that xs by (auto simp: xs_def)
    then have "rel w2 (fst x) \<noteq> None"
      by (simp add: w1 w2)
    then obtain a where "rel w2 (fst x) = Some a"
      by blast
    then show ?thesis using old [of "fst x" a] x by auto
  qed
  show "rl_core (snd x) = sv_core sv"
    if "rs = Some ys" "x \<in> set ys" "re_parse env (semver_text (snd x)) = Some sv" for ys x sv
    using that xs readable_parse [OF parse(1,2), of "fst x" "snd x" sv] by (auto simp: xs_def)
qed

lemma patch_release_ok:
  assumes "parse_contract (re_parse env)" "readable (re_parse env) (rel w)" "unique_revisions (rel w)"
    and "patch_release env body w = (Inr (), w')"
  shows "unique_revisions (rel w') \<and> readable (re_parse env) (rel w') \<and> finals (rel w) \<subseteq> finals (rel w') \<and>
    (truthy (map_of body ''is_final'') \<longrightarrow> {i \<in> set aff. rel w i \<noteq> None} \<subseteq> finals (rel w')) \<and>
    (map_of body ''is_final'' = Some (JBool False) \<longrightarrow> set aff \<inter> finals (rel w) = {})"
proof -
  obtain vs custom w0 rs w1 w2 where run:
    "parseReleaseVersioningFields (re_parse env) body = Inr (vs, custom)"
    "preventChangingFinalToDraft env custom w = (Inr (), w0)"
    "setReleasesToSetRevision env vs custom w0 = (Inr rs, w1)"
    "re_update env vs w1 = (Inr (), w2)"
    "patch_post_run env vs custom rs w2 = (Inr (), w')"
    using assms(4) by (auto simp: patch_release_def io_run_iffs split: prod.splits)
  have w0: "rel w0 = rel w" using prevent_rel [OF run(2)] by simp
  note before = patch_before_numbering [OF assms(1) assms(2,3) [folded w0] run(1,3,4), unfolded w0]
  define xs where "xs = (case rs of None \<Rightarrow> [] | Some xs \<Rightarrow> xs)"
  note before = before [folded xs_def]
  have "numbered (\<lambda>i. map_option rl_key (rel w2 i)) (finals (rel w2) \<union> fst ` set xs) w'"
  proof (cases rs)
    case None
    then show ?thesis
      using before(1) run(5) by (simp add: patch_post_run_def io_return_def xs_def)
  next
    case (Some ys)
    then show ?thesis
      using patch_post_run_numbered [OF before(1) run(5) [unfolded Some]] before(4,5) by (simp add: xs_def)
  qed
  then have num: "unique_revisions (rel w')" "readable (re_parse env) (rel w')"
    "finals (rel w2) \<union> fst ` set xs \<subseteq> finals (rel w')"
    by (simp_all add: numbered_def)
  have "truthy (map_of body ''is_final'') \<longrightarrow> {i \<in> set aff. rel w i \<noteq> None} \<subseteq> finals (rel w')"
    using subset_trans [OF before(3) num(3)] parse_fields(1) [OF run(1)] by simp
  then show ?thesis
    using num(1,2) subset_trans [OF before(2) num(3)] prevent_rel [OF run(2)] parse_fields(1) [OF run(1)] by simp
qed

lemma post_release_ok:
  assumes "parse_contract (re_parse env)" "readable (re_parse env) (rel w)" "unique_revisions (rel w)"
    and "post_release env body w = (Inr i, w')"
  shows "unique_revisions (rel w') \<and> readable (re_parse env) (rel w') \<and> rel w i = None \<and>
    (\<forall>j. j \<noteq> i \<longrightarrow> rel w' j = rel w j) \<and>
    (\<exists>r. rel w' i = Some r \<and>
       (case map_of body ''is_final'' of
          Some (JBool False) \<Rightarrow> rl_revision r = None
        | _ \<Rightarrow> truthy (map_of body ''is_final'') \<or> \<not> not_nullish (map_of body ''is_final'') \<longrightarrow>
            (\<exists>n. rl_revision r = Some n \<and> below (rl_key r) n w)))"
proof -
  obtain vs0 c0 where parse: "parseReleaseVersioningFields (re_parse env) body = Inr (vs0, c0)"
    and "\<exists>vs custom. post_parse (re_parse env) body = Inr (vs, custom)"
    using assms(4) by (auto simp: post_release_def post_parse_def io_run_iffs res_bind_Inr_iff split: prod.splits)
  define vs where "vs = (if not_nullish (map_of vs0 ''variant'') then vs0 else obj_set ''variant'' (JStr []) vs0)"
  define custom where "custom = (if not_nullish (cu_is_final c0) then c0 else c0\<lparr>cu_is_final := Some (JBool True)\<rparr>)"
  have pp: "post_parse (re_parse env) body = Inr (vs, custom)"
    by (simp add: post_parse_def parse vs_def custom_def)
  obtain w1 where run: "re_insert env vs w = (Inr i, w1)" "post_run env vs custom i w1 = (Inr (), w')"
    "body_app vs \<noteq> None" "body_variant vs \<noteq> None"
    using assms(4) pp by (auto simp: post_release_def io_run_iffs split: if_splits)
  define row where "row = apply_values vs blank_release"
  have w1: "rel w i = None" "rel w1 = (rel w)(i \<mapsto> row)"
    using insert [OF run(1)] by (simp_all add: row_def)
  note pf1 = parse_fields(1) [OF parse]
  note pf0 = parse_fields(2-5) [OF parse, of blank_release]
  have row0: "rl_core row = rl_core (apply_values vs0 blank_release)" "rl_build row = rl_build (apply_values vs0 blank_release)"
    "rl_revision row = None"
    by (simp_all add: row_def vs_def apply_values_def rl_core_def blank_release_def)
  have row_sv: "\<exists>s sv. re_parse env s = Some sv \<and> rl_core row = sv_core sv \<and> rl_build row = js_join ''.'' (sv_build sv) \<and>
      (case cu_semver custom of Some x \<Rightarrow> x | None \<Rightarrow> DEFAULT_SEMVER) = sv"
  proof (cases "cu_semver c0")
    case None
    then have "rl_core row = sv_core DEFAULT_SEMVER \<and> rl_build row = js_join ''.'' (sv_build DEFAULT_SEMVER)"
      using pf0(2,4) row0 by (simp add: body_core_def blank_release_def rl_core_def sv_core_def DEFAULT_SEMVER_def)
    then show ?thesis
      using assms(1) None by (auto simp: parse_contract_def custom_def)
  next
    case (Some sv)
    then show ?thesis using pf0(2,4) row0 by (auto simp: body_core_def custom_def)
  qed
  have inserted: "unique_revisions (rel w1)" "readable (re_parse env) (rel w1)"
  proof -
    show "unique_revisions (rel w1)"
      using assms(3) row0(3) unfolding unique_revisions_def w1(2) by (metis fun_upd_apply option.inject)
    show "readable (re_parse env) (rel w1)"
      using assms(2) row_sv unfolding readable_def w1(2) by (metis fun_upd_apply option.inject)
  qed
  show ?thesis
  proof (cases "truthy (cu_is_final custom)")
    case False
    then have "w' = w1" using run(2) by (simp add: post_run_def io_return_def)
    moreover have "\<not> truthy (map_of body ''is_final'')" "not_nullish (map_of body ''is_final'')"
      using False pf1 by (auto simp: custom_def split: if_splits)
    ultimately show ?thesis
      using inserted w1 row0(3) by (auto split: option.splits json.splits)
  next
    case True
    obtain sv where sv: "sv = (case cu_semver custom of Some x \<Rightarrow> x | None \<Rightarrow> DEFAULT_SEMVER)" "rl_core row = sv_core sv"
      using row_sv by auto
    have key: "rl_key row = (the (body_app vs), sv_core sv, the (body_variant vs))"
      using run(3,4) sv(2) by (auto simp: rl_key_def row_def apply_values_def)
    obtain w2 n w3 d where steps: "re_lock env (the (body_app vs)) w1 = (Inr (), w2)"
      "getNextRevision env (the (body_app vs)) sv (the (body_variant vs)) w2 = (Inr n, w3)"
      "re_set_revision env i n d w3 = (Inr (), w')"
      using run(2) True by (auto simp: post_run_def Let_def io_run_iffs sv(1))
    have rel3: "rel w3 = rel w1" "below (rl_key row) n w1"
      using lock [OF steps(1)] getNextRevision_below [OF steps(2)] key by (auto simp: below_def)
    have "numbered (\<lambda>i. map_option rl_key (rel w1 i)) {} w3"
      using inserted rel3(1) by (simp add: numbered_def)
    from set_revision_numbered [OF this _ _ steps(3), of "rl_key row"] rel3
    have num: "numbered (\<lambda>i. map_option rl_key (rel w1 i)) {i} w'"
      by (simp add: w1(2) below_def)
    have w': "rel w' = (rel w)(i \<mapsto> row\<lparr>rl_revision := Some n, rl_finalized := (case d of None \<Rightarrow> rl_finalized row | Some t \<Rightarrow> Some t)\<rparr>)"
      using set_revision [OF steps(3)] rel3(1) w1(2) by simp
    have "below (rl_key row) n w"
      using rel3(2) w1 unfolding below_def by (metis fun_upd_other option.distinct(1))
    moreover have "map_of body ''is_final'' \<noteq> Some (JBool False)"
      using True pf1 by (auto simp: custom_def not_nullish_def split: if_splits)
    ultimately show ?thesis
      using num w' w1(1) unfolding numbered_def
      by (auto simp: rl_key_def rl_core_def split: option.splits json.splits bool.splits)
  qed
qed

end

section \<open>An in-memory table\<close>

record rel_world =
  rw_rows :: "(int \<times> release_row) list"
  rw_now :: int

definition rw_rel :: "rel_world \<Rightarrow> releases" where
  "rw_rel w = map_of (rw_rows w)"

definition rw_update :: "(int \<Rightarrow> release_row \<Rightarrow> release_row) \<Rightarrow> rel_world \<Rightarrow> rel_world" where
  "rw_update f w = w\<lparr>rw_rows := map (\<lambda>(i, r). (i, f i r)) (rw_rows w)\<rparr>"

definition rw_revisions :: "int \<Rightarrow> version_core \<Rightarrow> string \<Rightarrow> rel_world \<Rightarrow> int list" where
  "rw_revisions a c v w =
     List.map_filter (\<lambda>i. case rw_rel w i of None \<Rightarrow> None
       | Some r \<Rightarrow> if rl_key r = (a, c, v) then rl_revision r else None) (map fst (rw_rows w))"

definition mem_release_env :: "(string \<Rightarrow> semver option) \<Rightarrow> int list \<Rightarrow> rel_world release_env" where
  "mem_release_env parse affected_ids =
     \<lparr>re_parse = parse, re_now = rw_now, re_lock = (\<lambda>a. io_return ()), re_affected = io_return affected_ids,
      re_has_final = (\<lambda>ids w. (Inr (list_ex (\<lambda>i. case rw_rel w i of None \<Rightarrow> False
          | Some r \<Rightarrow> rl_revision r \<noteq> None) ids), w)),
      re_latest = (\<lambda>a c v w. (Inr (case rw_revisions a c v w of [] \<Rightarrow> [] | r # rs \<Rightarrow> [fold max rs r]), w)),
      re_select = (\<lambda>ids p w. (Inr (map (\<lambda>i. (i, the (rw_rel w i)))
          (filter (\<lambda>i. case rw_rel w i of None \<Rightarrow> False | Some r \<Rightarrow> p r) (remdups ids))), w)),
      re_null_revisions = (\<lambda>ids w. (Inr (), rw_update (\<lambda>i r. if i \<in> set ids then r\<lparr>rl_revision := None\<rparr> else r) w)),
      re_set_revision = (\<lambda>k n d w. (Inr (), rw_update (\<lambda>i r. if i = k
          then r\<lparr>rl_revision := Some n, rl_finalized := (case d of None \<Rightarrow> rl_finalized r | Some t \<Rightarrow> Some t)\<rparr> else r) w)),
      re_insert = (\<lambda>vs w. let i = fold max (map fst (rw_rows w)) 0 + 1
          in (Inr i, w\<lparr>rw_rows := (i, apply_values vs blank_release) # rw_rows w\<rparr>)),
      re_update = (\<lambda>vs w. (Inr (), rw_update (\<lambda>i r. if i \<in> set affected_ids then apply_values vs r else r) w))\<rparr>"

lemma rw_rel_update: "rw_rel (rw_update f w) i = map_option (f i) (rw_rel w i)"
proof -
  have "map_of (map (\<lambda>(i, r). (i, f i r)) xs) i = map_option (f i) (map_of xs i)" for xs
    by (induction xs) auto
  then show ?thesis by (simp add: rw_rel_def rw_update_def)
qed

lemma rw_revisions_set:
  "n \<in> set (rw_revisions a c v w) \<longleftrightarrow> (\<exists>i r. rw_rel w i = Some r \<and> rl_key r = (a, c, v) \<and> rl_revision r = Some n)"
proof -
  have "rw_rel w i = Some r \<Longrightarrow> i \<in> fst ` set (rw_rows w)" for i r
    by (force simp: rw_rel_def dest: map_of_SomeD)
  then show ?thesis
    by (force simp: rw_revisions_def map_filter_def split: option.splits if_splits)
qed

interpretation mem_releases: release_db "mem_release_env parse ids" rw_rel ids for parse ids
proof
  fix a c v w rs w'
  assume "re_latest (mem_release_env parse ids) a c v w = (Inr rs, w')"
  then have rs: "rs = (case rw_revisions a c v w of [] \<Rightarrow> [] | r # rs \<Rightarrow> [fold max rs r])" "w' = w"
    by (auto simp: mem_release_env_def)
  show "rw_rel w' = rw_rel w \<and>
      (case rs of
         [] \<Rightarrow> \<forall>i r. rw_rel w i = Some r \<and> rl_key r = (a, c, v) \<longrightarrow> rl_revision r = None
       | n # _ \<Rightarrow> (\<exists>i r. rw_rel w i = Some r \<and> rl_key r = (a, c, v) \<and> rl_revision r = Some n) \<and>
           (\<forall>i r m. rw_rel w i = Some r \<and> rl_key r = (a, c, v) \<and> rl_revision r = Some m \<longrightarrow> m \<le> n))"
  proof (cases "rw_revisions a c v w")
    case Nil
    have "rl_revision r = None" if "rw_rel w i = Some r" "rl_key r = (a, c, v)" for i r
      using rw_revisions_set [of _ a c v w] that Nil by (cases "rl_revision r") auto
    then have "\<forall>i r. rw_rel w i = Some r \<and> rl_key r = (a, c, v) \<longrightarrow> rl_revision r = None"
      by blast
    then show ?thesis using rs Nil by simp
  next
    case (Cons n ns)
    have one: "rs = [fold max ns n]" using rs(1) Cons by simp
    have "m \<le> fold max ns n" if "rw_rel w i = Some r" "rl_key r = (a, c, v)" "rl_revision r = Some m" for i r m
      using fold_max [of ns n] rw_revisions_set [of m a c v w] that unfolding Cons by auto
    moreover have "\<exists>i r. rw_rel w i = Some r \<and> rl_key r = (a, c, v) \<and> rl_revision r = Some (fold max ns n)"
      using fold_max [of ns n] rw_revisions_set [of "fold max ns n" a c v w] unfolding Cons by auto
    ultimately show ?thesis unfolding one rs(2) by auto
  qed
next
  fix vs w i w'
  assume "re_insert (mem_release_env parse ids) vs w = (Inr i, w')"
  then have i: "i = fold max (map fst (rw_rows w)) 0 + 1"
    "w' = w\<lparr>rw_rows := (i, apply_values vs blank_release) # rw_rows w\<rparr>"
    by (auto simp: mem_release_env_def Let_def)
  have "i \<notin> fst ` set (rw_rows w)"
    using fold_max [of "map fst (rw_rows w)" 0] unfolding i(1) by force
  then show "rw_rel w i = None \<and> rw_rel w' = (rw_rel w)(i \<mapsto> apply_values vs blank_release)"
    by (simp add: rw_rel_def i(2) map_of_eq_None_iff)
next
  fix sel p w xs w'
  assume "re_select (mem_release_env parse ids) sel p w = (Inr xs, w')"
  then have xs: "xs = map (\<lambda>i. (i, the (rw_rel w i)))
      (filter (\<lambda>i. case rw_rel w i of None \<Rightarrow> False | Some r \<Rightarrow> p r) (remdups sel))" "w' = w"
    by (auto simp: mem_release_env_def)
  have "map fst xs = filter (\<lambda>i. case rw_rel w i of None \<Rightarrow> False | Some r \<Rightarrow> p r) (remdups sel)"
    unfolding xs(1) by (simp add: comp_def)
  moreover have "set xs = {(i, r). i \<in> set sel \<and> rw_rel w i = Some r \<and> p r}"
    unfolding xs(1) by (force split: option.splits)
  ultimately show "rw_rel w' = rw_rel w \<and> distinct (map fst xs) \<and>
      set xs = {(i, r). i \<in> set sel \<and> rw_rel w i = Some r \<and> p r}"
    by (simp add: xs(2))
next
  fix sel w b w'
  assume "re_has_final (mem_release_env parse ids) sel w = (Inr b, w')"
  then have b: "w' = w" "b \<longleftrightarrow> list_ex (\<lambda>i. case rw_rel w i of None \<Rightarrow> False | Some r \<Rightarrow> rl_revision r \<noteq> None) sel"
    by (auto simp: mem_release_env_def)
  have "(case rw_rel w i of None \<Rightarrow> False | Some r \<Rightarrow> rl_revision r \<noteq> None) \<longleftrightarrow> i \<in> finals (rw_rel w)" for i
    by (auto simp: finals_def split: option.splits)
  then show "rw_rel w' = rw_rel w \<and> b = (\<exists>i \<in> set sel. i \<in> finals (rw_rel w))"
    by (simp add: b list_ex_iff)
next
  fix k n d w w'
  assume "re_set_revision (mem_release_env parse ids) k n d w = (Inr (), w')"
  then have "w' = rw_update (\<lambda>i r. if i = k
      then r\<lparr>rl_revision := Some n, rl_finalized := (case d of None \<Rightarrow> rl_finalized r | Some t \<Rightarrow> Some t)\<rparr> else r) w"
    by (simp add: mem_release_env_def)
  then show "rw_rel w' = (rw_rel w)(k := map_option
      (\<lambda>r. r\<lparr>rl_revision := Some n, rl_finalized := (case d of None \<Rightarrow> rl_finalized r | Some t \<Rightarrow> Some t)\<rparr>) (rw_rel w k))"
    by (simp add: fun_eq_iff rw_rel_update option.map_ident)
next
  fix sel w w'
  assume "re_null_revisions (mem_release_env parse ids) sel w = (Inr (), w')"
  then have "w' = rw_update (\<lambda>i r. if i \<in> set sel then r\<lparr>rl_revision := None\<rparr> else r) w"
    by (simp add: mem_release_env_def)
  then show "rw_rel w' = (\<lambda>i. if i \<in> set sel then map_option (rl_revision_update (\<lambda>_. None)) (rw_rel w i) else rw_rel w i)"
    by (simp add: fun_eq_iff rw_rel_update option.map_ident)
next
  fix vs w w'
  assume "re_update (mem_release_env parse ids) vs w = (Inr (), w')"
  then have "w' = rw_update (\<lambda>i r. if i \<in> set ids then apply_values vs r else r) w"
    by (simp add: mem_release_env_def)
  then show "rw_rel w' = (\<lambda>i. if i \<in> set ids then map_option (apply_values vs) (rw_rel w i) else rw_rel w i)"
    by (simp add: fun_eq_iff rw_rel_update option.map_ident)
qed (simp_all add: mem_release_env_def io_return_def)

section \<open>What versioning guarantees\<close>

definition demo_version :: string where
  "demo_version = semver_text (semver_row DEFAULT_SEMVER)"

definition demo_parse :: "string \<Rightarrow> semver option" where
  "demo_parse s = (if s = demo_version then Some DEFAULT_SEMVER else None)"

definition demo_releases :: rel_world where
  "demo_releases = \<lparr>rw_rows =
     [(1, blank_release\<lparr>rl_app := 7, rl_revision := Some 0\<rparr>), (2, blank_release\<lparr>rl_app := 7\<rparr>)], rw_now = 100\<rparr>"

lemma demo_parse_contract: "parse_contract demo_parse"
  by (simp add: parse_contract_def demo_parse_def demo_version_def)

lemma demo_rel: "rw_rel demo_releases i =
    (if i = 1 then Some (blank_release\<lparr>rl_app := 7, rl_revision := Some 0\<rparr>)
     else if i = 2 then Some (blank_release\<lparr>rl_app := 7\<rparr>) else None)"
  by (simp add: rw_rel_def demo_releases_def)

lemma demo_readable: "readable demo_parse (rw_rel demo_releases)"
proof -
  have "demo_parse demo_version = Some DEFAULT_SEMVER" by (simp add: demo_parse_def)
  then show ?thesis
    unfolding readable_def demo_rel
    by (auto simp: rl_core_def sv_core_def blank_release_def DEFAULT_SEMVER_def split: if_splits intro!: exI)
qed

lemma demo_unique: "unique_revisions (rw_rel demo_releases)"
  by (auto simp: unique_revisions_def demo_rel blank_release_def split: if_splits)

text \<open>
  Claim C2. Changing releases keeps their versions unambiguous: after a request that succeeds, no two
  final releases of an application with the same version core and variant have the same revision,
  whatever the request changes and however many releases it changes at once; no final release has
  become a draft; a request that sets \<^verbatim>\<open>is_final\<close> has made all its releases final, and one that
  clears it has touched no final release.
\<close>

theorem patch_release_revisions:
  assumes "release_db env rel aff" and "parse_contract (re_parse env)"
    and "readable (re_parse env) (rel w)" and "unique_revisions (rel w)"
    and "patch_release env body w = (Inr (), w')"
  shows "unique_revisions (rel w') \<and> readable (re_parse env) (rel w') \<and> finals (rel w) \<subseteq> finals (rel w') \<and>
    (truthy (map_of body ''is_final'') \<longrightarrow> {i \<in> set aff. rel w i \<noteq> None} \<subseteq> finals (rel w')) \<and>
    (map_of body ''is_final'' = Some (JBool False) \<longrightarrow> set aff \<inter> finals (rel w) = {})"
  by (rule release_db.patch_release_ok [OF assms])

lemma demo_patch:
  "\<exists>w'. patch_release (mem_release_env demo_parse [1, 2]) [(''is_final'', JBool True), (''semver'', JStr demo_version)]
     demo_releases = (Inr (), w')"
  by (simp add: patch_release_def io_simps parseReleaseVersioningFields_def not_nullish_def demo_parse_def
      preventChangingFinalToDraft_def setReleasesToSetRevision_def revision_filters_def unique_part_filters_def
      body_app_def body_variant_def obj_delete_def set_semver_parts_def mem_release_env_def demo_rel
      patch_post_run_def releases_by_app_def releases_by_variant_def groupByMap_def group_step_def
      number_group_def getNextRevision_def checkNotDifferentRevision_def user_revisions_def
      List.map_filter_simps DEFAULT_SEMVER_def rl_core_def sv_core_def blank_release_def number_release_def
      split: option.splits list.splits)

theorem patch_release_revisions_witness:
  "\<exists>w'. patch_release (mem_release_env demo_parse [1, 2]) [(''is_final'', JBool True), (''semver'', JStr demo_version)]
     demo_releases = (Inr (), w') \<and> unique_revisions (rw_rel w') \<and> {1, 2} \<subseteq> finals (rw_rel w')"
proof -
  obtain w' where w': "patch_release (mem_release_env demo_parse [1, 2])
      [(''is_final'', JBool True), (''semver'', JStr demo_version)] demo_releases = (Inr (), w')"
    using demo_patch by blast
  have pc: "parse_contract (re_parse (mem_release_env demo_parse [1, 2]))"
    "readable (re_parse (mem_release_env demo_parse [1, 2])) (rw_rel demo_releases)"
    using demo_parse_contract demo_readable by (simp_all add: mem_release_env_def)
  note all = patch_release_revisions [OF mem_releases.release_db_axioms pc demo_unique w']
  have "{i \<in> set [1, 2]. rw_rel demo_releases i \<noteq> None} = {1, 2}"
    by (auto simp: demo_rel)
  with all have "{1, 2} \<subseteq> finals (rw_rel w')" by simp
  with all w' show ?thesis by blast
qed

text \<open>
  Creating a release adds exactly that release and keeps versions unambiguous: unless the
  request says it is a draft, the new release is final, with a revision above those of all releases
  with its application, version core and variant.
\<close>

lemma post_release_revisions:
  assumes "release_db env rel aff" and "parse_contract (re_parse env)"
    and "readable (re_parse env) (rel w)" and "unique_revisions (rel w)"
    and "post_release env body w = (Inr i, w')"
  shows "unique_revisions (rel w') \<and> readable (re_parse env) (rel w') \<and> rel w i = None \<and>
    (\<forall>j. j \<noteq> i \<longrightarrow> rel w' j = rel w j) \<and>
    (\<exists>r. rel w' i = Some r \<and>
       (case map_of body ''is_final'' of
          Some (JBool False) \<Rightarrow> rl_revision r = None
        | _ \<Rightarrow> truthy (map_of body ''is_final'') \<or> \<not> not_nullish (map_of body ''is_final'') \<longrightarrow>
            (\<exists>n. rl_revision r = Some n \<and>
               (\<forall>j s m. rel w j = Some s \<and> rl_key s = rl_key r \<and> rl_revision s = Some m \<longrightarrow> m < n))))"
  using release_db.post_release_ok [OF assms] unfolding release_db.below_def [OF assms(1)] .

section \<open>Following the latest release\<close>

definition trackable :: "release_row \<Rightarrow> bool \<Rightarrow> bool \<Rightarrow> string \<Rightarrow> bool" where
  "trackable r is_passing_tests is_invalidated status \<longleftrightarrow>
     rl_revision r \<noteq> None \<and> is_passing_tests \<and> \<not> is_invalidated \<and> status = ''success''"

definition releaseStateFields :: "string list" where
  "releaseStateFields = [''revision'', ''is_passing_tests'', ''is_invalidated'', ''status'']"

text \<open>
  \<open>apps_to_update ids\<close> returns the tracking applications that own one of the releases, with their
  trackable release that started last; \<open>set_target\<close> only writes to an application that still tracks.
\<close>

definition updateLatestRelease ::
  "(int list \<Rightarrow> ('w, (int \<times> int option) list) io) \<Rightarrow> (int \<Rightarrow> int \<Rightarrow> ('w, unit) io) \<Rightarrow> int list \<Rightarrow> ('w, unit) io"
where
  "updateLatestRelease apps_to_update set_target releaseIds =
     (if length releaseIds = 0 then io_return ()
      else io_bind (apps_to_update releaseIds) (\<lambda>appsToUpdate.
        if length appsToUpdate = 0 then io_return ()
        else io_bind (io_mapM (\<lambda>(app, release).
               case release of None \<Rightarrow> io_return () | Some r \<Rightarrow> set_target app r) appsToUpdate)
             (\<lambda>_. io_return ())))"

definition track_after_patch ::
  "(int list \<Rightarrow> ('w, (int \<times> int option) list) io) \<Rightarrow> (int \<Rightarrow> int \<Rightarrow> ('w, unit) io) \<Rightarrow> int list option \<Rightarrow>
   json obj \<Rightarrow> ('w, unit) io"
where
  "track_after_patch apps_to_update set_target affectedIds vals =
     (case affectedIds of
        None \<Rightarrow> io_return ()
      | Some ids \<Rightarrow>
          (if length ids > 0 \<and> list_ex (\<lambda>field. field \<in> set (obj_keys vals)) releaseStateFields
           then updateLatestRelease apps_to_update set_target ids else io_return ()))"

definition track_after_post ::
  "(int list \<Rightarrow> ('w, (int \<times> int option) list) io) \<Rightarrow> (int \<Rightarrow> int \<Rightarrow> ('w, unit) io) \<Rightarrow>
   (int \<Rightarrow> ('w, bool) io) \<Rightarrow> int option \<Rightarrow> ('w, unit) io"
where
  "track_after_post apps_to_update set_target is_trackable result =
     (case result of
        None \<Rightarrow> io_return ()
      | Some releaseId \<Rightarrow>
          io_bind (is_trackable releaseId) (\<lambda>ok.
            if ok then updateLatestRelease apps_to_update set_target [releaseId] else io_return ()))"

lemma updateLatestRelease_targets:
  assumes "\<And>ids w r w'. apps_to_update ids w = (r, w') \<Longrightarrow> target w' = (target w :: int \<Rightarrow> int option)"
    and "\<And>a r w x w'. set_target a r w = (Inr x, w') \<Longrightarrow> target w' = (target w)(a \<mapsto> r)"
    and "updateLatestRelease apps_to_update set_target ids w = (Inr (), w')"
    and "fst (apps_to_update ids w) = Inr apps" "distinct (map fst apps)" "(a, Some r) \<in> set apps" "ids \<noteq> []"
  shows "target w' a = Some r"
proof -
  obtain w1 us where run: "apps_to_update ids w = (Inr apps, w1)"
    "io_mapM (\<lambda>(app, release). case release of None \<Rightarrow> io_return () | Some r \<Rightarrow> set_target app r) apps w1 = (Inr us, w')"
    using assms(3,4,6,7) by (auto simp: updateLatestRelease_def io_run_iffs split: if_splits)
  have "\<exists>us. io_mapM (\<lambda>(app, release). case release of None \<Rightarrow> io_return () | Some r \<Rightarrow> set_target app r) xs v = (Inr us, w') \<Longrightarrow>
      distinct (map fst xs) \<Longrightarrow>
      (\<forall>a. a \<notin> fst ` set xs \<longrightarrow> target w' a = target v a) \<and> (\<forall>a r. (a, Some r) \<in> set xs \<longrightarrow> target w' a = Some r)" for xs v
  proof (induction xs arbitrary: v)
    case Nil
    then show ?case by (auto simp: io_return_def)
  next
    case (Cons x xs)
    obtain b q where x: "x = (b, q)" by (cases x)
    obtain v1 us' where v1: "(case q of None \<Rightarrow> io_return () | Some r \<Rightarrow> set_target b r) v = (Inr (), v1)"
      "io_mapM (\<lambda>(app, release). case release of None \<Rightarrow> io_return () | Some r \<Rightarrow> set_target app r) xs v1 = (Inr us', w')"
      using Cons.prems(1) x by (auto simp: io_run_iffs)
    have "target v1 = (case q of None \<Rightarrow> target v | Some r \<Rightarrow> (target v)(b \<mapsto> r))"
      using v1(1) assms(2) by (auto simp: io_return_def split: option.splits)
    then show ?case
      using Cons.IH [of v1] v1(2) Cons.prems(2) x by (auto split: option.splits)
  qed
  then show ?thesis using run(2) assms(5,6) by blast
qed

section \<open>Deleting releases\<close>

text \<open>
  \<open>app_targeting\<close> returns an application whose target is one of the releases, as the version of the
  target and the class of the application.
\<close>

definition restrict_release_deletion ::
  "('w, int list) io \<Rightarrow> (int list \<Rightarrow> ('w, (string \<times> string) option) io) \<Rightarrow> (int list \<Rightarrow> ('w, bool) io) \<Rightarrow> ('w, unit) io"
where
  "restrict_release_deletion affected app_targeting device_pinned =
     io_bind affected (\<lambda>affectedIds.
       if length affectedIds = 0 then io_return ()
       else io_bind (app_targeting affectedIds) (\<lambda>app.
         case app of
           Some (raw, class) \<Rightarrow> io_throw (BadRequestError (''Unable to delete release '' @ raw @
             '' because it is the '' @ class @ [CHR 0x27] @ ''s target release.''))
         | None \<Rightarrow>
             io_bind (device_pinned affectedIds) (\<lambda>pinned.
               if pinned
               then io_throw (BadRequestError ''Unable to delete a release because device(s) are pinned to it.'')
               else io_return ())))"

text \<open>A deletion that passes has no release that an application targets or a device is pinned to.\<close>

lemma restrict_release_deletion_passes:
  assumes "restrict_release_deletion (io_return ids) app_targeting device_pinned w = (Inr (), w')" and "ids \<noteq> []"
  shows "\<exists>w1. app_targeting ids w = (Inr None, w1) \<and> device_pinned ids w1 = (Inr False, w')"
  using assms
  by (auto simp: restrict_release_deletion_def io_run_iffs split: option.splits if_splits prod.splits)
    (metis not_None_eq surj_pair)

end
