(* ===== verification/ServiceInstalls.thy ===== *)
theory ServiceInstalls
  imports Utils
begin

text \<open>
  Which services a device has installed (\<^verbatim>\<open>src/features/ci-cd/hooks/service-installs.ts\<close>): the hooks
  on applications and devices that add the missing installs at once or leave tasks to do it, the task
  (\<^verbatim>\<open>ci-cd/tasks/service-installs.ts\<close>), and the hook that fills in device and service of a variable
  (\<^verbatim>\<open>service-install/hooks/backfill-device-service-environment-variable.ts\<close>).

  Queries are fields of an environment.  The locale \<open>installs_db\<close> says what they do over the set of
  installs, pairs of a device and a service, and the list of tasks; which devices a filter selects and
  which services a release has does not change while a hook runs.
\<close>

section \<open>Filters and queries\<close>

datatype release_filter =
    ReleaseIs int
  | ReleaseIn "int list"
  | TargetOfApplication int

text \<open>\<open>UnpinnedOf apps\<close>: the devices of the applications that are not pinned on a release.\<close>

datatype device_filter =
    DeviceIds "int list"
  | UnpinnedOf "int list"

text \<open>
  \<open>si_missing f ss\<close> returns the devices of the filter that lack one of the services, with those of
  them they have.  \<open>si_targets\<close> returns, of a list of devices, those that exist, with the services of
  their target, supervisor and host application releases.
\<close>

record 'w installs_env =
  si_async :: bool
  si_batch_size :: nat
  si_max_time :: int
  si_now :: "'w \<Rightarrow> int"
  si_device_ids :: "device_filter \<Rightarrow> ('w, int list) io"
  si_services :: "release_filter \<Rightarrow> ('w, int list) io"
  si_missing :: "device_filter \<Rightarrow> int list \<Rightarrow> ('w, (int \<times> int list) list) io"
  si_post :: "int \<Rightarrow> int \<Rightarrow> ('w, unit) io"
  si_post_task :: "int list \<Rightarrow> ('w, unit) io"
  si_delete_current :: "int \<Rightarrow> int list \<Rightarrow> ('w, unit) io"
  si_targets :: "int list \<Rightarrow> ('w, (int \<times> int list) list) io"

section \<open>Creating installs\<close>

text \<open>\<^verbatim>\<open>_.chunk\<close> and \<^verbatim>\<open>_.difference\<close>.\<close>

function chunk :: "nat \<Rightarrow> 'a list \<Rightarrow> 'a list list" where
  "chunk n xs = (if n = 0 \<or> xs = [] then [] else take n xs # chunk n (drop n xs))"
  by pat_completeness auto
termination
  by (relation "measure (\<lambda>(n, xs). length xs)") auto

declare chunk.simps [simp del]

definition difference :: "'a list \<Rightarrow> 'a list \<Rightarrow> 'a list" where
  "difference xs ys = filter (\<lambda>x. x \<notin> set ys) xs"

definition createServiceInstallsAsync :: "'w installs_env \<Rightarrow> device_filter \<Rightarrow> ('w, unit) io" where
  "createServiceInstallsAsync env deviceFilterOrIds =
     io_bind (case deviceFilterOrIds of
                DeviceIds ids \<Rightarrow> io_return ids
              | _ \<Rightarrow> si_device_ids env deviceFilterOrIds) (\<lambda>deviceIds.
     io_bind (io_mapM (si_post_task env) (chunk (si_batch_size env) deviceIds)) (\<lambda>_. io_return ()))"

definition add_missing :: "'w installs_env \<Rightarrow> int list \<Rightarrow> int \<times> int list \<Rightarrow> ('w, unit) io" where
  "add_missing env serviceIds device =
     io_bind (io_mapM (si_post env (fst device)) (difference serviceIds (snd device))) (\<lambda>_. io_return ())"

definition createReleaseServiceInstalls ::
  "'w installs_env \<Rightarrow> device_filter \<Rightarrow> release_filter \<Rightarrow> ('w, unit) io"
where
  "createReleaseServiceInstalls env deviceFilterOrIds releaseFilter =
     (if deviceFilterOrIds = DeviceIds [] then io_return ()
      else if si_async env then createServiceInstallsAsync env deviceFilterOrIds
      else io_bind (si_services env releaseFilter) (\<lambda>serviceIds.
        if length serviceIds = 0 then io_return ()
        else io_bind (si_missing env deviceFilterOrIds serviceIds) (\<lambda>devicesToAddServiceInstalls.
          io_bind (io_mapM (add_missing env serviceIds) devicesToAddServiceInstalls) (\<lambda>_. io_return ()))))"

definition createAppServiceInstalls :: "'w installs_env \<Rightarrow> int \<Rightarrow> int list \<Rightarrow> ('w, unit) io" where
  "createAppServiceInstalls env appId deviceIds =
     createReleaseServiceInstalls env (DeviceIds deviceIds) (TargetOfApplication appId)"

section \<open>The hooks\<close>

text \<open>
  The values of a request that the hooks read: \<open>None\<close> is \<^verbatim>\<open>undefined\<close>, \<open>Some None\<close> is \<^verbatim>\<open>null\<close>.
\<close>

record device_values =
  dv_app :: "int option option"
  dv_pinned :: "int option option"
  dv_managed :: "int option option"
  dv_operated :: "int option option"

definition given :: "'a option option \<Rightarrow> 'a option" where
  "given v = (case v of Some (Some x) \<Rightarrow> Some x | _ \<Rightarrow> None)"

definition application_patched :: "'w installs_env \<Rightarrow> int option option \<Rightarrow> int list \<Rightarrow> ('w, unit) io" where
  "application_patched env should_be_running affectedIds =
     (case given should_be_running of
        None \<Rightarrow> io_return ()
      | Some release \<Rightarrow>
          (if length affectedIds = 0 then io_return ()
           else createReleaseServiceInstalls env (UnpinnedOf affectedIds) (ReleaseIs release)))"

definition pinned_installs :: "'w installs_env \<Rightarrow> device_values \<Rightarrow> int \<Rightarrow> ('w, unit) io" where
  "pinned_installs env vals deviceId =
     io_bind (case given (dv_pinned vals) of
                None \<Rightarrow> io_return ()
              | Some release \<Rightarrow> createReleaseServiceInstalls env (DeviceIds [deviceId]) (ReleaseIs release))
       (\<lambda>_. let ids = List.map_filter (\<lambda>v. v) [given (dv_managed vals), given (dv_operated vals)]
            in if length ids > 0
               then createReleaseServiceInstalls env (DeviceIds [deviceId]) (ReleaseIn ids)
               else io_return ())"

definition device_created :: "'w installs_env \<Rightarrow> device_values \<Rightarrow> int option \<Rightarrow> ('w, unit) io" where
  "device_created env vals result =
     (case result of
        None \<Rightarrow> io_return ()
      | Some deviceId \<Rightarrow>
          (case given (dv_app vals) of
             None \<Rightarrow> pinned_installs env vals deviceId
           | Some app \<Rightarrow>
               io_bind (createAppServiceInstalls env app [deviceId]) (\<lambda>_.
                 if si_async env then io_return () else pinned_installs env vals deviceId)))"

definition device_patch_before ::
  "'w installs_env \<Rightarrow> ('w, int list) io \<Rightarrow> device_values \<Rightarrow> ('w, unit) io"
where
  "device_patch_before env affected vals =
     (case given (dv_app vals) of
        None \<Rightarrow> io_return ()
      | Some newAppId \<Rightarrow>
          io_bind affected (\<lambda>affectedIds.
            if length affectedIds \<noteq> 0 then si_delete_current env newAppId affectedIds else io_return ()))"

text \<open>\<open>device_apps\<close> returns the devices with their applications.\<close>

definition device_patched ::
  "'w installs_env \<Rightarrow> (int list \<Rightarrow> ('w, (int \<times> int) list) io) \<Rightarrow> device_values \<Rightarrow> int list \<Rightarrow> ('w, unit) io"
where
  "device_patched env device_apps vals affectedIds =
     (if length affectedIds = 0 then io_return ()
      else case given (dv_app vals) of
        Some newAppId \<Rightarrow> createAppServiceInstalls env newAppId affectedIds
      | None \<Rightarrow>
          (case dv_pinned vals of
             None \<Rightarrow> io_return ()
           | Some (Some release) \<Rightarrow> createReleaseServiceInstalls env (DeviceIds affectedIds) (ReleaseIs release)
           | Some None \<Rightarrow>
               io_bind (device_apps affectedIds) (\<lambda>devices.
               io_bind (io_mapM (\<lambda>(appId, ds). createAppServiceInstalls env appId (map fst ds))
                          (groupByMap devices snd)) (\<lambda>_. io_return ()))))"

definition system_apps_patched :: "'w installs_env \<Rightarrow> device_values \<Rightarrow> int list \<Rightarrow> ('w, unit) io" where
  "system_apps_patched env vals affectedIds =
     (if length affectedIds = 0 then io_return ()
      else io_bind (io_mapM (\<lambda>field.
             case given field of
               None \<Rightarrow> io_return ()
             | Some releaseId \<Rightarrow> createReleaseServiceInstalls env (DeviceIds affectedIds) (ReleaseIs releaseId))
             [dv_managed vals, dv_operated vals]) (\<lambda>_. io_return ()))"

section \<open>The task\<close>

text \<open>
  The loop over the devices that lack a service: when the time is over a task for the remaining
  devices is left.
\<close>

fun task_loop ::
  "'w installs_env \<Rightarrow> int \<Rightarrow> (int \<times> int list) list \<Rightarrow> int list \<Rightarrow> nat \<Rightarrow> (int \<times> int list) list \<Rightarrow> ('w, nat) io"
where
  "task_loop env startTime targets remaining count [] = io_return count"
| "task_loop env startTime targets remaining count ((deviceId, existing) # devices) =
     (\<lambda>w. if si_now env w - startTime > si_max_time env
          then io_bind (si_post_task env remaining) (\<lambda>_. io_return count) w
          else (case map_of targets deviceId of
                  None \<Rightarrow> task_loop env startTime targets (removeAll deviceId remaining) count devices w
                | Some targetServiceIds \<Rightarrow>
                    let deviceServiceIds = difference targetServiceIds existing
                    in io_bind (io_mapM (si_post env deviceId) deviceServiceIds) (\<lambda>_.
                         task_loop env startTime (obj_delete deviceId targets) (removeAll deviceId remaining)
                           (count + length deviceServiceIds) devices) w))"

definition createServiceInstalls :: "'w installs_env \<Rightarrow> int list \<Rightarrow> ('w, nat) io" where
  "createServiceInstalls env devices =
     (\<lambda>w. let startTime = si_now env w
          in io_bind (si_targets env devices) (\<lambda>targets0.
               let targets = map (\<lambda>(d, ss). (d, remdups ss)) targets0;
                   serviceIds = remdups (concat (map snd targets))
               in if length serviceIds = 0 then io_return 0
                  else io_bind (si_missing env (DeviceIds devices) serviceIds)
                         (task_loop env startTime targets (remdups devices) 0)) w)"

datatype task_status = TaskSucceeded | TaskFailed

definition create_service_installs_task :: "'w installs_env \<Rightarrow> int list \<Rightarrow> 'w \<Rightarrow> task_status \<times> 'w" where
  "create_service_installs_task env devices w =
     (case createServiceInstalls env devices w of
        (Inr _, w') \<Rightarrow> (TaskSucceeded, w')
      | (Inl _, w') \<Rightarrow> (TaskFailed, w'))"

section \<open>Variables of a service install\<close>

definition backfillDeviceAndService ::
  "(json \<Rightarrow> ('w, (int \<times> int) option) io) \<Rightarrow> json obj \<Rightarrow> ('w, json obj) io"
where
  "backfillDeviceAndService find_install vals =
     (case map_of vals ''service_install'' of
        None \<Rightarrow> io_return vals
      | Some JNull \<Rightarrow> io_return vals
      | Some siId \<Rightarrow>
          io_bind (find_install siId) (\<lambda>si.
            case si of
              None \<Rightarrow> io_throw UnauthorizedError
            | Some (device, service) \<Rightarrow>
                io_return (obj_set ''service'' (JNum service) (obj_set ''device'' (JNum device) vals))))"

section \<open>What the queries do\<close>

locale installs_db =
  fixes env :: "'w installs_env"
    and inst :: "'w \<Rightarrow> (int \<times> int) set"
    and tasks :: "'w \<Rightarrow> int list list"
    and devs :: "device_filter \<Rightarrow> int set"
    and svcs :: "release_filter \<Rightarrow> int set"
    and targ :: "int \<Rightarrow> int set"
  assumes ids: "si_device_ids env f w = (Inr ds, w') \<Longrightarrow> inst w' = inst w \<and> tasks w' = tasks w \<and> set ds = devs f"
    and services: "si_services env r w = (Inr ss, w') \<Longrightarrow> inst w' = inst w \<and> tasks w' = tasks w \<and> set ss = svcs r"
    and missing: "si_missing env f ss w = (Inr xs, w') \<Longrightarrow> inst w' = inst w \<and> tasks w' = tasks w \<and>
      distinct (map fst xs) \<and>
      (\<forall>(d, ex) \<in> set xs. d \<in> devs f \<and> set ex = {s \<in> set ss. (d, s) \<in> inst w}) \<and>
      (\<forall>d \<in> devs f. (\<exists>s \<in> set ss. (d, s) \<notin> inst w) \<longrightarrow> d \<in> fst ` set xs)"
    and post: "si_post env d s w = (Inr (), w') \<Longrightarrow> inst w' = insert (d, s) (inst w) \<and> tasks w' = tasks w"
    and post_task: "si_post_task env ds w = (Inr (), w') \<Longrightarrow> inst w' = inst w \<and> tasks w' = tasks w @ [ds]"
    and targets: "si_targets env ds w = (Inr ts, w') \<Longrightarrow> inst w' = inst w \<and> tasks w' = tasks w \<and>
      fst ` set ts = devs (DeviceIds ds) \<and> distinct (map fst ts) \<and> (\<forall>(d, ss) \<in> set ts. set ss = targ d)"
    and devs_ids: "devs (DeviceIds ds) \<subseteq> set ds"
begin

lemma post_all:
  "io_mapM (si_post env d) ss w = (Inr us, w') \<Longrightarrow> inst w' = inst w \<union> {d} \<times> set ss \<and> tasks w' = tasks w"
proof (induction ss arbitrary: w us)
  case (Cons s ss)
  then obtain w1 us' where "si_post env d s w = (Inr (), w1)" "io_mapM (si_post env d) ss w1 = (Inr us', w')"
    by (auto simp: io_run_iffs)
  then show ?case using post Cons.IH by auto
qed (simp add: io_return_def)

lemma add_missing_all:
  "io_mapM (add_missing env ss) xs w = (Inr us, w') \<Longrightarrow>
     inst w' = inst w \<union> (\<Union>(d, ex) \<in> set xs. {d} \<times> (set ss - set ex)) \<and> tasks w' = tasks w"
proof (induction xs arbitrary: w us)
  case (Cons x xs)
  then obtain w1 us' where run: "add_missing env ss x w = (Inr (), w1)" "io_mapM (add_missing env ss) xs w1 = (Inr us', w')"
    by (auto simp: io_run_iffs)
  have "inst w1 = inst w \<union> {fst x} \<times> (set ss - set (snd x)) \<and> tasks w1 = tasks w"
    using run(1) post_all by (auto simp: add_missing_def io_run_iffs difference_def)
  then show ?case using Cons.IH [OF run(2)] by (cases x) auto
qed (simp add: io_return_def)

lemma create_now:
  assumes "\<not> si_async env" "createReleaseServiceInstalls env f r w = (Inr (), w')"
  shows "inst w' = inst w \<union> devs f \<times> svcs r \<and> tasks w' = tasks w"
proof (cases "f = DeviceIds []")
  case True
  then show ?thesis
    using assms devs_ids [of "[]"] by (simp add: createReleaseServiceInstalls_def io_return_def)
next
  case f: False
  obtain ss w1 where ss: "si_services env r w = (Inr ss, w1)"
    using assms f by (auto simp: createReleaseServiceInstalls_def io_run_iffs)
  note svc = services [OF ss]
  show ?thesis
  proof (cases "ss = []")
    case True
    then show ?thesis
      using assms f ss svc by (auto simp: createReleaseServiceInstalls_def io_run_iffs)
  next
    case False
    obtain xs w2 us where xs: "si_missing env f ss w1 = (Inr xs, w2)" "io_mapM (add_missing env ss) xs w2 = (Inr us, w')"
      using assms f ss False by (auto simp: createReleaseServiceInstalls_def io_run_iffs)
    note miss = missing [OF xs(1)] and added = add_missing_all [OF xs(2)]
    have "(\<Union>(d, ex) \<in> set xs. {d} \<times> (set ss - set ex)) \<subseteq> devs f \<times> set ss"
      using miss by fastforce
    moreover have "devs f \<times> set ss \<subseteq> inst w \<union> (\<Union>(d, ex) \<in> set xs. {d} \<times> (set ss - set ex))"
    proof
      fix p assume p: "p \<in> devs f \<times> set ss"
      obtain d s where ds: "p = (d, s)" "d \<in> devs f" "s \<in> set ss" using p by auto
      show "p \<in> inst w \<union> (\<Union>(d, ex) \<in> set xs. {d} \<times> (set ss - set ex))"
      proof (cases "p \<in> inst w")
        case False
        then obtain ex where "(d, ex) \<in> set xs" "set ex = {s \<in> set ss. (d, s) \<in> inst w}"
          using miss ds svc by fastforce
        then show ?thesis using ds False by auto
      qed simp
    qed
    ultimately show ?thesis using svc miss added by auto
  qed
qed

lemma concat_chunk: "0 < n \<Longrightarrow> concat (chunk n xs) = xs"
  by (induction n xs rule: chunk.induct) (subst chunk.simps, auto)

lemma chunk_bounded: "c \<in> set (chunk n xs) \<Longrightarrow> length c \<le> n \<and> c \<noteq> []"
  by (induction n xs rule: chunk.induct) (subst (asm) (2) chunk.simps, auto split: if_splits)

lemma post_tasks: "io_mapM (si_post_task env) cs w = (Inr us, w') \<Longrightarrow> inst w' = inst w \<and> tasks w' = tasks w @ cs"
proof (induction cs arbitrary: w us)
  case (Cons c cs)
  then obtain w1 us' where "si_post_task env c w = (Inr (), w1)" "io_mapM (si_post_task env) cs w1 = (Inr us', w')"
    by (auto simp: io_run_iffs)
  then show ?case using post_task Cons.IH by fastforce
qed (simp add: io_return_def)

lemma create_later:
  assumes "si_async env" "0 < si_batch_size env" "f \<noteq> DeviceIds []" "createReleaseServiceInstalls env f r w = (Inr (), w')"
  shows "inst w' = inst w \<and> (\<exists>cs. tasks w' = tasks w @ cs \<and>
    (\<forall>c \<in> set cs. c \<noteq> [] \<and> length c \<le> si_batch_size env) \<and>
    (case f of DeviceIds ds \<Rightarrow> concat cs = ds | _ \<Rightarrow> set (concat cs) = devs f))"
proof -
  obtain ds w1 us where run: "(case f of DeviceIds ids \<Rightarrow> io_return ids | _ \<Rightarrow> si_device_ids env f) w = (Inr ds, w1)"
    "io_mapM (si_post_task env) (chunk (si_batch_size env) ds) w1 = (Inr us, w')"
    using assms by (auto simp: createReleaseServiceInstalls_def createServiceInstallsAsync_def io_run_iffs)
  have "inst w1 = inst w \<and> tasks w1 = tasks w \<and> (case f of DeviceIds ids \<Rightarrow> ds = ids | _ \<Rightarrow> set ds = devs f)"
    using run(1) ids by (cases f) (auto simp: io_return_def)
  then show ?thesis
    using post_tasks [OF run(2)] concat_chunk [OF assms(2), of ds] chunk_bounded [of _ "si_batch_size env" ds]
    by (intro conjI exI [of _ "chunk (si_batch_size env) ds"] ballI)
      (cases f; simp del: set_concat)+
qed

lemma task_loop_ok:
  assumes "task_loop env start targets remaining n xs w = (Inr m, w')"
    and "distinct (map fst xs)" "fst ` set xs \<subseteq> set remaining"
    and "\<And>d ex. (d, ex) \<in> set xs \<Longrightarrow> \<exists>ss. map_of targets d = Some ss \<and> set ss = targ d \<and> {d} \<times> (targ d \<inter> set ex) \<subseteq> inst w"
  shows "inst w \<subseteq> inst w' \<and> inst w' \<subseteq> inst w \<union> (\<Union>d \<in> fst ` set xs. {d} \<times> targ d) \<and>
    (\<exists>ts. tasks w' = tasks w @ ts \<and>
       (\<forall>d \<in> fst ` set xs. {d} \<times> targ d \<subseteq> inst w' \<or> (\<exists>t \<in> set ts. d \<in> set t)))"
  using assms
proof (induction xs arbitrary: targets remaining n w)
  case Nil
  then show ?case by (simp add: io_return_def)
next
  case (Cons x xs)
  obtain d ex where x: "x = (d, ex)" by (cases x)
  obtain ss where ss: "map_of targets d = Some ss" "set ss = targ d" "{d} \<times> (targ d \<inter> set ex) \<subseteq> inst w"
    using Cons.prems(4) [of d ex] x by auto
  show ?case
  proof (cases "si_now env w - start > si_max_time env")
    case True
    then have "si_post_task env remaining w = (Inr (), w')"
      using Cons.prems(1) x by (auto simp: io_run_iffs)
    then show ?thesis
      using post_task Cons.prems(3) by fastforce
  next
    case False
    obtain us w1 where run: "io_mapM (si_post env d) (difference ss ex) w = (Inr us, w1)"
      "task_loop env start (obj_delete d targets) (removeAll d remaining) (n + length (difference ss ex)) xs w1 = (Inr m, w')"
      using Cons.prems(1) x False ss(1) by (auto simp: io_run_iffs Let_def)
    have w1: "inst w1 = inst w \<union> {d} \<times> (targ d - set ex)" "tasks w1 = tasks w"
      using post_all [OF run(1)] ss(2) by (auto simp: difference_def)
    have "\<exists>ss. map_of (obj_delete d targets) e = Some ss \<and> set ss = targ e \<and> {e} \<times> (targ e \<inter> set ex') \<subseteq> inst w1"
      if "(e, ex') \<in> set xs" for e ex'
    proof -
      have "e \<noteq> d" using that Cons.prems(2) x by force
      then show ?thesis using Cons.prems(4) [of e ex'] that w1(1) by fastforce
    qed
    moreover have "fst ` set xs \<subseteq> set (removeAll d remaining)"
      using Cons.prems(2,3) x by auto
    ultimately have rest: "inst w1 \<subseteq> inst w'" "inst w' \<subseteq> inst w1 \<union> (\<Union>d \<in> fst ` set xs. {d} \<times> targ d)"
      "\<exists>ts. tasks w' = tasks w1 @ ts \<and>
         (\<forall>d \<in> fst ` set xs. {d} \<times> targ d \<subseteq> inst w' \<or> (\<exists>t \<in> set ts. d \<in> set t))"
      using Cons.IH [OF run(2)] Cons.prems(2) by auto
    have "{d} \<times> targ d \<subseteq> inst w'"
      using rest(1) w1(1) ss(3) by blast
    then show ?thesis using rest w1 x by auto
  qed
qed

lemma createServiceInstalls_ok:
  assumes "createServiceInstalls env ds w = (Inr n, w')"
  shows "inst w \<subseteq> inst w' \<and> inst w' \<subseteq> inst w \<union> (\<Union>d \<in> devs (DeviceIds ds). {d} \<times> targ d) \<and>
    (\<exists>ts. tasks w' = tasks w @ ts \<and>
       (\<forall>d \<in> devs (DeviceIds ds). {d} \<times> targ d \<subseteq> inst w' \<or> (\<exists>t \<in> set ts. d \<in> set t)))"
proof -
  obtain ts0 w1 where ts0: "si_targets env ds w = (Inr ts0, w1)"
    using assms by (auto simp: createServiceInstalls_def Let_def io_run_iffs)
  note tgt = targets [OF ts0]
  define tts where "tts = map (\<lambda>(d, ss). (d, remdups ss)) ts0"
  define sids where "sids = remdups (concat (map snd tts))"
  have look: "\<exists>ss. map_of tts d = Some ss \<and> set ss = targ d" if d: "d \<in> devs (DeviceIds ds)" for d
  proof -
    obtain ss where "(d, ss) \<in> set ts0" using tgt d by (metis (no_types, lifting) imageE prod.collapse)
    then have "(d, remdups ss) \<in> set tts" "set ss = targ d" using tgt by (auto simp: tts_def)
    moreover have "distinct (map fst tts)" using tgt by (simp add: tts_def comp_def case_prod_beta')
    ultimately show ?thesis by (intro exI [of _ "remdups ss"]) simp
  qed
  then have sids: "targ d \<subseteq> set sids" if "d \<in> devs (DeviceIds ds)" for d
    using that by (force simp: sids_def dest!: map_of_SomeD)
  show ?thesis
  proof (cases "sids = []")
    case True
    then have "w' = w1" using assms ts0 by (auto simp: createServiceInstalls_def Let_def io_run_iffs tts_def sids_def)
    then show ?thesis using tgt sids True by auto
  next
    case False
    obtain xs w2 where xs: "si_missing env (DeviceIds ds) sids w1 = (Inr xs, w2)"
      "task_loop env (si_now env w) tts (remdups ds) 0 xs w2 = (Inr n, w')"
      using assms ts0 False by (auto simp: createServiceInstalls_def Let_def io_run_iffs tts_def sids_def split: if_splits)
    note miss = missing [OF xs(1)]
    have lk: "\<exists>ss. map_of tts d = Some ss \<and> set ss = targ d \<and> {d} \<times> (targ d \<inter> set ex) \<subseteq> inst w2"
      if "(d, ex) \<in> set xs" for d ex
      using that look [of d] miss by fastforce
    have sub: "fst ` set xs \<subseteq> devs (DeviceIds ds)" using miss by auto
    then have rem: "fst ` set xs \<subseteq> set (remdups ds)" using devs_ids [of ds] by auto
    have dist: "distinct (map fst xs)" using miss by simp
    have loop: "inst w2 \<subseteq> inst w' \<and> inst w' \<subseteq> inst w2 \<union> (\<Union>d \<in> fst ` set xs. {d} \<times> targ d) \<and>
      (\<exists>ts. tasks w' = tasks w2 @ ts \<and>
         (\<forall>d \<in> fst ` set xs. {d} \<times> targ d \<subseteq> inst w' \<or> (\<exists>t \<in> set ts. d \<in> set t)))"
      by (rule task_loop_ok [OF xs(2) dist rem lk])
    have complete: "{d} \<times> targ d \<subseteq> inst w2" if "d \<in> devs (DeviceIds ds)" "d \<notin> fst ` set xs" for d
    proof -
      have "\<forall>s \<in> set sids. (d, s) \<in> inst w1" using miss that by blast
      then show ?thesis using sids [OF that(1)] miss by auto
    qed
    have same: "inst w2 = inst w" "tasks w2 = tasks w" using miss tgt by simp_all
    obtain ts where ts: "tasks w' = tasks w @ ts"
      "\<forall>d \<in> fst ` set xs. {d} \<times> targ d \<subseteq> inst w' \<or> (\<exists>t \<in> set ts. d \<in> set t)"
      using loop same by auto
    have "\<forall>d \<in> devs (DeviceIds ds). {d} \<times> targ d \<subseteq> inst w' \<or> (\<exists>t \<in> set ts. d \<in> set t)"
    proof
      fix d assume d: "d \<in> devs (DeviceIds ds)"
      show "{d} \<times> targ d \<subseteq> inst w' \<or> (\<exists>t \<in> set ts. d \<in> set t)"
      proof (cases "d \<in> fst ` set xs")
        case True
        then show ?thesis using bspec [OF ts(2)] by simp
      next
        case False
        then show ?thesis using complete [OF d False] loop by blast
      qed
    qed
    moreover have "inst w' \<subseteq> inst w \<union> (\<Union>d \<in> devs (DeviceIds ds). {d} \<times> targ d)"
    proof -
      have "inst w' \<subseteq> inst w \<union> (\<Union>d \<in> fst ` set xs. {d} \<times> targ d)" using loop same(1) by simp
      also have "\<dots> \<subseteq> inst w \<union> (\<Union>d \<in> devs (DeviceIds ds). {d} \<times> targ d)"
        by (intro Un_mono UN_mono sub order_refl)
      finally show ?thesis .
    qed
    moreover have "inst w \<subseteq> inst w'" using loop same(1) by simp
    ultimately show ?thesis using ts(1) by blast
  qed
qed

end

section \<open>An in-memory table of installs\<close>

record si_world =
  sw_installs :: "(int \<times> int) list"
  sw_tasks :: "int list list"
  sw_clock :: int

definition mem_installs_env ::
  "(device_filter \<Rightarrow> int list) \<Rightarrow> (release_filter \<Rightarrow> int list) \<Rightarrow> (int \<Rightarrow> int list) \<Rightarrow> bool \<Rightarrow> si_world installs_env"
where
  "mem_installs_env devs svcs targ async =
     \<lparr>si_async = async, si_batch_size = 2, si_max_time = 30000, si_now = sw_clock,
      si_device_ids = (\<lambda>f. io_return (devs f)), si_services = (\<lambda>r. io_return (svcs r)),
      si_missing = (\<lambda>f ss w. (Inr (map (\<lambda>d. (d, filter (\<lambda>s. (d, s) \<in> set (sw_installs w)) ss))
         (filter (\<lambda>d. list_ex (\<lambda>s. (d, s) \<notin> set (sw_installs w)) ss) (remdups (devs f)))), w)),
      si_post = (\<lambda>d s w. (Inr (), w\<lparr>sw_installs := (d, s) # sw_installs w\<rparr>)),
      si_post_task = (\<lambda>ds w. (Inr (), w\<lparr>sw_tasks := sw_tasks w @ [ds]\<rparr>)),
      si_delete_current = (\<lambda>a ds w. (Inr (), w)),
      si_targets = (\<lambda>ds w. (Inr (map (\<lambda>d. (d, targ d)) (remdups (devs (DeviceIds ds)))), w))\<rparr>"

interpretation mem_installs: installs_db
  "mem_installs_env (\<lambda>f. case f of DeviceIds ds \<Rightarrow> filter known ds | UnpinnedOf as \<Rightarrow> un as) svcs targ async"
  "\<lambda>w. set (sw_installs w)" sw_tasks
  "\<lambda>f. set (case f of DeviceIds ds \<Rightarrow> filter known ds | UnpinnedOf as \<Rightarrow> un as)"
  "\<lambda>r. set (svcs r)" "\<lambda>d. set (targ d)" for known un svcs targ async
  by unfold_locales (auto simp: mem_installs_env_def io_run_iffs comp_def list_ex_iff image_image)

section \<open>What the hooks guarantee\<close>

definition demo_installs :: "bool \<Rightarrow> si_world installs_env" where
  "demo_installs async =
     mem_installs_env (\<lambda>f. case f of DeviceIds ds \<Rightarrow> filter (\<lambda>d. d < 10) ds | UnpinnedOf as \<Rightarrow> [1, 2, 3])
       (\<lambda>r. [70, 71]) (\<lambda>d. [70, 71]) async"

lemmas demo_installs_db =
  mem_installs.installs_db_axioms [of "\<lambda>d. d < 10" "\<lambda>as. [1, 2, 3]" "\<lambda>r. [70, 71]" "\<lambda>d. [70, 71]", folded demo_installs_def]

definition demo_si :: si_world where
  "demo_si = \<lparr>sw_installs = [(1, 70)], sw_tasks = [], sw_clock = 0\<rparr>"



text \<open>
  The task misses nobody: when it succeeds every existing device of its list has all services
  of its target, supervisor and host application releases, or is in a task the run has left behind
  because its time was over; installs are only added, and only ones some device of the list is
  missing.
\<close>

lemma install_task_covers:
  assumes "installs_db env inst tasks devs svcs targ"
    and "create_service_installs_task env ds w = (TaskSucceeded, w')"
  shows "inst w \<subseteq> inst w' \<and> inst w' \<subseteq> inst w \<union> (\<Union>d \<in> devs (DeviceIds ds). {d} \<times> targ d) \<and>
    (\<exists>ts. tasks w' = tasks w @ ts \<and>
       devs (DeviceIds ds) \<subseteq> {d. {d} \<times> targ d \<subseteq> inst w'} \<union> \<Union> (set ` set ts))"
proof -
  obtain n where "createServiceInstalls env ds w = (Inr n, w')"
    using assms(2) by (auto simp: create_service_installs_task_def split: prod.splits sum.splits)
  note ok = installs_db.createServiceInstalls_ok [OF assms(1) this]
  then obtain ts where ts: "tasks w' = tasks w @ ts"
    "\<forall>d \<in> devs (DeviceIds ds). {d} \<times> targ d \<subseteq> inst w' \<or> (\<exists>t \<in> set ts. d \<in> set t)"
    by auto
  have "devs (DeviceIds ds) \<subseteq> {d. {d} \<times> targ d \<subseteq> inst w'} \<union> \<Union> (set ` set ts)"
    using ts(2) by auto
  then show ?thesis using ok ts(1) by blast
qed

text \<open>
  Moving devices adds the installs of the target release of their new application and leaves their
  pin alone; unpinning does it for each application on its own.
\<close>

lemma device_moved:
  assumes "installs_db env inst tasks devs svcs targ" "\<not> si_async env" "dv_app vals = Some (Some app)" "ids \<noteq> []"
    and "device_patched env device_apps vals ids w = (Inr (), w')"
  shows "inst w' = inst w \<union> devs (DeviceIds ids) \<times> svcs (TargetOfApplication app)"
  using assms(3-) installs_db.create_now [OF assms(1,2)]
  by (auto simp: device_patched_def given_def createAppServiceInstalls_def)

end
