(* ===== verification/TargetOs.thy ===== *)
theory TargetOs
  imports ReleaseVersioning
begin

text \<open>
  Which release of the host application and of the supervisor a device is to run
  (\<^verbatim>\<open>src/features/hostapp/hooks/target-hostapp.ts\<close>, \<^verbatim>\<open>src/features/supervisor-app/hooks/supervisor-app.ts\<close>):
  targets may not go behind what the device already runs, and follow it when it gets ahead.

  The comparison of versions is the one of a library and a parameter, \<open>version_lib\<close>; queries are fields of
  an environment.
\<close>

section \<open>Versions\<close>

record os_version = semver +
  ov_raw :: string

record version_lib =
  vl_parse :: "string \<Rightarrow> os_version option"
  vl_gt :: "string \<Rightarrow> string \<Rightarrow> bool"
  vl_lt :: "string \<Rightarrow> string \<Rightarrow> bool"
  vl_getRevision :: "os_version \<Rightarrow> int option"

text \<open>Removing the matches of an expression: all of them, or the first one.\<close>

function remove_matches :: "bool \<Rightarrow> re \<Rightarrow> nat \<Rightarrow> string \<Rightarrow> string" where
  "remove_matches global r i s =
     (case rmatch r (i, s, []) of
        m # _ \<Rightarrow>
          (if length (left_over m) < length s
           then (if global then remove_matches global r (fst m) (left_over m) else left_over m)
           else (case s of [] \<Rightarrow> [] | c # cs \<Rightarrow> c # remove_matches global r (Suc i) cs))
      | [] \<Rightarrow> (case s of [] \<Rightarrow> [] | c # cs \<Rightarrow> c # remove_matches global r (Suc i) cs))"
  by pat_completeness auto
termination
  by (relation "measure (\<lambda>(global, r, i, s). length s)") auto

declare remove_matches.simps [simp del]

definition RAnyCase :: "string \<Rightarrow> re" where
  "RAnyCase s = RSeqs (map (\<lambda>c. RClass (\<lambda>x. to_lower_char x = c)) s)"

text \<open>\<^verbatim>\<open>/(resin|balena)\s*os\s*/gi\<close>, \<^verbatim>\<open>/\s+\(\w+\)$/\<close> and \<^verbatim>\<open>/^v/\<close>.\<close>

definition OS_NAME :: re where
  "OS_NAME = RSeqs [RGroup 1 (RAlt (RAnyCase ''resin'') (RAnyCase ''balena'')), RStar (RClass is_space_char),
     RAnyCase ''os'', RStar (RClass is_space_char)]"

definition OS_VARIANT_SUFFIX :: re where
  "OS_VARIANT_SUFFIX = RSeqs [RPlus (RClass is_space_char), RChar (CHR ''(''), RPlus (RClass is_word_char),
     RChar (CHR '')''), REnd]"

definition normalizeOsVersion :: "string \<Rightarrow> string" where
  "normalizeOsVersion osVersion =
     remove_matches False (RSeq RBegin (RChar (CHR ''v''))) 0
       (remove_matches False OS_VARIANT_SUFFIX 0 (remove_matches True OS_NAME 0 osVersion))"

lemma normalizeOsVersion_examples:
  "normalizeOsVersion ''Resin OS 2.0.0 (prod)'' = ''2.0.0''"
  "normalizeOsVersion ''balenaOS v2.9.7+rev1'' = ''2.9.7+rev1''"
  by code_simp+

definition normalizeVariantToLongForm :: "string \<Rightarrow> string" where
  "normalizeVariantToLongForm variant =
     (if variant = ''prod'' then ''production'' else if variant = ''dev'' then ''development'' else variant)"

definition parseOsVariant :: "string option \<Rightarrow> string option" where
  "parseOsVariant v = (if v = Some ''dev'' \<or> v = Some ''prod'' then v else None)"

section \<open>Releases of the host application\<close>

text \<open>\<open>or_tags\<close> are the tags of the release, \<open>or_device_type\<close> and \<open>or_is_host\<close> fields of its application.\<close>

record os_release =
  or_id :: int
  or_row :: release_row
  or_status :: string
  or_device_type :: int
  or_is_host :: bool
  or_tags :: "(string \<times> string) list"

definition getBaseVersionFromReleaseSemverOrTag :: "os_release \<Rightarrow> string option" where
  "getBaseVersionFromReleaseSemverOrTag r =
     (if js_startsWith (semver_text (or_row r)) ''0.0.0'' then map_of (or_tags r) ''version''
      else Some (semver_text (or_row r)))"

text \<open>The filter of the query for the release of a version.\<close>

definition matches_semver :: "version_lib \<Rightarrow> os_version \<Rightarrow> string \<Rightarrow> release_row \<Rightarrow> bool" where
  "matches_semver lib v osVariant r \<longleftrightarrow>
     rl_major r = sv_major v \<and> rl_minor r = sv_minor v \<and> rl_patch r = sv_patch v \<and>
     rl_prerelease r = js_join ''.'' (sv_prerelease v) \<and> rl_build r = js_join ''.'' (sv_build v) \<and>
     (rl_revision r = Some (case vl_getRevision lib v of None \<Rightarrow> 0 | Some n \<Rightarrow> n) \<or> rl_revision r = None) \<and>
     rl_variant r \<in> {osVariant, []}"

definition matches_tags :: "os_version \<Rightarrow> string \<Rightarrow> (string \<times> string) list \<Rightarrow> bool" where
  "matches_tags v osVariant tags \<longleftrightarrow>
     (''version'', normalizeOsVersion (ov_raw v)) \<in> set tags \<and>
     ((''variant'', normalizeVariantToLongForm osVariant) \<in> set tags \<or> ''variant'' \<notin> fst ` set tags)"

definition os_release_filter :: "version_lib \<Rightarrow> int \<Rightarrow> os_version \<Rightarrow> string \<Rightarrow> os_release \<Rightarrow> bool" where
  "os_release_filter lib deviceTypeId v osVariant r \<longleftrightarrow>
     or_status r = ''success'' \<and> or_device_type r = deviceTypeId \<and> or_is_host r \<and>
     (matches_semver lib v osVariant (or_row r) \<or> matches_tags v osVariant (or_tags r))"

text \<open>
  \<open>te_find p\<close> returns at most two releases that satisfy \<open>p\<close>, ordered by descending major version,
  final before draft, and descending creation time.  \<open>te_devices\<close> returns devices with their type,
  version, variant and target.
\<close>

record os_device =
  od_id :: int
  od_device_type :: int
  od_os_version :: "string option"
  od_os_variant :: "string option"
  od_target :: "os_release option"

record 'w target_env =
  te_lib :: version_lib
  te_find :: "(os_release \<Rightarrow> bool) \<Rightarrow> ('w, os_release list) io"
  te_affected :: "('w, int list) io"
  te_devices :: "int list \<Rightarrow> ('w, os_device list) io"
  te_os_versions :: "int list \<Rightarrow> ('w, string list) io"
  te_release :: "int \<Rightarrow> bool \<Rightarrow> ('w, os_release option) io"
  te_set_target :: "int list \<Rightarrow> int option \<Rightarrow> ('w, unit) io"

definition getOSReleaseResource ::
  "'w target_env \<Rightarrow> int \<Rightarrow> os_version \<Rightarrow> string \<Rightarrow> ('w, os_release option) io"
where
  "getOSReleaseResource env deviceTypeId v osVariant =
     io_bind (te_find env (os_release_filter (te_lib env) deviceTypeId v osVariant)) (\<lambda>releases.
       io_return (case releases of [] \<Rightarrow> None | r # _ \<Rightarrow> Some r))"

section \<open>No downgrades\<close>

definition max_step :: "version_lib \<Rightarrow> string option \<Rightarrow> string \<Rightarrow> string option" where
  "max_step lib maxOldOsVersion v =
     (if vl_parse lib v \<noteq> None \<and> (case maxOldOsVersion of None \<Rightarrow> True | Some m \<Rightarrow> vl_gt lib v m)
      then Some v else maxOldOsVersion)"

definition checkHostappReleaseUpgrades :: "'w target_env \<Rightarrow> int list \<Rightarrow> int \<Rightarrow> bool \<Rightarrow> ('w, unit) io" where
  "checkHostappReleaseUpgrades env deviceIds newHostappReleaseId allowInvalidated =
     (if length deviceIds = 0 then io_return ()
      else io_bind (te_os_versions env deviceIds) (\<lambda>versions.
        case foldl (max_step (te_lib env)) None versions of
          None \<Rightarrow> io_return ()
        | Some maxOldOsVersion \<Rightarrow>
            io_bind (te_release env newHostappReleaseId allowInvalidated) (\<lambda>release.
              case release of
                None \<Rightarrow> io_throw (BadRequestError
                  (''Could not find a hostapp release with this ID '' @ show_int newHostappReleaseId))
              | Some r \<Rightarrow>
                  (case getBaseVersionFromReleaseSemverOrTag r of
                     None \<Rightarrow> io_throw (BadRequestError
                       (''Could not find the version for the hostapp release with ID: '' @ show_int newHostappReleaseId))
                   | Some newHostappVersion \<Rightarrow>
                       (if vl_lt (te_lib env) newHostappVersion maxOldOsVersion
                        then io_throw (BadRequestError ''Attempt to downgrade hostapp, which is not allowed'')
                        else io_return ())))))"

definition hostapp_patch_parse :: "json obj \<Rightarrow> json obj res" where
  "hostapp_patch_parse vals =
     (let vals1 = (if not_nullish (map_of vals ''is_of__device_type'') \<and>
                     map_of vals ''should_be_operated_by__release'' = None
                   then obj_set ''should_be_operated_by__release'' JNull vals else vals)
      in case map_of vals1 ''should_be_operated_by__release'' of
           None \<Rightarrow> Inr vals1
         | Some JNull \<Rightarrow> Inr vals1
         | Some (JNum n) \<Rightarrow> Inr vals1
         | Some (JStr s) \<Rightarrow>
             (if parseInt10 s = None then Inl (BadRequestError ''Expected an ID for the hostapp release'') else Inr vals1)
         | Some _ \<Rightarrow> Inl (BadRequestError ''Expected an ID for the hostapp release''))"

definition hostapp_patch_check :: "'w target_env \<Rightarrow> bool \<Rightarrow> json obj \<Rightarrow> ('w, unit) io" where
  "hostapp_patch_check env is_root vals =
     (case map_of vals ''should_be_operated_by__release'' of
        Some (JNum n) \<Rightarrow>
          io_bind (te_affected env) (\<lambda>ids. checkHostappReleaseUpgrades env ids n is_root)
      | _ \<Rightarrow> io_return ())"

section \<open>Following the device\<close>

record device_info =
  di_id :: int
  di_device_type :: int
  di_version :: os_version
  di_variant :: string
  di_target :: "os_release option"

definition device_info_of :: "version_lib \<Rightarrow> os_device \<Rightarrow> device_info option" where
  "device_info_of lib d =
     (case od_os_version d of
        None \<Rightarrow> None
      | Some text \<Rightarrow>
          (case vl_parse lib text of
             None \<Rightarrow> None
           | Some v \<Rightarrow>
               (case parseOsVariant (od_os_variant d) of
                  None \<Rightarrow> None
                | Some variant \<Rightarrow>
                    Some \<lparr>di_id = od_id d, di_device_type = od_device_type d, di_version = v,
                          di_variant = variant, di_target = od_target d\<rparr>)))"

definition is_ahead :: "version_lib \<Rightarrow> device_info \<Rightarrow> bool" where
  "is_ahead lib di \<longleftrightarrow>
     (case di_target di of
        None \<Rightarrow> True
      | Some r \<Rightarrow>
          (case getBaseVersionFromReleaseSemverOrTag r of
             None \<Rightarrow> True
           | Some t \<Rightarrow> vl_gt lib (ov_raw (di_version di)) t))"

definition group_key :: "device_info \<Rightarrow> string" where
  "group_key di = show_int (di_device_type di) @ ''|'' @ ov_raw (di_version di) @ ''|'' @ di_variant di"

definition progress_group :: "'w target_env \<Rightarrow> device_info list \<Rightarrow> ('w, unit) io" where
  "progress_group env affectedDevices =
     (let d = hd affectedDevices
      in io_bind (getOSReleaseResource env (di_device_type d) (di_version d) (di_variant d)) (\<lambda>newOsRelease.
           let affected = (case newOsRelease of
                             None \<Rightarrow> filter (\<lambda>d. di_target d \<noteq> None) affectedDevices
                           | Some _ \<Rightarrow> affectedDevices)
           in if newOsRelease = None \<and> length affected = 0 then io_return ()
              else te_set_target env (map di_id affected) (map_option or_id newOsRelease)))"

definition progressTargetOSReleaseIfNewer :: "'w target_env \<Rightarrow> int list \<Rightarrow> ('w, unit) io" where
  "progressTargetOSReleaseIfNewer env deviceIds =
     (if length deviceIds = 0 then io_return ()
      else io_bind (te_devices env deviceIds) (\<lambda>devices.
        let infos = filter (is_ahead (te_lib env)) (List.map_filter (device_info_of (te_lib env)) devices)
        in if length infos = 0 then io_return ()
           else io_bind (io_mapM (progress_group env) (map snd (groupByMap infos group_key))) (\<lambda>_. io_return ())))"

definition hostapp_patch_progress :: "'w target_env \<Rightarrow> json obj \<Rightarrow> ('w, unit) io" where
  "hostapp_patch_progress env vals =
     (let parsed = (case map_of vals ''os_version'' of Some (JStr s) \<Rightarrow> Some (vl_parse (te_lib env) s) | _ \<Rightarrow> None)
      in if parsed = Some None then io_return ()
         else if parsed \<noteq> None \<or>
             parseOsVariant (case map_of vals ''os_variant'' of Some (JStr s) \<Rightarrow> Some s | _ \<Rightarrow> None) \<noteq> None
         then io_bind (te_affected env) (progressTargetOSReleaseIfNewer env)
         else io_return ())"

text \<open>A new device; the body's version and variant are texts, its type a number.\<close>

definition hostapp_post ::
  "'w target_env \<Rightarrow> json obj \<Rightarrow> ('w, json obj) io"
where
  "hostapp_post env vals =
     (case (map_of vals ''os_version'', map_of vals ''os_variant'', map_of vals ''is_of__device_type'') of
        (Some (JStr version), Some (JStr variant), Some (JNum deviceType)) \<Rightarrow>
          (case vl_parse (te_lib env) version of
             None \<Rightarrow> io_return vals
           | Some v \<Rightarrow>
               io_bind (getOSReleaseResource env deviceType v variant) (\<lambda>hostappRelease.
                 io_return (case hostappRelease of
                              None \<Rightarrow> vals
                            | Some r \<Rightarrow> obj_set ''should_be_operated_by__release'' (JNum (or_id r)) vals)))
      | _ \<Rightarrow> io_return vals)"

section \<open>The supervisor\<close>

text \<open>
  \<open>ve_find version arch\<close> is the release of the supervisor with the version that runs on an architecture,
  the latest final one if there is one; \<open>ve_unset ids\<close> the devices that have reported no supervisor yet, with
  their architecture; \<open>ve_targets ids\<close> the versions of the supervisor releases that are targets of the devices.
\<close>

record 'w supervisor_env =
  ve_lib :: version_lib
  ve_find :: "string \<Rightarrow> int \<Rightarrow> ('w, int option) io"
  ve_find_for_type :: "string \<Rightarrow> int \<Rightarrow> ('w, int option) io"
  ve_affected :: "('w, int list) io"
  ve_unset :: "int list \<Rightarrow> ('w, (int \<times> int) list) io"
  ve_count_unset :: "int list \<Rightarrow> ('w, nat) io"
  ve_release :: "int \<Rightarrow> ('w, string option) io"
  ve_targets :: "int list \<Rightarrow> ('w, string list) io"
  ve_set_target :: "int list \<Rightarrow> int \<Rightarrow> ('w, unit) io"

definition supervisor_post :: "'w supervisor_env \<Rightarrow> json obj \<Rightarrow> ('w, json obj) io" where
  "supervisor_post env vals =
     (case (map_of vals ''supervisor_version'', map_of vals ''is_of__device_type'') of
        (Some (JStr version), Some (JNum deviceType)) \<Rightarrow>
          io_bind (ve_find_for_type env version deviceType) (\<lambda>release.
            io_return (case release of
                         None \<Rightarrow> vals
                       | Some r \<Rightarrow> obj_set ''should_be_managed_by__release'' (JNum r) vals))
      | _ \<Rightarrow> io_return vals)"

definition checkSupervisorReleaseUpgrades :: "'w supervisor_env \<Rightarrow> int list \<Rightarrow> int \<Rightarrow> ('w, unit) io" where
  "checkSupervisorReleaseUpgrades env deviceIds newSupervisorReleaseId =
     (if length deviceIds = 0 then io_return ()
      else io_bind (ve_count_unset env deviceIds) (\<lambda>nullSupervisorCount.
        if nullSupervisorCount = length deviceIds then io_return ()
        else io_bind (ve_release env newSupervisorReleaseId) (\<lambda>release.
          case release of
            None \<Rightarrow> io_throw (BadRequestError
              (''Could not find a supervisor release with this ID '' @ show_int newSupervisorReleaseId))
          | Some newSupervisorVersion \<Rightarrow>
              io_bind (ve_targets env deviceIds) (\<lambda>oldVersions.
                if list_ex (\<lambda>oldVersion. vl_lt (ve_lib env) newSupervisorVersion oldVersion) oldVersions
                then io_throw (BadRequestError ''Attempt to downgrade supervisor, which is not allowed'')
                else io_return ()))))"

definition setSupervisorReleaseResource :: "'w supervisor_env \<Rightarrow> int list \<Rightarrow> string \<Rightarrow> ('w, unit) io" where
  "setSupervisorReleaseResource env deviceIds supervisorVersion =
     (if length deviceIds = 0 then io_return ()
      else io_bind (ve_unset env deviceIds) (\<lambda>devices.
        if length devices = 0 then io_return ()
        else io_bind (io_mapM (\<lambda>(cpuArchId, affectedDevices).
               io_bind (ve_find env supervisorVersion cpuArchId) (\<lambda>release.
                 case release of
                   None \<Rightarrow> io_return ()
                 | Some r \<Rightarrow> ve_set_target env (map fst affectedDevices) r)) (groupByMap devices snd))
             (\<lambda>_. io_return ())))"

definition supervisor_patch :: "'w supervisor_env \<Rightarrow> json obj \<Rightarrow> ('w, unit) io" where
  "supervisor_patch env vals =
     io_bind
       (case map_of vals ''supervisor_version'' of
          Some (JStr version) \<Rightarrow>
            io_bind (ve_affected env) (\<lambda>ids. setSupervisorReleaseResource env ids version)
        | _ \<Rightarrow> io_return ())
       (\<lambda>_. case map_of vals ''should_be_managed_by__release'' of
              None \<Rightarrow> io_return ()
            | Some JNull \<Rightarrow> io_return ()
            | Some j \<Rightarrow>
                (case (case j of JNum n \<Rightarrow> Some n | JStr s \<Rightarrow> parseInt10 s | _ \<Rightarrow> None) of
                   None \<Rightarrow> io_throw (BadRequestError ''Expected an ID for the supervisor_release'')
                 | Some supervisorRelease \<Rightarrow>
                     io_bind (ve_affected env) (\<lambda>ids. checkSupervisorReleaseUpgrades env ids supervisorRelease)))"

section \<open>What the comparison and the queries rely on\<close>

text \<open>
  Versions are compared by a total preorder, \<open>le\<close>; a version is equivalent to the text it was read from, to
  the text its numbers make, and to that text without the name of the system.
\<close>

text \<open>
  Releases have one tag of a name, and only a release whose version could not be moved to its fields has a
  tag with its version; such a version is above the default one.
\<close>

definition consistent_release :: "version_lib \<Rightarrow> (string \<Rightarrow> string \<Rightarrow> bool) \<Rightarrow> os_release \<Rightarrow> bool" where
  "consistent_release lib le r \<longleftrightarrow>
     distinct (map fst (or_tags r)) \<and>
     (\<forall>t. map_of (or_tags r) ''version'' = Some t \<longrightarrow>
        js_startsWith (semver_text (or_row r)) ''0.0.0'' \<and>
        (\<forall>a v. vl_parse lib a = Some v \<and> js_startsWith (semver_text (semver_row (semver.truncate v))) ''0.0.0'' \<longrightarrow>
           le a t))"

text \<open>The target is not behind what the device runs.\<close>

definition not_behind :: "version_lib \<Rightarrow> (string \<Rightarrow> string \<Rightarrow> bool) \<Rightarrow> os_device \<Rightarrow> bool" where
  "not_behind lib le d \<longleftrightarrow>
     (\<forall>v r t. od_os_version d = Some v \<and> vl_parse lib v \<noteq> None \<and> parseOsVariant (od_os_variant d) \<noteq> None \<and>
        od_target d = Some r \<and> getBaseVersionFromReleaseSemverOrTag r = Some t \<longrightarrow> le v t)"

locale version_order =
  fixes lib :: version_lib
    and le :: "string \<Rightarrow> string \<Rightarrow> bool"
  assumes le_trans: "le a b \<Longrightarrow> le b c \<Longrightarrow> le a c"
    and le_total: "le a b \<or> le b a"
    and gt: "vl_gt lib a b \<longleftrightarrow> \<not> le a b"
    and lt: "vl_lt lib a b \<longleftrightarrow> \<not> le b a"
    and raw: "vl_parse lib a = Some v \<Longrightarrow> le a (ov_raw v) \<and> le (ov_raw v) a"
    and numbers: "vl_parse lib a = Some v \<Longrightarrow> le a (semver_text (semver_row (semver.truncate v)))"
    and normalized: "vl_parse lib a = Some v \<Longrightarrow> le a (normalizeOsVersion (ov_raw v))"
begin

text \<open>The loop finds the highest of the versions it can read.\<close>

lemma max_loop:
  assumes "case m of None \<Rightarrow> True | Some x \<Rightarrow> vl_parse lib x \<noteq> None"
  shows "(\<forall>v \<in> set vs. vl_parse lib v \<noteq> None \<longrightarrow> (\<exists>x. foldl (max_step lib) m vs = Some x \<and> le v x)) \<and>
    (case m of None \<Rightarrow> True | Some y \<Rightarrow> \<exists>x. foldl (max_step lib) m vs = Some x \<and> le y x)"
  using assms
proof (induction vs arbitrary: m)
  case Nil
  then show ?case using le_total by (auto split: option.split)
next
  case (Cons v vs)
  let ?m = "max_step lib m v"
  have "case ?m of None \<Rightarrow> True | Some x \<Rightarrow> vl_parse lib x \<noteq> None"
    using Cons.prems by (auto simp: max_step_def split: option.splits)
  from Cons.IH [OF this] have rest: "\<forall>u \<in> set vs. vl_parse lib u \<noteq> None \<longrightarrow> (\<exists>x. foldl (max_step lib) ?m vs = Some x \<and> le u x)"
    "\<And>y. ?m = Some y \<Longrightarrow> \<exists>x. foldl (max_step lib) ?m vs = Some x \<and> le y x"
    by auto
  have head: "vl_parse lib v \<noteq> None \<Longrightarrow> \<exists>y. ?m = Some y \<and> le v y"
    using le_total by (auto simp: max_step_def gt split: option.splits)
  have old: "m = Some y \<Longrightarrow> \<exists>z. ?m = Some z \<and> le y z" for y
    using le_total by (auto simp: max_step_def gt)
  have up: "\<exists>x. foldl (max_step lib) ?m vs = Some x \<and> le y x" if "\<exists>z. ?m = Some z \<and> le y z" for y
    using that rest(2) le_trans by blast
  show ?case
    using rest(1) up head old by (auto split: option.split)
qed

lemma found:
  assumes "vl_parse lib a = Some v" "consistent_release lib le r" "os_release_filter lib dt v variant r"
    and "getBaseVersionFromReleaseSemverOrTag r = Some t"
  shows "le a t"
proof (cases "matches_semver lib v variant (or_row r)")
  case True
  then have same: "semver_text (or_row r) = semver_text (semver_row (semver.truncate v))"
    by (simp add: matches_semver_def semver_text_def version_core_text_def semver_row_def blank_release_def
        semver.truncate_def)
  show ?thesis
  proof (cases "js_startsWith (semver_text (or_row r)) ''0.0.0''")
    case True
    then show ?thesis
      using assms(1,2,4) same by (auto simp: getBaseVersionFromReleaseSemverOrTag_def consistent_release_def)
  next
    case False
    then show ?thesis
      using numbers [OF assms(1)] assms(4) same by (auto simp: getBaseVersionFromReleaseSemverOrTag_def)
  qed
next
  case False
  then have "(''version'', normalizeOsVersion (ov_raw v)) \<in> set (or_tags r)"
    using assms(3) by (simp add: os_release_filter_def matches_tags_def)
  then have tag: "map_of (or_tags r) ''version'' = Some (normalizeOsVersion (ov_raw v))"
    using assms(2) by (simp add: consistent_release_def)
  then have "t = normalizeOsVersion (ov_raw v)"
    using assms(2,4) by (simp add: consistent_release_def getBaseVersionFromReleaseSemverOrTag_def)
  then show ?thesis using normalized [OF assms(1)] by simp
qed

end

lemma show_int_no_bar: "CHR ''|'' \<notin> set (show_int i)"
proof -
  have "CHR ''|'' \<notin> set (show_nat n)" for n
    using show_nat_digits [of n] by (auto simp: is_digit_char_def)
  then show ?thesis by (simp add: show_int_def)
qed

text \<open>The key of a group determines what the group shares.\<close>

lemma group_key_inject:
  assumes "group_key a = group_key b" "di_variant a \<in> {''dev'', ''prod''}" "di_variant b \<in> {''dev'', ''prod''}"
  shows "di_device_type a = di_device_type b \<and> ov_raw (di_version a) = ov_raw (di_version b) \<and> di_variant a = di_variant b"
proof -
  have "show_int (di_device_type a) = show_int (di_device_type b) \<and>
      ov_raw (di_version a) @ ''|'' @ di_variant a = ov_raw (di_version b) @ ''|'' @ di_variant b"
    using unique_split [OF show_int_no_bar show_int_no_bar] assms(1) by (simp add: group_key_def)
  moreover from this have "rev (di_variant a) @ CHR ''|'' # rev (ov_raw (di_version a)) =
      rev (di_variant b) @ CHR ''|'' # rev (ov_raw (di_version b))"
    by (metis append.assoc append_Cons append_Nil rev.simps(2) rev_append rev_rev_ident)
  moreover have "CHR ''|'' \<notin> set (rev (di_variant a))" "CHR ''|'' \<notin> set (rev (di_variant b))"
    using assms(2,3) by auto
  ultimately show ?thesis
    using unique_split by (metis rev_is_rev_conv show_int_inject)
qed

text \<open>
  The queries, over the view of the devices: \<open>dev\<close> is what the table says of a device, \<open>rel\<close> the release
  with an id.
\<close>

locale target_db = version_order "te_lib env" le
  for env :: "'w target_env" and le +
  fixes dev :: "'w \<Rightarrow> int \<Rightarrow> os_device option"
    and rel :: "int \<Rightarrow> os_release"
    and aff :: "int list"
  assumes find: "te_find env p w = (Inr rs, w') \<Longrightarrow> dev w' = dev w \<and> (\<forall>r \<in> set rs. p r \<and> rel (or_id r) = r)"
    and data: "consistent_release (te_lib env) le (rel i)"
    and affected: "te_affected env w = (Inr ids, w') \<Longrightarrow> dev w' = dev w \<and> ids = aff"
    and devices: "te_devices env ids w = (Inr ds, w') \<Longrightarrow> dev w' = dev w \<and>
      set ds = {d. \<exists>i \<in> set ids. dev w i = Some d}"
    and dev_id: "dev w i = Some d \<Longrightarrow> od_id d = i"
    and os_versions: "te_os_versions env ids w = (Inr vs, w') \<Longrightarrow> dev w' = dev w \<and>
      (\<forall>i \<in> set ids. \<forall>d v. dev w i = Some d \<and> od_os_version d = Some v \<longrightarrow> v \<in> set vs)"
    and release: "te_release env i allow w = (Inr found_release, w') \<Longrightarrow> dev w' = dev w \<and>
      (found_release = None \<or> found_release = Some (rel i))"
    and set_target: "te_set_target env ids new_target w = (Inr (), w') \<Longrightarrow>
      dev w' = (\<lambda>i. if i \<in> set ids then map_option (od_target_update (\<lambda>_. map_option rel new_target)) (dev w i)
                   else dev w i)"
begin

lemma check_no_downgrade:
  assumes "checkHostappReleaseUpgrades env ids n allow w = (Inr (), w')" "i \<in> set ids"
    and "dev w i = Some d" "od_os_version d = Some v" "vl_parse (te_lib env) v \<noteq> None"
  shows "dev w' = dev w \<and> (\<exists>t. getBaseVersionFromReleaseSemverOrTag (rel n) = Some t \<and> le v t)"
proof -
  obtain vs w1 where vs: "te_os_versions env ids w = (Inr vs, w1)"
    using assms(1,2) by (auto simp: checkHostappReleaseUpgrades_def io_run_iffs split: if_splits)
  obtain m where m: "foldl (max_step (te_lib env)) None vs = Some m" "le v m"
    using max_loop [of None vs] os_versions [OF vs] assms(2-5) by auto
  have "ids \<noteq> []" using assms(2) by auto
  then obtain r t where r: "te_release env n allow w1 = (Inr (Some r), w')"
    "getBaseVersionFromReleaseSemverOrTag r = Some t" "\<not> vl_lt (te_lib env) t m"
    using assms(1) vs m(1)
    by (clarsimp simp: checkHostappReleaseUpgrades_def io_run_iffs)
      (auto simp: io_run_iffs split: option.split_asm if_split_asm)
  then show ?thesis
    using release [OF r(1)] os_versions [OF vs] m(2) le_trans by (auto simp: lt)
qed

definition group_ok :: "'w \<Rightarrow> device_info list \<Rightarrow> bool" where
  "group_ok w g \<longleftrightarrow> g \<noteq> [] \<and> (\<forall>x \<in> set g. \<exists>d. dev w (di_id x) = Some d \<and> device_info_of (te_lib env) d = Some x) \<and>
     (\<forall>x \<in> set g. group_key x = group_key (hd g))"

lemma group_okD:
  assumes "group_ok w g"
  shows "hd g \<in> set g"
    and "x \<in> set g \<Longrightarrow> \<exists>d. dev w (di_id x) = Some d \<and> device_info_of (te_lib env) d = Some x"
    and "x \<in> set g \<Longrightarrow> group_key x = group_key (hd g)"
  using assms unfolding group_ok_def by (simp, blast, blast)

lemma group_ok_cong:
  assumes "group_ok w g" "\<And>x. x \<in> set g \<Longrightarrow> dev w' (di_id x) = dev w (di_id x)"
  shows "group_ok w' g"
proof -
  have "\<exists>d. dev w' (di_id x) = Some d \<and> device_info_of (te_lib env) d = Some x" if "x \<in> set g" for x
    using group_okD(2) [OF assms(1) that] assms(2) [OF that] by simp
  then show ?thesis using assms(1) unfolding group_ok_def by blast
qed

lemma info_fields:
  assumes "device_info_of (te_lib env) d = Some x"
  shows "\<exists>v. od_os_version d = Some v \<and> vl_parse (te_lib env) v = Some (di_version x) \<and>
    parseOsVariant (od_os_variant d) = Some (di_variant x) \<and> di_variant x \<in> {''dev'', ''prod''} \<and>
    di_id x = od_id d \<and> di_target x = od_target d \<and> di_device_type x = od_device_type d"
  using assms by (auto simp: device_info_of_def parseOsVariant_def split: option.splits if_splits)

lemma progress_group_ok:
  assumes "group_ok w g" "progress_group env g w = (Inr (), w')"
  shows "(\<forall>i. i \<notin> di_id ` set g \<longrightarrow> dev w' i = dev w i) \<and>
    (\<forall>x \<in> set g. \<exists>d. dev w' (di_id x) = Some d \<and> not_behind (te_lib env) le d)"
proof -
  let ?h = "hd g"
  obtain r w1 where r: "getOSReleaseResource env (di_device_type ?h) (di_version ?h) (di_variant ?h) w = (Inr r, w1)"
    using assms(2) by (auto simp: progress_group_def Let_def io_run_iffs)
  have got: "dev w1 = dev w"
    "\<And>q. r = Some q \<Longrightarrow> rel (or_id q) = q \<and> os_release_filter (te_lib env) (di_device_type ?h) (di_version ?h) (di_variant ?h) q"
  proof -
    obtain rs where rs: "te_find env (os_release_filter (te_lib env) (di_device_type ?h) (di_version ?h) (di_variant ?h)) w =
        (Inr rs, w1)" "r = (case rs of [] \<Rightarrow> None | q # _ \<Rightarrow> Some q)"
      using r by (auto simp: getOSReleaseResource_def io_bind_Inr_iff io_return_Inr_iff)
    show "dev w1 = dev w" using find [OF rs(1)] by simp
    show "rel (or_id q) = q \<and> os_release_filter (te_lib env) (di_device_type ?h) (di_version ?h) (di_variant ?h) q"
      if "r = Some q" for q
      using find [OF rs(1)] rs(2) that by (auto split: list.splits)
  qed
  define ids where "ids = map di_id (case r of None \<Rightarrow> filter (\<lambda>d. di_target d \<noteq> None) g | Some _ \<Rightarrow> g)"
  have w': "dev w' = (\<lambda>i. if i \<in> set ids then map_option (od_target_update (\<lambda>_. map_option rel (map_option or_id r))) (dev w i) else dev w i)"
  proof (cases "r = None \<and> ids = []")
    case True
    then have "filter (\<lambda>d. di_target d \<noteq> None) g = []" unfolding ids_def by (cases r) auto
    then have "w' = w1"
      using assms(2) r True by (simp add: progress_group_def Let_def io_bind_Inr_iff io_return_Inr_iff)
    then show ?thesis using got(1) True by simp
  next
    case False
    then have "te_set_target env ids (map_option or_id r) w1 = (Inr (), w')"
      using assms(2) r by (auto simp: progress_group_def Let_def ids_def io_run_iffs split: if_splits)
    from set_target [OF this] show ?thesis by (simp only: got(1))
  qed
  have ids: "set ids \<subseteq> di_id ` set g" by (auto simp: ids_def split: option.splits)
  have "\<exists>d. dev w' (di_id x) = Some d \<and> not_behind (te_lib env) le d" if x: "x \<in> set g" for x
  proof -
    obtain d where d: "dev w (di_id x) = Some d" "device_info_of (te_lib env) d = Some x"
      using group_okD(2) [OF assms(1) x] by blast
    obtain v where v: "od_os_version d = Some v" "vl_parse (te_lib env) v = Some (di_version x)"
      "di_variant x \<in> {''dev'', ''prod''}" "di_target x = od_target d"
      using info_fields [OF d(2)] by auto
    note h = group_okD(1) [OF assms(1)] group_okD(3) [OF assms(1) x]
    obtain dh where dh: "device_info_of (te_lib env) dh = Some ?h"
      using group_okD(2) [OF assms(1) h(1)] by blast
    obtain vh where vh: "vl_parse (te_lib env) vh = Some (di_version ?h)"
      using info_fields [OF dh] by auto
    have same: "ov_raw (di_version x) = ov_raw (di_version ?h)"
      using group_key_inject [OF h(2) v(3)] info_fields [OF dh] by blast
    show ?thesis
    proof (cases r)
      case None
      then have "di_id x \<notin> set ids \<Longrightarrow> od_target d = None"
        using x v(4) by (auto simp: ids_def image_iff)
      then show ?thesis
        using w' d(1) None by (auto simp: not_behind_def)
    next
      case (Some q)
      have "le v t" if "getBaseVersionFromReleaseSemverOrTag q = Some t" for t
      proof -
        have "rel (or_id q) = q" "os_release_filter (te_lib env) (di_device_type ?h) (di_version ?h) (di_variant ?h) q"
          using got(2) [OF Some] by auto
        then have "le vh t" using found [OF vh _ _ that] data [of "or_id q"] by simp
        then show ?thesis using raw [OF v(2)] raw [OF vh] le_trans same by metis
      qed
      then show ?thesis
        using w' d(1) v(1) Some x got(2) [OF Some] by (auto simp: not_behind_def ids_def)
    qed
  qed
  then show ?thesis using w' ids by auto
qed

lemma progress_groups_ok:
  assumes "\<forall>g \<in> set gs. group_ok w g" "sorted_wrt (\<lambda>g h. di_id ` set g \<inter> di_id ` set h = {}) gs"
    and "io_mapM (progress_group env) gs w = (Inr rs, w')"
  shows "(\<forall>i. i \<notin> (\<Union>g \<in> set gs. di_id ` set g) \<longrightarrow> dev w' i = dev w i) \<and>
    (\<forall>g \<in> set gs. \<forall>x \<in> set g. \<exists>d. dev w' (di_id x) = Some d \<and> not_behind (te_lib env) le d)"
  using assms
proof (induction gs arbitrary: w rs)
  case Nil
  then show ?case by (simp add: io_run_iffs)
next
  case (Cons g gs)
  obtain r w1 rs' where run: "progress_group env g w = (Inr r, w1)"
    "io_mapM (progress_group env) gs w1 = (Inr rs', w')"
    using Cons.prems(3) by (auto simp: io_run_iffs)
  have g: "group_ok w g" using Cons.prems(1) by simp
  have run1: "progress_group env g w = (Inr (), w1)" using run(1) by simp
  note head = progress_group_ok [OF g run1, THEN conjunct1, rule_format]
    progress_group_ok [OF g run1, THEN conjunct2, rule_format]
  have disjoint: "di_id x \<notin> di_id ` set g" if "h \<in> set gs" "x \<in> set h" for h x
    using Cons.prems(2) that by auto
  have "group_ok w1 h" if h: "h \<in> set gs" for h
    by (rule group_ok_cong [of w]) (use Cons.prems(1) h head(1) [OF disjoint [OF h]] in simp_all)
  then have rest: "\<And>i. i \<notin> (\<Union>g \<in> set gs. di_id ` set g) \<Longrightarrow> dev w' i = dev w1 i"
    "\<And>h x. h \<in> set gs \<Longrightarrow> x \<in> set h \<Longrightarrow> \<exists>d. dev w' (di_id x) = Some d \<and> not_behind (te_lib env) le d"
    using Cons.IH [of w1 rs'] Cons.prems(2) run(2) by auto
  have "di_id x \<notin> (\<Union>h \<in> set gs. di_id ` set h)" if "x \<in> set g" for x
    using Cons.prems(2) that by auto
  then have "\<exists>d. dev w' (di_id x) = Some d \<and> not_behind (te_lib env) le d" if "x \<in> set g" for x
    using head(2) [OF that] rest(1) that by simp
  then show ?case using head(1) rest by auto
qed

lemma progress_ok:
  assumes "progressTargetOSReleaseIfNewer env ids w = (Inr (), w')"
  shows "(\<forall>i. i \<notin> set ids \<longrightarrow> dev w' i = dev w i) \<and>
    (\<forall>i \<in> set ids. \<forall>d. dev w i = Some d \<longrightarrow> (\<exists>d'. dev w' i = Some d' \<and> not_behind (te_lib env) le d'))"
proof (cases ids)
  case Nil
  with assms show ?thesis by (simp add: progressTargetOSReleaseIfNewer_def io_run_iffs)
next
  case (Cons i0 ids0)
  obtain ds w1 where ds: "te_devices env ids w = (Inr ds, w1)"
    using assms Cons by (auto simp: progressTargetOSReleaseIfNewer_def io_run_iffs)
  have read: "dev w1 = dev w" "set ds = {d. \<exists>i \<in> set ids. dev w i = Some d}"
    using devices [OF ds] by auto
  define infos where "infos = filter (is_ahead (te_lib env)) (List.map_filter (device_info_of (te_lib env)) ds)"
  have infos: "x \<in> set infos \<longleftrightarrow> is_ahead (te_lib env) x \<and>
      (\<exists>i \<in> set ids. \<exists>d. dev w i = Some d \<and> device_info_of (te_lib env) d = Some x)" for x
    unfolding infos_def by (simp add: set_map_filter read(2)) blast
  have info_id: "dev w i = Some d \<Longrightarrow> device_info_of (te_lib env) d = Some x \<Longrightarrow> di_id x = i" for i d x
    using info_fields [of d x] dev_id [of w i d] by auto
  let ?gs = "map snd (groupByMap infos group_key)"
  have gs: "g \<in> set ?gs \<longleftrightarrow> (\<exists>x \<in> set infos. g = filter (\<lambda>y. group_key y = group_key x) infos)" for g
  proof
    assume "g \<in> set ?gs"
    then obtain k where "(k, g) \<in> set (groupByMap infos group_key)" by auto
    then show "\<exists>x \<in> set infos. g = filter (\<lambda>y. group_key y = group_key x) infos"
      by (auto simp: groupByMap_entry)
  next
    assume "\<exists>x \<in> set infos. g = filter (\<lambda>y. group_key y = group_key x) infos"
    then obtain x where "x \<in> set infos" "(group_key x, g) \<in> set (groupByMap infos group_key)"
      by (auto simp: groupByMap_entry)
    then show "g \<in> set ?gs" by force
  qed
  obtain rs where run: "io_mapM (progress_group env) ?gs w1 = (Inr rs, w')"
  proof (cases "infos = []")
    case True
    have "w' = w1"
      using assms Cons ds True by (simp add: progressTargetOSReleaseIfNewer_def infos_def io_run_iffs)
    then show ?thesis using that True by (simp add: groupByMap_def io_run_iffs)
  next
    case False
    then show ?thesis
      using that assms Cons ds
      by (auto simp: progressTargetOSReleaseIfNewer_def infos_def [symmetric] Let_def io_bind_Inr_iff io_return_Inr_iff)
  qed
  have "group_ok w1 g" if g: "g \<in> set ?gs" for g
  proof -
    obtain x where x: "x \<in> set infos" "g = filter (\<lambda>y. group_key y = group_key x) infos"
      using g gs by auto
    then have "g \<noteq> []" by (auto simp: filter_empty_conv)
    then have "hd g \<in> set g" by simp
    then have "\<forall>y \<in> set g. group_key y = group_key (hd g)" using x(2) by simp
    then show ?thesis
      using \<open>g \<noteq> []\<close> x(2) infos info_id by (fastforce simp: group_ok_def read(1))
  qed
  moreover have "sorted_wrt (\<lambda>g h. di_id ` set g \<inter> di_id ` set h = {}) ?gs"
  proof -
    have same: "x = y" if "x \<in> set infos" "y \<in> set infos" "di_id x = di_id y" for x y
      using that infos info_id by (metis option.inject)
    have "distinct (groupByMap infos group_key)"
      using groupByMap_distinct by (rule distinct_map [THEN iffD1, THEN conjunct1])
    then have "sorted_wrt (\<noteq>) (groupByMap infos group_key)" by (simp add: distinct_conv_nth sorted_wrt_iff_nth_less)
    then show ?thesis
      unfolding sorted_wrt_map
    proof (rule sorted_wrt_mono_rel [rotated])
      fix a b assume ab: "a \<in> set (groupByMap infos group_key)" "b \<in> set (groupByMap infos group_key)" "a \<noteq> b"
      have in_a: "x \<in> set infos \<and> group_key x = fst a" if "x \<in> set (snd a)" for x
        using groupByMap_entry [of "fst a" "snd a" infos group_key] ab(1) that by simp
      have in_b: "x \<in> set infos \<and> group_key x = fst b" if "x \<in> set (snd b)" for x
        using groupByMap_entry [of "fst b" "snd b" infos group_key] ab(2) that by simp
      have "snd a = filter (\<lambda>e. group_key e = fst a) infos" "snd b = filter (\<lambda>e. group_key e = fst b) infos"
        using groupByMap_entry [of "fst a" "snd a" infos group_key] groupByMap_entry [of "fst b" "snd b" infos group_key]
          ab(1,2) by simp_all
      then have "fst a \<noteq> fst b"
        using ab(3) prod_eqI [of a b] by metis
      moreover have "x \<noteq> y" if "x \<in> set (snd a)" "y \<in> set (snd b)" "fst a \<noteq> fst b" for x y
        using in_a [OF that(1)] in_b [OF that(2)] that(3) by metis
      ultimately have "di_id x \<noteq> di_id y" if "x \<in> set (snd a)" "y \<in> set (snd b)" for x y
        using same in_a [OF that(1)] in_b [OF that(2)] that by blast
      then show "di_id ` set (snd a) \<inter> di_id ` set (snd b) = {}" by fastforce
    qed
  qed
  ultimately have "(\<forall>i. i \<notin> (\<Union>g \<in> set ?gs. di_id ` set g) \<longrightarrow> dev w' i = dev w1 i) \<and>
      (\<forall>g \<in> set ?gs. \<forall>x \<in> set g. \<exists>d. dev w' (di_id x) = Some d \<and> not_behind (te_lib env) le d)"
    by (intro progress_groups_ok [OF _ _ run] ballI)
  then have post: "\<And>i. i \<notin> (\<Union>g \<in> set ?gs. di_id ` set g) \<Longrightarrow> dev w' i = dev w i"
    "\<And>g x. g \<in> set ?gs \<Longrightarrow> x \<in> set g \<Longrightarrow> \<exists>d. dev w' (di_id x) = Some d \<and> not_behind (te_lib env) le d"
    unfolding read(1) by blast+
  have "(\<Union>g \<in> set ?gs. di_id ` set g) = di_id ` (\<Union>(k, g) \<in> set (groupByMap infos group_key). set g)"
    by (simp add: image_UN split_def)
  then have all: "(\<Union>g \<in> set ?gs. di_id ` set g) = di_id ` set infos"
    by (simp only: groupByMap_union)
  have union: "i \<in> (\<Union>g \<in> set ?gs. di_id ` set g) \<longleftrightarrow> (\<exists>x \<in> set infos. di_id x = i)" for i
    unfolding all by auto
  have outside: "dev w' i = dev w i" if "i \<notin> set ids" for i
  proof -
    have "i \<notin> di_id ` set infos" using that infos info_id by auto
    then show ?thesis using post(1) [of i] unfolding all by blast
  qed
  have "\<exists>d'. dev w' i = Some d' \<and> not_behind (te_lib env) le d'" if i: "i \<in> set ids" "dev w i = Some d" for i d
  proof (cases "\<exists>x \<in> set infos. di_id x = i")
    case True
    then obtain x where x: "x \<in> set infos" "di_id x = i" by auto
    then have "filter (\<lambda>y. group_key y = group_key x) infos \<in> set ?gs"
      "x \<in> set (filter (\<lambda>y. group_key y = group_key x) infos)" using gs by auto
    from post(2) [OF this] show ?thesis by (simp add: x(2))
  next
    case False
    then have same: "dev w' i = Some d" using post(1) [of i] union [of i] i(2) by simp
    have "le v t" if v: "od_os_version d = Some v" "vl_parse (te_lib env) v \<noteq> None"
      "parseOsVariant (od_os_variant d) \<noteq> None" "od_target d = Some r" "getBaseVersionFromReleaseSemverOrTag r = Some t" for v r t
    proof -
      obtain u variant where u: "vl_parse (te_lib env) v = Some u" "parseOsVariant (od_os_variant d) = Some variant"
        using v by auto
      define x where "x = \<lparr>di_id = od_id d, di_device_type = od_device_type d, di_version = u,
        di_variant = variant, di_target = od_target d\<rparr>"
      have x: "device_info_of (te_lib env) d = Some x" using u v by (simp add: device_info_of_def x_def)
      have "x \<notin> set infos" using False info_id [OF i(2) x] by auto
      then have "\<not> is_ahead (te_lib env) x" using infos [of x] x i by auto
      then have "le (ov_raw u) t" using v by (simp add: is_ahead_def x_def gt)
      then show ?thesis using raw [OF u(1)] le_trans by blast
    qed
    then show ?thesis using same by (auto simp: not_behind_def)
  qed
  then show ?thesis using outside by simp
qed

lemma patch_check_ok:
  assumes "hostapp_patch_check env is_root vals w = (Inr (), w')"
    and "map_of vals ''should_be_operated_by__release'' = Some (JNum n)"
    and "i \<in> set aff" "dev w i = Some d" "od_os_version d = Some v" "vl_parse (te_lib env) v \<noteq> None"
  shows "dev w' = dev w \<and> (\<exists>t. getBaseVersionFromReleaseSemverOrTag (rel n) = Some t \<and> le v t)"
proof -
  obtain ids w1 where run: "te_affected env w = (Inr ids, w1)"
    "checkHostappReleaseUpgrades env ids n is_root w1 = (Inr (), w')"
    using assms(1,2) by (auto simp: hostapp_patch_check_def io_bind_Inr_iff)
  show ?thesis
    using check_no_downgrade [OF run(2), of i d v] affected [OF run(1)] assms(3-6) by simp
qed

lemma patch_progress_ok:
  assumes "hostapp_patch_progress env vals w = (Inr (), w')"
    and "map_of vals ''os_version'' = Some (JStr s)" "vl_parse (te_lib env) s \<noteq> None"
  shows "(\<forall>i. i \<notin> set aff \<longrightarrow> dev w' i = dev w i) \<and>
    (\<forall>i \<in> set aff. \<forall>d. dev w i = Some d \<longrightarrow> (\<exists>d'. dev w' i = Some d' \<and> not_behind (te_lib env) le d'))"
proof -
  obtain ids w1 where run: "te_affected env w = (Inr ids, w1)"
    "progressTargetOSReleaseIfNewer env ids w1 = (Inr (), w')"
    using assms by (auto simp: hostapp_patch_progress_def Let_def io_bind_Inr_iff)
  show ?thesis
    using progress_ok [OF run(2)] affected [OF run(1)] by simp
qed

end

section \<open>In memory\<close>

text \<open>
  A comparison of versions of three numbers above the default one, and a database in memory: the world is the
  list of devices; releases that are not consistent or have the id of another are not in it.
\<close>

definition core_parse :: "string \<Rightarrow> os_version option" where
  "core_parse s =
     (case List.map_filter parseInt10 (js_split (CHR ''.'') s) of
        [a, b, c] \<Rightarrow>
          (let v = \<lparr>sv_major = a, sv_minor = b, sv_patch = c, sv_prerelease = [], sv_build = [], ov_raw = s\<rparr>
           in if semver_text (semver_row (semver.truncate v)) = s \<and> normalizeOsVersion s = s \<and> \<not> js_startsWith s ''0.0.0''
              then Some v else None)
      | _ \<Rightarrow> None)"

definition core_le :: "string \<Rightarrow> string \<Rightarrow> bool" where
  "core_le a b =
     (case (core_parse a, core_parse b) of
        (None, _) \<Rightarrow> True
      | (Some v, None) \<Rightarrow> False
      | (Some v, Some u) \<Rightarrow>
          sv_major v < sv_major u \<or> sv_major v = sv_major u \<and>
            (sv_minor v < sv_minor u \<or> sv_minor v = sv_minor u \<and> sv_patch v \<le> sv_patch u))"

definition core_lib :: version_lib where
  "core_lib = \<lparr>vl_parse = core_parse, vl_gt = \<lambda>a b. \<not> core_le a b, vl_lt = \<lambda>a b. \<not> core_le b a, vl_getRevision = \<lambda>_. None\<rparr>"

lemma core_parse_text:
  assumes "core_parse s = Some v"
  shows "ov_raw v = s" "semver_text (semver_row (semver.truncate v)) = s" "normalizeOsVersion s = s"
    "\<not> js_startsWith s ''0.0.0''"
proof -
  obtain a b c where abc: "List.map_filter parseInt10 (js_split (CHR ''.'') s) = [a, b, c]"
    using assms by (auto simp: core_parse_def split: list.splits)
  define u where "u = \<lparr>sv_major = a, sv_minor = b, sv_patch = c, sv_prerelease = [], sv_build = [], ov_raw = s\<rparr>"
  have "(if semver_text (semver_row (semver.truncate u)) = s \<and> normalizeOsVersion s = s \<and> \<not> js_startsWith s ''0.0.0''
      then Some u else None) = Some v"
    using assms unfolding core_parse_def abc u_def Let_def list.case .
  then have "u = v" "semver_text (semver_row (semver.truncate u)) = s" "normalizeOsVersion s = s"
    "\<not> js_startsWith s ''0.0.0''"
    by (simp_all split: if_splits)
  then show "ov_raw v = s" "semver_text (semver_row (semver.truncate v)) = s" "normalizeOsVersion s = s"
    "\<not> js_startsWith s ''0.0.0''"
    by (auto simp: u_def)
qed

definition mem_consistent :: "os_release \<Rightarrow> bool" where
  "mem_consistent r \<longleftrightarrow> distinct (map fst (or_tags r)) \<and>
     (map_of (or_tags r) ''version'' = None \<or> js_startsWith (semver_text (or_row r)) ''0.0.0'')"

definition mem_rel :: "os_release list \<Rightarrow> int \<Rightarrow> os_release" where
  "mem_rel rels i =
     (case find (\<lambda>r. or_id r = i \<and> mem_consistent r) rels of
        Some r \<Rightarrow> r
      | None \<Rightarrow> \<lparr>or_id = i, or_row = blank_release, or_status = [], or_device_type = 0, or_is_host = False, or_tags = []\<rparr>)"

definition mem_dev :: "os_device list \<Rightarrow> int \<Rightarrow> os_device option" where
  "mem_dev w i = find (\<lambda>d. od_id d = i) w"

definition mem_target_env :: "os_release list \<Rightarrow> int list \<Rightarrow> os_device list target_env" where
  "mem_target_env rels ids =
     \<lparr>te_lib = core_lib,
      te_find = \<lambda>p w. (Inr (take 2 (filter (\<lambda>r. mem_rel rels (or_id r) = r \<and> p r) rels)), w),
      te_affected = \<lambda>w. (Inr ids, w),
      te_devices = \<lambda>sel w. (Inr (List.map_filter (mem_dev w) (remdups sel)), w),
      te_os_versions = \<lambda>sel w. (Inr (List.map_filter od_os_version (List.map_filter (mem_dev w) (remdups sel))), w),
      te_release = \<lambda>i allow w. (Inr (if find (\<lambda>r. or_id r = i) rels = None then None else Some (mem_rel rels i)), w),
      te_set_target = \<lambda>sel t w.
        (Inr (), map (\<lambda>d. if od_id d \<in> set sel then d\<lparr>od_target := map_option (mem_rel rels) t\<rparr> else d) w)\<rparr>"

lemma mem_rel_consistent: "consistent_release core_lib core_le (mem_rel rels i)"
  using core_parse_text
  by (auto simp: mem_rel_def mem_consistent_def consistent_release_def core_lib_def find_Some_iff split: option.splits)

interpretation core_versions: version_order core_lib core_le
proof
  fix a v assume v: "vl_parse core_lib a = Some v"
  note read = core_parse_text [of a v]
  have same: "core_le a a" by (simp add: core_le_def split: option.split)
  show "core_le a (ov_raw v) \<and> core_le (ov_raw v) a" "core_le a (semver_text (semver_row (semver.truncate v)))"
    "core_le a (normalizeOsVersion (ov_raw v))"
    using read v same by (simp_all add: core_lib_def)
qed (auto simp: core_le_def core_lib_def split: option.splits)

lemma mem_dev_update:
  "mem_dev (map (\<lambda>d. if od_id d \<in> S then d\<lparr>od_target := t\<rparr> else d) w) i =
     (if i \<in> S then map_option (od_target_update (\<lambda>_. t)) (mem_dev w i) else mem_dev w i)"
  by (induction w) (auto simp: mem_dev_def)

lemma mem_dev_id: "mem_dev w i = Some d \<Longrightarrow> od_id d = i"
  by (auto simp: mem_dev_def find_Some_iff)

interpretation mem_targets: target_db "mem_target_env rels ids" core_le mem_dev "mem_rel rels" ids for rels ids
proof (rule target_db.intro)
  show "version_order (te_lib (mem_target_env rels ids)) core_le"
    using core_versions.version_order_axioms by (simp add: mem_target_env_def)
  show "target_db_axioms (mem_target_env rels ids) core_le mem_dev (mem_rel rels) ids"
  proof (unfold_locales, goal_cases)
    case (1 p w rs w')
    then show ?case by (auto simp: mem_target_env_def dest: in_set_takeD)
  next
    case (2 i)
    then show ?case using mem_rel_consistent by (simp add: mem_target_env_def)
  next
    case (4 sel w ds w')
    then show ?case by (auto simp: mem_target_env_def set_map_filter)
  next
    case (6 sel w vs w')
    then show ?case by (auto simp: mem_target_env_def set_map_filter) blast
  next
    case (8 sel t w w')
    then show ?case by (auto simp: mem_target_env_def mem_dev_update fun_eq_iff)
  qed (auto simp: mem_target_env_def mem_dev_id split: if_splits)
qed

definition demo_os_release :: "int \<Rightarrow> int \<Rightarrow> os_release" where
  "demo_os_release i major = \<lparr>or_id = i, or_row = blank_release\<lparr>rl_major := major, rl_revision := Some 0\<rparr>,
     or_status = ''success'', or_device_type = 5, or_is_host = True, or_tags = []\<rparr>"

definition demo_os_releases :: "os_release list" where
  "demo_os_releases = [demo_os_release 10 1, demo_os_release 11 2]"

definition demo_device :: "int \<Rightarrow> os_device" where
  "demo_device i = \<lparr>od_id = i, od_device_type = 5, od_os_version = Some ''2.0.0'', od_os_variant = Some ''prod'',
     od_target = Some (demo_os_release 10 1)\<rparr>"

lemma demo_follows:
  "hostapp_patch_progress (mem_target_env demo_os_releases [1]) [(''os_version'', JStr ''2.0.0'')]
     [demo_device 1, demo_device 2] =
   (Inr (), [(demo_device 1)\<lparr>od_target := Some (demo_os_release 11 2)\<rparr>, demo_device 2])"
  by code_simp

lemma demo_target_checked:
  "hostapp_patch_check (mem_target_env demo_os_releases [1]) False [(''should_be_operated_by__release'', JNum 11)]
     [demo_device 1] = (Inr (), [demo_device 1])"
  "hostapp_patch_check (mem_target_env demo_os_releases [1]) False [(''should_be_operated_by__release'', JNum 10)]
     [demo_device 1] =
   (Inl (BadRequestError ''Attempt to downgrade hostapp, which is not allowed''), [demo_device 1])"
  by code_simp+

lemma demo_version_read: "core_parse ''2.0.0'' \<noteq> None"
  by code_simp

text \<open>
  A request that sets the release of the host application of devices succeeds only if the release has
  a version and, for each device whose version can be read, is not behind what the device runs.
\<close>

lemma hostapp_no_downgrade:
  assumes "target_db env le dev rel aff" and "hostapp_patch_check env is_root vals w = (Inr (), w')"
    and "map_of vals ''should_be_operated_by__release'' = Some (JNum n)"
    and "i \<in> set aff" and "dev w i = Some d" and "od_os_version d = Some v" and "vl_parse (te_lib env) v \<noteq> None"
  shows "dev w' = dev w \<and> (\<exists>t. getBaseVersionFromReleaseSemverOrTag (rel n) = Some t \<and> le v t)"
  using target_db.patch_check_ok [OF assms] .



text \<open>
  A request that sets the supervisor of devices succeeds only if no device of the request has reported
  a supervisor yet, or the new release can be used and its version is not below that of any release
  they are to run now.
\<close>

lemma supervisor_no_downgrade:
  assumes "supervisor_patch env vals w = (Inr (), w')"
    and "map_of vals ''supervisor_version'' = None" and "map_of vals ''should_be_managed_by__release'' = Some (JNum n)"
  shows "\<exists>ids w1. ve_affected env w = (Inr ids, w1) \<and>
    (ids = [] \<or> (\<exists>w2. ve_count_unset env ids w1 = (Inr (length ids), w2)) \<or>
     (\<exists>k v vs w2 w3. ve_count_unset env ids w1 = (Inr k, w2) \<and> ve_release env n w2 = (Inr (Some v), w3) \<and>
        ve_targets env ids w3 = (Inr vs, w') \<and> (\<forall>old \<in> set vs. \<not> vl_lt (ve_lib env) v old)))"
proof -
  obtain ids w1 where ids: "ve_affected env w = (Inr ids, w1)"
    and check: "checkSupervisorReleaseUpgrades env ids n w1 = (Inr (), w')"
    using assms by (auto simp: supervisor_patch_def io_run_iffs)
  show ?thesis
  proof (cases "ids = []")
    case False
    obtain k w2 where k: "ve_count_unset env ids w1 = (Inr k, w2)"
      using check False by (auto simp: checkSupervisorReleaseUpgrades_def io_run_iffs)
    show ?thesis
    proof (cases "k = length ids")
      case False
      then obtain r w3 where r: "ve_release env n w2 = (Inr r, w3)"
        using check k \<open>ids \<noteq> []\<close> by (auto simp: checkSupervisorReleaseUpgrades_def io_run_iffs)
      then show ?thesis
        using check k False \<open>ids \<noteq> []\<close> ids
        by (cases r) (auto simp: checkSupervisorReleaseUpgrades_def io_run_iffs list_ex_iff split: if_splits)
    qed (use ids k in auto)
  qed (use ids in auto)
qed

end
