(* ===== verification/Scheduler.thy ===== *)
theory Scheduler
  imports JsRegex
begin

text \<open>
  Jobs that run on a schedule (\<^verbatim>\<open>src/infra/scheduler/index.ts\<close>): every instance of the API starts a job at
  the same times, and a lock and a note of the next time in redis are to make it run once.

  The scheduling library, the lock, redis, the database and the job are fields of an environment.
\<close>

section \<open>The code\<close>

datatype run_status = RunRunning | RunSuccess | RunError

text \<open>
  \<open>sc_lock_message e\<close> is the message of an error the lock library threw.  \<open>sc_next\<close> is
  \<^verbatim>\<open>job.nextInvocation()\<close> in milliseconds, \<open>sc_read_info\<close> reads the field \<^verbatim>\<open>nextInvocation\<close> of a text of
  JSON (\<open>None\<close> when it is not there), \<open>sc_patch_run i unless_success st t\<close> sets the status and the end of a
  run, and \<open>sc_capture\<close> reports an error.
\<close>

record 'w sched_env =
  sc_disabled :: "string list"
  sc_lock :: "string \<Rightarrow> int \<Rightarrow> ('w, string) io"
  sc_unlock :: "string \<Rightarrow> ('w, unit) io"
  sc_lock_message :: "exn \<Rightarrow> string option"
  sc_get :: "string \<Rightarrow> ('w, string option) io"
  sc_set :: "string \<Rightarrow> string \<Rightarrow> ('w, unit) io"
  sc_read_info :: "string \<Rightarrow> int option res"
  sc_post_run :: "string \<Rightarrow> int \<Rightarrow> ('w, int) io"
  sc_patch_run :: "int \<Rightarrow> bool \<Rightarrow> run_status \<Rightarrow> int \<Rightarrow> ('w, unit) io"
  sc_now :: "'w \<Rightarrow> int"
  sc_next :: "'w \<Rightarrow> int option"
  sc_capture :: "exn \<Rightarrow> 'w \<Rightarrow> 'w"

definition JOB_LOCK_PREFIX :: string where
  "JOB_LOCK_PREFIX = ''api:jobs:execute:''"

definition JOB_INFO_PREFIX :: string where
  "JOB_INFO_PREFIX = ''api:jobs:info:''"

definition JOB_DEFAULT_TTL :: int where
  "JOB_DEFAULT_TTL = 5000"

text \<open>\<^verbatim>\<open>job.nextInvocation()!.getTime()\<close>\<close>

definition next_time :: "'w sched_env \<Rightarrow> ('w, int) io" where
  "next_time env = (\<lambda>w. case sc_next env w of None \<Rightarrow> (Inl JsTypeError, w) | Some t \<Rightarrow> (Inr t, w))"

definition job_info :: "int \<Rightarrow> string" where
  "job_info t = ''{\"nextInvocation\":'' @ show_int t @ ''}''"

definition updateJobInfoExecute :: "'w sched_env \<Rightarrow> string \<Rightarrow> ('w, unit) io" where
  "updateJobInfoExecute env jobInfoKey =
     io_bind (next_time env) (\<lambda>t. sc_set env jobInfoKey (job_info t))"

definition checkJobShouldExecute :: "'w sched_env \<Rightarrow> string \<Rightarrow> int \<Rightarrow> ('w, bool) io" where
  "checkJobShouldExecute env jobInfoKey fireDate =
     io_bind (sc_get env jobInfoKey) (\<lambda>stored.
       case stored of
         None \<Rightarrow> io_bind (updateJobInfoExecute env jobInfoKey) (\<lambda>_. io_return True)
       | Some s \<Rightarrow>
           io_bind (io_lift (sc_read_info env s)) (\<lambda>nextInvocation.
             case nextInvocation of
               None \<Rightarrow> io_return True
             | Some n \<Rightarrow>
                 (if n \<le> fireDate then io_return True
                  else io_bind (next_time env) (\<lambda>t. io_return (n > t)))))"

text \<open>The body of the \<^verbatim>\<open>try\<close>: up to the row of the run, and after it.\<close>

definition start_run :: "'w sched_env \<Rightarrow> string \<Rightarrow> int \<Rightarrow> ('w, int option) io" where
  "start_run env jobId fireDate =
     io_bind (checkJobShouldExecute env (JOB_INFO_PREFIX @ jobId) fireDate) (\<lambda>shouldRun.
       if shouldRun
       then (\<lambda>w. io_bind (sc_post_run env jobId (sc_now env w)) (\<lambda>run. io_return (Some run)) w)
       else io_return None)"

definition perform_run ::
  "'w sched_env \<Rightarrow> string \<Rightarrow> (int \<Rightarrow> string \<Rightarrow> int \<Rightarrow> ('w, unit) io) \<Rightarrow> int \<Rightarrow> string \<Rightarrow> int \<Rightarrow> ('w, unit) io"
where
  "perform_run env jobId jobFunction fireDate lock run =
     io_bind (jobFunction fireDate lock run) (\<lambda>_.
     io_bind (\<lambda>w. sc_patch_run env run False RunSuccess (sc_now env w) w) (\<lambda>_.
     updateJobInfoExecute env (JOB_INFO_PREFIX @ jobId)))"

text \<open>The \<^verbatim>\<open>catch\<close>, with the row of the run if there was one.\<close>

definition job_failed :: "'w sched_env \<Rightarrow> string \<Rightarrow> int option \<Rightarrow> exn \<Rightarrow> ('w, unit) io" where
  "job_failed env jobId scheduledJobRun err =
     (\<lambda>w. io_bind
       (case scheduledJobRun of
          None \<Rightarrow> io_return ()
        | Some run \<Rightarrow> (\<lambda>w. sc_patch_run env run True RunError (sc_now env w) w))
       (\<lambda>_. updateJobInfoExecute env (JOB_INFO_PREFIX @ jobId)) (sc_capture env err w))"

definition locked_job ::
  "'w sched_env \<Rightarrow> string \<Rightarrow> (int \<Rightarrow> string \<Rightarrow> int \<Rightarrow> ('w, unit) io) \<Rightarrow> int \<Rightarrow> string \<Rightarrow> ('w, unit) io"
where
  "locked_job env jobId jobFunction fireDate lock =
     (\<lambda>w. case start_run env jobId fireDate w of
            (Inl err, w1) \<Rightarrow> job_failed env jobId None err w1
          | (Inr None, w1) \<Rightarrow> (Inr (), w1)
          | (Inr (Some run), w1) \<Rightarrow>
              io_catch (perform_run env jobId jobFunction fireDate lock run) (job_failed env jobId (Some run)) w1)"

text \<open>\<^verbatim>\<open>/Exceeded\s\d+\sattempts\sto\slock\sthe\sresource\s/\<close>\<close>

definition LOCK_EXCEEDED :: re where
  "LOCK_EXCEEDED =
     (let sp = RClass is_space_char
      in RSeqs [RLit ''Exceeded'', sp, RPlus (RClass is_digit_char), sp, RLit ''attempts'', sp, RLit ''to'', sp,
           RLit ''lock'', sp, RLit ''the'', sp, RLit ''resource'', sp])"

definition lock_in_place :: "'w sched_env \<Rightarrow> exn \<Rightarrow> bool" where
  "lock_in_place env err \<longleftrightarrow> (case sc_lock_message env err of None \<Rightarrow> False | Some m \<Rightarrow> re_test LOCK_EXCEEDED m)"

text \<open>What \<^verbatim>\<open>scheduleJob\<close> runs at every time of the schedule.\<close>

definition run_job ::
  "'w sched_env \<Rightarrow> string \<Rightarrow> (int \<Rightarrow> string \<Rightarrow> int \<Rightarrow> ('w, unit) io) \<Rightarrow> int option \<Rightarrow> int \<Rightarrow> ('w, unit) io"
where
  "run_job env jobId jobFunction lockTtl fireDate =
     (if jobId \<in> set (sc_disabled env) then io_return ()
      else io_catch
        (io_bind (sc_lock env (JOB_LOCK_PREFIX @ jobId) (case lockTtl of None \<Rightarrow> JOB_DEFAULT_TTL | Some t \<Rightarrow> t)) (\<lambda>lock.
           io_finally (locked_job env jobId jobFunction fireDate lock)
             (io_catch (sc_unlock env lock) (\<lambda>err w. (Inr (), sc_capture env err w)))))
        (\<lambda>err w. (Inr (), if lock_in_place env err then w else sc_capture env err w)))"

section \<open>What the services do\<close>

text \<open>
  The view: which locks are held, the notes in redis, the rows of runs, and how often the job was called.
  Redis and the updates of rows work; inserting a row, taking a lock and the job itself may fail.
\<close>

record job_view =
  jv_held :: "string \<Rightarrow> bool"
  jv_info :: "string \<Rightarrow> string option"
  jv_runs :: "int \<Rightarrow> run_status option"
  jv_calls :: nat

locale job_services =
  fixes env :: "'w sched_env"
    and job :: "int \<Rightarrow> string \<Rightarrow> int \<Rightarrow> ('w, unit) io"
    and view :: "'w \<Rightarrow> job_view"
  assumes lock: "sc_lock env k ttl w = (r, w') \<Longrightarrow>
      (case r of
         Inl e \<Rightarrow> view w' = view w
       | Inr l \<Rightarrow> l = k \<and> \<not> jv_held (view w) k \<and> view w' = (view w)\<lparr>jv_held := (jv_held (view w))(k := True)\<rparr>)"
    and unlock: "sc_unlock env l w = (ru, w') \<Longrightarrow>
      ru = Inr () \<and> view w' = (view w)\<lparr>jv_held := (jv_held (view w))(l := False)\<rparr>"
    and get: "sc_get env k w = (rg, w') \<Longrightarrow> rg = Inr (jv_info (view w) k) \<and> view w' = view w"
    and set: "sc_set env k s w = (rs, w') \<Longrightarrow>
      rs = Inr () \<and> view w' = (view w)\<lparr>jv_info := (jv_info (view w))(k \<mapsto> s)\<rparr>"
    and read: "sc_read_info env (job_info t) = Inr (Some t)"
    and post: "sc_post_run env j t w = (rp, w') \<Longrightarrow>
      (case rp of
         Inl e \<Rightarrow> view w' = view w
       | Inr i \<Rightarrow> jv_runs (view w) i = None \<and> view w' = (view w)\<lparr>jv_runs := (jv_runs (view w))(i \<mapsto> RunRunning)\<rparr>)"
    and patch: "sc_patch_run env i unless_success st t w = (rq, w') \<Longrightarrow>
      rq = Inr () \<and> view w' = (view w)\<lparr>jv_runs := (jv_runs (view w))(i :=
        map_option (\<lambda>old. if unless_success \<and> old = RunSuccess then old else st) (jv_runs (view w) i))\<rparr>"
    and called: "job f l i w = (rj, w') \<Longrightarrow> view w' = (view w)\<lparr>jv_calls := Suc (jv_calls (view w))\<rparr>"
    and capture: "view (sc_capture env e w) = view w"
begin

lemma next_time_view: "next_time env w = (r, w') \<Longrightarrow> w' = w \<and> r = (case sc_next env w of None \<Rightarrow> Inl JsTypeError | Some t \<Rightarrow> Inr t)"
  by (auto simp: next_time_def split: option.splits)

lemma update_view:
  assumes "updateJobInfoExecute env k w = (r, w')"
  shows "case sc_next env w of
      None \<Rightarrow> r = Inl JsTypeError \<and> w' = w
    | Some t \<Rightarrow> r = Inr () \<and> view w' = (view w)\<lparr>jv_info := (jv_info (view w))(k \<mapsto> job_info t)\<rparr>"
  using assms set
  by (auto simp: updateJobInfoExecute_def io_bind_def next_time_def split: option.splits prod.splits sum.splits)

lemma update_note:
  assumes "updateJobInfoExecute env k w = (r, w')"
  shows "\<exists>m. view w' = (view w)\<lparr>jv_info := m\<rparr>"
proof (cases "sc_next env w")
  case None
  then show ?thesis using update_view [OF assms] by (intro exI [of _ "jv_info (view w)"]) simp
next
  case (Some t)
  then show ?thesis using update_view [OF assms] by auto
qed

text \<open>A time that has been noted stops the job from running again.\<close>

lemma check_noted:
  assumes "jv_info (view w) k = Some (job_info t)" "f < t" "sc_next env = (\<lambda>_. Some t)"
    and "checkJobShouldExecute env k f w = (r, w')"
  shows "r = Inr False \<and> view w' = view w"
proof -
  obtain w1 where w1: "sc_get env k w = (Inr (Some (job_info t)), w1)" "view w1 = view w"
    using get [of k w] assms(1) by (cases "sc_get env k w") auto
  then show ?thesis
    using assms(2-4) read [of t]
    by (auto simp: checkJobShouldExecute_def io_bind_def io_lift_def io_return_def next_time_def)
qed

text \<open>
  After a check: nothing but the note of this job has changed, and an error of the check leaves it or has
  written the next time.
\<close>

lemma check_view:
  assumes "checkJobShouldExecute env k f w = (r, w')"
  shows "(\<exists>m. view w' = (view w)\<lparr>jv_info := m\<rparr>) \<and> (r = Inr False \<longrightarrow> view w' = view w)"
proof -
  obtain g w1 where g: "sc_get env k w = (Inr g, w1)" "view w1 = view w"
    using get [of k w] by (cases "sc_get env k w") auto
  show ?thesis
  proof (cases g)
    case None
    obtain u w2 where u: "updateJobInfoExecute env k w1 = (u, w2)" by (cases "updateJobInfoExecute env k w1")
    then have "w' = w2" "r \<noteq> Inr False"
      using g None assms by (cases u; auto simp: checkJobShouldExecute_def io_bind_def io_return_def)+
    then show ?thesis using update_note [OF u] g(2) by simp
  next
    case (Some s)
    then have "view w' = view w"
      using assms g
      by (auto simp: checkJobShouldExecute_def io_bind_def io_lift_def io_return_def next_time_def
          split: option.splits sum.splits if_splits)
    then show ?thesis by (intro conjI exI [of _ "jv_info (view w)"]) simp_all
  qed
qed

lemma failed_view:
  assumes "job_failed env j run e w = (r, w')"
  shows "\<exists>m. view w' = (view w)\<lparr>jv_info := m,
      jv_runs := (case run of None \<Rightarrow> jv_runs (view w)
        | Some i \<Rightarrow> (jv_runs (view w))(i :=
            map_option (\<lambda>old. if old = RunSuccess then old else RunError) (jv_runs (view w) i)))\<rparr> \<and>
    (\<forall>t. sc_next env = (\<lambda>_. Some t) \<longrightarrow> r = Inr () \<and> m = (jv_info (view w))(JOB_INFO_PREFIX @ j \<mapsto> job_info t))"
proof -
  define wc where "wc = sc_capture env e w"
  have vc: "view wc = view w" using capture by (simp add: wc_def)
  define mid where "mid = (case run of None \<Rightarrow> io_return () | Some i \<Rightarrow> (\<lambda>w. sc_patch_run env i True RunError (sc_now env w) w))"
  obtain q w1 where q: "mid wc = (q, w1)" by (cases "mid wc")
  have mid: "q = Inr () \<and> view w1 = (view w)\<lparr>jv_runs := (case run of None \<Rightarrow> jv_runs (view w)
        | Some i \<Rightarrow> (jv_runs (view w))(i :=
            map_option (\<lambda>old. if old = RunSuccess then old else RunError) (jv_runs (view w) i)))\<rparr>"
  proof (cases run)
    case None
    then show ?thesis using q vc by (simp add: mid_def io_return_def)
  next
    case (Some i)
    then have "sc_patch_run env i True RunError (sc_now env wc) wc = (q, w1)" using q by (simp add: mid_def)
    from patch [OF this] show ?thesis using Some vc by simp
  qed
  have up: "updateJobInfoExecute env (JOB_INFO_PREFIX @ j) w1 = (r, w')"
    using assms q mid by (simp add: job_failed_def io_bind_def mid_def wc_def)
  show ?thesis
  proof (cases "sc_next env w1")
    case None
    then have "w' = w1" "\<And>t. sc_next env \<noteq> (\<lambda>_. Some t)" using update_view [OF up] by auto
    then show ?thesis using mid by (intro exI [of _ "jv_info (view w)"]) auto
  next
    case (Some t)
    then show ?thesis
      using update_view [OF up] mid
      by (intro exI [of _ "(jv_info (view w))(JOB_INFO_PREFIX @ j \<mapsto> job_info t)"]) auto
  qed
qed

text \<open>What one run may do, when the job's next time is \<open>t\<close>.\<close>

definition run_effect :: "string \<Rightarrow> int \<Rightarrow> job_view \<Rightarrow> job_view \<Rightarrow> bool" where
  "run_effect k t v v' \<longleftrightarrow>
     jv_held v' = jv_held v \<and>
     (jv_calls v' = jv_calls v \<and> jv_info v' = jv_info v \<or>
      jv_calls v' \<le> Suc (jv_calls v) \<and> jv_info v' k = Some (job_info t)) \<and>
     (jv_runs v' = jv_runs v \<or>
      (\<exists>i s. jv_runs v i = None \<and> s \<noteq> RunRunning \<and> jv_runs v' = (jv_runs v)(i \<mapsto> s)))"

lemma perform_view:
  assumes "io_catch (perform_run env j job f l i) (job_failed env j (Some i)) w = (r, w')"
    and "jv_runs (view w) i = Some RunRunning" "sc_next env = (\<lambda>_. Some t)"
  shows "r = Inr () \<and> (\<exists>s. s \<noteq> RunRunning \<and> view w' = (view w)\<lparr>jv_calls := Suc (jv_calls (view w)),
      jv_info := (jv_info (view w))(JOB_INFO_PREFIX @ j \<mapsto> job_info t), jv_runs := (jv_runs (view w))(i \<mapsto> s)\<rparr>)"
proof -
  obtain rj w1 where j: "job f l i w = (rj, w1)" by (cases "job f l i w")
  have v1: "view w1 = (view w)\<lparr>jv_calls := Suc (jv_calls (view w))\<rparr>" using called [OF j] .
  show ?thesis
  proof (cases rj)
    case (Inl e)
    then have "job_failed env j (Some i) e w1 = (r, w')"
      using assms(1) j by (simp add: io_catch_def perform_run_def io_bind_def)
    from failed_view [OF this] have "r = Inr ()" "view w' = (view w1)\<lparr>jv_info := (jv_info (view w1))(JOB_INFO_PREFIX @ j \<mapsto> job_info t),
        jv_runs := (jv_runs (view w1))(i \<mapsto> RunError)\<rparr>"
      using assms(2,3) v1 by auto
    then show ?thesis using v1 by (auto intro: exI [of _ RunError])
  next
    case (Inr u)
    obtain rq w2 where q: "sc_patch_run env i False RunSuccess (sc_now env w1) w1 = (rq, w2)"
      by (cases "sc_patch_run env i False RunSuccess (sc_now env w1) w1")
    have v2: "rq = Inr ()" "view w2 = (view w1)\<lparr>jv_runs := (jv_runs (view w1))(i \<mapsto> RunSuccess)\<rparr>"
      using patch [OF q] assms(2) v1 by auto
    obtain ru w3 where up: "updateJobInfoExecute env (JOB_INFO_PREFIX @ j) w2 = (ru, w3)"
      by (cases "updateJobInfoExecute env (JOB_INFO_PREFIX @ j) w2")
    have v3: "ru = Inr ()" "view w3 = (view w2)\<lparr>jv_info := (jv_info (view w2))(JOB_INFO_PREFIX @ j \<mapsto> job_info t)\<rparr>"
      using update_view [OF up] assms(3) by auto
    have "(r, w') = (Inr (), w3)"
      using assms(1) j Inr q v2(1) up v3(1) by (simp add: io_catch_def perform_run_def io_bind_def)
    then show ?thesis using v1 v2(2) v3(2) by (auto intro: exI [of _ RunSuccess])
  qed
qed

lemma locked_effect:
  assumes "locked_job env j job f l w = (r, w')" "sc_next env = (\<lambda>_. Some t)"
  shows "run_effect (JOB_INFO_PREFIX @ j) t (view w) (view w')"
proof -
  obtain rc w1 where c: "checkJobShouldExecute env (JOB_INFO_PREFIX @ j) f w = (rc, w1)"
    by (cases "checkJobShouldExecute env (JOB_INFO_PREFIX @ j) f w")
  obtain m where v1: "view w1 = (view w)\<lparr>jv_info := m\<rparr>" "rc = Inr False \<longrightarrow> view w1 = view w"
    using check_view [OF c] by auto
  have failed: "run_effect (JOB_INFO_PREFIX @ j) t (view w) (view w')"
    if "job_failed env j None e wx = (r, w')" "view wx = view w1" for e wx
    using failed_view [OF that(1)] assms(2) v1(1) that(2) by (auto simp: run_effect_def)
  show ?thesis
  proof (cases rc)
    case (Inl e)
    then have "job_failed env j None e w1 = (r, w')"
      using assms(1) c by (simp add: locked_job_def start_run_def io_bind_def)
    then show ?thesis using failed by simp
  next
    case (Inr should)
    show ?thesis
    proof (cases should)
      case False
      then show ?thesis
        using assms(1) c Inr v1 by (simp add: locked_job_def start_run_def io_bind_def io_return_def run_effect_def)
    next
      case True
      obtain rp w2 where p: "sc_post_run env j (sc_now env w1) w1 = (rp, w2)"
        by (cases "sc_post_run env j (sc_now env w1) w1")
      show ?thesis
      proof (cases rp)
        case (Inl e)
        then have "job_failed env j None e w2 = (r, w')"
          using assms(1) c Inr True p by (simp add: locked_job_def start_run_def io_bind_def)
        then show ?thesis using failed post [OF p] Inl by simp
      next
        case (Inr i)
        have run: "io_catch (perform_run env j job f l i) (job_failed env j (Some i)) w2 = (r, w')"
          using assms(1) c \<open>rc = Inr should\<close> True p Inr
          by (simp add: locked_job_def start_run_def io_bind_def io_return_def)
        have v2: "jv_runs (view w1) i = None" "view w2 = (view w1)\<lparr>jv_runs := (jv_runs (view w1))(i \<mapsto> RunRunning)\<rparr>"
          using post [OF p] Inr by auto
        then obtain st where "st \<noteq> RunRunning" "view w' = (view w2)\<lparr>jv_calls := Suc (jv_calls (view w2)),
            jv_info := (jv_info (view w2))(JOB_INFO_PREFIX @ j \<mapsto> job_info t), jv_runs := (jv_runs (view w2))(i \<mapsto> st)\<rparr>"
          using perform_view [OF run _ assms(2)] by auto
        then have "st \<noteq> RunRunning" "jv_held (view w') = jv_held (view w)" "jv_calls (view w') = Suc (jv_calls (view w))"
          "jv_info (view w') (JOB_INFO_PREFIX @ j) = Some (job_info t)" "jv_runs (view w') = (jv_runs (view w))(i \<mapsto> st)"
          using v1(1) v2(2) by simp_all
        then show ?thesis using v1(1) v2(1) unfolding run_effect_def by auto
      qed
    qed
  qed
qed

text \<open>The whole run gives the lock back, never throws, and a time that has been noted stops it.\<close>

lemma run_effect:
  assumes "run_job env j job ttl f w = (r, w')" "sc_next env = (\<lambda>_. Some t)"
  shows "r = Inr () \<and> run_effect (JOB_INFO_PREFIX @ j) t (view w) (view w')"
proof (cases "j \<in> set (sc_disabled env)")
  case True
  then show ?thesis using assms(1) by (auto simp: run_job_def io_return_def run_effect_def)
next
  case False
  let ?ttl = "case ttl of None \<Rightarrow> JOB_DEFAULT_TTL | Some t \<Rightarrow> t"
  obtain rl w1 where l: "sc_lock env (JOB_LOCK_PREFIX @ j) ?ttl w = (rl, w1)"
    by (cases "sc_lock env (JOB_LOCK_PREFIX @ j) ?ttl w")
  show ?thesis
  proof (cases rl)
    case (Inl e)
    then have "view w' = view w" "r = Inr ()"
      using assms(1) False l lock [OF l] capture by (auto simp: run_job_def io_catch_def io_bind_def)
    then show ?thesis by (simp add: run_effect_def)
  next
    case (Inr k)
    have k: "k = JOB_LOCK_PREFIX @ j" "\<not> jv_held (view w) k" "view w1 = (view w)\<lparr>jv_held := (jv_held (view w))(k := True)\<rparr>"
      using lock [OF l] Inr by auto
    obtain rb w2 where b: "locked_job env j job f k w1 = (rb, w2)" by (cases "locked_job env j job f k w1")
    obtain ru w3 where u: "sc_unlock env k w2 = (ru, w3)" by (cases "sc_unlock env k w2")
    have u2: "ru = Inr ()" "view w3 = (view w2)\<lparr>jv_held := (jv_held (view w2))(k := False)\<rparr>"
      using unlock [OF u] by auto
    have "view w' = view w3 \<and> r = Inr ()"
      using assms(1) False l Inr b u u2(1) capture
      by (auto simp: run_job_def io_catch_def io_bind_def io_finally_def split: sum.splits if_splits)
    then show ?thesis
      using locked_effect [OF b assms(2)] k u2(2) by (auto simp: run_effect_def fun_upd_idem_iff)
  qed
qed

lemma noted_stops:
  assumes "jv_info (view w) (JOB_INFO_PREFIX @ j) = Some (job_info t)" "f < t" "sc_next env = (\<lambda>_. Some t)"
    and "run_job env j job ttl f w = (r, w')"
  shows "view w' = view w"
proof (cases "j \<in> set (sc_disabled env)")
  case True
  then show ?thesis using assms(4) by (auto simp: run_job_def io_return_def)
next
  case False
  let ?ttl = "case ttl of None \<Rightarrow> JOB_DEFAULT_TTL | Some t \<Rightarrow> t"
  obtain rl w1 where l: "sc_lock env (JOB_LOCK_PREFIX @ j) ?ttl w = (rl, w1)"
    by (cases "sc_lock env (JOB_LOCK_PREFIX @ j) ?ttl w")
  show ?thesis
  proof (cases rl)
    case (Inl e)
    then show ?thesis
      using assms(4) False l lock [OF l] capture by (auto simp: run_job_def io_catch_def io_bind_def)
  next
    case (Inr k)
    have k: "\<not> jv_held (view w) k" "view w1 = (view w)\<lparr>jv_held := (jv_held (view w))(k := True)\<rparr>"
      using lock [OF l] Inr by auto
    obtain rc w2 where c: "checkJobShouldExecute env (JOB_INFO_PREFIX @ j) f w1 = (rc, w2)"
      by (cases "checkJobShouldExecute env (JOB_INFO_PREFIX @ j) f w1")
    have c2: "rc = Inr False" "view w2 = view w1"
      using check_noted [OF _ assms(2,3) c] assms(1) k(2) by auto
    obtain ru w3 where u: "sc_unlock env k w2 = (ru, w3)" by (cases "sc_unlock env k w2")
    have "view w' = view w3"
      using assms(4) False l Inr c c2(1) u unlock [OF u] capture
      by (auto simp: run_job_def locked_job_def start_run_def io_catch_def io_bind_def io_finally_def io_return_def)
    then show ?thesis using unlock [OF u] c2(2) k by (simp add: fun_upd_idem_iff)
  qed
qed

text \<open>Any number of instances.\<close>

lemma once_per_time:
  assumes "f < t" "sc_next env = (\<lambda>_. Some t)"
  shows "jv_calls (view (((\<lambda>w. snd (run_job env j job ttl f w)) ^^ n) w)) \<le> Suc (jv_calls (view w))"
proof -
  let ?k = "JOB_INFO_PREFIX @ j"
  let ?step = "\<lambda>w. snd (run_job env j job ttl f w)"
  have "jv_calls (view ((?step ^^ n) w)) = jv_calls (view w) \<or>
      jv_calls (view ((?step ^^ n) w)) \<le> Suc (jv_calls (view w)) \<and> jv_info (view ((?step ^^ n) w)) ?k = Some (job_info t)"
  proof (induction n)
    case (Suc n)
    let ?w = "(?step ^^ n) w"
    obtain r w' where run: "run_job env j job ttl f ?w = (r, w')" by (cases "run_job env j job ttl f ?w")
    then have step: "(?step ^^ Suc n) w = w'" by simp
    from Suc show ?case
    proof
      assume "jv_calls (view ?w) = jv_calls (view w)"
      then show ?thesis
        using run_effect [OF run assms(2)] unfolding step by (auto simp: run_effect_def)
    next
      assume "jv_calls (view ?w) \<le> Suc (jv_calls (view w)) \<and> jv_info (view ?w) ?k = Some (job_info t)"
      then show ?thesis using noted_stops [OF _ assms run] unfolding step by simp
    qed
  qed simp
  then show ?thesis by auto
qed

end

section \<open>In memory\<close>

record sched_world =
  sw_held :: "string list"
  sw_info :: "string obj"
  sw_runs :: "(int \<times> run_status) list"
  sw_calls :: nat

definition mem_view :: "sched_world \<Rightarrow> job_view" where
  "mem_view w = \<lparr>jv_held = (\<lambda>k. k \<in> set (sw_held w)), jv_info = map_of (sw_info w), jv_runs = map_of (sw_runs w),
     jv_calls = sw_calls w\<rparr>"

definition mem_sched_env :: "int \<Rightarrow> sched_world sched_env" where
  "mem_sched_env t =
     \<lparr>sc_disabled = [],
      sc_lock = \<lambda>k ttl w. if k \<in> set (sw_held w)
        then (Inl (JsError (''Exceeded 3 attempts to lock the resource '' @ k)), w)
        else (Inr k, w\<lparr>sw_held := k # sw_held w\<rparr>),
      sc_unlock = \<lambda>k w. (Inr (), w\<lparr>sw_held := removeAll k (sw_held w)\<rparr>),
      sc_lock_message = \<lambda>e. (case e of JsError m \<Rightarrow> Some m | _ \<Rightarrow> None),
      sc_get = \<lambda>k w. (Inr (map_of (sw_info w) k), w),
      sc_set = \<lambda>k s w. (Inr (), w\<lparr>sw_info := obj_set k s (sw_info w)\<rparr>),
      sc_read_info = \<lambda>s. (if js_startsWith s ''{\"nextInvocation\":'' then Inr (parseInt10 (butlast (drop 18 s)))
        else Inl (JsError ''Unexpected token'')),
      sc_post_run = \<lambda>j st w. (let i = fold max (map fst (sw_runs w)) 0 + 1
        in (Inr i, w\<lparr>sw_runs := (i, RunRunning) # sw_runs w\<rparr>)),
      sc_patch_run = \<lambda>i u st t w. (Inr (), w\<lparr>sw_runs :=
        map (\<lambda>(k, old). (k, if k = i \<and> \<not> (u \<and> old = RunSuccess) then st else old)) (sw_runs w)\<rparr>),
      sc_now = \<lambda>w. 0,
      sc_next = \<lambda>w. Some t,
      sc_capture = \<lambda>e w. w\<rparr>"

definition mem_job :: "bool \<Rightarrow> int \<Rightarrow> string \<Rightarrow> int \<Rightarrow> (sched_world, unit) io" where
  "mem_job fails f l i = (\<lambda>w. (if fails then Inl (JsError ''failed'') else Inr (), w\<lparr>sw_calls := Suc (sw_calls w)\<rparr>))"

lemma map_of_patch:
  "map_of (map (\<lambda>(k, old). (k, g k old)) rs) i = map_option (g i) (map_of rs i)"
  by (induction rs) auto

interpretation mem_sched: job_services "mem_sched_env t" "mem_job fails" mem_view for t fails
proof
  fix s
  show "sc_read_info (mem_sched_env t) (job_info s) = Inr (Some s)"
    by (simp add: mem_sched_env_def job_info_def js_startsWith_def butlast_append parseInt10_show_int)
next
  fix i u st tm w rq w'
  assume "sc_patch_run (mem_sched_env t) i u st tm w = (rq, w')"
  then show "rq = Inr () \<and> mem_view w' = (mem_view w)\<lparr>jv_runs := (jv_runs (mem_view w))(i :=
      map_option (\<lambda>old. if u \<and> old = RunSuccess then old else st) (jv_runs (mem_view w) i))\<rparr>"
    by (auto simp: mem_sched_env_def mem_view_def map_of_patch fun_eq_iff intro!: option.map_cong0 option.map_ident_strong)
next
  fix j tm w rp w'
  assume "sc_post_run (mem_sched_env t) j tm w = (rp, w')"
  then show "case rp of Inl e \<Rightarrow> mem_view w' = mem_view w
      | Inr i \<Rightarrow> jv_runs (mem_view w) i = None \<and> mem_view w' = (mem_view w)\<lparr>jv_runs := (jv_runs (mem_view w))(i \<mapsto> RunRunning)\<rparr>"
    using fresh_max_key [of "sw_runs w"] by (auto simp: mem_sched_env_def mem_view_def Let_def)
qed (auto simp: mem_sched_env_def mem_view_def mem_job_def map_of_obj_set fun_eq_iff split: if_splits)



text \<open>
  A run of a job never throws, gives the lock back, and leaves no row that says the job is still running:
  the only row that changes is a new one, which ends as a success or an error.
\<close>

lemma job_run_settles:
  assumes "job_services env job view" and "sc_next env = (\<lambda>_. Some t)" and "run_job env j job ttl f w = (r, w')"
  shows "r = Inr () \<and> jv_held (view w') = jv_held (view w) \<and>
    (jv_runs (view w') = jv_runs (view w) \<or>
     (\<exists>i s. jv_runs (view w) i = None \<and> s \<noteq> RunRunning \<and> jv_runs (view w') = (jv_runs (view w))(i \<mapsto> s)))"
  using job_services.run_effect [OF assms(1,3,2)] unfolding job_services.run_effect_def [OF assms(1)] by blast

end
