(* ===== verification/RateLimit.thy ===== *)
theory RateLimit
  imports Prelude
begin

text \<open>
  Limits on the rate of requests (\<^verbatim>\<open>src/infra/rate-limiting/index.ts\<close>): the limiter a feature creates under a scope
  of its own, and the middleware that counts a request under a key made of its address and a field.

  The limiters of the library are a parameter; what they reject with is not an error but an object of the
  library, so what is thrown is a datatype of its own.
\<close>

section \<open>Limiters\<close>

text \<open>\<open>LimiterRes ms\<close> is the library's answer when the points are used up, with \<^verbatim>\<open>msBeforeNext\<close>.\<close>

datatype thrown =
    LimiterRes int
  | Thrown exn

type_synonym ('w, 'a) op = "'w \<Rightarrow> (thrown + 'a) \<times> 'w"

record 'w limiter =
  li_consume :: "string \<Rightarrow> ('w, unit) op"
  li_penalty :: "string \<Rightarrow> ('w, unit) op"
  li_delete :: "string \<Rightarrow> ('w, unit) op"

record limiter_opts =
  lo_points :: "int option"
  lo_duration :: int
  lo_block :: int

text \<open>
  \<open>lib_memory\<close>, \<open>lib_cluster\<close> and \<open>lib_redis\<close> are the constructors of the library, of a prefix of the keys and
  the options; the one of redis takes the limiter to use when redis fails, too.
\<close>

record 'w limiter_lib =
  lib_memory :: "string \<Rightarrow> limiter_opts \<Rightarrow> 'w limiter"
  lib_cluster :: "string \<Rightarrow> limiter_opts \<Rightarrow> 'w limiter"
  lib_redis :: "string \<Rightarrow> limiter_opts \<Rightarrow> 'w limiter \<Rightarrow> 'w limiter"
  lib_isPrimary :: bool
  lib_factor :: int
  lib_memory_backend :: "string option"

text \<open>\<^verbatim>\<open>Math.ceil(ms / 1000)\<close>\<close>

definition ceil_seconds :: "int \<Rightarrow> int" where
  "ceil_seconds ms = - ((- ms) div 1000)"

definition too_many_requests :: "int \<Rightarrow> exn" where
  "too_many_requests msBeforeNext =
     TooManyRequestsError (if msBeforeNext \<noteq> 0 then [(''Retry-After'', show_int (ceil_seconds msBeforeNext))] else [])"

definition translated :: "'w limiter \<Rightarrow> 'w limiter" where
  "translated rateLimiter = rateLimiter\<lparr>li_consume := (\<lambda>key w.
     case li_consume rateLimiter key w of
       (Inl (LimiterRes ms), w') \<Rightarrow> (Inl (Thrown (too_many_requests ms)), w')
     | r \<Rightarrow> r)\<rparr>"

definition memory_prefix :: "string \<Rightarrow> string" where
  "memory_prefix keyScope = ''api:ratelimiting:memory:'' @ keyScope"

definition cluster_prefix :: "string \<Rightarrow> string" where
  "cluster_prefix keyScope = ''api:ratelimiting:cluster:'' @ keyScope"

definition redis_prefix :: "string \<Rightarrow> string" where
  "redis_prefix keyScope = ''api:ratelimiting:redis:'' @ keyScope"

text \<open>The options are changed in place: the new ones are a part of the result, with the scopes taken.\<close>

definition createRateLimiter ::
  "'w limiter_lib \<Rightarrow> string set \<Rightarrow> string \<Rightarrow> limiter_opts \<Rightarrow> ('w limiter \<times> string set \<times> limiter_opts) res"
where
  "createRateLimiter lib usedKeyScopes keyScope opts0 =
     (if keyScope \<in> usedKeyScopes
      then Inl (JsError (''RateLimiter scope key '' @ [CHR 0x27] @ keyScope @ [CHR 0x27] @ '' has already been taken''))
      else
        let opts = opts0\<lparr>lo_points := map_option (\<lambda>p. p * lib_factor lib) (lo_points opts0)\<rparr>;
            insuranceLimiter = (if lib_isPrimary lib then lib_memory lib (memory_prefix keyScope) opts
                                else lib_cluster lib (cluster_prefix keyScope) opts)
        in Inr (if lib_memory_backend lib \<noteq> None then insuranceLimiter
                else translated (lib_redis lib (redis_prefix keyScope) opts insuranceLimiter),
                insert keyScope usedKeyScopes, opts))"

section \<open>The middleware\<close>

text \<open>
  A request is its address, what \<^verbatim>\<open>_.get\<close> finds in it as a text, and the function that resets the limits it has
  passed; a field is absent, a function of the request or a path.
\<close>

record 'w rl_request =
  rq_ip :: "string option"
  rq_get :: "string \<Rightarrow> string option"
  rq_reset :: "('w \<Rightarrow> 'w) option"

datatype 'w rl_field = NoField | FieldFn "'w rl_request \<Rightarrow> ('w, string) op" | FieldPath string

text \<open>The text of a value that may be undefined.\<close>

definition js_show :: "string option \<Rightarrow> string" where
  "js_show v = (case v of None \<Rightarrow> ''undefined'' | Some s \<Rightarrow> s)"

definition fieldFn :: "'w rl_field \<Rightarrow> 'w rl_request \<Rightarrow> ('w, string) op" where
  "fieldFn field req =
     (case field of
        NoField \<Rightarrow> (\<lambda>w. (Inr [], w))
      | FieldFn f \<Rightarrow> f req
      | FieldPath path \<Rightarrow> (\<lambda>w. (Inr (js_show (rq_get req path)), w)))"

definition keyFn :: "bool \<Rightarrow> 'w rl_field \<Rightarrow> 'w rl_request \<Rightarrow> ('w, string) op" where
  "keyFn ignoreIP field req =
     (if ignoreIP then fieldFn field req
      else (\<lambda>w. case fieldFn field req w of
                  (Inl e, w') \<Rightarrow> (Inl e, w')
                | (Inr s, w') \<Rightarrow> (Inr (js_show (rq_ip req) @ ''$'' @ s), w')))"

text \<open>A failed reset is reported (\<open>capture\<close>).\<close>

definition addReset ::
  "(thrown \<Rightarrow> 'w \<Rightarrow> 'w) \<Rightarrow> 'w limiter \<Rightarrow> bool \<Rightarrow> string \<Rightarrow> 'w rl_request \<Rightarrow> 'w rl_request"
where
  "addReset capture rateLimiter allowReset key req =
     (if \<not> allowReset then req
      else req\<lparr>rq_reset := Some (\<lambda>w.
        let (r, w1) = li_delete rateLimiter key w;
            w2 = (case rq_reset req of None \<Rightarrow> w1 | Some reset \<Rightarrow> reset w1)
        in case r of Inl e \<Rightarrow> capture e w2 | Inr _ \<Rightarrow> w2)\<rparr>)"

text \<open>What the middleware does with a request: call the next handler, or answer.\<close>

datatype answered = PassedOn | HttpError exn | Status nat

definition middleware ::
  "(thrown \<Rightarrow> 'w \<Rightarrow> 'w) \<Rightarrow> 'w limiter \<Rightarrow> bool \<Rightarrow> bool \<Rightarrow> 'w rl_field \<Rightarrow> 'w rl_request \<Rightarrow> 'w \<Rightarrow>
   answered \<times> string option \<times> 'w rl_request \<times> 'w"
where
  "middleware capture rateLimiter ignoreIP allowReset field req w =
     (let on_error = (\<lambda>err w.
        case err of
          Thrown e \<Rightarrow> (if is_http_error e then (HttpError e, None, req, w) else (Status 500, None, req, capture err w))
        | LimiterRes ms \<Rightarrow> (Status 500, None, req, capture err w))
      in case keyFn ignoreIP field req w of
           (Inl err, w1) \<Rightarrow> on_error err w1
         | (Inr key, w1) \<Rightarrow>
             (case li_consume rateLimiter key w1 of
                (Inl err, w2) \<Rightarrow> on_error err w2
              | (Inr _, w2) \<Rightarrow> (PassedOn, Some key, addReset capture rateLimiter allowReset key req, w2)))"

definition getUserIDFromCreds :: "string option option \<Rightarrow> string" where
  "getUserIDFromCreds creds_id =
     (case creds_id of None \<Rightarrow> ''nouserID'' | Some i \<Rightarrow> ''userID:'' @ js_show i)"

section \<open>Properties\<close>

text \<open>The seconds in \<^verbatim>\<open>Retry-After\<close> are the fewest that are long enough.\<close>

lemma ceil_seconds_bounds: "ms \<le> 1000 * ceil_seconds ms \<and> 1000 * (ceil_seconds ms - 1) < ms"
proof -
  define q r where "q = (- ms) div 1000" and "r = (- ms) mod 1000"
  have "- ms = 1000 * q + r" "0 \<le> r" "r < 1000" by (simp_all add: q_def r_def)
  then have "ms \<le> 1000 * (- q) \<and> 1000 * (- q - 1) < ms" by (auto simp: algebra_simps)
  then show ?thesis unfolding ceil_seconds_def q_def .
qed

lemma consume_translated:
  "li_consume rateLimiter key w = (Inl (LimiterRes ms), w') \<Longrightarrow>
     li_consume (translated rateLimiter) key w = (Inl (Thrown (too_many_requests ms)), w')"
  "li_consume rateLimiter key w = (Inr u, w') \<Longrightarrow> li_consume (translated rateLimiter) key w = (Inr u, w')"
  by (simp_all add: translated_def)

text \<open>Nothing is counted under the key of another limiter: prefixes differ when scopes or backends do.\<close>

lemma prefixes_separate:
  "redis_prefix a = redis_prefix b \<longleftrightarrow> a = b" "memory_prefix a = memory_prefix b \<longleftrightarrow> a = b"
  "cluster_prefix a = cluster_prefix b \<longleftrightarrow> a = b"
  "redis_prefix a \<noteq> memory_prefix b" "redis_prefix a \<noteq> cluster_prefix b" "memory_prefix a \<noteq> cluster_prefix b"
  by (simp_all add: redis_prefix_def memory_prefix_def cluster_prefix_def)

text \<open>The limiter of the library that answers: the one of redis, or the one in memory when that is configured.\<close>

definition answering :: "'w limiter_lib \<Rightarrow> string \<Rightarrow> limiter_opts \<Rightarrow> 'w limiter" where
  "answering lib keyScope opts =
     (let insurance = (if lib_isPrimary lib then lib_memory lib (memory_prefix keyScope) opts
                       else lib_cluster lib (cluster_prefix keyScope) opts)
      in if lib_memory_backend lib \<noteq> None then insurance else lib_redis lib (redis_prefix keyScope) opts insurance)"

lemma createRateLimiter_cases:
  assumes "createRateLimiter lib used keyScope opts0 = Inr (rateLimiter, used', opts)"
  shows "keyScope \<notin> used" "used' = insert keyScope used"
    "opts = opts0\<lparr>lo_points := map_option (\<lambda>p. p * lib_factor lib) (lo_points opts0)\<rparr>"
    "rateLimiter = (if lib_memory_backend lib \<noteq> None then answering lib keyScope opts
       else translated (answering lib keyScope opts))"
  using assms by (auto simp: createRateLimiter_def answering_def Let_def split: if_splits)

text \<open>A limiter in memory for the examples: the world has the points used per key, three are allowed.\<close>

definition counting :: "string \<Rightarrow> limiter_opts \<Rightarrow> (string \<Rightarrow> int) limiter" where
  "counting pre opts =
     \<lparr>li_consume = \<lambda>key w. (let n = w (pre @ '':'' @ key) + 1
        in (if n \<le> the (lo_points opts) then Inr () else Inl (LimiterRes (1000 * lo_duration opts)),
            w(pre @ '':'' @ key := n))),
      li_penalty = \<lambda>key w. (Inr (), w(pre @ '':'' @ key := w (pre @ '':'' @ key) + 1)),
      li_delete = \<lambda>key w. (Inr (), w(pre @ '':'' @ key := 0))\<rparr>"

definition counting_lib :: "string option \<Rightarrow> (string \<Rightarrow> int) limiter_lib" where
  "counting_lib memory_backend = \<lparr>lib_memory = counting, lib_cluster = counting, lib_redis = \<lambda>p opts i. counting p opts,
     lib_isPrimary = True, lib_factor = 1, lib_memory_backend = memory_backend\<rparr>"

definition demo_opts :: limiter_opts where
  "demo_opts = \<lparr>lo_points = Some 0, lo_duration = 10, lo_block = 10\<rparr>"

definition demo_request :: "'w rl_request" where
  "demo_request = \<lparr>rq_ip = Some ''10.0.0.1'', rq_get = (\<lambda>_. Some ''joe''), rq_reset = None\<rparr>"

text \<open>
  Two requests are counted together exactly when they come from the same address and have the same
  field, as no address contains the separator.
\<close>

lemma rate_limit_keys:
  assumes "keyFn False (FieldPath path) r w = (Inr k, w1)" and "keyFn False (FieldPath path) q v = (Inr l, v1)"
    and "CHR ''$'' \<notin> set (js_show (rq_ip r))" and "CHR ''$'' \<notin> set (js_show (rq_ip q))"
  shows "k = l \<longleftrightarrow> js_show (rq_ip r) = js_show (rq_ip q) \<and> js_show (rq_get r path) = js_show (rq_get q path)"
  using assms(1,2) unique_split [OF assms(3,4)] by (auto simp: keyFn_def fieldFn_def)



text \<open>
  With the backend in memory the same request is answered as an error of the server: the middleware
  does not know the object the library rejects with, and only the limiter on redis translates it.
\<close>

lemma memory_backend_answers_500:
  assumes "createRateLimiter lib used keyScope opts0 = Inr (rateLimiter, used', opts)"
    and "lib_memory_backend lib = Some b" and "keyFn ignoreIP field req w = (Inr key, w1)"
    and "li_consume (answering lib keyScope opts) key w1 = (Inl (LimiterRes ms), w2)"
  shows "middleware capture rateLimiter ignoreIP allowReset field req w =
    (Status 500, None, req, capture (LimiterRes ms) w2)"
  using createRateLimiter_cases(4) [OF assms(1)] assms(2-4) by (simp add: middleware_def Let_def)

end
