(* ===== verification/Credentials.thy ===== *)
theory Credentials
  imports Utils
begin

text \<open>
  Who a request is from (\<^verbatim>\<open>src/infra/auth\<close>): API keys (\<^verbatim>\<open>api-keys.ts\<close>), users and passwords (\<^verbatim>\<open>auth.ts\<close>), the
  tokens of sessions (\<^verbatim>\<open>jwt.ts\<close>, \<^verbatim>\<open>jwt-passport.ts\<close>) and the middleware that admits requests
  (\<^verbatim>\<open>middleware.ts\<close>).

  Signing and reading tokens, hashing, the permissions library and queries are fields of an environment.  The
  request is a part of the state, as the handlers change it.
\<close>

section \<open>Requests\<close>

record api_key =
  ak_key :: string
  ak_actor :: int
  ak_permissions :: "string list option"

text \<open>
  What a token or a key resolves to.  A service has a name and a key, a user an id, a scoped token neither;
  \<open>None\<close> stands for a property that is missing.
\<close>

record creds =
  cr_service :: "(string \<times> string) option"
  cr_id :: "int option"
  cr_actor :: "int option"
  cr_jwt_secret :: "string option"
  cr_authTime :: "int option"
  cr_twoFactorRequired :: "bool option"
  cr_iat :: "int option"
  cr_exp :: "int option"
  cr_permissions :: "string list option"
  cr_binds :: json

definition no_creds :: creds where
  "no_creds = \<lparr>cr_service = None, cr_id = None, cr_actor = None, cr_jwt_secret = None, cr_authTime = None,
     cr_twoFactorRequired = None, cr_iat = None, cr_exp = None, cr_permissions = None, cr_binds = JNull\<rparr>"

text \<open>\<open>rq_prefetch\<close> is the key a prefetch has found (\<open>Some None\<close>: none); \<open>rq_get\<close> tells whether it has headers.\<close>

record request =
  rq_params_apikey :: "string option"
  rq_query_apikey :: "string option"
  rq_get :: bool
  rq_authorization :: "string option"
  rq_body :: json
  rq_apiKey :: "api_key option"
  rq_prefetch :: "api_key option option"
  rq_user :: "creds option"
  rq_creds :: "creds option"
  rq_partialUser :: "creds option"

text \<open>The content of a token.\<close>

record jwt_payload =
  jp_service :: "string option"
  jp_apikey :: string
  jp_roles :: "string list option"
  jp_bindings :: json
  jp_actor :: int
  jp_access :: "(int option \<times> string list option) option"
  jp_id :: "int option"
  jp_jwt_secret :: "string option"
  jp_authTime :: "int option"
  jp_twoFactorRequired :: "bool option"
  jp_iat :: "int option"
  jp_exp :: "int option"

record user_row =
  ur_id :: int
  ur_actor :: int
  ur_jwt_secret :: "string option"
  ur_username :: string
  ur_email :: "string option"
  ur_password :: "string option"

datatype login_field = LoginEmail | LoginUsername

text \<open>
  \<open>au_verify\<close> reads a token if its signature is right and it has not expired, \<open>au_decode\<close> whatever can be read;
  \<open>au_by_id\<close> and \<open>au_by_actor\<close> look up a user with the secret, \<open>au_text\<close> is the text of a value.
\<close>

record 'w auth_env =
  au_verify :: "string \<Rightarrow> jwt_payload option option"
  au_decode :: "string \<Rightarrow> bool"
  au_sign :: "creds \<Rightarrow> int option \<Rightarrow> string"
  au_by_id :: "int \<Rightarrow> string option \<Rightarrow> ('w, int option) io"
  au_by_actor :: "int \<Rightarrow> string option \<Rightarrow> ('w, int option) io"
  au_key_permissions :: "string \<Rightarrow> ('w, string list) io"
  au_role_permissions :: "string list \<Rightarrow> ('w, string list) io"
  au_user_permissions :: "int \<Rightarrow> ('w, string list) io"
  au_guest_actor :: "('w, int) io"
  au_check_key :: "string \<Rightarrow> ('w, api_key option) io"
  au_bearer :: "string \<Rightarrow> ('w, api_key option) io"
  au_user_of_key :: "string \<Rightarrow> ('w, user_row list) io"
  au_user_row :: "int \<Rightarrow> ('w, user_row option) io"
  au_find :: "login_field \<Rightarrow> string \<Rightarrow> ('w, user_row list) io"
  au_compare :: "string \<Rightarrow> string \<Rightarrow> ('w, bool) io"
  au_set_password :: "int \<Rightarrow> string \<Rightarrow> ('w, unit) io"
  au_text :: "json \<Rightarrow> string"
  au_now :: "'w \<Rightarrow> int"
  au_expiry_seconds :: int
  au_limit_refresh :: bool

text \<open>A computation over a request and the world.\<close>

record 'w ctx =
  cx_req :: request
  cx_world :: 'w

definition on_world :: "('w, 'a) io \<Rightarrow> ('w ctx, 'a) io" where
  "on_world m = (\<lambda>c. case m (cx_world c) of (r, w) \<Rightarrow> (r, c\<lparr>cx_world := w\<rparr>))"

definition get_req :: "('w ctx, request) io" where
  "get_req = (\<lambda>c. (Inr (cx_req c), c))"

definition change_req :: "(request \<Rightarrow> request) \<Rightarrow> ('w ctx, unit) io" where
  "change_req f = (\<lambda>c. (Inr (), c\<lparr>cx_req := f (cx_req c)\<rparr>))"

section \<open>API keys\<close>

definition isJWT :: "'w auth_env \<Rightarrow> string \<Rightarrow> bool" where
  "isJWT env token = au_decode env token"

definition getAPIKey :: "'w auth_env \<Rightarrow> request \<Rightarrow> ('w, api_key option) io" where
  "getAPIKey env req =
     io_bind
       (io_catch
         (case (case rq_params_apikey req of None \<Rightarrow> rq_query_apikey req | Some k \<Rightarrow> Some k) of
            None \<Rightarrow> io_return None
          | Some apiKey \<Rightarrow> io_bind (au_check_key env apiKey) (\<lambda>k. io_return (Some k)))
         (\<lambda>_. io_return None))
       (\<lambda>checked. case checked of
          Some k \<Rightarrow> io_return k
        | None \<Rightarrow>
            (if \<not> rq_get req then io_return None
             else case js_split (CHR '' '') (case rq_authorization req of None \<Rightarrow> [] | Some a \<Rightarrow> a) of
               _ # token # _ \<Rightarrow>
                 (if token \<noteq> [] \<and> \<not> isJWT env token
                  then io_catch (au_bearer env token) (\<lambda>_. io_return None)
                  else io_return None)
             | _ \<Rightarrow> io_return None))"

definition prefetchAPIKey :: "'w auth_env \<Rightarrow> ('w ctx, unit) io" where
  "prefetchAPIKey env =
     io_bind get_req (\<lambda>req.
       if rq_apiKey req \<noteq> None then change_req (\<lambda>q. q\<lparr>rq_prefetch := Some (rq_apiKey req)\<rparr>)
       else if rq_prefetch req \<noteq> None then io_return ()
       else io_bind (on_world (getAPIKey env req)) (\<lambda>k. change_req (\<lambda>q. q\<lparr>rq_prefetch := Some k\<rparr>)))"

definition retrieveAPIKey :: "'w auth_env \<Rightarrow> ('w ctx, unit) io" where
  "retrieveAPIKey env =
     io_bind (prefetchAPIKey env) (\<lambda>_. io_bind get_req (\<lambda>req.
       if rq_apiKey req \<noteq> None then io_return ()
       else change_req (\<lambda>q. q\<lparr>rq_apiKey := (case rq_prefetch req of None \<Rightarrow> None | Some k \<Rightarrow> k)\<rparr>)))"

section \<open>Users\<close>

definition userHasPermission :: "string list option option \<Rightarrow> string \<Rightarrow> bool" where
  "userHasPermission user permission =
     (case user of Some (Some permissions) \<Rightarrow> permission \<in> set permissions | _ \<Rightarrow> False)"

definition reqHasPermission :: "request \<Rightarrow> string \<Rightarrow> bool" where
  "reqHasPermission req permission =
     userHasPermission (case rq_apiKey req of
                          Some k \<Rightarrow> Some (ak_permissions k)
                        | None \<Rightarrow> map_option cr_permissions (rq_user req)) permission"

definition creds_of_row :: "user_row \<Rightarrow> creds" where
  "creds_of_row u = no_creds\<lparr>cr_id := Some (ur_id u), cr_actor := Some (ur_actor u), cr_jwt_secret := ur_jwt_secret u\<rparr>"

text \<open>The last part of \<^verbatim>\<open>getUser\<close>: the user of an API key.\<close>

definition user_of_key :: "'w auth_env \<Rightarrow> bool \<Rightarrow> string \<Rightarrow> ('w ctx, creds option) io" where
  "user_of_key env required key =
     io_bind (on_world (au_user_of_key env key)) (\<lambda>users.
       case users of
         user # _ \<Rightarrow>
           io_bind (change_req (\<lambda>q. q\<lparr>rq_user := Some (creds_of_row user), rq_creds := Some (creds_of_row user)\<rparr>))
             (\<lambda>_. io_return (Some (creds_of_row user)))
       | [] \<Rightarrow> (if required then io_throw UnauthorizedError
                else io_bind get_req (\<lambda>req. io_return (rq_user req))))"

definition getUser :: "'w auth_env \<Rightarrow> bool \<Rightarrow> ('w ctx, creds option) io" where
  "getUser env required =
     io_bind (change_req (\<lambda>q. if rq_user q \<noteq> None \<and> rq_creds q = None then q\<lparr>rq_creds := rq_user q\<rparr> else q)) (\<lambda>_.
     io_bind get_req (\<lambda>req.
       if rq_creds req \<noteq> None
       then (if required \<and> rq_user req = None then io_throw UnauthorizedError else io_return (rq_user req))
       else io_bind (retrieveAPIKey env) (\<lambda>_. io_bind get_req (\<lambda>req.
         case rq_apiKey req of
           None \<Rightarrow> (if required then io_throw UnauthorizedError else io_return None)
         | Some k \<Rightarrow>
             (if ak_key k = [] then (if required then io_throw UnauthorizedError else io_return None)
              else user_of_key env required (ak_key k))))))"

definition findUser :: "'w auth_env \<Rightarrow> string \<Rightarrow> ('w, user_row option) io" where
  "findUser env loginInfo =
     (if loginInfo = [] then io_return None
      else io_bind (au_find env (if CHR ''@'' \<in> set loginInfo then LoginEmail else LoginUsername) loginInfo)
        (\<lambda>users. io_return (case users of [] \<Rightarrow> None | u # _ \<Rightarrow> Some u)))"

text \<open>The hash an unknown user's password is compared with.\<close>

definition INVALID_HASH :: string where
  "INVALID_HASH = ''$2b$10$Wj6ud7bYmcAw4B1uuORsnuYODUKSkrH6dVwG1zoUhDeTCjwsxlp5.''"

definition comparePassword :: "'w auth_env \<Rightarrow> string \<Rightarrow> string option \<Rightarrow> ('w, bool) io" where
  "comparePassword env password hash =
     (case hash of None \<Rightarrow> au_compare env [] INVALID_HASH | Some h \<Rightarrow> au_compare env password h)"

definition setPassword :: "'w auth_env \<Rightarrow> int \<Rightarrow> string \<Rightarrow> ('w, unit) io" where
  "setPassword env userId newPassword = au_set_password env userId newPassword"

definition updatePasswordIfNeeded :: "'w auth_env \<Rightarrow> string \<Rightarrow> string \<Rightarrow> ('w, bool) io" where
  "updatePasswordIfNeeded env usernameOrEmail newPassword =
     io_bind (findUser env usernameOrEmail) (\<lambda>user.
       case user of
         None \<Rightarrow> io_throw (NotFoundError ''User not found.'')
       | Some u \<Rightarrow>
           io_bind (comparePassword env newPassword (ur_password u)) (\<lambda>matches.
             if matches then io_return False
             else io_catch (io_bind (setPassword env (ur_id u) newPassword) (\<lambda>_. io_return True))
                    (\<lambda>_. io_return False)))"

definition checkUserPassword :: "'w auth_env \<Rightarrow> string \<Rightarrow> int \<Rightarrow> ('w, unit) io" where
  "checkUserPassword env password userId =
     io_bind (au_user_row env userId) (\<lambda>user.
       case user of
         None \<Rightarrow> io_throw (BadRequestError ''User not found.'')
       | Some u \<Rightarrow>
           io_bind (comparePassword env password (ur_password u)) (\<lambda>passwordIsOk.
             if \<not> passwordIsOk then io_throw (BadRequestError ''Current password incorrect.'') else io_return ()))"

section \<open>Tokens\<close>

definition SUDO_TOKEN_VALIDITY :: int where
  "SUDO_TOKEN_VALIDITY = 20 * 60 * 1000"

definition checkSudoValidity :: "int \<Rightarrow> creds \<Rightarrow> bool" where
  "checkSudoValidity now user =
     (let notAuthBefore = now - SUDO_TOKEN_VALIDITY
      in case cr_authTime user of None \<Rightarrow> False | Some t \<Rightarrow> t > notAuthBefore)"

text \<open>
  The content of a new token: of an existing token only the fields of tokens are kept, the id and the secret are the
  user's current ones.
\<close>

definition getUserTokenData :: "'w auth_env \<Rightarrow> int \<Rightarrow> creds option \<Rightarrow> ('w, creds) io" where
  "getUserTokenData env userId existingToken =
     io_bind (au_user_row env userId) (\<lambda>userData.
       case userData of
         None \<Rightarrow> io_throw (JsError ''No data found?!'')
       | Some u \<Rightarrow> (\<lambda>w.
           let e = (case existingToken of None \<Rightarrow> no_creds | Some e \<Rightarrow> e)
           in (Inr (no_creds\<lparr>cr_id := Some (ur_id u), cr_jwt_secret := ur_jwt_secret u,
                  cr_authTime := (case cr_authTime e of None \<Rightarrow> Some (au_now env w) | Some t \<Rightarrow> Some t),
                  cr_twoFactorRequired := cr_twoFactorRequired e, cr_iat := cr_iat e, cr_exp := cr_exp e\<rparr>), w)))"

text \<open>What \<^verbatim>\<open>createJwt\<close> passes on to be signed: the payload and \<^verbatim>\<open>expiresIn\<close>.\<close>

definition jwt_arguments :: "'w auth_env \<Rightarrow> creds \<Rightarrow> int option \<Rightarrow> creds \<times> int option" where
  "jwt_arguments env payload expiresIn =
     (let filled = Some (case expiresIn of None \<Rightarrow> au_expiry_seconds env | Some e \<Rightarrow> e)
      in if au_limit_refresh env
         then (payload\<lparr>cr_iat := None\<rparr>, if cr_exp payload = None then filled else None)
         else (payload\<lparr>cr_iat := None, cr_exp := None\<rparr>, filled))"

definition createJwt :: "'w auth_env \<Rightarrow> creds \<Rightarrow> int option \<Rightarrow> string" where
  "createJwt env payload expiresIn = (let (p, e) = jwt_arguments env payload expiresIn in au_sign env p e)"

definition createSessionToken :: "'w auth_env \<Rightarrow> int \<Rightarrow> creds option \<Rightarrow> int option \<Rightarrow> ('w, string) io" where
  "createSessionToken env userId existingToken expiresIn =
     io_bind (getUserTokenData env userId existingToken) (\<lambda>tokenData.
       io_return (createJwt env tokenData expiresIn))"

text \<open>\<^verbatim>\<open>updateUserXHR\<close> and \<^verbatim>\<open>loginUserXHR\<close> send the token once the transaction is over; here it is the result.\<close>

definition updateUserXHR :: "'w auth_env \<Rightarrow> ('w ctx, string) io" where
  "updateUserXHR env =
     io_bind (getUser env False) (\<lambda>_. io_bind get_req (\<lambda>req.
       case rq_creds req of
         None \<Rightarrow> io_throw (InternalRequestError ''No user present'')
       | Some c \<Rightarrow>
           (case cr_id c of
              None \<Rightarrow> io_throw (InternalRequestError ''No user present'')
            | Some i \<Rightarrow> on_world (createSessionToken env i (Some c) None))))"

definition loginUserXHR :: "'w auth_env \<Rightarrow> int \<Rightarrow> ('w, string) io" where
  "loginUserXHR env userId = createSessionToken env userId None None"

definition createScopedAccessToken :: "'w auth_env \<Rightarrow> int \<Rightarrow> string list \<Rightarrow> int \<Rightarrow> string" where
  "createScopedAccessToken env actor permissions expiresIn =
     createJwt env (no_creds\<lparr>cr_actor := Some actor, cr_permissions := Some permissions\<rparr>) (Some expiresIn)"

section \<open>Reading a token\<close>

definition InvalidJwtSecretError :: exn where
  "InvalidJwtSecretError = JsError ''InvalidJwtSecretError''"

definition verifyJwtAndFetchUser :: "('w, int option) io \<Rightarrow> ('w, int) io" where
  "verifyJwtAndFetchUser query =
     io_bind query (\<lambda>user. case user of None \<Rightarrow> io_throw InvalidJwtSecretError | Some u \<Rightarrow> io_return u)"

definition access_given :: "jwt_payload \<Rightarrow> bool" where
  "access_given p \<longleftrightarrow>
     (case jp_access p of Some (Some actor, Some permissions) \<Rightarrow> actor \<noteq> 0 | _ \<Rightarrow> False)"

definition access_creds :: "jwt_payload \<Rightarrow> creds" where
  "access_creds p =
     (case jp_access p of
        None \<Rightarrow> no_creds
      | Some (actor, permissions) \<Rightarrow> no_creds\<lparr>cr_actor := actor, cr_permissions := permissions\<rparr>)"

definition processVerifiedJwtPayload :: "'w auth_env \<Rightarrow> jwt_payload option \<Rightarrow> ('w, creds) io" where
  "processVerifiedJwtPayload env jwtUser =
     (case jwtUser of
        None \<Rightarrow> io_throw InvalidJwtSecretError
      | Some p \<Rightarrow>
          (if jp_service p \<noteq> None \<and> jp_service p \<noteq> Some []
           then io_bind (au_key_permissions env (jp_apikey p)) (\<lambda>apiKeyPermissions.
                  io_return (no_creds\<lparr>cr_service := Some (the (jp_service p), jp_apikey p),
                                      cr_permissions := Some apiKeyPermissions\<rparr>))
           else case jp_roles p of
             Some roles \<Rightarrow>
               io_bind (if jp_jwt_secret p \<noteq> None
                        then io_bind (verifyJwtAndFetchUser (au_by_actor env (jp_actor p) (jp_jwt_secret p))) (\<lambda>_. io_return ())
                        else io_return ()) (\<lambda>_.
               io_bind (au_role_permissions env roles) (\<lambda>permissions.
                 io_return (no_creds\<lparr>cr_actor := Some (jp_actor p), cr_permissions := Some permissions,
                                     cr_binds := jp_bindings p\<rparr>)))
           | None \<Rightarrow>
               (if access_given p then io_return (access_creds p)
                else case jp_id p of
                  None \<Rightarrow> io_throw (JsError ''Invalid JWT'')
                | Some userId \<Rightarrow>
                    io_bind (verifyJwtAndFetchUser (au_by_id env userId (jp_jwt_secret p))) (\<lambda>actor.
                    io_bind (au_user_permissions env userId) (\<lambda>permissions.
                      io_return (no_creds\<lparr>cr_id := Some userId, cr_actor := Some actor,
                        cr_jwt_secret := jp_jwt_secret p, cr_authTime := jp_authTime p,
                        cr_twoFactorRequired := jp_twoFactorRequired p, cr_iat := jp_iat p, cr_exp := jp_exp p,
                        cr_permissions := Some permissions\<rparr>))))))"

datatype answer = NextHandler | NextError exn | Status nat

text \<open>
  The token that the body may hold is taken out of it and put where later handlers look for it.
\<close>

definition take_body_token :: "'w auth_env \<Rightarrow> request \<Rightarrow> request" where
  "take_body_token env req =
     (case rq_body req of
        JObj body \<Rightarrow>
          (let possibleToken = map_of body ''_token'';
               req1 = req\<lparr>rq_body := JObj (obj_delete ''_token'' body)\<rparr>
           in if truthy possibleToken \<and> (rq_authorization req = None \<or> rq_authorization req = Some [])
              then req1\<lparr>rq_authorization := Some (''Bearer '' @ au_text env (the possibleToken))\<rparr> else req1)
      | _ \<Rightarrow> req)"

definition set_creds :: "'w auth_env \<Rightarrow> creds \<Rightarrow> ('w ctx, unit) io" where
  "set_creds env auth =
     io_bind (change_req (\<lambda>q. q\<lparr>rq_creds := Some auth\<rparr>)) (\<lambda>_.
       case cr_service auth of
         Some (service, apikey) \<Rightarrow>
           io_bind (on_world (au_guest_actor env)) (\<lambda>actor.
             change_req (\<lambda>q. q\<lparr>rq_apiKey := Some \<lparr>ak_key = apikey, ak_actor = actor, ak_permissions = cr_permissions auth\<rparr>\<rparr>))
       | None \<Rightarrow>
           (if cr_twoFactorRequired auth = Some True then change_req (\<lambda>q. q\<lparr>rq_partialUser := Some auth\<rparr>)
            else change_req (\<lambda>q. q\<lparr>rq_user := Some auth\<rparr>)))"

text \<open>The middleware, for the token the library found in the request.\<close>

definition jwt_middleware :: "'w auth_env \<Rightarrow> string option \<Rightarrow> ('w ctx, answer) io" where
  "jwt_middleware env jwtString =
     (case jwtString of
        None \<Rightarrow> io_return NextHandler
      | Some token \<Rightarrow>
          (if CHR ''.'' \<notin> set token then io_return NextHandler
           else case au_verify env token of
             None \<Rightarrow> io_bind (change_req (take_body_token env)) (\<lambda>_. io_return NextHandler)
           | Some jwtUser \<Rightarrow> (\<lambda>c.
               case on_world (processVerifiedJwtPayload env jwtUser) c of
                 (Inl err, c1) \<Rightarrow>
                   (Inr (if err = InvalidJwtSecretError then Status 401 else NextError err),
                    c1\<lparr>cx_req := take_body_token env (cx_req c1)\<rparr>)
               | (Inr auth, c1) \<Rightarrow>
                   io_bind (set_creds env auth) (\<lambda>_. io_return NextHandler)
                     (c1\<lparr>cx_req := take_body_token env (cx_req c1)\<rparr>))))"

section \<open>Admission\<close>

definition partiallyAuthenticatedUser :: "'w auth_env \<Rightarrow> ('w ctx, answer) io" where
  "partiallyAuthenticatedUser env =
     io_catch (io_bind (getUser env False) (\<lambda>_. io_bind get_req (\<lambda>req.
       io_return (if rq_creds req \<noteq> None then NextHandler else Status 401)))) (\<lambda>_. io_return (Status 401))"

definition fullyAuthenticatedUser :: "'w auth_env \<Rightarrow> ('w ctx, answer) io" where
  "fullyAuthenticatedUser env =
     io_catch (io_bind (getUser env True) (\<lambda>_. io_return NextHandler)) (\<lambda>_. io_return (Status 401))"

definition resolveCredentialsAndUser :: "'w auth_env \<Rightarrow> ('w ctx, answer) io" where
  "resolveCredentialsAndUser env = io_bind (getUser env False) (\<lambda>_. io_return NextHandler)"

definition prefetchApiKey :: "'w auth_env \<Rightarrow> ('w ctx, answer) io" where
  "prefetchApiKey env = io_bind (prefetchAPIKey env) (\<lambda>_. io_return NextHandler)"

definition resolveApiKey :: "'w auth_env \<Rightarrow> ('w ctx, answer) io" where
  "resolveApiKey env =
     io_catch (io_bind (retrieveAPIKey env) (\<lambda>_. io_return NextHandler)) (\<lambda>err. io_return (NextError err))"

definition authenticatedApiKey :: "'w auth_env \<Rightarrow> ('w ctx, answer) io" where
  "authenticatedApiKey env =
     io_catch (io_bind (retrieveAPIKey env) (\<lambda>_. io_bind get_req (\<lambda>req.
       io_return (if rq_apiKey req \<noteq> None then NextHandler else Status 401)))) (\<lambda>err. io_return (NextError err))"

definition authenticated :: "'w auth_env \<Rightarrow> ('w ctx, answer) io" where
  "authenticated env =
     io_catch (io_bind (getUser env True) (\<lambda>_. io_return NextHandler))
       (\<lambda>_. io_bind get_req (\<lambda>req. io_return (if rq_apiKey req \<noteq> None then NextHandler else Status 401)))"

definition permissionRequired :: "string \<Rightarrow> ('w ctx, answer) io" where
  "permissionRequired permission =
     io_bind get_req (\<lambda>req. io_return (if reqHasPermission req permission then NextHandler else Status 401))"

definition sudo :: "'w auth_env \<Rightarrow> ('w ctx, answer) io" where
  "sudo env =
     io_catch (io_bind (getUser env False) (\<lambda>user c. (Inr (case user of
         None \<Rightarrow> Status 401
       | Some u \<Rightarrow> (if checkSudoValidity (au_now env (cx_world c)) u then NextHandler else Status 401)), c)))
       (\<lambda>_. io_return (Status 500))"

section \<open>Properties\<close>

lemma io_bind_cases:
  "io_bind m f c = (case m c of (Inl e, c1) \<Rightarrow> (Inl e, c1) | (Inr a, c1) \<Rightarrow> f a c1)"
  by (simp add: io_bind_def)

lemma getUser_creds:
  assumes "rq_creds (cx_req c) \<noteq> None"
  shows "getUser env required c = (if required \<and> rq_user (cx_req c) = None then Inl UnauthorizedError
    else Inr (rq_user (cx_req c)), c)"
proof -
  obtain k where "rq_creds (cx_req c) = Some k" using assms by blast
  then show ?thesis by (simp add: getUser_def io_bind_def change_req_def get_req_def io_throw_def io_return_def)
qed

lemma take_body_token_fields:
  "rq_user (take_body_token env q) = rq_user q" "rq_apiKey (take_body_token env q) = rq_apiKey q"
  "rq_creds (take_body_token env q) = rq_creds q"
  by (simp_all add: take_body_token_def Let_def split: json.split)

text \<open>A token of a user, as opposed to one of a service or a scoped one.\<close>

definition user_token :: "jwt_payload \<Rightarrow> bool" where
  "user_token p \<longleftrightarrow> (jp_service p = None \<or> jp_service p = Some []) \<and> jp_roles p = None \<and> \<not> access_given p \<and>
     jp_id p \<noteq> None"

lemma user_token_creds:
  assumes "processVerifiedJwtPayload env (Some p) w = (Inr auth, w')" "user_token p"
  shows "\<exists>userId actor w1. jp_id p = Some userId \<and> au_by_id env userId (jp_jwt_secret p) w = (Inr (Some actor), w1) \<and>
    cr_id auth = Some userId \<and> cr_actor auth = Some actor \<and> cr_service auth = None \<and>
    cr_twoFactorRequired auth = jp_twoFactorRequired p"
proof -
  obtain userId where i: "jp_id p = Some userId" using assms(2) by (auto simp: user_token_def)
  then have run: "io_bind (verifyJwtAndFetchUser (au_by_id env userId (jp_jwt_secret p))) (\<lambda>actor.
      io_bind (au_user_permissions env userId) (\<lambda>permissions.
        io_return (no_creds\<lparr>cr_id := Some userId, cr_actor := Some actor,
          cr_jwt_secret := jp_jwt_secret p, cr_authTime := jp_authTime p,
          cr_twoFactorRequired := jp_twoFactorRequired p, cr_iat := jp_iat p, cr_exp := jp_exp p,
          cr_permissions := Some permissions\<rparr>))) w = (Inr auth, w')"
    using assms by (auto simp: processVerifiedJwtPayload_def user_token_def)
  obtain actor w1 where a: "verifyJwtAndFetchUser (au_by_id env userId (jp_jwt_secret p)) w = (Inr actor, w1)"
    "cr_id auth = Some userId" "cr_actor auth = Some actor" "cr_service auth = None"
    "cr_twoFactorRequired auth = jp_twoFactorRequired p"
    using run by (auto simp: io_run_iffs no_creds_def)
  obtain found where "au_by_id env userId (jp_jwt_secret p) w = (Inr found, w1)" "found = Some actor"
    using a(1) by (auto simp: verifyJwtAndFetchUser_def io_run_iffs split: option.split_asm)
  then show ?thesis using a i by auto
qed

text \<open>
  Claim C19. A session that still needs its second factor gets nowhere: after its token has been read the request
  passes only the check for partial users; the checks for a full user, for a recent login, for any credentials
  and for a permission answer 401, unless the request also has an API key for the last two.
\<close>

theorem second_factor_needed:
  assumes "jwt_middleware env (Some token) c = (Inr NextHandler, c1)"
    and "au_verify env token = Some (Some p)" and "CHR ''.'' \<in> set token"
    and "user_token p" and "jp_twoFactorRequired p = Some True" and "rq_user (cx_req c) = None"
  shows "partiallyAuthenticatedUser env c1 = (Inr NextHandler, c1) \<and>
    fullyAuthenticatedUser env c1 = (Inr (Status 401), c1) \<and> sudo env c1 = (Inr (Status 401), c1) \<and>
    (rq_apiKey (cx_req c) = None \<longrightarrow>
       authenticated env c1 = (Inr (Status 401), c1) \<and> permissionRequired permission c1 = (Inr (Status 401), c1))"
proof -
  obtain auth w1 where auth: "processVerifiedJwtPayload env (Some p) (cx_world c) = (Inr auth, w1)"
  proof (cases "processVerifiedJwtPayload env (Some p) (cx_world c)")
    case (Pair r w1)
    then show ?thesis
      using that assms(1-3) by (cases r) (auto simp: jwt_middleware_def on_world_def split: if_splits)
  qed
  have two: "cr_service auth = None" "cr_twoFactorRequired auth = Some True"
    using user_token_creds [OF auth assms(4)] assms(5) by auto
  have c1: "c1 = c\<lparr>cx_world := w1, cx_req := (take_body_token env (cx_req c))\<lparr>rq_creds := Some auth, rq_partialUser := Some auth\<rparr>\<rparr>"
    using assms(1-3) auth two
    by (auto simp: jwt_middleware_def on_world_def set_creds_def io_bind_def change_req_def io_return_def)
  have fields: "rq_creds (cx_req c1) = Some auth" "rq_user (cx_req c1) = None" "rq_apiKey (cx_req c1) = rq_apiKey (cx_req c)"
    using assms(6) by (simp_all add: c1 take_body_token_fields)
  have get: "getUser env required c1 = (if required then Inl UnauthorizedError else Inr None, c1)" for required
    using getUser_creds [of c1] fields by simp
  have "partiallyAuthenticatedUser env c1 = (Inr NextHandler, c1)"
    by (simp add: partiallyAuthenticatedUser_def io_catch_def io_bind_def get get_req_def io_return_def fields(1))
  moreover have "fullyAuthenticatedUser env c1 = (Inr (Status 401), c1)"
    by (simp add: fullyAuthenticatedUser_def io_catch_def io_bind_def get io_return_def)
  moreover have "sudo env c1 = (Inr (Status 401), c1)"
    by (simp add: sudo_def io_catch_def io_bind_def get io_return_def)
  moreover have "authenticated env c1 = (Inr (Status 401), c1)" "permissionRequired permission c1 = (Inr (Status 401), c1)"
    if "rq_apiKey (cx_req c) = None"
    using that fields by (simp_all add: authenticated_def permissionRequired_def io_catch_def io_bind_def get
        get_req_def io_return_def reqHasPermission_def userHasPermission_def)
  ultimately show ?thesis by blast
qed

lemma retrieveAPIKey_user:
  assumes "retrieveAPIKey env c = (r, c')"
  shows "rq_user (cx_req c') = rq_user (cx_req c)"
  using assms
  by (auto simp: retrieveAPIKey_def prefetchAPIKey_def io_bind_def get_req_def change_req_def io_return_def on_world_def
      split: prod.splits sum.splits if_splits)

text \<open>
  A request that passes the check for a full user has a user, and that is the user its token had
  resolved to, or the owner of the API key of the request.
\<close>

lemma admitted_user:
  assumes "fullyAuthenticatedUser env c = (Inr NextHandler, c')"
  shows "\<exists>u. rq_user (cx_req c') = Some u \<and>
    (rq_user (cx_req c) = Some u \<or>
     (rq_user (cx_req c) = None \<and> rq_creds (cx_req c) = None \<and>
      (\<exists>k row rows w w1. rq_apiKey (cx_req c') = Some k \<and> ak_key k \<noteq> [] \<and>
         au_user_of_key env (ak_key k) w = (Inr (row # rows), w1) \<and> u = creds_of_row row)))"
proof -
  obtain r where run: "getUser env True c = (Inr r, c')"
    using assms
    by (auto simp: fullyAuthenticatedUser_def io_catch_def io_bind_def io_return_def split: prod.splits sum.splits)
  define c0 where "c0 = c\<lparr>cx_req := (if rq_user (cx_req c) \<noteq> None \<and> rq_creds (cx_req c) = None
    then (cx_req c)\<lparr>rq_creds := rq_user (cx_req c)\<rparr> else cx_req c)\<rparr>"
  have user0: "rq_user (cx_req c0) = rq_user (cx_req c)" by (simp add: c0_def)
  show ?thesis
  proof (cases "rq_creds (cx_req c0) = None")
    case False
    then have "getUser env True c = (if rq_user (cx_req c0) = None then Inl UnauthorizedError else Inr (rq_user (cx_req c0)), c0)"
      by (simp add: getUser_def io_bind_def change_req_def get_req_def io_throw_def io_return_def c0_def)
    then show ?thesis using run user0 by (auto split: if_splits)
  next
    case True
    then have none: "rq_user (cx_req c) = None" "rq_creds (cx_req c) = None"
      by (auto simp: c0_def split: if_splits)
    then have c0: "c0 = c" by (simp add: c0_def)
    obtain u1 c1 where key: "retrieveAPIKey env c = (Inr u1, c1)"
      using run none by (auto simp: getUser_def io_bind_def change_req_def get_req_def split: prod.splits sum.splits)
    have "rq_user (cx_req c1) = None" using retrieveAPIKey_user [OF key] none by simp
    then obtain k where k: "rq_apiKey (cx_req c1) = Some k" "ak_key k \<noteq> []"
      using run none key
      by (auto simp: getUser_def io_bind_def change_req_def get_req_def io_throw_def split: option.splits if_splits)
    have rest: "user_of_key env True (ak_key k) c1 = (Inr r, c')"
      using run none key k by (simp add: getUser_def io_bind_def change_req_def get_req_def)
    then obtain users w1 where users: "au_user_of_key env (ak_key k) (cx_world c1) = (Inr users, w1)"
      by (auto simp: user_of_key_def io_bind_def on_world_def split: prod.splits sum.splits)
    show ?thesis
    proof (cases users)
      case Nil
      then show ?thesis using rest users by (simp add: user_of_key_def io_bind_def on_world_def io_throw_def)
    next
      case (Cons row rows)
      then have "c' = c1\<lparr>cx_world := w1, cx_req := (cx_req c1)\<lparr>rq_user := Some (creds_of_row row),
          rq_creds := Some (creds_of_row row)\<rparr>\<rparr>"
        using rest users by (auto simp: user_of_key_def io_bind_def on_world_def change_req_def io_return_def)
      then show ?thesis using k none users Cons by auto
    qed
  qed
qed

section \<open>Sessions and the table of users\<close>

text \<open>What the queries for users return, over the view \<open>user\<close> of the table.\<close>

locale user_table =
  fixes env :: "'w auth_env"
    and user :: "'w \<Rightarrow> int \<Rightarrow> user_row option"
  assumes by_id: "au_by_id env i s w = (Inr a, w') \<Longrightarrow> user w' = user w \<and>
      (\<forall>actor. a = Some actor \<longrightarrow> (\<exists>u. user w i = Some u \<and> ur_jwt_secret u = s \<and> ur_actor u = actor))"
    and by_actor: "au_by_actor env b s w = (Inr j, w') \<Longrightarrow> user w' = user w \<and>
      (\<forall>i. j = Some i \<longrightarrow> (\<exists>u. user w i = Some u \<and> ur_jwt_secret u = s \<and> ur_actor u = b))"
    and row: "au_user_row env i w = (Inr found, w') \<Longrightarrow> user w' = user w \<and> found = user w i"
    and id: "user w i = Some u \<Longrightarrow> ur_id u = i"
begin

lemma session_of_user:
  assumes "processVerifiedJwtPayload env (Some p) w = (Inr auth, w')" "user_token p"
  shows "\<exists>u. user w (the (jp_id p)) = Some u \<and> ur_jwt_secret u = jp_jwt_secret p \<and> cr_actor auth = Some (ur_actor u) \<and>
    cr_id auth = Some (ur_id u)"
  using user_token_creds [OF assms] by_id id by fastforce

lemma roles_of_user:
  assumes "processVerifiedJwtPayload env (Some p) w = (Inr auth, w')" "jp_service p = None" "jp_roles p = Some roles"
    and "jp_jwt_secret p = Some s"
  shows "\<exists>i u. user w i = Some u \<and> ur_jwt_secret u = Some s \<and> ur_actor u = jp_actor p"
proof -
  obtain j w1 where "verifyJwtAndFetchUser (au_by_actor env (jp_actor p) (Some s)) w = (Inr j, w1)"
    using assms by (auto simp: processVerifiedJwtPayload_def io_run_iffs)
  then obtain found where "au_by_actor env (jp_actor p) (Some s) w = (Inr found, w1)" "found = Some j"
    by (auto simp: verifyJwtAndFetchUser_def io_run_iffs split: option.split_asm)
  then show ?thesis using by_actor by blast
qed

lemma refreshed:
  assumes "updateUserXHR env c = (Inr token, c')" "rq_creds (cx_req c) = Some e" "cr_id e = Some i"
  shows "\<exists>u p. user (cx_world c) i = Some u \<and> token = createJwt env p None \<and>
    cr_id p = Some i \<and> cr_jwt_secret p = ur_jwt_secret u \<and> cr_exp p = cr_exp e \<and>
    cr_twoFactorRequired p = cr_twoFactorRequired e \<and> (\<forall>t. cr_authTime e = Some t \<longrightarrow> cr_authTime p = Some t) \<and>
    cr_permissions p = None"
proof -
  have get: "getUser env False c = (Inr (rq_user (cx_req c)), c)" using getUser_creds [of c] assms(2) by simp
  have "on_world (createSessionToken env i (Some e) None) c = (Inr token, c')"
    using assms by (simp add: updateUserXHR_def io_bind_def get get_req_def)
  then obtain p w1 where p: "getUserTokenData env i (Some e) (cx_world c) = (Inr p, w1)" "token = createJwt env p None"
    by (auto simp: on_world_def createSessionToken_def io_bind_def io_return_def split: prod.splits sum.splits)
  obtain found w2 where f: "au_user_row env i (cx_world c) = (Inr found, w2)"
    using p(1) by (auto simp: getUserTokenData_def io_bind_def split: prod.splits sum.splits)
  obtain u where u: "found = Some u" "user (cx_world c) i = Some u" "ur_id u = i"
  proof -
    have "found \<noteq> None" using p(1) f by (cases found) (simp_all add: getUserTokenData_def io_bind_def io_throw_def)
    then obtain v where v: "found = Some v" by auto
    have "user (cx_world c) i = Some v" using row [OF f] v by simp
    then show ?thesis using that v id by blast
  qed
  show ?thesis
    using p u f by (intro exI [of _ u] exI [of _ p])
      (auto simp: getUserTokenData_def io_bind_def Let_def no_creds_def split: option.splits)
qed

end

text \<open>A table in memory; tokens are read and written by functions given.\<close>

definition mem_user :: "user_row list \<Rightarrow> int \<Rightarrow> user_row option" where
  "mem_user w i = find (\<lambda>u. ur_id u = i) w"

definition mem_auth_env :: "(string \<Rightarrow> jwt_payload option) \<Rightarrow> (creds \<Rightarrow> int option \<Rightarrow> string) \<Rightarrow> user_row list auth_env" where
  "mem_auth_env read sign =
     \<lparr>au_verify = (\<lambda>t. map_option Some (read t)), au_decode = (\<lambda>t. read t \<noteq> None), au_sign = sign,
      au_by_id = \<lambda>i s w. (Inr (case mem_user w i of
        Some u \<Rightarrow> (if ur_jwt_secret u = s then Some (ur_actor u) else None) | None \<Rightarrow> None), w),
      au_by_actor = \<lambda>a s w. (Inr (map_option ur_id (find (\<lambda>u. ur_actor u = a \<and> ur_jwt_secret u = s \<and>
        mem_user w (ur_id u) = Some u) w)), w),
      au_key_permissions = \<lambda>k w. (Inr [], w), au_role_permissions = \<lambda>rs w. (Inr rs, w),
      au_user_permissions = \<lambda>i w. (Inr [], w), au_guest_actor = \<lambda>w. (Inr 1, w),
      au_check_key = \<lambda>k w. (Inr None, w), au_bearer = \<lambda>k w. (Inr None, w), au_user_of_key = \<lambda>k w. (Inr [], w),
      au_user_row = \<lambda>i w. (Inr (mem_user w i), w), au_find = \<lambda>f s w. (Inr [], w), au_compare = \<lambda>p h w. (Inr (p = h), w),
      au_set_password = \<lambda>i p w. (Inr (), w), au_text = (\<lambda>_. []), au_now = (\<lambda>w. 0), au_expiry_seconds = 3600,
      au_limit_refresh = True\<rparr>"

interpretation mem_users: user_table "mem_auth_env read sign" mem_user for read sign
  by unfold_locales (auto simp: mem_auth_env_def mem_user_def find_Some_iff split: option.splits if_splits)

definition demo_payload :: "string option \<Rightarrow> jwt_payload" where
  "demo_payload s = \<lparr>jp_service = None, jp_apikey = [], jp_roles = None, jp_bindings = JNull, jp_actor = 0,
     jp_access = None, jp_id = Some 7, jp_jwt_secret = s, jp_authTime = Some 5, jp_twoFactorRequired = Some True,
     jp_iat = Some 5, jp_exp = Some 9000\<rparr>"

definition demo_user :: user_row where
  "demo_user = \<lparr>ur_id = 7, ur_actor = 70, ur_jwt_secret = Some ''s'', ur_username = ''joe'', ur_email = None, ur_password = None\<rparr>"

definition demo_read :: "string \<Rightarrow> jwt_payload option" where
  "demo_read t = (if t = ''a.b'' then Some (demo_payload (Some ''s'')) else None)"

definition empty_request :: request where
  "empty_request = \<lparr>rq_params_apikey = None, rq_query_apikey = None, rq_get = True, rq_authorization = Some ''Bearer a.b'',
     rq_body = JNull, rq_apiKey = None, rq_prefetch = None, rq_user = None, rq_creds = None, rq_partialUser = None\<rparr>"

theorem second_factor_needed_witness:
  "\<exists>c1. jwt_middleware (mem_auth_env demo_read (\<lambda>p e. [])) (Some ''a.b'') \<lparr>cx_req = empty_request, cx_world = [demo_user]\<rparr> =
      (Inr NextHandler, c1) \<and>
     fullyAuthenticatedUser (mem_auth_env demo_read (\<lambda>p e. [])) c1 = (Inr (Status 401), c1)"
proof -
  let ?env = "mem_auth_env demo_read (\<lambda>p e. [])"
  let ?c = "\<lparr>cx_req = empty_request, cx_world = [demo_user]\<rparr>"
  obtain c1 where c1: "jwt_middleware ?env (Some ''a.b'') ?c = (Inr NextHandler, c1)"
    by (simp add: jwt_middleware_def mem_auth_env_def demo_read_def on_world_def processVerifiedJwtPayload_def
        demo_payload_def access_given_def verifyJwtAndFetchUser_def io_simps mem_user_def demo_user_def set_creds_def
        change_req_def no_creds_def)
  have "au_verify ?env ''a.b'' = Some (Some (demo_payload (Some ''s'')))"
    by (simp add: mem_auth_env_def demo_read_def)
  from second_factor_needed [OF c1 this] show ?thesis
    using c1 by (auto simp: user_token_def demo_payload_def access_given_def empty_request_def)
qed

text \<open>
  A user's token is accepted only while the secret in it is the one in the user's row, so a new secret ends
  all sessions of the user; the same holds for tokens of roles that carry a secret.
\<close>

lemma session_ends_with_secret:
  assumes "user_table env user" and "processVerifiedJwtPayload env (Some p) w = (Inr auth, w')"
  shows "(user_token p \<longrightarrow> (\<exists>u. user w (the (jp_id p)) = Some u \<and> ur_jwt_secret u = jp_jwt_secret p \<and>
      cr_actor auth = Some (ur_actor u) \<and> cr_id auth = Some (ur_id u))) \<and>
    (jp_service p = None \<and> jp_roles p \<noteq> None \<and> jp_jwt_secret p \<noteq> None \<longrightarrow>
      (\<exists>i u. user w i = Some u \<and> ur_jwt_secret u = jp_jwt_secret p \<and> ur_actor u = jp_actor p))"
  using user_table.session_of_user [OF assms] user_table.roles_of_user [OF assms] by auto

text \<open>
  Claim C33. Refreshing a session token gives a token for the same user with the user's current secret, and widens
  nothing: a second factor that is pending stays pending, the time of the login stays, no permissions are
  written into it, and when the refreshing is limited the new token ends when the old one did.
\<close>

theorem refresh_keeps_limits:
  assumes "user_table env user" and "updateUserXHR env c = (Inr token, c')" and "rq_creds (cx_req c) = Some e"
    and "cr_id e = Some i"
  shows "\<exists>u p expiresIn. user (cx_world c) i = Some u \<and> token = au_sign env p expiresIn \<and>
    cr_id p = Some i \<and> cr_jwt_secret p = ur_jwt_secret u \<and> cr_twoFactorRequired p = cr_twoFactorRequired e \<and>
    (\<forall>t. cr_authTime e = Some t \<longrightarrow> cr_authTime p = Some t) \<and> cr_permissions p = None \<and>
    (au_limit_refresh env \<and> cr_exp e \<noteq> None \<longrightarrow> cr_exp p = cr_exp e \<and> expiresIn = None) \<and>
    (\<not> au_limit_refresh env \<or> cr_exp e = None \<longrightarrow> cr_exp p = None \<and> expiresIn = Some (au_expiry_seconds env))"
proof -
  obtain u p where p: "user (cx_world c) i = Some u" "token = createJwt env p None" "cr_id p = Some i"
    "cr_jwt_secret p = ur_jwt_secret u" "cr_exp p = cr_exp e" "cr_twoFactorRequired p = cr_twoFactorRequired e"
    "\<forall>t. cr_authTime e = Some t \<longrightarrow> cr_authTime p = Some t" "cr_permissions p = None"
    using user_table.refreshed [OF assms] by blast
  obtain q x where qx: "jwt_arguments env p None = (q, x)" by (cases "jwt_arguments env p None")
  show ?thesis
    by (rule exI [of _ u], rule exI [of _ q], rule exI [of _ x])
      (use p qx in \<open>auto simp: createJwt_def jwt_arguments_def Let_def split: if_splits\<close>)
qed

theorem refresh_keeps_limits_witness:
  "\<exists>token c'. updateUserXHR (mem_auth_env demo_read (\<lambda>p e. if cr_exp p = Some 9000 then ''limited'' else ''new''))
     \<lparr>cx_req = empty_request\<lparr>rq_creds := Some (no_creds\<lparr>cr_id := Some 7, cr_exp := Some 9000\<rparr>)\<rparr>, cx_world = [demo_user]\<rparr> =
       (Inr token, c') \<and> token = ''limited''"
proof -
  let ?sign = "\<lambda>p e. if cr_exp p = Some 9000 then ''limited'' else ''new''"
  let ?c = "\<lparr>cx_req = empty_request\<lparr>rq_creds := Some (no_creds\<lparr>cr_id := Some 7, cr_exp := Some 9000\<rparr>)\<rparr>, cx_world = [demo_user]\<rparr>"
  obtain token c' where run: "updateUserXHR (mem_auth_env demo_read ?sign) ?c = (Inr token, c')"
    by (simp add: updateUserXHR_def getUser_def io_simps change_req_def get_req_def on_world_def createSessionToken_def
        getUserTokenData_def mem_auth_env_def mem_user_def demo_user_def no_creds_def empty_request_def Let_def)
  have "rq_creds (cx_req ?c) = Some (no_creds\<lparr>cr_id := Some 7, cr_exp := Some 9000\<rparr>)" "cr_id (no_creds\<lparr>cr_id := Some 7, cr_exp := Some 9000\<rparr>) = Some 7"
    by simp_all
  from refresh_keeps_limits [OF mem_users.user_table_axioms run this] show ?thesis
    using run by (auto simp: mem_auth_env_def)
qed

end
