(* ===== verification/Accounts.thy ===== *)
theory Accounts
  imports Credentials
begin

text \<open>
  Accounts and sessions (\<^verbatim>\<open>src/features/auth\<close>): login, refreshed tokens, who a request is from, the form of handles,
  and the hooks on users and organizations.
\<close>

section \<open>Handles\<close>

text \<open>
  The expression \<^verbatim>\<open>/[^\w]+/g\<close> is one object, which keeps where its last search ended (\<^verbatim>\<open>lastIndex\<close>): a search starts
  there, and a failing one goes back to the start.  Replacing starts at the beginning and leaves it there.
\<close>

fun replace_runs :: "bool \<Rightarrow> string \<Rightarrow> string" where
  "replace_runs in_run [] = []"
| "replace_runs in_run (c # cs) =
     (if is_word_char c then c # replace_runs False cs
      else if in_run then replace_runs True cs else CHR ''_'' # replace_runs True cs)"

definition normalizeHandle :: "string \<Rightarrow> string" where
  "normalizeHandle handle = js_toLowerCase (replace_runs False handle)"

definition replacements_test :: "nat \<Rightarrow> string \<Rightarrow> bool \<times> nat" where
  "replacements_test lastIndex s =
     (let rest = drop lastIndex s;
          words = takeWhile is_word_char rest;
          found = dropWhile is_word_char rest
      in if found = [] then (False, 0)
         else (True, lastIndex + length words + length (takeWhile (\<lambda>c. \<not> is_word_char c) found)))"

definition validateHandle :: "nat \<Rightarrow> string \<Rightarrow> unit res \<times> nat" where
  "validateHandle lastIndex handle =
     (case replacements_test lastIndex handle of
        (True, i) \<Rightarrow> (Inl (BadRequestError ''Handles can only contain alphanumeric characters and underscores''), i)
      | (False, i) \<Rightarrow>
          (if handle \<noteq> js_toLowerCase handle then Inl (BadRequestError ''Handles must be lowercase'') else Inr (), i))"

text \<open>The hook of organizations, with the state of the expression.\<close>

definition organization_hook :: "nat \<Rightarrow> json obj \<Rightarrow> unit res \<times> nat" where
  "organization_hook lastIndex vals =
     (case map_of vals ''handle'' of
        Some (JStr handle) \<Rightarrow> (if handle = [] then (Inr (), lastIndex) else validateHandle lastIndex handle)
      | _ \<Rightarrow> (Inr (), lastIndex))"

lemma replace_runs_words: "list_all is_word_char (replace_runs b s)"
  by (induction b s rule: replace_runs.induct) (auto simp: is_word_char_def)

lemma replacements_test_iff: "fst (replacements_test i s) \<longleftrightarrow> \<not> list_all is_word_char (drop i s)"
  by (simp add: replacements_test_def Let_def dropWhile_eq_Nil_conv list_all_iff)

text \<open>
  A handle is accepted exactly when it has no capital letter and, from the place on where the last search
  for forbidden characters ended, only letters, digits and underscores: right after a refused handle the
  check overlooks forbidden characters at the start of the next one.
\<close>

lemma validateHandle_accepts:
  "fst (validateHandle i s) = Inr () \<longleftrightarrow> list_all is_word_char (drop i s) \<and> s = js_toLowerCase s"
proof -
  obtain b j where t: "replacements_test i s = (b, j)" by (cases "replacements_test i s")
  then show ?thesis
    using replacements_test_iff [of i s] by (cases b) (auto simp: validateHandle_def)
qed

lemma validateHandle_forgets:
  "validateHandle 0 ''my-org'' = (Inl (BadRequestError ''Handles can only contain alphanumeric characters and underscores''), 3)"
  "validateHandle 3 ''a/b'' = (Inr (), 0)"
  "validateHandle 0 ''a/b'' = (Inl (BadRequestError ''Handles can only contain alphanumeric characters and underscores''), 2)"
  by code_simp+

lemma normalizeHandle_valid: "list_all is_word_char (normalizeHandle s)"
proof -
  have "is_word_char (to_lower_char c)" if "is_word_char c" for c
  proof (cases "is_upper_char c")
    case True
    then have n: "65 \<le> (of_char c :: nat) \<and> (of_char c :: nat) \<le> 90" by (simp add: is_upper_char_def)
    then have "of_char (to_lower_char c) = (of_char c :: nat) + 32"
      using True by (simp add: to_lower_char_def)
    then show ?thesis using n by (simp add: is_word_char_def is_alpha_char_def is_lower_char_def)
  qed (use that in \<open>simp add: to_lower_char_def\<close>)
  then show ?thesis
    using replace_runs_words [of False s] by (auto simp: normalizeHandle_def js_toLowerCase_def list_all_iff)
qed

section \<open>Sessions\<close>

datatype reply = ReplyStatus nat | ReplyToken string | ReplyJson "json obj" | ReplyHttp exn

text \<open>A login of a user that has been found.\<close>

definition log_in ::
  "'w auth_env \<Rightarrow> (user_row \<Rightarrow> ('w, unit) io) option \<Rightarrow> ('w, unit) io option \<Rightarrow> string \<Rightarrow> user_row \<Rightarrow> ('w, reply) io"
where
  "log_in env onLogin resetRatelimit password user =
     io_bind (comparePassword env password (ur_password user)) (\<lambda>matches.
       if \<not> matches then io_throw (BadRequestError ''Current password incorrect.'')
       else io_bind (au_user_permissions env (ur_id user)) (\<lambda>userPermissions.
         if ''auth.credentials_login'' \<notin> set userPermissions
         then io_throw (BadRequestError ''User not allowed to login.'')
         else io_bind (case onLogin of None \<Rightarrow> io_return () | Some f \<Rightarrow> f user) (\<lambda>_.
              io_bind (case resetRatelimit of None \<Rightarrow> io_return () | Some f \<Rightarrow> f) (\<lambda>_.
              io_bind (loginUserXHR env (ur_id user)) (\<lambda>token. io_return (ReplyToken token))))))"

definition login ::
  "'w auth_env \<Rightarrow> (user_row \<Rightarrow> ('w, unit) io) option \<Rightarrow> ('w, unit) io option \<Rightarrow> string \<Rightarrow> string \<Rightarrow> ('w, reply) io"
where
  "login env onLogin resetRatelimit username password =
     (if \<not> (username \<noteq> [] \<and> password \<noteq> []) then io_return (ReplyStatus 401)
      else io_catch
        (io_bind (findUser env username) (\<lambda>user.
           case user of
             None \<Rightarrow> io_throw (NotFoundError ''User not found.'')
           | Some u \<Rightarrow> log_in env onLogin resetRatelimit password u))
        (\<lambda>_. io_return (ReplyStatus 401)))"

definition refreshToken :: "'w auth_env \<Rightarrow> string option \<Rightarrow> ('w ctx, reply) io" where
  "refreshToken env password =
     io_catch
       (io_bind
         (case password of
            None \<Rightarrow> io_return ()
          | Some pw \<Rightarrow>
              io_bind (getUser env False) (\<lambda>_. io_bind get_req (\<lambda>req.
                case rq_creds req of
                  None \<Rightarrow> io_throw JsTypeError
                | Some creds \<Rightarrow>
                    (case cr_id creds of
                       None \<Rightarrow> io_throw (BadRequestError ''Can only password refresh user tokens'')
                     | Some userId \<Rightarrow>
                         io_bind (on_world (checkUserPassword env pw userId)) (\<lambda>_ c.
                           (Inr (), c\<lparr>cx_req := (cx_req c)\<lparr>rq_creds :=
                             Some (creds\<lparr>cr_authTime := Some (au_now env (cx_world c))\<rparr>)\<rparr>\<rparr>)))))
          ) (\<lambda>_. io_bind (updateUserXHR env) (\<lambda>token. io_return (ReplyToken token))))
       (\<lambda>err. io_return (case err of BadRequestError _ \<Rightarrow> ReplyStatus 401 | _ \<Rightarrow> ReplyStatus 404))"

text \<open>
  \<open>find_user\<close> looks up the id and name of the user of an actor with the permissions of the request, \<open>email\<close> the
  address of a user.
\<close>

definition handled :: "exn \<Rightarrow> reply" where
  "handled err = (if is_http_error err then ReplyHttp err else ReplyStatus 500)"

definition json_opt :: "('a \<Rightarrow> json) \<Rightarrow> string \<Rightarrow> 'a option \<Rightarrow> json obj" where
  "json_opt f k v = (case v of None \<Rightarrow> [] | Some x \<Rightarrow> [(k, f x)])"

definition whoami ::
  "'w auth_env \<Rightarrow> (request \<Rightarrow> int option \<Rightarrow> ('w, (int \<times> string) option) io) \<Rightarrow> (int \<Rightarrow> ('w, string option) io) \<Rightarrow>
   ('w ctx, reply) io"
where
  "whoami env find_user email =
     io_catch
       (io_bind (getUser env True) (\<lambda>user. io_bind get_req (\<lambda>req.
        io_bind (on_world (find_user req (case user of None \<Rightarrow> None | Some u \<Rightarrow> cr_actor u))) (\<lambda>found.
          case found of
            None \<Rightarrow> io_return (ReplyJson (json_opt JNum ''id'' (case user of None \<Rightarrow> None | Some u \<Rightarrow> cr_id u)))
          | Some (userId, username) \<Rightarrow>
              io_bind (on_world (email userId)) (\<lambda>address.
                io_return (ReplyJson ([(''id'', JNum userId), (''username'', JStr username)] @
                  [(''email'', case address of None \<Rightarrow> JNull | Some a \<Rightarrow> JStr a)])))))))
       (\<lambda>err. io_return (handled err))"

record actor_info =
  ac_id :: int
  ac_users :: "(int \<times> string \<times> string option) list"
  ac_applications :: "(int \<times> string) list"
  ac_devices :: "(int \<times> string) list"

definition actorWhoami ::
  "(request \<Rightarrow> int \<Rightarrow> ('w, int option) io) \<Rightarrow> (int \<Rightarrow> ('w, actor_info option) io) \<Rightarrow> ('w ctx, reply) io"
where
  "actorWhoami find_user find_actor =
     io_catch
       (io_bind get_req (\<lambda>req.
          let user_actor = (case rq_user req of None \<Rightarrow> None | Some u \<Rightarrow> cr_actor u)
          in io_bind (case user_actor of
                        None \<Rightarrow> io_return ()
                      | Some a \<Rightarrow> io_bind (on_world (find_user req a)) (\<lambda>found.
                          if found = None then io_throw UnauthorizedError else io_return ())) (\<lambda>_.
             case (case rq_apiKey req of Some k \<Rightarrow> Some (ak_actor k) | None \<Rightarrow> user_actor) of
               None \<Rightarrow> io_throw UnauthorizedError
             | Some actorId \<Rightarrow>
                 io_bind (on_world (find_actor actorId)) (\<lambda>info.
                   case info of
                     None \<Rightarrow> io_throw UnauthorizedError
                   | Some i \<Rightarrow>
                       (let n = length (ac_users i) + length (ac_applications i) + length (ac_devices i)
                        in if n > 1 then io_throw (InternalRequestError ''associated with more than one resource'')
                           else if n < 1 then io_throw UnauthorizedError
                           else io_return (ReplyJson ((''id'', JNum (ac_id i)) #
                             (case (ac_users i, ac_applications i, ac_devices i) of
                                ([(u, name, mail)], _, _) \<Rightarrow>
                                  [(''actorType'', JStr ''user''), (''actorTypeId'', JNum u), (''username'', JStr name),
                                   (''email'', case mail of None \<Rightarrow> JNull | Some m \<Rightarrow> JStr m)]
                              | (_, [(a, slug)], _) \<Rightarrow>
                                  [(''actorType'', JStr ''application''), (''actorTypeId'', JNum a), (''slug'', JStr slug)]
                              | (_, _, [(d, uuid)]) \<Rightarrow>
                                  [(''actorType'', JStr ''device''), (''actorTypeId'', JNum d), (''uuid'', JStr uuid)]
                              | _ \<Rightarrow> [])))))) ))
       (\<lambda>err. io_return (handled err))"

section \<open>Hooks on users\<close>

text \<open>\<open>blacklist\<close> are the names that nobody may take.\<close>

definition user_parse :: "string list \<Rightarrow> json obj \<Rightarrow> json obj res" where
  "user_parse blacklist vals =
     (case map_of vals ''username'' of
        Some (JStr username) \<Rightarrow>
          (let name = normalizeHandle username
           in if name \<in> set blacklist then Inl (ConflictError ''This username is blacklisted'')
              else Inr (obj_set ''username'' (JStr name) vals))
      | _ \<Rightarrow> Inr vals)"

text \<open>\<open>affected\<close> returns the users a PATCH is about; a POST has none.\<close>

definition user_field_free ::
  "'w auth_env \<Rightarrow> ('w, int list) io option \<Rightarrow> json obj \<Rightarrow> string \<Rightarrow> ('w, unit) io"
where
  "user_field_free env affected vals field =
     (case map_of vals field of
        Some (JStr text) \<Rightarrow>
          io_bind (case affected of None \<Rightarrow> io_return None | Some ids \<Rightarrow> io_bind ids (\<lambda>is. io_return (Some is))) (\<lambda>patchedIds.
            if patchedIds = Some [] then io_return ()
            else if (case patchedIds of None \<Rightarrow> False | Some is \<Rightarrow> length is > 1)
            then io_throw (ConflictError (''The '' @ field @ '' must be unique''))
            else io_bind (findUser env text) (\<lambda>existingUser.
              case existingUser of
                None \<Rightarrow> io_return ()
              | Some u \<Rightarrow>
                  (if (case patchedIds of None \<Rightarrow> False | Some is \<Rightarrow> ur_id u = hd is) then io_return ()
                   else io_throw (ConflictError (''This '' @ field @ '' is already taken'')))))
      | _ \<Rightarrow> io_return ())"

definition user_names_free :: "'w auth_env \<Rightarrow> ('w, int list) io option \<Rightarrow> json obj \<Rightarrow> ('w, unit) io" where
  "user_names_free env affected vals =
     io_bind (io_mapM (user_field_free env affected vals) [''username'', ''email'']) (\<lambda>_. io_return ())"

definition user_secret :: "('w, string) io \<Rightarrow> bool \<Rightarrow> json obj \<Rightarrow> ('w, json obj) io" where
  "user_secret generateNewJwtSecret is_post vals =
     (if is_post \<or> map_of vals ''password'' \<noteq> None \<or> map_of vals ''username'' \<noteq> None
      then io_bind generateNewJwtSecret (\<lambda>secret. io_return (obj_set ''jwt_secret'' (JStr secret) vals))
      else io_return vals)"

text \<open>The id in the address of the request: missing, a named key, or a number.\<close>

datatype user_key = NoKey | NamedKey | IdKey int

definition user_delete_parse :: "user_key \<Rightarrow> int res" where
  "user_delete_parse key =
     (case key of
        NoKey \<Rightarrow> Inl (BadRequestError ''You must provide user ID'')
      | NamedKey \<Rightarrow> Inl (BadRequestError ''You cannot use a named key for user deletion'')
      | IdKey i \<Rightarrow> Inr i)"

definition user_delete_run :: "'w auth_env \<Rightarrow> int \<Rightarrow> ('w ctx, unit) io" where
  "user_delete_run env userId =
     io_bind (getUser env True) (\<lambda>user c.
       (case user of
          None \<Rightarrow> (Inl JsTypeError, c)
        | Some u \<Rightarrow>
            (if cr_id u \<noteq> Some userId then (Inl (BadRequestError ''You can only delete your own account''), c)
             else if \<not> checkSudoValidity (au_now env (cx_world c)) u then (Inl UnauthorizedError, c)
             else (Inr (), c))))"

text \<open>\<open>find_role\<close> looks up a role by its name, \<open>assign\<close> gives it to a user.\<close>

definition assign_default_role ::
  "(string \<Rightarrow> ('w, int option) io) \<Rightarrow> (int \<Rightarrow> int \<Rightarrow> ('w, unit) io) \<Rightarrow> string \<Rightarrow> int option \<Rightarrow> ('w, unit) io"
where
  "assign_default_role find_role assign roleName result =
     (case result of
        None \<Rightarrow> io_throw (InternalRequestError ''Unable to find created user id'')
      | Some userId \<Rightarrow>
          io_bind (find_role roleName) (\<lambda>role.
            case role of
              None \<Rightarrow> io_throw (InternalRequestError ''Unable to find the default user role'')
            | Some r \<Rightarrow> assign userId r))"

text \<open>Creating an actor for a new user, application or device (\<^verbatim>\<open>infra/auth/create-actor.ts\<close>).\<close>

definition createActor :: "('w, int) io \<Rightarrow> json obj \<Rightarrow> ('w, json obj) io" where
  "createActor post vals = io_bind post (\<lambda>i. io_return (obj_set ''actor'' (JNum i) vals))"

section \<open>Properties of sessions\<close>

lemma log_in_answers:
  assumes "log_in env onLogin resetRatelimit password u w = (Inr r, w')"
    and "\<And>v v'. au_compare env [] INVALID_HASH v \<noteq> (Inr True, v')"
  shows "\<exists>token h w2 w3 ps p. r = ReplyToken token \<and> ur_password u = Some h \<and> au_compare env password h w = (Inr True, w2) \<and>
    au_user_permissions env (ur_id u) w2 = (Inr ps, w3) \<and> ''auth.credentials_login'' \<in> set ps \<and>
    token = createJwt env p None \<and> cr_permissions p = None"
proof -
  obtain w2 where cmp: "comparePassword env password (ur_password u) w = (Inr True, w2)"
    using assms(1) by (auto simp: log_in_def io_run_iffs split: if_splits)
  obtain h where h: "ur_password u = Some h" "au_compare env password h w = (Inr True, w2)"
    using cmp assms(2) by (cases "ur_password u") (auto simp: comparePassword_def)
  obtain ps w3 where ps: "au_user_permissions env (ur_id u) w2 = (Inr ps, w3)" "''auth.credentials_login'' \<in> set ps"
    and rest: "\<exists>w4 token. loginUserXHR env (ur_id u) w4 = (Inr token, w') \<and> r = ReplyToken token"
    using assms(1) cmp by (auto simp: log_in_def io_run_iffs split: if_splits)
  obtain w4 token where token: "loginUserXHR env (ur_id u) w4 = (Inr token, w')" "r = ReplyToken token"
    using rest by auto
  obtain p w5 where p: "getUserTokenData env (ur_id u) None w4 = (Inr p, w5)" "token = createJwt env p None"
    using token(1) by (auto simp: loginUserXHR_def createSessionToken_def io_run_iffs)
  obtain found w6 where "au_user_row env (ur_id u) w4 = (Inr found, w6)"
    using p(1) by (auto simp: getUserTokenData_def io_run_iffs)
  then have "cr_permissions p = None"
    using p(1) by (cases found) (auto simp: getUserTokenData_def io_bind_def io_throw_def Let_def no_creds_def)
  then show ?thesis using token(2) h ps p(2) by blast
qed

text \<open>
  Claim C38. A login is answered with a token only if the user was found, the password matches the user's hash and the
  user may log in with credentials, and the token carries no permissions of its own; everything else, an unknown
  user as a wrong password, is answered with 401.
\<close>

theorem login_answers:
  assumes "\<And>v v'. au_compare env [] INVALID_HASH v \<noteq> (Inr True, v')"
    and "login env onLogin resetRatelimit username password w = (r, w')"
  shows "r = Inr (ReplyStatus 401) \<or>
    (\<exists>u token w1 h w2 w3 ps p. r = Inr (ReplyToken token) \<and> findUser env username w = (Inr (Some u), w1) \<and>
       ur_password u = Some h \<and> au_compare env password h w1 = (Inr True, w2) \<and>
       au_user_permissions env (ur_id u) w2 = (Inr ps, w3) \<and> ''auth.credentials_login'' \<in> set ps \<and>
       token = createJwt env p None \<and> cr_permissions p = None)"
proof (cases "username \<noteq> [] \<and> password \<noteq> []")
  case False
  then show ?thesis using assms(2) by (auto simp: login_def io_return_def)
next
  case True
  obtain ru w1 where find: "findUser env username w = (ru, w1)" by (cases "findUser env username w")
  show ?thesis
  proof (cases "\<exists>u. ru = Inr (Some u)")
    case False
    then show ?thesis
      using assms(2) True find
      by (cases ru) (auto simp: login_def io_catch_def io_bind_def io_throw_def io_return_def split: option.splits)
  next
    case True
    then obtain u where u: "ru = Inr (Some u)" by auto
    obtain rl w2 where l: "log_in env onLogin resetRatelimit password u w1 = (rl, w2)"
      by (cases "log_in env onLogin resetRatelimit password u w1")
    have r: "r = (case rl of Inl e \<Rightarrow> Inr (ReplyStatus 401) | Inr x \<Rightarrow> Inr x)"
      using assms(2) \<open>username \<noteq> [] \<and> password \<noteq> []\<close> find u l
      by (cases rl) (auto simp: login_def io_catch_def io_bind_def io_return_def)
    show ?thesis
    proof (cases rl)
      case (Inr x)
      then have "log_in env onLogin resetRatelimit password u w1 = (Inr x, w2)" using l by simp
      from log_in_answers [OF this assms(1)] show ?thesis using r Inr find u by auto
    qed (use r in simp)
  qed
qed

definition demo_login_env :: "user_row list auth_env" where
  "demo_login_env = (mem_auth_env (\<lambda>_. None) (\<lambda>p e. ''token''))\<lparr>au_find := (\<lambda>f s w. (Inr (filter (\<lambda>u. ur_username u = s) w), w)),
     au_user_permissions := (\<lambda>i w. (Inr [''auth.credentials_login''], w)),
     au_compare := (\<lambda>p h w. (Inr (h = ''hash of '' @ p), w))\<rparr>"

theorem login_answers_witness:
  "\<exists>w'. login demo_login_env None None ''joe'' ''secret'' [demo_user\<lparr>ur_password := Some ''hash of secret''\<rparr>] =
     (Inr (ReplyToken ''token''), w')"
proof -
  have invalid: "au_compare demo_login_env [] INVALID_HASH v \<noteq> (Inr True, v')" for v v'
    by (simp add: demo_login_env_def INVALID_HASH_def)
  obtain r w' where run: "login demo_login_env None None ''joe'' ''secret'' [demo_user\<lparr>ur_password := Some ''hash of secret''\<rparr>] =
      (r, w')" by (cases "login demo_login_env None None ''joe'' ''secret'' [demo_user\<lparr>ur_password := Some ''hash of secret''\<rparr>]")
  have "r \<noteq> Inr (ReplyStatus 401)"
    using run by (auto simp: login_def findUser_def log_in_def comparePassword_def demo_login_env_def mem_auth_env_def
        demo_user_def io_simps loginUserXHR_def createSessionToken_def getUserTokenData_def mem_user_def Let_def)
  then show ?thesis
    using login_answers [OF invalid run] run
    by (auto simp: createJwt_def demo_login_env_def mem_auth_env_def split: prod.splits)
qed

text \<open>
  The hook that deletes users lets only a user pass who deletes the own account and has logged in within
  the last twenty minutes.
\<close>

lemma delete_own_account_only:
  assumes "user_delete_run env userId c = (Inr (), c')"
  shows "\<exists>u t. getUser env True c = (Inr (Some u), c') \<and> cr_id u = Some userId \<and> cr_authTime u = Some t \<and>
    au_now env (cx_world c') - t < 20 * 60 * 1000"
proof -
  obtain user where user: "getUser env True c = (Inr user, c')" "user \<noteq> None"
    using assms by (auto simp: user_delete_run_def io_run_iffs split: option.split_asm if_split_asm)
  then obtain u where "user = Some u" by auto
  then show ?thesis
    using assms user
    by (auto simp: user_delete_run_def io_bind_def checkSudoValidity_def SUDO_TOKEN_VALIDITY_def Let_def
        split: option.splits if_splits)
qed

end
