(* ===== verification/ApiRoles.thy ===== *)
theory ApiRoles
  imports Credentials
begin

text \<open>
  The permissions of the default roles and keys (\<^verbatim>\<open>src/lib/auth.ts\<close>), as the texts the permissions library reads.
  \<open>ignore\<close> is the setting that frozen devices keep their permissions.
\<close>

section \<open>Parts of permissions\<close>

definition writePerms :: "string \<Rightarrow> string \<Rightarrow> string list \<Rightarrow> string list" where
  "writePerms resource filter_text access = map (\<lambda>verb. resource @ ''.'' @ verb @ ''?'' @ filter_text) access"

definition matchesActor :: string where
  "matchesActor = ''actor eq @__ACTOR_ID''"

definition matchesUser :: string where
  "matchesUser = ''user/any(u:u/'' @ matchesActor @ '')''"

definition matchesNonFrozenDeviceActor :: "bool \<Rightarrow> string \<Rightarrow> string" where
  "matchesNonFrozenDeviceActor ignore alias =
     (let path = (if alias \<noteq> [] then alias @ ''/'' else alias);
          andIsNotFrozen = (if \<not> ignore then '' and not '' @ path @ ''is_frozen'' else [])
      in path @ matchesActor @ andIsNotFrozen)"

definition ownsDevice :: string where
  "ownsDevice = ''owns__device/any(d:d/'' @ matchesActor @ '')''"

section \<open>Roles\<close>

definition PROVISIONING_KEY_PERMISSIONS :: "string list" where
  "PROVISIONING_KEY_PERMISSIONS =
     [''resin.device.create?belongs_to__application/any(a:a/'' @ matchesActor @ '')'']"

definition NAMED_USER_KEY_PERMISSIONS :: "string list" where
  "NAMED_USER_KEY_PERMISSIONS =
     [''resin.actor.delete?id eq @__ACTOR_ID'',
      ''resin.api_key.read?is_of__actor eq @__ACTOR_ID'',
      ''resin.application.all'',
      ''resin.application.supervisor-proxy-write'',
      ''resin.device_type.read'',
      ''resin.device_type_alias.read'',
      ''resin.cpu_architecture.read'',
      ''resin.application_config_variable.all'',
      ''resin.application_environment_variable.all'',
      ''resin.application_tag.all'',
      ''resin.application_type.all'',
      ''resin.device.all'',
      ''resin.device.supervisor-proxy-write'',
      ''resin.device.tunnel-22222'',
      ''resin.device_config_variable.all'',
      ''resin.device_environment_variable.all'',
      ''resin.device_tag.all'',
      ''resin.device_service_environment_variable.all'',
      ''resin.image.all'',
      ''resin.image__is_part_of__release.all'',
      ''resin.image_environment_variable.all'',
      ''resin.image_install.all'',
      ''resin.image_label.all'',
      ''resin.image_profile.all'',
      ''resin.application_profile.all'',
      ''resin.organization.read'',
      ''resin.organization_membership.read'',
      ''resin.release.all'',
      ''resin.release_tag.all'',
      ''resin.service.all'',
      ''resin.service_environment_variable.all'',
      ''resin.service_install.all'',
      ''resin.service_instance.read?service_type eq '' @ [CHR 0x27] @ ''vpn'' @ [CHR 0x27],
      ''resin.service_label.all'',
      ''resin.user.read'',
      ''resin.user__has__public_key.all?'' @ matchesUser,
      ''resin.release_asset.all'']"

definition DEVICE_API_KEY_PERMISSIONS :: "bool \<Rightarrow> string list" where
  "DEVICE_API_KEY_PERMISSIONS ignore =
     [''resin.device_type.read?describes__device/canAccess()'',
      ''resin.device.read?'' @ matchesNonFrozenDeviceActor ignore [],
      ''resin.device.supervisor-proxy-write?'' @ matchesNonFrozenDeviceActor ignore [],
      ''resin.device.update?'' @ matchesNonFrozenDeviceActor ignore [],
      ''resin.application.read?owns__device/canAccess() or (is_public and is_for__device_type/any(dt:dt/describes__device/canAccess()))'',
      ''resin.application_tag.read?application/canAccess()'',
      ''resin.device_config_variable.read?device/canAccess()'',
      ''resin.device_config_variable.create?device/any(d:'' @ matchesNonFrozenDeviceActor ignore ''d'' @ '')'',
      ''resin.device_config_variable.update?device/any(d:'' @ matchesNonFrozenDeviceActor ignore ''d'' @ '')'',
      ''resin.device_tag.read?device/canAccess()''] @
     writePerms (''resin.device_tag'') (''device/any(d:'' @ matchesNonFrozenDeviceActor ignore ''d'' @ '')'') [''create'', ''update'', ''delete''] @
     [''resin.application_config_variable.read?application/canAccess()'',
      ''resin.release.read?is_pinned_to__device/canAccess() or belongs_to__application/canAccess()'',
      ''resin.release_tag.read?release/canAccess()'',
      ''resin.device_environment_variable.read?device/canAccess()''] @
     writePerms (''resin.device_environment_variable'') (''device/any(d:'' @ matchesNonFrozenDeviceActor ignore ''d'' @ '')'') [''create'', ''update'', ''delete''] @
     [''resin.application_environment_variable.read?application/canAccess()'',
      ''resin.service.read?application/canAccess() or is_built_by__image/canAccess()'',
      ''resin.service_install.read?device/canAccess()'',
      ''resin.service_install.create?device/any(d:'' @ matchesNonFrozenDeviceActor ignore ''d'' @ '') and installs__service/any(s:s/application/any(a:a/owns__device/any(d:d/'' @ matchesActor @ '') or (a/is_public and a/owns__release/any(r:r/should_manage__device/any(d:d/'' @ matchesActor @ '') or r/should_operate__device/any(d:d/'' @ matchesActor @ '')))))''] @
     writePerms (''resin.service_install'') (''device/any(d:'' @ matchesNonFrozenDeviceActor ignore ''d'' @ '')'') [''update'', ''delete''] @
     [''resin.service_environment_variable.read?service/canAccess()'',
      ''resin.device_service_environment_variable.read?device/canAccess()'',
      ''resin.device_service_environment_variable.create?device/any(d:'' @ matchesNonFrozenDeviceActor ignore ''d'' @ '') and service/any(s:s/application/any(a:a/owns__device/any(d:d/'' @ matchesActor @ '') or (a/is_public and a/owns__release/any(r:r/should_manage__device/any(d:d/'' @ matchesActor @ '') or r/should_operate__device/any(d:d/'' @ matchesActor @ '')))))''] @
     writePerms (''resin.device_service_environment_variable'') (''device/any(d:'' @ matchesNonFrozenDeviceActor ignore ''d'' @ '')'') [''update'', ''delete''] @
     [''resin.image__is_part_of__release.read?is_part_of__release/canAccess()'',
      ''resin.image.read?image_install/canAccess() or image__is_part_of__release/canAccess()'',
      ''resin.image_install.read?device/canAccess()'',
      ''resin.image_install.create?device/any(d:'' @ matchesNonFrozenDeviceActor ignore ''d'' @ '') and installs__image/any(i:i/image__is_part_of__release/any(ipr:ipr/is_part_of__release/any(r:r/belongs_to__application/any(a:a/'' @ ownsDevice @ '' or a/is_public))))'',
      ''resin.image_install.update?device/any(d:'' @ matchesNonFrozenDeviceActor ignore ''d'' @ '')'',
      ''resin.image_label.read?release_image/canAccess()'',
      ''resin.image_profile.read?release_image/canAccess()'',
      ''resin.application_profile.read?application/canAccess()'',
      ''resin.service_label.read?service/canAccess()'',
      ''resin.image_environment_variable.read?release_image/canAccess()'',
      ''resin.device.cloudlink?'' @ matchesActor,
      ''resin.device.write-log?'' @ matchesNonFrozenDeviceActor ignore []]"

definition DEFAULT_USER_EXTRA_PERMISSIONS :: "string list" where
  "DEFAULT_USER_EXTRA_PERMISSIONS =
     [''auth.create_token'',
      ''auth.credentials_login'',
      ''resin.user.create-user-api-key?'' @ matchesActor,
      ''resin.user.create-named-user-api-key?'' @ matchesActor,
      ''resin.api_key.update?is_of__actor eq @__ACTOR_ID'',
      ''resin.api_key.delete?is_of__actor eq @__ACTOR_ID'']"

definition ROLES :: "bool \<Rightarrow> string list obj" where
  "ROLES ignore =
     [(''provisioning-api-key'', PROVISIONING_KEY_PERMISSIONS),
      (''named-user-api-key'', NAMED_USER_KEY_PERMISSIONS),
      (''device-api-key'', DEVICE_API_KEY_PERMISSIONS ignore @ [''resin.user__has__public_key.read'']),
      (''default-user'', NAMED_USER_KEY_PERMISSIONS @ DEFAULT_USER_EXTRA_PERMISSIONS)]"

text \<open>The keys of services, with the keys the configuration gives them.\<close>

definition KEYS :: "string option \<Rightarrow> string option \<Rightarrow> string option \<Rightarrow> (string option \<times> string list) obj" where
  "KEYS api_vpn_key vpn_key vpn_guest_key =
     [(''service.api'', (api_vpn_key, [''service.api'', ''resin.device.tunnel-48484''])),
      (''service.vpn'', (vpn_key, [''service'', ''service.vpn'', ''resin.device.read'', ''resin.device.update'',
         ''resin.service_instance.create'', ''resin.service_instance.update'']))] @
     (if vpn_guest_key \<noteq> None then [(''service.vpn-guest'', (vpn_guest_key, [''service'', ''service.vpn-guest'']))] else [])"

definition SERVICE_PREFIX :: string where
  "SERVICE_PREFIX = ''service.''"

text \<open>As the permission found starts with the prefix, replacing its first occurrence drops it.\<close>

definition getServiceFromRequest :: "request \<Rightarrow> string option" where
  "getServiceFromRequest req =
     (case rq_apiKey req of
        None \<Rightarrow> None
      | Some k \<Rightarrow>
          (case ak_permissions k of
             None \<Rightarrow> None
           | Some ps \<Rightarrow>
               map_option (drop (length SERVICE_PREFIX)) (find (\<lambda>p. js_startsWith p SERVICE_PREFIX) ps)))"

section \<open>What the keys of devices may write\<close>

text \<open>The verb of a permission, and its filter.\<close>

definition perm_verb :: "string \<Rightarrow> string" where
  "perm_verb p = last (js_split (CHR ''.'') (takeWhile (\<lambda>c. c \<noteq> CHR ''?'') p))"

definition perm_filter :: "string \<Rightarrow> string" where
  "perm_filter p = tl (dropWhile (\<lambda>c. c \<noteq> CHR ''?'') p)"

definition perm_writes :: "string \<Rightarrow> bool" where
  "perm_writes p \<longleftrightarrow> perm_verb p \<in> {''create'', ''update'', ''delete'', ''all'', ''write-log'', ''supervisor-proxy-write''}"

text \<open>
  A filter that a device passes only when it is the actor and not frozen: the condition itself, or the condition on
  the device of a row, alone or with more that must hold as well.
\<close>

definition needs_unfrozen :: "string \<Rightarrow> bool" where
  "needs_unfrozen f \<longleftrightarrow>
     f = ''actor eq @__ACTOR_ID and not is_frozen'' \<or>
     f = ''device/any(d:d/actor eq @__ACTOR_ID and not d/is_frozen)'' \<or>
     js_startsWith f ''device/any(d:d/actor eq @__ACTOR_ID and not d/is_frozen) and ''"



text \<open>A named key of a user has no way to get further tokens or keys, which the user itself has.\<close>

lemma named_keys_limited:
  "''auth.create_token'' \<in> set (the (map_of (ROLES ignore) ''default-user''))"
  "set (the (map_of (ROLES ignore) ''named-user-api-key'')) \<subset> set (the (map_of (ROLES ignore) ''default-user''))"
  "''auth.create_token'' \<notin> set (the (map_of (ROLES ignore) ''named-user-api-key''))"
  "list_all (\<lambda>p. \<not> js_startsWith p ''resin.api_key.'' \<or> js_startsWith p ''resin.api_key.read'')
     (the (map_of (ROLES ignore) ''named-user-api-key''))"
proof -
  have roles: "map_of (ROLES ignore) ''default-user'' = Some (NAMED_USER_KEY_PERMISSIONS @ DEFAULT_USER_EXTRA_PERMISSIONS)"
    "map_of (ROLES ignore) ''named-user-api-key'' = Some NAMED_USER_KEY_PERMISSIONS"
    by (simp_all add: ROLES_def)
  have t: "''auth.create_token'' \<in> set DEFAULT_USER_EXTRA_PERMISSIONS" "''auth.create_token'' \<notin> set NAMED_USER_KEY_PERMISSIONS"
    "list_all (\<lambda>p. \<not> js_startsWith p ''resin.api_key.'' \<or> js_startsWith p ''resin.api_key.read'') NAMED_USER_KEY_PERMISSIONS"
    by code_simp+
  show "''auth.create_token'' \<in> set (the (map_of (ROLES ignore) ''default-user''))"
    "set (the (map_of (ROLES ignore) ''named-user-api-key'')) \<subset> set (the (map_of (ROLES ignore) ''default-user''))"
    "''auth.create_token'' \<notin> set (the (map_of (ROLES ignore) ''named-user-api-key''))"
    "list_all (\<lambda>p. \<not> js_startsWith p ''resin.api_key.'' \<or> js_startsWith p ''resin.api_key.read'')
      (the (map_of (ROLES ignore) ''named-user-api-key''))"
    using t by (auto simp: roles)
qed

end
