(* ===== verification/Permissions.thy ===== *)
theory Permissions
  imports Utils
begin

text \<open>
  Roles, permissions and the keys of services in the database (\<^verbatim>\<open>src/infra/auth/permissions.ts\<close>), which are brought
  in line with the tables of the code when the API starts, and the helpers that look up a row or insert it
  (\<^verbatim>\<open>src/infra/pinejs-client-helpers\<close>).

  Queries are fields of an environment.  What runs at the same time in the code runs one after the other here.
\<close>

section \<open>Looking up or inserting\<close>

text \<open>\<open>get\<close> returns the ids of the rows that match.\<close>

definition getOrInsertId :: "('w, int list) io \<Rightarrow> ('w, int) io \<Rightarrow> ('w, int) io" where
  "getOrInsertId get post =
     io_bind get (\<lambda>results. case results of [] \<Rightarrow> post | i # _ \<Rightarrow> io_return i)"

definition updateOrInsert :: "('w, int list) io \<Rightarrow> ('w, int) io \<Rightarrow> (int \<Rightarrow> ('w, unit) io) \<Rightarrow> ('w, int) io" where
  "updateOrInsert get post patch =
     io_bind get (\<lambda>results.
       case results of
         [] \<Rightarrow> post
       | [i] \<Rightarrow> io_bind (patch i) (\<lambda>_. io_return i)
       | _ \<Rightarrow> io_throw (JsError ''updateOrInsert filter not unique''))"

section \<open>The environment\<close>

record 'w perm_env =
  pe_permissions :: "string list \<Rightarrow> ('w, (int \<times> string) list) io"
  pe_post_permission :: "string \<Rightarrow> ('w, int) io"
  pe_role_ids :: "string \<Rightarrow> ('w, int list) io"
  pe_post_role :: "string \<Rightarrow> ('w, int) io"
  pe_role_permissions :: "int \<Rightarrow> int list \<Rightarrow> ('w, int list) io"
  pe_post_role_permission :: "int \<Rightarrow> int \<Rightarrow> ('w, unit) io"
  pe_delete_role_permissions_except :: "int \<Rightarrow> int list \<Rightarrow> ('w, unit) io"
  pe_delete_stale :: "int list \<Rightarrow> ('w, unit) io"
  pe_find_user :: "string \<Rightarrow> ('w, int option) io"
  pe_assign_user_role :: "int \<Rightarrow> int \<Rightarrow> ('w, unit) io"
  pe_guest_actor :: "('w, int) io"
  pe_keys :: "int \<Rightarrow> int \<Rightarrow> ('w, (int \<times> string) list) io"
  pe_random :: "('w, string) io"
  pe_post_key :: "int \<Rightarrow> string \<Rightarrow> ('w, int) io"
  pe_post_key_role :: "int \<Rightarrow> int \<Rightarrow> ('w, unit) io"
  pe_patch_key :: "int \<Rightarrow> string \<Rightarrow> ('w, unit) io"
  pe_names_of_roles :: "string list \<Rightarrow> ('w, string list) io"

definition getOrInsertRoleId :: "'w perm_env \<Rightarrow> string \<Rightarrow> ('w, int) io" where
  "getOrInsertRoleId env name = getOrInsertId (pe_role_ids env name) (pe_post_role env name)"

definition getOrInsertPermissionId :: "'w perm_env \<Rightarrow> string \<Rightarrow> ('w, int) io" where
  "getOrInsertPermissionId env name =
     getOrInsertId (io_bind (pe_permissions env [name]) (\<lambda>ps. io_return (map fst ps))) (pe_post_permission env name)"

definition assignRolePermission :: "'w perm_env \<Rightarrow> int \<Rightarrow> int \<Rightarrow> ('w, unit) io" where
  "assignRolePermission env role permission =
     io_bind (pe_role_permissions env role [permission]) (\<lambda>found.
       case found of [] \<Rightarrow> pe_post_role_permission env role permission | _ \<Rightarrow> io_return ())"

definition assignRolePermissions :: "'w perm_env \<Rightarrow> int \<Rightarrow> string list \<Rightarrow> ('w, unit) io" where
  "assignRolePermissions env roleId rolePermissions =
     io_bind (io_mapM (\<lambda>name. io_bind (getOrInsertPermissionId env name) (assignRolePermission env roleId)) rolePermissions)
       (\<lambda>_. io_return ())"

text \<open>The function behind the cache of the permissions of roles.\<close>

definition getRolePermissions :: "'w perm_env \<Rightarrow> string list \<Rightarrow> ('w, string list) io" where
  "getRolePermissions env roleNames =
     (if length roleNames = 0 then io_return [] else pe_names_of_roles env roleNames)"

section \<open>Keys of services\<close>

definition getOrInsertApiKey :: "'w perm_env \<Rightarrow> int \<Rightarrow> int \<Rightarrow> ('w, int \<times> string) io" where
  "getOrInsertApiKey env actorId role =
     io_bind (pe_keys env actorId role) (\<lambda>apiKeys.
       case apiKeys of
         [] \<Rightarrow>
           io_bind (pe_random env) (\<lambda>key.
           io_bind (pe_post_key env actorId key) (\<lambda>i.
           io_bind (pe_post_key_role env i role) (\<lambda>_. io_return (i, key))))
       | k # _ \<Rightarrow> io_return k)"

definition setApiKey :: "'w perm_env \<Rightarrow> string \<Rightarrow> string list \<Rightarrow> string \<Rightarrow> ('w, int \<times> string) io" where
  "setApiKey env roleName apiKeyPermissions key =
     io_bind (getOrInsertRoleId env roleName) (\<lambda>role.
     io_bind (assignRolePermissions env role apiKeyPermissions) (\<lambda>_.
     io_bind (pe_guest_actor env) (\<lambda>guestActorId.
     io_bind (getOrInsertApiKey env guestActorId role) (\<lambda>(i, old).
       if key \<noteq> [] then io_bind (pe_patch_key env i key) (\<lambda>_. io_return (i, key)) else io_return (i, old)))))"

section \<open>All permissions\<close>

text \<open>The ids of the permissions named, after the missing ones have been inserted.\<close>

definition permission_id :: "'w perm_env \<Rightarrow> int obj \<Rightarrow> string \<Rightarrow> ('w, string \<times> int) io" where
  "permission_id env permissionsMap name =
     (case map_of permissionsMap name of
        Some i \<Rightarrow> io_return (name, i)
      | None \<Rightarrow> io_bind (pe_post_permission env name) (\<lambda>i. io_return (name, i)))"

definition permissionsCache :: "'w perm_env \<Rightarrow> string list \<Rightarrow> ('w, int obj) io" where
  "permissionsCache env permissionNames =
     io_bind (pe_permissions env permissionNames) (\<lambda>perms.
       io_bind (io_mapM (permission_id env (rev (map (\<lambda>(i, name). (name, i)) perms))) permissionNames) (\<lambda>ids.
         io_return (foldl (\<lambda>result (name, i). obj_set name i result) [] ids)))"

text \<open>\<^verbatim>\<open>Object.values(_.pick(cache, names))\<close>\<close>

definition picked :: "int obj \<Rightarrow> string list \<Rightarrow> int list" where
  "picked cache names = List.map_filter (map_of cache) (remdups names)"

definition createRolePermissions :: "'w perm_env \<Rightarrow> int obj \<Rightarrow> string \<Rightarrow> string list \<Rightarrow> ('w, int) io" where
  "createRolePermissions env cache roleName rolePermissionNames =
     io_bind (getOrInsertRoleId env roleName) (\<lambda>role.
       if length rolePermissionNames = 0 then io_return role
       else let perms = picked cache rolePermissionNames
            in io_bind (pe_role_permissions env role perms) (\<lambda>rolePermissionIds.
               io_bind (io_mapM (pe_post_role_permission env role)
                          (filter (\<lambda>p. p \<notin> set rolePermissionIds) perms)) (\<lambda>_.
               io_bind (pe_delete_role_permissions_except env role perms) (\<lambda>_. io_return role))))"

definition assign_users :: "'w perm_env \<Rightarrow> int option \<Rightarrow> string \<Rightarrow> ('w, unit) io" where
  "assign_users env role email =
     io_catch (io_bind (pe_find_user env email) (\<lambda>user.
       case user of
         None \<Rightarrow> io_throw (JsError (''User '' @ email @ '' not found.''))
       | Some i \<Rightarrow> (case role of None \<Rightarrow> io_throw JsTypeError | Some r \<Rightarrow> pe_assign_user_role env i r))) (\<lambda>_. io_return ())"

definition createRoles ::
  "'w perm_env \<Rightarrow> int obj \<Rightarrow> string list obj \<Rightarrow> string list obj \<Rightarrow> ('w, int obj) io"
where
  "createRoles env cache roleMap userMap =
     io_bind (io_mapM (\<lambda>(roleName, names).
         io_bind (createRolePermissions env cache roleName names) (\<lambda>i. io_return (roleName, i))) roleMap) (\<lambda>resolvedRoleMap.
     io_bind (io_mapM (\<lambda>(roleName, userEmails).
         io_mapM (assign_users env (map_of resolvedRoleMap roleName)) userEmails) userMap) (\<lambda>_.
     io_bind (pe_delete_stale env (map snd cache)) (\<lambda>_. io_return resolvedRoleMap)))"

definition createKey :: "'w perm_env \<Rightarrow> int obj \<Rightarrow> string \<times> string option \<times> string list \<Rightarrow> ('w, string option) io" where
  "createKey env cache entry =
     (case entry of (roleName, key, apiKeyPermissions) \<Rightarrow>
        io_catch
          (io_bind (createRolePermissions env cache roleName apiKeyPermissions) (\<lambda>role.
           io_bind (pe_guest_actor env) (\<lambda>guestActorId.
           io_bind (getOrInsertApiKey env guestActorId role) (\<lambda>(i, old).
             case key of
               None \<Rightarrow> io_return (Some old)
             | Some [] \<Rightarrow> io_return (Some old)
             | Some k \<Rightarrow> io_bind (pe_patch_key env i k) (\<lambda>_. io_return (Some k))))))
          (\<lambda>_. io_return None))"

definition createAllPermissions ::
  "'w perm_env \<Rightarrow> string list \<Rightarrow> string list obj \<Rightarrow> (string option \<times> string list) obj \<Rightarrow> string list obj \<Rightarrow>
   ('w, int obj \<times> string option list) io"
where
  "createAllPermissions env permissionNames roleMap apiKeyMap userMap =
     io_bind (permissionsCache env permissionNames) (\<lambda>cache.
     io_bind (createRoles env cache roleMap userMap) (\<lambda>roles.
     io_bind (io_mapM (createKey env cache) apiKeyMap) (\<lambda>apiKeys. io_return (roles, apiKeys))))"

section \<open>The database\<close>

text \<open>
  The view: the name of a permission, the id of a role, and which role has which permission.  Names of permissions
  and ids of roles are unique.
\<close>

record perm_view =
  pv_perm :: "int \<Rightarrow> string option"
  pv_role :: "string \<Rightarrow> int option"
  pv_has :: "(int \<times> int) set"

locale perm_db =
  fixes env :: "'w perm_env"
    and view :: "'w \<Rightarrow> perm_view"
  assumes role_inj: "pv_role (view w) a = Some i \<Longrightarrow> pv_role (view w) b = Some i \<Longrightarrow> a = b"
    and permissions: "pe_permissions env ns w = (Inr ps, w') \<Longrightarrow>
      view w' = view w \<and> set ps = {(i, n). pv_perm (view w) i = Some n \<and> n \<in> set ns}"
    and post_permission: "pe_post_permission env n w = (Inr i, w') \<Longrightarrow>
      pv_perm (view w) i = None \<and> view w' = (view w)\<lparr>pv_perm := (pv_perm (view w))(i \<mapsto> n)\<rparr>"
    and role_ids: "pe_role_ids env n w = (Inr rs, w') \<Longrightarrow>
      view w' = view w \<and> (case rs of [] \<Rightarrow> True | r # _ \<Rightarrow> pv_role (view w) n = Some r)"
    and post_role: "pe_post_role env n w = (Inr i, w') \<Longrightarrow>
      pv_role (view w) n = None \<and> view w' = (view w)\<lparr>pv_role := (pv_role (view w))(n \<mapsto> i)\<rparr>"
    and role_permissions: "pe_role_permissions env r is w = (Inr found, w') \<Longrightarrow>
      view w' = view w \<and> set found = {i \<in> set is. (r, i) \<in> pv_has (view w)}"
    and post_role_permission: "pe_post_role_permission env r i w = (Inr u, w') \<Longrightarrow>
      view w' = (view w)\<lparr>pv_has := insert (r, i) (pv_has (view w))\<rparr>"
    and delete_except: "pe_delete_role_permissions_except env r is w = (Inr u, w') \<Longrightarrow>
      view w' = (view w)\<lparr>pv_has := {(q, i) \<in> pv_has (view w). q = r \<longrightarrow> i \<in> set is}\<rparr>"
    and delete_stale: "pe_delete_stale env is w = (Inr u, w') \<Longrightarrow>
      view w' = (view w)\<lparr>pv_perm := (\<lambda>i. if (\<exists>r. (r, i) \<in> pv_has (view w)) \<or> i \<in> set is then pv_perm (view w) i
        else pv_perm (view w') i)\<rparr>"
    and find_user: "keeps view (pe_find_user env email)"
    and assign_user: "keeps view (pe_assign_user_role env i r)"
    and guest: "keeps view (pe_guest_actor env)"
    and keys: "keeps view (pe_keys env actor r)"
    and random: "keeps view (pe_random env)"
    and post_key: "keeps view (pe_post_key env actor k)"
    and post_key_role: "keeps view (pe_post_key_role env i r)"
    and patch_key: "keeps view (pe_patch_key env i k)"
begin

lemma role_id:
  assumes "getOrInsertRoleId env n w = (Inr r, w')"
  shows "pv_role (view w') n = Some r \<and> pv_has (view w') = pv_has (view w) \<and> pv_perm (view w') = pv_perm (view w) \<and>
    (\<forall>m i. pv_role (view w) m = Some i \<longrightarrow> pv_role (view w') m = Some i)"
proof -
  obtain rs w1 where rs: "pe_role_ids env n w = (Inr rs, w1)"
    "(case rs of [] \<Rightarrow> pe_post_role env n | i # _ \<Rightarrow> io_return i) w1 = (Inr r, w')"
    using assms by (auto simp: getOrInsertRoleId_def getOrInsertId_def io_bind_Inr_iff)
  show ?thesis
  proof (cases rs)
    case Nil
    then show ?thesis using rs(2) post_role [of n w1 r w'] role_ids [OF rs(1)] by auto
  next
    case (Cons i rest)
    then show ?thesis using rs(2) role_ids [OF rs(1)] by (auto simp: io_return_Inr_iff)
  qed
qed

lemma post_all:
  assumes "io_mapM (pe_post_role_permission env r) ps w = (Inr us, w')"
  shows "view w' = (view w)\<lparr>pv_has := pv_has (view w) \<union> {r} \<times> set ps\<rparr>"
  using assms
proof (induction ps arbitrary: w us)
  case Nil
  then show ?case by (simp add: io_return_Inr_iff)
next
  case (Cons p ps)
  then obtain u w1 us' where "pe_post_role_permission env r p w = (Inr u, w1)"
    "io_mapM (pe_post_role_permission env r) ps w1 = (Inr us', w')"
    by (auto simp: io_run_iffs)
  then show ?case using Cons.IH post_role_permission by auto
qed

text \<open>The permissions of a role, and that the other roles keep theirs.\<close>

lemma role_created:
  assumes "createRolePermissions env cache n names w = (Inr r, w')"
  shows "pv_role (view w') n = Some r \<and> pv_perm (view w') = pv_perm (view w) \<and>
    (\<forall>m i. pv_role (view w) m = Some i \<longrightarrow> pv_role (view w') m = Some i) \<and>
    (names \<noteq> [] \<longrightarrow> {i. (r, i) \<in> pv_has (view w')} = set (picked cache names)) \<and>
    (names = [] \<longrightarrow> pv_has (view w') = pv_has (view w)) \<and>
    (\<forall>q i. q \<noteq> r \<longrightarrow> (q, i) \<in> pv_has (view w') \<longleftrightarrow> (q, i) \<in> pv_has (view w))"
proof -
  obtain w1 where r: "getOrInsertRoleId env n w = (Inr r, w1)"
    and rest: "names \<noteq> [] \<Longrightarrow> \<exists>found w2 us w3 u. pe_role_permissions env r (picked cache names) w1 = (Inr found, w2) \<and>
      io_mapM (pe_post_role_permission env r) (filter (\<lambda>p. p \<notin> set found) (picked cache names)) w2 = (Inr us, w3) \<and>
      pe_delete_role_permissions_except env r (picked cache names) w3 = (Inr u, w')"
    and none: "names = [] \<Longrightarrow> w' = w1"
    using assms by (auto simp: createRolePermissions_def io_run_iffs Let_def split: if_splits)
  note role = role_id [OF r]
  show ?thesis
  proof (cases "names = []")
    case True
    then show ?thesis using role none by simp
  next
    case False
    then obtain found w2 us w3 u where run: "pe_role_permissions env r (picked cache names) w1 = (Inr found, w2)"
      "io_mapM (pe_post_role_permission env r) (filter (\<lambda>p. p \<notin> set found) (picked cache names)) w2 = (Inr us, w3)"
      "pe_delete_role_permissions_except env r (picked cache names) w3 = (Inr u, w')"
      using rest by blast
    show ?thesis
      using False role role_permissions [OF run(1)] post_all [OF run(2)] delete_except [OF run(3)] by auto
  qed
qed

definition in_line :: "int obj \<Rightarrow> perm_view \<Rightarrow> string \<Rightarrow> string list \<Rightarrow> bool" where
  "in_line cache v n names \<longleftrightarrow> (\<exists>r. pv_role v n = Some r \<and>
     (names \<noteq> [] \<longrightarrow> {i. (r, i) \<in> pv_has v} = set (picked cache names)))"

lemma in_line_created:
  assumes "createRolePermissions env cache n names w = (Inr r, w')"
  shows "in_line cache (view w') n names"
    and "m \<noteq> n \<Longrightarrow> in_line cache (view w) m ms \<Longrightarrow> in_line cache (view w') m ms"
proof -
  note c = role_created [OF assms]
  show "in_line cache (view w') n names" using c by (auto simp: in_line_def)
  assume m: "m \<noteq> n" "in_line cache (view w) m ms"
  then obtain q where q: "pv_role (view w) m = Some q" "ms \<noteq> [] \<longrightarrow> {i. (q, i) \<in> pv_has (view w)} = set (picked cache ms)"
    by (auto simp: in_line_def)
  have q': "pv_role (view w') m = Some q" using c q(1) by blast
  then have "q \<noteq> r" using role_inj [of w' m q n] c m(1) by auto
  then have "{i. (q, i) \<in> pv_has (view w')} = {i. (q, i) \<in> pv_has (view w)}" using c by auto
  then show "in_line cache (view w') m ms" using q(2) q' by (auto simp: in_line_def)
qed

lemma roles_created:
  assumes "io_mapM (\<lambda>(n, names). io_bind (createRolePermissions env cache n names) (\<lambda>i. io_return (n, i))) es w = (Inr rs, w')"
    and "distinct (map fst es)"
  shows "pv_perm (view w') = pv_perm (view w) \<and> (\<forall>(n, names) \<in> set es. in_line cache (view w') n names)"
proof -
  have "pv_perm (view w') = pv_perm (view w) \<and> (\<forall>(n, names) \<in> set es. in_line cache (view w') n names) \<and>
      (\<forall>m ms. m \<notin> fst ` set es \<longrightarrow> in_line cache (view w) m ms \<longrightarrow> in_line cache (view w') m ms)"
    using assms
  proof (induction es arbitrary: w rs)
    case Nil
    then show ?case by (simp add: io_return_Inr_iff)
  next
    case (Cons e es)
    obtain n names where e: "e = (n, names)" by (cases e)
    obtain r w1 rs' where run: "createRolePermissions env cache n names w = (Inr r, w1)"
      "io_mapM (\<lambda>(n, names). io_bind (createRolePermissions env cache n names) (\<lambda>i. io_return (n, i))) es w1 = (Inr rs', w')"
      using Cons.prems(1) by (auto simp: e io_run_iffs)
    have "n \<notin> fst ` set es" "distinct (map fst es)" using Cons.prems(2) by (auto simp: e)
    then show ?case
      using Cons.IH [OF run(2)] in_line_created [OF run(1)] role_created [OF run(1)] by (auto simp: e)
  qed
  then show ?thesis by blast
qed

lemma users_assigned:
  assumes "io_mapM (\<lambda>(n, emails). io_mapM (assign_users env (map_of resolved n)) emails) userMap w = (r, w')"
  shows "view w' = view w"
proof -
  have one: "keeps view (assign_users env role email)" for role email
    using find_user assign_user
    by (auto simp: assign_users_def intro!: keeps_catch keeps_bind split: option.split)
  have "keeps view (io_mapM (\<lambda>(n, emails). io_mapM (assign_users env (map_of resolved n)) emails) userMap)"
    by (rule keeps_mapM) (auto intro!: keeps_mapM one split: option.split)
  then show ?thesis using assms by (rule keepsD)
qed

lemma key_created:
  assumes "createKey env cache (n, key, names) w = (Inr (Some k), w')"
  shows "\<exists>r w1. createRolePermissions env cache n names w = (Inr r, w1) \<and> view w' = view w1"
proof -
  have k: "keeps view (getOrInsertApiKey env a r)" for a r
    using keys random post_key post_key_role
    by (auto simp: getOrInsertApiKey_def intro!: keeps_bind split: list.split)
  define rest where "rest = (\<lambda>role. io_bind (pe_guest_actor env) (\<lambda>guestActorId.
           io_bind (getOrInsertApiKey env guestActorId role) (\<lambda>(i, old).
             case key of
               None \<Rightarrow> io_return (Some old)
             | Some [] \<Rightarrow> io_return (Some old)
             | Some k \<Rightarrow> io_bind (pe_patch_key env i k) (\<lambda>_. io_return (Some k)))))"
  have rest: "keeps view (rest role)" for role
    unfolding rest_def using guest patch_key
    by (auto intro!: keeps_bind k split: option.split list.split prod.split)
  have "io_bind (createRolePermissions env cache n names) rest w = (Inr (Some k), w')"
    using assms by (auto simp: createKey_def rest_def [symmetric] io_catch_def io_return_def split: prod.splits sum.splits)
  then obtain r w1 where "createRolePermissions env cache n names w = (Inr r, w1)" "rest r w1 = (Inr (Some k), w')"
    by (auto simp: io_bind_Inr_iff)
  then show ?thesis using keepsD [OF rest] by blast
qed

lemma keys_created:
  assumes "io_mapM (createKey env cache) es w = (Inr ks, w')" "None \<notin> set ks" "distinct (map fst es)"
  shows "pv_perm (view w') = pv_perm (view w) \<and> (\<forall>(n, key, names) \<in> set es. in_line cache (view w') n names) \<and>
    (\<forall>m ms. m \<notin> fst ` set es \<longrightarrow> in_line cache (view w) m ms \<longrightarrow> in_line cache (view w') m ms)"
  using assms
proof (induction es arbitrary: w ks)
  case Nil
  then show ?case by (simp add: io_return_Inr_iff)
next
  case (Cons e es)
  obtain n key names where e: "e = (n, key, names)" by (cases e)
  obtain k w1 ks' where run: "createKey env cache e w = (Inr k, w1)" "io_mapM (createKey env cache) es w1 = (Inr ks', w')"
    "ks = k # ks'"
    using Cons.prems(1) by (auto simp: io_run_iffs)
  obtain k' where "k = Some k'" using Cons.prems(2) run(3) by (cases k) auto
  then have "createKey env cache (n, key, names) w = (Inr (Some k'), w1)" using run(1) e by simp
  from key_created [OF this] obtain r w2 where c: "createRolePermissions env cache n names w = (Inr r, w2)" "view w1 = view w2"
    by blast
  have "n \<notin> fst ` set es" "distinct (map fst es)" "None \<notin> set ks'" using Cons.prems run(3) by (auto simp: e)
  then show ?case
    using Cons.IH [OF run(2)] in_line_created [OF c(1)] role_created [OF c(1)] c(2) by (auto simp: e)
qed

lemma cached:
  assumes "permissionsCache env ns w = (Inr cache, w')"
  shows "set (map fst cache) = set ns \<and> (\<forall>n i. map_of cache n = Some i \<longrightarrow> pv_perm (view w') i = Some n)"
proof -
  obtain ps w1 ids where run: "pe_permissions env ns w = (Inr ps, w1)"
    "io_mapM (permission_id env (rev (map (\<lambda>(i, name). (name, i)) ps))) ns w1 = (Inr ids, w')"
    "cache = foldl (\<lambda>result (name, i). obj_set name i result) [] ids"
    using assms by (auto simp: permissionsCache_def io_run_iffs)
  define m where "m = rev (map (\<lambda>(i, name). (name, i)) ps)"
  have m: "map_of m n = Some i \<Longrightarrow> pv_perm (view w1) i = Some n" for n i
    using permissions [OF run(1)] map_of_SomeD [of m n i] by (auto simp: m_def)
  have ids: "map fst ids = ns \<and> (\<forall>(n, i) \<in> set ids. pv_perm (view w') i = Some n)"
    using run(2) m unfolding m_def [symmetric]
  proof (induction ns arbitrary: w1 ids)
    case Nil
    then show ?case by (simp add: io_return_Inr_iff)
  next
    case (Cons n ns)
    obtain x w2 xs where step: "permission_id env m n w1 = (Inr x, w2)" "io_mapM (permission_id env m) ns w2 = (Inr xs, w')"
      "ids = x # xs"
      using Cons.prems(1) by (auto simp: io_run_iffs)
    obtain i where x: "x = (n, i)" "pv_perm (view w2) i = Some n"
      and old: "\<And>k a. pv_perm (view w1) a = Some k \<Longrightarrow> pv_perm (view w2) a = Some k"
    proof (cases "map_of m n")
      case None
      then obtain i where i: "pe_post_permission env n w1 = (Inr i, w2)" "x = (n, i)"
        using step(1) by (auto simp: permission_id_def io_run_iffs)
      show ?thesis by (rule that [OF i(2)]) (use post_permission [OF i(1)] in auto)
    next
      case (Some i)
      then show ?thesis using that step(1) Cons.prems(2) by (auto simp: permission_id_def io_return_Inr_iff)
    qed
    have rest: "map fst xs = ns \<and> (\<forall>(n, i) \<in> set xs. pv_perm (view w') i = Some n)"
      using Cons.IH [OF step(2)] Cons.prems(2) old by blast
    have "pv_perm (view w') i = Some n"
      using step(2) x(2)
    proof (induction ns arbitrary: w2 xs)
      case Nil
      then show ?case by (simp add: io_return_Inr_iff)
    next
      case (Cons k ns)
      obtain y w3 ys where "permission_id env m k w2 = (Inr y, w3)" "io_mapM (permission_id env m) ns w3 = (Inr ys, w')"
        using Cons.prems(1) by (auto simp: io_run_iffs)
      moreover from this have "pv_perm (view w3) i = Some n"
        using Cons.prems(2) post_permission [of k w2 _ w3]
        by (cases "map_of m k") (auto simp: permission_id_def io_run_iffs)
      ultimately show ?case using Cons.IH by blast
    qed
    then show ?case using x rest step(3) by auto
  qed
  have obj: "fst ` set (foldl (\<lambda>result (name, i). obj_set name i result) acc xs) = fst ` set acc \<union> fst ` set xs \<and>
      (\<forall>n i. map_of (foldl (\<lambda>result (name, i). obj_set name i result) acc xs) n = Some i \<longrightarrow>
         (n, i) \<in> set xs \<or> map_of acc n = Some i)" for acc and xs :: "(string \<times> int) list"
  proof (induction xs arbitrary: acc)
    case (Cons x xs)
    obtain n i where x: "x = (n, i)" by (cases x)
    have "fst ` set (obj_set n i acc) = insert n (fst ` set acc)"
      using set_keys_obj_set [of n i acc] by simp
    then show ?case using Cons.IH [of "obj_set n i acc"] by (auto simp: x map_of_obj_set split: if_splits)
  qed simp
  have "fst ` set cache = fst ` set ids" using obj [of "[]" ids] run(3) by simp
  then have "set (map fst cache) = set ns" using ids by (metis set_map)
  then show ?thesis using obj [of "[]" ids] ids run(3) by fastforce
qed

lemma all_in_line:
  assumes "createAllPermissions env ns roleMap keyMap userMap w = (Inr (roles, ks), w')" "None \<notin> set ks"
    and "distinct (map fst roleMap @ map fst keyMap)"
    and "(n, names) \<in> set roleMap \<or> (\<exists>key. (n, key, names) \<in> set keyMap)" "names \<noteq> []"
  shows "\<exists>r. pv_role (view w') n = Some r \<and>
    {p. \<exists>i. (r, i) \<in> pv_has (view w') \<and> pv_perm (view w') i = Some p} = set names \<inter> set ns"
proof -
  obtain cache w1 w2 w3 w4 us u where run: "permissionsCache env ns w = (Inr cache, w1)"
    "io_mapM (\<lambda>(n, names). io_bind (createRolePermissions env cache n names) (\<lambda>i. io_return (n, i))) roleMap w1 = (Inr roles, w2)"
    "io_mapM (\<lambda>(n, emails). io_mapM (assign_users env (map_of roles n)) emails) userMap w2 = (Inr us, w3)"
    "pe_delete_stale env (map snd cache) w3 = (Inr u, w4)" "io_mapM (createKey env cache) keyMap w4 = (Inr ks, w')"
    using assms(1) by (auto simp: createAllPermissions_def createRoles_def io_run_iffs)
  have distinct: "distinct (map fst roleMap)" "distinct (map fst keyMap)"
    and apart: "fst ` set roleMap \<inter> fst ` set keyMap = {}"
    using assms(3) by (auto simp: image_image)
  note cache = cached [OF run(1)]
  note r = roles_created [OF run(2) distinct(1)]
  have v3: "view w3 = view w2" using users_assigned [OF run(3)] .
  have v4: "pv_role (view w4) = pv_role (view w2)" "pv_has (view w4) = pv_has (view w2)"
    using arg_cong [OF delete_stale [OF run(4)], of pv_role] arg_cong [OF delete_stale [OF run(4)], of pv_has] v3
    by simp_all
  have kept: "pv_perm (view w4) i = pv_perm (view w2) i" if "i \<in> snd ` set cache" for i
    using arg_cong [OF delete_stale [OF run(4)], of "\<lambda>v. pv_perm v i"] v3 that by (simp split: if_splits)
  note k = keys_created [OF run(5) assms(2) distinct(2)]
  have line: "in_line cache (view w') n names"
  proof (cases "(n, names) \<in> set roleMap")
    case True
    then have "in_line cache (view w2) n names" using r by auto
    then have "in_line cache (view w4) n names" using v4 by (simp add: in_line_def)
    moreover have "n \<notin> fst ` set keyMap" using apart True by force
    ultimately show ?thesis using k by blast
  next
    case False
    then show ?thesis using k assms(4) by auto
  qed
  have perm: "pv_perm (view w') i = Some m" if "map_of cache m = Some i" for m i
  proof -
    have "pv_perm (view w1) i = Some m" using cache that by blast
    then have "pv_perm (view w2) i = Some m" using r by simp
    moreover have "i \<in> snd ` set cache" using map_of_SomeD [OF that] by force
    ultimately show ?thesis using kept k by simp
  qed
  obtain q where q: "pv_role (view w') n = Some q" "{i. (q, i) \<in> pv_has (view w')} = set (picked cache names)"
    using line assms(5) by (auto simp: in_line_def)
  have "set (picked cache names) = {i. \<exists>m \<in> set names. map_of cache m = Some i}"
    by (simp add: picked_def set_map_filter)
  then have "{p. \<exists>i. (q, i) \<in> pv_has (view w') \<and> pv_perm (view w') i = Some p} =
      {p. \<exists>m \<in> set names. \<exists>i. map_of cache m = Some i \<and> pv_perm (view w') i = Some p}"
    using q(2) by blast
  also have "\<dots> = {m \<in> set names. map_of cache m \<noteq> None}" using perm by fastforce
  also have "\<dots> = set names \<inter> set ns"
    using cache by (auto simp: map_of_eq_None_iff)
  finally show ?thesis using q(1) by blast
qed

end

section \<open>In memory\<close>

text \<open>Permissions and roles are numbered by their places in lists, deleted permissions leave a gap.\<close>

record perm_world =
  pw_perms :: "string option list"
  pw_roles :: "string list"
  pw_has :: "(int \<times> int) list"

definition mem_perm :: "perm_world \<Rightarrow> int \<Rightarrow> string option" where
  "mem_perm w i = (if 0 \<le> i \<and> nat i < length (pw_perms w) then pw_perms w ! nat i else None)"

definition mem_role :: "perm_world \<Rightarrow> string \<Rightarrow> int option" where
  "mem_role w n = map_option int (find_index (\<lambda>m. m = n) (pw_roles w))"

definition mem_perm_view :: "perm_world \<Rightarrow> perm_view" where
  "mem_perm_view w = \<lparr>pv_perm = mem_perm w, pv_role = mem_role w, pv_has = set (pw_has w)\<rparr>"

definition mem_perm_env :: "perm_world perm_env" where
  "mem_perm_env =
     \<lparr>pe_permissions = \<lambda>ns w. (Inr (List.map_filter (\<lambda>(i, p). case p of
          None \<Rightarrow> None | Some n \<Rightarrow> (if n \<in> set ns then Some (int i, n) else None))
          (zip [0..<length (pw_perms w)] (pw_perms w))), w),
      pe_post_permission = \<lambda>n w. (Inr (int (length (pw_perms w))), w\<lparr>pw_perms := pw_perms w @ [Some n]\<rparr>),
      pe_role_ids = \<lambda>n w. (Inr (case mem_role w n of None \<Rightarrow> [] | Some i \<Rightarrow> [i]), w),
      pe_post_role = \<lambda>n w. (if mem_role w n = None
        then (Inr (int (length (pw_roles w))), w\<lparr>pw_roles := pw_roles w @ [n]\<rparr>) else (Inl (ConflictError ''unique''), w)),
      pe_role_permissions = \<lambda>r is w. (Inr (filter (\<lambda>i. (r, i) \<in> set (pw_has w)) is), w),
      pe_post_role_permission = \<lambda>r i w. (Inr (), w\<lparr>pw_has := (r, i) # pw_has w\<rparr>),
      pe_delete_role_permissions_except = \<lambda>r is w.
        (Inr (), w\<lparr>pw_has := filter (\<lambda>(q, i). q = r \<longrightarrow> i \<in> set is) (pw_has w)\<rparr>),
      pe_delete_stale = \<lambda>is w. (Inr (), w\<lparr>pw_perms := map (\<lambda>(i, p).
        if int i \<in> snd ` set (pw_has w) \<or> int i \<in> set is then p else None) (zip [0..<length (pw_perms w)] (pw_perms w))\<rparr>),
      pe_find_user = \<lambda>e w. (Inr None, w), pe_assign_user_role = \<lambda>i r w. (Inr (), w), pe_guest_actor = \<lambda>w. (Inr 1, w),
      pe_keys = \<lambda>a r w. (Inr [], w), pe_random = \<lambda>w. (Inr ''random'', w), pe_post_key = \<lambda>a k w. (Inr 1, w),
      pe_post_key_role = \<lambda>i r w. (Inr (), w), pe_patch_key = \<lambda>i k w. (Inr (), w), pe_names_of_roles = \<lambda>ns w. (Inr [], w)\<rparr>"

lemma find_index_snoc:
  "find_index P (xs @ [x]) = (case find_index P xs of Some i \<Rightarrow> Some i | None \<Rightarrow> if P x then Some (length xs) else None)"
  by (induction xs) (auto split: option.splits)

lemma in_numbered: "(k, p) \<in> set (zip [0..<length xs] xs) \<longleftrightarrow> k < length xs \<and> p = xs ! k"
  by (auto simp: in_set_zip intro: exI [of _ k])

lemma mem_role_inj: "mem_role w a = Some i \<Longrightarrow> mem_role w b = Some i \<Longrightarrow> a = b"
  by (auto simp: mem_role_def dest!: find_index_less)

interpretation mem_perms: perm_db mem_perm_env mem_perm_view
proof (unfold_locales, goal_cases)
  case (1 w a i b)
  then show ?case using mem_role_inj by (simp add: mem_perm_view_def)
next
  case (2 ns w ps w')
  let ?f = "\<lambda>(i, p). case p of None \<Rightarrow> None | Some n \<Rightarrow> (if n \<in> set ns then Some (int i, n) else None)"
  let ?zs = "zip [0..<length (pw_perms w)] (pw_perms w)"
  have f: "?f (k, p) = Some (i, n) \<longleftrightarrow> p = Some n \<and> n \<in> set ns \<and> i = int k" for k p i n
    by (auto split: option.splits)
  have "(i, n) \<in> set (List.map_filter ?f ?zs) \<longleftrightarrow> (\<exists>k p. (k, p) \<in> set ?zs \<and> ?f (k, p) = Some (i, n))" for i n
    unfolding set_map_filter mem_Collect_eq Bex_def split_paired_Ex ..
  then have "(i, n) \<in> set (List.map_filter ?f ?zs) \<longleftrightarrow> mem_perm w i = Some n \<and> n \<in> set ns" for i n
    unfolding f in_numbered by (auto simp: mem_perm_def intro!: exI [of _ "nat i"])
  then show ?case using 2 by (auto simp: mem_perm_env_def mem_perm_view_def)
next
  case (3 n w i w')
  then show ?case by (auto simp: mem_perm_env_def mem_perm_view_def mem_perm_def mem_role_def fun_eq_iff nth_append)
next
  case (5 n w i w')
  then show ?case
    by (auto simp: mem_perm_env_def mem_perm_view_def mem_role_def mem_perm_def fun_eq_iff find_index_snoc split: option.splits if_splits)
next
  case (9 kept w u w')
  then show ?case
    by (auto simp: mem_perm_env_def mem_perm_view_def mem_perm_def mem_role_def fun_eq_iff) (force+)
qed (auto simp: mem_perm_env_def mem_perm_view_def mem_perm_def [abs_def] mem_role_def [abs_def] keeps_def split: option.splits)



text \<open>A role that lost all its permissions in the tables is left alone.\<close>

lemma emptied_role_keeps_permissions:
  assumes "perm_db env view" and "createRolePermissions env cache n [] w = (Inr r, w')"
  shows "pv_has (view w') = pv_has (view w)"
  using perm_db.role_created [OF assms] by simp

end
