(* ===== verification/ApiKeys.thy ===== *)
theory ApiKeys
  imports Accounts
begin

text \<open>
  The creation of API keys (\<^verbatim>\<open>src/features/api-keys\<close>) for users, applications and devices, and the requests that use
  more permissions than their key has.

  Queries, the transaction and the reading of dates are fields of an environment.
\<close>

section \<open>Options\<close>

record key_opts =
  ko_apiKey :: "string option"
  ko_name :: "string option"
  ko_description :: "string option"
  ko_expiryDate :: "string option"

datatype actor_type = ActorApplication | ActorUser | ActorDevice

text \<open>
  \<open>ke_iso_date s\<close> is \<^verbatim>\<open>new Date(s).toISOString()\<close>, \<open>None\<close> when \<open>s\<close> is not a date.  \<open>ke_can_access\<close> returns the id that
  the permissions let the request act on, \<open>ke_post_key\<close> the id of the new key.
\<close>

record 'w key_env =
  ke_auth :: "'w auth_env"
  ke_iso_date :: "string \<Rightarrow> string option"
  ke_random :: "('w, string) io"
  ke_actor :: "request \<Rightarrow> actor_type \<Rightarrow> int \<Rightarrow> ('w, int option) io"
  ke_can_access :: "request \<Rightarrow> actor_type \<Rightarrow> int \<Rightarrow> string \<Rightarrow> ('w, int option) io"
  ke_post_key :: "int \<Rightarrow> key_opts \<Rightarrow> ('w, int) io"
  ke_role :: "string \<Rightarrow> ('w, int option) io"
  ke_post_key_role :: "int \<Rightarrow> int \<Rightarrow> ('w, unit) io"
  ke_transaction :: "('w ctx, string) io \<Rightarrow> ('w ctx, string) io"

definition validateFieldProp :: "json option \<Rightarrow> bool \<Rightarrow> (json option \<Rightarrow> bool) \<Rightarrow> bool" where
  "validateFieldProp field mandatory fn =
     (if mandatory then field = Some JNull \<or> fn field else \<not> not_nullish field \<or> fn field)"

definition text_of :: "json option \<Rightarrow> string option" where
  "text_of v = (case v of Some (JStr s) \<Rightarrow> Some s | _ \<Rightarrow> None)"

definition getApiKeyOptsFromRequest :: "'w key_env \<Rightarrow> json obj \<Rightarrow> string \<Rightarrow> bool \<Rightarrow> key_opts res" where
  "getApiKeyOptsFromRequest env params pre mandatoryExpiryDate =
     (let name = map_of params (if pre \<noteq> [] then pre @ ''Name'' else ''name'');
          description = map_of params (if pre \<noteq> [] then pre @ ''Description'' else ''description'');
          expiryDate = map_of params (if pre \<noteq> [] then pre @ ''ExpiryDate'' else ''expiryDate'')
      in if not_nullish name \<and> text_of name = None
         then Inl (BadRequestError ''Key name should be a string value'')
         else if not_nullish description \<and> text_of description = None
         then Inl (BadRequestError ''Key description should be a string value'')
         else if \<not> validateFieldProp expiryDate mandatoryExpiryDate
                  (\<lambda>f. case text_of f of None \<Rightarrow> False | Some s \<Rightarrow> ke_iso_date env s \<noteq> None)
         then Inl (BadRequestError ''Key expiry date should be a valid date'')
         else Inr \<lparr>ko_apiKey = None, ko_name = text_of name, ko_description = text_of description,
                   ko_expiryDate = (case text_of expiryDate of None \<Rightarrow> None | Some s \<Rightarrow> ke_iso_date env s)\<rparr>)"

section \<open>Creation\<close>

text \<open>A user has to have logged in recently.\<close>

definition fresh_login :: "'w key_env \<Rightarrow> actor_type \<Rightarrow> ('w ctx, unit) io" where
  "fresh_login env actorType =
     (if actorType = ActorUser
      then io_bind (getUser (ke_auth env) True) (\<lambda>user c.
             (if (case user of None \<Rightarrow> False | Some u \<Rightarrow> checkSudoValidity (au_now (ke_auth env) (cx_world c)) u)
              then Inr () else Inl UnauthorizedError, c))
      else io_return ())"

definition role_not_found :: "string \<Rightarrow> exn" where
  "role_not_found roleName = NotFoundError (''Role '' @ [CHR 0x27] @ roleName @ [CHR 0x27] @ '' not found'')"

definition no_actor :: "actor_type \<Rightarrow> exn" where
  "no_actor actorType = JsError (''No '' @
     (case actorType of ActorApplication \<Rightarrow> ''application'' | ActorUser \<Rightarrow> ''user'' | ActorDevice \<Rightarrow> ''device'')
     @ '' found to associate with the api key'')"

definition insert_key :: "'w key_env \<Rightarrow> string \<Rightarrow> string \<Rightarrow> key_opts \<Rightarrow> int \<Rightarrow> ('w ctx, string) io" where
  "insert_key env roleName apiKey opts actorID =
     io_bind (on_world (ke_post_key env actorID (opts\<lparr>ko_apiKey := Some apiKey\<rparr>))) (\<lambda>apiKeyId.
     io_bind (on_world (ke_role env roleName)) (\<lambda>role.
       case role of
         None \<Rightarrow> io_throw (role_not_found roleName)
       | Some r \<Rightarrow>
           io_bind (on_world (ke_post_key_role env apiKeyId r)) (\<lambda>_. io_return apiKey)))"

text \<open>The options of a new key are complete: the key has been chosen.\<close>

definition create_key_row ::
  "'w key_env \<Rightarrow> actor_type \<Rightarrow> string \<Rightarrow> int \<Rightarrow> string \<Rightarrow> key_opts \<Rightarrow> ('w ctx, string) io"
where
  "create_key_row env actorType roleName actorTypeID apiKey opts =
     io_bind get_req (\<lambda>req.
     io_bind (on_world (ke_actor env req actorType actorTypeID)) (\<lambda>actor.
       case actor of
         None \<Rightarrow> io_throw (no_actor actorType)
       | Some actorID \<Rightarrow>
           io_bind (on_world (ke_can_access env req actorType actorTypeID (''create-'' @ roleName))) (\<lambda>resId.
             if resId \<noteq> Some actorTypeID then io_throw (ForbiddenError [])
             else io_bind (fresh_login env actorType) (\<lambda>_. insert_key env roleName apiKey opts actorID))))"

definition or_else :: "'a option \<Rightarrow> 'a option \<Rightarrow> 'a option" where
  "or_else a b = (case a of None \<Rightarrow> b | Some x \<Rightarrow> Some x)"

text \<open>\<open>in_tx\<close>: the caller has a transaction already.\<close>

definition createApiKey ::
  "'w key_env \<Rightarrow> bool \<Rightarrow> actor_type \<Rightarrow> string \<Rightarrow> json obj \<Rightarrow> int \<Rightarrow> key_opts \<Rightarrow> ('w ctx, string) io"
where
  "createApiKey env in_tx actorType roleName params actorTypeID options =
     io_bind (io_lift (getApiKeyOptsFromRequest env params [] False)) (\<lambda>given.
       let create = io_bind (case ko_apiKey options of Some k \<Rightarrow> io_return k | None \<Rightarrow> on_world (ke_random env)) (\<lambda>apiKey.
             create_key_row env actorType roleName actorTypeID apiKey
               \<lparr>ko_apiKey = Some apiKey, ko_name = or_else (ko_name options) (ko_name given),
                ko_description = or_else (ko_description options) (ko_description given),
                ko_expiryDate = or_else (ko_expiryDate options) (ko_expiryDate given)\<rparr>)
       in if in_tx then create else ke_transaction env create)"

definition createProvisioningApiKey where
  "createProvisioningApiKey env = createApiKey env False ActorApplication ''provisioning-api-key''"

definition createDeviceApiKey where
  "createDeviceApiKey env = createApiKey env False ActorDevice ''device-api-key''"

definition createNamedUserApiKey where
  "createNamedUserApiKey env = createApiKey env False ActorUser ''named-user-api-key''"

definition createUserApiKey where
  "createUserApiKey env in_tx = createApiKey env in_tx ActorUser ''user-api-key''"

text \<open>The types of actors that may have a key are all there are (\<open>None\<close>: another text).\<close>

definition createGenericApiKey ::
  "'w key_env \<Rightarrow> actor_type option \<Rightarrow> int \<Rightarrow> string list \<Rightarrow> key_opts \<Rightarrow> ('w ctx, string) io"
where
  "createGenericApiKey env actorType actorTypeId roles opts =
     (case actorType of
        None \<Rightarrow> io_throw (BadRequestError ''Unsupported actor type'')
      | Some t \<Rightarrow>
          (case roles of
             [roleName] \<Rightarrow>
               (let name = (if ko_name opts = Some [] then None else ko_name opts)
                in if name = None \<and> js_startsWith roleName ''named-''
                   then io_throw (BadRequestError (''API keys with the '' @ [CHR 0x27] @ roleName @ [CHR 0x27] @ '' role require a name''))
                   else createApiKey env False t roleName [] actorTypeId (opts\<lparr>ko_name := name\<rparr>))
           | _ \<Rightarrow> io_throw (BadRequestError ''API Keys currently only support a single role'')))"

section \<open>Routes\<close>

definition answered_key :: "('w ctx, string) io \<Rightarrow> ('w ctx, reply) io" where
  "answered_key m =
     io_catch (io_bind m (\<lambda>key. io_return (ReplyToken key))) (\<lambda>err. io_return (handled err))"

definition generic_key_route ::
  "'w key_env \<Rightarrow> bool \<Rightarrow> json obj \<Rightarrow> actor_type option \<Rightarrow> int \<Rightarrow> string list \<Rightarrow> string option \<Rightarrow> ('w ctx, reply) io"
where
  "generic_key_route env v1 body actorType actorTypeId roles chosenApiKey =
     answered_key (io_bind (io_lift (getApiKeyOptsFromRequest env body [] (\<not> v1))) (\<lambda>opts.
       createGenericApiKey env actorType actorTypeId roles (opts\<lparr>ko_apiKey := chosenApiKey\<rparr>)))"

definition device_key_route :: "'w key_env \<Rightarrow> string \<Rightarrow> json obj \<Rightarrow> string option \<Rightarrow> ('w ctx, reply) io" where
  "device_key_route env deviceIdText body chosenApiKey =
     (case parseInt10 deviceIdText of
        None \<Rightarrow> io_return (ReplyStatus 400)
      | Some deviceId \<Rightarrow>
          answered_key (io_bind (io_lift (getApiKeyOptsFromRequest env body [] False)) (\<lambda>opts.
            createDeviceApiKey env body deviceId (opts\<lparr>ko_apiKey := chosenApiKey\<rparr>))))"

definition provisioning_key_route :: "'w key_env \<Rightarrow> string \<Rightarrow> json obj \<Rightarrow> ('w ctx, reply) io" where
  "provisioning_key_route env appIdText body =
     (case parseInt10 appIdText of
        None \<Rightarrow> io_return (ReplyStatus 400)
      | Some appId \<Rightarrow>
          answered_key (io_bind (io_lift (getApiKeyOptsFromRequest env body [] False)) (createProvisioningApiKey env body appId)))"

definition user_key_route :: "'w key_env \<Rightarrow> json obj \<Rightarrow> ('w ctx, reply) io" where
  "user_key_route env body =
     answered_key (io_bind (io_lift (getApiKeyOptsFromRequest env body [] False)) (\<lambda>opts.
       ke_transaction env (io_bind (getUser (ke_auth env) True) (\<lambda>user.
         case (case user of None \<Rightarrow> None | Some u \<Rightarrow> cr_id u) of
           None \<Rightarrow> io_throw UnauthorizedError
         | Some userId \<Rightarrow> createUserApiKey env True body userId opts))))"

definition named_user_key_route :: "'w key_env \<Rightarrow> json obj \<Rightarrow> ('w ctx, reply) io" where
  "named_user_key_route env body =
     answered_key (io_bind get_req (\<lambda>req.
       case (case rq_user req of None \<Rightarrow> None | Some u \<Rightarrow> cr_id u) of
         None \<Rightarrow> io_throw (BadRequestError ''Must use user auth'')
       | Some userId \<Rightarrow>
           io_bind (io_lift (getApiKeyOptsFromRequest env body [] False)) (createNamedUserApiKey env body userId)))"

section \<open>More permissions for a request\<close>

text \<open>
  The request to use, and the one of the caller afterwards: the same when the whole request is to have them.
\<close>

definition augmentReqApiKeyPermissions :: "request \<Rightarrow> string list \<Rightarrow> bool \<Rightarrow> request \<times> request" where
  "augmentReqApiKeyPermissions req extraPermissions mutateRequestObject =
     (let augmentedReq = req\<lparr>rq_apiKey := map_option (\<lambda>k. k\<lparr>ak_permissions :=
            map_option (\<lambda>ps. ps @ extraPermissions) (ak_permissions k)\<rparr>) (rq_apiKey req)\<rparr>
      in (augmentedReq, if mutateRequestObject then augmentedReq else req))"

definition api_key_role_cache_key :: "string \<Rightarrow> string \<Rightarrow> string" where
  "api_key_role_cache_key key roleName = roleName @ ''$'' @ key"

definition defaultGetAuthorizedKeysFn ::
  "(request \<Rightarrow> string \<Rightarrow> ('w, string list) io) \<Rightarrow> request \<Rightarrow> string \<Rightarrow> ('w, string) io"
where
  "defaultGetAuthorizedKeysFn find_keys req username =
     io_bind (find_keys (fst (augmentReqApiKeyPermissions req [''resin.user.read''] False)) username) (\<lambda>keys.
       io_return (js_join [char_of (10 :: nat)] keys))"

definition getUserPublicKeys ::
  "(request \<Rightarrow> string \<Rightarrow> ('w, string) io) \<Rightarrow> string option \<Rightarrow> ('w ctx, reply) io"
where
  "getUserPublicKeys getAuthorizedKeys username =
     (case username of
        None \<Rightarrow> io_return (ReplyStatus 400)
      | Some name \<Rightarrow>
          io_catch (io_bind get_req (\<lambda>req. io_bind (on_world (getAuthorizedKeys req name)) (\<lambda>keys.
            io_return (ReplyToken keys)))) (\<lambda>err. io_return (handled err)))"

section \<open>The tables of keys\<close>

text \<open>The view: the actor and the fields of a key, and which key has which role.\<close>

record key_view =
  kv_keys :: "int \<Rightarrow> (int \<times> key_opts) option"
  kv_roles :: "(int \<times> int) set"

lemma keeps_on_world [intro]: "keeps part m \<Longrightarrow> keeps (\<lambda>c. part (cx_world c)) (on_world m)"
  unfolding keeps_def on_world_def by (auto split: prod.split) (metis snd_conv)

lemma keeps_get_req [intro, simp]: "keeps (\<lambda>c. part (cx_world c)) get_req"
  by (simp add: keeps_def get_req_def)

lemma keeps_change_req [intro, simp]: "keeps (\<lambda>c. part (cx_world c)) (change_req f)"
  by (simp add: keeps_def change_req_def)

lemma keeps_if: "keeps part m \<Longrightarrow> keeps part n \<Longrightarrow> keeps part (if b then m else n)"
  by simp

locale key_tables =
  fixes env :: "'w key_env"
    and view :: "'w \<Rightarrow> key_view"
  assumes random: "keeps view (ke_random env)"
    and actor: "keeps view (ke_actor env req t i)"
    and can_access: "keeps view (ke_can_access env req t i action)"
    and role: "keeps view (ke_role env n)"
    and check_key: "keeps view (au_check_key (ke_auth env) k)"
    and bearer: "keeps view (au_bearer (ke_auth env) k)"
    and user_of_key: "keeps view (au_user_of_key (ke_auth env) k)"
    and post_key: "ke_post_key env a opts w = (Inr j, w') \<Longrightarrow>
      kv_keys (view w) j = None \<and> view w' = (view w)\<lparr>kv_keys := (kv_keys (view w))(j \<mapsto> (a, opts))\<rparr>"
    and post_key_role: "ke_post_key_role env j r w = (Inr u, w') \<Longrightarrow>
      view w' = (view w)\<lparr>kv_roles := insert (j, r) (kv_roles (view w))\<rparr>"
    and transaction: "ke_transaction env m c = (x, c') \<Longrightarrow>
      (case x of
         Inl e \<Rightarrow> view (cx_world c') = view (cx_world c)
       | Inr key \<Rightarrow> \<exists>c1. m c = (Inr key, c1) \<and> view (cx_world c') = view (cx_world c1))"
begin

abbreviation kept :: "('w ctx, 'a) io \<Rightarrow> bool" where
  "kept \<equiv> keeps (\<lambda>c. view (cx_world c))"

lemma kept_getUser: "kept (getUser (ke_auth env) required)"
proof -
  have key: "keeps view (getAPIKey (ke_auth env) req)" for req
    unfolding getAPIKey_def
    using check_key bearer by (auto intro!: keeps_bind keeps_catch split: option.split list.split)
  have "kept (retrieveAPIKey (ke_auth env))"
    unfolding retrieveAPIKey_def prefetchAPIKey_def by (intro keeps_bind keeps_if keeps_on_world key) auto
  moreover have "kept (user_of_key (ke_auth env) required k)" for k
    unfolding user_of_key_def using user_of_key by (auto intro!: keeps_bind keeps_on_world split: list.split)
  ultimately show ?thesis
    unfolding getUser_def by (auto intro!: keeps_bind split: option.split)
qed

lemma row_created:
  assumes "create_key_row env t roleName i apiKey opts c = (Inr key, c')"
  shows "key = apiKey \<and> (\<exists>j a r. kv_keys (view (cx_world c)) j = None \<and>
      view (cx_world c') = (view (cx_world c))\<lparr>
        kv_keys := (kv_keys (view (cx_world c)))(j \<mapsto> (a, opts\<lparr>ko_apiKey := Some apiKey\<rparr>)),
        kv_roles := insert (j, r) (kv_roles (view (cx_world c)))\<rparr> \<and>
      (\<exists>req w w1. ke_actor env req t i w = (Inr (Some a), w1)) \<and>
      (\<exists>req w w1. ke_can_access env req t i (''create-'' @ roleName) w = (Inr (Some i), w1)) \<and>
      (\<exists>w w1. ke_role env roleName w = (Inr (Some r), w1)) \<and>
      (t = ActorUser \<longrightarrow> (\<exists>c1 c2 u. getUser (ke_auth env) True c1 = (Inr (Some u), c2) \<and>
         checkSudoValidity (au_now (ke_auth env) (cx_world c2)) u)))"
proof -
  obtain req where req: "get_req c = (Inr req, c)" by (simp add: get_req_def)
  obtain ao c1 where a: "on_world (ke_actor env req t i) c = (Inr ao, c1)"
    using assms req by (auto simp: create_key_row_def io_bind_Inr_iff)
  obtain a where ao: "ao = Some a"
    using assms req a by (cases ao) (auto simp: create_key_row_def io_bind_def io_throw_def)
  obtain c2 c3 where access: "on_world (ke_can_access env req t i (''create-'' @ roleName)) c1 = (Inr (Some i), c2)"
    and fresh: "fresh_login env t c2 = (Inr (), c3)" and ins: "insert_key env roleName apiKey opts a c3 = (Inr key, c')"
  proof -
    obtain res c2 where acc: "on_world (ke_can_access env req t i (''create-'' @ roleName)) c1 = (Inr res, c2)"
      "(if res \<noteq> Some i then io_throw (ForbiddenError [])
        else io_bind (fresh_login env t) (\<lambda>_. insert_key env roleName apiKey opts a)) c2 = (Inr key, c')"
      using assms req a ao by (simp add: create_key_row_def io_bind_def split: prod.splits sum.splits)
    then have "res = Some i" by (auto simp: io_throw_def split: if_splits)
    then show ?thesis using that acc by (auto simp: io_bind_Inr_iff)
  qed
  obtain j c4 ro c5 where run: "on_world (ke_post_key env a (opts\<lparr>ko_apiKey := Some apiKey\<rparr>)) c3 = (Inr j, c4)"
    "on_world (ke_role env roleName) c4 = (Inr ro, c5)"
    "(case ro of None \<Rightarrow> io_throw (role_not_found roleName)
       | Some r \<Rightarrow> io_bind (on_world (ke_post_key_role env j r)) (\<lambda>_. io_return apiKey)) c5 = (Inr key, c')"
    using ins unfolding insert_key_def by (auto simp: io_bind_Inr_iff)
  obtain r where r: "ro = Some r" "on_world (ke_post_key_role env j r) c5 = (Inr (), c')" "key = apiKey"
    using run(3) by (cases ro) (auto simp: io_run_iffs io_throw_def)
  have on: "\<And>m c x c'. on_world m c = (x, c') \<Longrightarrow> m (cx_world c) = (x, cx_world c')"
    by (auto simp: on_world_def split: prod.splits)
  have kc: "kept (fresh_login env t)"
    unfolding fresh_login_def by (intro keeps_if keeps_bind kept_getUser) (auto simp: keeps_def io_return_def)
  have v: "view (cx_world c3) = view (cx_world c)"
    using keepsD [OF actor on [OF a]] keepsD [OF can_access on [OF access]] keepsD [OF kc fresh] by simp
  have "view (cx_world c') = (view (cx_world c))\<lparr>
        kv_keys := (kv_keys (view (cx_world c)))(j \<mapsto> (a, opts\<lparr>ko_apiKey := Some apiKey\<rparr>)),
        kv_roles := insert (j, r) (kv_roles (view (cx_world c)))\<rparr>" "kv_keys (view (cx_world c)) j = None"
    using post_key [OF on [OF run(1)]] keepsD [OF role on [OF run(2)]] post_key_role [OF on [OF r(2)]] v by simp_all
  moreover have "\<exists>c1 c2 u. getUser (ke_auth env) True c1 = (Inr (Some u), c2) \<and>
      checkSudoValidity (au_now (ke_auth env) (cx_world c2)) u" if t: "t = ActorUser"
  proof -
    obtain user cu where "getUser (ke_auth env) True c2 = (Inr user, cu)"
      "case user of None \<Rightarrow> False | Some u \<Rightarrow> checkSudoValidity (au_now (ke_auth env) (cx_world cu)) u"
      using fresh t by (auto simp: fresh_login_def io_bind_Inr_iff split: if_split_asm)
    then show ?thesis by (cases user) auto
  qed
  ultimately show ?thesis
    using r on [OF a] on [OF access] on [OF run(2)] ao by blast
qed

lemma created:
  assumes "createApiKey env False t roleName params i options c = (x, c')"
  shows "case x of
      Inl e \<Rightarrow> view (cx_world c') = view (cx_world c)
    | Inr key \<Rightarrow> (\<exists>j a r opts. kv_keys (view (cx_world c)) j = None \<and> ko_apiKey opts = Some key \<and>
        view (cx_world c') = (view (cx_world c))\<lparr>kv_keys := (kv_keys (view (cx_world c)))(j \<mapsto> (a, opts)),
          kv_roles := insert (j, r) (kv_roles (view (cx_world c)))\<rparr> \<and>
        (\<exists>req w w1. ke_actor env req t i w = (Inr (Some a), w1)) \<and>
        (\<exists>req w w1. ke_can_access env req t i (''create-'' @ roleName) w = (Inr (Some i), w1)) \<and>
        (\<exists>w w1. ke_role env roleName w = (Inr (Some r), w1)) \<and>
        (t = ActorUser \<longrightarrow> (\<exists>c1 c2 u. getUser (ke_auth env) True c1 = (Inr (Some u), c2) \<and>
           checkSudoValidity (au_now (ke_auth env) (cx_world c2)) u)))"
proof (cases "getApiKeyOptsFromRequest env params [] False")
  case (Inl e)
  then show ?thesis using assms by (auto simp: createApiKey_def io_bind_def io_lift_def)
next
  case (Inr given)
  define create where "create = io_bind (case ko_apiKey options of Some k \<Rightarrow> io_return k | None \<Rightarrow> on_world (ke_random env)) (\<lambda>apiKey.
             create_key_row env t roleName i apiKey
               \<lparr>ko_apiKey = Some apiKey, ko_name = or_else (ko_name options) (ko_name given),
                ko_description = or_else (ko_description options) (ko_description given),
                ko_expiryDate = or_else (ko_expiryDate options) (ko_expiryDate given)\<rparr>)"
  have run: "ke_transaction env create c = (x, c')"
    using assms Inr by (simp add: createApiKey_def io_bind_def io_lift_def create_def)
  show ?thesis
  proof (cases x)
    case (Inl e)
    then show ?thesis using transaction [OF run] by simp
  next
    case (Inr key)
    then obtain c1 where c1: "create c = (Inr key, c1)" "view (cx_world c') = view (cx_world c1)"
      using transaction [OF run] by auto
    obtain apiKey c0 where k: "(case ko_apiKey options of Some k \<Rightarrow> io_return k | None \<Rightarrow> on_world (ke_random env)) c = (Inr apiKey, c0)"
      "create_key_row env t roleName i apiKey
         \<lparr>ko_apiKey = Some apiKey, ko_name = or_else (ko_name options) (ko_name given),
          ko_description = or_else (ko_description options) (ko_description given),
          ko_expiryDate = or_else (ko_expiryDate options) (ko_expiryDate given)\<rparr> c0 = (Inr key, c1)"
      using c1(1) by (auto simp: create_def io_bind_Inr_iff)
    have "kept (case ko_apiKey options of Some k \<Rightarrow> io_return k | None \<Rightarrow> on_world (ke_random env))"
      using random by (auto split: option.split)
    then have "view (cx_world c0) = view (cx_world c)" using k(1) by (rule keepsD)
    then have v0: "view (cx_world c0) = view (cx_world c)" .
    obtain j a r where row: "kv_keys (view (cx_world c0)) j = None"
      "view (cx_world c1) = (view (cx_world c0))\<lparr>kv_keys := (kv_keys (view (cx_world c0)))(j \<mapsto>
          (a, \<lparr>ko_apiKey = Some apiKey, ko_name = or_else (ko_name options) (ko_name given),
           ko_description = or_else (ko_description options) (ko_description given),
           ko_expiryDate = or_else (ko_expiryDate options) (ko_expiryDate given)\<rparr>\<lparr>ko_apiKey := Some apiKey\<rparr>)),
        kv_roles := insert (j, r) (kv_roles (view (cx_world c0)))\<rparr>"
      "\<exists>req w w1. ke_actor env req t i w = (Inr (Some a), w1)"
      "\<exists>req w w1. ke_can_access env req t i (''create-'' @ roleName) w = (Inr (Some i), w1)"
      "\<exists>w w1. ke_role env roleName w = (Inr (Some r), w1)"
      "t = ActorUser \<longrightarrow> (\<exists>c1 c2 u. getUser (ke_auth env) True c1 = (Inr (Some u), c2) \<and>
         checkSudoValidity (au_now (ke_auth env) (cx_world c2)) u)" "key = apiKey"
      using row_created [OF k(2)] by blast
    show ?thesis
      unfolding Inr sum.case
      by (rule exI [of _ j], rule exI [of _ a], rule exI [of _ r], rule exI, intro conjI row(3-6))
        (use row(1,2,7) c1(2) v0 in simp_all)
  qed
qed

end

section \<open>In memory\<close>

record key_world =
  kw_keys :: "(int \<times> int \<times> key_opts) list"
  kw_roles :: "(int \<times> int) list"

definition mem_key_view :: "'a key_world_scheme \<Rightarrow> key_view" where
  "mem_key_view w = \<lparr>kv_keys = map_of (kw_keys w), kv_roles = set (kw_roles w)\<rparr>"

definition key_auth_env :: "'a key_world_scheme auth_env" where
  "key_auth_env = \<lparr>au_verify = (\<lambda>t. None), au_decode = (\<lambda>t. False), au_sign = (\<lambda>p e. []), au_by_id = \<lambda>i s w. (Inr None, w),
     au_by_actor = \<lambda>a s w. (Inr None, w), au_key_permissions = \<lambda>k w. (Inr [], w), au_role_permissions = \<lambda>rs w. (Inr rs, w),
     au_user_permissions = \<lambda>i w. (Inr [], w), au_guest_actor = \<lambda>w. (Inr 1, w), au_check_key = \<lambda>k w. (Inr None, w),
     au_bearer = \<lambda>k w. (Inr None, w), au_user_of_key = \<lambda>k w. (Inr [], w), au_user_row = \<lambda>i w. (Inr None, w),
     au_find = \<lambda>f s w. (Inr [], w), au_compare = \<lambda>p h w. (Inr (p = h), w), au_set_password = \<lambda>i p w. (Inr (), w),
     au_text = (\<lambda>_. []), au_now = (\<lambda>w. 0), au_expiry_seconds = 3600, au_limit_refresh = True\<rparr>"

text \<open>The actor of everything with a positive id is ten times the id; \<open>roles\<close> are the roles there are.\<close>

definition mem_key_env :: "int obj \<Rightarrow> 'a key_world_scheme key_env" where
  "mem_key_env roles =
     \<lparr>ke_auth = key_auth_env, ke_iso_date = (\<lambda>s. Some s), ke_random = \<lambda>w. (Inr ''random'', w),
      ke_actor = \<lambda>req t i w. (Inr (if i > 0 then Some (10 * i) else None), w),
      ke_can_access = \<lambda>req t i action w. (Inr (Some i), w),
      ke_post_key = \<lambda>a opts w. (let j = fold max (map fst (kw_keys w)) 0 + 1
        in (Inr j, w\<lparr>kw_keys := (j, a, opts) # kw_keys w\<rparr>)),
      ke_role = \<lambda>n w. (Inr (map_of roles n), w),
      ke_post_key_role = \<lambda>j r w. (Inr (), w\<lparr>kw_roles := (j, r) # kw_roles w\<rparr>),
      ke_transaction = \<lambda>m c. (case m c of (Inl e, c') \<Rightarrow> (Inl e, c'\<lparr>cx_world := cx_world c\<rparr>) | (Inr x, c') \<Rightarrow> (Inr x, c'))\<rparr>"

interpretation mem_keys: key_tables "mem_key_env roles" mem_key_view for roles
proof (unfold_locales, goal_cases)
  case (8 a opts w j w')
  then show ?case using fresh_max_key [of "kw_keys w"] by (auto simp: mem_key_env_def mem_key_view_def Let_def)
qed (auto simp: mem_key_env_def mem_key_view_def key_auth_env_def keeps_def split: sum.splits prod.splits)



text \<open>Without a transaction of its own a failure in the middle leaves a key without a role, so callers need one.\<close>

lemma key_without_role:
  "\<exists>e c'. create_key_row (mem_key_env []) ActorDevice ''unknown'' 5 ''k''
      \<lparr>ko_apiKey = None, ko_name = None, ko_description = None, ko_expiryDate = None\<rparr>
      \<lparr>cx_req = empty_request, cx_world = \<lparr>kw_keys = [], kw_roles = []\<rparr>\<rparr> = (Inl e, c') \<and>
    kv_keys (mem_key_view (cx_world c')) 1 \<noteq> None"
  by (simp add: create_key_row_def insert_key_def fresh_login_def get_req_def on_world_def io_simps mem_key_env_def
      mem_key_view_def)

end
