(* ===== verification/Applications.thy ===== *)
theory Applications
  imports Accounts JsRegex
begin

text \<open>
  The hooks on applications and on the handles of organizations (\<^verbatim>\<open>src/features/applications\<close>): names, defaults, the
  text that stands for an application in addresses (its slug), and deletion.

  A request is the hooks of its resource in the order in which they are loaded, around the change the database
  library makes; the library's part is a field of an environment.
\<close>

section \<open>Names\<close>

text \<open>What a JavaScript value is turned into where a text is needed; \<open>None\<close> is \<^verbatim>\<open>undefined\<close>.\<close>

fun json_string :: "json \<Rightarrow> string" where
  "json_string JNull = ''null''"
| "json_string (JBool b) = (if b then ''true'' else ''false'')"
| "json_string (JNum i) = show_int i"
| "json_string (JStr s) = s"
| "json_string (JArr xs) = js_join '','' (map (\<lambda>x. if x = JNull then [] else json_string x) xs)"
| "json_string (JObj _) = ''[object Object]''"

definition value_string :: "json option \<Rightarrow> string" where
  "value_string v = (case v of None \<Rightarrow> ''undefined'' | Some j \<Rightarrow> json_string j)"

definition nullable_string :: "json option \<Rightarrow> string option" where
  "nullable_string v = (if not_nullish v then Some (value_string v) else None)"

definition getApplicationSlug :: "string option \<Rightarrow> string option \<Rightarrow> string res" where
  "getApplicationSlug orgHandle appName =
     (case orgHandle of
        None \<Rightarrow> Inl (BadRequestError ''Missing organization handle'')
      | Some handle \<Rightarrow>
          (case appName of
             None \<Rightarrow> Inl (BadRequestError ''Missing application name'')
           | Some name \<Rightarrow> Inr (js_toLowerCase (handle @ ''/'' @ name))))"

definition app_name_char :: "char \<Rightarrow> bool" where
  "app_name_char c \<longleftrightarrow> is_word_char c \<or> c = CHR ''-''"

definition APP_NAME :: re where
  "APP_NAME = RSeqs [RBegin, RPlus (RClass app_name_char), REnd]"

definition INVALID_APP_NAME :: exn where
  "INVALID_APP_NAME = BadRequestError ''App name may only contain [a-zA-Z0-9_-].''"

definition toUuid :: "json \<Rightarrow> string res" where
  "toUuid strippedUuid =
     (case strippedUuid of
        JStr s \<Rightarrow>
          (if length s \<noteq> 32 then Inr []
           else Inr (js_join ''-'' [take 8 s, take 4 (drop 8 s), take 4 (drop 12 s), take 4 (drop 16 s), drop 20 s]))
      | JArr xs \<Rightarrow> (if length xs \<noteq> 32 then Inr [] else Inl JsTypeError)
      | _ \<Rightarrow> Inr [])"

section \<open>Requests\<close>

text \<open>
  \<open>ap_default_type\<close> is the id of the default application type, \<open>ap_uuid_valid\<close> and \<open>ap_uuid_version\<close> are the library
  for UUIDs.  \<open>ap_affected\<close> are the ids a request is about, \<open>ap_insert\<close>, \<open>ap_update\<close>, \<open>ap_delete\<close> and \<open>ap_update_org\<close>
  the changes themselves, the updates with the ids they changed.  \<open>ap_arch_count\<close> counts the CPU architectures of a
  device type and of the device types of some applications.  \<open>ap_apps\<close> reads applications with their names and the
  handles of their organizations, \<open>ap_apps_of\<close> those of an organization.
\<close>

record 'w app_env =
  ap_default_type :: json
  ap_uuid_valid :: "string \<Rightarrow> bool"
  ap_uuid_version :: "string \<Rightarrow> int"
  ap_random :: "('w, string) io"
  ap_affected :: "('w, int list) io"
  ap_has_key :: bool
  ap_org_handle :: "json \<Rightarrow> ('w, string option) io"
  ap_insert :: "json obj \<Rightarrow> ('w, int) io"
  ap_update :: "json obj \<Rightarrow> ('w, int list) io"
  ap_delete :: "('w, unit) io"
  ap_update_org :: "json obj \<Rightarrow> ('w, int list) io"
  ap_arch_count :: "json \<Rightarrow> int list \<Rightarrow> ('w, nat) io"
  ap_apps :: "int list \<Rightarrow> ('w, (int \<times> string \<times> string option) list) io"
  ap_apps_of :: "int \<Rightarrow> ('w, (int \<times> string) list) io"
  ap_patch_slug :: "int \<Rightarrow> string \<Rightarrow> ('w, unit) io"
  ap_unpin :: "int list \<Rightarrow> ('w, unit) io"

definition app_type_default :: "'w app_env \<Rightarrow> json obj \<Rightarrow> json obj" where
  "app_type_default env vals =
     (if not_nullish (map_of vals ''application_type'') then vals
      else obj_set ''application_type'' (ap_default_type env) vals)"

definition app_uuid :: "'w app_env \<Rightarrow> json obj \<Rightarrow> ('w, json obj) io" where
  "app_uuid env vals =
     io_bind (case map_of vals ''uuid'' of
                Some JNull \<Rightarrow> io_bind (ap_random env) (\<lambda>s. io_return (JStr (filter (\<lambda>c. c \<noteq> CHR ''-'') s)))
              | Some u \<Rightarrow> io_return u
              | None \<Rightarrow> io_bind (ap_random env) (\<lambda>s. io_return (JStr (filter (\<lambda>c. c \<noteq> CHR ''-'') s)))) (\<lambda>u.
     io_bind (io_lift (toUuid u)) (\<lambda>appUuid.
       if \<not> ap_uuid_valid env appUuid \<or> ap_uuid_version env appUuid \<noteq> 4
       then io_throw (BadRequestError ''Application UUID must be a 32 character long lower case UUID version 4.'')
       else io_return (obj_set ''uuid'' u vals)))"

definition app_defaults :: "'w app_env \<Rightarrow> json obj \<Rightarrow> ('w, json obj) io" where
  "app_defaults env vals =
     (let vals1 = app_type_default env vals
      in if \<not> re_test APP_NAME (value_string (map_of vals1 ''app_name'')) then io_throw INVALID_APP_NAME
         else io_bind (app_uuid env vals1) (\<lambda>vals2.
                io_return (obj_set ''should_track_latest_release'' (JBool True) vals2)))"

definition slug_default :: "json obj \<Rightarrow> json obj" where
  "slug_default vals = (if not_nullish (map_of vals ''slug'') then vals else obj_set ''slug'' (JStr []) vals)"

definition slug_of_organization :: "'w app_env \<Rightarrow> json obj \<Rightarrow> ('w, json obj) io" where
  "slug_of_organization env vals =
     (if not_nullish (map_of vals ''organization'')
      then io_bind (ap_org_handle env (the (map_of vals ''organization''))) (\<lambda>organization.
             case organization of
               None \<Rightarrow> io_return vals
             | Some handle \<Rightarrow>
                 io_bind (io_lift (getApplicationSlug (Some handle) (nullable_string (map_of vals ''app_name'')))) (\<lambda>slug.
                   io_return (obj_set ''slug'' (JStr slug) vals)))
      else io_return vals)"

definition create_application :: "'w app_env \<Rightarrow> json obj \<Rightarrow> ('w, int) io" where
  "create_application env vals =
     io_bind (app_defaults env vals) (\<lambda>vals1.
     io_bind (slug_of_organization env (slug_default vals1)) (ap_insert env))"

definition rename_check :: "json obj \<Rightarrow> unit res" where
  "rename_check vals =
     (if truthy (map_of vals ''app_name'') \<and> \<not> re_test APP_NAME (value_string (map_of vals ''app_name''))
      then Inl INVALID_APP_NAME else Inr ())"

definition device_type_change :: "'w app_env \<Rightarrow> json obj \<Rightarrow> ('w, unit) io" where
  "device_type_change env vals =
     (if not_nullish (map_of vals ''is_for__device_type'')
      then io_bind (ap_affected env) (\<lambda>appIds.
             if appIds = [] then io_return ()
             else io_bind (ap_arch_count env (the (map_of vals ''is_for__device_type'')) appIds) (\<lambda>count.
               if count > 1
               then io_throw (BadRequestError
                 ''The new default device type should be of the same cpu architecture as the previous one.'')
               else io_return ()))
      else io_return ())"

definition patch_row_slug :: "'w app_env \<Rightarrow> int \<times> string \<times> string option \<Rightarrow> ('w, unit) io" where
  "patch_row_slug env row =
     (case row of (app, app_name, handle) \<Rightarrow>
        (case handle of
           None \<Rightarrow> io_throw JsTypeError
         | Some h \<Rightarrow> io_bind (io_lift (getApplicationSlug (Some h) (Some app_name))) (ap_patch_slug env app)))"

definition slugs_after_patch :: "'w app_env \<Rightarrow> json obj \<Rightarrow> int list \<Rightarrow> ('w, unit) io" where
  "slugs_after_patch env vals ids =
     (if ids = [] then io_return ()
      else if not_nullish (map_of vals ''organization'') \<or> not_nullish (map_of vals ''app_name'')
      then io_bind (ap_apps env ids) (\<lambda>apps.
             io_bind (io_mapM (patch_row_slug env) apps) (\<lambda>_. io_return ()))
      else io_return ())"

definition patch_application :: "'w app_env \<Rightarrow> json obj \<Rightarrow> ('w, unit) io" where
  "patch_application env vals =
     io_bind (io_lift (rename_check vals)) (\<lambda>_.
     io_bind (device_type_change env vals) (\<lambda>_.
     io_bind (ap_update env vals) (slugs_after_patch env vals)))"

definition slugs_of_organization :: "'w app_env \<Rightarrow> json \<Rightarrow> int \<Rightarrow> ('w, unit) io" where
  "slugs_of_organization env handle organizationID =
     io_bind (ap_apps_of env organizationID) (\<lambda>apps.
     io_bind (io_mapM (\<lambda>(app, app_name). patch_row_slug env (app, app_name, Some (json_string handle))) apps) (\<lambda>_.
       io_return ()))"

definition slugs_after_org_patch :: "'w app_env \<Rightarrow> json obj \<Rightarrow> int list \<Rightarrow> ('w, unit) io" where
  "slugs_after_org_patch env vals orgIds =
     (if orgIds = [] then io_return ()
      else if not_nullish (map_of vals ''handle'')
      then io_bind (io_mapM (slugs_of_organization env (the (map_of vals ''handle''))) orgIds) (\<lambda>_. io_return ())
      else io_return ())"

text \<open>\<open>lastIndex\<close> is the state of the expression for handles.\<close>

definition patch_organization :: "'w app_env \<Rightarrow> nat \<Rightarrow> json obj \<Rightarrow> ('w, unit) io" where
  "patch_organization env lastIndex vals =
     io_bind (io_lift (fst (organization_hook lastIndex vals))) (\<lambda>_.
     io_bind (ap_update_org env vals) (slugs_after_org_patch env vals))"

definition delete_error :: "'w app_env \<Rightarrow> ('w, unit) io" where
  "delete_error env =
     io_bind (ap_affected env) (\<lambda>appIds.
       if appIds = [] \<and> ap_has_key env then io_throw (NotFoundError ''Application(s) not found.'') else io_return ())"

definition unpin_release :: "'w app_env \<Rightarrow> ('w, unit) io" where
  "unpin_release env =
     io_bind (ap_affected env) (\<lambda>appIds. if appIds = [] then io_return () else ap_unpin env appIds)"

definition delete_application :: "'w app_env \<Rightarrow> ('w, unit) io" where
  "delete_application env =
     io_bind (delete_error env) (\<lambda>_. io_bind (unpin_release env) (\<lambda>_. ap_delete env))"

section \<open>Names that are accepted\<close>

lemma app_name_test: "re_test APP_NAME s \<longleftrightarrow> s \<noteq> [] \<and> (\<forall>c \<in> set s. app_name_char c)"
proof -
  have re: "APP_NAME = RSeq RBegin (RSeq (RPlus (RClass app_name_char)) REnd)" by (simp add: APP_NAME_def)
  have "anchor_free (RPlus (RClass app_name_char))" by (simp add: RPlus_def)
  then show ?thesis unfolding re by (simp add: re_test_anchored lang_plus_class)
qed

lemma missing_app_name_passes: "re_test APP_NAME (value_string None)"
  unfolding app_name_test by code_simp

text \<open>A slug has one slash, so it tells the organization from the application: no two applications share one by chance.\<close>

lemma slug_parts:
  assumes "getApplicationSlug (Some h) (Some n) = Inr s" "getApplicationSlug (Some h') (Some n') = Inr s"
    and "CHR ''/'' \<notin> set h" "CHR ''/'' \<notin> set h'"
  shows "js_toLowerCase h = js_toLowerCase h' \<and> js_toLowerCase n = js_toLowerCase n'"
proof -
  have slash: "to_lower_char c = CHR ''/'' \<longleftrightarrow> c = CHR ''/''" for c
  proof (cases "is_upper_char c")
    case True
    then have n: "65 \<le> (of_char c :: nat) \<and> (of_char c :: nat) \<le> 90" by (simp add: is_upper_char_def)
    then have "of_char (to_lower_char c) = (of_char c :: nat) + 32" using True by (simp add: to_lower_char_def)
    moreover have "of_char (CHR ''/'') = (47 :: nat)" by simp
    ultimately have "to_lower_char c \<noteq> CHR ''/''" "c \<noteq> CHR ''/''" using n by fastforce+
    then show ?thesis by simp
  qed (simp add: to_lower_char_def)
  have s: "js_toLowerCase h @ CHR ''/'' # js_toLowerCase n = js_toLowerCase h' @ CHR ''/'' # js_toLowerCase n'"
    using assms(1,2) slash [of "CHR ''/''"] by (simp add: getApplicationSlug_def js_toLowerCase_def)
  have none: "CHR ''/'' \<notin> set (js_toLowerCase x)" if "CHR ''/'' \<notin> set x" for x
    using that by (auto simp: js_toLowerCase_def image_iff eq_commute [of "CHR ''/''"] slash)
  show ?thesis by (rule unique_split [OF none [OF assms(3)] none [OF assms(4)] s])
qed

section \<open>The tables\<close>

text \<open>The view: the handle of an organization; the organization, name and slug of an application.\<close>

record app_view =
  av_handle :: "int \<Rightarrow> string option"
  av_app :: "int \<Rightarrow> (int \<times> string \<times> string) option"

definition slugs_match :: "app_view \<Rightarrow> bool" where
  "slugs_match v \<longleftrightarrow> (\<forall>a o' n s. av_app v a = Some (o', n, s) \<longrightarrow>
     (\<exists>h. av_handle v o' = Some h \<and> getApplicationSlug (Some h) (Some n) = Inr s))"

definition set_app_row :: "json obj \<Rightarrow> int \<times> string \<times> string \<Rightarrow> int \<times> string \<times> string" where
  "set_app_row vals row =
     (case row of (o', n, s) \<Rightarrow>
        (case map_of vals ''organization'' of Some (JNum p) \<Rightarrow> p | _ \<Rightarrow> o',
         case map_of vals ''app_name'' of Some (JStr m) \<Rightarrow> m | _ \<Rightarrow> n,
         case map_of vals ''slug'' of Some (JStr t) \<Rightarrow> t | _ \<Rightarrow> s))"

definition set_slug :: "string \<Rightarrow> int \<times> string \<times> string \<Rightarrow> int \<times> string \<times> string" where
  "set_slug s row = (case row of (o', n, _) \<Rightarrow> (o', n, s))"

text \<open>
  The types of columns are checked by the database, and so are references; the requester may see the organization
  and all applications of an organization that it changes.
\<close>

locale app_db =
  fixes env :: "'w app_env"
    and view :: "'w \<Rightarrow> app_view"
  assumes random: "keeps view (ap_random env)"
    and affected: "keeps view (ap_affected env)"
    and arch_count: "keeps view (ap_arch_count env dt ids)"
    and org_handle: "ap_org_handle env j w = (Inr h, w') \<Longrightarrow>
      view w' = view w \<and> (\<forall>o'. j = JNum o' \<longrightarrow> h = av_handle (view w) o')"
    and insert_row: "ap_insert env vals w = (Inr a, w') \<Longrightarrow> \<exists>o' n s. map_of vals ''organization'' = Some (JNum o') \<and>
      map_of vals ''app_name'' = Some (JStr n) \<and> map_of vals ''slug'' = Some (JStr s) \<and>
      av_handle (view w) o' \<noteq> None \<and> av_app (view w) a = None \<and>
      view w' = (view w)\<lparr>av_app := (av_app (view w))(a \<mapsto> (o', n, s))\<rparr>"
    and update_rows: "ap_update env vals w = (Inr ids, w') \<Longrightarrow> av_handle (view w') = av_handle (view w) \<and>
      (\<forall>a. av_app (view w') a = (if a \<in> set ids then map_option (set_app_row vals) (av_app (view w) a) else av_app (view w) a)) \<and>
      (\<forall>a \<in> set ids. \<forall>row. av_app (view w') a = Some row \<longrightarrow> av_handle (view w') (fst row) \<noteq> None) \<and>
      (\<forall>j. map_of vals ''organization'' = Some j \<longrightarrow> j = JNull \<or> (\<exists>p. j = JNum p)) \<and>
      (\<forall>j. map_of vals ''app_name'' = Some j \<longrightarrow> j = JNull \<or> (\<exists>m. j = JStr m))"
    and update_org: "ap_update_org env vals w = (Inr ids, w') \<Longrightarrow> av_app (view w') = av_app (view w) \<and>
      (\<forall>o'. av_handle (view w') o' = (case map_of vals ''handle'' of
         Some (JStr h) \<Rightarrow> (if o' \<in> set ids then map_option (\<lambda>_. h) (av_handle (view w) o') else av_handle (view w) o')
       | _ \<Rightarrow> av_handle (view w) o')) \<and>
      (\<forall>j. map_of vals ''handle'' = Some j \<longrightarrow> j = JNull \<or> (\<exists>h. j = JStr h))"
    and apps: "ap_apps env ids w = (Inr rows, w') \<Longrightarrow> view w' = view w \<and>
      set rows = {(a, n, h). a \<in> set ids \<and> (\<exists>o' s. av_app (view w) a = Some (o', n, s) \<and> h = av_handle (view w) o')}"
    and apps_of: "ap_apps_of env o' w = (Inr rs, w') \<Longrightarrow> view w' = view w \<and>
      set rs = {(a, n). \<exists>s. av_app (view w) a = Some (o', n, s)}"
    and patch_slug: "ap_patch_slug env a s w = (Inr u, w') \<Longrightarrow>
      view w' = (view w)\<lparr>av_app := (av_app (view w))(a := map_option (set_slug s) (av_app (view w) a))\<rparr>"
begin

text \<open>A new application.\<close>

lemma created:
  assumes "create_application env vals w = (Inr a, w')"
  shows "\<exists>o' h n s. av_handle (view w) o' = Some h \<and> av_app (view w) a = None \<and>
    n \<noteq> [] \<and> (\<forall>c \<in> set n. app_name_char c) \<and> getApplicationSlug (Some h) (Some n) = Inr s \<and>
    view w' = (view w)\<lparr>av_app := (av_app (view w))(a \<mapsto> (o', n, s))\<rparr>"
proof -
  obtain vals1 w1 vals2 w2 where run: "app_defaults env vals w = (Inr vals1, w1)"
    "slug_of_organization env (slug_default vals1) w1 = (Inr vals2, w2)" "ap_insert env vals2 w2 = (Inr a, w')"
    using assms by (auto simp: create_application_def io_run_iffs)
  have u: "keeps view (app_uuid env v)" for v
    using random by (auto simp: app_uuid_def intro!: keeps_bind split: option.split json.split)
  have "keeps view (app_defaults env vals)"
    using u by (auto simp: app_defaults_def Let_def intro!: keeps_bind)
  then have w1: "view w1 = view w" using run(1) by (rule keepsD)
  have name: "re_test APP_NAME (value_string (map_of vals1 ''app_name''))"
  proof -
    obtain vals3 w3 where d: "re_test APP_NAME (value_string (map_of (app_type_default env vals) ''app_name''))"
      "app_uuid env (app_type_default env vals) w = (Inr vals3, w3)"
      "vals1 = obj_set ''should_track_latest_release'' (JBool True) vals3"
      using run(1) by (auto simp: app_defaults_def Let_def io_run_iffs split: if_split_asm)
    have "map_of vals3 ''app_name'' = map_of (app_type_default env vals) ''app_name''"
      using d(2) by (auto simp: app_uuid_def io_run_iffs split: if_split_asm)
    then show ?thesis using d by simp
  qed
  obtain o' n s where row: "map_of vals2 ''organization'' = Some (JNum o')" "map_of vals2 ''app_name'' = Some (JStr n)"
    "map_of vals2 ''slug'' = Some (JStr s)" "av_handle (view w2) o' \<noteq> None" "av_app (view w2) a = None"
    "view w' = (view w2)\<lparr>av_app := (av_app (view w2))(a \<mapsto> (o', n, s))\<rparr>"
    using insert_row [OF run(3)] by blast
  define v where "v = slug_default vals1"
  have v: "map_of v ''app_name'' = map_of vals1 ''app_name''" by (simp add: v_def slug_default_def)
  have same: "map_of vals2 ''organization'' = map_of v ''organization''" "map_of vals2 ''app_name'' = map_of v ''app_name''"
    using run(2) [folded v_def]
    by (auto simp: slug_of_organization_def io_run_iffs split: if_split_asm option.split_asm)
  have org: "map_of v ''organization'' = Some (JNum o')" using row(1) same by simp
  obtain h' w3 where q: "ap_org_handle env (JNum o') w1 = (Inr h', w3)"
    "(case h' of None \<Rightarrow> io_return v | Some handle \<Rightarrow>
        io_bind (io_lift (getApplicationSlug (Some handle) (nullable_string (map_of v ''app_name'')))) (\<lambda>slug.
          io_return (obj_set ''slug'' (JStr slug) v))) w3 = (Inr vals2, w2)"
    using run(2) [folded v_def] by (auto simp: slug_of_organization_def org not_nullish_def io_bind_Inr_iff)
  have h': "view w3 = view w1" "h' = av_handle (view w1) o'" using org_handle [OF q(1)] by auto
  have w2: "w2 = w3" using q(2) by (auto simp: io_run_iffs split: option.split_asm)
  obtain h where h: "h' = Some h" using row(4) h' w2 by auto
  have appname: "map_of v ''app_name'' = Some (JStr n)" using row(2) same by simp
  have slug: "getApplicationSlug (Some h) (Some n) = Inr s"
    using q(2) row(3) by (auto simp: h io_run_iffs appname nullable_string_def not_nullish_def value_string_def)
  have "re_test APP_NAME n" using name by (simp add: appname [unfolded v] value_string_def)
  then show ?thesis using row slug h h' w2 w1 by (auto simp: app_name_test)
qed

text \<open>Slugs that are written again: those of the rows given, from their names and handles.\<close>

definition rows_ok :: "(int \<times> string \<times> string option) list \<Rightarrow> app_view \<Rightarrow> bool" where
  "rows_ok rows v \<longleftrightarrow> (\<forall>(a, n, h) \<in> set rows. \<exists>o' s. av_app v a = Some (o', n, s) \<and> h = av_handle v o')"

definition slug_ok :: "app_view \<Rightarrow> int \<Rightarrow> bool" where
  "slug_ok v a \<longleftrightarrow> (\<forall>o' n s. av_app v a = Some (o', n, s) \<longrightarrow>
     (\<exists>h. av_handle v o' = Some h \<and> getApplicationSlug (Some h) (Some n) = Inr s))"

lemma slugs_match_iff: "slugs_match v \<longleftrightarrow> (\<forall>a. slug_ok v a)"
  by (simp add: slugs_match_def slug_ok_def)

lemma row_patched:
  assumes "patch_row_slug env (a, n, h) w = (Inr u, w')"
    and "av_app (view w) a = Some (o', n, s)" and "h = av_handle (view w) o'"
  shows "\<exists>t. view w' = (view w)\<lparr>av_app := (av_app (view w))(a \<mapsto> (o', n, t))\<rparr> \<and> slug_ok (view w') a"
proof -
  obtain hd t where h: "h = Some hd" "getApplicationSlug (Some hd) (Some n) = Inr t" "ap_patch_slug env a t w = (Inr u, w')"
    using assms(1) by (auto simp: patch_row_slug_def io_run_iffs split: option.split_asm)
  have "view w' = (view w)\<lparr>av_app := (av_app (view w))(a \<mapsto> (o', n, t))\<rparr>"
    using patch_slug [OF h(3)] assms(2) by (simp add: set_slug_def)
  then show ?thesis using h assms(3) by (auto simp: slug_ok_def)
qed

lemma rows_patched:
  assumes "io_mapM (patch_row_slug env) rows w = (Inr us, w')" and "rows_ok rows (view w)"
  shows "av_handle (view w') = av_handle (view w) \<and> (\<forall>a. a \<notin> fst ` set rows \<longrightarrow> av_app (view w') a = av_app (view w) a) \<and>
    (\<forall>a \<in> fst ` set rows. slug_ok (view w') a) \<and>
    (\<forall>a. map_option (\<lambda>(o', n, s). (o', n)) (av_app (view w') a) = map_option (\<lambda>(o', n, s). (o', n)) (av_app (view w) a))"
  using assms
proof (induction rows arbitrary: w us)
  case Nil
  then show ?case by (simp add: io_return_Inr_iff)
next
  case (Cons row rows)
  obtain a n h where row: "row = (a, n, h)" by (cases row) auto
  obtain o' s where r: "av_app (view w) a = Some (o', n, s)" "h = av_handle (view w) o'"
    using Cons.prems(2) by (auto simp: rows_ok_def row)
  obtain u w1 us' where run: "patch_row_slug env (a, n, h) w = (Inr u, w1)" "io_mapM (patch_row_slug env) rows w1 = (Inr us', w')"
    using Cons.prems(1) by (auto simp: row io_run_iffs)
  obtain t where t: "view w1 = (view w)\<lparr>av_app := (av_app (view w))(a \<mapsto> (o', n, t))\<rparr>" "slug_ok (view w1) a"
    using row_patched [OF run(1) r] by blast
  have ok: "rows_ok rows (view w1)"
    unfolding rows_ok_def
  proof clarify
    fix b m k
    assume b: "(b, m, k) \<in> set rows"
    then obtain p s' where "av_app (view w) b = Some (p, m, s')" "k = av_handle (view w) p"
      using Cons.prems(2) by (auto simp: rows_ok_def)
    then show "\<exists>p s'. av_app (view w1) b = Some (p, m, s') \<and> k = av_handle (view w1) p"
      using r by (cases "b = a") (auto simp: t(1))
  qed
  note ih = Cons.IH [OF run(2) ok]
  have a: "slug_ok (view w') a"
  proof (cases "a \<in> fst ` set rows")
    case False
    then show ?thesis using ih t(2) by (simp add: slug_ok_def)
  qed (use ih in blast)
  have "\<forall>b. map_option (\<lambda>(o', n, s). (o', n)) (av_app (view w1) b) = map_option (\<lambda>(o', n, s). (o', n)) (av_app (view w) b)"
    using r by (simp add: t(1))
  then show ?case using ih a t(1) by (simp add: row)
qed

lemma application_patched:
  assumes "patch_application env vals w = (Inr (), w')" and "slugs_match (view w)" and "map_of vals ''slug'' = None"
  shows "slugs_match (view w')"
proof -
  obtain w1 ids w2 where run: "device_type_change env vals w = (Inr (), w1)" "ap_update env vals w1 = (Inr ids, w2)"
    "slugs_after_patch env vals ids w2 = (Inr (), w')"
    using assms(1) by (auto simp: patch_application_def io_run_iffs)
  have "keeps view (device_type_change env vals)"
    using affected arch_count by (auto simp: device_type_change_def intro!: keeps_bind)
  then have w1: "view w1 = view w" using run(1) by (rule keepsD)
  note upd = update_rows [OF run(2), unfolded w1]
  have others: "slug_ok (view w2) a" if "a \<notin> set ids" for a
    using assms(2) upd that by (simp add: slugs_match_iff slug_ok_def)
  show ?thesis
  proof (cases "ids \<noteq> [] \<and> (not_nullish (map_of vals ''organization'') \<or> not_nullish (map_of vals ''app_name''))")
    case True
    then obtain rows w3 us where q: "ap_apps env ids w2 = (Inr rows, w3)" "io_mapM (patch_row_slug env) rows w3 = (Inr us, w')"
      using run(3) by (auto simp: slugs_after_patch_def io_run_iffs)
    note a = apps [OF q(1)]
    have "rows_ok rows (view w3)" using a by (auto simp: rows_ok_def)
    note p = rows_patched [OF q(2) this]
    have "slug_ok (view w') b" for b
    proof (cases "b \<in> fst ` set rows")
      case False
      have "b \<notin> set ids \<or> av_app (view w2) b = None"
        using False a by (force simp: image_iff)
      then have "slug_ok (view w2) b" using others by (auto simp: slug_ok_def)
      then show ?thesis using p a False by (simp add: slug_ok_def)
    qed (use p in blast)
    then show ?thesis by (simp add: slugs_match_iff)
  next
    case False
    then have w': "w' = w2" using run(3) by (auto simp: slugs_after_patch_def io_run_iffs split: if_split_asm)
    have "slug_ok (view w2) a" for a
    proof (cases "a \<in> set ids")
      case True
      then have unset: "map_of vals ''organization'' = None \<or> map_of vals ''organization'' = Some JNull"
        "map_of vals ''app_name'' = None \<or> map_of vals ''app_name'' = Some JNull"
        using False by (auto simp: not_nullish_def)
      have "set_app_row vals row = row" for row
        using unset(1)
      proof
        assume "map_of vals ''organization'' = None"
        then show ?thesis using unset(2) assms(3) by (cases row) (elim disjE; simp add: set_app_row_def)
      next
        assume "map_of vals ''organization'' = Some JNull"
        then show ?thesis using unset(2) assms(3) by (cases row) (elim disjE; simp add: set_app_row_def)
      qed
      then have "av_app (view w2) a = av_app (view w) a"
        using upd True by (cases "av_app (view w) a") auto
      then show ?thesis using upd assms(2) by (simp add: slugs_match_iff slug_ok_def)
    qed (rule others)
    then show ?thesis by (simp add: slugs_match_iff w')
  qed
qed

text \<open>One organization: its applications get slugs of the new handle, other applications keep theirs.\<close>

lemma org_slugs:
  assumes "slugs_of_organization env (JStr h) o' w = (Inr u, w')" and "av_handle (view w) o' = Some h"
  shows "av_handle (view w') = av_handle (view w) \<and>
    (\<forall>a p n s. av_app (view w) a = Some (p, n, s) \<longrightarrow>
       (\<exists>t. av_app (view w') a = Some (p, n, t) \<and> (p \<noteq> o' \<longrightarrow> t = s) \<and> (p = o' \<longrightarrow> slug_ok (view w') a))) \<and>
    (\<forall>a. av_app (view w) a = None \<longrightarrow> av_app (view w') a = None)"
proof -
  obtain rs w1 us where run: "ap_apps_of env o' w = (Inr rs, w1)"
    "io_mapM (\<lambda>(app, app_name). patch_row_slug env (app, app_name, Some h)) rs w1 = (Inr us, w')"
    using assms(1) by (auto simp: slugs_of_organization_def io_run_iffs)
  note rs = apps_of [OF run(1)]
  have fold: "io_mapM (\<lambda>(app, app_name). patch_row_slug env (app, app_name, Some h)) rs =
      io_mapM (patch_row_slug env) (map (\<lambda>(a, n). (a, n, Some h)) rs)" for rs
    by (induction rs) auto
  let ?rows = "map (\<lambda>(a, n). (a, n, Some h)) rs"
  have ids: "fst ` set ?rows = {a. \<exists>n s. av_app (view w) a = Some (o', n, s)}"
    using rs by (force simp: image_iff)
  have "rows_ok ?rows (view w1)"
    using rs assms(2) by (auto simp: rows_ok_def)
  note p = rows_patched [OF run(2) [unfolded fold] this, unfolded ids]
  have same: "map_option (\<lambda>(o', n, s). (o', n)) (av_app (view w') a) = map_option (\<lambda>(o', n, s). (o', n)) (av_app (view w) a)" for a
    using p rs by auto
  show ?thesis
  proof (intro conjI allI impI)
    show "av_handle (view w') = av_handle (view w)" using p rs by simp
  next
    fix a q n s
    assume a: "av_app (view w) a = Some (q, n, s)"
    then obtain t where t: "av_app (view w') a = Some (q, n, t)" using same [of a] by auto
    show "\<exists>t. av_app (view w') a = Some (q, n, t) \<and> (q \<noteq> o' \<longrightarrow> t = s) \<and> (q = o' \<longrightarrow> slug_ok (view w') a)"
    proof (cases "q = o'")
      case True
      then show ?thesis using p a t by auto
    next
      case False
      then have "av_app (view w') a = av_app (view w1) a" using p a by auto
      then show ?thesis using a rs False by auto
    qed
  next
    fix a
    assume "av_app (view w) a = None"
    then show "av_app (view w') a = None" using same [of a] by auto
  qed
qed

lemma orgs_slugs:
  assumes "io_mapM (slugs_of_organization env (JStr h)) os w = (Inr us, w')"
    and "\<And>o' a n s. o' \<in> set os \<Longrightarrow> av_app (view w) a = Some (o', n, s) \<Longrightarrow> av_handle (view w) o' = Some h"
    and "\<And>a p n s. av_app (view w) a = Some (p, n, s) \<Longrightarrow> p \<notin> set os \<Longrightarrow> slug_ok (view w) a"
  shows "slugs_match (view w')"
  using assms
proof (induction os arbitrary: w us)
  case Nil
  then show ?case by (force simp: io_return_Inr_iff slugs_match_iff slug_ok_def)
next
  case (Cons x os)
  obtain u w1 us' where run: "slugs_of_organization env (JStr h) x w = (Inr u, w1)"
    "io_mapM (slugs_of_organization env (JStr h)) os w1 = (Inr us', w')"
    using Cons.prems(1) by (auto simp: io_run_iffs)
  show ?case
  proof (cases "\<exists>a n s. av_app (view w) a = Some (x, n, s)")
    case True
    then have hx: "av_handle (view w) x = Some h" using Cons.prems(2) by auto
    note one = org_slugs [OF run(1) hx]
    have former: "\<exists>s'. av_app (view w) a = Some (p, n, s') \<and> (p \<noteq> x \<longrightarrow> s' = s)" if "av_app (view w1) a = Some (p, n, s)" for a p n s
    proof (cases "av_app (view w) a")
      case None
      then show ?thesis using one that by simp
    next
      case (Some row)
      obtain p' n' s' where row: "row = (p', n', s')" by (cases row) auto
      then obtain t where "av_app (view w1) a = Some (p', n', t)" "p' \<noteq> x \<longrightarrow> t = s'" using one Some by blast
      then show ?thesis using that Some row by simp
    qed
    show ?thesis
    proof (rule Cons.IH [OF run(2)])
      fix o' a n s
      assume "o' \<in> set os" "av_app (view w1) a = Some (o', n, s)"
      then show "av_handle (view w1) o' = Some h"
        using former one Cons.prems(2) [of o'] by fastforce
    next
      fix a p n s
      assume a: "av_app (view w1) a = Some (p, n, s)" "p \<notin> set os"
      show "slug_ok (view w1) a"
      proof (cases "p = x")
        case True
        then show ?thesis using former [OF a(1)] one by auto
      next
        case False
        then have "av_app (view w) a = Some (p, n, s)" using former [OF a(1)] by auto
        then have "slug_ok (view w) a" using Cons.prems(3) a(2) False by auto
        then show ?thesis using a(1) one \<open>av_app (view w) a = Some (p, n, s)\<close> by (auto simp: slug_ok_def)
      qed
    qed
  next
    case False
    obtain rs w2 us2 where q: "ap_apps_of env x w = (Inr rs, w2)"
      "io_mapM (\<lambda>(app, app_name). patch_row_slug env (app, app_name, Some h)) rs w2 = (Inr us2, w1)"
      using run(1) by (auto simp: slugs_of_organization_def io_run_iffs)
    have "rs = []" using apps_of [OF q(1)] False by auto
    then have w1: "view w1 = view w" using q apps_of [OF q(1)] by (simp add: io_return_Inr_iff)
    show ?thesis
    proof (rule Cons.IH [OF run(2)], unfold w1)
      fix o' a n s
      assume "o' \<in> set os" "av_app (view w) a = Some (o', n, s)"
      then show "av_handle (view w) o' = Some h" by (intro Cons.prems(2)) simp_all
    next
      fix a p n s
      assume a: "av_app (view w) a = Some (p, n, s)" "p \<notin> set os"
      then have "p \<noteq> x" using False by blast
      then show "slug_ok (view w) a" using Cons.prems(3) [OF a(1)] a(2) by simp
    qed
  qed
qed

lemma organization_patched:
  assumes "patch_organization env lastIndex vals w = (Inr (), w')" and "slugs_match (view w)"
  shows "slugs_match (view w')"
proof -
  obtain ids w1 where run: "ap_update_org env vals w = (Inr ids, w1)" "slugs_after_org_patch env vals ids w1 = (Inr (), w')"
    using assms(1) by (auto simp: patch_organization_def io_run_iffs)
  note upd = update_org [OF run(1)]
  have unchanged: "slugs_match (view w1)" if "\<And>o'. av_handle (view w1) o' = av_handle (view w) o'"
    using assms(2) upd that by (simp add: slugs_match_def)
  show ?thesis
  proof (cases "ids \<noteq> [] \<and> not_nullish (map_of vals ''handle'')")
    case True
    then obtain h where h: "map_of vals ''handle'' = Some (JStr h)"
      using upd by (auto simp: not_nullish_def)
    then obtain us where q: "io_mapM (slugs_of_organization env (JStr h)) ids w1 = (Inr us, w')"
      using run(2) True by (auto simp: slugs_after_org_patch_def io_run_iffs not_nullish_def)
    show ?thesis
    proof (rule orgs_slugs [OF q])
      fix o' a n s
      assume a: "o' \<in> set ids" "av_app (view w1) a = Some (o', n, s)"
      then have "\<exists>k. av_handle (view w) o' = Some k" using assms(2) upd unfolding slugs_match_def by metis
      then show "av_handle (view w1) o' = Some h" using upd a(1) h by auto
    next
      fix a p n s
      assume "av_app (view w1) a = Some (p, n, s)" "p \<notin> set ids"
      then show "slug_ok (view w1) a" using assms(2) upd h by (auto simp: slugs_match_iff slug_ok_def)
    qed
  next
    case False
    then have w': "w' = w1" using run(2) by (auto simp: slugs_after_org_patch_def io_run_iffs split: if_split_asm)
    have "av_handle (view w1) o' = av_handle (view w) o'" for o'
    proof (cases "map_of vals ''handle''")
      case None
      then show ?thesis using upd by simp
    next
      case (Some j)
      then show ?thesis using upd False by (cases j) (auto simp: not_nullish_def)
    qed
    then show ?thesis using unchanged w' by simp
  qed
qed

end

section \<open>In memory\<close>

text \<open>\<open>seen\<close> are the applications that the requester may read, \<open>ids\<close> those it changes.\<close>

record app_world =
  aw_orgs :: "(int \<times> string) list"
  aw_apps :: "(int \<times> int \<times> string \<times> string) list"

definition mem_app_view :: "app_world \<Rightarrow> app_view" where
  "mem_app_view w = \<lparr>av_handle = map_of (aw_orgs w), av_app = map_of (aw_apps w)\<rparr>"

definition fresh_id :: "(int \<times> 'a) list \<Rightarrow> int" where
  "fresh_id xs = foldr max (map fst xs) 0 + 1"

lemma fresh_app_id: "map_of xs (fresh_id xs) = None"
proof -
  have m: "x \<in> set ys \<Longrightarrow> x \<le> foldr max ys (0 :: int)" for x ys by (induction ys) auto
  have "fresh_id xs \<notin> set (map fst xs)"
    using m [of "fresh_id xs" "map fst xs"] unfolding fresh_id_def by linarith
  then show ?thesis by (simp add: map_of_eq_None_iff)
qed

fun alist_change :: "('v \<Rightarrow> 'v) \<Rightarrow> int list \<Rightarrow> (int \<times> 'v) list \<Rightarrow> (int \<times> 'v) list" where
  "alist_change f ids [] = []"
| "alist_change f ids ((k, v) # xs) = (k, if k \<in> set ids then f v else v) # alist_change f ids xs"

lemma map_of_alist_change [simp]:
  "map_of (alist_change f ids xs) k = (if k \<in> set ids then map_option f (map_of xs k) else map_of xs k)"
  by (induction f ids xs rule: alist_change.induct) auto

definition typed :: "json obj \<Rightarrow> bool" where
  "typed vals \<longleftrightarrow>
     (case map_of vals ''organization'' of None \<Rightarrow> True | Some JNull \<Rightarrow> True | Some (JNum _) \<Rightarrow> True | _ \<Rightarrow> False) \<and>
     (case map_of vals ''app_name'' of None \<Rightarrow> True | Some JNull \<Rightarrow> True | Some (JStr _) \<Rightarrow> True | _ \<Rightarrow> False) \<and>
     (case map_of vals ''handle'' of None \<Rightarrow> True | Some JNull \<Rightarrow> True | Some (JStr _) \<Rightarrow> True | _ \<Rightarrow> False)"

definition mem_insert :: "json obj \<Rightarrow> (app_world, int) io" where
  "mem_insert vals w =
     (case (map_of vals ''organization'', map_of vals ''app_name'', map_of vals ''slug'') of
        (Some (JNum p), Some (JStr n), Some (JStr s)) \<Rightarrow>
          (if map_of (aw_orgs w) p = None then (Inl (BadRequestError []), w)
           else (Inr (fresh_id (aw_apps w)), w\<lparr>aw_apps := (fresh_id (aw_apps w), p, n, s) # aw_apps w\<rparr>))
      | _ \<Rightarrow> (Inl (BadRequestError []), w))"

definition mem_update :: "int list \<Rightarrow> json obj \<Rightarrow> (app_world, int list) io" where
  "mem_update ids vals w =
     (let apps = alist_change (set_app_row vals) ids (aw_apps w)
      in if typed vals \<and> list_all (\<lambda>i. case map_of apps i of None \<Rightarrow> True | Some row \<Rightarrow> map_of (aw_orgs w) (fst row) \<noteq> None) ids
         then (Inr ids, w\<lparr>aw_apps := apps\<rparr>) else (Inl (BadRequestError []), w))"

definition mem_update_org :: "int list \<Rightarrow> json obj \<Rightarrow> (app_world, int list) io" where
  "mem_update_org ids vals w =
     (if typed vals
      then (Inr ids, w\<lparr>aw_orgs := (case map_of vals ''handle'' of
              Some (JStr h) \<Rightarrow> alist_change (\<lambda>_. h) ids (aw_orgs w) | _ \<Rightarrow> aw_orgs w)\<rparr>)
      else (Inl (BadRequestError []), w))"

definition mem_apps :: "int list \<Rightarrow> (app_world, (int \<times> string \<times> string option) list) io" where
  "mem_apps ids w = (Inr (List.map_filter (\<lambda>i. case map_of (aw_apps w) i of
       None \<Rightarrow> None | Some (p, n, s) \<Rightarrow> Some (i, n, map_of (aw_orgs w) p)) (remdups ids)), w)"

definition mem_apps_of :: "(int \<Rightarrow> bool) \<Rightarrow> int \<Rightarrow> (app_world, (int \<times> string) list) io" where
  "mem_apps_of seen o' w = (Inr (List.map_filter (\<lambda>i. case map_of (aw_apps w) i of
       None \<Rightarrow> None | Some (p, n, s) \<Rightarrow> (if p = o' \<and> seen i then Some (i, n) else None)) (remdups (map fst (aw_apps w)))), w)"

definition mem_app_env :: "(int \<Rightarrow> bool) \<Rightarrow> int list \<Rightarrow> app_world app_env" where
  "mem_app_env seen ids =
     \<lparr>ap_default_type = JNum 1, ap_uuid_valid = (\<lambda>s. length s = 36), ap_uuid_version = (\<lambda>s. 4),
      ap_random = io_return (replicate 32 CHR ''a''), ap_affected = io_return ids, ap_has_key = True,
      ap_org_handle = \<lambda>j w. (Inr (case j of JNum p \<Rightarrow> map_of (aw_orgs w) p | _ \<Rightarrow> None), w),
      ap_insert = mem_insert, ap_update = mem_update ids, ap_delete = io_return (), ap_update_org = mem_update_org ids,
      ap_arch_count = \<lambda>j is. io_return 1, ap_apps = mem_apps, ap_apps_of = mem_apps_of seen,
      ap_patch_slug = \<lambda>a s w. (Inr (), w\<lparr>aw_apps := alist_change (set_slug s) [a] (aw_apps w)\<rparr>),
      ap_unpin = \<lambda>is. io_return ()\<rparr>"

lemma mem_update_rows:
  assumes "mem_update is vals w = (Inr ids, w')"
  shows "ids = is \<and> typed vals \<and> aw_orgs w' = aw_orgs w \<and> aw_apps w' = alist_change (set_app_row vals) is (aw_apps w) \<and>
    (\<forall>i \<in> set is. \<forall>row. map_of (aw_apps w') i = Some row \<longrightarrow> map_of (aw_orgs w) (fst row) \<noteq> None)"
proof -
  have c: "typed vals \<and> list_all (\<lambda>i. case map_of (alist_change (set_app_row vals) is (aw_apps w)) i of
      None \<Rightarrow> True | Some row \<Rightarrow> map_of (aw_orgs w) (fst row) \<noteq> None) is"
    using assms by (simp add: mem_update_def Let_def del: map_of_alist_change split: if_split_asm)
  have w': "ids = is" "w' = w\<lparr>aw_apps := alist_change (set_app_row vals) is (aw_apps w)\<rparr>"
    using assms c by (auto simp add: mem_update_def Let_def simp del: map_of_alist_change)
  have "\<forall>i \<in> set is. \<forall>row. map_of (aw_apps w') i = Some row \<longrightarrow> map_of (aw_orgs w) (fst row) \<noteq> None"
    using c unfolding list_all_iff w'(2) by (auto simp del: map_of_alist_change)
  then show ?thesis using c w' by simp
qed

interpretation mem_applications: app_db "mem_app_env (\<lambda>_. True) is" mem_app_view for "is"
proof (unfold_locales, goal_cases)
  case (5 vals w a w')
  then show ?case
    by (auto simp: mem_app_env_def mem_app_view_def mem_insert_def fresh_app_id
        split: option.splits json.splits if_split_asm)
next
  case (6 vals w ids w')
  then have "mem_update is vals w = (Inr ids, w')" by (simp add: mem_app_env_def)
  note u = mem_update_rows [OF this]
  then have "(\<forall>j. map_of vals ''organization'' = Some j \<longrightarrow> j = JNull \<or> (\<exists>p. j = JNum p)) \<and>
      (\<forall>j. map_of vals ''app_name'' = Some j \<longrightarrow> j = JNull \<or> (\<exists>m. j = JStr m))"
    by (auto simp: typed_def split: json.splits)
  then show ?case using u by (auto simp: mem_app_view_def)
next
  case (7 vals w ids w')
  then have "mem_update_org is vals w = (Inr ids, w')" by (simp add: mem_app_env_def)
  then show ?case
    by (auto simp: mem_update_org_def mem_app_view_def typed_def split: option.splits json.splits if_split_asm)
next
  case (8 ids w rows w')
  then show ?case
    by (auto simp: mem_app_env_def mem_app_view_def mem_apps_def set_map_filter split: option.splits) force
next
  case (9 p w rs w')
  have dom: "a \<in> fst ` set (aw_apps w)" if "map_of (aw_apps w) a = Some row" for a row
    using map_of_SomeD [OF that] by force
  have r: "w' = w" "rs = List.map_filter (\<lambda>i. case map_of (aw_apps w) i of
       None \<Rightarrow> None | Some (q, n, s) \<Rightarrow> (if q = p \<and> True then Some (i, n) else None)) (remdups (map fst (aw_apps w)))"
    using 9 by (auto simp: mem_app_env_def mem_apps_of_def)
  have "(a, n) \<in> set rs \<longleftrightarrow> (\<exists>s. map_of (aw_apps w) a = Some (p, n, s))" for a n
  proof
    show "(a, n) \<in> set rs \<Longrightarrow> \<exists>s. map_of (aw_apps w) a = Some (p, n, s)"
      by (auto simp: r(2) set_map_filter split: option.split_asm if_split_asm)
  next
    assume "\<exists>s. map_of (aw_apps w) a = Some (p, n, s)"
    then obtain s where s: "map_of (aw_apps w) a = Some (p, n, s)" ..
    then show "(a, n) \<in> set rs" using dom [OF s] unfolding r(2) set_map_filter mem_Collect_eq by (intro bexI [of _ a]) auto
  qed
  then show ?case by (auto simp: r(1) mem_app_view_def)
next
  case (10 a s w u w')
  then show ?case by (auto simp: mem_app_env_def mem_app_view_def fun_eq_iff)
qed (auto simp: mem_app_env_def mem_app_view_def keeps_def io_return_def split: json.splits)



text \<open>
  The applications of an organization are read with the permissions of the requester: one that it may not see keeps
  the slug with the former handle.
\<close>

lemma unseen_application_keeps_slug:
  "aw_apps (snd (patch_organization (mem_app_env (\<lambda>a. a \<noteq> 7) [3]) 0 [(''handle'', JStr ''new'')]
      \<lparr>aw_orgs = [(3, ''old'')], aw_apps = [(7, 3, ''App'', ''old/app'')]\<rparr>)) = [(7, 3, ''App'', ''old/app'')]"
  by code_simp

end
