(* ===== verification/HaikuName.thy ===== *)
theory HaikuName
  imports Prelude
begin

text \<open>The names that devices get when they have none (\<^verbatim>\<open>src/infra/haiku-name\<close>): an adjective and a noun.\<close>

definition adjs :: "string list" where
  "adjs =
    [''abrasive'', ''aged'', ''ancient'', ''angry'', ''antique'', ''artsy'', ''autumn'', ''average'', ''billowing'',
     ''bitter'', ''black'', ''blue'', ''bold'', ''brave'', ''calm'', ''cheeky'', ''clean'', ''cold'', ''complex'',
     ''cool'', ''creative'', ''crimson'', ''damp'', ''dark'', ''dawn'', ''deep'', ''defiant'', ''delicate'',
     ''divine'', ''dreary'', ''dry'', ''dull'', ''empty'', ''evil'', ''falling'', ''fancy'', ''fantastic'', ''fast'',
     ''fierce'', ''floral'', ''fragrant'', ''fried'', ''frosty'', ''funny'', ''gentle'', ''green'', ''grilled'',
     ''grumpy'', ''happy'', ''haunted'', ''hidden'', ''holy'', ''humble'', ''icy'', ''jolly'', ''kind'', ''large'',
     ''late'', ''lazy'', ''lingering'', ''little'', ''lively'', ''long'', ''mean'', ''medieval'', ''misty'',
     ''morning'', ''muddy'', ''nameless'', ''nice'', ''old'', ''patient'', ''perfect'', ''plain'', ''pleasant'',
     ''polished'', ''precise'', ''pretty'', ''proud'', ''purple'', ''quiet'', ''red'', ''restless'', ''rough'',
     ''round'', ''sentient'', ''shy'', ''silent'', ''silly'', ''simple'', ''sinister'', ''sleek'', ''slim'',
     ''slow'', ''small'', ''smart'', ''smooth'', ''snappy'', ''sneaky'', ''snowy'', ''solitary'', ''sparkling'',
     ''spring'', ''square'', ''steamed'', ''still'', ''stormy'', ''strange'', ''summer'', ''tenacious'', ''tense'',
     ''twilight'', ''vast'', ''wandering'', ''weathered'', ''white'', ''wicked'', ''wide'', ''wild'', ''winter'',
     ''wispy'', ''withered'', ''young'']"

definition nouns :: "string list" where
  "nouns =
    [''afternoon'', ''antelope'', ''apple'', ''beach'', ''bird'', ''bramble'', ''breakfast'', ''breeze'', ''bridge'',
     ''brook'', ''bush'', ''butterfly'', ''cactus'', ''car'', ''castle'', ''cherry'', ''cloud'', ''coffee'',
     ''cucumber'', ''darkness'', ''dawn'', ''desert'', ''dew'', ''dinner'', ''doorway'', ''dream'', ''drizzle'',
     ''dust'', ''engine'', ''feather'', ''field'', ''fin'', ''fire'', ''firefly'', ''fish'', ''flower'', ''fog'',
     ''forest'', ''frog'', ''frost'', ''glade'', ''glitter'', ''grass'', ''guard'', ''hail'', ''ham'', ''haze'',
     ''hill'', ''hour'', ''house'', ''hurricane'', ''jam'', ''lake'', ''leaf'', ''madness'', ''meadow'', ''mine'',
     ''mist'', ''monster'', ''moon'', ''morning'', ''mountain'', ''night'', ''notebook'', ''pancake'', ''paper'',
     ''photo'', ''picture'', ''pie'', ''pine'', ''plane'', ''pond'', ''potato'', ''rain'', ''rainfall'', ''ranch'',
     ''resonance'', ''river'', ''road'', ''robot'', ''rock'', ''scout'', ''sea'', ''shadow'', ''shape'', ''silence'',
     ''sky'', ''smoke'', ''snow'', ''snowflake'', ''sound'', ''spider'', ''star'', ''starfish'', ''stone'',
     ''stream'', ''street'', ''summer'', ''sun'', ''sunset'', ''surf'', ''table'', ''tea'', ''teapot'', ''tent'',
     ''thunder'', ''tile'', ''time'', ''tornado'', ''tree'', ''tundra'', ''turnip'', ''violet'', ''voice'',
     ''water'', ''waterfall'', ''wave'', ''whirlwind'', ''wildflower'', ''wind'', ''wood'', ''zombie'', ''zone'']"

definition bigNumber :: nat where
  "bigNumber = 2 ^ 12"

text \<open>\<open>adj\<close> and \<open>noun\<close> are the two random numbers, below \<open>bigNumber\<close>.\<close>

definition generate :: "nat \<Rightarrow> nat \<Rightarrow> string" where
  "generate adj noun = adjs ! (adj mod length adjs) @ ''-'' @ nouns ! (noun mod length nouns)"

lemma words: "list_all (list_all is_lower_char) adjs" "list_all (list_all is_lower_char) nouns"
  by (simp_all add: adjs_def nouns_def is_lower_char_def)

lemma word_counts: "length adjs = 123" "length nouns = 123"
  by (simp_all add: adjs_def nouns_def)

lemma word_in: "xs \<noteq> [] \<Longrightarrow> xs ! (i mod length xs) \<in> set xs"
  by simp

text \<open>The name is two words of small letters: it can be written in one line, and every word can be drawn.\<close>

lemma generated_chars: "c \<in> set (generate a n) \<Longrightarrow> is_lower_char c \<or> c = CHR ''-''"
proof -
  assume c: "c \<in> set (generate a n)"
  have ne: "adjs \<noteq> []" "nouns \<noteq> []" using word_counts by auto
  have "list_all is_lower_char (adjs ! (a mod length adjs))"
    by (rule bspec [OF words(1) [unfolded list_all_iff [of "list_all is_lower_char"]] word_in [OF ne(1)]])
  moreover have "list_all is_lower_char (nouns ! (n mod length nouns))"
    by (rule bspec [OF words(2) [unfolded list_all_iff [of "list_all is_lower_char"]] word_in [OF ne(2)]])
  ultimately show ?thesis using c by (auto simp: generate_def list_all_iff)
qed

lemma every_name_drawn:
  assumes "x \<in> set adjs" "y \<in> set nouns"
  shows "\<exists>a < bigNumber. \<exists>n < bigNumber. generate a n = x @ ''-'' @ y"
proof -
  obtain a n where an: "a < length adjs" "x = adjs ! a" "n < length nouns" "y = nouns ! n"
    using assms by (auto simp: in_set_conv_nth)
  then have "generate a n = x @ ''-'' @ y" by (simp add: generate_def)
  moreover have "a < bigNumber" "n < bigNumber" using an word_counts by (simp_all add: bigNumber_def)
  ultimately show ?thesis by blast
qed

end
