(* ===== verification/Devices.thy ===== *)
theory Devices
  imports Applications HaikuName
begin

text \<open>
  The hooks on devices (\<^verbatim>\<open>src/features/devices\<close>, \<^verbatim>\<open>device-urls\<close>) and the rules of application types that they apply
  (\<^verbatim>\<open>src/features/application-types\<close>): names, UUIDs, moving devices between applications; and the form of the names of
  profiles (\<^verbatim>\<open>src/features/profiles\<close>).
\<close>

section \<open>Application types\<close>

definition OS_TOO_LOW :: "string option \<Rightarrow> string option \<Rightarrow> string \<Rightarrow> exn" where
  "OS_TOO_LOW name version needed =
     ForbiddenError (''Device '' @ (case name of None \<Rightarrow> ''undefined'' | Some n \<Rightarrow> n) @
       (case version of
          None \<Rightarrow> '' is too old to satisfy required version range: ''
        | Some v \<Rightarrow> '' has OS version '' @ v @ '' but needs to satisfy version range: '') @ needed)"

definition WEB_URL_NOT_SUPPORTED :: exn where
  "WEB_URL_NOT_SUPPORTED = ForbiddenError ''The application type does not support web url.''"

text \<open>The fields of a device the rules look at: its version of the OS and of the supervisor, its name.\<close>

record dev_versions =
  ve_os :: "string option"
  ve_supervisor :: "string option"
  ve_name :: "string option"

text \<open>
  \<open>de_random\<close> draws a number below 4096.  \<open>de_satisfies\<close> compares a version with a range, \<open>de_app_type\<close> is the range of the type of an application
  (\<open>Some None\<close>: the type has none), \<open>de_versions\<close> reads devices that have a version at all.  \<open>de_no_web_url\<close> reads
  at most one application type of some devices that does not support web addresses.  \<open>de_application\<close> reads an
  application with the permissions of the request, \<open>de_elsewhere\<close> those of some devices that belong to another one.
\<close>

record 'w dev_env =
  de_now :: "('w, int) io"
  de_random :: "('w, nat) io"
  de_uuid :: "('w, string) io"
  de_satisfies :: "string \<Rightarrow> string \<Rightarrow> bool"
  de_affected :: "('w, int list) io"
  de_application :: "json \<Rightarrow> ('w, int option) io"
  de_app_type :: "json \<Rightarrow> ('w, string option option) io"
  de_versions :: "int list \<Rightarrow> ('w, dev_versions list) io"
  de_no_web_url :: "int list \<Rightarrow> ('w, int list) io"
  de_elsewhere :: "int list \<Rightarrow> json \<Rightarrow> ('w, int list) io"
  de_insert :: "json obj \<Rightarrow> ('w, int) io"
  de_update :: "json obj \<Rightarrow> ('w, unit) io"
  de_delete_installs :: "int list \<Rightarrow> ('w, unit) io"

definition checkDevicesCanHaveDeviceURL :: "'w dev_env \<Rightarrow> int list \<Rightarrow> ('w, unit) io" where
  "checkDevicesCanHaveDeviceURL env deviceIDs =
     (if length deviceIDs = 0 then io_return ()
      else io_bind (de_no_web_url env deviceIDs) (\<lambda>violators.
        if length violators > 0 then io_throw WEB_URL_NOT_SUPPORTED else io_return ()))"

definition checkVersion :: "'w dev_env \<Rightarrow> string \<Rightarrow> dev_versions \<Rightarrow> unit res" where
  "checkVersion env needed device =
     (case ve_os device of
        None \<Rightarrow> (if ve_supervisor device \<noteq> None then Inl (OS_TOO_LOW (ve_name device) None needed) else Inr ())
      | Some v \<Rightarrow>
          (if \<not> de_satisfies env v needed then Inl (OS_TOO_LOW (ve_name device) (Some v) needed) else Inr ()))"

definition checkDeviceCanBeInApplication :: "'w dev_env \<Rightarrow> json \<Rightarrow> dev_versions \<Rightarrow> ('w, unit) io" where
  "checkDeviceCanBeInApplication env app device =
     io_bind (de_app_type env app) (\<lambda>appType.
       case appType of
         Some (Some needed) \<Rightarrow> io_lift (checkVersion env needed device)
       | _ \<Rightarrow> io_return ())"

definition checkDevicesCanBeInApplication :: "'w dev_env \<Rightarrow> json \<Rightarrow> int list \<Rightarrow> ('w, unit) io" where
  "checkDevicesCanBeInApplication env app deviceIds =
     io_bind (de_app_type env app) (\<lambda>appType.
       case appType of
         Some (Some needed) \<Rightarrow>
           io_bind (de_versions env deviceIds) (\<lambda>devices.
           io_bind (io_mapM (\<lambda>d. io_lift (checkVersion env needed d)) devices) (\<lambda>_. io_return ()))
       | _ \<Rightarrow> io_return ())"

section \<open>New devices\<close>

definition newline :: "char \<Rightarrow> bool" where
  "newline c \<longleftrightarrow> c = char_of (13 :: nat) \<or> c = char_of (10 :: nat)"

definition INVALID_NEWLINE_REGEX :: re where
  "INVALID_NEWLINE_REGEX = RAlt (RChar (char_of (13 :: nat))) (RChar (char_of (10 :: nat)))"

definition isDeviceNameValid :: "string \<Rightarrow> bool" where
  "isDeviceNameValid name \<longleftrightarrow> \<not> re_test INVALID_NEWLINE_REGEX name"

definition hex_char :: "char \<Rightarrow> bool" where
  "hex_char c \<longleftrightarrow> is_digit_char c \<or> c \<in> set ''abcdef''"

definition DEVICE_UUID :: re where
  "DEVICE_UUID = RSeq RBegin (RSeq (RSeq (RSeqs (replicate 32 (RClass hex_char)))
     (ROpt (RGroup 1 (RSeqs (replicate 30 (RClass hex_char)))))) REnd)"

definition haiku_name :: "'w dev_env \<Rightarrow> ('w, string) io" where
  "haiku_name env = io_bind (de_random env) (\<lambda>a. io_bind (de_random env) (\<lambda>n. io_return (generate a n)))"

definition device_name_default :: "'w dev_env \<Rightarrow> json obj \<Rightarrow> ('w, json obj) io" where
  "device_name_default env vals =
     (case map_of vals ''device_name'' of
        Some (JStr name) \<Rightarrow>
          (if \<not> isDeviceNameValid name
           then io_throw (BadRequestError ''Device name cannot contain any newline characters.'')
           else if name = [] then io_bind (haiku_name env) (\<lambda>h. io_return (obj_set ''device_name'' (JStr h) vals))
           else io_return vals)
      | other \<Rightarrow>
          (if not_nullish other then io_throw (BadRequestError ''Device name must be a string if provided.'')
           else io_bind (haiku_name env) (\<lambda>h. io_return (obj_set ''device_name'' (JStr h) vals))))"

definition fresh_uuid :: "'w dev_env \<Rightarrow> ('w, string) io" where
  "fresh_uuid env = io_bind (de_uuid env) (\<lambda>u. io_return (filter (\<lambda>c. c \<noteq> CHR ''-'') u))"

definition device_uuid_default :: "'w dev_env \<Rightarrow> json obj \<Rightarrow> ('w, json obj) io" where
  "device_uuid_default env vals =
     io_bind (case map_of vals ''uuid'' of
                Some (JStr u) \<Rightarrow> (if u = [] then fresh_uuid env else io_return u)
              | other \<Rightarrow> (if not_nullish other then io_throw (BadRequestError ''Device UUID must be a string if provided.'')
                         else fresh_uuid env)) (\<lambda>u.
       if \<not> re_test DEVICE_UUID u
       then io_throw (BadRequestError ''Device UUID must be a 32 or 62 character long lower case hex string.'')
       else io_return (obj_set ''uuid'' (JStr u) vals))"

definition device_post :: "'w dev_env \<Rightarrow> json obj \<Rightarrow> ('w, json obj) io" where
  "device_post env vals = io_bind (device_name_default env vals) (device_uuid_default env)"

text \<open>The versions and name in the values of a request.\<close>

definition versions_of :: "json obj \<Rightarrow> dev_versions" where
  "versions_of vals = \<lparr>ve_os = nullable_string (map_of vals ''os_version''),
     ve_supervisor = nullable_string (map_of vals ''supervisor_version''),
     ve_name = map_option json_string (map_of vals ''device_name'')\<rparr>"

definition create_device :: "'w dev_env \<Rightarrow> json obj \<Rightarrow> ('w, int) io" where
  "create_device env vals =
     io_bind (device_post env vals) (\<lambda>vals1.
     io_bind (de_insert env vals1) (\<lambda>i.
     io_bind (checkDeviceCanBeInApplication env
               (case map_of vals1 ''belongs_to__application'' of None \<Rightarrow> JNull | Some j \<Rightarrow> j) (versions_of vals1)) (\<lambda>_.
       io_return i)))"

section \<open>Changed devices\<close>

definition not_line_end :: "char \<Rightarrow> bool" where
  "not_line_end c \<longleftrightarrow> c \<noteq> char_of (10 :: nat) \<and> c \<noteq> char_of (13 :: nat)"

definition VARIANT_IN_VERSION :: re where
  "VARIANT_IN_VERSION = RSeqs [RBegin, RStar (RClass not_line_end), RChar CHR ''('', RGroup 1 (RPlus (RClass not_line_end)),
     RChar CHR '')'', REnd]"

definition variant_of_version :: "json obj \<Rightarrow> json obj" where
  "variant_of_version vals =
     (if not_nullish (map_of vals ''os_version'') \<and> \<not> not_nullish (map_of vals ''os_variant'')
      then (case re_match VARIANT_IN_VERSION (value_string (map_of vals ''os_version'')) of
              None \<Rightarrow> vals
            | Some groups \<Rightarrow> obj_set ''os_variant'' (JStr (the (map_of groups 1))) vals)
      else vals)"

definition unpin_moved :: "json obj \<Rightarrow> json obj" where
  "unpin_moved vals =
     (if not_nullish (map_of vals ''belongs_to__application'') \<and> map_of vals ''is_pinned_on__release'' = None
      then obj_set ''is_pinned_on__release'' JNull vals else vals)"

definition vpn_online :: "int \<Rightarrow> json obj \<Rightarrow> json obj" where
  "vpn_online now vals =
     (if not_nullish (map_of vals ''is_connected_to_vpn'')
      then obj_set ''last_vpn_event'' (JNum now) (obj_set ''is_online'' (the (map_of vals ''is_connected_to_vpn'')) vals)
      else vals)"

definition connectivity_event :: "int \<Rightarrow> json obj \<Rightarrow> json obj" where
  "connectivity_event now vals =
     (if not_nullish (map_of vals ''is_online'') then obj_set ''last_connectivity_event'' (JNum now) vals else vals)"

definition device_patch :: "'w dev_env \<Rightarrow> json obj \<Rightarrow> ('w, json obj) io" where
  "device_patch env vals =
     (if not_nullish (map_of vals ''device_name'') \<and> \<not> isDeviceNameValid (value_string (map_of vals ''device_name''))
      then io_throw (BadRequestError ''Device name cannot contain any newline characters.'')
      else io_bind (de_now env) (\<lambda>now.
        io_return (connectivity_event now (vpn_online now (unpin_moved (variant_of_version vals))))))"

lemma patched_application [simp]:
  "map_of (connectivity_event now (vpn_online now (unpin_moved (variant_of_version vals)))) ''belongs_to__application'' =
     map_of vals ''belongs_to__application''"
proof -
  have "map_of (connectivity_event now v) ''belongs_to__application'' = map_of v ''belongs_to__application''"
    "map_of (vpn_online now v) ''belongs_to__application'' = map_of v ''belongs_to__application''"
    "map_of (unpin_moved v) ''belongs_to__application'' = map_of v ''belongs_to__application''"
    "map_of (variant_of_version v) ''belongs_to__application'' = map_of v ''belongs_to__application''" for v
    by (simp_all add: connectivity_event_def vpn_online_def unpin_moved_def variant_of_version_def split: option.split)
  then show ?thesis by simp
qed

definition INACCESSIBLE_APP :: exn where
  "INACCESSIBLE_APP = NotFoundError (''Application doesn'' @ [CHR 0x27] @ ''t exist or you have no access to it.'')"

definition moving_before :: "'w dev_env \<Rightarrow> json obj \<Rightarrow> ('w, int list option) io" where
  "moving_before env vals =
     (if not_nullish (map_of vals ''belongs_to__application'')
      then let app = the (map_of vals ''belongs_to__application'')
        in io_bind (io_catch (de_application env app) (\<lambda>_. io_throw INACCESSIBLE_APP)) (\<lambda>found.
             if found = None then io_throw INACCESSIBLE_APP
             else io_bind (de_affected env) (\<lambda>deviceIds.
               if deviceIds = [] then io_return None
               else io_bind (de_elsewhere env deviceIds app) (\<lambda>devices.
                    io_bind (checkDevicesCanBeInApplication env app deviceIds) (\<lambda>_. io_return (Some devices)))))
      else io_return None)"

definition moving_after :: "'w dev_env \<Rightarrow> json obj \<Rightarrow> int list option \<Rightarrow> ('w, unit) io" where
  "moving_after env vals movedDevices =
     (if not_nullish (map_of vals ''belongs_to__application'')
      then (case movedDevices of
              None \<Rightarrow> io_return ()
            | Some ids \<Rightarrow> (if length ids > 0 then de_delete_installs env ids else io_return ()))
      else io_return ())"

definition web_access :: "'w dev_env \<Rightarrow> json obj \<Rightarrow> ('w, unit) io" where
  "web_access env vals =
     (if truthy (map_of vals ''is_web_accessible'')
      then io_bind (de_affected env) (checkDevicesCanHaveDeviceURL env)
      else io_return ())"

definition patch_device :: "'w dev_env \<Rightarrow> json obj \<Rightarrow> ('w, unit) io" where
  "patch_device env vals =
     io_bind (device_patch env vals) (\<lambda>vals1.
     io_bind (web_access env vals1) (\<lambda>_.
     io_bind (moving_before env vals1) (\<lambda>movedDevices.
     io_bind (de_update env vals1) (\<lambda>_. moving_after env vals1 movedDevices))))"

section \<open>Profiles\<close>

definition profile_char :: "char \<Rightarrow> bool" where
  "profile_char c \<longleftrightarrow> is_word_char c \<or> c = CHR ''.'' \<or> c = CHR ''-''"

definition PROFILE_NAME_REGEX :: re where
  "PROFILE_NAME_REGEX = RSeqs [RBegin, RClass (\<lambda>c. is_alpha_char c \<or> is_digit_char c), RPlus (RClass profile_char), REnd]"

text \<open>The field has to be a text of that form, other fields pass.\<close>

definition profile_hook :: "string \<Rightarrow> json obj \<Rightarrow> json obj res" where
  "profile_hook field vals =
     (case map_of vals field of
        Some (JStr s) \<Rightarrow> (if re_test PROFILE_NAME_REGEX s then Inr vals else Inl (BadRequestError []))
      | _ \<Rightarrow> Inl (BadRequestError []))"

definition image_profile_hook :: "json obj \<Rightarrow> json obj res" where
  "image_profile_hook = profile_hook ''profile_name''"

definition application_profile_hook :: "json obj \<Rightarrow> json obj res" where
  "application_profile_hook = profile_hook ''activates__profile_name''"

section \<open>The tables\<close>

text \<open>
  The view: the application and the versions of a device, the range of versions of an application, and the device and
  status of an install.  \<open>targets\<close> are the devices a request is about.
\<close>

record device_view =
  dv_app :: "int \<Rightarrow> int option"
  dv_versions :: "int \<Rightarrow> dev_versions"
  dv_range :: "int \<Rightarrow> string option"
  dv_installs :: "int \<Rightarrow> (int \<times> string) option"

definition mark_deleted :: "int list \<Rightarrow> int \<times> string \<Rightarrow> int \<times> string" where
  "mark_deleted devices row = (if fst row \<in> set devices then (fst row, ''deleted'') else row)"

definition version_allowed :: "'w dev_env \<Rightarrow> string option \<Rightarrow> dev_versions \<Rightarrow> bool" where
  "version_allowed env needed v =
     (case needed of None \<Rightarrow> True | Some r \<Rightarrow>
        (case ve_os v of None \<Rightarrow> ve_supervisor v = None | Some x \<Rightarrow> de_satisfies env x r))"

locale device_db =
  fixes env :: "'w dev_env"
    and view :: "'w \<Rightarrow> device_view"
    and targets :: "int list"
  assumes now: "keeps view (de_now env)"
    and no_web_url: "keeps view (de_no_web_url env is)"
    and application: "keeps view (de_application env app)"
    and affected: "de_affected env w = (Inr ids, w') \<Longrightarrow> view w' = view w \<and> ids = targets"
    and app_type: "de_app_type env app w = (Inr x, w') \<Longrightarrow> view w' = view w \<and>
      (\<forall>p. app = JNum p \<longrightarrow> (case x of None \<Rightarrow> None | Some r \<Rightarrow> r) = dv_range (view w) p)"
    and versions: "de_versions env ids w = (Inr vs, w') \<Longrightarrow> view w' = view w \<and>
      set vs = {v. (\<exists>d \<in> set ids. dv_app (view w) d \<noteq> None \<and> v = dv_versions (view w) d) \<and> (ve_os v \<noteq> None \<or> ve_supervisor v \<noteq> None)}"
    and elsewhere: "de_elsewhere env ids app w = (Inr ds, w') \<Longrightarrow> view w' = view w \<and>
      (\<forall>p. app = JNum p \<longrightarrow> set ds = {d \<in> set ids. dv_app (view w) d \<noteq> None \<and> dv_app (view w) d \<noteq> Some p})"
    and update_devices: "de_update env vals w = (Inr u, w') \<Longrightarrow> dv_installs (view w') = dv_installs (view w) \<and>
      (\<forall>d p. map_of vals ''belongs_to__application'' = Some (JNum p) \<longrightarrow> d \<in> set targets \<longrightarrow>
        dv_app (view w') d = map_option (\<lambda>_. p) (dv_app (view w) d))"
    and delete_installs: "de_delete_installs env ds w = (Inr u, w') \<Longrightarrow> dv_app (view w') = dv_app (view w) \<and>
      (\<forall>i. dv_installs (view w') i = map_option (mark_deleted ds) (dv_installs (view w) i))"
begin

lemma versions_checked:
  assumes "checkDevicesCanBeInApplication env (JNum p) ids w = (Inr u, w')" and "d \<in> set ids" and "dv_app (view w) d \<noteq> None"
  shows "version_allowed env (dv_range (view w) p) (dv_versions (view w) d)"
proof -
  obtain x w1 where x: "de_app_type env (JNum p) w = (Inr x, w1)"
    "(case x of Some (Some needed) \<Rightarrow> io_bind (de_versions env ids) (\<lambda>devices.
        io_bind (io_mapM (\<lambda>d. io_lift (checkVersion env needed d)) devices) (\<lambda>_. io_return ()))
      | _ \<Rightarrow> io_return ()) w1 = (Inr u, w')"
    using assms(1) by (auto simp: checkDevicesCanBeInApplication_def io_bind_Inr_iff)
  note t = app_type [OF x(1)]
  show ?thesis
  proof (cases "dv_range (view w) p")
    case None
    then show ?thesis by (simp add: version_allowed_def)
  next
    case (Some needed)
    then have "x = Some (Some needed)" using t by (cases x) auto
    then obtain vs w2 us where q: "de_versions env ids w1 = (Inr vs, w2)"
      "io_mapM (\<lambda>d. io_lift (checkVersion env needed d)) vs w2 = (Inr us, w')"
      using x(2) by (auto simp: io_run_iffs)
    have all: "v \<in> set vs \<Longrightarrow> io_mapM (\<lambda>d. io_lift (checkVersion env needed d)) vs w2 = (Inr us, w') \<Longrightarrow>
        checkVersion env needed v = Inr ()" for v vs w2 us w'
      by (induction vs arbitrary: w2 us) (auto simp: io_run_iffs)
    let ?v = "dv_versions (view w) d"
    show ?thesis
    proof (cases "ve_os ?v = None \<and> ve_supervisor ?v = None")
      case False
      then have "?v \<in> set vs" using versions [OF q(1)] assms(2,3) t by auto
      from all [OF this q(2)] show ?thesis
        by (auto simp: Some version_allowed_def checkVersion_def split: option.splits if_split_asm)
    qed (simp add: version_allowed_def Some)
  qed
qed

lemma checks_view:
  assumes "checkDevicesCanBeInApplication env app ids w = (Inr u, w')"
  shows "view w' = view w"
proof -
  obtain x w1 where x: "de_app_type env app w = (Inr x, w1)"
    "(case x of Some (Some needed) \<Rightarrow> io_bind (de_versions env ids) (\<lambda>devices.
        io_bind (io_mapM (\<lambda>d. io_lift (checkVersion env needed d)) devices) (\<lambda>_. io_return ()))
      | _ \<Rightarrow> io_return ()) w1 = (Inr u, w')"
    using assms by (auto simp: checkDevicesCanBeInApplication_def io_bind_Inr_iff)
  have lifted: "io_mapM (\<lambda>d. io_lift (checkVersion env r d)) vs v = (Inr us, v') \<Longrightarrow> v' = v" for r vs v us v'
    by (induction vs arbitrary: us) (auto simp: io_run_iffs)
  show ?thesis
  proof (cases x)
    case None
    then show ?thesis using x app_type [OF x(1)] by (simp add: io_return_Inr_iff)
  next
    case (Some r)
    then show ?thesis
    proof (cases r)
      case None
      then show ?thesis using x Some app_type [OF x(1)] by (simp add: io_return_Inr_iff)
    next
      case (Some needed)
      with \<open>x = Some r\<close> x(2) obtain vs w2 us where "de_versions env ids w1 = (Inr vs, w2)"
        "io_mapM (\<lambda>d. io_lift (checkVersion env needed d)) vs w2 = (Inr us, w')"
        by (auto simp: io_run_iffs)
      then show ?thesis using versions lifted app_type [OF x(1)] by metis
    qed
  qed
qed

lemma moving_checked:
  assumes "moving_before env vals w = (Inr moved, w')" and "map_of vals ''belongs_to__application'' = Some (JNum p)"
    and "d \<in> set targets" and "dv_app (view w) d = Some q"
  shows "view w' = view w \<and> version_allowed env (dv_range (view w) p) (dv_versions (view w) d) \<and>
    (\<exists>ds. moved = Some ds \<and> set ds = {d \<in> set targets. dv_app (view w) d \<noteq> None \<and> dv_app (view w) d \<noteq> Some p})"
proof -
  have nn: "not_nullish (map_of vals ''belongs_to__application'')" using assms(2) by (simp add: not_nullish_def)
  obtain found w1 ids w2 where run: "io_catch (de_application env (JNum p)) (\<lambda>_. io_throw INACCESSIBLE_APP) w = (Inr found, w1)"
    "de_affected env w1 = (Inr ids, w2)"
    "(if ids = [] then io_return None else io_bind (de_elsewhere env ids (JNum p)) (\<lambda>devices.
        io_bind (checkDevicesCanBeInApplication env (JNum p) ids) (\<lambda>_. io_return (Some devices)))) w2 = (Inr moved, w')"
    using assms(1) nn by (auto simp: moving_before_def assms(2) Let_def io_run_iffs split: if_split_asm)
  have w1: "view w1 = view w"
    by (rule keepsD [OF keeps_catch [OF application keeps_throw] run(1)])
  have ids: "view w2 = view w" "ids = targets" using affected [OF run(2)] w1 by auto
  then have "ids \<noteq> []" using assms(3) by auto
  then obtain ds w3 u where q: "de_elsewhere env ids (JNum p) w2 = (Inr ds, w3)"
    "checkDevicesCanBeInApplication env (JNum p) ids w3 = (Inr u, w')" "moved = Some ds"
    using run(3) by (auto simp: io_run_iffs)
  have w3: "view w3 = view w" using elsewhere [OF q(1)] ids by simp
  have "version_allowed env (dv_range (view w3) p) (dv_versions (view w3) d)"
    by (rule versions_checked [OF q(2)]) (use assms(3,4) ids w3 in auto)
  then show ?thesis using checks_view [OF q(2)] w3 elsewhere [OF q(1)] ids q(3) by auto
qed

lemma moved:
  assumes "patch_device env vals w = (Inr (), w')" and "map_of vals ''belongs_to__application'' = Some (JNum p)"
    and "d \<in> set targets" and "dv_app (view w) d = Some q"
  shows "dv_app (view w') d = Some p \<and> version_allowed env (dv_range (view w) p) (dv_versions (view w) d) \<and>
    (\<forall>i status. dv_installs (view w) i = Some (d, status) \<longrightarrow>
       dv_installs (view w') i = Some (d, if q = p then status else ''deleted''))"
proof -
  obtain vals1 w1 u2 w2 ds w3 u4 w4 where run: "device_patch env vals w = (Inr vals1, w1)" "web_access env vals1 w1 = (Inr u2, w2)"
    "moving_before env vals1 w2 = (Inr ds, w3)" "de_update env vals1 w3 = (Inr u4, w4)"
    "moving_after env vals1 ds w4 = (Inr (), w')"
    using assms(1) by (auto simp: patch_device_def io_run_iffs)
  have "keeps view (device_patch env vals)"
    using now by (auto simp: device_patch_def intro!: keeps_bind)
  then have w1: "view w1 = view w" using run(1) by (rule keepsD)
  have w2: "view w2 = view w"
  proof (cases "truthy (map_of vals1 ''is_web_accessible'')")
    case True
    then obtain ids w' where q: "de_affected env w1 = (Inr ids, w')" "checkDevicesCanHaveDeviceURL env ids w' = (Inr u2, w2)"
      using run(2) by (auto simp: web_access_def io_bind_Inr_iff)
    have "keeps view (checkDevicesCanHaveDeviceURL env ids)"
      using no_web_url by (auto simp: checkDevicesCanHaveDeviceURL_def intro!: keeps_bind)
    then show ?thesis using q affected [OF q(1)] w1 by (metis keepsD)
  qed (use run(2) w1 in \<open>simp add: web_access_def io_return_Inr_iff\<close>)
  have app: "map_of vals1 ''belongs_to__application'' = Some (JNum p)"
    using run(1) assms(2) by (auto simp: device_patch_def io_run_iffs split: if_split_asm)
  note m = moving_checked [OF run(3) app assms(3), unfolded w2, OF assms(4)]
  then obtain ids where ids: "ds = Some ids"
    "set ids = {d \<in> set targets. dv_app (view w) d \<noteq> None \<and> dv_app (view w) d \<noteq> Some p}" by blast
  have upd: "dv_installs (view w4) = dv_installs (view w)" "dv_app (view w4) d = Some p"
    using update_devices [OF run(4)] app assms(3,4) m by auto
  have after: "(if ids \<noteq> [] then de_delete_installs env ids else io_return ()) w4 = (Inr (), w')"
    using run(5) by (simp add: moving_after_def app not_nullish_def ids(1) split: if_split_asm)
  show ?thesis
  proof (cases "ids = []")
    case True
    then have "q = p" using ids(2) assms(3,4) by auto
    then show ?thesis using m upd after True by (simp add: io_return_Inr_iff)
  next
    case False
    then have "de_delete_installs env ids w4 = (Inr (), w')" using after by simp
    note del = delete_installs [OF this]
    have "d \<in> set ids \<longleftrightarrow> q \<noteq> p" using ids(2) assms(3,4) by auto
    then show ?thesis using m upd del by (auto simp: mark_deleted_def)
  qed
qed

end

section \<open>New devices are well formed\<close>

lemma newline_test: "isDeviceNameValid name \<longleftrightarrow> (\<forall>c \<in> set name. \<not> newline c)"
proof -
  have "re_search INVALID_NEWLINE_REGEX i name = None \<longleftrightarrow> (\<forall>c \<in> set name. \<not> newline c)" for i
    by (induction name arbitrary: i) (auto simp: re_search_rec INVALID_NEWLINE_REGEX_def RChar_def newline_def)
  then show ?thesis by (simp add: isDeviceNameValid_def re_test_def)
qed

lemma lang_replicate_class:
  "0 < n \<Longrightarrow> re_lang (RSeqs (replicate n (RClass p))) s \<longleftrightarrow> length s = n \<and> (\<forall>c \<in> set s. p c)"
proof (induction n arbitrary: s)
  case (Suc n)
  show ?case
  proof (cases n)
    case 0
    then show ?thesis by (cases s) auto
  next
    case (Suc m)
    have "re_lang (RSeqs (replicate (Suc n) (RClass p))) s \<longleftrightarrow>
        (\<exists>c t. s = c # t \<and> p c \<and> re_lang (RSeqs (replicate n (RClass p))) t)"
      by (auto simp: Suc lang_seq_simp intro: exI [of _ "[_]"])
    then show ?thesis using Suc.IH [of "tl s"] Suc by (cases s) auto
  qed
qed simp

lemma uuid_test: "re_test DEVICE_UUID s \<longleftrightarrow> length s \<in> {32, 62} \<and> (\<forall>c \<in> set s. hex_char c)"
proof -
  let ?hex = "\<lambda>n. RSeqs (replicate n (RClass hex_char))"
  have "anchor_free (?hex (Suc n))" for n by (induction n) (auto split: nat.splits)
  from this [of 31] this [of 29] have af: "anchor_free (?hex 32)" "anchor_free (?hex 30)"
    by (simp_all)
  then have "re_test DEVICE_UUID s \<longleftrightarrow> re_lang (RSeq (?hex 32) (ROpt (RGroup 1 (?hex 30)))) s"
    unfolding DEVICE_UUID_def by (intro re_test_anchored) (simp add: ROpt_def)
  also have "\<dots> \<longleftrightarrow> (\<exists>u v. s = u @ v \<and> re_lang (?hex 32) u \<and> (re_lang (?hex 30) v \<or> v = []))"
    by (auto simp: lang_seq_simp ROpt_def)
  also have "\<dots> \<longleftrightarrow> (\<exists>u v. s = u @ v \<and> length u = 32 \<and> (\<forall>c \<in> set u. hex_char c) \<and>
      (length v = 30 \<and> (\<forall>c \<in> set v. hex_char c) \<or> v = []))"
    by (simp add: lang_replicate_class)
  also have "\<dots> \<longleftrightarrow> length s \<in> {32, 62} \<and> (\<forall>c \<in> set s. hex_char c)" (is "?l \<longleftrightarrow> ?r")
  proof
    assume ?r
    then have "set (take 32 s) \<subseteq> set s" "set (drop 32 s) \<subseteq> set s" by (simp_all add: set_take_subset set_drop_subset)
    then show ?l using \<open>?r\<close> by (intro exI [of _ "take 32 s"] exI [of _ "drop 32 s"]) auto
  qed auto
  finally show ?thesis .
qed

lemma haiku_name_ok: "haiku_name env w = (Inr h, w') \<Longrightarrow> h \<noteq> [] \<and> (\<forall>c \<in> set h. \<not> newline c)"
proof -
  assume "haiku_name env w = (Inr h, w')"
  then obtain a n where h: "h = generate a n" by (auto simp: haiku_name_def io_run_iffs)
  have nl: "\<not> newline c" if "is_lower_char c \<or> c = CHR ''-''" for c
  proof -
    have "45 \<le> (of_char c :: nat)" using that by (auto simp: is_lower_char_def)
    then show ?thesis by (auto simp: newline_def)
  qed
  have "\<forall>c \<in> set h. \<not> newline c" by (intro ballI nl generated_chars) (simp add: h)
  then show ?thesis by (simp add: h generate_def)
qed


section \<open>In memory\<close>

record device_world =
  dw_apps :: "(int \<times> int) list"
  dw_versions :: "(int \<times> dev_versions) list"
  dw_ranges :: "(int \<times> string) list"
  dw_installs :: "(int \<times> int \<times> string) list"

definition mem_versions :: "device_world \<Rightarrow> int \<Rightarrow> dev_versions" where
  "mem_versions w d = (case map_of (dw_versions w) d of
     None \<Rightarrow> \<lparr>ve_os = None, ve_supervisor = None, ve_name = None\<rparr> | Some v \<Rightarrow> v)"

definition mem_device_view :: "device_world \<Rightarrow> device_view" where
  "mem_device_view w = \<lparr>dv_app = map_of (dw_apps w), dv_versions = mem_versions w,
     dv_range = map_of (dw_ranges w), dv_installs = map_of (dw_installs w)\<rparr>"

definition mem_device_env :: "(string \<Rightarrow> string \<Rightarrow> bool) \<Rightarrow> int list \<Rightarrow> device_world dev_env" where
  "mem_device_env satisfies targets =
     \<lparr>de_now = io_return 0, de_random = io_return 7, de_uuid = io_return (replicate 32 CHR ''a''), de_satisfies = satisfies,
      de_affected = io_return targets, de_application = \<lambda>j. io_return (case j of JNum p \<Rightarrow> Some p | _ \<Rightarrow> None),
      de_app_type = \<lambda>j w. (Inr (case j of JNum p \<Rightarrow> map_option Some (map_of (dw_ranges w) p) | _ \<Rightarrow> None), w),
      de_versions = \<lambda>ids w. (Inr (filter (\<lambda>v. ve_os v \<noteq> None \<or> ve_supervisor v \<noteq> None)
        (map (mem_versions w) (filter (\<lambda>d. map_of (dw_apps w) d \<noteq> None) ids))), w),
      de_no_web_url = \<lambda>ids. io_return [],
      de_elsewhere = \<lambda>ids j w. (Inr (filter (\<lambda>d. case map_of (dw_apps w) d of None \<Rightarrow> False | Some q \<Rightarrow> j \<noteq> JNum q) ids), w),
      de_insert = \<lambda>vals. io_return 1,
      de_update = \<lambda>vals w. (Inr (), case map_of vals ''belongs_to__application'' of
        Some (JNum p) \<Rightarrow> w\<lparr>dw_apps := alist_change (\<lambda>_. p) targets (dw_apps w)\<rparr> | _ \<Rightarrow> w),
      de_delete_installs = \<lambda>ds w. (Inr (), w\<lparr>dw_installs := map (\<lambda>(i, row). (i, mark_deleted ds row)) (dw_installs w)\<rparr>)\<rparr>"

lemma map_of_map_values: "map_of (map (\<lambda>(k, v). (k, f v)) xs) k = map_option f (map_of xs k)"
  by (induction xs) auto

interpretation mem_devices: device_db "mem_device_env satisfies targets" mem_device_view targets for satisfies targets
proof (unfold_locales, goal_cases)
  case (6 ids w vs w')
  then show ?case by (auto simp: mem_device_env_def mem_device_view_def) blast+
next
  case (7 ids app w ds w')
  then show ?case by (auto simp: mem_device_env_def mem_device_view_def split: option.splits)
next
  case (8 vals w u w')
  then show ?case by (auto simp: mem_device_env_def mem_device_view_def split: option.splits json.splits)
next
  case (9 ds w u w')
  then show ?case by (auto simp: mem_device_env_def mem_device_view_def map_of_map_values)
qed (auto simp: mem_device_env_def mem_device_view_def keeps_def io_return_def split: json.splits option.splits)




end
