(* ===== verification/Provisioning.thy ===== *)
theory Provisioning
  imports ApiKeys DeviceGate
begin

text \<open>
  The registration of devices (\<^verbatim>\<open>src/features/device-provisioning\<close>): the early refusal of known UUIDs and keys, the
  transaction that creates a device with its key, and the caches that are told of deletions.

  The rollback of a registration whose connection is closed is not modelled.
\<close>

section \<open>Conflicts\<close>

text \<open>
  \<open>pn_device_exists\<close> is the memoized check of \<open>DeviceGate\<close>, \<open>pn_key_store\<close> the store of the keys that exist,
  \<open>pn_key_query\<close> and \<open>pn_device_type\<close> are queries (the type by an alias, with the permissions of a request),
  \<open>pn_post_device\<close> creates a device, \<open>pn_forget\<close> drops a UUID from the cache in the background.
\<close>

record 'w provision_env =
  pn_keys :: "'w key_env"
  pn_device_exists :: "string \<Rightarrow> ('w, (int \<times> bool) option) io"
  pn_key_store :: "('w, bool) level_store"
  pn_key_query :: "string \<Rightarrow> ('w, int option) io"
  pn_device_type :: "request \<Rightarrow> string \<Rightarrow> ('w, (int \<times> string) list) io"
  pn_post_device :: "request \<Rightarrow> json obj \<Rightarrow> ('w, (int \<times> string) option) io"
  pn_transaction :: "('w ctx, int \<times> string \<times> string) io \<Rightarrow> ('w ctx, int \<times> string \<times> string) io"
  pn_forget :: "string \<Rightarrow> 'w \<Rightarrow> 'w"

definition checkApiKeyExists :: "'w provision_env \<Rightarrow> string \<Rightarrow> ('w, bool) io" where
  "checkApiKeyExists env key =
     store_wrap (pn_key_store env) key (io_bind (pn_key_query env key) (\<lambda>apiKey. io_return (apiKey \<noteq> None)))"

text \<open>Only keys that exist are kept by the store.\<close>

definition isCacheableValue :: "bool \<Rightarrow> bool" where
  "isCacheableValue value = (value = True)"

definition UUID_CONFLICT :: string where
  "UUID_CONFLICT = [CHR 0x22] @ ''uuid'' @ [CHR 0x22] @ '' must be unique.''"

definition KEY_CONFLICT :: string where
  "KEY_CONFLICT = [CHR 0x22] @ ''key'' @ [CHR 0x22] @ '' must be unique.''"

definition gracefullyDenyConflictingRegistrations ::
  "'w provision_env \<Rightarrow> string \<Rightarrow> string option \<Rightarrow> ('w, unit) io"
where
  "gracefullyDenyConflictingRegistrations env uuid apiKey =
     io_bind (pn_device_exists env uuid) (\<lambda>device.
       if device \<noteq> None then io_throw (ConflictError UUID_CONFLICT)
       else io_bind (case apiKey of None \<Rightarrow> io_return False | Some k \<Rightarrow> checkApiKeyExists env k) (\<lambda>existingApiKey.
         if existingApiKey then io_throw (ConflictError KEY_CONFLICT) else io_return ()))"

section \<open>Registration\<close>

text \<open>The fields of the validated body: texts, or numbers for the user and the application.\<close>

definition int_field :: "json option \<Rightarrow> int_input" where
  "int_field v = (case v of Some (JNum n) \<Rightarrow> INum (Num (of_int n)) | Some (JStr s) \<Rightarrow> IStr s | _ \<Rightarrow> INull)"

definition jsnum_json :: "jsnum \<Rightarrow> json" where
  "jsnum_json n = (case n of Num r \<Rightarrow> JNum \<lfloor>r\<rfloor> | _ \<Rightarrow> JNull)"

definition user_field :: "json obj \<Rightarrow> json res" where
  "user_field body =
     (if not_nullish (map_of body ''user'')
      then (case checkInt (int_field (map_of body ''user'')) of
              None \<Rightarrow> Inl (BadRequestError ''User ID must be a valid integer'') | Some n \<Rightarrow> Inr (jsnum_json n))
      else Inr JNull)"

definition application_field :: "json obj \<Rightarrow> json res" where
  "application_field body =
     (case checkInt (int_field (map_of body ''application'')) of
        None \<Rightarrow> Inl (BadRequestError ''Application ID must be a valid integer'') | Some n \<Rightarrow> Inr (jsnum_json n))"

definition text_field :: "string \<Rightarrow> string \<Rightarrow> json obj \<Rightarrow> string res" where
  "text_field field message body =
     (case text_of (map_of body field) of None \<Rightarrow> Inl (BadRequestError message) | Some s \<Rightarrow> Inr s)"

text \<open>The user, application, device type and UUID of a body.\<close>

definition register_fields :: "json obj \<Rightarrow> (json \<times> json \<times> string \<times> string) res" where
  "register_fields body =
     res_bind (user_field body) (\<lambda>userId.
     res_bind (application_field body) (\<lambda>applicationId.
     res_bind (text_field ''device_type'' ''Device type must be specified'' body) (\<lambda>deviceTypeSlug.
     res_bind (text_field ''uuid'' ''UUID must be specified'' body) (\<lambda>uuid.
       Inr (userId, applicationId, deviceTypeSlug, uuid)))))"

definition UnknownDeviceTypeError :: "string \<Rightarrow> exn" where
  "UnknownDeviceTypeError slug = NotFoundError (''Unknown device type '' @ slug)"

definition getDeviceTypeBySlug ::
  "(request \<Rightarrow> string \<Rightarrow> ('w, (int \<times> string) list) io) \<Rightarrow> request \<Rightarrow> string \<Rightarrow> ('w, int \<times> string) io"
where
  "getDeviceTypeBySlug device_types req slug =
     io_bind (device_types req slug) (\<lambda>dts.
       case dts of [] \<Rightarrow> io_throw (UnknownDeviceTypeError slug) | dt # _ \<Rightarrow> io_return dt)"

definition REGISTER_PERMISSIONS :: "string list" where
  "REGISTER_PERMISSIONS =
     [''resin.device.read'', ''resin.device.create-device-api-key'',
      ''resin.application.read?is_public and is_host and is_for__device_type/canAccess()'',
      ''resin.release.read?belongs_to__application/canAccess()'', ''resin.release_tag.read?release/canAccess()'']"

text \<open>Fields without a value are \<^verbatim>\<open>undefined\<close> and are left out.\<close>

definition device_body :: "json obj \<Rightarrow> json \<Rightarrow> json \<Rightarrow> int \<Rightarrow> string \<Rightarrow> json obj" where
  "device_body body userId applicationId deviceTypeId uuid =
     [(''belongs_to__user'', userId), (''belongs_to__application'', applicationId),
      (''is_of__device_type'', JNum deviceTypeId)] @
     concat (map (\<lambda>k. case map_of body k of None \<Rightarrow> [] | Some v \<Rightarrow> [(k, v)])
       [''supervisor_version'', ''os_version'', ''os_variant'', ''mac_address'']) @
     [(''uuid'', JStr uuid)]"

text \<open>The request object in use is replaced for a part of the handler.\<close>

definition with_request :: "request \<Rightarrow> ('w ctx, 'a) io \<Rightarrow> ('w ctx, 'a) io" where
  "with_request req m c = (case m (c\<lparr>cx_req := req\<rparr>) of (x, c') \<Rightarrow> (x, c'\<lparr>cx_req := cx_req c\<rparr>))"

definition create_registered ::
  "'w provision_env \<Rightarrow> request \<Rightarrow> json obj \<Rightarrow> json \<times> json \<times> string \<times> string \<Rightarrow> string \<Rightarrow> ('w ctx, int \<times> string \<times> string) io"
where
  "create_registered env req body given deviceApiKey =
     (case given of (userId, applicationId, deviceTypeSlug, uuid) \<Rightarrow>
        io_bind (on_world (getDeviceTypeBySlug (pn_device_type env) req deviceTypeSlug)) (\<lambda>(deviceTypeId, _).
        io_bind (on_world (pn_post_device env req
          (normalizeDeviceWriteBody (device_body body userId applicationId deviceTypeId uuid)))) (\<lambda>device.
          case device of
            None \<Rightarrow> io_throw (JsError ''Failed to create device'')
          | Some (i, u) \<Rightarrow>
              io_bind (createApiKey (pn_keys env) True ActorDevice ''device-api-key'' body i
                \<lparr>ko_apiKey = Some deviceApiKey, ko_name = None, ko_description = None, ko_expiryDate = None\<rparr>) (\<lambda>apiKey.
                io_return (i, u, apiKey)))))"

definition js_includes :: "string \<Rightarrow> string \<Rightarrow> bool" where
  "js_includes s t \<longleftrightarrow> list_ex (\<lambda>i. js_startsWith (drop i s) t) [0..<Suc (length s)]"

datatype register_reply = Registered int string string | ConflictText string | HttpError exn | Refused exn

definition register_error :: "exn \<Rightarrow> register_reply" where
  "register_error err =
     (case err of
        ConflictError message \<Rightarrow> (if js_includes message ''uuid'' then ConflictText UUID_CONFLICT else HttpError err)
      | _ \<Rightarrow> (if is_http_error err then HttpError err else Refused err))"

definition register_with_key ::
  "'w provision_env \<Rightarrow> json obj \<Rightarrow> json \<times> json \<times> string \<times> string \<Rightarrow> string \<Rightarrow> ('w ctx, register_reply) io"
where
  "register_with_key env body given deviceApiKey =
     io_bind get_req (\<lambda>req0.
       io_bind (with_request (fst (augmentReqApiKeyPermissions req0 REGISTER_PERMISSIONS False))
                 (pn_transaction env (create_registered env
                   (fst (augmentReqApiKeyPermissions req0 REGISTER_PERMISSIONS False)) body given deviceApiKey)))
         (\<lambda>(i, u, k) c. (Inr (Registered i u k), c\<lparr>cx_world := pn_forget env u (cx_world c)\<rparr>)))"

definition register_checked ::
  "'w provision_env \<Rightarrow> json obj \<Rightarrow> json \<times> json \<times> string \<times> string \<Rightarrow> ('w ctx, register_reply) io"
where
  "register_checked env body given =
     io_bind (on_world (gracefullyDenyConflictingRegistrations env (snd (snd (snd given))) (text_of (map_of body ''api_key'')))) (\<lambda>_.
     io_bind (case text_of (map_of body ''api_key'') of Some k \<Rightarrow> io_return k | None \<Rightarrow> on_world (ke_random (pn_keys env)))
       (register_with_key env body given))"

definition register_steps :: "'w provision_env \<Rightarrow> json obj \<Rightarrow> ('w ctx, register_reply) io" where
  "register_steps env body = io_bind (io_lift (register_fields body)) (register_checked env body)"

definition register :: "'w provision_env \<Rightarrow> json obj \<Rightarrow> ('w ctx, register_reply) io" where
  "register env body = io_catch (register_steps env body) (\<lambda>err. io_return (register_error err))"

section \<open>Deletions\<close>

text \<open>
  Before some rows are deleted their keys are read; when the transaction has ended the keys are dropped from the
  cache one by one, whatever fails.
\<close>

definition keys_before_deletion :: "('w, int list) io \<Rightarrow> (int list \<Rightarrow> ('w, string list) io) \<Rightarrow> ('w, string list) io" where
  "keys_before_deletion affected items =
     io_bind affected (\<lambda>affectedIds. if affectedIds = [] then io_return [] else items affectedIds)"

definition forget_deleted :: "(string \<Rightarrow> ('w, unit) io) \<Rightarrow> string list \<Rightarrow> ('w, unit) io" where
  "forget_deleted drop_key keys =
     io_bind (io_mapM (\<lambda>k. io_catch (drop_key k) (\<lambda>_. io_return ())) keys) (\<lambda>_. io_return ())"

section \<open>The tables\<close>

text \<open>
  In a transaction of its caller a key is created by a run that adds one row for the key, of the actor of the object,
  and one for its role.
\<close>

definition key_row_added :: "'w key_env \<Rightarrow> actor_type \<Rightarrow> string \<Rightarrow> int \<Rightarrow> string \<Rightarrow> key_view \<Rightarrow> key_view \<Rightarrow> bool" where
  "key_row_added env t roleName i k v v' \<longleftrightarrow>
     (\<exists>j a r opts. kv_keys v j = None \<and> ko_apiKey opts = Some k \<and>
        v' = v\<lparr>kv_keys := (kv_keys v)(j \<mapsto> (a, opts)), kv_roles := insert (j, r) (kv_roles v)\<rparr> \<and>
        (\<exists>req w w1. ke_actor env req t i w = (Inr (Some a), w1)) \<and> (\<exists>w w1. ke_role env roleName w = (Inr (Some r), w1)))"

context key_tables
begin

lemma created_inside:
  assumes "createApiKey env True t roleName params i options c = (Inr key, c')" and "ko_apiKey options = Some k"
  shows "key = k \<and> key_row_added env t roleName i k (view (cx_world c)) (view (cx_world c'))"
proof -
  obtain opts where row: "create_key_row env t roleName i k opts c = (Inr key, c')"
    using assms by (auto simp: createApiKey_def io_bind_Inr_iff io_lift_Inr_iff)
  obtain j a r where rows: "key = k" "kv_keys (view (cx_world c)) j = None"
    "view (cx_world c') = (view (cx_world c))\<lparr>
       kv_keys := (kv_keys (view (cx_world c)))(j \<mapsto> (a, opts\<lparr>ko_apiKey := Some k\<rparr>)),
       kv_roles := insert (j, r) (kv_roles (view (cx_world c)))\<rparr>"
    "\<exists>req w w1. ke_actor env req t i w = (Inr (Some a), w1)" "\<exists>w w1. ke_role env roleName w = (Inr (Some r), w1)"
    using row_created [OF row] by blast
  show ?thesis
    unfolding key_row_added_def
    by (intro conjI exI [of _ j] exI [of _ a] exI [of _ r] exI [of _ "opts\<lparr>ko_apiKey := Some k\<rparr>"] rows) simp
qed

end

record reg_view =
  gv_devices :: "int \<Rightarrow> (string \<times> json obj) option"
  gv_keys :: key_view

text \<open>The rows of a registration, in the tables before and after it.\<close>

definition registered_rows :: "'w provision_env \<Rightarrow> json obj \<Rightarrow> int \<Rightarrow> string \<Rightarrow> string \<Rightarrow> reg_view \<Rightarrow> reg_view \<Rightarrow> bool" where
  "registered_rows env body i u k v v' \<longleftrightarrow>
     (\<exists>userId applicationId slug uuid typeId.
        register_fields body = Inr (userId, applicationId, slug, uuid) \<and> gv_devices v i = None \<and>
        gv_devices v' = (gv_devices v)(i \<mapsto>
          (u, normalizeDeviceWriteBody (device_body body userId applicationId typeId uuid)))) \<and>
     key_row_added (pn_keys env) ActorDevice ''device-api-key'' i k (gv_keys v) (gv_keys v')"

text \<open>
  The keys of the environment are the tables of \<open>ApiKeys\<close> in a part of the world, which the operations on keys do not
  leave; a transaction that fails is undone.
\<close>

locale provision_db =
  fixes env :: "'w provision_env"
    and view :: "'w \<Rightarrow> reg_view"
  assumes key_part: "key_tables (pn_keys env) (\<lambda>w. gv_keys (view w))"
    and key_row_devices: "keeps (\<lambda>c. gv_devices (view (cx_world c))) (createApiKey (pn_keys env) True ActorDevice n params i opts)"
    and random: "keeps view (ke_random (pn_keys env))"
    and exists: "keeps view (pn_device_exists env u)"
    and key_exists: "keeps view (checkApiKeyExists env k)"
    and device_type: "keeps view (pn_device_type env req slug)"
    and post_device: "pn_post_device env req b w = (Inr (Some (i, u)), w') \<Longrightarrow>
      gv_devices (view w) i = None \<and> view w' = (view w)\<lparr>gv_devices := (gv_devices (view w))(i \<mapsto> (u, b))\<rparr>"
    and transaction: "pn_transaction env m c = (x, c') \<Longrightarrow>
      (case x of
         Inl e \<Rightarrow> view (cx_world c') = view (cx_world c)
       | Inr a \<Rightarrow> \<exists>c1. m c = (Inr a, c1) \<and> view (cx_world c') = view (cx_world c1))"
    and forget: "view (pn_forget env u w) = view w"
begin

lemma on_world_run: "on_world m c = (x, c') \<Longrightarrow> m (cx_world c) = (x, cx_world c') \<and> cx_req c' = cx_req c"
  by (auto simp: on_world_def split: prod.splits)

lemma rows_created:
  assumes "create_registered env req body given k c = (Inr (i, u, key), c')" and "register_fields body = Inr given"
  shows "key = k \<and> registered_rows env body i u k (view (cx_world c)) (view (cx_world c'))"
proof -
  obtain userId applicationId slug uuid where g: "given = (userId, applicationId, slug, uuid)" by (cases given) auto
  obtain typeId s c1 c2 where run: "on_world (getDeviceTypeBySlug (pn_device_type env) req slug) c = (Inr (typeId, s), c1)"
    "on_world (pn_post_device env req
       (normalizeDeviceWriteBody (device_body body userId applicationId typeId uuid))) c1 = (Inr (Some (i, u)), c2)"
    "createApiKey (pn_keys env) True ActorDevice ''device-api-key'' body i
       \<lparr>ko_apiKey = Some k, ko_name = None, ko_description = None, ko_expiryDate = None\<rparr> c2 = (Inr key, c')"
    using assms(1) by (auto simp: create_registered_def g io_run_iffs split: prod.split_asm option.split_asm)
  have "keeps view (getDeviceTypeBySlug (pn_device_type env) req slug)"
    unfolding getDeviceTypeBySlug_def using device_type by (intro keeps_bind) (auto split: list.split)
  then have v1: "view (cx_world c1) = view (cx_world c)"
    using on_world_run [OF run(1)] by (auto dest: keepsD)
  let ?b = "normalizeDeviceWriteBody (device_body body userId applicationId typeId uuid)"
  have dev: "gv_devices (view (cx_world c)) i = None"
    "view (cx_world c2) = (view (cx_world c))\<lparr>gv_devices := (gv_devices (view (cx_world c)))(i \<mapsto> (u, ?b))\<rparr>"
    using post_device [OF conjunct1 [OF on_world_run [OF run(2)]]] v1 by auto
  have same: "gv_devices (view (cx_world c')) = gv_devices (view (cx_world c2))"
    by (rule keepsD [OF key_row_devices run(3)])
  have "ko_apiKey \<lparr>ko_apiKey = Some k, ko_name = None, ko_description = None, ko_expiryDate = None\<rparr> = Some k" by simp
  note inside = key_tables.created_inside [OF key_part run(3) this]
  then show ?thesis
    unfolding registered_rows_def using same dev assms(2) g by auto
qed

text \<open>What a run of a part of the handler may end in.\<close>

definition outcome :: "json obj \<Rightarrow> 'w ctx \<Rightarrow> register_reply res \<Rightarrow> 'w ctx \<Rightarrow> bool" where
  "outcome body c y c1 \<longleftrightarrow>
     (case y of
        Inl e \<Rightarrow> view (cx_world c1) = view (cx_world c)
      | Inr (Registered i u k) \<Rightarrow> registered_rows env body i u k (view (cx_world c)) (view (cx_world c1)) \<and>
          (\<forall>key. text_of (map_of body ''api_key'') = Some key \<longrightarrow> k = key)
      | _ \<Rightarrow> False)"

lemma outcome_before:
  assumes "keeps (\<lambda>c. view (cx_world c)) m" and "io_bind m f c = (y, c1)"
    and "\<And>a c2. m c = (Inr a, c2) \<Longrightarrow> f a c2 = (y, c1) \<Longrightarrow> outcome body c2 y c1"
  shows "outcome body c y c1"
proof -
  obtain r c2 where r: "m c = (r, c2)" by fastforce
  have v: "view (cx_world c2) = view (cx_world c)" by (rule keepsD [OF assms(1) r])
  show ?thesis
  proof (cases r)
    case (Inl e)
    then show ?thesis using assms(2) r v by (auto simp: io_bind_def outcome_def)
  next
    case (Inr a)
    then have "outcome body c2 y c1" using assms(2,3) r by (simp add: io_bind_def)
    then show ?thesis unfolding outcome_def v .
  qed
qed

lemma with_key_outcome:
  assumes "register_with_key env body given k c = (y, c1)" and "register_fields body = Inr given"
    and "\<forall>key. text_of (map_of body ''api_key'') = Some key \<longrightarrow> k = key"
  shows "outcome body c y c1"
proof -
  define req where "req = fst (augmentReqApiKeyPermissions (cx_req c) REGISTER_PERMISSIONS False)"
  obtain z c4 where z: "pn_transaction env (create_registered env req body given k) (c\<lparr>cx_req := req\<rparr>) = (z, c4)"
    by fastforce
  have run: "y = (case z of Inl e \<Rightarrow> Inl e | Inr (i, u, k) \<Rightarrow> Inr (Registered i u k))" "view (cx_world c1) = view (cx_world c4)"
    using assms(1) z forget
    by (auto simp: register_with_key_def io_bind_def get_req_def with_request_def req_def
        split: sum.split_asm prod.split_asm sum.splits)
  show ?thesis
  proof (cases z)
    case (Inl e)
    then show ?thesis using transaction [OF z] run by (simp add: outcome_def)
  next
    case (Inr a)
    obtain i u key where a: "a = (i, u, key)" by (cases a) auto
    obtain c5 where c5: "create_registered env req body given k (c\<lparr>cx_req := req\<rparr>) = (Inr (i, u, key), c5)"
      "view (cx_world c4) = view (cx_world c5)"
      using transaction [OF z] by (auto simp: Inr a)
    from rows_created [OF c5(1) assms(2)] show ?thesis
      using run c5(2) assms(3) by (simp add: Inr a outcome_def)
  qed
qed

lemma checked_outcome:
  assumes "register_checked env body given c = (y, c1)" and "register_fields body = Inr given"
  shows "outcome body c y c1"
proof -
  let ?key = "text_of (map_of body ''api_key'')"
  have deny: "keeps view (gracefullyDenyConflictingRegistrations env u ?key)" for u
    unfolding gracefullyDenyConflictingRegistrations_def using exists key_exists
    by (intro keeps_bind keeps_if) (auto split: option.split)
  have rnd: "keeps (\<lambda>c. view (cx_world c)) (case ?key of Some k \<Rightarrow> io_return k | None \<Rightarrow> on_world (ke_random (pn_keys env)))"
    using random by (auto split: option.split)
  show ?thesis
    by (rule outcome_before [OF keeps_on_world [OF deny] assms(1) [unfolded register_checked_def]],
        rule outcome_before [OF rnd], assumption, rule with_key_outcome [OF _ assms(2)])
      (auto simp: io_return_def split: option.split_asm)
qed

lemma registration:
  assumes "register env body c = (x, c')"
  shows "\<exists>answer. x = Inr answer \<and>
    (case answer of
       Registered i u k \<Rightarrow> registered_rows env body i u k (view (cx_world c)) (view (cx_world c')) \<and>
         (\<forall>key. text_of (map_of body ''api_key'') = Some key \<longrightarrow> k = key)
     | _ \<Rightarrow> view (cx_world c') = view (cx_world c))"
proof -
  obtain y c1 where steps: "register_steps env body c = (y, c1)" by fastforce
  have out: "outcome body c y c1"
  proof (cases "register_fields body")
    case (Inl e)
    then show ?thesis using steps by (auto simp: register_steps_def io_bind_def io_lift_def outcome_def)
  next
    case (Inr given)
    then show ?thesis
      using steps checked_outcome by (auto simp: register_steps_def io_bind_def io_lift_def)
  qed
  show ?thesis
  proof (cases y)
    case (Inl e)
    then have "x = Inr (register_error e)" "c' = c1" using assms steps by (auto simp: register_def io_catch_def io_return_def)
    moreover have "\<forall>i u k. register_error e \<noteq> Registered i u k" by (simp add: register_error_def split: exn.split)
    ultimately show ?thesis using out Inl by (cases "register_error e") (auto simp: outcome_def)
  next
    case (Inr answer)
    then have "x = Inr answer" "c' = c1" using assms steps by (auto simp: register_def io_catch_def)
    then show ?thesis using out Inr by (cases answer) (auto simp: outcome_def)
  qed
qed

end

section \<open>In memory\<close>

record reg_world = key_world +
  rw_devices :: "(int \<times> string \<times> json obj) list"

definition mem_reg_view :: "reg_world \<Rightarrow> reg_view" where
  "mem_reg_view w = \<lparr>gv_devices = map_of (rw_devices w), gv_keys = mem_key_view w\<rparr>"

text \<open>Devices are numbered from 1; the device type is always found, and no key is cached.\<close>

definition mem_provision_env :: "int obj \<Rightarrow> reg_world provision_env" where
  "mem_provision_env roles =
     \<lparr>pn_keys = mem_key_env roles,
      pn_device_exists = \<lambda>u w. (Inr (map_option (\<lambda>(i, _). (i, False)) (List.find (\<lambda>(i, v, _). v = u) (rw_devices w))), w),
      pn_key_store = \<lparr>store_get = \<lambda>k w. (Inr None, w), store_set = \<lambda>k v w. (Inr (), w), store_delete = \<lambda>k w. (Inr (), w),
        store_wrap = \<lambda>k f. f\<rparr>,
      pn_key_query = \<lambda>k w. (Inr (if list_ex (\<lambda>(_, _, opts). ko_apiKey opts = Some k) (kw_keys w) then Some 1 else None), w),
      pn_device_type = \<lambda>req slug w. (Inr [(1, slug)], w),
      pn_post_device = \<lambda>req b w. (Inr (Some (fold max (map fst (rw_devices w)) 0 + 1, case map_of b ''uuid'' of Some (JStr u) \<Rightarrow> u | _ \<Rightarrow> [])),
        w\<lparr>rw_devices := (fold max (map fst (rw_devices w)) 0 + 1, case map_of b ''uuid'' of Some (JStr u) \<Rightarrow> u | _ \<Rightarrow> [], b) # rw_devices w\<rparr>),
      pn_transaction = \<lambda>m c. (case m c of (Inl e, c') \<Rightarrow> (Inl e, c'\<lparr>cx_world := cx_world c\<rparr>) | (Inr x, c') \<Rightarrow> (Inr x, c')),
      pn_forget = \<lambda>u w. w\<rparr>"

interpretation mem_registration: provision_db "mem_provision_env roles" mem_reg_view for roles
proof (rule provision_db.intro, goal_cases)
  case 1
  have "(\<lambda>w. gv_keys (mem_reg_view w)) = mem_key_view" by (simp add: mem_reg_view_def fun_eq_iff)
  then show ?case using mem_keys.key_tables_axioms by (simp add: mem_provision_env_def)
next
  case (2 n params i opts)
  let ?k = "mem_key_env roles :: reg_world key_env"
  have row: "keeps rw_devices (ke_random ?k)" "keeps rw_devices (ke_actor ?k req t i)" "keeps rw_devices (ke_can_access ?k req t i act)"
    "keeps rw_devices (ke_role ?k n)" "keeps rw_devices (ke_post_key ?k a os)" "keeps rw_devices (ke_post_key_role ?k j r)"
    for req t i a n os j r act
    by (auto simp: mem_key_env_def keeps_def Let_def)
  have "keeps (\<lambda>c. rw_devices (cx_world c)) (create_key_row ?k ActorDevice n i key opts)" for key opts
    unfolding create_key_row_def insert_key_def fresh_login_def
    by (intro keeps_bind keeps_if keeps_on_world keeps_get_req row) (auto split: option.split intro!: keeps_bind keeps_if keeps_on_world row)
  then have "keeps (\<lambda>c. rw_devices (cx_world c)) (createApiKey ?k True ActorDevice n params i opts)"
    unfolding createApiKey_def using row by (auto simp: Let_def intro!: keeps_bind split: option.split)
  then show ?case by (auto simp: keeps_def mem_reg_view_def mem_provision_env_def)
next
  case (7 req b w i u w')
  then show ?case using fresh_max_key [of "rw_devices w"] by (auto simp: mem_provision_env_def mem_reg_view_def mem_key_view_def)
qed (auto simp: mem_provision_env_def mem_reg_view_def mem_key_view_def mem_key_env_def checkApiKeyExists_def keeps_def io_simps
    split: sum.splits prod.splits)



end
