(* ===== verification/ImageDeletion.thy ===== *)
theory ImageDeletion
  imports RegistryStorage
begin

text \<open>
  Where images are stored and how they leave the registry: the hook that chooses the location of a new image
  (\<^verbatim>\<open>src/features/ci-cd/hooks/image-is-stored-at-location.ts\<close>), the hook that makes tasks of deleted images
  (\<^verbatim>\<open>src/features/images/hooks\<close>) and the task that deletes what the registry stores of them
  (\<^verbatim>\<open>src/features/images/tasks\<close>), on the storage of \<open>RegistryStorage\<close>.
\<close>

section \<open>The location of a new image\<close>

definition MAX_ATTEMPTS :: nat where
  "MAX_ATTEMPTS = 5"

definition location_candidate :: "string \<Rightarrow> string \<Rightarrow> string" where
  "location_candidate REGISTRY2_HOST bytes = REGISTRY2_HOST @ ''/v2/'' @ js_toLowerCase bytes"

text \<open>\<open>random_hex\<close> are 16 random bytes in hexadecimal digits, \<open>count\<close> counts the images at a location.\<close>

fun choose_location ::
  "nat \<Rightarrow> string \<Rightarrow> ('w, string) io \<Rightarrow> (string \<Rightarrow> ('w, nat) io) \<Rightarrow> json obj \<Rightarrow> ('w, json obj) io"
where
  "choose_location 0 REGISTRY2_HOST random_hex count vals =
     io_throw (InternalRequestError ''Could not generate unique image location'')"
| "choose_location (Suc attempts) REGISTRY2_HOST random_hex count vals =
     io_bind random_hex (\<lambda>bytes.
       let candidate = location_candidate REGISTRY2_HOST bytes
       in io_bind (count candidate) (\<lambda>n.
            if n = 0 then io_return (obj_set ''is_stored_at__image_location'' (JStr candidate) vals)
            else choose_location attempts REGISTRY2_HOST random_hex count vals))"

definition image_location_hook ::
  "string \<Rightarrow> ('w, string) io \<Rightarrow> (string \<Rightarrow> ('w, nat) io) \<Rightarrow> json obj \<Rightarrow> ('w, json obj) io"
where
  "image_location_hook = choose_location MAX_ATTEMPTS"

section \<open>Tasks for deleted images\<close>

text \<open>
  \<open>im_locations\<close> reads the locations of images, \<open>im_chunk\<close> is \<^verbatim>\<open>_.chunk\<close> with the batch size, \<open>im_post_task\<close> posts a task
  with a time to run at (none: at once).  \<open>im_cache_repos\<close> and \<open>im_delete_manifests\<close> are the storage client,
  \<open>im_aborted\<close> says that the time of the task is over; a call that notices it fails with the reason of the
  signal.  \<open>im_referenced\<close> are those of some locations at which an image is stored.
\<close>

record 'w image_env =
  im_enabled :: bool
  im_affected :: "('w, int list) io"
  im_locations :: "int list \<Rightarrow> ('w, string list) io"
  im_chunk :: "string list \<Rightarrow> string list list"
  im_now :: "'w \<Rightarrow> int"
  im_offset :: int
  im_post_task :: "string list \<Rightarrow> int option \<Rightarrow> ('w, unit) io"
  im_referenced :: "string list \<Rightarrow> ('w, string list) io"
  im_cache_repos :: "string \<Rightarrow> ('w, string list) io"
  im_delete_manifests :: "string \<Rightarrow> ('w, unit) io"
  im_aborted :: "'w \<Rightarrow> bool"

definition images_to_cleanup :: "'w image_env \<Rightarrow> ('w, string list option) io" where
  "images_to_cleanup env =
     io_bind (im_affected env) (\<lambda>affectedIds.
       if affectedIds = [] then io_return None
       else io_bind (im_locations env affectedIds) (\<lambda>images.
         io_return (if length images > 0 then Some images else None)))"

definition post_cleanup :: "'w image_env \<Rightarrow> string list option \<Rightarrow> ('w, unit) io" where
  "post_cleanup env imagesToCleanup =
     (case imagesToCleanup of
        None \<Rightarrow> io_return ()
      | Some [] \<Rightarrow> io_return ()
      | Some images \<Rightarrow>
          io_bind (io_mapM (\<lambda>batch w. im_post_task env batch (Some (im_now env w + im_offset env)) w) (im_chunk env images))
            (\<lambda>_. io_return ()))"

section \<open>The task\<close>

text \<open>\<^verbatim>\<open>location.replace(/^[^/]+\//, '')\<close>\<close>

definition repo_of_location :: "string \<Rightarrow> string" where
  "repo_of_location location =
     (let host = takeWhile (\<lambda>c. c \<noteq> CHR ''/'') location; rest = dropWhile (\<lambda>c. c \<noteq> CHR ''/'') location
      in if host \<noteq> [] \<and> rest \<noteq> [] then tl rest else location)"

text \<open>
  A job of the queue before its next call: it lists the cache repositories of its location, then it deletes the
  manifests of one target after the other.  The step gives the job that is left, none when it is done.
\<close>

datatype job = ListCaches string | DeleteTargets string "string list"

fun job_location :: "job \<Rightarrow> string" where
  "job_location (ListCaches location) = location"
| "job_location (DeleteTargets location targets) = location"

fun job_step :: "'w image_env \<Rightarrow> job \<Rightarrow> ('w, job option) io" where
  "job_step env (ListCaches location) =
     (let repo = repo_of_location location
      in if repo = [] then io_return None
         else io_bind (im_cache_repos env repo) (\<lambda>cacheRepos.
                io_return (Some (DeleteTargets location (cacheRepos @ [repo])))))"
| "job_step env (DeleteTargets location []) = io_return None"
| "job_step env (DeleteTargets location (target # targets)) =
     io_bind (im_delete_manifests env target) (\<lambda>_.
       io_return (if targets = [] then None else Some (DeleteTargets location targets)))"

text \<open>
  The queue runs up to \<open>concurrency\<close> jobs at a time; which of them makes its next call is given by a schedule.
  \<open>remaining\<close> is the set of locations that are not done.
\<close>

record image_queue =
  iq_waiting :: "string list"
  iq_running :: "job list"
  iq_remaining :: "string list"

definition start_jobs :: "nat \<Rightarrow> image_queue \<Rightarrow> image_queue" where
  "start_jobs concurrency q =
     (let n = concurrency - length (iq_running q)
      in q\<lparr>iq_running := iq_running q @ map ListCaches (take n (iq_waiting q)), iq_waiting := drop n (iq_waiting q)\<rparr>)"

definition queue_idle :: "image_queue \<Rightarrow> bool" where
  "queue_idle q \<longleftrightarrow> iq_waiting q = [] \<and> iq_running q = []"

fun after_job :: "nat \<Rightarrow> job \<Rightarrow> exn + job option \<Rightarrow> image_queue \<Rightarrow> exn option \<times> image_queue" where
  "after_job k job (Inl e) q = (Some e, q\<lparr>iq_running := take k (iq_running q) @ drop (Suc k) (iq_running q)\<rparr>)"
| "after_job k job (Inr (Some job')) q = (None, q\<lparr>iq_running := (iq_running q)[k := job']\<rparr>)"
| "after_job k job (Inr None) q =
     (None, q\<lparr>iq_running := take k (iq_running q) @ drop (Suc k) (iq_running q),
              iq_remaining := filter (\<lambda>l. l \<noteq> job_location job) (iq_remaining q)\<rparr>)"

definition queue_step ::
  "'w image_env \<Rightarrow> nat \<Rightarrow> nat \<Rightarrow> image_queue \<Rightarrow> 'w \<Rightarrow> (exn option \<times> image_queue) \<times> 'w"
where
  "queue_step env concurrency i q w =
     (let q1 = start_jobs concurrency q; k = i mod length (iq_running q1); job = iq_running q1 ! k
      in case job_step env job w of (r, w1) \<Rightarrow> (after_job k job r q1, w1))"

definition TIMEOUT_REASON :: exn where
  "TIMEOUT_REASON = JsError ''AbortError''"

text \<open>
  \<^verbatim>\<open>queue.addAll\<close>: it ends when there is nothing left to do, with the first error of a job, and with the reason of the
  signal once the time is over.  The answer is how it ended (\<open>None\<close>: not within the schedule) and the rest of the
  schedule.
\<close>

fun run_queue ::
  "'w image_env \<Rightarrow> nat \<Rightarrow> nat list \<Rightarrow> image_queue \<Rightarrow> 'w \<Rightarrow>
   (exn option option \<times> image_queue \<times> nat list) \<times> 'w"
where
  "run_queue env concurrency schedule q w =
     (if queue_idle q then ((Some None, q, schedule), w)
      else if im_aborted env w then ((Some (Some TIMEOUT_REASON), q, schedule), w)
      else case schedule of
        [] \<Rightarrow> ((None, q, []), w)
      | i # schedule' \<Rightarrow>
          (case queue_step env concurrency i q w of
             ((Some e, q1), w1) \<Rightarrow> ((Some (Some e), q1, schedule'), w1)
           | ((None, q1), w1) \<Rightarrow> run_queue env concurrency schedule' q1 w1))"

declare run_queue.simps [simp del]

text \<open>Jobs that run when the queue has ended go on in the background until they notice; nobody sees their errors.\<close>

fun run_background :: "'w image_env \<Rightarrow> nat \<Rightarrow> nat list \<Rightarrow> image_queue \<Rightarrow> 'w \<Rightarrow> 'w" where
  "run_background env concurrency [] q w = w"
| "run_background env concurrency (i # schedule) q w =
     (if queue_idle q then w
      else case queue_step env concurrency i q w of ((_, q1), w1) \<Rightarrow> run_background env concurrency schedule q1 w1)"

definition finish_queue :: "'w image_env \<Rightarrow> exn option \<Rightarrow> string list \<Rightarrow> ('w, unit) io" where
  "finish_queue env err remaining w =
     (if err \<noteq> None \<and> (\<not> im_aborted env w \<or> the err \<noteq> TIMEOUT_REASON) then (Inl (the err), w)
      else if length remaining > 0 then im_post_task env remaining None w else (Inr (), w))"

definition new_queue :: "string list \<Rightarrow> image_queue" where
  "new_queue remaining = \<lparr>iq_waiting = remaining, iq_running = [], iq_remaining = remaining\<rparr>"

definition delete_unreferenced ::
  "'w image_env \<Rightarrow> nat \<Rightarrow> nat list \<Rightarrow> string list \<Rightarrow> ('w, unit option) io"
where
  "delete_unreferenced env concurrency schedule remaining w =
     (case run_queue env concurrency schedule (new_queue remaining) w of
        ((None, q, _), w1) \<Rightarrow> (Inr None, w1)
      | ((Some err, q, schedule'), w1) \<Rightarrow>
          (case finish_queue env err (iq_remaining q) w1 of
             (r, w2) \<Rightarrow> (map_sum id Some r, run_background env concurrency schedule' q w2)))"

definition deleteRegistryImages ::
  "'w image_env \<Rightarrow> nat \<Rightarrow> nat list \<Rightarrow> string list \<Rightarrow> ('w, unit option) io"
where
  "deleteRegistryImages env concurrency schedule images =
     (if \<not> im_enabled env then io_throw (JsError ''Registry S3 client not initialized.'')
      else io_bind (im_referenced env images) (\<lambda>stillReferenced.
        delete_unreferenced env concurrency schedule
          (remdups (filter (\<lambda>location. location \<notin> set stillReferenced) images))))"

datatype task_status = TaskSucceeded | TaskFailed exn

definition delete_images_task ::
  "'w image_env \<Rightarrow> nat \<Rightarrow> nat list \<Rightarrow> string list \<Rightarrow> ('w, task_status option) io"
where
  "delete_images_task env concurrency schedule images =
     io_catch
       (io_bind (deleteRegistryImages env concurrency schedule images) (\<lambda>r. io_return (map_option (\<lambda>_. TaskSucceeded) r)))
       (\<lambda>e. io_return (Some (TaskFailed e)))"

section \<open>Locations\<close>

definition hex_digit :: "char \<Rightarrow> bool" where
  "hex_digit c \<longleftrightarrow> is_digit_char c \<or> c \<in> set ''abcdef''"

text \<open>The form of the locations the hook chooses.\<close>

definition stored_location :: "string \<Rightarrow> string \<Rightarrow> bool" where
  "stored_location host l \<longleftrightarrow> (\<exists>h. l = host @ ''/v2/'' @ h \<and> h \<noteq> [] \<and> (\<forall>c \<in> set h. hex_digit c))"

lemma hex_lower: "hex_digit c \<Longrightarrow> to_lower_char c = c"
  by (auto simp: hex_digit_def to_lower_char_def is_upper_char_def is_digit_char_def)

lemma hex_not_separator: "hex_digit c \<Longrightarrow> c \<noteq> CHR ''/'' \<and> c \<noteq> CHR ''-''"
  by (auto simp: hex_digit_def is_digit_char_def)

lemma candidate_stored: "h \<noteq> [] \<Longrightarrow> \<forall>c \<in> set h. hex_digit c \<Longrightarrow> stored_location host (location_candidate host h)"
  by (auto simp: stored_location_def location_candidate_def js_toLowerCase_def hex_lower map_idI)

lemma location_chosen:
  assumes "image_location_hook host random_hex count vals w = (Inr vals', w')"
    and "\<And>v h v'. random_hex v = (Inr h, v') \<Longrightarrow> h \<noteq> [] \<and> (\<forall>c \<in> set h. hex_digit c)"
  shows "\<exists>l v v'. vals' = obj_set ''is_stored_at__image_location'' (JStr l) vals \<and> stored_location host l \<and>
    count l v = (Inr 0, v')"
proof -
  have "\<exists>l v v'. vals' = obj_set ''is_stored_at__image_location'' (JStr l) vals \<and> stored_location host l \<and> count l v = (Inr 0, v')"
    if "choose_location n host random_hex count vals w = (Inr vals', w')" for n w
    using that
  proof (induction n arbitrary: w)
    case (Suc n)
    then obtain h w1 k w2 where run: "random_hex w = (Inr h, w1)" "count (location_candidate host h) w1 = (Inr k, w2)"
      "(if k = 0 then io_return (obj_set ''is_stored_at__image_location'' (JStr (location_candidate host h)) vals)
        else choose_location n host random_hex count vals) w2 = (Inr vals', w')"
      by (auto simp: Let_def io_bind_Inr_iff)
    have "stored_location host (location_candidate host h)"
      using assms(2) [OF run(1)] by (simp add: candidate_stored)
    then show ?case
      using run Suc.IH by (cases "k = 0") (auto simp: io_return_Inr_iff)
  qed (simp add: io_throw_def)
  then show ?thesis using assms(1) by (simp add: image_location_hook_def)
qed

lemma repo_of_stored:
  assumes "CHR ''/'' \<notin> set host" and "host \<noteq> []"
  shows "repo_of_location (host @ CHR ''/'' # r) = r"
proof -
  have "takeWhile (\<lambda>c. c \<noteq> CHR ''/'') (host @ CHR ''/'' # r) = host"
    "dropWhile (\<lambda>c. c \<noteq> CHR ''/'') (host @ CHR ''/'' # r) = CHR ''/'' # r"
    using assms(1) by (induction host) auto
  then show ?thesis using assms(2) by (simp add: repo_of_location_def)
qed

lemma stored_repo_nonempty:
  assumes "CHR ''/'' \<notin> set host" and "host \<noteq> []" and "stored_location host l"
  shows "repo_of_location l \<noteq> []"
proof -
  obtain h where "l = host @ CHR ''/'' # ''v2/'' @ h" using assms(3) by (auto simp: stored_location_def)
  then have "repo_of_location l = ''v2/'' @ h" by (simp only: repo_of_stored [OF assms(1,2)])
  then show ?thesis by simp
qed

text \<open>A run of digits is determined by what it is the beginning of.\<close>

lemma hex_run_unique:
  assumes "\<forall>c \<in> set h. hex_digit c" and "\<forall>c \<in> set g. hex_digit c"
    and "h @ c # u = g @ d # v" and "\<not> hex_digit c" and "\<not> hex_digit d"
  shows "h = g \<and> c = d"
  using assms
proof (induction h arbitrary: g)
  case Nil
  then show ?case by (cases g) auto
next
  case (Cons x h)
  then show ?case by (cases g) auto
qed

lemma separators_not_hex: "\<not> hex_digit CHR ''/''" "\<not> hex_digit CHR ''-''"
  using hex_not_separator by blast+

text \<open>What deleting the repository of one location may remove: its manifests and those of its cache repositories.\<close>

definition deleted_with :: "string \<Rightarrow> string \<Rightarrow> string \<Rightarrow> bool" where
  "deleted_with base repo k \<longleftrightarrow>
     js_startsWith k (manifests_prefix base repo) \<or>
     (\<exists>x. js_startsWith k (manifests_prefix base (repo @ CHR ''-'' # x)))"

lemma stored_repos_apart:
  assumes "CHR ''/'' \<notin> set host" and "host \<noteq> []" and "stored_location host l" and "stored_location host l'"
    and "deleted_with base (repo_of_location l') k" and "js_startsWith k (manifests_prefix base (repo_of_location l))"
  shows "l = l'"
proof -
  obtain h h' where h: "l = host @ CHR ''/'' # ''v2/'' @ h" "\<forall>c \<in> set h. hex_digit c"
    and h': "l' = host @ CHR ''/'' # ''v2/'' @ h'" "\<forall>c \<in> set h'. hex_digit c"
    using assms(3,4) by (auto simp: stored_location_def)
  have r: "repo_of_location l = ''v2/'' @ h" "repo_of_location l' = ''v2/'' @ h'"
    unfolding h(1) h'(1) using assms(1,2) by (rule repo_of_stored)+
  obtain u where u: "k = base @ ''/repositories/v2/'' @ h @ CHR ''/'' # u"
    using assms(6) unfolding r by (auto simp: js_startsWith_prefix prefix_def manifests_prefix_def)
  have "\<exists>d v. k = base @ ''/repositories/v2/'' @ h' @ d # v \<and> \<not> hex_digit d"
    using assms(5) separators_not_hex unfolding r deleted_with_def
    by (auto simp: js_startsWith_prefix prefix_def manifests_prefix_def)
  then obtain d v where v: "k = base @ ''/repositories/v2/'' @ h' @ d # v" "\<not> hex_digit d" by (elim exE conjE)
  have "h @ CHR ''/'' # u = h' @ d # v" using u v(1) by simp
  then have "h = h'"
    using hex_run_unique [OF h(2) h'(2) _ separators_not_hex(1) v(2)] by blast
  then show ?thesis using h(1) h'(1) by simp
qed

section \<open>What the task relies on\<close>

text \<open>
  \<open>objs\<close> are the objects stored under the root \<open>base\<close>, \<open>refs\<close> the locations of images, \<open>tasks\<close> the tasks posted.  The
  cache repositories of a repository carry its name and a hyphen, at most \<open>bound\<close> many; deleting manifests removes
  objects under the manifests of that repository only, and without an error all of them.
\<close>

locale image_store =
  fixes env :: "'w image_env" and base :: string and objs refs :: "'w \<Rightarrow> string set"
    and tasks :: "'w \<Rightarrow> string list list" and bound :: "'w \<Rightarrow> nat"
  assumes caches_law: "im_cache_repos env repo w = (r, w') \<Longrightarrow>
      objs w' = objs w \<and> refs w' = refs w \<and> tasks w' = tasks w \<and> bound w' \<le> bound w \<and>
      (\<forall>cs. r = Inr cs \<longrightarrow> length cs \<le> bound w \<and> (\<forall>c \<in> set cs. \<exists>x. c = repo @ CHR ''-'' # x))"
    and manifests_law: "im_delete_manifests env repo w = (d, w') \<Longrightarrow>
      objs w' \<subseteq> objs w \<and> refs w' = refs w \<and> tasks w' = tasks w \<and> bound w' \<le> bound w \<and>
      (\<forall>k \<in> objs w - objs w'. js_startsWith k (manifests_prefix base repo)) \<and>
      (d = Inr () \<longrightarrow> (\<forall>k \<in> objs w'. \<not> js_startsWith k (manifests_prefix base repo)))"
    and referenced_law: "im_referenced env ls w = (r, w') \<Longrightarrow>
      objs w' = objs w \<and> refs w' = refs w \<and> tasks w' = tasks w \<and> bound w' \<le> bound w \<and>
      (\<forall>xs. r = Inr xs \<longrightarrow> set xs = set ls \<inter> refs w)"
    and post_law: "im_post_task env ls t w = (d, w') \<Longrightarrow>
      objs w' = objs w \<and> refs w' = refs w \<and> bound w' \<le> bound w \<and>
      tasks w' = (if d = Inr () then tasks w @ [ls] else tasks w)"
begin

definition same_rows :: "'w \<Rightarrow> 'w \<Rightarrow> bool" where
  "same_rows w w' \<longleftrightarrow> objs w' \<subseteq> objs w \<and> refs w' = refs w \<and> tasks w' = tasks w \<and> bound w' \<le> bound w"

definition cleared :: "string \<Rightarrow> 'w \<Rightarrow> bool" where
  "cleared l w \<longleftrightarrow> (\<forall>k \<in> objs w. \<not> js_startsWith k (manifests_prefix base (repo_of_location l)))"

fun job_ok :: "string set \<Rightarrow> job \<Rightarrow> bool" where
  "job_ok L (ListCaches l) \<longleftrightarrow> l \<in> L"
| "job_ok L (DeleteTargets l ts) \<longleftrightarrow>
     l \<in> L \<and> ts \<noteq> [] \<and> last ts = repo_of_location l \<and>
     (\<forall>t \<in> set ts. t = repo_of_location l \<or> (\<exists>x. t = repo_of_location l @ CHR ''-'' # x))"

fun job_weight :: "nat \<Rightarrow> job \<Rightarrow> nat" where
  "job_weight b (ListCaches l) = b + 2"
| "job_weight b (DeleteTargets l ts) = length ts"

lemma same_rows_refl [simp]: "same_rows w w"
  by (simp add: same_rows_def)

lemma same_rows_trans: "same_rows u v \<Longrightarrow> same_rows v w \<Longrightarrow> same_rows u w"
  by (auto simp: same_rows_def)

lemma cleared_mono: "cleared l w \<Longrightarrow> same_rows w w' \<Longrightarrow> cleared l w'"
  by (auto simp: cleared_def same_rows_def)

lemma job_ok_location: "job_ok L j \<Longrightarrow> job_location j \<in> L"
  by (cases j) auto

lemma job_ok_weight: "job_ok L j \<Longrightarrow> 0 < job_weight b j"
  by (cases j) auto

lemma list_caches_step:
  assumes "l \<in> L" and "repo_of_location l \<noteq> []" and "job_step env (ListCaches l) w = (r, w')"
  shows "same_rows w w' \<and> objs w' = objs w \<and> r \<noteq> Inr None \<and>
    (\<forall>j. r = Inr (Some j) \<longrightarrow> job_ok L j \<and> job_location j = l \<and> job_weight b j \<le> bound w + 1)"
proof (cases "im_cache_repos env (repo_of_location l) w")
  case (Pair c v)
  from caches_law [OF this] have laws: "same_rows w v" "objs v = objs w"
    "\<And>cs. c = Inr cs \<Longrightarrow> length cs \<le> bound w \<and> (\<forall>x \<in> set cs. \<exists>y. x = repo_of_location l @ CHR ''-'' # y)"
    by (simp_all add: same_rows_def)
  show ?thesis
  proof (cases c)
    case (Inl e)
    with Pair assms(2,3) laws(1,2) show ?thesis by (auto simp: Let_def io_bind_def)
  next
    case (Inr cs)
    then have w': "w' = v" "r = Inr (Some (DeleteTargets l (cs @ [repo_of_location l])))"
      using Pair assms(2,3) by (auto simp: Let_def io_bind_def io_return_def)
    show ?thesis using laws(1,2) laws(3) [OF Inr] assms(1) unfolding w' by auto
  qed
qed

lemma delete_targets_step:
  assumes "job_ok L (DeleteTargets l (t # ts))" and "job_step env (DeleteTargets l (t # ts)) w = (r, w')"
  shows "same_rows w w' \<and> (\<forall>k \<in> objs w - objs w'. deleted_with base (repo_of_location l) k) \<and>
    (r = Inr None \<longrightarrow> cleared l w') \<and>
    (\<forall>j. r = Inr (Some j) \<longrightarrow> job_ok L j \<and> job_location j = l \<and> job_weight b j = length ts)"
proof (cases "im_delete_manifests env t w")
  case (Pair d v)
  from manifests_law [OF this] have laws: "same_rows w v"
    "\<And>k. k \<in> objs w - objs v \<Longrightarrow> js_startsWith k (manifests_prefix base t)"
    "d = Inr () \<Longrightarrow> (\<forall>k \<in> objs v. \<not> js_startsWith k (manifests_prefix base t))"
    by (simp_all add: same_rows_def)
  have w': "w' = v" and r: "r = (case d of Inl e \<Rightarrow> Inl e | Inr _ \<Rightarrow> Inr (if ts = [] then None else Some (DeleteTargets l ts)))"
    using Pair assms(2) by (auto simp: io_bind_def io_return_def split: sum.splits)
  have "\<forall>k \<in> objs w - objs v. deleted_with base (repo_of_location l) k"
  proof
    fix k assume "k \<in> objs w - objs v"
    from laws(2) [OF this] assms(1) show "deleted_with base (repo_of_location l) k" by (auto simp: deleted_with_def)
  qed
  moreover have "cleared l v" if "r = Inr None"
  proof -
    have "d = Inr ()" "ts = []" using that r by (auto split: sum.splits if_splits)
    with laws(3) assms(1) show ?thesis by (auto simp: cleared_def)
  qed
  moreover have "\<forall>j. r = Inr (Some j) \<longrightarrow> job_ok L j \<and> job_location j = l \<and> job_weight b j = length ts"
    using r assms(1) by (auto split: sum.splits if_splits)
  ultimately show ?thesis using laws(1) unfolding w' by (intro conjI impI)
qed

lemma job_step_result:
  assumes "job_ok L j" and "\<forall>l \<in> L. repo_of_location l \<noteq> []" and "job_step env j w = (r, w')" and "bound w \<le> b"
  shows "same_rows w w' \<and> (\<forall>k \<in> objs w - objs w'. deleted_with base (repo_of_location (job_location j)) k) \<and>
    (r = Inr None \<longrightarrow> cleared (job_location j) w' \<and> 0 < job_weight b j) \<and>
    (\<forall>j'. r = Inr (Some j') \<longrightarrow> job_ok L j' \<and> job_location j' = job_location j \<and> job_weight b j' < job_weight b j)"
proof (cases j)
  case (ListCaches l)
  have "l \<in> L" "repo_of_location l \<noteq> []" using assms(1,2) ListCaches by auto
  from list_caches_step [where b = b, OF this assms(3) [unfolded ListCaches]] assms(4) ListCaches
  show ?thesis by (intro conjI impI allI; elim conjE) fastforce+
next
  case (DeleteTargets l ts)
  then obtain t ts' where "ts = t # ts'" using assms(1) by (cases ts) auto
  note j = DeleteTargets [unfolded this]
  show ?thesis using delete_targets_step [where b = b, OF assms(1,3) [unfolded j]] unfolding j
    by (intro conjI impI allI; elim conjE) fastforce+
qed

text \<open>\<open>w0\<close> is the world the queue starts in, \<open>L\<close> are its locations.\<close>

definition rows_inv :: "string set \<Rightarrow> 'w \<Rightarrow> 'w \<Rightarrow> bool" where
  "rows_inv L w0 w \<longleftrightarrow> same_rows w0 w \<and> (\<forall>k \<in> objs w0 - objs w. \<exists>l \<in> L. deleted_with base (repo_of_location l) k)"

definition jobs_inv :: "string set \<Rightarrow> image_queue \<Rightarrow> bool" where
  "jobs_inv L q \<longleftrightarrow> set (iq_waiting q) \<subseteq> L \<and> (\<forall>j \<in> set (iq_running q). job_ok L j)"

definition remaining_inv :: "string set \<Rightarrow> image_queue \<Rightarrow> 'w \<Rightarrow> bool" where
  "remaining_inv L q w \<longleftrightarrow> (\<forall>l \<in> L. l \<in> set (iq_remaining q) \<or> cleared l w)"

definition queue_size :: "nat \<Rightarrow> image_queue \<Rightarrow> nat" where
  "queue_size b q = length (iq_waiting q) * (b + 2) + sum_list (map (job_weight b) (iq_running q))"

lemma rows_inv_step:
  assumes "rows_inv L w0 w" and "same_rows w w'" and "l \<in> L"
    and "\<forall>k \<in> objs w - objs w'. deleted_with base (repo_of_location l) k"
  shows "rows_inv L w0 w'"
  unfolding rows_inv_def
proof (intro conjI ballI)
  show "same_rows w0 w'" using assms(1,2) same_rows_trans by (auto simp: rows_inv_def)
  fix k assume "k \<in> objs w0 - objs w'"
  then show "\<exists>l \<in> L. deleted_with base (repo_of_location l) k"
    using assms by (cases "k \<in> objs w") (auto simp: rows_inv_def)
qed

lemma start_jobs_inv:
  assumes "jobs_inv L q"
  shows "jobs_inv L (start_jobs n q)" and "iq_remaining (start_jobs n q) = iq_remaining q"
    and "queue_size b (start_jobs n q) = queue_size b q"
    and "0 < n \<Longrightarrow> \<not> queue_idle q \<Longrightarrow> iq_running (start_jobs n q) \<noteq> []"
proof -
  show "jobs_inv L (start_jobs n q)"
    using assms by (auto simp: jobs_inv_def start_jobs_def Let_def dest: in_set_dropD in_set_takeD)
  have w: "sum_list (map (job_weight b \<circ> ListCaches) xs) = length xs * (b + 2)" for xs
    by (induction xs) auto
  let ?m = "n - length (iq_running q)"
  have "length (iq_waiting q) = length (take ?m (iq_waiting q)) + length (drop ?m (iq_waiting q))"
    by simp
  then have "length (iq_waiting q) * (b + 2) =
      length (take ?m (iq_waiting q)) * (b + 2) + length (drop ?m (iq_waiting q)) * (b + 2)"
    by (metis add_mult_distrib)
  then show "queue_size b (start_jobs n q) = queue_size b q"
    unfolding queue_size_def start_jobs_def Let_def by (simp add: w del: length_take length_drop)
qed (auto simp: start_jobs_def Let_def queue_idle_def)

lemma after_job_inv:
  assumes "jobs_inv L q" and "k < length (iq_running q)" and "remaining_inv L q w"
    and "\<forall>j'. r = Inr (Some j') \<longrightarrow> job_ok L j'" and "r = Inr None \<longrightarrow> cleared (job_location job) w"
  shows "jobs_inv L (snd (after_job k job r q)) \<and> remaining_inv L (snd (after_job k job r q)) w"
proof -
  have sub: "set (take k js @ drop (Suc k) js) \<subseteq> set js" for js :: "job list"
    by (auto dest: in_set_dropD in_set_takeD)
  show ?thesis
  proof (cases r)
    case (Inl e)
    with assms sub [of "iq_running q"] show ?thesis by (auto simp: jobs_inv_def remaining_inv_def)
  next
    case (Inr o')
    with assms sub [of "iq_running q"] show ?thesis
      by (cases o') (auto simp: jobs_inv_def remaining_inv_def dest!: set_update_subset_insert [THEN subsetD])
  qed
qed

lemma after_job_size:
  assumes "k < length (iq_running q)" and "r = Inr None \<longrightarrow> 0 < job_weight b (iq_running q ! k)"
    and "\<forall>j'. r = Inr (Some j') \<longrightarrow> job_weight b j' < job_weight b (iq_running q ! k)"
    and "after_job k job r q = (None, q')"
  shows "queue_size b q' < queue_size b q"
proof -
  have split: "iq_running q = take k (iq_running q) @ iq_running q ! k # drop (Suc k) (iq_running q)"
    by (rule id_take_nth_drop [OF assms(1)])
  have sum: "sum_list (map (job_weight b) (iq_running q)) =
      sum_list (map (job_weight b) (take k (iq_running q))) + job_weight b (iq_running q ! k) +
      sum_list (map (job_weight b) (drop (Suc k) (iq_running q)))"
    by (subst split) simp
  show ?thesis
  proof (cases r)
    case (Inl e)
    with assms(4) show ?thesis by simp
  next
    case (Inr o')
    with assms sum show ?thesis
      by (cases o') (auto simp: queue_size_def upd_conv_take_nth_drop)
  qed
qed

lemma queue_step_inv:
  assumes "jobs_inv L q" and "rows_inv L w0 w" and "remaining_inv L q w" and "\<not> queue_idle q" and "0 < n"
    and "\<forall>l \<in> L. repo_of_location l \<noteq> []" and "queue_step env n i q w = ((e, q'), w')"
  shows "jobs_inv L q' \<and> rows_inv L w0 w' \<and> remaining_inv L q' w' \<and> same_rows w w' \<and>
    (e = None \<longrightarrow> queue_size (bound w0) q' < queue_size (bound w0) q)"
proof -
  define q1 where "q1 = start_jobs n q"
  define k where "k = i mod length (iq_running q1)"
  define job where "job = iq_running q1 ! k"
  have k: "k < length (iq_running q1)" using start_jobs_inv(4) [OF assms(1,5,4)] by (simp add: q1_def k_def)
  have ok: "job_ok L job" using start_jobs_inv(1) [OF assms(1), of n] nth_mem [OF k]
    by (simp add: q1_def job_def jobs_inv_def)
  obtain r where run: "job_step env job w = (r, w')" and after: "after_job k job r q1 = (e, q')"
    using assms(7) by (auto simp: queue_step_def Let_def q1_def [symmetric] k_def [symmetric] job_def [symmetric] split: prod.splits)
  have bnd: "bound w \<le> bound w0" using assms(2) by (simp add: rows_inv_def same_rows_def)
  note step = job_step_result [OF ok assms(6) run bnd]
  then have rows: "rows_inv L w0 w'" and same: "same_rows w w'"
    using rows_inv_step [OF assms(2) _ job_ok_location [OF ok]] by blast+
  have "remaining_inv L q1 w'"
    using assms(3) start_jobs_inv(2) [OF assms(1)] cleared_mono [OF _ same] by (auto simp: q1_def remaining_inv_def)
  from after_job_inv [OF start_jobs_inv(1) [OF assms(1)] _ this [unfolded q1_def], of k r job] k step after
  have inv: "jobs_inv L q' \<and> remaining_inv L q' w'" by (simp add: q1_def)
  have "queue_size (bound w0) q' < queue_size (bound w0) q" if "e = None"
    using after_job_size [OF k, of r "bound w0" job q'] step after that start_jobs_inv(3) [OF assms(1), of "bound w0" n]
    by (simp add: q1_def [symmetric] job_def [symmetric])
  with rows same inv show ?thesis by blast
qed

lemma run_queue_inv:
  assumes "jobs_inv L q" and "rows_inv L w0 w" and "remaining_inv L q w" and "0 < n"
    and "\<forall>l \<in> L. repo_of_location l \<noteq> []" and "run_queue env n schedule q w = ((e, q', rest), w')"
  shows "jobs_inv L q' \<and> rows_inv L w0 w' \<and> remaining_inv L q' w' \<and>
    (queue_size (bound w0) q \<le> length schedule \<longrightarrow> e \<noteq> None)"
  using assms
proof (induction schedule arbitrary: q w)
  case Nil
  have "e = None \<Longrightarrow> queue_size (bound w0) q \<noteq> 0"
  proof
    assume e: "e = None" and zero: "queue_size (bound w0) q = 0"
    then have "iq_waiting q = []" and "\<forall>j \<in> set (iq_running q). job_weight (bound w0) j = 0"
      by (auto simp: queue_size_def)
    moreover have "\<forall>j \<in> set (iq_running q). 0 < job_weight (bound w0) j"
      using Nil.prems(1) job_ok_weight by (auto simp: jobs_inv_def)
    ultimately have "queue_idle q" by (cases "iq_running q") (auto simp: queue_idle_def)
    with Nil.prems(6) e show False by (simp add: run_queue.simps)
  qed
  with Nil.prems show ?case by (auto simp: run_queue.simps [of _ _ "[]"] split: if_splits)
next
  case (Cons i schedule)
  show ?case
  proof (cases "queue_idle q \<or> im_aborted env w")
    case True
    then have "q' = q \<and> w' = w \<and> e \<noteq> None"
      using Cons.prems(6) by (auto simp: run_queue.simps [of env n "i # schedule"] split: if_splits)
    with Cons.prems show ?thesis by simp
  next
    case False
    obtain e1 q1 w1 where step: "queue_step env n i q w = ((e1, q1), w1)"
      by (metis prod.collapse)
    with False have idle: "\<not> queue_idle q" by simp
    note inv = queue_step_inv [OF Cons.prems(1-3) idle Cons.prems(4,5) step]
    show ?thesis
    proof (cases e1)
      case None
      then have run: "run_queue env n schedule q1 w1 = ((e, q', rest), w')"
        using Cons.prems(6) False step by (simp add: run_queue.simps [of _ _ "i # schedule"])
      have "jobs_inv L q1" "rows_inv L w0 w1" "remaining_inv L q1 w1" and size: "queue_size (bound w0) q1 < queue_size (bound w0) q"
        using inv None by blast+
      note * = Cons.IH [OF this(1-3) Cons.prems(4,5) run]
      have "queue_size (bound w0) q \<le> length (i # schedule) \<Longrightarrow> queue_size (bound w0) q1 \<le> length schedule"
        using size by simp
      with * show ?thesis by blast
    next
      case (Some x)
      then have "e = Some (Some x)" "q' = q1" "w' = w1"
        using Cons.prems(6) False step by (simp_all add: run_queue.simps [of _ _ "i # schedule"])
      with inv show ?thesis by simp
    qed
  qed
qed

lemma run_background_inv:
  assumes "jobs_inv L q" and "rows_inv L w0 w" and "remaining_inv L q w" and "0 < n"
    and "\<forall>l \<in> L. repo_of_location l \<noteq> []"
  shows "rows_inv L w0 (run_background env n schedule q w) \<and> same_rows w (run_background env n schedule q w)"
  using assms
proof (induction schedule arbitrary: q w)
  case (Cons i schedule)
  obtain e1 q1 w1 where step: "queue_step env n i q w = ((e1, q1), w1)"
    by (metis prod.collapse)
  show ?case
  proof (cases "queue_idle q")
    case False
    note inv = queue_step_inv [OF Cons.prems(1-3) False Cons.prems(4,5) step]
    then have "rows_inv L w0 (run_background env n schedule q1 w1) \<and> same_rows w1 (run_background env n schedule q1 w1)"
      using Cons.IH Cons.prems(4,5) by blast
    with inv step False same_rows_trans show ?thesis by auto
  qed (use Cons.prems in auto)
qed simp

text \<open>What a run of the task leaves, whatever ends its queue.\<close>

definition removed_only :: "string set \<Rightarrow> 'w \<Rightarrow> 'w \<Rightarrow> bool" where
  "removed_only L w w' \<longleftrightarrow> objs w' \<subseteq> objs w \<and> refs w' = refs w \<and>
     (\<forall>k \<in> objs w - objs w'. \<exists>l \<in> L. deleted_with base (repo_of_location l) k)"

definition settled_location :: "'w \<Rightarrow> 'w \<Rightarrow> string \<Rightarrow> bool" where
  "settled_location w w' l \<longleftrightarrow> cleared l w' \<or> (\<exists>ls. tasks w' = tasks w @ [ls] \<and> l \<in> set ls)"

lemma delete_unreferenced_result:
  assumes "0 < n" and "\<forall>l \<in> set ls. repo_of_location l \<noteq> []"
    and "delete_unreferenced env n schedule ls w = (r, w')"
  shows "removed_only (set ls) w w' \<and> (r = Inr (Some ()) \<longrightarrow> (\<forall>l \<in> set ls. settled_location w w' l)) \<and>
    (length ls * (bound w + 2) \<le> length schedule \<longrightarrow> r \<noteq> Inr None)"
proof -
  let ?L = "set ls"
  obtain e q rest w1 where run: "run_queue env n schedule (new_queue ls) w = ((e, q, rest), w1)"
    by (metis prod.collapse)
  have "jobs_inv ?L (new_queue ls)" "rows_inv ?L w w" "remaining_inv ?L (new_queue ls) w"
    by (auto simp: jobs_inv_def rows_inv_def remaining_inv_def new_queue_def)
  note queue = run_queue_inv [OF this assms(1,2) run]
  have size: "queue_size (bound w) (new_queue ls) = length ls * (bound w + 2)"
    by (simp add: queue_size_def new_queue_def)
  have rows: "removed_only ?L w w1" "tasks w1 = tasks w"
    using queue by (auto simp: rows_inv_def removed_only_def same_rows_def)
  show ?thesis
  proof (cases e)
    case None
    with run assms(3) have "r = Inr None" "w' = w1" by (simp_all add: delete_unreferenced_def)
    with None queue rows size show ?thesis by auto
  next
    case (Some err)
    obtain d w2 where finish: "finish_queue env err (iq_remaining q) w1 = (d, w2)" by (metis prod.collapse)
    then have r: "r = map_sum id Some d" and w': "w' = run_background env n rest q w2"
      using run Some assms(3) by (simp_all add: delete_unreferenced_def)
    have post: "objs w2 = objs w1 \<and> refs w2 = refs w1 \<and>
        (d = Inr () \<longrightarrow> iq_remaining q \<noteq> [] \<longrightarrow> tasks w2 = tasks w1 @ [iq_remaining q])"
      using finish post_law [of "iq_remaining q" None w1 d w2]
      by (auto simp: finish_queue_def split: if_splits)
    have "remaining_inv ?L q w2" using queue post by (auto simp: remaining_inv_def cleared_def)
    then have later: "rows_inv ?L w2 w'" "same_rows w2 w'"
      using run_background_inv [of ?L q w2 w2 n rest] queue assms(1,2) by (auto simp: w' rows_inv_def)
    have "removed_only ?L w w'"
      using rows(1) later post by (auto simp: removed_only_def rows_inv_def same_rows_def)
    moreover have "settled_location w w' l" if "d = Inr ()" "l \<in> ?L" for l
    proof (cases "l \<in> set (iq_remaining q)")
      case True
      then have "tasks w2 = tasks w @ [iq_remaining q]" using post that(1) rows(2) by auto
      with True later(2) show ?thesis unfolding settled_location_def same_rows_def by auto
    next
      case False
      then have "cleared l w2" using \<open>remaining_inv ?L q w2\<close> that(2) by (auto simp: remaining_inv_def)
      then show ?thesis using cleared_mono later(2) by (auto simp: settled_location_def)
    qed
    moreover have "r \<noteq> Inr None" and "r = Inr (Some ()) \<Longrightarrow> d = Inr ()" by (cases d; simp add: r)+
    ultimately show ?thesis by blast
  qed
qed

lemma deleteRegistryImages_result:
  assumes "0 < n" and "\<forall>l \<in> set images. repo_of_location l \<noteq> []"
    and "deleteRegistryImages env n schedule images w = (r, w')"
  shows "removed_only (set images - refs w) w w' \<and>
    (r = Inr (Some ()) \<longrightarrow> (\<forall>l \<in> set images - refs w. settled_location w w' l)) \<and>
    (length images * (bound w + 2) \<le> length schedule \<longrightarrow> r \<noteq> Inr None)"
proof (cases "im_enabled env")
  case False
  with assms(3) show ?thesis by (auto simp: deleteRegistryImages_def io_throw_def removed_only_def)
next
  case True
  obtain c w1 where read: "im_referenced env images w = (c, w1)" by (metis prod.collapse)
  note law = referenced_law [OF read]
  show ?thesis
  proof (cases c)
    case (Inl e)
    with True read assms(3) law show ?thesis by (auto simp: deleteRegistryImages_def io_bind_def removed_only_def)
  next
    case (Inr xs)
    define ls where "ls = remdups (filter (\<lambda>location. location \<notin> set xs) images)"
    have ls: "set ls = set images - refs w" "length ls \<le> length images"
      using law Inr by (auto simp: ls_def intro: order_trans [OF length_remdups_leq])
    have "delete_unreferenced env n schedule ls w1 = (r, w')"
      using True read assms(3) Inr by (simp add: deleteRegistryImages_def io_bind_def ls_def)
    from delete_unreferenced_result [OF assms(1) _ this] assms(2) ls(1)
    have res: "removed_only (set images - refs w) w1 w' \<and>
        (r = Inr (Some ()) \<longrightarrow> (\<forall>l \<in> set images - refs w. settled_location w1 w' l)) \<and>
        (length ls * (bound w1 + 2) \<le> length schedule \<longrightarrow> r \<noteq> Inr None)" by auto
    have "length ls * (bound w1 + 2) \<le> length images * (bound w + 2)"
      using ls(2) law by (intro mult_le_mono) auto
    with res law show ?thesis by (auto simp: removed_only_def settled_location_def)
  qed
qed

end

section \<open>The task on the storage of the registry\<close>

text \<open>
  A storage service whose failed deletions remove nothing else than they were asked to, which lists folders with the
  prefix only, and whose calls leave everything else (\<open>view\<close>) as it was.
\<close>

locale s3_partial = s3_contract s3 objs past
  for s3 :: "'w s3" and objs :: "'w \<Rightarrow> string set" and past :: "string \<Rightarrow> string \<Rightarrow> bool" +
  fixes view :: "'w \<Rightarrow> 'v"
  assumes delete_partial: "s3_delete s3 ks w = (e, w') \<Longrightarrow>
      objs w' \<subseteq> objs w \<and> objs w - objs w' \<subseteq> set ks \<and> view w' = view w"
    and folders_law: "s3_list s3 p d tok w = (l, w') \<Longrightarrow>
      w' = w \<and> (\<forall>pg c. l = Inr pg \<longrightarrow> Some c \<in> set (pg_prefixes pg) \<longrightarrow> js_startsWith c p)"
begin

lemma delete_pages_partial:
  assumes "delete_pages fuel s3 aborted p tok w = (r, w')"
  shows "objs w' \<subseteq> objs w \<and> (\<forall>k \<in> objs w - objs w'. js_startsWith k p) \<and> view w' = view w"
  using assms
proof (induction fuel arbitrary: tok w)
  case (Suc fuel)
  show ?case
  proof (cases "aborted w")
    case False
    obtain pg where pg: "s3_list s3 p None tok w = (Inr pg, w)"
      "set (List.map_filter (\<lambda>k. k) (pg_keys pg)) \<subseteq> {k \<in> objs w. js_startsWith k p}"
      using list_law [of p tok w] by (auto simp: Let_def)
    define ks where "ks = List.map_filter (\<lambda>k. k) (pg_keys pg)"
    obtain e w1 where del: "s3_delete s3 ks w = (e, w1)" by (metis prod.collapse)
    have w1: "objs w1 \<subseteq> objs w" "\<forall>k \<in> objs w - objs w1. js_startsWith k p" "view w1 = view w"
      using delete_partial [OF del] pg(2) by (auto simp: ks_def)
    have next_page: "objs w' \<subseteq> objs v \<and> (\<forall>k \<in> objs v - objs w'. js_startsWith k p) \<and> view w' = view v"
      if "(case next_token pg of None \<Rightarrow> io_return (Some ()) | Some t \<Rightarrow> delete_pages fuel s3 aborted p (Some t)) v = (r, w')" for v
      using that Suc.IH by (cases "next_token pg") (auto simp: io_return_def)
    show ?thesis
    proof (cases "ks = []")
      case True
      with Suc.prems False pg(1) next_page [of w] show ?thesis
        by (simp add: io_bind_def io_return_def ks_def [symmetric] Let_def)
    next
      case nonempty: False
      show ?thesis
      proof (cases "e = Inr []")
        case True
        with Suc.prems False pg(1) del nonempty next_page [of w1] w1 show ?thesis
          by (auto simp: io_bind_def io_return_def ks_def [symmetric] Let_def)
      next
        case failed: False
        with Suc.prems False pg(1) del nonempty have "w' = w1"
          by (auto simp: io_bind_def io_return_def io_throw_def ks_def [symmetric] Let_def split: sum.splits list.splits)
        with w1 show ?thesis by blast
      qed
    qed
  qed (use Suc.prems in auto)
qed (auto simp: io_return_def)

lemma list_pages_folders:
  assumes "list_pages fuel s3 p tok cs w = (r, w')" and "\<forall>c \<in> set cs. js_startsWith c p"
  shows "w' = w \<and> (\<forall>cs'. r = Inr (Some cs') \<longrightarrow> (\<forall>c \<in> set cs'. js_startsWith c p))"
  using assms
proof (induction fuel arbitrary: tok cs)
  case (Suc fuel)
  obtain l v where l: "s3_list s3 p (Some ''/'') tok w = (l, v)" by (metis prod.collapse)
  note law = folders_law [OF this]
  show ?case
  proof (cases l)
    case (Inr pg)
    have "\<forall>c \<in> set (cs @ List.map_filter (\<lambda>p. p) (pg_prefixes pg)). js_startsWith c p"
      using law Inr Suc.prems(2) by (auto simp: List.map_filter_def)
    from Suc.IH [OF _ this] Suc.prems l law Inr this show ?thesis
      by (auto simp: io_bind_def io_return_def Let_def split: option.splits)
  qed (use Suc.prems l law in \<open>auto simp: io_bind_def\<close>)
qed (auto simp: io_return_def)

lemma replace_beginning: "js_replace_first p [] (p @ rest) = rest"
proof (cases "p @ rest")
  case (Cons c cs)
  have "js_startsWith (c # cs) p" unfolding Cons [symmetric] by (simp add: js_startsWith_def)
  then have "js_replace_first p [] (c # cs) = drop (length p) (c # cs)" by simp
  then show ?thesis unfolding Cons [symmetric] by simp
qed simp

lemma listCacheRepos_names:
  assumes "listCacheRepos fuel s3 rootPath repo w = (r, w')"
  shows "w' = w \<and> (\<forall>cs. r = Inr (Some cs) \<longrightarrow> (\<forall>c \<in> set cs. \<exists>x. c = repo @ CHR ''-'' # x))"
proof -
  let ?base = "rootPath @ ''/repositories/''"
  obtain l v where l: "listChildPrefixes fuel s3 (?base @ repo @ ''-'') w = (l, v)" by (metis prod.collapse)
  then have v: "v = w" "\<And>cs' c. l = Inr (Some cs') \<Longrightarrow> c \<in> set cs' \<Longrightarrow> js_startsWith c (?base @ repo @ ''-'')"
    using list_pages_folders [of fuel "?base @ repo @ ''-''" None "[]" w l v] by (auto simp: listChildPrefixes_def)
  have name: "\<exists>x. strip_slash (js_replace_first ?base [] c) = repo @ CHR ''-'' # x"
    if "js_startsWith c (?base @ repo @ ''-'')" for c
  proof -
    obtain y where "c = ?base @ (repo @ CHR ''-'' # y)"
      using \<open>js_startsWith c (?base @ repo @ ''-'')\<close> by (auto simp: js_startsWith_prefix prefix_def)
    then have "js_replace_first ?base [] c = repo @ CHR ''-'' # y" by (simp only: replace_beginning)
    then show ?thesis by (cases "y = []") (auto simp: strip_slash_def butlast_append)
  qed
  show ?thesis
  proof (cases l)
    case (Inl e)
    with assms l v(1) show ?thesis by (auto simp: listCacheRepos_def Let_def io_bind_def)
  next
    case (Inr o')
    with assms l v name show ?thesis
      by (auto simp: listCacheRepos_def Let_def io_bind_def io_return_def)
  qed
qed

end

text \<open>
  A world with the keys of the storage, the locations of images, the tasks posted and the number of deletions made.
  The store is that of \<open>RegistryStorage\<close>, with folders; the time of a task is over after \<open>limit\<close> deletions.
\<close>

record image_world =
  iw_keys :: "string list"
  iw_refs :: "string list"
  iw_tasks :: "string list list"
  iw_calls :: nat

definition folders_of :: "string \<Rightarrow> string list \<Rightarrow> string list" where
  "folders_of p keys =
     remdups (map (\<lambda>k. p @ takeWhile (\<lambda>c. c \<noteq> CHR ''/'') (drop (length p) k) @ ''/'')
       (filter (\<lambda>k. js_startsWith k p \<and> CHR ''/'' \<in> set (drop (length p) k)) keys))"

definition image_s3 :: "image_world s3" where
  "image_s3 =
     \<lparr>s3_list = (\<lambda>p delimiter tok w.
        case delimiter of
          None \<Rightarrow> (fst (s3_list mem_s3 p None tok (iw_keys w)), w)
        | Some d \<Rightarrow> (Inr \<lparr>pg_keys = [], pg_prefixes = map Some (folders_of p (iw_keys w)), pg_truncated = False,
                       pg_token = None\<rparr>, w)),
      s3_delete = (\<lambda>ks w. (Inr [], w\<lparr>iw_keys := filter (\<lambda>k. k \<notin> set ks) (iw_keys w), iw_calls := Suc (iw_calls w)\<rparr>))\<rparr>"

definition image_view :: "image_world \<Rightarrow> string list \<times> string list list" where
  "image_view w = (iw_refs w, iw_tasks w)"

definition mem_image_env :: "nat \<Rightarrow> string \<Rightarrow> image_world image_env" where
  "mem_image_env limit rootPath =
     \<lparr>im_enabled = True, im_affected = io_return [], im_locations = (\<lambda>ids. io_return []), im_chunk = (\<lambda>xs. [xs]),
      im_now = (\<lambda>w. int (iw_calls w)), im_offset = 0,
      im_post_task = (\<lambda>ls t w. (Inr (), w\<lparr>iw_tasks := iw_tasks w @ [ls]\<rparr>)),
      im_referenced = (\<lambda>ls w. (Inr (filter (\<lambda>l. l \<in> set ls) (iw_refs w)), w)),
      im_cache_repos = (\<lambda>repo. io_bind (listCacheRepos 1 image_s3 rootPath repo) (\<lambda>r.
        case r of None \<Rightarrow> io_throw JsTypeError | Some repos \<Rightarrow> io_return repos)),
      im_delete_manifests = (\<lambda>repo w.
        io_bind (deleteRepoManifests (Suc (length (iw_keys w))) image_s3 (\<lambda>w. limit \<le> iw_calls w) rootPath repo) (\<lambda>r.
        case r of None \<Rightarrow> io_throw JsTypeError | Some _ \<Rightarrow> io_return ()) w),
      im_aborted = (\<lambda>w. limit \<le> iw_calls w)\<rparr>"

lemma folders_prefix: "c \<in> set (folders_of p keys) \<Longrightarrow> js_startsWith c p"
  by (auto simp: folders_of_def js_startsWith_def)

lemma folders_length: "length (folders_of p keys) \<le> length keys"
  unfolding folders_of_def by (rule order_trans [OF length_remdups_leq]) simp

interpretation image_s3: s3_partial image_s3 "\<lambda>w. set (iw_keys w)" "\<lambda>t k. tl t < k" image_view
proof (rule s3_partial.intro [OF s3_contract.intro s3_partial_axioms.intro], goal_cases)
  case (2 p tok w)
  obtain pg where "s3_list mem_s3 p None tok (iw_keys w) = (Inr pg, iw_keys w)"
    "let ks = set (List.map_filter (\<lambda>k. k) (pg_keys pg));
           here = {k \<in> set (iw_keys w). js_startsWith k p \<and> (case tok of None \<Rightarrow> True | Some t \<Rightarrow> tl t < k)}
       in ks \<subseteq> here \<and>
          (case next_token pg of
             None \<Rightarrow> ks = here
           | Some t \<Rightarrow> ks \<noteq> {} \<and> (\<forall>k \<in> here - ks. tl t < k))"
    using mem_s3.list_law [of p tok "iw_keys w"] by blast
  then show ?case by (intro exI [of _ pg]) (simp add: image_s3_def)
next
  case (5 p d tok w l w')
  then show ?case
    by (cases d) (auto simp: image_s3_def mem_s3_def Let_def folders_prefix)
qed (auto simp: image_s3_def image_view_def)

lemma image_cache_repos:
  "listCacheRepos 1 image_s3 base repo w = (r, w') \<Longrightarrow>
     w' = w \<and> (\<exists>cs. r = Inr (Some cs) \<and> length cs \<le> length (iw_keys w))"
  using folders_length [of "base @ ''/repositories/'' @ repo @ ''-''" "iw_keys w"]
  by (auto simp: listCacheRepos_def listChildPrefixes_def image_s3_def Let_def io_bind_def io_return_def next_token_def
      List.map_filter_def)

lemma delete_pages_shrinks:
  "delete_pages fuel image_s3 aborted p tok w = (r, w') \<Longrightarrow> length (iw_keys w') \<le> length (iw_keys w)"
proof (induction fuel arbitrary: tok w)
  case (Suc fuel)
  have del: "s3_delete image_s3 ks v = (Inr [], v\<lparr>iw_keys := filter (\<lambda>k. k \<notin> set ks) (iw_keys v), iw_calls := Suc (iw_calls v)\<rparr>)"
    for ks v by (simp add: image_s3_def)
  obtain pg where pg: "s3_list image_s3 p None tok w = (Inr pg, w)" using image_s3.list_law by blast
  have later: "length (iw_keys w') \<le> length (iw_keys v)"
    if "(case next_token pg of None \<Rightarrow> io_return (Some ()) | Some t \<Rightarrow> delete_pages fuel image_s3 aborted p (Some t)) v = (r, w')" for v
    using that Suc.IH by (cases "next_token pg") (auto simp: io_return_def)
  define ks where "ks = List.map_filter (\<lambda>k. k) (pg_keys pg)"
  show ?case
  proof (cases "aborted w \<or> ks = []")
    case True
    with Suc.prems pg later [of w] show ?thesis
      by (auto simp: io_bind_def io_return_def ks_def [symmetric] Let_def split: if_splits)
  next
    case False
    with Suc.prems pg have "(case next_token pg of None \<Rightarrow> io_return (Some ()) | Some t \<Rightarrow> delete_pages fuel image_s3 aborted p (Some t))
        (w\<lparr>iw_keys := filter (\<lambda>k. k \<notin> set ks) (iw_keys w), iw_calls := Suc (iw_calls w)\<rparr>) = (r, w')"
      by (simp add: io_bind_def io_return_def ks_def [symmetric] Let_def del)
    from later [OF this] have "length (iw_keys w') \<le> length (filter (\<lambda>k. k \<notin> set ks) (iw_keys w))" by simp
    then show ?thesis by (rule order_trans) (rule length_filter_le)
  qed
qed (auto simp: io_return_def)

interpretation mem_images: image_store "mem_image_env limit base" base "\<lambda>w. set (iw_keys w)" "\<lambda>w. set (iw_refs w)"
  iw_tasks "\<lambda>w. length (iw_keys w)"
proof (rule image_store.intro, goal_cases)
  case (1 repo w r w')
  obtain l v where l: "listCacheRepos 1 image_s3 base repo w = (l, v)" by (metis prod.collapse)
  from image_cache_repos [OF l] obtain cs where cs: "v = w" "l = Inr (Some cs)" "length cs \<le> length (iw_keys w)"
    by (elim conjE exE) simp
  then have "w' = w" "r = Inr cs"
    using 1 l by (auto simp: mem_image_env_def io_bind_def io_return_def)
  with cs image_s3.listCacheRepos_names [OF l] show ?case by simp
next
  case (2 repo w d w')
  let ?stop = "\<lambda>w. limit \<le> iw_calls w"
  obtain l v where l: "deleteRepoManifests (Suc (length (iw_keys w))) image_s3 ?stop base repo w = (l, v)"
    by (metis prod.collapse)
  have "card (set (iw_keys w)) < Suc (length (iw_keys w))" by (simp add: card_length less_Suc_eq_le)
  from image_s3.delete_pages_result [OF this _ l [unfolded deleteRepoManifests_def]]
  have full: "l \<noteq> Inr None \<and> (l = Inr (Some ()) \<longrightarrow> set (iw_keys v) = {k \<in> set (iw_keys w). \<not> js_startsWith k (manifests_prefix base repo)})"
    by simp
  have w': "w' = v" and res: "d = Inr () \<Longrightarrow> l = Inr (Some ())"
    using 2 l full by (auto simp: mem_image_env_def io_bind_def io_return_def io_throw_def split: sum.splits option.splits)
  have "d = Inr () \<longrightarrow> (\<forall>k \<in> set (iw_keys v). \<not> js_startsWith k (manifests_prefix base repo))"
    using res full by blast
  moreover have "length (iw_keys v) \<le> length (iw_keys w)"
    by (rule delete_pages_shrinks [OF l [unfolded deleteRepoManifests_def]])
  ultimately show ?case
    using image_s3.delete_pages_partial [OF l [unfolded deleteRepoManifests_def]] unfolding w'
    by (simp add: image_view_def)
qed (auto simp: mem_image_env_def)

text \<open>The objects under the manifests of a location.\<close>

definition manifests_of :: "string \<Rightarrow> string set \<Rightarrow> string \<Rightarrow> string set" where
  "manifests_of base objects l = {k \<in> objects. js_startsWith k (manifests_prefix base (repo_of_location l))}"

text \<open>
  Claim C5. The task that empties the registry of deleted images never touches the manifests of a location at which
  an image is stored, in whatever order its jobs run, whether it succeeds, fails or runs out of time, and with a
  long enough schedule it ends.  When it succeeds, each location without an image has no manifests left or is in
  the new task, so nothing is forgotten.
\<close>

theorem registry_deletion_spares_images:
  assumes store: "image_store env base objs refs tasks bound" and "0 < concurrency"
    and host: "CHR ''/'' \<notin> set host" "host \<noteq> []"
    and locs: "\<forall>l \<in> set images \<union> refs w. stored_location host l"
    and run: "deleteRegistryImages env concurrency schedule images w = (r, w')"
  shows "(\<forall>l \<in> refs w. manifests_of base (objs w') l = manifests_of base (objs w) l) \<and>
    (r = Inr (Some ()) \<longrightarrow>
      (\<forall>l \<in> set images - refs w.
         manifests_of base (objs w') l = {} \<or> (\<exists>ls. tasks w' = tasks w @ [ls] \<and> l \<in> set ls))) \<and>
    (length images * (bound w + 2) \<le> length schedule \<longrightarrow> r \<noteq> Inr None)"
proof -
  have "\<forall>l \<in> set images. repo_of_location l \<noteq> []"
    using locs stored_repo_nonempty [OF host] by blast
  from image_store.deleteRegistryImages_result [OF store assms(2) this run]
  have res: "image_store.removed_only base objs refs (set images - refs w) w w'"
    "r = Inr (Some ()) \<longrightarrow> (\<forall>l \<in> set images - refs w. image_store.settled_location base objs tasks w w' l)"
    "length images * (bound w + 2) \<le> length schedule \<longrightarrow> r \<noteq> Inr None" by blast+
  have "manifests_of base (objs w') l = manifests_of base (objs w) l" if l: "l \<in> refs w" for l
  proof -
    have "k \<in> objs w'" if k: "k \<in> objs w" "js_startsWith k (manifests_prefix base (repo_of_location l))" for k
    proof (rule ccontr)
      assume "k \<notin> objs w'"
      then obtain l' where "l' \<in> set images - refs w" "deleted_with base (repo_of_location l') k"
        using res(1) k(1) unfolding image_store.removed_only_def [OF store] by blast
      then show False using stored_repos_apart [OF host _ _ _ k(2), of l'] locs l by auto
    qed
    then show ?thesis using res(1) by (auto simp: manifests_of_def image_store.removed_only_def [OF store])
  qed
  then show ?thesis
    using res(2,3)
    by (auto simp: image_store.settled_location_def [OF store] image_store.cleared_def [OF store] manifests_of_def)
qed

definition sample_image_world :: image_world where
  "sample_image_world =
     \<lparr>iw_keys = [''r/repositories/v2/a1/_manifests/x'', ''r/repositories/v2/a1-0/_manifests/y'', ''r/repositories/v2/b2/_manifests/z'',
                 ''r/repositories/v2/c3/_manifests/z''],
      iw_refs = [''h/v2/b2''], iw_tasks = [], iw_calls = 0\<rparr>"

theorem registry_deletion_spares_images_witness:
  "\<exists>w'. deleteRegistryImages (mem_image_env 2 ''r'') 1 [0, 0, 0, 0, 0, 0, 0, 0, 0, 0, 0, 0, 0, 0, 0, 0, 0, 0]
       [''h/v2/a1'', ''h/v2/b2'', ''h/v2/c3''] sample_image_world = (Inr (Some ()), w') \<and>
     iw_keys w' = [''r/repositories/v2/b2/_manifests/z'', ''r/repositories/v2/c3/_manifests/z''] \<and>
     iw_tasks w' = [[''h/v2/c3'']] \<and>
     manifests_of ''r'' (set (iw_keys w')) ''h/v2/b2'' = manifests_of ''r'' (set (iw_keys sample_image_world)) ''h/v2/b2''"
proof -
  let ?s = "[0, 0, 0, 0, 0, 0, 0, 0, 0, 0, 0, 0, 0, 0, 0, 0, 0, 0 :: nat]"
  let ?images = "[''h/v2/a1'', ''h/v2/b2'', ''h/v2/c3'']"
  have run: "deleteRegistryImages (mem_image_env 2 ''r'') 1 ?s ?images sample_image_world =
      (Inr (Some ()), \<lparr>iw_keys = [''r/repositories/v2/b2/_manifests/z'', ''r/repositories/v2/c3/_manifests/z''],
         iw_refs = [''h/v2/b2''], iw_tasks = [[''h/v2/c3'']], iw_calls = 2\<rparr>)" (is "_ = (_, ?w)")
    by code_simp
  have loc: "stored_location ''h'' (''h/v2/'' @ x)" if "x \<noteq> []" "\<forall>c \<in> set x. hex_digit c" for x
    using that by (auto simp: stored_location_def)
  have "stored_location ''h'' ''h/v2/a1''" "stored_location ''h'' ''h/v2/b2''" "stored_location ''h'' ''h/v2/c3''"
    using loc [of "''a1''"] loc [of "''b2''"] loc [of "''c3''"] by (simp_all add: hex_digit_def is_digit_char_def)
  then have "\<forall>l \<in> set ?images \<union> set (iw_refs sample_image_world). stored_location ''h'' l"
    by (simp add: sample_image_world_def)
  from registry_deletion_spares_images [OF mem_images.image_store_axioms _ _ _ this run]
  have "manifests_of ''r'' (set (iw_keys ?w)) ''h/v2/b2'' = manifests_of ''r'' (set (iw_keys sample_image_world)) ''h/v2/b2''"
    by (simp add: sample_image_world_def)
  with run show ?thesis by simp
qed

end
