(* ===== verification/CascadeDelete.thy ===== *)
theory CascadeDelete
  imports Prelude
begin

text \<open>
  What is deleted together with a row: the hook of \<^verbatim>\<open>src/infra/cascade-delete\<close> and the tables of
  \<^verbatim>\<open>src/features/cascade-delete/hooks.ts\<close>, with the hooks for users and API keys.  Deleting the rows of a dependent
  resource runs the hooks of that resource in turn, so the deletion is a recursion over the tables; it ends because
  the tables have no cycle.
\<close>

section \<open>The tables\<close>

definition DELETE_CASCADE :: "(string \<times> (string \<times> string list) list) list" where
  "DELETE_CASCADE =
     [(''application'',
       [(''device'', [''belongs_to__application'']),
        (''application_config_variable'', [''application'']),
        (''application_environment_variable'', [''application'']),
        (''application_tag'', [''application'']),
        (''application_profile'', [''application'', ''on__application'']),
        (''release'', [''belongs_to__application'']),
        (''service'', [''application''])]),
      (''device'',
       [(''device_config_variable'', [''device'']),
        (''device_environment_variable'', [''device'']),
        (''device_service_environment_variable'', [''device'']),
        (''device_tag'', [''device'']),
        (''image_install'', [''device'']),
        (''service_install'', [''device''])]),
      (''image'',
       [(''image_install'', [''installs__image'']),
        (''image__is_part_of__release'', [''image''])]),
      (''image__is_part_of__release'',
       [(''image_label'', [''release_image'']),
        (''image_profile'', [''release_image'']),
        (''image_environment_variable'', [''release_image''])]),
      (''release'',
       [(''release_asset'', [''release'']),
        (''release_tag'', [''release'']),
        (''image__is_part_of__release'', [''is_part_of__release'']),
        (''image_install'', [''is_provided_by__release''])]),
      (''service'',
       [(''device_service_environment_variable'', [''service'']),
        (''service_environment_variable'', [''service'']),
        (''service_install'', [''installs__service'']),
        (''image'', [''is_a_build_of__service'']),
        (''service_label'', [''service''])]),
      (''service_install'',
       [(''device_service_environment_variable'', [''service_install''])])]"

definition API_KEY_CASCADE :: "(string \<times> (string \<times> string list) list) list" where
  "API_KEY_CASCADE =
     [(''api_key'', [(''api_key__has__role'', [''api_key'']), (''api_key__has__permission'', [''api_key''])])]"

definition dependents :: "string \<Rightarrow> (string \<times> string list) list" where
  "dependents res = (case map_of (DELETE_CASCADE @ API_KEY_CASCADE) res of None \<Rightarrow> [] | Some ds \<Rightarrow> ds)"

text \<open>How many steps a deletion of a resource can go down.\<close>

definition cascade_depth :: "string \<Rightarrow> nat" where
  "cascade_depth res =
     (if res = ''application'' then 4 else if res = ''service'' then 3
      else if res \<in> {''device'', ''image'', ''release''} then 2
      else if res \<in> {''image__is_part_of__release'', ''service_install'', ''api_key''} then 1 else 0)"

lemma tables_have_no_cycle:
  assumes "d \<in> set (dependents res)"
  shows "cascade_depth (fst d) < cascade_depth res"
proof -
  have "\<forall>(r, ds) \<in> set (DELETE_CASCADE @ API_KEY_CASCADE). \<forall>d \<in> set ds. cascade_depth (fst d) < cascade_depth r"
    by (simp add: DELETE_CASCADE_def API_KEY_CASCADE_def cascade_depth_def)
  moreover obtain ds where "map_of (DELETE_CASCADE @ API_KEY_CASCADE) res = Some ds" "d \<in> set ds"
    using assms by (cases "map_of (DELETE_CASCADE @ API_KEY_CASCADE) res") (simp_all add: dependents_def del: map_of_append)
  ultimately show ?thesis by (fast dest: map_of_SomeD)
qed

section \<open>Deletions\<close>

text \<open>
  \<open>cd_select res fields ids\<close> are the rows of a resource that hold one of \<open>ids\<close> in one of the fields, \<open>cd_delete\<close>
  deletes rows.
\<close>

record 'w cascade_env =
  cd_select :: "string \<Rightarrow> string list \<Rightarrow> int list \<Rightarrow> ('w, int list) io"
  cd_delete :: "string \<Rightarrow> int list \<Rightarrow> ('w, unit) io"

lemma io_bind_cong [fundef_cong]: "m = m' \<Longrightarrow> (\<And>a. f a = f' a) \<Longrightarrow> io_bind m f = io_bind m' f'"
  by (rule arg_cong2 [where f = io_bind]) auto

lemma io_mapM_cong [fundef_cong]: "xs = ys \<Longrightarrow> (\<And>x. x \<in> set ys \<Longrightarrow> f x = g x) \<Longrightarrow> io_mapM f xs = io_mapM g ys"
proof (induction xs arbitrary: ys)
  case (Cons x xs)
  then show ?case by (auto intro!: io_bind_cong)
qed simp

function delete_resource :: "'w cascade_env \<Rightarrow> string \<Rightarrow> int list \<Rightarrow> ('w, unit) io" where
  "delete_resource env res ids =
     io_bind
       (if ids = [] then io_return ()
        else io_bind (io_mapM (\<lambda>d. io_bind (cd_select env (fst d) (snd d) ids) (delete_resource env (fst d))) (dependents res))
               (\<lambda>_. io_return ()))
       (\<lambda>_. cd_delete env res ids)"
  by pat_completeness auto
termination
  by (relation "measure (\<lambda>(env, res, ids). cascade_depth res)") (auto simp: tables_have_no_cycle)

declare delete_resource.simps [simp del]

text \<open>
  The hook on a deleted user: the roles and permissions of the user go, and the keys of its actor, which
  \<open>actor_of_user\<close> reads.
\<close>

definition delete_user_rows :: "'w cascade_env \<Rightarrow> int \<Rightarrow> string \<Rightarrow> ('w, unit) io" where
  "delete_user_rows env userId res =
     io_bind (cd_select env res [''user''] [userId]) (delete_resource env res)"

definition delete_user_keys :: "'w cascade_env \<Rightarrow> (int \<Rightarrow> ('w, int option) io) \<Rightarrow> int \<Rightarrow> ('w, unit) io" where
  "delete_user_keys env actor_of_user userId =
     io_bind (actor_of_user userId) (\<lambda>actor.
       case actor of
         None \<Rightarrow> io_throw (BadRequestError ''Invalid user'')
       | Some a \<Rightarrow> io_bind (cd_select env ''api_key'' [''is_of__actor''] [a]) (delete_resource env ''api_key''))"

definition delete_user_hook :: "'w cascade_env \<Rightarrow> (int \<Rightarrow> ('w, int option) io) \<Rightarrow> int \<Rightarrow> ('w, unit) io" where
  "delete_user_hook env actor_of_user userId =
     io_bind (io_mapM (delete_user_rows env userId) [''user__has__role'', ''user__has__permission'']) (\<lambda>_.
       delete_user_keys env actor_of_user userId)"

section \<open>What a deletion removes\<close>

text \<open>
  A database of rows: the references a row of a resource holds, by field.  A row is below another when its resource
  is a dependent of that row's resource and one of the fields of the table holds the identifier.
\<close>

type_synonym rows = "string \<Rightarrow> int \<Rightarrow> (string \<Rightarrow> int option) option"

definition below :: "rows \<Rightarrow> ((string \<times> int) \<times> (string \<times> int)) set" where
  "below db = {((r, i), (s, j)). \<exists>row fs f. (s, fs) \<in> set (dependents r) \<and> db s j = Some row \<and> f \<in> set fs \<and> row f = Some i}"

text \<open>The rows that have to go with some rows: those, and all that are reached from them.\<close>

definition doomed :: "rows \<Rightarrow> (string \<times> int) set \<Rightarrow> (string \<times> int) set" where
  "doomed db A = (below db)\<^sup>* `` A"

definition without :: "rows \<Rightarrow> (string \<times> int) set \<Rightarrow> rows" where
  "without db D = (\<lambda>r i. if (r, i) \<in> D then None else db r i)"

text \<open>No row refers, by a field of the tables, to a row that is not there.\<close>

definition references_ok :: "rows \<Rightarrow> bool" where
  "references_ok db \<longleftrightarrow> (\<forall>r i x. ((r, i), x) \<in> below db \<longrightarrow> db r i \<noteq> None)"

lemma below_without: "below (without db D) = {(x, y) \<in> below db. y \<notin> D}"
  by (auto simp: below_def without_def split: if_splits)

lemma without_without [simp]: "without (without db D) E = without db (D \<union> E)"
  by (auto simp: without_def fun_eq_iff)

lemma without_empty [simp]: "without db {} = db"
  by (simp add: without_def)

lemma doomed_mono: "A \<subseteq> doomed db A"
  by (auto simp: doomed_def)

lemma doomed_closed: "below db `` doomed db A \<subseteq> doomed db A"
  by (auto simp: doomed_def intro: rtrancl_into_rtrancl)

lemma doomed_Un: "doomed db (A \<union> B) = doomed db A \<union> doomed db B"
  by (auto simp: doomed_def)

lemma doomed_step: "doomed db A = A \<union> doomed db (below db `` A)"
  by (auto simp: doomed_def elim: converse_rtranclE intro: converse_rtrancl_into_rtrancl)

text \<open>Deleting in two steps, the first of which took everything below what it took.\<close>

lemma doomed_after:
  assumes closed: "below db `` D \<subseteq> D" and "A' \<union> D = A \<union> D"
  shows "doomed (without db D) A' \<union> D = doomed db A \<union> D"
proof
  have "(x, y) \<in> (below (without db D))\<^sup>* \<Longrightarrow> (x, y) \<in> (below db)\<^sup>*" for x y
    by (induction rule: rtrancl_induct) (auto simp: below_without intro: rtrancl_into_rtrancl)
  moreover have inside: "(x, y) \<in> (below db)\<^sup>* \<Longrightarrow> x \<in> D \<Longrightarrow> y \<in> D" for x y
    by (induction rule: rtrancl_induct) (use closed in auto)
  ultimately show "doomed (without db D) A' \<union> D \<subseteq> doomed db A \<union> D"
    using assms(2) by (fastforce simp: doomed_def)
  have "(x, y) \<in> (below db)\<^sup>* \<Longrightarrow> y \<notin> D \<Longrightarrow> (x, y) \<in> (below (without db D))\<^sup>*" for x y
  proof (induction rule: rtrancl_induct)
    case (step y z)
    then have "y \<notin> D" using closed by blast
    with step show ?case by (auto simp: below_without intro: rtrancl_into_rtrancl)
  qed simp
  then show "doomed db A \<union> D \<subseteq> doomed (without db D) A' \<union> D"
    using assms(2) inside by (fastforce simp: doomed_def)
qed

text \<open>The rows of some resources that hold one of some identifiers in the fields given for them.\<close>

definition held :: "rows \<Rightarrow> (string \<times> string list) list \<Rightarrow> int list \<Rightarrow> (string \<times> int) set" where
  "held db ds ids =
     {(s, j). \<exists>row fs f. (s, fs) \<in> set ds \<and> db s j = Some row \<and> f \<in> set fs \<and> (\<exists>i \<in> set ids. row f = Some i)}"

lemma held_below: "held db (dependents res) ids = below db `` ({res} \<times> set ids)"
  by (auto simp: held_def below_def)

lemma held_Nil [simp]: "held db [] ids = {}"
  by (auto simp: held_def)

lemma held_Cons: "held db (d # ds) ids = held db [d] ids \<union> held db ds ids"
  by (auto simp: held_def)

lemma held_without: "held (without db D) ds ids \<union> D = held db ds ids \<union> D"
  by (auto simp: held_def without_def split: if_splits)

lemma references_ok_without:
  assumes "references_ok db" and "below db `` D \<subseteq> D"
  shows "references_ok (without db D)"
  unfolding references_ok_def below_without
proof (intro allI impI)
  fix r i x assume "((r, i), x) \<in> {(x, y) \<in> below db. y \<notin> D}"
  then have edge: "((r, i), x) \<in> below db" "x \<notin> D" by auto
  with assms(2) have "(r, i) \<notin> D" by blast
  moreover have "db r i \<noteq> None" using assms(1) edge(1) unfolding references_ok_def by blast
  ultimately show "without db D r i \<noteq> None" by (simp add: without_def)
qed

text \<open>
  The database: a read finds all rows with the references asked for, and a deletion that succeeds removes exactly
  the rows it names.
\<close>

locale cascade_db =
  fixes env :: "'w cascade_env" and rows :: "'w \<Rightarrow> rows"
  assumes select_law: "cd_select env res fs ids w = (r, w') \<Longrightarrow>
      rows w' = rows w \<and> (\<forall>xs. r = Inr xs \<longrightarrow> {res} \<times> set xs = held (rows w) [(res, fs)] ids)"
    and delete_law: "cd_delete env res ids w = (Inr (), w') \<Longrightarrow> rows w' = without (rows w) ({res} \<times> set ids)"
begin

definition removed :: "'w \<Rightarrow> 'w \<Rightarrow> (string \<times> int) set \<Rightarrow> bool" where
  "removed w w' A \<longleftrightarrow> rows w' = without (rows w) (doomed (rows w) A)"

lemma removed_none [simp]: "removed w w {}"
  by (simp add: removed_def doomed_def)

lemma removed_then:
  assumes "removed w w1 A" and "removed w1 w2 B'" and "B' \<union> doomed (rows w) A = B \<union> doomed (rows w) A"
  shows "removed w w2 (A \<union> B)"
proof -
  let ?D = "doomed (rows w) A"
  have "rows w2 = without (rows w) (?D \<union> doomed (without (rows w) ?D) B')"
    using assms(1,2) by (simp add: removed_def)
  also have "?D \<union> doomed (without (rows w) ?D) B' = doomed (rows w) (A \<union> B)"
    using doomed_after [OF doomed_closed assms(3)] by (auto simp: doomed_Un)
  finally show ?thesis by (simp add: removed_def)
qed

lemma select_and_delete:
  assumes "\<And>ids w w'. delete_resource env res ids w = (Inr (), w') \<Longrightarrow> removed w w' ({res} \<times> set ids)"
    and "io_bind (cd_select env res fs ids) (delete_resource env res) w = (Inr (), w')"
  shows "removed w w' (held (rows w) [(res, fs)] ids)"
proof -
  obtain xs w1 where run: "cd_select env res fs ids w = (Inr xs, w1)" "delete_resource env res xs w1 = (Inr (), w')"
    using assms(2) by (auto simp: io_bind_Inr_iff)
  from select_law [OF run(1)] assms(1) [OF run(2)] show ?thesis by (simp add: removed_def)
qed

lemma delete_dependents:
  assumes "\<And>d ids w w'. d \<in> set ds \<Longrightarrow> delete_resource env (fst d) ids w = (Inr (), w') \<Longrightarrow> removed w w' ({fst d} \<times> set ids)"
    and "io_mapM (\<lambda>d. io_bind (cd_select env (fst d) (snd d) ids) (delete_resource env (fst d))) ds w = (Inr us, w')"
  shows "removed w w' (held (rows w) ds ids)"
  using assms
proof (induction ds arbitrary: w us)
  case Nil
  then show ?case by (simp add: io_return_def)
next
  case (Cons d ds)
  obtain u w1 us1 where run: "io_bind (cd_select env (fst d) (snd d) ids) (delete_resource env (fst d)) w = (Inr u, w1)"
    "io_mapM (\<lambda>d. io_bind (cd_select env (fst d) (snd d) ids) (delete_resource env (fst d))) ds w1 = (Inr us1, w')"
    using Cons.prems(2) by (auto simp: io_bind_Inr_iff io_return_Inr_iff)
  have first: "removed w w1 (held (rows w) [d] ids)"
    using select_and_delete [of "fst d" "snd d" ids w w1] Cons.prems(1) [of d] run(1) by simp
  have rest: "removed w1 w' (held (rows w1) ds ids)"
    using Cons.IH [OF Cons.prems(1) run(2)] by simp
  from removed_then [OF first rest, of "held (rows w) ds ids"] show ?case
    using first held_without by (simp add: held_Cons [of _ d ds] removed_def)
qed

lemma delete_resource_removes:
  "delete_resource env res ids w = (Inr (), w') \<Longrightarrow> removed w w' ({res} \<times> set ids)"
proof (induction "cascade_depth res" arbitrary: res ids w w' rule: less_induct)
  case less
  show ?case
  proof (cases "ids = []")
    case True
    then show ?thesis
      using less.prems delete_law [of res "[]" w w'] by (simp add: delete_resource.simps [of env res] removed_def doomed_def)
  next
    case False
    obtain us w1 where run:
      "io_mapM (\<lambda>d. io_bind (cd_select env (fst d) (snd d) ids) (delete_resource env (fst d))) (dependents res) w = (Inr us, w1)"
      "cd_delete env res ids w1 = (Inr (), w')"
      using less.prems False by (subst (asm) delete_resource.simps) (auto simp: io_bind_Inr_iff io_return_Inr_iff)
    have "removed w w1 (held (rows w) (dependents res) ids)"
      by (rule delete_dependents [OF _ run(1)]) (rule less.hyps [OF tables_have_no_cycle])
    then have "rows w' = without (rows w) (doomed (rows w) (below (rows w) `` ({res} \<times> set ids)) \<union> {res} \<times> set ids)"
      using delete_law [OF run(2)] by (simp add: removed_def held_below)
    then show ?thesis using doomed_step [of "rows w" "{res} \<times> set ids"] by (simp add: removed_def Un_commute)
  qed
qed

text \<open>Deleting a user removes its roles, its permissions and the keys of its actor, with what is below them.\<close>

lemma user_rows_removed:
  "delete_user_rows env userId res w = (Inr (), w') \<Longrightarrow> removed w w' (held (rows w) [(res, [''user''])] [userId])"
  unfolding delete_user_rows_def by (rule select_and_delete [OF delete_resource_removes])

lemma delete_user_removes:
  assumes actor: "\<And>u w r w'. actor_of_user u w = (r, w') \<Longrightarrow> rows w' = rows w \<and> (\<forall>a. r = Inr (Some a) \<longrightarrow> actors u = Some a)"
    and "delete_user_hook env actor_of_user userId w = (Inr (), w')"
  shows "\<exists>a. actors userId = Some a \<and>
    removed w w' (held (rows w) [(''user__has__role'', [''user'']), (''user__has__permission'', [''user''])] [userId] \<union>
      held (rows w) [(''api_key'', [''is_of__actor''])] [a])"
proof -
  let ?roles = "(''user__has__role'', [''user''])" and ?perms = "(''user__has__permission'', [''user''])"
  obtain w1 w2 where run: "delete_user_rows env userId ''user__has__role'' w = (Inr (), w1)"
    "delete_user_rows env userId ''user__has__permission'' w1 = (Inr (), w2)" "delete_user_keys env actor_of_user userId w2 = (Inr (), w')"
    using assms(2) by (auto simp: delete_user_hook_def io_bind_Inr_iff io_return_Inr_iff)
  obtain c w3 where read: "actor_of_user userId w2 = (c, w3)" by (metis prod.collapse)
  from run(3) read obtain a where a: "c = Inr (Some a)"
    "io_bind (cd_select env ''api_key'' [''is_of__actor''] [a]) (delete_resource env ''api_key'') w3 = (Inr (), w')"
    by (cases c; auto simp: delete_user_keys_def io_bind_def io_throw_def split: option.splits)
  have w3: "rows w3 = rows w2" "actors userId = Some a" using actor [OF read] a(1) by auto
  have roles: "removed w w1 (held (rows w) [?roles] [userId])" by (rule user_rows_removed [OF run(1)])
  have perms: "removed w1 w2 (held (rows w1) [?perms] [userId])" by (rule user_rows_removed [OF run(2)])
  have both: "removed w w2 (held (rows w) [?roles, ?perms] [userId])"
    using removed_then [OF roles perms, of "held (rows w) [?perms] [userId]"] roles held_without
    by (simp add: held_Cons [of _ ?roles "[?perms]"] removed_def)
  have "removed w3 w' (held (rows w3) [(''api_key'', [''is_of__actor''])] [a])"
    by (rule select_and_delete [OF delete_resource_removes a(2)])
  then have "removed w2 w' (held (rows w2) [(''api_key'', [''is_of__actor''])] [a])"
    using w3(1) by (simp add: removed_def)
  from removed_then [OF both this, of "held (rows w) [(''api_key'', [''is_of__actor''])] [a]"] both held_without w3(2)
  show ?thesis by (simp add: removed_def)
qed

end

text \<open>
  A database in memory: rows with their resource, identifier and references.  A deletion of a resource that is
  \<open>blocked\<close> fails.
\<close>

type_synonym mem_rows = "(string \<times> int \<times> (string \<times> int) list) list"

fun find_row :: "string \<Rightarrow> int \<Rightarrow> mem_rows \<Rightarrow> (string \<Rightarrow> int option) option" where
  "find_row r i [] = None"
| "find_row r i ((s, j, row) # rs) = (if s = r \<and> j = i then Some (map_of row) else find_row r i rs)"

definition mem_select :: "mem_rows \<Rightarrow> string \<Rightarrow> string list \<Rightarrow> int list \<Rightarrow> int list" where
  "mem_select w res fs ids =
     filter (\<lambda>j. case find_row res j w of None \<Rightarrow> False | Some row \<Rightarrow> list_ex (\<lambda>f. row f \<in> Some ` set ids) fs)
       (map (\<lambda>(_, j, _). j) w)"

definition mem_cascade_env :: "string list \<Rightarrow> mem_rows cascade_env" where
  "mem_cascade_env blocked =
     \<lparr>cd_select = (\<lambda>res fs ids w. (Inr (mem_select w res fs ids), w)),
      cd_delete = (\<lambda>res ids w.
        if res \<in> set blocked then (Inl (ForbiddenError []), w)
        else (Inr (), filter (\<lambda>(s, j, _). \<not> (s = res \<and> j \<in> set ids)) w))\<rparr>"

lemma find_row_id: "find_row r i w = Some row \<Longrightarrow> i \<in> (\<lambda>(_, j, _). j) ` set w"
  by (induction r i w rule: find_row.induct) (auto split: if_splits)

lemma find_row_filter:
  "find_row r i (filter (\<lambda>(s, j, _). s = res \<longrightarrow> j \<notin> set ids) w) = without (\<lambda>r i. find_row r i w) ({res} \<times> set ids) r i"
proof (induction w)
  case (Cons x w)
  then show ?case by (cases x) (auto simp: without_def)
qed (simp add: without_def)

lemma set_mem_select:
  "set (mem_select w res fs ids) = {j. \<exists>row. find_row res j w = Some row \<and> (\<exists>f \<in> set fs. row f \<in> Some ` set ids)}"
proof (intro set_eqI)
  fix j
  show "j \<in> set (mem_select w res fs ids) \<longleftrightarrow>
      j \<in> {j. \<exists>row. find_row res j w = Some row \<and> (\<exists>f \<in> set fs. row f \<in> Some ` set ids)}"
    using find_row_id [of res j w] by (cases "find_row res j w") (auto simp: mem_select_def list_ex_iff)
qed

lemma held_single: "held db [(res, fs)] ids = {res} \<times> {j. \<exists>row. db res j = Some row \<and> (\<exists>f \<in> set fs. row f \<in> Some ` set ids)}"
  unfolding held_def by fastforce

interpretation mem_cascade: cascade_db "mem_cascade_env blocked" "\<lambda>w r i. find_row r i w"
proof
  fix res fs ids w r and w' :: mem_rows
  assume run: "cd_select (mem_cascade_env blocked) res fs ids w = (r, w')"
  then show "(\<lambda>r i. find_row r i w') = (\<lambda>r i. find_row r i w) \<and>
      (\<forall>xs. r = Inr xs \<longrightarrow> {res} \<times> set xs = held (\<lambda>r i. find_row r i w) [(res, fs)] ids)"
    by (clarsimp simp: mem_cascade_env_def held_single set_mem_select)
next
  fix res ids w and w' :: mem_rows
  assume "cd_delete (mem_cascade_env blocked) res ids w = (Inr (), w')"
  then show "(\<lambda>r i. find_row r i w') = without (\<lambda>r i. find_row r i w) ({res} \<times> set ids)"
    by (auto simp: mem_cascade_env_def fun_eq_iff find_row_filter split: if_splits)
qed


definition sample_rows :: mem_rows where
  "sample_rows =
     [(''application'', 1, []), (''device'', 2, [(''belongs_to__application'', 1)]), (''service'', 3, [(''application'', 1)]),
      (''image'', 4, [(''is_a_build_of__service'', 3)]), (''image__is_part_of__release'', 5, [(''image'', 4)]),
      (''image_label'', 6, [(''release_image'', 5)]), (''service_install'', 7, [(''device'', 2), (''installs__service'', 3)]),
      (''device'', 8, [(''belongs_to__application'', 9)]), (''application'', 9, [])]"


end
