(* ===== verification/ContractFiles.thy ===== *)
theory ContractFiles
  imports JsRegex
begin

text \<open>
  The contracts on disk (\<^verbatim>\<open>src/features/contracts/contracts-directory.ts\<close>): which repositories are fetched and with
  which credentials, which files are read, and how a contract is normalized.  The archive format, the network, the
  file system and the library that recognizes URLs are parameters.
\<close>

section \<open>Repositories\<close>

record repository_info =
  ri_owner :: string
  ri_name :: string
  ri_branch :: "string option"
  ri_token :: "string option"

text \<open>The settings of the repositories; an empty text is a setting that is not given.\<close>

record contracts_config =
  cg_public_owner :: string
  cg_public_name :: string
  cg_public_branch :: string
  cg_private_owner :: string
  cg_private_name :: string
  cg_private_branch :: string
  cg_private_token :: string

definition getContractRepos :: "contracts_config \<Rightarrow> repository_info list" where
  "getContractRepos cfg =
     (let repos = [\<lparr>ri_owner = cg_public_owner cfg, ri_name = cg_public_name cfg, ri_branch = Some (cg_public_branch cfg),
                    ri_token = None\<rparr>]
      in if cg_private_owner cfg \<noteq> [] \<and> cg_private_name cfg \<noteq> [] \<and> cg_private_token cfg \<noteq> []
         then repos @ [\<lparr>ri_owner = cg_private_owner cfg, ri_name = cg_private_name cfg,
                        ri_branch = Some (cg_private_branch cfg), ri_token = Some (cg_private_token cfg)\<rparr>]
         else repos)"

definition getArchiveLinkForRepo :: "repository_info \<Rightarrow> string" where
  "getArchiveLinkForRepo repo =
     ''https://api.github.com/repos/'' @ ri_owner repo @ ''/'' @ ri_name repo @ ''/tarball/'' @
     (case ri_branch repo of None \<Rightarrow> [] | Some b \<Rightarrow> b)"

text \<open>\<^verbatim>\<open>/^([\w-])+:\w+$/\<close>\<close>

definition BASIC_TOKEN :: re where
  "BASIC_TOKEN =
     RSeqs [RBegin, RPlus (RGroup 1 (RClass (\<lambda>c. is_word_char c \<or> c = CHR ''-''))), RChar (CHR '':''), RPlus (RClass is_word_char), REnd]"

definition repo_authorization :: "(string \<Rightarrow> string) \<Rightarrow> repository_info \<Rightarrow> string" where
  "repo_authorization base64 repo =
     (case ri_token repo of
        None \<Rightarrow> []
      | Some token \<Rightarrow> (if re_test BASIC_TOKEN token then ''Basic '' @ base64 token else ''Bearer '' @ token))"

definition getRequestOptions :: "(string \<Rightarrow> string) \<Rightarrow> repository_info \<Rightarrow> bool \<times> string obj" where
  "getRequestOptions base64 repo =
     (True, [(''User-Agent'', ''balena''), (''Authorization'', repo_authorization base64 repo)])"

definition archive_dir :: "string \<Rightarrow> repository_info \<Rightarrow> string" where
  "archive_dir CONTRACTS_BASE_DIR repo = CONTRACTS_BASE_DIR @ ''/'' @ ri_owner repo @ ''-'' @ ri_name repo"

text \<open>
  The services: \<open>cf_access\<close> and \<open>cf_mkdir\<close> are the file system, \<open>cf_download\<close> requests an archive (its status and
  message) and \<open>cf_extract\<close> writes the entries of the answer to a directory.  \<open>cf_glob_all\<close> and \<open>cf_glob_type\<close> are the
  files of all contracts and those of a type, \<open>cf_read\<close> reads and parses one.  \<open>cf_realpath\<close> resolves a path given
  relative to a directory, \<open>cf_data_uri\<close> encodes a file.  \<open>cf_is_url\<close> is the validator (it throws on what is no text).
\<close>

record 'w files_env =
  cf_base_dir :: string
  cf_access :: "string \<Rightarrow> ('w, unit) io"
  cf_mkdir :: "string \<Rightarrow> ('w, unit) io"
  cf_base64 :: "string \<Rightarrow> string"
  cf_download :: "string \<Rightarrow> bool \<times> string obj \<Rightarrow> ('w, nat \<times> string) io"
  cf_extract :: "string \<Rightarrow> string \<Rightarrow> ('w, unit) io"
  cf_glob_all :: "('w, string list) io"
  cf_glob_type :: "string \<Rightarrow> ('w, string list) io"
  cf_allowlist :: "string list"
  cf_read :: "string \<Rightarrow> ('w, json obj) io"
  cf_is_url :: "json option \<Rightarrow> bool res"
  cf_realpath :: "string \<Rightarrow> json option \<Rightarrow> ('w, string) io"
  cf_data_uri :: "string \<Rightarrow> string \<Rightarrow> ('w, string) io"

definition prepareContractDirectory :: "'w files_env \<Rightarrow> repository_info \<Rightarrow> ('w, string) io" where
  "prepareContractDirectory env repo =
     (let archiveDir = archive_dir (cf_base_dir env) repo
      in io_bind (io_catch (cf_access env archiveDir) (\<lambda>_. cf_mkdir env archiveDir)) (\<lambda>_. io_return archiveDir))"

definition fetch_repo :: "'w files_env \<Rightarrow> repository_info \<Rightarrow> ('w, unit) io" where
  "fetch_repo env repo =
     io_bind (prepareContractDirectory env repo) (\<lambda>dir.
     io_bind (cf_download env (getArchiveLinkForRepo repo) (getRequestOptions (cf_base64 env) repo)) (\<lambda>(statusCode, statusMessage).
       if statusCode \<noteq> 200 then io_throw (JsError (''Invalid response while fetching contracts: '' @ statusMessage))
       else cf_extract env (getArchiveLinkForRepo repo) dir))"

definition fetchContractsLocally :: "'w files_env \<Rightarrow> repository_info list \<Rightarrow> ('w, unit) io" where
  "fetchContractsLocally env repos = io_bind (io_mapM (fetch_repo env) repos) (\<lambda>_. io_return ())"

section \<open>Assets\<close>

text \<open>\<^verbatim>\<open>path.dirname\<close> of an absolute path and \<^verbatim>\<open>path.extname\<close>.\<close>

definition path_dirname :: "string \<Rightarrow> string" where
  "path_dirname p =
     (let d = rev (dropWhile (\<lambda>c. c \<noteq> CHR ''/'') (rev p)) in if length d > 1 then butlast d else d)"

definition path_extname :: "string \<Rightarrow> string" where
  "path_extname p =
     (let name = rev (takeWhile (\<lambda>c. c \<noteq> CHR ''/'') (rev p));
          ext = rev (takeWhile (\<lambda>c. c \<noteq> CHR ''.'') (rev name))
      in if length ext + 1 < length name then CHR ''.'' # ext else [])"

definition handleLocalAssetUrl :: "'w files_env \<Rightarrow> string \<Rightarrow> ('w, string) io" where
  "handleLocalAssetUrl env assetUrl =
     (if path_extname assetUrl = ''.svg'' then cf_data_uri env assetUrl ''image/svg+xml''
      else if path_extname assetUrl = ''.png'' then cf_data_uri env assetUrl ''image/png''
      else io_return [])"

text \<open>An asset that is kept, with its key; \<open>None\<close> is an asset that is left out.\<close>

definition local_asset :: "'w files_env \<Rightarrow> string \<Rightarrow> json obj \<Rightarrow> ('w, json option) io" where
  "local_asset env contractFilepath asset =
     io_bind (cf_realpath env (path_dirname contractFilepath) (map_of asset ''url'')) (\<lambda>assetRealPath.
       if \<not> js_startsWith assetRealPath (path_dirname contractFilepath) then io_return None
       else io_bind (handleLocalAssetUrl env assetRealPath) (\<lambda>url.
              io_return (Some (JObj (obj_set ''url'' (JStr url) asset)))))"

definition asset_obj :: "json \<Rightarrow> json obj" where
  "asset_obj asset = (case asset of JObj fs \<Rightarrow> fs | _ \<Rightarrow> [])"

definition normalize_asset :: "'w files_env \<Rightarrow> string \<Rightarrow> json \<Rightarrow> ('w, json option) io" where
  "normalize_asset env contractFilepath asset =
     (if asset = JNull then io_throw JsTypeError
      else io_bind (io_lift (cf_is_url env (map_of (asset_obj asset) ''url''))) (\<lambda>isURL.
        if isURL then io_return (Some asset)
        else io_catch (local_asset env contractFilepath (asset_obj asset)) (\<lambda>_. io_return None)))"

definition keyed_asset :: "'w files_env \<Rightarrow> string \<Rightarrow> string \<times> json \<Rightarrow> ('w, json obj) io" where
  "keyed_asset env contractFilepath entry =
     io_bind (normalize_asset env contractFilepath (snd entry)) (\<lambda>a.
       io_return (case a of None \<Rightarrow> [] | Some v \<Rightarrow> [(fst entry, v)]))"

definition normalizeAssets :: "'w files_env \<Rightarrow> string \<Rightarrow> json obj \<Rightarrow> ('w, json obj) io" where
  "normalizeAssets env contractFilepath assets =
     io_bind (io_mapM (keyed_asset env contractFilepath) assets) (\<lambda>es. io_return (concat es))"

section \<open>Contracts\<close>

text \<open>The aliases of a contract include its slug; without a slug, \<^verbatim>\<open>undefined\<close> is pushed, which JSON writes as null.\<close>

definition with_aliases :: "json obj \<Rightarrow> json obj" where
  "with_aliases contract =
     (let c1 = (if not_nullish (map_of contract ''aliases'') then contract else obj_set ''aliases'' (JArr []) contract)
      in case map_of c1 ''aliases'' of
           Some (JArr as) \<Rightarrow>
             (case map_of contract ''slug'' of
                Some s \<Rightarrow> (if s \<in> set as then c1 else obj_set ''aliases'' (JArr (as @ [s])) c1)
              | None \<Rightarrow> obj_set ''aliases'' (JArr (as @ [JNull])) c1)
         | _ \<Rightarrow> c1)"

definition normalizeContract :: "'w files_env \<Rightarrow> string \<Rightarrow> json obj \<Rightarrow> ('w, json obj) io" where
  "normalizeContract env contractFilepath contract0 =
     (let contract = with_aliases contract0
      in case map_of contract ''assets'' of
           Some (JObj assets) \<Rightarrow>
             io_catch (io_bind (normalizeAssets env contractFilepath assets) (\<lambda>as.
                         io_return (obj_set ''assets'' (JObj as) contract)))
               (\<lambda>_. io_return contract)
         | _ \<Rightarrow> io_return contract)"

text \<open>
  \<^verbatim>\<open>new RegExp(`/contracts/(${type}/[^/]+)/`)\<close>, where the type is taken literally: the first position at which it
  matches, and the group.
\<close>

definition slug_at :: "string \<Rightarrow> string \<Rightarrow> string option" where
  "slug_at type file =
     (let p = ''/contracts/'' @ type @ ''/''; name = takeWhile (\<lambda>c. c \<noteq> CHR ''/'') (drop (length p) file)
      in if js_startsWith file p \<and> name \<noteq> [] \<and> length name < length (drop (length p) file)
         then Some (type @ ''/'' @ name) else None)"

fun slug_in_path :: "string \<Rightarrow> string \<Rightarrow> string option" where
  "slug_in_path type [] = None"
| "slug_in_path type (c # cs) = (case slug_at type (c # cs) of Some s \<Rightarrow> Some s | None \<Rightarrow> slug_in_path type cs)"

definition allowed_file :: "'w files_env \<Rightarrow> string \<Rightarrow> string \<Rightarrow> bool" where
  "allowed_file env type file =
     (case slug_in_path type file of None \<Rightarrow> False | Some deviceTypeSlug \<Rightarrow> deviceTypeSlug \<in> set (cf_allowlist env))"

text \<open>\<^verbatim>\<open>_.uniqBy(contracts, 'slug')\<close>: the first contract of each slug.\<close>

fun uniq_by_slug :: "json option list \<Rightarrow> json obj list \<Rightarrow> json obj list" where
  "uniq_by_slug seen [] = []"
| "uniq_by_slug seen (c # cs) =
     (if map_of c ''slug'' \<in> set seen then uniq_by_slug seen cs
      else c # uniq_by_slug (map_of c ''slug'' # seen) cs)"

definition read_contract :: "'w files_env \<Rightarrow> string \<Rightarrow> ('w, json obj) io" where
  "read_contract env file = io_bind (cf_read env file) (normalizeContract env file)"

definition allowlisted :: "'w files_env \<Rightarrow> string \<Rightarrow> string list \<Rightarrow> string list" where
  "allowlisted env type contractFiles =
     (if length (cf_allowlist env) > 0 then filter (allowed_file env type) contractFiles else contractFiles)"

definition contracts_of_files :: "'w files_env \<Rightarrow> string list \<Rightarrow> ('w, json obj list) io" where
  "contracts_of_files env contractFiles =
     io_bind (io_mapM (read_contract env) contractFiles) (\<lambda>contracts. io_return (uniq_by_slug [] contracts))"

definition getContracts :: "'w files_env \<Rightarrow> string \<Rightarrow> ('w, json obj list) io" where
  "getContracts env type =
     (if type = [] then io_return []
      else io_bind (cf_glob_all env) (\<lambda>contractDirs.
        if contractDirs = [] then io_return []
        else io_bind (cf_glob_type env type) (\<lambda>contractFiles.
          if contractFiles = [] then io_return []
          else contracts_of_files env (allowlisted env type contractFiles))))"

section \<open>Which contracts are answered\<close>

lemma uniq_by_slug_set: "c \<in> set (uniq_by_slug seen cs) \<Longrightarrow> c \<in> set cs \<and> map_of c ''slug'' \<notin> set seen"
  by (induction seen cs rule: uniq_by_slug.induct) (auto split: if_splits)

lemma uniq_by_slug_distinct: "distinct (map (\<lambda>c. map_of c ''slug'') (uniq_by_slug seen cs))"
  by (induction seen cs rule: uniq_by_slug.induct) (auto dest: uniq_by_slug_set)

definition slug_among_aliases :: "json obj \<Rightarrow> bool" where
  "slug_among_aliases c \<longleftrightarrow> not_nullish (map_of c ''aliases'') \<and>
     (\<forall>s as. map_of c ''slug'' = Some s \<longrightarrow> map_of c ''aliases'' = Some (JArr as) \<longrightarrow> s \<in> set as)"

lemma with_aliases_slug: "slug_among_aliases (with_aliases c)" "map_of (with_aliases c) ''slug'' = map_of c ''slug''"
  by (auto simp: slug_among_aliases_def with_aliases_def not_nullish_def Let_def split: option.splits json.splits)

lemma normalizeContract_slug:
  assumes "normalizeContract env file c w = (Inr d, w')"
  shows "slug_among_aliases d \<and> map_of d ''slug'' = map_of c ''slug''"
proof -
  have "d = with_aliases c \<or> (\<exists>as. d = obj_set ''assets'' as (with_aliases c))"
    using assms by (auto simp: normalizeContract_def Let_def io_catch_def io_bind_def io_return_def
        split: option.splits json.splits sum.splits prod.splits)
  then show ?thesis using with_aliases_slug [of c] by (auto simp: slug_among_aliases_def)
qed

lemma io_mapM_each: "io_mapM f xs w = (Inr ys, w') \<Longrightarrow> y \<in> set ys \<Longrightarrow> \<exists>x \<in> set xs. \<exists>v v'. f x v = (Inr y, v')"
proof (induction xs arbitrary: w ys)
  case (Cons x xs)
  then obtain y1 w1 ys1 where "f x w = (Inr y1, w1)" "io_mapM f xs w1 = (Inr ys1, w')" "ys = y1 # ys1"
    by (auto simp: io_bind_Inr_iff io_return_Inr_iff)
  with Cons show ?case by auto
qed (simp add: io_return_def)

text \<open>
  The contracts of a type have different slugs, each is among its own aliases, and with an allow list each comes from
  a file the list names.
\<close>

lemma getContracts_result:
  assumes "getContracts env type w = (Inr cs, w')"
  shows "distinct (map (\<lambda>c. map_of c ''slug'') cs)"
    and "c \<in> set cs \<Longrightarrow> slug_among_aliases c"
    and "c \<in> set cs \<Longrightarrow> cf_allowlist env \<noteq> [] \<Longrightarrow> \<exists>file v v'. allowed_file env type file \<and> read_contract env file v = (Inr c, v')"
proof -
  consider "cs = []" | files v where "contracts_of_files env (allowlisted env type files) v = (Inr cs, w')"
    using assms unfolding getContracts_def by (fastforce simp: io_bind_Inr_iff io_return_Inr_iff split: if_split_asm)
  note cases = this
  have read: "\<exists>file \<in> set (allowlisted env type files). \<exists>u u'. read_contract env file u = (Inr c, u')"
    if "contracts_of_files env (allowlisted env type files) v = (Inr cs, w')" "c \<in> set cs" for files v
  proof -
    obtain all where all: "io_mapM (read_contract env) (allowlisted env type files) v = (Inr all, w')" "cs = uniq_by_slug [] all"
      using \<open>contracts_of_files env (allowlisted env type files) v = (Inr cs, w')\<close>
      by (auto simp: contracts_of_files_def io_bind_Inr_iff io_return_Inr_iff)
    have "c \<in> set all" using \<open>c \<in> set cs\<close> uniq_by_slug_set unfolding all(2) by auto
    from io_mapM_each [OF all(1) this] show ?thesis .
  qed
  show "distinct (map (\<lambda>c. map_of c ''slug'') cs)"
    by (rule cases) (auto simp: contracts_of_files_def io_bind_Inr_iff io_return_Inr_iff uniq_by_slug_distinct)
  show "slug_among_aliases c" if "c \<in> set cs"
    by (rule cases) (use that read normalizeContract_slug in \<open>fastforce simp: read_contract_def io_bind_Inr_iff\<close>)+
  show "\<exists>file v v'. allowed_file env type file \<and> read_contract env file v = (Inr c, v')"
    if "c \<in> set cs" "cf_allowlist env \<noteq> []"
  proof (rule cases)
    fix files v assume "contracts_of_files env (allowlisted env type files) v = (Inr cs, w')"
    from read [OF this that(1)] that(2) show ?thesis by (auto simp: allowlisted_def)
  qed (use that in simp)
qed

text \<open>
  A local asset is encoded only when its real path begins with the folder of the contract.  The test has no separator
  at its end, so a sibling folder whose name begins with the folder's passes.
\<close>

lemma local_asset_in_folder:
  assumes "local_asset env file asset w = (Inr (Some a), w')"
  shows "\<exists>p v. cf_realpath env (path_dirname file) (map_of asset ''url'') w = (Inr p, v) \<and> js_startsWith p (path_dirname file)"
  using assms by (auto simp: local_asset_def io_bind_Inr_iff io_return_Inr_iff split: if_split_asm)

lemma sibling_folder_passes:
  "path_dirname ''/contracts/pi/contract.json'' = ''/contracts/pi'' \<and>
   js_startsWith ''/contracts/pi-private/logo.svg'' ''/contracts/pi''"
  by code_simp

end
