(* ===== verification/Contracts.thy ===== *)
theory Contracts
  imports ContractFiles
begin

text \<open>
  The synchronization of contracts to rows of the database (\<^verbatim>\<open>src/features/contracts/index.ts\<close>, with the settings of
  \<^verbatim>\<open>init.ts\<close>): mapping a contract to the fields of a resource, storing it under its unique key, and storing what it
  lists inline in a resource that refers back to it.

  The entries are synchronized one after the other; the program runs up to ten at a time, each on a row of its own.
\<close>

section \<open>Settings\<close>

record field_map =
  fm_contractField :: string
  fm_default :: "json option"
  fm_refersTo :: "(string \<times> string) option"
  fm_isReferencedBy :: "(string \<times> string) option"

record sync_setting =
  st_resource :: string
  st_uniqueKey :: string
  st_includeRawContract :: bool
  st_map :: "field_map obj"

definition plain_field :: "string \<Rightarrow> field_map" where
  "plain_field f = \<lparr>fm_contractField = f, fm_default = None, fm_refersTo = None, fm_isReferencedBy = None\<rparr>"

definition reference_field :: "string \<Rightarrow> string \<Rightarrow> field_map" where
  "reference_field f resource =
     \<lparr>fm_contractField = f, fm_default = None, fm_refersTo = Some (resource, ''slug''), fm_isReferencedBy = None\<rparr>"

definition SYNC_SETTINGS :: "sync_setting obj" where
  "SYNC_SETTINGS =
     [(''hw.device-type'',
       \<lparr>st_resource = ''device_type'', st_uniqueKey = ''slug'', st_includeRawContract = True, st_map =
         [(''slug'', plain_field ''slug''),
          (''name'', plain_field ''name''),
          (''logo'', plain_field ''assets.logo.url''),
          (''is_of__cpu_architecture'', reference_field ''data.arch'' ''cpu_architecture''),
          (''device_type_alias'',
           \<lparr>fm_contractField = ''aliases'', fm_default = None, fm_refersTo = None,
            fm_isReferencedBy = Some (''device_type_alias'', ''is_referenced_by__alias'')\<rparr>),
          (''belongs_to__device_family'', reference_field ''data.family'' ''device_family'')]\<rparr>),
      (''hw.device-family'',
       \<lparr>st_resource = ''device_family'', st_uniqueKey = ''slug'', st_includeRawContract = False, st_map =
         [(''slug'', plain_field ''slug''),
          (''name'', plain_field ''name''),
          (''is_manufactured_by__device_manufacturer'', reference_field ''data.manufacturedBy'' ''device_manufacturer'')]\<rparr>),
      (''hw.device-manufacturer'',
       \<lparr>st_resource = ''device_manufacturer'', st_uniqueKey = ''slug'', st_includeRawContract = False, st_map =
         [(''slug'', plain_field ''slug''), (''name'', plain_field ''name'')]\<rparr>),
      (''arch.sw'',
       \<lparr>st_resource = ''cpu_architecture'', st_uniqueKey = ''slug'', st_includeRawContract = False, st_map =
         [(''slug'', plain_field ''slug'')]\<rparr>)]"

section \<open>Mapping\<close>

text \<open>
  \<open>ct_get\<close> is \<^verbatim>\<open>_.get\<close>, \<open>ct_find resource key value\<close> reads the id of a row by its key, \<open>ct_existing\<close> the rows of a resource
  with their unique keys and, by property, the rows that refer back.  \<open>ct_patch resource id body except\<close> changes a row
  unless it matches \<open>except\<close>, \<open>ct_post\<close> creates one and \<open>ct_patch_natural\<close> changes a row given by its natural key.
  A text that \<open>ct_stringify\<close> makes is a contract as the database stores it.
\<close>

record existing_entry =
  ee_id :: int
  ee_key :: "json option"
  ee_props :: "json obj list obj"

record 'w contracts_env =
  ct_get :: "json obj \<Rightarrow> string \<Rightarrow> json option"
  ct_find :: "string \<Rightarrow> string \<Rightarrow> json \<Rightarrow> ('w, int option) io"
  ct_existing :: "string \<Rightarrow> string \<Rightarrow> (string \<times> string) list \<Rightarrow> ('w, existing_entry list) io"
  ct_patch :: "string \<Rightarrow> int \<Rightarrow> json obj \<Rightarrow> json obj \<Rightarrow> ('w, unit) io"
  ct_post :: "string \<Rightarrow> json obj \<Rightarrow> ('w, int) io"
  ct_patch_natural :: "string \<Rightarrow> json obj \<Rightarrow> json obj \<Rightarrow> json obj \<Rightarrow> ('w, unit) io"
  ct_stringify :: "json \<Rightarrow> string"

definition nullish_or :: "json option \<Rightarrow> json option \<Rightarrow> json option" where
  "nullish_or a b = (if not_nullish a then a else b)"

definition or_null :: "json option \<Rightarrow> json" where
  "or_null a = (if not_nullish a then the a else JNull)"

definition id_or_null :: "int option \<Rightarrow> json" where
  "id_or_null entry = (case entry of None \<Rightarrow> JNull | Some i \<Rightarrow> JNum i)"

text \<open>The value of one field, none where the row it refers to could not be read.\<close>

definition map_field :: "'w contracts_env \<Rightarrow> json obj \<Rightarrow> field_map \<Rightarrow> ('w, json option) io" where
  "map_field env contractEntry mapper =
     (let contractValue = nullish_or (ct_get env contractEntry (fm_contractField mapper)) (fm_default mapper)
      in case fm_refersTo mapper of
           Some (resource, key) \<Rightarrow>
             (if not_nullish contractValue
              then io_catch (io_bind (ct_find env resource key (the contractValue)) (\<lambda>entry. io_return (Some (id_or_null entry))))
                     (\<lambda>_. io_return None)
              else io_return (Some (or_null contractValue)))
         | None \<Rightarrow> io_return (Some (or_null contractValue)))"

fun map_fields :: "'w contracts_env \<Rightarrow> json obj \<Rightarrow> field_map obj \<Rightarrow> json obj \<Rightarrow> ('w, json obj) io" where
  "map_fields env contractEntry [] mappedModel = io_return mappedModel"
| "map_fields env contractEntry ((key, mapper) # rest) mappedModel =
     io_bind (map_field env contractEntry mapper) (\<lambda>v.
       map_fields env contractEntry rest (case v of None \<Rightarrow> mappedModel | Some x \<Rightarrow> obj_set key x mappedModel))"

definition mapModel :: "'w contracts_env \<Rightarrow> sync_setting \<Rightarrow> json obj \<Rightarrow> ('w, json obj) io" where
  "mapModel env setting contractEntry =
     map_fields env contractEntry (st_map setting)
       (if st_includeRawContract setting then [(''contract'', JObj contractEntry)] else [])"

definition getReversePropMapEntries :: "field_map obj \<Rightarrow> (string \<times> string \<times> string) list" where
  "getReversePropMapEntries m =
     List.map_filter (\<lambda>(key, mapper). map_option (\<lambda>r. (key, r)) (fm_isReferencedBy mapper)) m"

section \<open>Storing an entry\<close>

definition is_reverse_field :: "field_map obj \<Rightarrow> string \<Rightarrow> bool" where
  "is_reverse_field m key \<longleftrightarrow> (case map_of m key of None \<Rightarrow> False | Some f \<Rightarrow> fm_isReferencedBy f \<noteq> None)"

definition entry_fields :: "field_map obj \<Rightarrow> json obj \<Rightarrow> json obj" where
  "entry_fields m fullEntry = filter (\<lambda>(key, _). \<not> is_reverse_field m key) fullEntry"

definition entry_query :: "'w contracts_env \<Rightarrow> json obj \<Rightarrow> json obj" where
  "entry_query env entryFieldData =
     (if not_nullish (map_of entryFieldData ''contract'')
      then obj_set ''contract'' (JStr (ct_stringify env (the (map_of entryFieldData ''contract'')))) entryFieldData
      else entryFieldData)"

text \<open>\<^verbatim>\<open>_.omit(value, key)\<close>; an array is taken with its indices as keys.\<close>

definition omit_key :: "json \<Rightarrow> string \<Rightarrow> json obj" where
  "omit_key v key =
     filter (\<lambda>(k, _). k \<noteq> key)
       (case v of JObj fs \<Rightarrow> fs | JArr xs \<Rightarrow> zip (map show_nat [0..<length xs]) xs | _ \<Rightarrow> [])"

definition is_object :: "json \<Rightarrow> bool" where
  "is_object v \<longleftrightarrow> (case v of JObj _ \<Rightarrow> True | JArr _ \<Rightarrow> True | _ \<Rightarrow> False)"

text \<open>The properties beside the natural key, and the value of the key.\<close>

definition extra_properties :: "json \<Rightarrow> string \<Rightarrow> json obj option" where
  "extra_properties v part = (if is_object v then Some (omit_key v part) else None)"

definition target_value :: "json \<Rightarrow> string \<Rightarrow> json option" where
  "target_value v part = (if is_object v then map_of (omit_key v part) part else Some v)"

definition natural_key :: "string \<Rightarrow> int \<Rightarrow> string \<Rightarrow> json option \<Rightarrow> json obj" where
  "natural_key resource i part target =
     obj_merge [(resource, JNum i)] (case target of None \<Rightarrow> [] | Some t \<Rightarrow> [(part, t)])"

definition upsert_associated ::
  "'w contracts_env \<Rightarrow> string \<Rightarrow> int \<Rightarrow> string \<Rightarrow> string \<Rightarrow> json option list option \<Rightarrow> json \<Rightarrow> ('w, unit) io"
where
  "upsert_associated env resource i referencing part existingUniqueValues v =
     (let extra = extra_properties v part; target = target_value v part; key = natural_key resource i part target
      in if \<not> (case existingUniqueValues of None \<Rightarrow> False | Some xs \<Rightarrow> target \<in> set xs)
         then io_bind (ct_post env referencing (obj_merge (case extra of None \<Rightarrow> [] | Some e \<Rightarrow> e) key)) (\<lambda>_. io_return ())
         else (case extra of
                 None \<Rightarrow> io_return ()
               | Some e \<Rightarrow> (if length e > 0 then ct_patch_natural env referencing key e e else io_return ())))"

text \<open>What a \<^verbatim>\<open>for ... of\<close> goes through; anything but an array or a text is not iterable.\<close>

definition iterable :: "json option \<Rightarrow> json list res" where
  "iterable v = (case v of Some (JArr xs) \<Rightarrow> Inr xs | Some (JStr s) \<Rightarrow> Inr (map (\<lambda>c. JStr [c]) s) | _ \<Rightarrow> Inl JsTypeError)"

definition upsert_reverse ::
  "'w contracts_env \<Rightarrow> sync_setting \<Rightarrow> json obj \<Rightarrow> int \<Rightarrow> json obj list obj \<Rightarrow> string \<times> string \<times> string \<Rightarrow> ('w, unit) io"
where
  "upsert_reverse env setting fullEntry i props entry =
     (case entry of (propKey, referencing, part) \<Rightarrow>
        io_bind (io_lift (iterable (map_of fullEntry propKey))) (\<lambda>associatedValues.
        io_bind (io_mapM
            (upsert_associated env (st_resource setting) i referencing part
              (map_option (map (\<lambda>e. map_of e part)) (map_of props propKey)))
            associatedValues) (\<lambda>_. io_return ())))"

definition store_fields ::
  "'w contracts_env \<Rightarrow> sync_setting \<Rightarrow> (json option \<Rightarrow> existing_entry option) \<Rightarrow> json obj \<Rightarrow> ('w, int \<times> json obj list obj) io"
where
  "store_fields env setting existingData entryFieldData =
     (case existingData (map_of entryFieldData (st_uniqueKey setting)) of
        Some e \<Rightarrow>
          io_bind (ct_patch env (st_resource setting) (ee_id e) entryFieldData (entry_query env entryFieldData)) (\<lambda>_.
            io_return (ee_id e, ee_props e))
      | None \<Rightarrow> io_bind (ct_post env (st_resource setting) entryFieldData) (\<lambda>i. io_return (i, [])))"

definition upsert_steps ::
  "'w contracts_env \<Rightarrow> sync_setting \<Rightarrow> (json option \<Rightarrow> existing_entry option) \<Rightarrow> json obj \<Rightarrow> ('w, unit) io"
where
  "upsert_steps env setting existingData fullEntry =
     io_bind (store_fields env setting existingData (entry_fields (st_map setting) fullEntry)) (\<lambda>(i, props).
     io_bind (io_mapM (upsert_reverse env setting fullEntry i props) (getReversePropMapEntries (st_map setting)))
       (\<lambda>_. io_return ()))"

definition upsert_entry ::
  "'w contracts_env \<Rightarrow> sync_setting \<Rightarrow> (json option \<Rightarrow> existing_entry option) \<Rightarrow> json obj \<Rightarrow> ('w, unit) io"
where
  "upsert_entry env setting existingData fullEntry =
     io_catch (upsert_steps env setting existingData fullEntry) (\<lambda>_. io_return ())"

definition upsertEntries ::
  "'w contracts_env \<Rightarrow> sync_setting \<Rightarrow> (json option \<Rightarrow> existing_entry option) \<Rightarrow> json obj list \<Rightarrow> ('w, unit) io"
where
  "upsertEntries env setting existingData newData =
     io_bind (io_mapM (upsert_entry env setting existingData) newData) (\<lambda>_. io_return ())"

section \<open>Synchronization\<close>

text \<open>\<^verbatim>\<open>new Map(entries.map((e) => [e[uniqueKey], e]))\<close>: the last entry of a key stands.\<close>

definition existing_data :: "existing_entry list \<Rightarrow> json option \<Rightarrow> existing_entry option" where
  "existing_data entries = map_of (rev (map (\<lambda>e. (ee_key e, e)) entries))"

definition syncContractsToDb ::
  "'w contracts_env \<Rightarrow> sync_setting obj option \<Rightarrow> string \<Rightarrow> json obj list \<Rightarrow> ('w, unit) io"
where
  "syncContractsToDb env syncSettings type contracts =
     (case Option.bind syncSettings (\<lambda>s. map_of s type) of
        None \<Rightarrow> io_throw (JsError (''Contract does not have a corresponding mapping: '' @ type))
      | Some setting \<Rightarrow>
          io_bind (io_mapM (mapModel env setting) contracts) (\<lambda>mappedModel.
          io_bind (ct_existing env (st_resource setting) (st_uniqueKey setting)
              (map (\<lambda>(key, _, part). (key, part)) (getReversePropMapEntries (st_map setting)))) (\<lambda>existingEntries.
            upsertEntries env setting (existing_data existingEntries) mappedModel)))"

definition CONTRACT_TYPES :: "string list" where
  "CONTRACT_TYPES = [''arch.sw'', ''hw.device-manufacturer'', ''hw.device-family'', ''hw.device-type'']"

definition sync_type ::
  "'w files_env \<Rightarrow> 'w contracts_env \<Rightarrow> sync_setting obj option \<Rightarrow> string \<Rightarrow> ('w, unit) io"
where
  "sync_type files env syncSettings contractType =
     io_catch (io_bind (getContracts files contractType) (syncContractsToDb env syncSettings contractType))
       (\<lambda>_. io_return ())"

definition synchronizeContracts ::
  "'w files_env \<Rightarrow> 'w contracts_env \<Rightarrow> sync_setting obj option \<Rightarrow> repository_info list \<Rightarrow> ('w, unit) io"
where
  "synchronizeContracts files env syncSettings contractRepos =
     io_bind (io_catch (fetchContractsLocally files contractRepos) (\<lambda>_. io_return ())) (\<lambda>_.
     io_bind (io_mapM (sync_type files env syncSettings) CONTRACT_TYPES) (\<lambda>_. io_return ()))"

section \<open>What is stored\<close>

text \<open>
  The natural key of a value that is an object is read from the value without that key, so it is never found: a value
  that is an object is posted without its natural key and never matches an existing row.
\<close>

lemma object_value_loses_key: "is_object v \<Longrightarrow> target_value v part = None"
proof -
  have "part \<notin> fst ` set (omit_key v part)" by (auto simp: omit_key_def split: json.splits)
  then show "is_object v \<Longrightarrow> target_value v part = None"
    by (simp add: target_value_def map_of_eq_None_iff)
qed

text \<open>The entry of a contract, and its fields of the resource itself.\<close>

definition mapped :: "'w contracts_env \<Rightarrow> sync_setting \<Rightarrow> 'w \<Rightarrow> json obj \<Rightarrow> json obj" where
  "mapped env setting w contract = (case fst (mapModel env setting contract w) of Inr m \<Rightarrow> m | Inl _ \<Rightarrow> [])"

type_synonym db_rows = "int \<Rightarrow> (string \<Rightarrow> json option) option"

definition unique_rows :: "string \<Rightarrow> db_rows \<Rightarrow> bool" where
  "unique_rows key db \<longleftrightarrow> (\<forall>i j r s. db i = Some r \<longrightarrow> db j = Some s \<longrightarrow> r key = s key \<longrightarrow> i = j)"

definition key_free :: "string \<Rightarrow> db_rows \<Rightarrow> json option \<Rightarrow> bool" where
  "key_free key db k \<longleftrightarrow> (\<forall>i row. db i = Some row \<longrightarrow> row key \<noteq> k)"

text \<open>A body is stored in one row: the one with its key, with its other fields as they were, or a new one if there is none.\<close>

definition stored_at :: "string \<Rightarrow> db_rows \<Rightarrow> db_rows \<Rightarrow> json obj \<Rightarrow> int \<Rightarrow> bool" where
  "stored_at key db db' body i \<longleftrightarrow>
     (case db i of
        None \<Rightarrow> key_free key db (map_of body key) \<and> db' = db(i \<mapsto> map_of body)
      | Some row \<Rightarrow> row key = map_of body key \<and> db' = db(i \<mapsto> row ++ map_of body))"

text \<open>
  What storing some bodies does: each body is in a row, rows of other keys are as they were, no row goes,
  new rows are those of bodies, and keys stay unique.
\<close>

definition stored_bodies :: "string \<Rightarrow> db_rows \<Rightarrow> db_rows \<Rightarrow> json obj list \<Rightarrow> bool" where
  "stored_bodies key db db' bs \<longleftrightarrow>
     (\<forall>b \<in> set bs. \<exists>i row. db' i = Some row \<and> map_of b \<subseteq>\<^sub>m row) \<and>
     (\<forall>i row. db i = Some row \<longrightarrow> (\<forall>b \<in> set bs. map_of b key \<noteq> row key) \<longrightarrow> db' i = Some row) \<and>
     (\<forall>i. db' i = None \<longrightarrow> db i = None) \<and>
     (\<forall>i row. db i = None \<longrightarrow> db' i = Some row \<longrightarrow> (\<exists>b \<in> set bs. row = map_of b)) \<and>
     (unique_rows key db \<longrightarrow> unique_rows key db')"

lemma stored_bodies_Nil [simp]: "stored_bodies key db db []"
  by (simp add: stored_bodies_def)

lemma stored_at_row:
  assumes "stored_at key db db' b i" and "map_of b key \<noteq> None"
  shows "\<exists>row. db' = db(i \<mapsto> row) \<and> map_of b \<subseteq>\<^sub>m row \<and> row key = map_of b key \<and> (db i = None \<longrightarrow> row = map_of b)"
  using assms by (auto simp: stored_at_def map_le_def map_add_def split: option.splits)

lemma stored_at_key: "stored_at key db db' b i \<Longrightarrow> db i = Some row \<Longrightarrow> row key = map_of b key"
  by (simp add: stored_at_def)

lemma stored_at_unique:
  assumes "stored_at key db db' b i" and "map_of b key \<noteq> None" and "unique_rows key db"
  shows "unique_rows key db'"
proof -
  obtain row where row: "db' = db(i \<mapsto> row)" "row key = map_of b key"
    using stored_at_row [OF assms(1,2)] by (elim exE conjE) (rule that)
  have other: "j = i" if "db j = Some s" "s key = map_of b key" for j s
  proof (cases "db i")
    case None
    with assms(1) that show ?thesis by (auto simp: stored_at_def key_free_def)
  next
    case (Some r)
    with stored_at_key [OF assms(1) this] that assms(3) show ?thesis by (simp add: unique_rows_def)
  qed
  show ?thesis
    unfolding unique_rows_def
  proof (intro allI impI)
    fix j k r s assume jk: "db' j = Some r" "db' k = Some s" "r key = s key"
    show "j = k"
    proof (cases "j = i \<or> k = i")
      case True
      with jk row other show ?thesis by (auto split: if_splits)
    next
      case False
      with jk row(1) have "db j = Some r" "db k = Some s" by auto
      with assms(3) jk(3) show ?thesis unfolding unique_rows_def by blast
    qed
  qed
qed

lemma stored_bodies_Cons:
  assumes at: "stored_at key d0 d1 b i" and rest: "stored_bodies key d1 d2 bs"
    and new: "\<forall>c \<in> set bs. map_of c key \<noteq> map_of b key" and some: "map_of b key \<noteq> None"
  shows "stored_bodies key d0 d2 (b # bs)"
proof -
  obtain row where row: "d1 = d0(i \<mapsto> row)" "map_of b \<subseteq>\<^sub>m row" "row key = map_of b key" "d0 i = None \<longrightarrow> row = map_of b"
    using stored_at_row [OF at some] by (elim exE conjE) (rule that)
  have r: "\<forall>b \<in> set bs. \<exists>i row. d2 i = Some row \<and> map_of b \<subseteq>\<^sub>m row"
    "\<And>i row. d1 i = Some row \<Longrightarrow> \<forall>b \<in> set bs. map_of b key \<noteq> row key \<Longrightarrow> d2 i = Some row"
    "\<And>i. d2 i = None \<Longrightarrow> d1 i = None" "\<And>i row. d1 i = None \<Longrightarrow> d2 i = Some row \<Longrightarrow> \<exists>b \<in> set bs. row = map_of b"
    "unique_rows key d1 \<Longrightarrow> unique_rows key d2"
    using rest unfolding stored_bodies_def by blast+
  have kept: "d2 i = Some row"
    by (rule r(2)) (use new row(3) in \<open>auto simp: row(1)\<close>)
  show ?thesis
    unfolding stored_bodies_def
  proof (intro conjI)
    show "\<forall>c \<in> set (b # bs). \<exists>i row. d2 i = Some row \<and> map_of c \<subseteq>\<^sub>m row"
      using r(1) kept row(2) by auto
    show "\<forall>j s. d0 j = Some s \<longrightarrow> (\<forall>c \<in> set (b # bs). map_of c key \<noteq> s key) \<longrightarrow> d2 j = Some s"
    proof (intro allI impI)
      fix j s assume j: "d0 j = Some s" and c: "\<forall>c \<in> set (b # bs). map_of c key \<noteq> s key"
      then have "j \<noteq> i" using stored_at_key [OF at, of s] by auto
      with j have "d1 j = Some s" by (simp add: row(1))
      then show "d2 j = Some s" by (rule r(2)) (use c in simp)
    qed
    show "\<forall>j. d2 j = None \<longrightarrow> d0 j = None"
    proof (intro allI impI)
      fix j assume "d2 j = None"
      from r(3) [OF this] show "d0 j = None" by (auto simp: row(1) split: if_splits)
    qed
    show "\<forall>j s. d0 j = None \<longrightarrow> d2 j = Some s \<longrightarrow> (\<exists>c \<in> set (b # bs). s = map_of c)"
    proof (intro allI impI)
      fix j s assume j: "d0 j = None" "d2 j = Some s"
      show "\<exists>c \<in> set (b # bs). s = map_of c"
      proof (cases "j = i")
        case True
        with j kept row(4) show ?thesis by auto
      next
        case False
        with j(1) have "d1 j = None" by (simp add: row(1))
        from r(4) [OF this j(2)] show ?thesis by auto
      qed
    qed
    show "unique_rows key d0 \<longrightarrow> unique_rows key d2" using stored_at_unique [OF at some] r(5) by blast
  qed
qed

text \<open>
  The database: \<open>db\<close> are the rows of the resource with a unique key, \<open>accepts\<close> the bodies it takes.  A body that is not
  accepted fails and changes nothing; other resources leave the rows alone.
\<close>

locale contract_rows =
  fixes env :: "'w contracts_env" and res key :: string and db :: "'w \<Rightarrow> db_rows" and accepts :: "json obj \<Rightarrow> bool"
  assumes find_law: "\<exists>r. ct_find env r1 k v w = (r, w)"
    and existing_law: "ct_existing env res key ps w = (r, w') \<Longrightarrow> w' = w \<and>
      (\<forall>es. r = Inr es \<longrightarrow>
        (\<forall>e \<in> set es. \<exists>row. db w (ee_id e) = Some row \<and> row key = ee_key e) \<and>
        (\<forall>i row. db w i = Some row \<longrightarrow> (\<exists>e \<in> set es. ee_id e = i)))"
    and patch_law: "db w i = Some row \<Longrightarrow> row key = map_of body key \<Longrightarrow> ct_patch env res i body q w = (u, w') \<Longrightarrow>
      (if accepts body then u = Inr () \<and> db w' = (db w)(i \<mapsto> row ++ map_of body) else u \<noteq> Inr () \<and> db w' = db w)"
    and post_law: "key_free key (db w) (map_of body key) \<Longrightarrow> ct_post env res body w = (p, w') \<Longrightarrow>
      (if accepts body then \<exists>i. p = Inr i \<and> db w i = None \<and> db w' = (db w)(i \<mapsto> map_of body)
       else (\<exists>e. p = Inl e) \<and> db w' = db w)"
    and other_post: "r1 \<noteq> res \<Longrightarrow> ct_post env r1 body w = (p, w') \<Longrightarrow> db w' = db w"
    and other_patch: "r1 \<noteq> res \<Longrightarrow> ct_patch_natural env r1 nk body q w = (u, w') \<Longrightarrow> db w' = db w"
begin

lemma map_field_reads: "\<exists>v. map_field env c m w = (Inr v, w)"
proof -
  have "\<exists>v. io_catch (io_bind (ct_find env r k x) (\<lambda>entry. io_return (Some (id_or_null entry)))) (\<lambda>_. io_return None) w = (Inr v, w)"
    for r k x
    using find_law [of r k x w] by (auto simp: io_catch_def io_bind_def io_return_def split: sum.splits)
  then show ?thesis
    unfolding map_field_def Let_def by (auto simp: io_return_def split: option.splits)
qed

lemma mapModel_reads: "mapModel env setting c w = (Inr (mapped env setting w c), w)"
proof -
  have "\<exists>m'. map_fields env c fs m w = (Inr m', w)" for fs m
  proof (induction fs arbitrary: m)
    case (Cons f fs)
    obtain v where "map_field env c (snd f) w = (Inr v, w)" using map_field_reads by blast
    with Cons.IH show ?case by (cases f) (auto simp: io_bind_def split: option.splits)
  qed (simp add: io_return_def)
  then obtain m where "mapModel env setting c w = (Inr m, w)" unfolding mapModel_def by blast
  then show ?thesis by (simp add: mapped_def)
qed

lemma mapModels_read: "io_mapM (mapModel env setting) cs w = (Inr (map (mapped env setting w) cs), w)"
  by (induction cs) (simp_all add: io_bind_def io_return_def mapModel_reads)

lemma keeps_associated:
  assumes "referencing \<noteq> res"
  shows "keeps db (upsert_associated env r i referencing part xs v)"
proof -
  have post: "keeps db (ct_post env referencing body)" for body
    unfolding keeps_def using other_post [OF assms] prod.collapse by metis
  have patch: "keeps db (ct_patch_natural env referencing nk body q)" for nk body q
    unfolding keeps_def using other_patch [OF assms] prod.collapse by metis
  show ?thesis
    unfolding upsert_associated_def Let_def using post patch by (auto intro!: keeps_bind split: option.split)
qed

lemma keeps_reverse:
  assumes "fst (snd entry) \<noteq> res"
  shows "keeps db (upsert_reverse env setting full i props entry)"
  using assms by (cases entry) (auto simp: upsert_reverse_def intro!: keeps_bind keeps_mapM keeps_associated)

lemma upsert_entry_stores:
  assumes setting: "st_resource setting = res" "st_uniqueKey setting = key"
    and reverse: "\<forall>e \<in> set (getReversePropMapEntries (st_map setting)). fst (snd e) \<noteq> res"
    and found: "case existing (map_of body key) of
        None \<Rightarrow> key_free key (db w) (map_of body key)
      | Some e \<Rightarrow> \<exists>row. db w (ee_id e) = Some row \<and> row key = map_of body key"
    and body: "body = entry_fields (st_map setting) m"
    and run: "upsert_entry env setting existing m w = (u, w')"
  shows "u = Inr () \<and>
    (if accepts body then \<exists>i. stored_at key (db w) (db w') body i else db w' = db w)"
proof -
  obtain p w1 where store: "store_fields env setting existing body w = (p, w1)" by (metis prod.collapse)
  have stored: "if accepts body then (\<exists>x. p = Inr x) \<and> (\<exists>i. stored_at key (db w) (db w1) body i)
     else (\<exists>x. p = Inl x) \<and> db w1 = db w"
  proof (cases "existing (map_of body key)")
    case None
    obtain q w2 where post: "ct_post env res body w = (q, w2)" by (metis prod.collapse)
    have "key_free key (db w) (map_of body key)" using found None by simp
    from post_law [OF this post] this
    have "if accepts body then \<exists>i. q = Inr i \<and> stored_at key (db w) (db w2) body i else (\<exists>e. q = Inl e) \<and> db w2 = db w"
      by (auto simp: stored_at_def split: if_splits)
    then show ?thesis
      using store None setting post
      by (cases q) (auto simp: store_fields_def io_bind_def io_return_def split: if_splits)
  next
    case (Some e)
    then obtain row where row: "db w (ee_id e) = Some row" "row key = map_of body key" using found by auto
    obtain q w2 where patch: "ct_patch env res (ee_id e) body (entry_query env body) w = (q, w2)" by (metis prod.collapse)
    from patch_law [OF row patch] row
    have "if accepts body then q = Inr () \<and> stored_at key (db w) (db w2) body (ee_id e) else q \<noteq> Inr () \<and> db w2 = db w"
      by (auto simp: stored_at_def split: if_splits)
    then show ?thesis
      using store Some setting patch
      by (cases q) (auto simp: store_fields_def io_bind_def io_return_def split: if_splits)
  qed
  have later: "keeps db (io_bind (io_mapM (upsert_reverse env setting m i props) (getReversePropMapEntries (st_map setting)))
      (\<lambda>_. io_return ()))" for i props
  proof -
    have "keeps db (io_mapM (upsert_reverse env setting m i props) es)" if "set es \<subseteq> set (getReversePropMapEntries (st_map setting))" for es
      using that reverse by (induction es) (auto intro!: keeps_bind keeps_reverse)
    then show ?thesis by (auto intro!: keeps_bind)
  qed
  obtain v w2 where steps: "upsert_steps env setting existing m w = (v, w2)" by (metis prod.collapse)
  have w': "w' = w2" "u = Inr ()"
    using run steps by (auto simp: upsert_entry_def io_catch_def io_return_def split: sum.splits)
  have "db w2 = db w1"
  proof (cases p)
    case (Inl e)
    then show ?thesis using steps store body by (simp add: upsert_steps_def io_bind_def)
  next
    case (Inr x)
    then show ?thesis
      using steps store body keepsD [OF later] by (cases x) (auto simp: upsert_steps_def io_bind_def [of "store_fields _ _ _ _"])
  qed
  with stored w' show ?thesis by (auto split: if_splits)
qed

text \<open>The entries that were read tell for each key whether there is a row.\<close>

definition tells :: "(json option \<Rightarrow> existing_entry option) \<Rightarrow> db_rows \<Rightarrow> json option \<Rightarrow> bool" where
  "tells existing rows k \<longleftrightarrow>
     (case existing k of None \<Rightarrow> key_free key rows k | Some e \<Rightarrow> \<exists>row. rows (ee_id e) = Some row \<and> row key = k)"

lemma existing_tells:
  assumes "ct_existing env res key ps w = (Inr es, w')"
  shows "tells (existing_data es) (db w) k"
proof -
  note law = existing_law [OF assms]
  show ?thesis
  proof (cases "existing_data es k")
    case None
    then have "\<forall>e \<in> set es. ee_key e \<noteq> k" by (auto simp: existing_data_def map_of_eq_None_iff image_image)
    with law have "key_free key (db w) k" unfolding key_free_def by (metis option.inject)
    with None show ?thesis by (simp add: tells_def)
  next
    case (Some e)
    then have "e \<in> set es \<and> ee_key e = k" by (auto simp: existing_data_def dest!: map_of_SomeD)
    with law Some show ?thesis by (auto simp: tells_def)
  qed
qed

lemma tells_after:
  assumes "tells existing rows k" and "stored_at key rows rows' b i" and "map_of b key \<noteq> None" and "map_of b key \<noteq> k"
  shows "tells existing rows' k"
proof -
  obtain row where row: "rows' = rows(i \<mapsto> row)" "row key = map_of b key"
    using stored_at_row [OF assms(2,3)] by (elim exE conjE) (rule that)
  show ?thesis
  proof (cases "existing k")
    case None
    then show ?thesis using assms(1,4) row by (auto simp: tells_def key_free_def)
  next
    case (Some e)
    then obtain s where s: "rows (ee_id e) = Some s" "s key = k" using assms(1) by (auto simp: tells_def)
    then have "ee_id e \<noteq> i" using stored_at_key [OF assms(2)] assms(4) by auto
    with s Some show ?thesis by (auto simp: tells_def row(1))
  qed
qed

lemma upserts_store:
  assumes setting: "st_resource setting = res" "st_uniqueKey setting = key"
    and reverse: "\<forall>e \<in> set (getReversePropMapEntries (st_map setting)). fst (snd e) \<noteq> res"
    and "\<forall>m \<in> set ms. tells existing (db w) (map_of (entry_fields (st_map setting) m) key)"
    and "distinct (map (\<lambda>m. map_of (entry_fields (st_map setting) m) key) ms)"
    and "\<forall>m \<in> set ms. map_of (entry_fields (st_map setting) m) key \<noteq> None"
    and "io_mapM (upsert_entry env setting existing) ms w = (u, w')"
  shows "(\<exists>us. u = Inr us) \<and> stored_bodies key (db w) (db w') (filter accepts (map (entry_fields (st_map setting)) ms))"
  using assms(4-)
proof (induction ms arbitrary: w u)
  case (Cons m ms)
  let ?b = "entry_fields (st_map setting) m"
  obtain v w1 where step: "upsert_entry env setting existing m w = (v, w1)" by (metis prod.collapse)
  have "tells existing (db w) (map_of ?b key)" using Cons.prems(1) by simp
  note entry = upsert_entry_stores [OF setting reverse this [unfolded tells_def] refl step]
  obtain us where rest: "io_mapM (upsert_entry env setting existing) ms w1 = (us, w')" "(\<exists>x. us = Inr x) \<longrightarrow> (\<exists>x. u = Inr x)"
    using Cons.prems(4) step entry by (auto simp: io_bind_def io_return_def split: prod.splits sum.splits)
  have tells: "\<forall>n \<in> set ms. tells existing (db w1) (map_of (entry_fields (st_map setting) n) key)"
  proof (cases "accepts ?b")
    case True
    then obtain i where "stored_at key (db w) (db w1) ?b i" using entry by auto
    moreover have "\<forall>n \<in> set ms. map_of ?b key \<noteq> map_of (entry_fields (st_map setting) n) key" using Cons.prems(2) by auto
    ultimately show ?thesis using tells_after Cons.prems(1,3) by auto
  next
    case False
    with entry Cons.prems(1) show ?thesis by simp
  qed
  have IH: "(\<exists>x. us = Inr x) \<and> stored_bodies key (db w1) (db w') (filter accepts (map (entry_fields (st_map setting)) ms))"
    using Cons.IH [OF tells _ _ rest(1)] Cons.prems(2,3) by simp
  show ?case
  proof (cases "accepts ?b")
    case True
    then obtain i where at: "stored_at key (db w) (db w1) ?b i" using entry by auto
    have "\<forall>c \<in> set (filter accepts (map (entry_fields (st_map setting)) ms)). map_of c key \<noteq> map_of ?b key" "map_of ?b key \<noteq> None"
      using Cons.prems(2,3) by (force simp: image_iff)+
    from stored_bodies_Cons [OF at conjunct2 [OF IH] this] IH rest(2) True show ?thesis by simp
  next
    case False
    with entry IH rest(2) show ?thesis by simp
  qed
qed (simp add: io_return_def)

lemma sync_stores:
  assumes setting: "st_resource setting = res" "st_uniqueKey setting = key"
    and reverse: "\<forall>e \<in> set (getReversePropMapEntries (st_map setting)). fst (snd e) \<noteq> res"
    and "map_of settings type = Some setting"
    and bodies: "bodies = map (\<lambda>c. entry_fields (st_map setting) (mapped env setting w c)) cs"
    and keys: "distinct (map (\<lambda>b. map_of b key) bodies)" "\<forall>b \<in> set bodies. map_of b key \<noteq> None"
    and run: "syncContractsToDb env (Some settings) type cs w = (Inr (), w')"
  shows "stored_bodies key (db w) (db w') (filter accepts bodies)"
proof -
  let ?ms = "map (mapped env setting w) cs"
  obtain es w1 us where read: "ct_existing env res key
      (map (\<lambda>(key, _, part). (key, part)) (getReversePropMapEntries (st_map setting))) w = (Inr es, w1)"
    and upsert: "io_mapM (upsert_entry env setting (existing_data es)) ?ms w1 = (us, w')"
    using run assms(4) setting
    by (auto simp: syncContractsToDb_def mapModels_read upsertEntries_def io_bind_Inr_iff io_return_Inr_iff)
  have w1: "w1 = w" using existing_law [OF read] by blast
  have "stored_bodies key (db w) (db w') (filter accepts (map (entry_fields (st_map setting)) ?ms))"
    by (rule conjunct2 [OF upserts_store [OF setting reverse _ _ _ upsert [unfolded w1]]])
      (use keys existing_tells [OF read] in \<open>auto simp: bodies comp_def\<close>)
  then show ?thesis by (simp add: bodies comp_def)
qed

end

text \<open>
  A database in memory of rows with their resource, identifier and fields.  It refuses device types without a name.
\<close>

type_synonym mem_table = "(string \<times> int \<times> json obj) list"

fun row_of :: "string \<Rightarrow> int \<Rightarrow> mem_table \<Rightarrow> json obj option" where
  "row_of r i [] = None"
| "row_of r i ((s, j, row) # rs) = (if s = r \<and> j = i then Some row else row_of r i rs)"

definition ids_of :: "string \<Rightarrow> mem_table \<Rightarrow> int list" where
  "ids_of r w = map (\<lambda>(_, i, _). i) (filter (\<lambda>(s, _, _). s = r) w)"

definition new_id :: "mem_table \<Rightarrow> int" where
  "new_id w = Max (insert 0 (set (map (\<lambda>(_, i, _). i) w))) + 1"

definition has_name :: "json obj \<Rightarrow> bool" where
  "has_name b \<longleftrightarrow> not_nullish (map_of b ''name'')"

definition get_path :: "json obj \<Rightarrow> string \<Rightarrow> json option" where
  "get_path c path =
     fold (\<lambda>k v. case v of Some (JObj fs) \<Rightarrow> map_of fs k | _ \<Rightarrow> None) (js_split CHR ''.'' path) (Some (JObj c))"

definition holds :: "json obj \<Rightarrow> json obj \<Rightarrow> bool" where
  "holds row q \<longleftrightarrow> list_all (\<lambda>(k, v). map_of row k = Some v) q"

definition mem_contracts_env :: "mem_table contracts_env" where
  "mem_contracts_env =
     \<lparr>ct_get = get_path,
      ct_find = (\<lambda>r k v w. (Inr (List.find (\<lambda>i. case row_of r i w of None \<Rightarrow> False | Some row \<Rightarrow> map_of row k = Some v) (ids_of r w)), w)),
      ct_existing = (\<lambda>r k ps w. (Inr (map (\<lambda>i. \<lparr>ee_id = i, ee_key = map_of (the (row_of r i w)) k,
        ee_props = map (\<lambda>(p, _). (p, map (\<lambda>(_, _, row). row) (filter (\<lambda>(s, _, row). s = p \<and> map_of row r = Some (JNum i)) w))) ps\<rparr>)
        (ids_of r w)), w)),
      ct_patch = (\<lambda>r i body q w.
        if r = ''device_type'' \<and> \<not> has_name body then (Inl (BadRequestError ''name''), w)
        else (Inr (), map (\<lambda>(s, j, row). (s, j, if s = r \<and> j = i then body @ row else row)) w)),
      ct_post = (\<lambda>r body w.
        if r = ''device_type'' \<and> \<not> has_name body then (Inl (BadRequestError ''name''), w)
        else (Inr (new_id w), w @ [(r, new_id w, body)])),
      ct_patch_natural = (\<lambda>r k body q w. (Inr (), map (\<lambda>(s, j, row). (s, j, if s = r \<and> holds row k then body @ row else row)) w)),
      ct_stringify = (\<lambda>_. [])\<rparr>"

lemma row_of_ids: "row_of r i w \<noteq> None \<longleftrightarrow> i \<in> set (ids_of r w)"
  by (induction r i w rule: row_of.induct) (auto simp: ids_of_def)

lemma new_id_fresh: "row_of r (new_id w) w = None"
proof (rule ccontr)
  assume "row_of r (new_id w) w \<noteq> None"
  then have "new_id w \<in> set (ids_of r w)" by (simp only: row_of_ids)
  then have "new_id w \<in> insert 0 (set (map (\<lambda>(_, i, _). i) w))" by (force simp: ids_of_def image_iff)
  then have "new_id w \<le> Max (insert 0 (set (map (\<lambda>(_, i, _). i) w)))" by (intro Max_ge) auto
  then show False by (simp add: new_id_def)
qed

lemma row_of_snoc: "row_of r i (w @ [(s, j, row)]) = (case row_of r i w of None \<Rightarrow> if s = r \<and> j = i then Some row else None | x \<Rightarrow> x)"
  by (induction r i w rule: row_of.induct) auto

lemma patched_row:
  "map_option map_of (row_of r k (map (\<lambda>(s, j, row). (s, j, if s = r \<and> j = i then body @ row else row)) w)) =
   (if k = i then map_option (\<lambda>row. map_of row ++ map_of body) (row_of r k w) else map_option map_of (row_of r k w))"
  by (induction r k w rule: row_of.induct) auto

lemma other_row:
  "r1 \<noteq> r \<Longrightarrow> row_of r k (map (\<lambda>(s, j, row). (s, j, if s = r1 \<and> Q row then g row else row)) w) = row_of r k w"
  by (induction r k w rule: row_of.induct) auto

interpretation mem_contracts: contract_rows mem_contracts_env "''device_type''" "''slug''"
  "\<lambda>w i. map_option map_of (row_of ''device_type'' i w)" has_name
proof (rule contract_rows.intro, goal_cases)
  case (2 ps w r w')
  let ?db = "\<lambda>i. map_option map_of (row_of ''device_type'' i w)"
  have "\<exists>row. ?db i = Some row \<and> row ''slug'' = map_of (the (row_of ''device_type'' i w)) ''slug''"
    if "i \<in> set (ids_of ''device_type'' w)" for i
    using that row_of_ids [of "''device_type''" i w] by auto
  moreover have "i \<in> set (ids_of ''device_type'' w)" if "?db i = Some row" for i row
    using that row_of_ids [of "''device_type''" i w] by auto
  ultimately show ?case using 2 by (auto simp: mem_contracts_env_def)
next
  case (3 w i row body q u w')
  then obtain z where z: "row_of ''device_type'' i w = Some z" "map_of z = row" by auto
  have "(\<lambda>k. map_option map_of (row_of ''device_type'' k
        (map (\<lambda>(s, j, row). (s, j, if s = ''device_type'' \<and> j = i then body @ row else row)) w))) =
      (\<lambda>k. map_option map_of (row_of ''device_type'' k w))(i \<mapsto> row ++ map_of body)"
    by (rule ext) (simp add: patched_row z)
  with 3(3) show ?case by (auto simp: mem_contracts_env_def split: if_splits)
next
  case (4 w body p w')
  then show ?case
    by (auto simp: mem_contracts_env_def fun_eq_iff row_of_snoc new_id_fresh split: if_splits option.splits)
next
  case (5 r1 body w p w')
  then show ?case by (auto simp: mem_contracts_env_def fun_eq_iff row_of_snoc split: option.splits)
next
  case (6 r1 nk body q w u w')
  then show ?case
    by (auto simp: mem_contracts_env_def fun_eq_iff other_row)
qed (simp add: mem_contracts_env_def)


definition sample_contracts :: "json obj list" where
  "sample_contracts =
     [[(''slug'', JStr ''pi''), (''name'', JStr ''Pi''), (''aliases'', JArr [JStr ''pi'', JStr ''rpi''])],
      [(''slug'', JStr ''nameless''), (''aliases'', JArr [])],
      [(''slug'', JStr ''nuc''), (''name'', JStr ''NUC''), (''data'', JObj [(''arch'', JStr ''amd64'')]), (''aliases'', JArr [JStr ''nuc''])]]"

definition sample_table :: mem_table where
  "sample_table =
     [(''device_type'', 1, [(''slug'', JStr ''pi''), (''name'', JStr ''Old'')]), (''device_type'', 2, [(''slug'', JStr ''other'')]),
      (''cpu_architecture'', 3, [(''slug'', JStr ''amd64'')])]"

definition sample_bodies :: "json obj list" where
  "sample_bodies =
     map (\<lambda>c. entry_fields (st_map (the (map_of SYNC_SETTINGS ''hw.device-type'')))
           (mapped mem_contracts_env (the (map_of SYNC_SETTINGS ''hw.device-type'')) sample_table c)) sample_contracts"


end
