(* ===== verification/DeviceProxy.thy ===== *)
theory DeviceProxy
  imports Applications Provisioning
begin

text \<open>
  Requests to devices over the VPN (\<^verbatim>\<open>src/features/device-proxy/device-proxy.ts\<close>): the endpoint that forwards a request
  to the supervisors of some devices, the selection of devices with its checks, and the answers.
\<close>

section \<open>Filters\<close>

text \<open>
  The filters the sources build for queries: a field equals a value, is one of some numbers, differs from a value, a
  row that is reached by a property matches, or all of some filters do.
\<close>

datatype flt = FEq string json | FIn string "int list" | FNe string json | FAny string flt | FAnd "flt list"

text \<open>What a filter says of a row: \<open>row_value\<close> are the fields of rows and \<open>row_reach\<close> the rows a property leads to.\<close>

type_synonym row_name = "string \<times> int"

record row_graph =
  row_value :: "row_name \<Rightarrow> string \<Rightarrow> json option"
  row_reach :: "row_name \<Rightarrow> string \<Rightarrow> row_name list"

fun matches :: "row_graph \<Rightarrow> row_name \<Rightarrow> flt \<Rightarrow> bool" where
  "matches g n (FEq f v) \<longleftrightarrow> row_value g n f = Some v"
| "matches g n (FIn f is) \<longleftrightarrow> list_ex (\<lambda>i. row_value g n f = Some (JNum i)) is"
| "matches g n (FNe f v) \<longleftrightarrow> row_value g n f \<noteq> Some v"
| "matches g n (FAny f p) \<longleftrightarrow> list_ex (\<lambda>m. matches g m p) (row_reach g n f)"
| "matches g n (FAnd ps) \<longleftrightarrow> list_all (matches g n) ps"

section \<open>Requests to devices\<close>

text \<open>
  A request is made with the permissions of the client or those of the platform itself.  \<open>px_ids\<close> are the devices a
  filter selects among those the caller may see, \<open>px_can_access\<close> asks for an action on a row and answers with the id
  of the row, \<open>px_devices\<close> reads what is needed to reach devices, for those whose service instance has an address, and
  \<open>px_request\<close> sends a request through a proxy.
\<close>

datatype caller = AsPlatform | AsClient

record managed_device =
  md_uuid :: string
  md_port :: "int option"
  md_secret :: string
  md_ip :: string

record proxy_response =
  pr_status :: nat
  pr_type :: "string option"
  pr_body :: "json option"

record device_request =
  rq_uri :: string
  rq_data :: "json option"
  rq_proxy :: string
  rq_verb :: string
  rq_timeout :: int

record 'w proxy_env =
  px_ids :: "caller \<Rightarrow> flt \<Rightarrow> ('w, int list) io"
  px_can_access :: "caller \<Rightarrow> string \<Rightarrow> int \<Rightarrow> string \<Rightarrow> ('w, int option) io"
  px_devices :: "int list \<Rightarrow> ('w, managed_device list) io"
  px_request :: "device_request \<Rightarrow> ('w, proxy_response) io"
  px_service_key :: string
  px_port :: int
  px_parse :: "string \<Rightarrow> json option"

definition DEVICE_REQUEST_TIMEOUT :: int where
  "DEVICE_REQUEST_TIMEOUT = 50000"

definition DELAY_BETWEEN_DEVICE_REQUEST :: nat where
  "DELAY_BETWEEN_DEVICE_REQUEST = 50"

definition checkResourceAccess :: "'w proxy_env \<Rightarrow> caller \<Rightarrow> string \<Rightarrow> int \<Rightarrow> ('w, unit) io" where
  "checkResourceAccess env req resource i =
     io_bind (px_can_access env req resource i ''supervisor-proxy-write'') (\<lambda>res.
       if res \<noteq> Some i then io_throw (ForbiddenError []) else io_return ())"

definition vpn_host :: "string \<Rightarrow> string" where
  "vpn_host vpnIp = (if CHR '':'' \<in> set vpnIp then ''['' @ vpnIp @ '']'' else vpnIp)"

definition device_url :: "managed_device \<Rightarrow> string \<Rightarrow> string" where
  "device_url d url =
     ''http://'' @ md_uuid d @ ''.balena:'' @ show_int (case md_port d of None \<Rightarrow> 80 | Some p \<Rightarrow> p) @ url @
     ''?apikey='' @ md_secret d"

definition device_request_of :: "'w proxy_env \<Rightarrow> string \<Rightarrow> json option \<Rightarrow> string \<Rightarrow> managed_device \<Rightarrow> device_request" where
  "device_request_of env url data verb d =
     \<lparr>rq_uri = device_url d url, rq_data = data,
      rq_proxy = ''http://resin_api:'' @ px_service_key env @ ''@'' @ vpn_host (md_ip d) @ '':'' @ show_int (px_port env),
      rq_verb = verb, rq_timeout = DEVICE_REQUEST_TIMEOUT\<rparr>"

text \<open>
  The requests are sent one after the other with a delay, whatever became of those before; the caller waits for all
  of them and sees the first error.
\<close>

fun send_all :: "('a \<Rightarrow> ('w, 'b) io) \<Rightarrow> 'a list \<Rightarrow> 'w \<Rightarrow> 'b res list \<times> 'w" where
  "send_all f [] w = ([], w)"
| "send_all f (x # xs) w =
     (case f x w of (r, w1) \<Rightarrow> (case send_all f xs w1 of (rs, w2) \<Rightarrow> (r # rs, w2)))"

definition may_reach :: "'w proxy_env \<Rightarrow> caller \<Rightarrow> string \<Rightarrow> int option \<Rightarrow> int list \<Rightarrow> ('w, unit) io" where
  "may_reach env req verb appId deviceIds =
     (if verb \<noteq> ''GET'' \<and> verb \<noteq> ''HEAD'' \<and> req \<noteq> AsPlatform
      then (case appId of
              Some a \<Rightarrow> checkResourceAccess env req ''application'' a
            | None \<Rightarrow> io_bind (io_mapM (checkResourceAccess env req ''device'') deviceIds) (\<lambda>_. io_return ()))
      else io_return ())"

definition online_filter :: "flt \<Rightarrow> flt" where
  "online_filter criteria =
     FAnd [FAnd [FEq ''is_connected_to_vpn'' (JBool True), FEq ''is_frozen'' (JBool False)], criteria]"

definition select_devices ::
  "'w proxy_env \<Rightarrow> caller \<Rightarrow> flt \<Rightarrow> bool \<Rightarrow> string \<Rightarrow> int option \<Rightarrow> ('w, managed_device list) io"
where
  "select_devices env req criteria wait verb appId =
     io_bind (px_ids env req (online_filter criteria)) (\<lambda>deviceIds.
       if deviceIds = []
       then (if \<not> wait then io_return [] else io_throw (NotFoundError ''No online device(s) found''))
       else io_bind (may_reach env req verb appId deviceIds) (\<lambda>_. px_devices env deviceIds))"

text \<open>Without waiting, errors of requests are ignored and there is no answer.\<close>

definition requestDevices ::
  "'w proxy_env \<Rightarrow> string option \<Rightarrow> flt \<Rightarrow> json option \<Rightarrow> caller \<Rightarrow> bool \<Rightarrow> string \<Rightarrow> int option \<Rightarrow>
   ('w, proxy_response list option) io"
where
  "requestDevices env url criteria data req wait verb appId =
     (case url of
        None \<Rightarrow> io_throw (BadRequestError ''You must specify a url to request!'')
      | Some u \<Rightarrow>
          io_bind (select_devices env req criteria wait verb appId) (\<lambda>devices w.
            case send_all (px_request env) (map (device_request_of env u data verb) devices) w of
              (rs, w1) \<Rightarrow>
                if \<not> wait then (Inr None, w1) else (res_bind (res_all (\<lambda>r. r) rs) (\<lambda>xs. Inr (Some xs)), w1)))"

definition postDevices ::
  "'w proxy_env \<Rightarrow> string option \<Rightarrow> flt \<Rightarrow> json option \<Rightarrow> caller \<Rightarrow> bool \<Rightarrow> ('w, proxy_response list option) io"
where
  "postDevices env url criteria data req wait = requestDevices env url criteria data req wait ''POST'' None"

section \<open>Answers\<close>

datatype proxy_reply =
    ReplyJson nat json
  | ReplyText nat string
  | ReplyEmpty nat
  | BadSupervisorResponse string
  | MultiStatus "(nat \<times> json option) list"
  | ProxyError exn
  | BadGateway exn

text \<open>\<^verbatim>\<open>/^application\/json/i\<close>, \<^verbatim>\<open>/^text\/(plain|html)/\<close> and \<^verbatim>\<open>/^([A-Za-z0-9\s:'.?!,/-])*$/\<close>\<close>

definition json_type :: "string \<Rightarrow> bool" where
  "json_type t \<longleftrightarrow> js_startsWith (js_toLowerCase t) ''application/json''"

definition text_type :: "string \<Rightarrow> bool" where
  "text_type t \<longleftrightarrow> js_startsWith t ''text/plain'' \<or> js_startsWith t ''text/html''"

definition plain_char :: "char \<Rightarrow> bool" where
  "plain_char c \<longleftrightarrow> is_alpha_char c \<or> is_digit_char c \<or> is_space_char c \<or> c \<in> set '':.?!,/-'' \<or> c = CHR 0x27"

definition BAD_SUPERVISOR_RESPONSE :: proxy_reply where
  "BAD_SUPERVISOR_RESPONSE = BadSupervisorResponse ''Bad API response from supervisor''"

definition json_body :: "'w proxy_env \<Rightarrow> json option \<Rightarrow> json option" where
  "json_body env body =
     (case body of
        Some (JObj fs) \<Rightarrow> Some (JObj fs)
      | Some (JArr xs) \<Rightarrow> Some (JArr xs)
      | other \<Rightarrow> px_parse env (value_string other))"

definition validateSupervisorResponse :: "'w proxy_env \<Rightarrow> proxy_response \<Rightarrow> proxy_reply" where
  "validateSupervisorResponse env response =
     (case pr_type response of
        None \<Rightarrow> ReplyEmpty (pr_status response)
      | Some contentType \<Rightarrow>
          if json_type contentType
          then (case json_body env (pr_body response) of
                  None \<Rightarrow> BAD_SUPERVISOR_RESPONSE
                | Some jsonBody \<Rightarrow> ReplyJson (pr_status response) jsonBody)
          else if text_type contentType
          then (if list_all plain_char (value_string (pr_body response))
                then ReplyText (pr_status response) (value_string (pr_body response))
                else BAD_SUPERVISOR_RESPONSE)
          else BAD_SUPERVISOR_RESPONSE)"

definition multiResponse :: "proxy_response list \<Rightarrow> (nat \<times> json option) list" where
  "multiResponse responses = map (\<lambda>r. (pr_status r, pr_body r)) responses"

section \<open>The endpoint\<close>

text \<open>The verb of the validated body: one of six, in any case.\<close>

definition js_toUpperCase :: "string \<Rightarrow> string" where
  "js_toUpperCase s = map (\<lambda>c. if is_lower_char c then char_of ((of_char c :: nat) - 32) else c) s"

definition VERBS :: "string list" where
  "VERBS = [''PUT'', ''PATCH'', ''POST'', ''HEAD'', ''DELETE'', ''GET'']"

definition proxy_verb :: "json option \<Rightarrow> string res" where
  "proxy_verb v =
     (case v of
        None \<Rightarrow> Inr ''POST''
      | Some (JStr s) \<Rightarrow> (if js_toUpperCase s \<in> set VERBS then Inr (js_toUpperCase s) else Inl (BadRequestError []))
      | Some _ \<Rightarrow> Inl (BadRequestError []))"

definition id_filter :: "string \<Rightarrow> string \<Rightarrow> json option \<Rightarrow> (json option) res" where
  "id_filter field message v =
     (if not_nullish v
      then (case checkInt (int_field v) of None \<Rightarrow> Inl (BadRequestError message) | Some n \<Rightarrow> Inr (Some (jsnum_json n)))
      else Inr None)"

definition proxy_filter :: "json option \<Rightarrow> json option \<Rightarrow> json option \<Rightarrow> flt list" where
  "proxy_filter appId deviceId uuid =
     (case appId of None \<Rightarrow> [] | Some a \<Rightarrow> [FEq ''belongs_to__application'' a]) @
     (case deviceId of None \<Rightarrow> [] | Some d \<Rightarrow> [FEq ''id'' d]) @
     (if not_nullish uuid then [FEq ''uuid'' (the uuid)] else [])"

definition json_int :: "json option \<Rightarrow> int option" where
  "json_int v = (case v of Some (JNum n) \<Rightarrow> Some n | _ \<Rightarrow> None)"

definition proxy_ids :: "json obj \<Rightarrow> (json option \<times> json option) res" where
  "proxy_ids body =
     res_bind (id_filter ''appId'' ''App ID must be a valid integer if specified'' (map_of body ''appId'')) (\<lambda>appId.
     res_bind (id_filter ''deviceId'' ''Device ID must be a valid integer if specified'' (map_of body ''deviceId'')) (\<lambda>deviceId.
       Inr (appId, deviceId)))"

definition proxy_steps ::
  "'w proxy_env \<Rightarrow> string option \<Rightarrow> json obj \<Rightarrow> string \<Rightarrow> ('w, proxy_reply) io"
where
  "proxy_steps env url body verb =
     (if url = None then io_throw (BadRequestError ''Supervisor API url must be specified'')
      else io_bind (io_lift (proxy_ids body)) (\<lambda>(appId, deviceId).
        let criteria = proxy_filter appId deviceId (map_of body ''uuid'')
        in if criteria = [] then io_throw (BadRequestError ''At least one filter must be specified'')
           else io_bind (requestDevices env url (FAnd criteria) (map_of body ''data'') AsClient True verb
                  (if deviceId = None \<and> \<not> not_nullish (map_of body ''uuid'') then json_int appId else None)) (\<lambda>responses.
             io_return (case responses of
                          Some [r] \<Rightarrow> validateSupervisorResponse env r
                        | Some rs \<Rightarrow> MultiStatus (multiResponse rs)
                        | None \<Rightarrow> MultiStatus []))))"

definition proxy_error :: "exn \<Rightarrow> proxy_reply" where
  "proxy_error err = (if is_http_error err then ProxyError err else BadGateway err)"

definition proxy :: "'w proxy_env \<Rightarrow> string option \<Rightarrow> json obj \<Rightarrow> ('w, proxy_reply) io" where
  "proxy env url body =
     (case proxy_verb (map_of body ''method'') of
        Inl e \<Rightarrow> io_return (ProxyError e)
      | Inr verb \<Rightarrow> io_catch (proxy_steps env url body verb) (\<lambda>err. io_return (proxy_error err)))"

section \<open>Which devices are reached\<close>

text \<open>
  \<open>graph\<close> are the rows, \<open>managed\<close> the devices that can be reached, \<open>visible\<close> those a caller may read, \<open>granted\<close> the rows on
  which it may write through the proxy, and \<open>sent\<close> the requests made so far.
\<close>

locale device_proxy =
  fixes env :: "'w proxy_env" and graph :: "'w \<Rightarrow> row_graph" and managed :: "'w \<Rightarrow> int \<Rightarrow> managed_device option"
    and visible :: "'w \<Rightarrow> caller \<Rightarrow> int \<Rightarrow> bool" and granted :: "'w \<Rightarrow> caller \<Rightarrow> string \<Rightarrow> int \<Rightarrow> bool"
    and sent :: "'w \<Rightarrow> device_request list"
  assumes ids_law: "px_ids env req p w = (r, w') \<Longrightarrow> w' = w \<and>
      (\<forall>is. r = Inr is \<longrightarrow> set is = {i. visible w req i \<and> matches (graph w) (''device'', i) p})"
    and access_law: "px_can_access env req resource i ''supervisor-proxy-write'' w = (a, w') \<Longrightarrow> w' = w \<and>
      (a = Inr (Some i) \<longrightarrow> granted w req resource i)"
    and devices_law: "px_devices env is w = (d, w') \<Longrightarrow> w' = w \<and>
      (\<forall>ds. d = Inr ds \<longrightarrow> set ds = {d. \<exists>i \<in> set is. managed w i = Some d})"
    and request_law: "px_request env q w = (s, w') \<Longrightarrow> sent w' = sent w @ [q]"
begin

definition online :: "'w \<Rightarrow> int \<Rightarrow> bool" where
  "online w i \<longleftrightarrow> row_value (graph w) (''device'', i) ''is_connected_to_vpn'' = Some (JBool True) \<and>
     row_value (graph w) (''device'', i) ''is_frozen'' = Some (JBool False)"

definition chosen :: "'w \<Rightarrow> caller \<Rightarrow> flt \<Rightarrow> int set" where
  "chosen w req p = {i. visible w req i \<and> online w i \<and> matches (graph w) (''device'', i) p}"

definition reach_allowed :: "'w \<Rightarrow> caller \<Rightarrow> string \<Rightarrow> int option \<Rightarrow> int \<Rightarrow> bool" where
  "reach_allowed w req verb appId i \<longleftrightarrow> verb \<in> {''GET'', ''HEAD''} \<or> req = AsPlatform \<or>
     (case appId of Some a \<Rightarrow> granted w req ''application'' a | None \<Rightarrow> granted w req ''device'' i)"

lemma send_all_sent: "send_all (px_request env) qs w = (rs, w') \<Longrightarrow> sent w' = sent w @ qs"
  by (induction qs arbitrary: w rs) (auto split: prod.splits dest: request_law)

lemma checked: "checkResourceAccess env req resource i w = (r, w') \<Longrightarrow> w' = w \<and> (r = Inr () \<longrightarrow> granted w req resource i)"
  unfolding checkResourceAccess_def
  by (cases "px_can_access env req resource i ''supervisor-proxy-write'' w")
    (auto simp: io_bind_def io_return_def io_throw_def dest: access_law split: sum.splits if_splits)

lemma all_checked:
  "io_mapM (checkResourceAccess env req resource) is w = (r, w') \<Longrightarrow>
     w' = w \<and> ((\<exists>us. r = Inr us) \<longrightarrow> (\<forall>i \<in> set is. granted w req resource i))"
proof (induction "is" arbitrary: r w w')
  case (Cons i "is")
  obtain u v where one: "checkResourceAccess env req resource i w = (u, v)" by (metis prod.collapse)
  note c = checked [OF one]
  obtain us v' where rest: "io_mapM (checkResourceAccess env req resource) is v = (us, v')" by (metis prod.collapse)
  note IH = Cons.IH [OF rest]
  show ?case
    using Cons.prems one rest c IH by (cases u; cases us) (auto simp: io_bind_def io_return_def)
qed (simp add: io_return_def)

lemma may_reach_allowed:
  assumes "may_reach env req verb appId is w = (r, w')"
  shows "w' = w \<and> (r = Inr () \<longrightarrow> (\<forall>i \<in> set is. reach_allowed w req verb appId i))"
proof (cases "verb \<noteq> ''GET'' \<and> verb \<noteq> ''HEAD'' \<and> req \<noteq> AsPlatform")
  case False
  with assms show ?thesis by (auto simp: may_reach_def reach_allowed_def io_return_def)
next
  case True
  show ?thesis
  proof (cases appId)
    case None
    obtain u v where all: "io_mapM (checkResourceAccess env req ''device'') is w = (u, v)" by (metis prod.collapse)
    from all_checked [OF all] assms True None all show ?thesis
      by (cases u) (auto simp: may_reach_def reach_allowed_def io_bind_def io_return_def)
  next
    case (Some a)
    with assms True checked [of req "''application''" a w r w'] show ?thesis
      by (auto simp: may_reach_def reach_allowed_def)
  qed
qed

lemma select_devices_allowed:
  assumes "select_devices env req p wait verb appId w = (r, w')"
  shows "w' = w \<and> (\<forall>ds. r = Inr ds \<longrightarrow>
    set ds = {d. \<exists>i \<in> chosen w req p. managed w i = Some d} \<and> (\<forall>i \<in> chosen w req p. reach_allowed w req verb appId i))"
proof -
  obtain c v where ids: "px_ids env req (online_filter p) w = (c, v)" by (metis prod.collapse)
  note law = ids_law [OF ids]
  show ?thesis
  proof (cases c)
    case (Inl e)
    with assms ids law show ?thesis by (auto simp: select_devices_def io_bind_def)
  next
    case (Inr "is")
    have set: "set is = chosen w req p"
      using law Inr by (auto simp: online_filter_def chosen_def online_def)
    show ?thesis
    proof (cases "is = []")
      case True
      then have "chosen w req p = {}" using set by simp
      with assms ids law Inr True show ?thesis
        by (auto simp: select_devices_def io_bind_def io_return_def io_throw_def split: if_splits)
    next
      case False
      obtain u v2 where reach: "may_reach env req verb appId is w = (u, v2)" by (metis prod.collapse)
      note allowed = may_reach_allowed [OF reach]
      obtain d v3 where read: "px_devices env is w = (d, v3)" by (metis prod.collapse)
      note devices = devices_law [OF read]
      from assms ids law Inr False reach allowed read devices set show ?thesis
        by (cases u) (auto simp: select_devices_def io_bind_def)
    qed
  qed
qed

lemma requests_allowed:
  assumes "requestDevices env (Some url) p data req wait verb appId w = (r, w')"
  shows "\<exists>ds. sent w' = sent w @ map (device_request_of env url data verb) ds \<and>
    (\<forall>d \<in> set ds. \<exists>i \<in> chosen w req p. managed w i = Some d \<and> reach_allowed w req verb appId i) \<and>
    ((\<exists>x. r = Inr x) \<longrightarrow> set ds = {d. \<exists>i \<in> chosen w req p. managed w i = Some d})"
proof -
  obtain c v where select: "select_devices env req p wait verb appId w = (c, v)" by (metis prod.collapse)
  note s = select_devices_allowed [OF select]
  show ?thesis
  proof (cases c)
    case (Inl e)
    with assms select s show ?thesis by (auto simp: requestDevices_def io_bind_def intro!: exI [of _ "[]"])
  next
    case (Inr ds)
    obtain rs v2 where send: "send_all (px_request env) (map (device_request_of env url data verb) ds) w = (rs, v2)"
      by (metis prod.collapse)
    have "w' = v2" using assms select s Inr send by (auto simp: requestDevices_def io_bind_def split: if_splits)
    then have "sent w' = sent w @ map (device_request_of env url data verb) ds" using send_all_sent [OF send] by simp
    moreover have "set ds = {d. \<exists>i \<in> chosen w req p. managed w i = Some d}"
      "\<forall>i \<in> chosen w req p. reach_allowed w req verb appId i"
      using s Inr by auto
    ultimately show ?thesis by (intro exI [of _ ds]) auto
  qed
qed

end

text \<open>A world in memory: the fields and links of rows, the devices that can be reached, and what the client may do.\<close>

record proxy_world =
  pw_values :: "((row_name \<times> string) \<times> json) list"
  pw_links :: "(row_name \<times> string \<times> row_name) list"
  pw_devices :: "(int \<times> managed_device) list"
  pw_visible :: "int list"
  pw_granted :: "(string \<times> int) list"
  pw_sent :: "device_request list"

definition mem_graph :: "proxy_world \<Rightarrow> row_graph" where
  "mem_graph w =
     \<lparr>row_value = (\<lambda>n f. map_of (pw_values w) (n, f)),
      row_reach = (\<lambda>n f. map (\<lambda>(_, _, m). m) (filter (\<lambda>(n', f', _). n' = n \<and> f' = f) (pw_links w)))\<rparr>"

definition mem_visible :: "proxy_world \<Rightarrow> caller \<Rightarrow> int \<Rightarrow> bool" where
  "mem_visible w req i \<longleftrightarrow> i \<in> fst ` set (pw_devices w) \<and> (req = AsPlatform \<or> i \<in> set (pw_visible w))"

definition mem_proxy_env :: "proxy_world proxy_env" where
  "mem_proxy_env =
     \<lparr>px_ids = (\<lambda>req p w. (Inr (filter (\<lambda>i. mem_visible w req i \<and> matches (mem_graph w) (''device'', i) p) (map fst (pw_devices w))), w)),
      px_can_access = (\<lambda>req resource i action w. (Inr (if req = AsPlatform \<or> (resource, i) \<in> set (pw_granted w) then Some i else None), w)),
      px_devices = (\<lambda>is w. (Inr (List.map_filter (map_of (pw_devices w)) is), w)),
      px_request = (\<lambda>q w. (Inr \<lparr>pr_status = 200, pr_type = Some ''text/plain'', pr_body = Some (JStr ''OK'')\<rparr>,
                            w\<lparr>pw_sent := pw_sent w @ [q]\<rparr>)),
      px_service_key = ''key'', px_port = 8, px_parse = (\<lambda>_. None)\<rparr>"

interpretation mem_proxy: device_proxy mem_proxy_env mem_graph "\<lambda>w i. map_of (pw_devices w) i" mem_visible
  "\<lambda>w req resource i. req = AsPlatform \<or> (resource, i) \<in> set (pw_granted w)" pw_sent
proof (rule device_proxy.intro, goal_cases)
  case (1 req p w r w')
  then show ?case by (force simp: mem_proxy_env_def mem_visible_def)
next
  case (3 "is" w d w')
  then show ?case by (auto simp: mem_proxy_env_def set_map_filter)
qed (auto simp: mem_proxy_env_def split: if_splits)

text \<open>The application whose access is checked: the one given, when neither a device nor a UUID is.\<close>

definition checked_app :: "json option \<Rightarrow> json option \<Rightarrow> json option \<Rightarrow> int option" where
  "checked_app appId deviceId uuid = (if deviceId = None \<and> \<not> not_nullish uuid then json_int appId else None)"

text \<open>Either nothing was done, or the devices of the filter were requested.\<close>

lemma proxy_run_cases:
  assumes "proxy env url body w = (reply, w')"
  obtains (nothing) "w' = w"
  | (requests) u verb appId deviceId r where
      "requestDevices env (Some u) (FAnd (proxy_filter appId deviceId (map_of body ''uuid''))) (map_of body ''data'') AsClient True
         verb (checked_app appId deviceId (map_of body ''uuid'')) w = (r, w')"
proof (cases "proxy_verb (map_of body ''method'')")
  case (Inl e)
  then have "w' = w" using assms by (simp add: proxy_def io_return_def)
  then show ?thesis by (rule nothing)
next
  case (Inr verb)
  obtain x v where steps: "proxy_steps env url body verb w = (x, v)" by (metis prod.collapse)
  then have w': "w' = v" using assms Inr by (auto simp: proxy_def io_catch_def io_return_def split: sum.splits)
  show ?thesis
  proof (cases "url = None \<or> (\<exists>e. proxy_ids body = Inl e)")
    case True
    with steps have "v = w"
      by (cases url) (auto simp: proxy_steps_def io_bind_def io_lift_def io_throw_def)
    with w' have "w' = w" by simp
    then show ?thesis by (rule nothing)
  next
    case False
    then obtain u appId deviceId where u: "url = Some u" "proxy_ids body = Inr (appId, deviceId)"
      by (cases url; cases "proxy_ids body") auto
    show ?thesis
    proof (cases "proxy_filter appId deviceId (map_of body ''uuid'') = []")
      case True
      then have "v = w" using steps u by (auto simp: proxy_steps_def io_bind_def io_lift_def io_throw_def)
      with w' have "w' = w" by simp
      then show ?thesis by (rule nothing)
    next
      case False
      obtain r v2 where req: "requestDevices env (Some u) (FAnd (proxy_filter appId deviceId (map_of body ''uuid'')))
          (map_of body ''data'') AsClient True verb (checked_app appId deviceId (map_of body ''uuid'')) w = (r, v2)"
        by (metis prod.collapse)
      then have "v = v2"
        using steps u False
        by (auto simp: proxy_steps_def io_bind_def io_lift_def io_return_def Let_def checked_app_def [symmetric] split: sum.splits)
      with req w' requests show ?thesis by blast
    qed
  qed
qed

lemma chosen_device_allowed:
  assumes dp: "device_proxy env graph managed visible granted sent"
    and i: "i \<in> device_proxy.chosen graph visible w AsClient (FAnd (proxy_filter appId deviceId uuid))"
    and reach: "device_proxy.reach_allowed granted w AsClient verb (checked_app appId deviceId uuid) i"
  shows "visible w AsClient i \<and>
    row_value (graph w) (''device'', i) ''is_connected_to_vpn'' = Some (JBool True) \<and>
    row_value (graph w) (''device'', i) ''is_frozen'' = Some (JBool False) \<and>
    (not_nullish uuid \<longrightarrow> row_value (graph w) (''device'', i) ''uuid'' = uuid) \<and>
    (verb \<in> {''GET'', ''HEAD''} \<or> granted w AsClient ''device'' i \<or>
     (\<exists>a. granted w AsClient ''application'' a \<and> row_value (graph w) (''device'', i) ''belongs_to__application'' = Some (JNum a)))"
proof -
  have m: "list_all (matches (graph w) (''device'', i)) (proxy_filter appId deviceId uuid)" "visible w AsClient i"
    "device_proxy.online graph w i"
    using i by (auto simp: device_proxy.chosen_def [OF dp])
  have app: "row_value (graph w) (''device'', i) ''belongs_to__application'' = Some (JNum k)"
    if "checked_app appId deviceId uuid = Some k" for k
    using that m(1) by (auto simp: checked_app_def proxy_filter_def json_int_def split: if_splits option.splits json.splits)
  have "verb \<in> {''GET'', ''HEAD''} \<or> granted w AsClient ''device'' i \<or>
      (\<exists>k. granted w AsClient ''application'' k \<and> row_value (graph w) (''device'', i) ''belongs_to__application'' = Some (JNum k))"
    using reach app by (cases "checked_app appId deviceId uuid") (auto simp: device_proxy.reach_allowed_def [OF dp])
  moreover have "not_nullish uuid \<longrightarrow> row_value (graph w) (''device'', i) ''uuid'' = uuid"
    using m(1) by (cases "not_nullish uuid") (auto simp: proxy_filter_def not_nullish_def)
  ultimately show ?thesis using m(2,3) by (simp add: device_proxy.online_def [OF dp])
qed

text \<open>
  Claim C18. The endpoint sends requests only to devices that are connected and not frozen, that the client may read
  and that have the identifiers of the body; and, but for reading ones, only when the client may write to the device
  through the proxy, or to the application the body names, which is then the device's.
\<close>

theorem proxy_respects_access:
  assumes "device_proxy env graph managed visible granted sent" and "proxy env url body w = (reply, w')"
  shows "\<exists>u verb ds. sent w' = sent w @ map (device_request_of env u (map_of body ''data'') verb) ds \<and>
    (\<forall>d \<in> set ds. \<exists>i. managed w i = Some d \<and> visible w AsClient i \<and>
       row_value (graph w) (''device'', i) ''is_connected_to_vpn'' = Some (JBool True) \<and>
       row_value (graph w) (''device'', i) ''is_frozen'' = Some (JBool False) \<and>
       (not_nullish (map_of body ''uuid'') \<longrightarrow> row_value (graph w) (''device'', i) ''uuid'' = map_of body ''uuid'') \<and>
       (verb \<in> {''GET'', ''HEAD''} \<or> granted w AsClient ''device'' i \<or>
        (\<exists>a. granted w AsClient ''application'' a \<and> row_value (graph w) (''device'', i) ''belongs_to__application'' = Some (JNum a))))"
  using assms(2)
proof (cases rule: proxy_run_cases)
  case nothing
  then show ?thesis by (intro exI [of _ "[]"]) simp
next
  case (requests u verb appId deviceId r)
  from device_proxy.requests_allowed [OF assms(1) requests] obtain ds where
    "sent w' = sent w @ map (device_request_of env u (map_of body ''data'') verb) ds"
    "\<forall>d \<in> set ds. \<exists>i \<in> device_proxy.chosen graph visible w AsClient
         (FAnd (proxy_filter appId deviceId (map_of body ''uuid''))). managed w i = Some d \<and>
       device_proxy.reach_allowed granted w AsClient verb (checked_app appId deviceId (map_of body ''uuid'')) i" by blast
  then show ?thesis using chosen_device_allowed [OF assms(1)] by (intro exI [of _ u] exI [of _ verb] exI [of _ ds]) blast
qed

definition sample_proxy_world :: proxy_world where
  "sample_proxy_world =
     \<lparr>pw_values = [(((''device'', 1), ''is_connected_to_vpn''), JBool True), (((''device'', 1), ''is_frozen''), JBool False),
                   (((''device'', 1), ''uuid''), JStr ''aa''),
                   (((''device'', 2), ''is_connected_to_vpn''), JBool True), (((''device'', 2), ''is_frozen''), JBool True),
                   (((''device'', 2), ''uuid''), JStr ''bb'')],
      pw_links = [],
      pw_devices = [(1, \<lparr>md_uuid = ''aa'', md_port = None, md_secret = ''s'', md_ip = ''fe80::1''\<rparr>),
                    (2, \<lparr>md_uuid = ''bb'', md_port = None, md_secret = ''s'', md_ip = ''10.0.0.2''\<rparr>)],
      pw_visible = [1, 2], pw_granted = [(''device'', 1)], pw_sent = []\<rparr>"

lemma some_request:
  assumes "\<exists>u verb ds. s = s0 @ map (f u verb) ds \<and> (\<forall>d \<in> set ds. P verb d)" and "s \<noteq> s0"
  shows "\<exists>verb d. P verb d"
proof -
  obtain u verb ds where ds: "s = s0 @ map (f u verb) ds" "\<forall>d \<in> set ds. P verb d" using assms(1) by blast
  with assms(2) obtain d where "d \<in> set ds" by (cases ds) auto
  with ds(2) show ?thesis by blast
qed

theorem proxy_respects_access_witness:
  "\<exists>w' i d. proxy mem_proxy_env (Some ''/v1/blink'') [(''uuid'', JStr ''aa'')] sample_proxy_world = (Inr (ReplyText 200 ''OK''), w') \<and>
     map rq_uri (pw_sent w') = [''http://aa.balena:80/v1/blink?apikey=s''] \<and>
     map_of (pw_devices sample_proxy_world) i = Some d \<and>
     row_value (mem_graph sample_proxy_world) (''device'', i) ''is_frozen'' = Some (JBool False)"
proof -
  define w' where "w' = snd (proxy mem_proxy_env (Some ''/v1/blink'') [(''uuid'', JStr ''aa'')] sample_proxy_world)"
  have run: "proxy mem_proxy_env (Some ''/v1/blink'') [(''uuid'', JStr ''aa'')] sample_proxy_world = (Inr (ReplyText 200 ''OK''), w')"
    unfolding w'_def by code_simp
  have sent: "map rq_uri (pw_sent w') = [''http://aa.balena:80/v1/blink?apikey=s'']" unfolding w'_def by code_simp
  have "pw_sent w' \<noteq> pw_sent sample_proxy_world" using sent by (auto simp: sample_proxy_world_def)
  from some_request [OF proxy_respects_access [OF mem_proxy.device_proxy_axioms run] this]
  have "\<exists>i d. map_of (pw_devices sample_proxy_world) i = Some d \<and>
      row_value (mem_graph sample_proxy_world) (''device'', i) ''is_frozen'' = Some (JBool False)"
    by (elim exE conjE) (intro exI conjI)
  with run sent show ?thesis by (elim exE conjE) (intro exI conjI)
qed

end
