(* ===== verification/UpdateTriggers.thy ===== *)
theory UpdateTriggers
  imports DeviceProxy
begin

text \<open>
  The hooks that tell devices to fetch their state after a change (\<^verbatim>\<open>src/features/vars-schema/hooks/vars-update-trigger.ts\<close>
  and the triggers of \<^verbatim>\<open>src/features/ci-cd/hooks\<close>): which devices a variable, an application or a device concerns, and
  the requests sent when the change is committed.
\<close>

section \<open>Which devices a variable concerns\<close>

text \<open>
  A filter is built from the owner given in the body or, without one, from the variables a request is about
  (\<open>affected\<close>); without either there is none.
\<close>

definition with_ids :: "('w, int list) io \<Rightarrow> (int list \<Rightarrow> flt) \<Rightarrow> ('w, flt option) io" where
  "with_ids affected build =
     io_bind affected (\<lambda>envVarIds. io_return (if length envVarIds = 0 then None else Some (build envVarIds)))"

definition var_ids :: "string \<Rightarrow> int list \<Rightarrow> flt" where
  "var_ids resource envVarIds = FAny resource (FIn ''id'' envVarIds)"

definition app_env_filter :: "string \<Rightarrow> json obj \<Rightarrow> ('w, int list) io \<Rightarrow> ('w, flt option) io" where
  "app_env_filter resource body affected =
     (if not_nullish (map_of body ''application'')
      then io_return (Some (FEq ''belongs_to__application'' (the (map_of body ''application''))))
      else with_ids affected (\<lambda>envVarIds. FAny ''belongs_to__application'' (var_ids resource envVarIds)))"

definition device_env_filter :: "string \<Rightarrow> json obj \<Rightarrow> ('w, int list) io \<Rightarrow> ('w, flt option) io" where
  "device_env_filter resource body affected =
     (if not_nullish (map_of body ''device'')
      then io_return (Some (FEq ''id'' (the (map_of body ''device''))))
      else with_ids affected (var_ids resource))"

definition of_service :: "flt \<Rightarrow> flt" where
  "of_service p =
     FAny ''should_be_running__release'' (FAny ''contains__image'' (FAny ''image'' (FAny ''is_a_build_of__service'' p)))"

definition service_env_filter :: "json obj \<Rightarrow> ('w, int list) io \<Rightarrow> ('w, flt option) io" where
  "service_env_filter body affected =
     (if not_nullish (map_of body ''service'')
      then io_return (Some (of_service (FEq ''id'' (the (map_of body ''service'')))))
      else with_ids affected (\<lambda>envVarIds. of_service (var_ids ''service_environment_variable'' envVarIds)))"

definition of_release_image :: "flt \<Rightarrow> flt" where
  "of_release_image p = FAny ''image_install'' (FAny ''installs__image'' (FAny ''release_image'' p))"

definition image_env_filter :: "json obj \<Rightarrow> ('w, int list) io \<Rightarrow> ('w, flt option) io" where
  "image_env_filter body affected =
     (if not_nullish (map_of body ''release_image'')
      then io_return (Some (of_release_image (FEq ''id'' (the (map_of body ''release_image'')))))
      else with_ids affected (\<lambda>envVarIds. of_release_image (var_ids ''image_environment_variable'' envVarIds)))"

text \<open>The resources with these hooks.\<close>

definition ENV_HOOKS :: "(string \<times> (json obj \<Rightarrow> ('w, int list) io \<Rightarrow> ('w, flt option) io)) list" where
  "ENV_HOOKS =
     [(''application_config_variable'', app_env_filter ''application_config_variable''),
      (''application_environment_variable'', app_env_filter ''application_environment_variable''),
      (''device_config_variable'', device_env_filter ''device_config_variable''),
      (''device_environment_variable'', device_env_filter ''device_environment_variable''),
      (''device_service_environment_variable'', device_env_filter ''device_service_environment_variable''),
      (''service_environment_variable'', service_env_filter),
      (''image_environment_variable'', image_env_filter)]"

section \<open>Notifications\<close>

text \<open>
  \<open>tg_affected\<close> are the ids a request is about, \<open>tg_devices\<close> the devices a filter selects among those the requester may
  read, and \<open>tg_sleep\<close> is the timer.  The action of a hook at the end of its transaction is run after the commit.
\<close>

record 'w trigger_env =
  tg_proxy :: "'w proxy_env"
  tg_affected :: "('w, int list) io"
  tg_devices :: "flt \<Rightarrow> ('w, int list) io"
  tg_sleep :: "nat \<Rightarrow> 'w \<Rightarrow> 'w"

definition getAffectedDeviceIds ::
  "'w trigger_env \<Rightarrow> (json obj \<Rightarrow> ('w, int list) io \<Rightarrow> ('w, flt option) io) \<Rightarrow> json obj \<Rightarrow> ('w, int list option) io"
where
  "getAffectedDeviceIds env buildFilter body =
     io_bind (buildFilter body (tg_affected env)) (\<lambda>p.
       case p of None \<Rightarrow> io_return None | Some f \<Rightarrow> io_bind (tg_devices env f) (\<lambda>is. io_return (Some is)))"

text \<open>A request to update, the errors of which are only reported.\<close>

definition notify :: "'w trigger_env \<Rightarrow> flt \<Rightarrow> ('w, unit) io" where
  "notify env p =
     io_catch (io_bind (postDevices (tg_proxy env) (Some ''/v1/update'') p None AsPlatform False) (\<lambda>_. io_return ()))
       (\<lambda>_. io_return ())"

definition env_var_end ::
  "'w trigger_env \<Rightarrow> (json obj \<Rightarrow> ('w, int list) io \<Rightarrow> ('w, flt option) io) \<Rightarrow> json obj \<Rightarrow> int list option \<Rightarrow> ('w, unit) io"
where
  "env_var_end env buildFilter body affectedDevices =
     io_bind (case affectedDevices of
                Some devices \<Rightarrow> io_return (Some devices)
              | None \<Rightarrow> (\<lambda>w. getAffectedDeviceIds env buildFilter body (tg_sleep env 1000 w))) (\<lambda>devices.
       case devices of
         None \<Rightarrow> io_return ()
       | Some [] \<Rightarrow> io_return ()
       | Some is \<Rightarrow> notify env (FIn ''id'' is))"

text \<open>
  A change of variables with its hook: creating and changing them looks for the devices after the commit, deleting
  them before it, while the variables are still there.  \<open>commit\<close> is the change itself.
\<close>

definition change_variables ::
  "'w trigger_env \<Rightarrow> (json obj \<Rightarrow> ('w, int list) io \<Rightarrow> ('w, flt option) io) \<Rightarrow> json obj \<Rightarrow> ('w, unit) io \<Rightarrow> ('w, unit) io"
where
  "change_variables env buildFilter body commit =
     io_bind commit (\<lambda>_. env_var_end env buildFilter body None)"

definition delete_variables ::
  "'w trigger_env \<Rightarrow> (json obj \<Rightarrow> ('w, int list) io \<Rightarrow> ('w, flt option) io) \<Rightarrow> json obj \<Rightarrow> ('w, unit) io \<Rightarrow> ('w, unit) io"
where
  "delete_variables env buildFilter body commit =
     io_bind (getAffectedDeviceIds env buildFilter body) (\<lambda>affectedDevices.
     io_bind commit (\<lambda>_. env_var_end env buildFilter body affectedDevices))"

definition app_update_trigger :: "'w trigger_env \<Rightarrow> json obj \<Rightarrow> int list \<Rightarrow> ('w, unit) io" where
  "app_update_trigger env vals affectedIds =
     (if not_nullish (map_of vals ''should_be_running__release'') \<and> length affectedIds \<noteq> 0
      then notify env
             (FAnd [FIn ''belongs_to__application'' affectedIds,
                    FNe ''is_running__release'' (the (map_of vals ''should_be_running__release'')),
                    FEq ''is_pinned_on__release'' JNull])
      else io_return ())"

definition device_update_trigger :: "'w trigger_env \<Rightarrow> json obj \<Rightarrow> int list \<Rightarrow> ('w, unit) io" where
  "device_update_trigger env vals affectedIds =
     (if (map_of vals ''is_pinned_on__release'' \<noteq> None \<or> not_nullish (map_of vals ''belongs_to__application'') \<or>
          not_nullish (map_of vals ''device_name'') \<or> not_nullish (map_of vals ''should_be_operated_by__release'')) \<and>
         length affectedIds \<noteq> 0
      then notify env (FIn ''id'' affectedIds)
      else io_return ())"

section \<open>The two ways to build a filter\<close>

text \<open>
  How a variable is reached: from the row of its owner by the name of its resource, and its owner's row from a device.
  \<open>owned\<close> says that a variable belongs to the one owner only.
\<close>

definition owner_field :: "string \<Rightarrow> string" where
  "owner_field resource =
     (if resource \<in> {''application_config_variable'', ''application_environment_variable''} then ''application''
      else if resource = ''service_environment_variable'' then ''service''
      else if resource = ''image_environment_variable'' then ''release_image'' else ''device'')"

definition owner_resource :: "string \<Rightarrow> string" where
  "owner_resource resource =
     (if owner_field resource = ''release_image'' then ''image__is_part_of__release'' else owner_field resource)"

definition owned :: "row_graph \<Rightarrow> string \<Rightarrow> int \<Rightarrow> int \<Rightarrow> bool" where
  "owned g resource e owner \<longleftrightarrow>
     (\<forall>n. fst n = owner_resource resource \<longrightarrow>
        list_ex (\<lambda>m. row_value g m ''id'' = Some (JNum e)) (row_reach g n resource) = (row_value g n ''id'' = Some (JNum owner)))"

text \<open>What the data model says of a device: its reference to an application is a field and the way to the row it names, and
  properties lead to rows of their resource.\<close>

definition device_linked :: "row_graph \<Rightarrow> row_name \<Rightarrow> bool" where
  "device_linked g d \<longleftrightarrow> fst d = ''device'' \<and>
     (\<forall>a. (row_value g d ''belongs_to__application'' = Some (JNum a)) =
        list_ex (\<lambda>n. row_value g n ''id'' = Some (JNum a)) (row_reach g d ''belongs_to__application'')) \<and>
     (\<forall>n. list_all (\<lambda>m. fst m = ''application'') (row_reach g n ''belongs_to__application'')) \<and>
     (\<forall>n. list_all (\<lambda>m. fst m = ''service'') (row_reach g n ''is_a_build_of__service'')) \<and>
     (\<forall>n. list_all (\<lambda>m. fst m = ''image__is_part_of__release'') (row_reach g n ''release_image''))"

lemma var_ids_owner:
  assumes "owned g resource e owner" and "fst n = owner_resource resource"
  shows "matches g n (var_ids resource [e]) \<longleftrightarrow> matches g n (FEq ''id'' (JNum owner))"
  using assms(1) [unfolded owned_def, rule_format, OF assms(2)] by (simp add: var_ids_def)

lemma any_owner:
  assumes "owned g resource e owner" and "list_all (\<lambda>m. fst m = owner_resource resource) (row_reach g n p)"
  shows "matches g n (FAny p (var_ids resource [e])) \<longleftrightarrow> matches g n (FAny p (FEq ''id'' (JNum owner)))"
  using assms(2) var_ids_owner [OF assms(1)] by (auto simp: list_ex_iff list_all_iff simp del: matches.simps(1))

text \<open>
  The filter by the owner and the filter by the variable, for each shape of a resource.  Here \<open>e\<close> is the
  variable, and the owner's field and resource are those of the shape.
\<close>

lemmas filter_runs = not_nullish_def with_ids_def io_return_def io_bind_def

lemma app_filters_agree:
  assumes "owned g resource e owner" and "device_linked g d"
    and "owner_field resource = ''application''" and "owner_resource resource = ''application''"
    and "app_env_filter resource [(owner_field resource, JNum owner)] (io_return [e]) w = (Inr (Some p), w1)"
    and "app_env_filter resource [] (io_return [e]) w = (Inr (Some q), w2)"
  shows "matches g d p \<longleftrightarrow> matches g d q"
proof -
  have "p = FEq ''belongs_to__application'' (JNum owner)" "q = FAny ''belongs_to__application'' (var_ids resource [e])"
    using assms(5,6) by (simp_all add: assms(3) app_env_filter_def filter_runs)
  moreover have "list_all (\<lambda>m. fst m = ''application'') (row_reach g n ''belongs_to__application'')" for n
    using assms(2) by (simp only: device_linked_def simp_thms)
  ultimately show ?thesis
    using assms(2) any_owner [OF assms(1), of d "''belongs_to__application''"] by (simp add: assms(4) device_linked_def)
qed

lemma device_filters_agree:
  assumes "owned g resource e owner" and "device_linked g d"
    and "owner_field resource = ''device''" and "owner_resource resource = ''device''"
    and "device_env_filter resource [(owner_field resource, JNum owner)] (io_return [e]) w = (Inr (Some p), w1)"
    and "device_env_filter resource [] (io_return [e]) w = (Inr (Some q), w2)"
  shows "matches g d p \<longleftrightarrow> matches g d q"
proof -
  have "p = FEq ''id'' (JNum owner)" "q = var_ids resource [e]"
    using assms(5,6) by (simp_all add: assms(3) device_env_filter_def filter_runs)
  then show ?thesis using var_ids_owner [OF assms(1), of d] assms(2) by (simp add: assms(4) device_linked_def)
qed

lemma service_filters_agree:
  assumes own: "owned g ''service_environment_variable'' e owner" and dev: "device_linked g d"
    and p: "service_env_filter [(owner_field ''service_environment_variable'', JNum owner)] (io_return [e]) w = (Inr (Some p), w1)"
    and q: "service_env_filter [] (io_return [e]) w = (Inr (Some q), w2)"
  shows "matches g d p \<longleftrightarrow> matches g d q"
proof -
  have "\<forall>n. list_all (\<lambda>m. fst m = ''service'') (row_reach g n ''is_a_build_of__service'')"
    using dev by (simp only: device_linked_def simp_thms)
  note reach = this [THEN spec]
  have "matches g n (FAny ''is_a_build_of__service'' (var_ids ''service_environment_variable'' [e])) \<longleftrightarrow>
      matches g n (FAny ''is_a_build_of__service'' (FEq ''id'' (JNum owner)))" for n
    by (rule any_owner [OF own]) (simp add: owner_resource_def owner_field_def reach)
  moreover have "p = of_service (FEq ''id'' (JNum owner))" "q = of_service (var_ids ''service_environment_variable'' [e])"
    using p q by (simp_all add: owner_field_def service_env_filter_def filter_runs)
  ultimately show ?thesis by (simp add: of_service_def)
qed

lemma image_filters_agree:
  assumes own: "owned g ''image_environment_variable'' e owner" and dev: "device_linked g d"
    and p: "image_env_filter [(owner_field ''image_environment_variable'', JNum owner)] (io_return [e]) w = (Inr (Some p), w1)"
    and q: "image_env_filter [] (io_return [e]) w = (Inr (Some q), w2)"
  shows "matches g d p \<longleftrightarrow> matches g d q"
proof -
  have "\<forall>n. list_all (\<lambda>m. fst m = ''image__is_part_of__release'') (row_reach g n ''release_image'')"
    using dev by (simp only: device_linked_def simp_thms)
  note reach = this [THEN spec]
  have "matches g n (FAny ''release_image'' (var_ids ''image_environment_variable'' [e])) \<longleftrightarrow>
      matches g n (FAny ''release_image'' (FEq ''id'' (JNum owner)))" for n
    by (rule any_owner [OF own]) (simp add: owner_resource_def owner_field_def reach)
  moreover have "p = of_release_image (FEq ''id'' (JNum owner))" "q = of_release_image (var_ids ''image_environment_variable'' [e])"
    using p q by (simp_all add: owner_field_def image_env_filter_def filter_runs)
  ultimately show ?thesis by (simp add: of_release_image_def)
qed

lemma env_hook_cases:
  assumes "(resource, build) \<in> set ENV_HOOKS"
  obtains (app) "build = app_env_filter resource" "owner_field resource = ''application''" "owner_resource resource = ''application''"
  | (device) "build = device_env_filter resource" "owner_field resource = ''device''" "owner_resource resource = ''device''"
  | (service) "resource = ''service_environment_variable''" "build = service_env_filter"
  | (image) "resource = ''image_environment_variable''" "build = image_env_filter"
  using assms unfolding ENV_HOOKS_def list.set insert_iff empty_iff prod.inject
  by (elim disjE conjE; simp add: owner_field_def owner_resource_def)

text \<open>
  Claim C26. For every resource with these hooks, the filter built from the owner in the body of a request and the one
  built from the variable the request is about select the same devices, so creating a variable, changing it and
  deleting it concern the same ones.
\<close>

theorem variable_filters_agree:
  assumes hook: "(resource, build) \<in> set ENV_HOOKS" and own: "owned g resource e owner" and dev: "device_linked g d"
    and by_owner: "build [(owner_field resource, JNum owner)] (io_return [e]) w = (Inr (Some p), w1)"
    and by_variable: "build [] (io_return [e]) w = (Inr (Some q), w2)"
  shows "matches g d p \<longleftrightarrow> matches g d q"
  using hook
proof (cases rule: env_hook_cases)
  case app
  then show ?thesis using app_filters_agree [OF own dev app(2,3)] by_owner by_variable by simp
next
  case device
  then show ?thesis using device_filters_agree [OF own dev device(2,3)] by_owner by_variable by simp
next
  case service
  then show ?thesis using service_filters_agree [OF _ dev] own by_owner by_variable by simp
next
  case image
  then show ?thesis using image_filters_agree [OF _ dev] own by_owner by_variable by simp
qed

section \<open>Which devices are notified\<close>

text \<open>
  The reads of the platform do not fail, the reads of the requester see what it may see, and waiting changes nothing
  of what is read.
\<close>

locale update_triggers = device_proxy "tg_proxy env" graph managed visible granted sent
  for env :: "'w trigger_env" and graph :: "'w \<Rightarrow> row_graph" and managed :: "'w \<Rightarrow> int \<Rightarrow> managed_device option"
    and visible :: "'w \<Rightarrow> caller \<Rightarrow> int \<Rightarrow> bool" and granted :: "'w \<Rightarrow> caller \<Rightarrow> string \<Rightarrow> int \<Rightarrow> bool"
    and sent :: "'w \<Rightarrow> device_request list" +
  assumes requester_reads: "tg_devices env p w = (r, w') \<Longrightarrow> w' = w \<and>
      (\<forall>is. r = Inr is \<longrightarrow> set is = {i. visible w AsClient i \<and> matches (graph w) (''device'', i) p})"
    and affected_reads: "tg_affected env w = (r, w') \<Longrightarrow> w' = w"
    and platform_ids: "\<exists>is. fst (px_ids (tg_proxy env) AsPlatform p w) = Inr is"
    and platform_devices: "\<exists>ds. fst (px_devices (tg_proxy env) is w) = Inr ds"
    and device_id: "visible w c i \<Longrightarrow> row_value (graph w) (''device'', i) ''id'' = Some (JNum i)"
begin

definition update_requests :: "managed_device list \<Rightarrow> device_request list" where
  "update_requests ds = map (device_request_of (tg_proxy env) ''/v1/update'' None ''POST'') ds"

definition reached :: "'w \<Rightarrow> flt \<Rightarrow> managed_device set" where
  "reached w p = {d. \<exists>i \<in> chosen w AsPlatform p. managed w i = Some d}"

lemma platform_select: "\<exists>ds. fst (select_devices (tg_proxy env) AsPlatform p False verb None w) = Inr ds"
proof -
  obtain "is" v where ids: "px_ids (tg_proxy env) AsPlatform (online_filter p) w = (Inr is, v)"
    using platform_ids [of "online_filter p" w] by (metis prod.collapse)
  obtain ds where "fst (px_devices (tg_proxy env) is v) = Inr ds" using platform_devices by blast
  with ids show ?thesis
    by (auto simp: select_devices_def may_reach_def io_bind_def io_return_def split: prod.splits sum.splits)
qed

lemma notify_reaches:
  assumes "notify env p w = (r, w')"
  shows "r = Inr () \<and> (\<exists>ds. sent w' = sent w @ update_requests ds \<and> set ds = reached w p)"
proof -
  obtain q v where req: "requestDevices (tg_proxy env) (Some ''/v1/update'') p None AsPlatform False ''POST'' None w = (q, v)"
    by (metis prod.collapse)
  obtain ds v1 where "select_devices (tg_proxy env) AsPlatform p False ''POST'' None w = (Inr ds, v1)"
    using platform_select [of p "''POST''" w] by (metis prod.collapse)
  with req have q: "q = Inr None" by (auto simp: requestDevices_def io_bind_def split: prod.splits)
  then have "r = Inr ()" "w' = v"
    using assms req by (auto simp: notify_def postDevices_def io_catch_def io_bind_def io_return_def)
  with requests_allowed [OF req] q show ?thesis by (auto simp: update_requests_def reached_def)
qed

lemma build_reads:
  assumes "(resource, build) \<in> set ENV_HOOKS" and "build body (tg_affected env) w = (r, w')"
  shows "w' = w"
proof -
  have "with_ids (tg_affected env) f w = (r, w') \<Longrightarrow> w' = w" for f
    by (cases "tg_affected env w") (auto simp: with_ids_def io_bind_def io_return_def dest: affected_reads split: sum.splits if_splits)
  moreover have "(\<exists>x. build body (tg_affected env) w = io_return x w) \<or> (\<exists>f. build body (tg_affected env) w = with_ids (tg_affected env) f w)"
    using assms(1) unfolding ENV_HOOKS_def list.set insert_iff empty_iff prod.inject
    by (elim disjE conjE; simp add: app_env_filter_def device_env_filter_def service_env_filter_def image_env_filter_def) blast+
  ultimately show ?thesis using assms(2) by (auto simp: io_return_def)
qed

lemma affected_devices:
  assumes "(resource, build) \<in> set ENV_HOOKS" and "getAffectedDeviceIds env build body w = (r, w')"
  shows "w' = w \<and> (\<forall>is. r = Inr (Some is) \<longrightarrow>
    (\<exists>p v. build body (tg_affected env) w = (Inr (Some p), v) \<and> set is = {i. visible w AsClient i \<and> matches (graph w) (''device'', i) p}))"
proof -
  obtain b v where b: "build body (tg_affected env) w = (b, v)" by (metis prod.collapse)
  have v: "v = w" by (rule build_reads [OF assms(1) b])
  show ?thesis
  proof (cases "\<exists>p. b = Inr (Some p)")
    case True
    then obtain p where p: "b = Inr (Some p)" by blast
    obtain d v2 where read: "tg_devices env p w = (d, v2)" by (metis prod.collapse)
    from requester_reads [OF read] read b v p assms(2) show ?thesis
      by (cases d) (auto simp: getAffectedDeviceIds_def io_bind_def io_return_def)
  next
    case False
    with b v assms(2) show ?thesis
      by (cases b) (auto simp: getAffectedDeviceIds_def io_bind_def io_return_def split: option.splits)
  qed
qed

lemma ids_reached:
  "reached w (FIn ''id'' is) = {d. \<exists>i \<in> set is. visible w AsPlatform i \<and> online w i \<and> managed w i = Some d}"
  using device_id by (fastforce simp: reached_def chosen_def list_ex_iff)

lemma end_notifies:
  assumes "env_var_end env build body (Some is) w = (r, w')"
  shows "\<exists>ds. sent w' = sent w @ update_requests ds \<and>
    set ds = {d. \<exists>i \<in> set is. visible w AsPlatform i \<and> online w i \<and> managed w i = Some d}"
proof (cases "is = []")
  case True
  with assms have "w' = w" by (simp add: env_var_end_def io_return_def io_bind_def)
  with True show ?thesis by (auto simp: update_requests_def)
next
  case False
  then have "notify env (FIn ''id'' is) w = (r, w')" using assms by (cases "is") (auto simp: env_var_end_def)
  from notify_reaches [OF this] show ?thesis unfolding ids_reached by blast
qed

lemma deletion_notifies:
  assumes "(resource, build) \<in> set ENV_HOOKS" and "delete_variables env build body commit w = (Inr u, w')"
    and "build body (tg_affected env) w = (Inr (Some p), v)"
  shows "\<exists>w2 ds. commit w = (Inr (), w2) \<and> sent w' = sent w2 @ update_requests ds \<and>
    set ds = {d. \<exists>i. visible w AsClient i \<and> matches (graph w) (''device'', i) p \<and>
      visible w2 AsPlatform i \<and> online w2 i \<and> managed w2 i = Some d}"
proof -
  obtain o1 w1 w2 where run: "getAffectedDeviceIds env build body w = (Inr o1, w1)" "commit w1 = (Inr (), w2)"
    "env_var_end env build body o1 w2 = (Inr u, w')"
    using assms(2) by (auto simp: delete_variables_def io_bind_Inr_iff)
  note read = affected_devices [OF assms(1) run(1)]
  obtain d v2 where "tg_devices env p w = (d, v2)" by (metis prod.collapse)
  with run(1) assms(3) build_reads [OF assms(1,3)] obtain "is" where o1: "o1 = Some is"
    by (cases d) (auto simp: getAffectedDeviceIds_def io_bind_def io_return_def)
  with read assms(3) have "is": "set is = {i. visible w AsClient i \<and> matches (graph w) (''device'', i) p}" by auto
  from end_notifies [OF run(3) [unfolded o1]] show ?thesis
    using run(2) read unfolding "is" by auto
qed

end

text \<open>
  The world of \<open>DeviceProxy\<close>, whose devices have their identifiers as a field; a request is about the variables listed.
\<close>

definition mem_values :: "proxy_world \<Rightarrow> row_graph" where
  "mem_values w =
     \<lparr>row_value = (\<lambda>n f. if f = ''id'' then Some (JNum (snd n)) else row_value (mem_graph w) n f),
      row_reach = row_reach (mem_graph w)\<rparr>"

definition mem_ids_env :: "proxy_world proxy_env" where
  "mem_ids_env = mem_proxy_env
     \<lparr>px_ids := (\<lambda>req p w. (Inr (filter (\<lambda>i. mem_visible w req i \<and> matches (mem_values w) (''device'', i) p) (map fst (pw_devices w))), w))\<rparr>"

definition mem_trigger_env :: "int list \<Rightarrow> proxy_world trigger_env" where
  "mem_trigger_env affected =
     \<lparr>tg_proxy = mem_ids_env, tg_affected = io_return affected,
      tg_devices = (\<lambda>p w. (Inr (filter (\<lambda>i. mem_visible w AsClient i \<and> matches (mem_values w) (''device'', i) p) (map fst (pw_devices w))), w)),
      tg_sleep = (\<lambda>_ w. w)\<rparr>"

lemma mem_ids: "set (filter (\<lambda>i. mem_visible w req i \<and> Q i) (map fst (pw_devices w))) = {i. mem_visible w req i \<and> Q i}"
  by (auto simp: mem_visible_def)

lemma mem_ids_proxy: "device_proxy mem_ids_env mem_values (\<lambda>w i. map_of (pw_devices w) i) mem_visible
  (\<lambda>w req resource i. req = AsPlatform \<or> (resource, i) \<in> set (pw_granted w)) pw_sent"
proof (rule device_proxy.intro, goal_cases)
  case (1 req p w r w')
  then have "w' = w" "r = Inr (filter (\<lambda>i. mem_visible w req i \<and> matches (mem_values w) (''device'', i) p) (map fst (pw_devices w)))"
    by (auto simp: mem_ids_env_def)
  then show ?case using mem_ids by auto
next
  case (2 req resource i w a w')
  then show ?case by (auto simp: mem_ids_env_def mem_proxy_env_def split: if_splits)
next
  case (3 "is" w d w')
  then show ?case by (auto simp: mem_ids_env_def mem_proxy_env_def set_map_filter)
qed (auto simp: mem_ids_env_def mem_proxy_env_def)

interpretation mem_triggers: update_triggers "mem_trigger_env affected" mem_values "\<lambda>w i. map_of (pw_devices w) i" mem_visible
  "\<lambda>w req resource i. req = AsPlatform \<or> (resource, i) \<in> set (pw_granted w)" pw_sent
proof (rule update_triggers.intro [OF _ update_triggers_axioms.intro], goal_cases)
  case 1
  show ?case using mem_ids_proxy by (simp add: mem_trigger_env_def)
next
  case (2 p w r w')
  then have "w' = w" "r = Inr (filter (\<lambda>i. mem_visible w AsClient i \<and> matches (mem_values w) (''device'', i) p) (map fst (pw_devices w)))"
    by (auto simp: mem_trigger_env_def)
  then show ?case using mem_ids by auto
qed (auto simp: mem_trigger_env_def mem_ids_env_def mem_proxy_env_def mem_values_def io_return_def)

text \<open>
  Claim C25. When variables are deleted, one request to update goes to each device that the requester may read and that
  they concerned before they were deleted, as long as it is online and can be reached afterwards, and to no other.
\<close>

theorem deleted_variables_notify:
  assumes "update_triggers env graph managed visible granted sent" and "(resource, build) \<in> set ENV_HOOKS"
    and "delete_variables env build body commit w = (Inr (), w')"
    and "build body (tg_affected env) w = (Inr (Some p), v)"
  shows "\<exists>w2 ds. commit w = (Inr (), w2) \<and>
    sent w' = sent w2 @ map (device_request_of (tg_proxy env) ''/v1/update'' None ''POST'') ds \<and>
    set ds = {d. \<exists>i. visible w AsClient i \<and> matches (graph w) (''device'', i) p \<and> visible w2 AsPlatform i \<and>
      row_value (graph w2) (''device'', i) ''is_connected_to_vpn'' = Some (JBool True) \<and>
      row_value (graph w2) (''device'', i) ''is_frozen'' = Some (JBool False) \<and> managed w2 i = Some d}"
  using update_triggers.deletion_notifies [OF assms]
  unfolding update_triggers.update_requests_def [OF assms(1)]
    device_proxy.online_def [OF update_triggers.axioms(1) [OF assms(1)]] by (simp only: conj_assoc)

definition sample_rows_world :: proxy_world where
  "sample_rows_world =
     \<lparr>pw_values = [(((''device'', 1), ''is_connected_to_vpn''), JBool True), (((''device'', 1), ''is_frozen''), JBool False),
                   (((''device'', 2), ''is_connected_to_vpn''), JBool True), (((''device'', 2), ''is_frozen''), JBool False)],
      pw_links = [((''device'', 1), ''should_be_running__release'', (''release'', 2)),
                  ((''release'', 2), ''contains__image'', (''image__is_part_of__release'', 3)),
                  ((''image__is_part_of__release'', 3), ''image'', (''image'', 4)),
                  ((''image'', 4), ''is_a_build_of__service'', (''service'', 5)),
                  ((''service'', 5), ''service_environment_variable'', (''service_environment_variable'', 6))],
      pw_devices = [(1, \<lparr>md_uuid = ''aa'', md_port = None, md_secret = ''s'', md_ip = ''10.0.0.1''\<rparr>),
                    (2, \<lparr>md_uuid = ''bb'', md_port = None, md_secret = ''s'', md_ip = ''10.0.0.2''\<rparr>)],
      pw_visible = [1, 2], pw_granted = [], pw_sent = []\<rparr>"

theorem variable_filters_agree_witness:
  "matches (mem_values sample_rows_world) (''device'', 1) (of_service (FEq ''id'' (JNum 5))) \<and>
   matches (mem_values sample_rows_world) (''device'', 1) (of_service (var_ids ''service_environment_variable'' [6]))"
proof -
  let ?g = "mem_values sample_rows_world" and ?r = "''service_environment_variable''"
  have hook: "(?r, service_env_filter) \<in> set ENV_HOOKS" by (simp add: ENV_HOOKS_def)
  have own: "owned ?g ?r 6 5"
    by (auto simp: owned_def owner_resource_def owner_field_def mem_values_def mem_graph_def sample_rows_world_def)
  have dev: "device_linked ?g (''device'', 1)"
    by (auto simp: device_linked_def mem_values_def mem_graph_def sample_rows_world_def)
  have p: "service_env_filter [(owner_field ?r, JNum 5)] (io_return [6]) () = (Inr (Some (of_service (FEq ''id'' (JNum 5)))), ())"
    and q: "service_env_filter [] (io_return [6]) () = (Inr (Some (of_service (var_ids ?r [6]))), ())"
    by (simp_all add: service_env_filter_def owner_field_def not_nullish_def with_ids_def io_return_def io_bind_def)
  have "matches ?g (''device'', 1) (of_service (FEq ''id'' (JNum 5)))" by code_simp
  with variable_filters_agree [OF hook own dev p q] show ?thesis by blast
qed

definition drop_service_variables :: "(proxy_world, unit) io" where
  "drop_service_variables w =
     (Inr (), w\<lparr>pw_links := filter (\<lambda>(_, p, _). p \<noteq> ''service_environment_variable'') (pw_links w)\<rparr>)"

lemma selected_some: "S = {d. \<exists>i. A i \<and> M i \<and> B i \<and> C i \<and> D i \<and> G i d} \<Longrightarrow> \<forall>d \<in> S. \<exists>i. M i \<and> G i d"
  by blast

theorem deleted_variables_notify_witness:
  "\<exists>w' j d. delete_variables (mem_trigger_env [6]) service_env_filter [] drop_service_variables sample_rows_world = (Inr (), w') \<and>
     map rq_uri (pw_sent w') = [''http://aa.balena:80/v1/update?apikey=s''] \<and>
     matches (mem_values sample_rows_world) (''device'', j) (of_service (var_ids ''service_environment_variable'' [6])) \<and>
     map_of (pw_devices sample_rows_world) j = Some d"
proof -
  define w' where "w' = snd (delete_variables (mem_trigger_env [6]) service_env_filter [] drop_service_variables sample_rows_world)"
  have run: "delete_variables (mem_trigger_env [6]) service_env_filter [] drop_service_variables sample_rows_world = (Inr (), w')"
    unfolding w'_def by code_simp
  have sent: "map rq_uri (pw_sent w') = [''http://aa.balena:80/v1/update?apikey=s'']" unfolding w'_def by code_simp
  have hook: "(''service_environment_variable'', service_env_filter) \<in> set ENV_HOOKS" by (simp add: ENV_HOOKS_def)
  have build: "service_env_filter [] (tg_affected (mem_trigger_env [6])) sample_rows_world =
      (Inr (Some (of_service (var_ids ''service_environment_variable'' [6]))), sample_rows_world)"
    by (simp add: service_env_filter_def mem_trigger_env_def not_nullish_def with_ids_def io_return_def io_bind_def)
  from deleted_variables_notify [OF mem_triggers.update_triggers_axioms hook run build]
  obtain w2 ds where ds: "drop_service_variables sample_rows_world = (Inr (), w2)"
    "pw_sent w' = pw_sent w2 @ map (device_request_of (tg_proxy (mem_trigger_env [6])) ''/v1/update'' None ''POST'') ds"
    "\<forall>d \<in> set ds. \<exists>j. matches (mem_values sample_rows_world) (''device'', j) (of_service (var_ids ''service_environment_variable'' [6])) \<and>
       map_of (pw_devices w2) j = Some d"
    by (elim exE conjE) (rule that, assumption, assumption, erule selected_some)
  have w2: "pw_sent w2 = []" "pw_devices w2 = pw_devices sample_rows_world"
    using ds(1) by (auto simp: drop_service_variables_def sample_rows_world_def)
  with sent ds(2) have "ds \<noteq> []" by auto
  then obtain d where "d \<in> set ds" by (cases ds) auto
  from bspec [OF ds(3) this] run sent show ?thesis unfolding w2(2) by (elim exE conjE) (intro exI conjI)
qed

end
