(* ===== verification/ImageStorage.thy ===== *)
theory ImageStorage
  imports JsRegex
begin

text \<open>
  The storage of operating system images and what is read from it about a build
  (\<^verbatim>\<open>src/features/device-types/storage\<close>, \<^verbatim>\<open>src/features/device-types/build-info-facade.ts\<close>).

  The client of the storage service is the record \<open>image_s3\<close> of its three calls, each answering with a
  value or with an error that has a code and a status.  The two recursions over the pages of a listing
  carry fuel: \<open>None\<close> is a recursion that was not done.  A memoized function is its body here; the
  memoizer itself is in \<open>CacheStore\<close>.
\<close>

section \<open>The client\<close>

record s3_error =
  err_code :: string
  err_status :: int

text \<open>A page of a listing; \<open>None\<close> is an absent field.\<close>

record image_page =
  ip_contents :: "(string option \<times> int option) list option"
  ip_prefixes :: "string option list option"
  ip_truncated :: bool
  ip_next :: "string option"

record 'w image_s3 =
  is_unauthenticated :: bool
  head_object :: "string \<Rightarrow> 'w \<Rightarrow> (s3_error + unit) \<times> 'w"
  get_object :: "string \<Rightarrow> 'w \<Rightarrow> (s3_error + string option) \<times> 'w"
  list_objects :: "string \<Rightarrow> string option \<Rightarrow> string option \<Rightarrow> 'w \<Rightarrow> (s3_error + image_page) \<times> 'w"

text \<open>The credentials of the configuration decide which client is created.\<close>

definition unauthenticated_client :: "string option \<Rightarrow> string option \<Rightarrow> bool" where
  "unauthenticated_client accessKey secretKey \<longleftrightarrow>
     (accessKey = None \<or> accessKey = Some []) \<or> (secretKey = None \<or> secretKey = Some [])"

definition s3_exn :: "s3_error \<Rightarrow> exn" where
  "s3_exn err = JsError (err_code err)"

text \<open>A call that is awaited outside of any \<^verbatim>\<open>try\<close>.\<close>

definition s3_await :: "('w \<Rightarrow> (s3_error + 'a) \<times> 'w) \<Rightarrow> ('w, 'a) io" where
  "s3_await call = (\<lambda>w. case call w of (Inl err, w') \<Rightarrow> (Inl (s3_exn err), w') | (Inr a, w') \<Rightarrow> (Inr a, w'))"

definition isUnauthenticatedError :: "'w image_s3 \<Rightarrow> s3_error \<Rightarrow> bool" where
  "isUnauthenticatedError s3 err \<longleftrightarrow> is_unauthenticated s3 \<and> err_status err \<in> {401, 403}"

section \<open>Keys, files and folders\<close>

definition storage_key :: "string list \<Rightarrow> string" where
  "storage_key parts = js_join ''/'' parts"

definition getImageKey :: "string \<Rightarrow> string list \<Rightarrow> string" where
  "getImageKey IMAGE_STORAGE_PREFIX parts = storage_key (IMAGE_STORAGE_PREFIX # parts)"

text \<open>The outer option is an answer that is there, the inner one its body.\<close>

definition getFile :: "'w image_s3 \<Rightarrow> string \<Rightarrow> ('w, string option option) io" where
  "getFile s3 s3Path = (\<lambda>w. case get_object s3 s3Path w of
     (Inr body, w') \<Rightarrow> (Inr (Some body), w')
   | (Inl err, w') \<Rightarrow>
       (if isUnauthenticatedError s3 err then (Inr None, w')
        else if err_status err = 404 then (Inr None, w')
        else (Inl (s3_exn err), w')))"

text \<open>An unauthenticated error is logged and thrown all the same.\<close>

definition fileExists :: "'w image_s3 \<Rightarrow> string \<Rightarrow> ('w, bool) io" where
  "fileExists s3 s3Path = (\<lambda>w. case head_object s3 s3Path w of
     (Inr _, w') \<Rightarrow> (Inr True, w')
   | (Inl err, w') \<Rightarrow>
       (if \<not> isUnauthenticatedError s3 err \<and> err_status err = 404 then (Inr False, w')
        else (Inl (s3_exn err), w')))"

definition next_marker :: "image_page \<Rightarrow> string option" where
  "next_marker res =
     (case ip_next res of
        None \<Rightarrow> None
      | Some t \<Rightarrow> if t \<noteq> [] \<and> ip_truncated res then Some t else None)"

definition page_size :: "re option \<Rightarrow> image_page \<Rightarrow> int" where
  "page_size keyPattern res =
     (case ip_contents res of
        None \<Rightarrow> 0
      | Some cs \<Rightarrow>
          let contents = (case keyPattern of
                None \<Rightarrow> cs
              | Some p \<Rightarrow> filter (\<lambda>(key, _). case key of None \<Rightarrow> False | Some k \<Rightarrow> re_test p k) cs)
          in foldl (\<lambda>sum (_, sz). sum + (case sz of None \<Rightarrow> 0 | Some n \<Rightarrow> n)) 0 contents)"

fun getFolderSize ::
  "nat \<Rightarrow> 'w image_s3 \<Rightarrow> string \<Rightarrow> re option \<Rightarrow> string option \<Rightarrow> ('w, int option) io"
where
  "getFolderSize 0 s3 folder keyPattern marker = io_return None"
| "getFolderSize (Suc fuel) s3 folder keyPattern marker =
     io_bind (s3_await (list_objects s3 (folder @ ''/'') None marker)) (\<lambda>res.
       let size = page_size keyPattern res
       in case next_marker res of
            Some nextMarker \<Rightarrow>
              io_bind (getFolderSize fuel s3 folder keyPattern (Some nextMarker)) (\<lambda>newSize.
                io_return (map_option (\<lambda>n. size + n) newSize))
          | None \<Rightarrow> io_return (Some size))"

text \<open>\<^verbatim>\<open>path.basename\<close>: the part behind the last separator, trailing separators aside.\<close>

definition path_basename :: "string \<Rightarrow> string" where
  "path_basename p = rev (takeWhile (\<lambda>c. c \<noteq> CHR ''/'') (dropWhile (\<lambda>c. c = CHR ''/'') (rev p)))"

definition folder_name :: "string option \<Rightarrow> string option" where
  "folder_name pfx =
     (case pfx of None \<Rightarrow> None | Some p \<Rightarrow> if js_endsWith p ''/'' then Some (path_basename p) else None)"

definition page_folders :: "image_page \<Rightarrow> string list" where
  "page_folders res =
     (case ip_prefixes res of None \<Rightarrow> [] | Some ps \<Rightarrow> List.map_filter folder_name ps)"

fun listFolders :: "nat \<Rightarrow> 'w image_s3 \<Rightarrow> string \<Rightarrow> string option \<Rightarrow> ('w, string list option) io" where
  "listFolders 0 s3 folder marker = io_return None"
| "listFolders (Suc fuel) s3 folder marker =
     io_bind (s3_await (list_objects s3 (folder @ ''/'') (Some ''/'') marker)) (\<lambda>res.
       let objects = page_folders res
       in case next_marker res of
            Some nextMarker \<Rightarrow>
              io_bind (listFolders fuel s3 folder (Some nextMarker)) (\<lambda>newObjects.
                io_return (map_option (\<lambda>os. objects @ os) newObjects))
          | None \<Rightarrow> io_return (Some objects))"

section \<open>What is known of a build\<close>

text \<open>\<^verbatim>\<open>encodeURIComponent\<close>; a character above 127 is written as its two bytes.\<close>

definition hex_digit :: "nat \<Rightarrow> char" where
  "hex_digit n = ''0123456789ABCDEF'' ! (n mod 16)"

definition percent_byte :: "nat \<Rightarrow> string" where
  "percent_byte n = [CHR ''%'', hex_digit (n div 16), hex_digit n]"

definition encode_char :: "char \<Rightarrow> string" where
  "encode_char c =
     (let n = of_char c
      in if is_word_char c \<or> c \<in> set ''-.!~*()'' \<or> n = 39 then [c]
         else if n < 128 then percent_byte n
         else percent_byte (192 + n div 64) @ percent_byte (128 + n mod 64))"

definition encodeURIComponent :: "string \<Rightarrow> string" where
  "encodeURIComponent s = concat (map encode_char s)"

record 'w storage_env =
  st_s3 :: "'w image_s3"
  st_prefix :: string
  st_files_host :: "string option"
  st_json_parse :: "string \<Rightarrow> json res"

definition encoded_logo_path :: "'w storage_env \<Rightarrow> string \<Rightarrow> string \<Rightarrow> ('w, string option) io" where
  "encoded_logo_path env normalizedSlug buildId =
     (let pathComponents = [normalizedSlug, buildId, ''logo.svg'']
      in io_catch
           (io_bind (fileExists (st_s3 env) (getImageKey (st_prefix env) pathComponents)) (\<lambda>hasLogo.
              io_return (if hasLogo then Some (getImageKey (st_prefix env) (map encodeURIComponent pathComponents))
                         else None)))
           (\<lambda>_. io_return None))"

definition getLogoUrl :: "'w storage_env \<Rightarrow> string \<Rightarrow> string \<Rightarrow> ('w, string option) io" where
  "getLogoUrl env normalizedSlug buildId =
     (case st_files_host env of
        None \<Rightarrow> io_return None
      | Some host \<Rightarrow>
          if host = [] then io_return None
          else io_bind (encoded_logo_path env normalizedSlug buildId) (\<lambda>encodedLogoPath.
            io_return (case encodedLogoPath of
                None \<Rightarrow> None
              | Some p \<Rightarrow> if p = [] then None else Some (''https://'' @ host @ ''/'' @ p))))"

text \<open>
  Setting a field of a parsed value: a list keeps it outside of its elements, where printing does not
  show it, and \<^verbatim>\<open>null\<close>, a number, a text or a truth value has no fields to set.
\<close>

fun set_field :: "string \<Rightarrow> json \<Rightarrow> json \<Rightarrow> json res" where
  "set_field k v (JObj o') = Inr (JObj (obj_set k v o'))"
| "set_field k v (JArr xs) = Inr (JArr xs)"
| "set_field k v _ = Inl JsTypeError"

fun field_of :: "string \<Rightarrow> json \<Rightarrow> json option" where
  "field_of k (JObj o') = map_of o' k"
| "field_of k _ = None"

definition getDeviceTypeJson :: "'w storage_env \<Rightarrow> string \<Rightarrow> string \<Rightarrow> ('w, json option) io" where
  "getDeviceTypeJson env normalizedSlug buildId =
     io_bind (fileExists (st_s3 env) (getImageKey (st_prefix env) [normalizedSlug, buildId, ''IGNORE''])) (\<lambda>isIgnored.
       if isIgnored then io_return None
       else io_bind (getFile (st_s3 env) (getImageKey (st_prefix env) [normalizedSlug, buildId, ''device-type.json'']))
         (\<lambda>response.
            case response of
              Some (Some body) \<Rightarrow>
                io_bind (io_lift (st_json_parse env body)) (\<lambda>deviceType.
                  if truthy (Some deviceType)
                  then io_bind (io_lift (set_field ''buildId'' (JStr buildId) deviceType)) (\<lambda>j. io_return (Some j))
                  else io_return (Some deviceType))
            | _ \<Rightarrow> io_return None))"

text \<open>\<^verbatim>\<open>/.*\.deflate$/\<close>\<close>

definition DEFLATE_REGEX :: re where
  "DEFLATE_REGEX = RSeqs [RStar (RClass (\<lambda>c. c \<noteq> CHR 0x0A \<and> c \<noteq> CHR 0x0D)), RLit ''.deflate'', REnd]"

definition getCompressedSize :: "nat \<Rightarrow> 'w storage_env \<Rightarrow> string \<Rightarrow> string \<Rightarrow> ('w, int option) io" where
  "getCompressedSize fuel env normalizedSlug buildId =
     getFolderSize fuel (st_s3 env) (getImageKey (st_prefix env) [normalizedSlug, buildId, ''compressed''])
       (Some DEFLATE_REGEX) None"

text \<open>A type read from storage is an object or a list, so that a field can be set again.\<close>

lemma set_field_shape: "set_field k v j = Inr j' \<Longrightarrow> (\<exists>o'. j' = JObj o') \<or> (\<exists>xs. j' = JArr xs)"
  by (cases j) auto

lemma getDeviceTypeJson_shape:
  assumes "getDeviceTypeJson env slug b w = (Inr (Some j), w')" "truthy (Some j)"
  shows "(\<exists>o'. j = JObj o') \<or> (\<exists>xs. j = JArr xs)"
proof -
  obtain response w1 where "(case response of
        Some (Some body) \<Rightarrow>
          io_bind (io_lift (st_json_parse env body)) (\<lambda>deviceType.
            if truthy (Some deviceType)
            then io_bind (io_lift (set_field ''buildId'' (JStr b) deviceType)) (\<lambda>j. io_return (Some j))
            else io_return (Some deviceType))
      | _ \<Rightarrow> io_return None) w1 = (Inr (Some j), w')"
    using assms(1) unfolding getDeviceTypeJson_def
    by (auto simp: io_bind_Inr_iff io_return_Inr_iff split: if_splits)
  with assms(2) have "\<exists>j0. set_field ''buildId'' (JStr b) j0 = Inr j"
    by (auto simp: io_run_iffs split: if_splits option.splits)
  then show ?thesis using set_field_shape by blast
qed

lemma getLogoUrl_settles: "\<exists>url w'. getLogoUrl env slug b w = (Inr url, w')"
  by (auto simp: getLogoUrl_def encoded_logo_path_def io_simps Let_def split: option.split prod.split sum.split)

section \<open>Listings\<close>

text \<open>
  A listing is cut into pages: the answer to a token takes a slice that starts where the token points
  to.  A token for a next page points behind the slice, which is not empty; without one the slice is the
  rest.  Reading leaves the bucket as it is, and any call may fail.
\<close>

datatype s3_entry = Stored string "int option" | Folder string

fun entry_content :: "s3_entry \<Rightarrow> (string option \<times> int option) option" where
  "entry_content (Stored k sz) = Some (Some k, sz)"
| "entry_content (Folder _) = None"

fun entry_prefix :: "s3_entry \<Rightarrow> string option option" where
  "entry_prefix (Stored _ _) = None"
| "entry_prefix (Folder p) = Some (Some p)"

definition page_of :: "s3_entry list \<Rightarrow> image_page \<Rightarrow> bool" where
  "page_of es pg \<longleftrightarrow>
     ip_contents pg = Some (List.map_filter entry_content es) \<and>
     ip_prefixes pg = Some (List.map_filter entry_prefix es)"

definition counted :: "re option \<Rightarrow> s3_entry \<Rightarrow> int" where
  "counted keyPattern e =
     (case e of
        Stored k sz \<Rightarrow>
          if (case keyPattern of None \<Rightarrow> True | Some p \<Rightarrow> re_test p k)
          then (case sz of None \<Rightarrow> 0 | Some n \<Rightarrow> n) else 0
      | Folder _ \<Rightarrow> 0)"

definition folders_of :: "s3_entry list \<Rightarrow> string list" where
  "folders_of es = List.map_filter (\<lambda>e. case e of Folder p \<Rightarrow> folder_name (Some p) | _ \<Rightarrow> None) es"

lemma foldl_sum: "foldl (\<lambda>sum x. sum + f x) (a :: int) xs = a + sum_list (map f xs)"
  by (induction xs arbitrary: a) auto

lemma page_size_of: "page_of es pg \<Longrightarrow> page_size keyPattern pg = sum_list (map (counted keyPattern) es)"
proof -
  have size: "(case keyPattern of None \<Rightarrow> cs
        | Some p \<Rightarrow> filter (\<lambda>(key, _). case key of None \<Rightarrow> False | Some k \<Rightarrow> re_test p k) cs) =
      filter (\<lambda>(key, _). case keyPattern of None \<Rightarrow> True | Some p \<Rightarrow> (case key of None \<Rightarrow> False | Some k \<Rightarrow> re_test p k)) cs" for cs
    by (auto split: option.split)
  assume "page_of es pg"
  then have "page_size keyPattern pg =
      sum_list (map (\<lambda>(_, sz). case sz of None \<Rightarrow> 0 | Some n \<Rightarrow> n)
        (filter (\<lambda>(key, _). case keyPattern of None \<Rightarrow> True | Some p \<Rightarrow> (case key of None \<Rightarrow> False | Some k \<Rightarrow> re_test p k))
          (List.map_filter entry_content es)))"
    by (simp add: page_of_def page_size_def size Let_def case_prod_unfold foldl_sum)
  also have "\<dots> = sum_list (map (counted keyPattern) es)"
    by (induction es) (auto simp: List.map_filter_simps counted_def split: s3_entry.splits option.splits)
  finally show ?thesis .
qed

lemma page_folders_of: "page_of es pg \<Longrightarrow> page_folders pg = folders_of es"
proof -
  assume "page_of es pg"
  then have "page_folders pg = List.map_filter folder_name (List.map_filter entry_prefix es)"
    by (simp add: page_of_def page_folders_def)
  also have "\<dots> = folders_of es"
    by (induction es) (auto simp: List.map_filter_simps folders_of_def split: s3_entry.splits option.splits)
  finally show ?thesis .
qed

lemma folders_of_append: "folders_of (xs @ ys) = folders_of xs @ folders_of ys"
  by (simp add: folders_of_def List.map_filter_def)

lemma slices: "m = k + n \<Longrightarrow> drop k es = take n (drop k es) @ drop m es"
  by (metis add.commute append_take_drop_id drop_drop)

locale image_bucket =
  fixes s3 :: "'w image_s3"
    and listing :: "'w \<Rightarrow> string \<Rightarrow> string option \<Rightarrow> s3_entry list"
    and position :: "string \<Rightarrow> nat"
  assumes list_law: "list_objects s3 p d tok w = (r, w') \<Longrightarrow> w' = w \<and>
      (\<forall>pg. r = Inr pg \<longrightarrow> (\<exists>n. page_of (take n (drop (case tok of None \<Rightarrow> 0 | Some t \<Rightarrow> position t) (listing w p d))) pg \<and>
         (case next_marker pg of
            None \<Rightarrow> length (listing w p d) \<le> (case tok of None \<Rightarrow> 0 | Some t \<Rightarrow> position t) + n
          | Some t' \<Rightarrow> 0 < n \<and> position t' = (case tok of None \<Rightarrow> 0 | Some t \<Rightarrow> position t) + n \<and>
              position t' < length (listing w p d))))"
    and head_law: "head_object s3 k w = (r', w') \<Longrightarrow> w' = w"
    and get_law: "get_object s3 k w = (r'', w') \<Longrightarrow> w' = w"
begin

abbreviation start :: "string option \<Rightarrow> nat" where
  "start tok \<equiv> case tok of None \<Rightarrow> 0 | Some t \<Rightarrow> position t"

lemma page_cases:
  assumes "s3_await (list_objects s3 p d tok) w = (r, w1)"
  obtains (failed) e where "r = Inl e" "w1 = w"
  | (last) pg where "r = Inr pg" "w1 = w" "next_marker pg = None"
      "page_of (drop (start tok) (listing w p d)) pg"
  | (more) pg t n where "r = Inr pg" "w1 = w" "next_marker pg = Some t" "0 < n"
      "position t = start tok + n" "position t < length (listing w p d)"
      "page_of (take n (drop (start tok) (listing w p d))) pg"
proof -
  obtain a where run: "list_objects s3 p d tok w = (a, w1)" and r: "r = (case a of Inl e \<Rightarrow> Inl (s3_exn e) | Inr b \<Rightarrow> Inr b)"
    using assms by (auto simp: s3_await_def split: prod.splits sum.splits)
  note law = list_law [OF run]
  show thesis
  proof (cases a)
    case (Inl e)
    with r law failed show ?thesis by auto
  next
    case (Inr pg)
    with law obtain n where pg: "page_of (take n (drop (start tok) (listing w p d))) pg"
      "case next_marker pg of
            None \<Rightarrow> length (listing w p d) \<le> start tok + n
          | Some t' \<Rightarrow> 0 < n \<and> position t' = start tok + n \<and> position t' < length (listing w p d)" by blast
    show ?thesis
    proof (cases "next_marker pg")
      case None
      with pg have "page_of (drop (start tok) (listing w p d)) pg" by (simp add: take_all)
      with last None Inr r law show ?thesis by auto
    next
      case (Some t)
      with pg have "0 < n" "position t = start tok + n" "position t < length (listing w p d)" by auto
      with more Some Inr r law pg(1) show ?thesis by auto
    qed
  qed
qed

lemma getFolderSize_total:
  assumes "length (listing w (folder @ ''/'') None) - start tok < fuel"
    and "getFolderSize fuel s3 folder keyPattern tok w = (r, w')"
  shows "w' = w \<and> (\<forall>v. r = Inr v \<longrightarrow>
    v = Some (sum_list (map (counted keyPattern) (drop (start tok) (listing w (folder @ ''/'') None)))))"
  using assms
proof (induction fuel arbitrary: tok r w')
  case 0
  then show ?case by simp
next
  case (Suc fuel)
  let ?es = "listing w (folder @ ''/'') None"
  obtain r1 w1 where page: "s3_await (list_objects s3 (folder @ ''/'') None tok) w = (r1, w1)" by fastforce
  from page show ?case
  proof (cases rule: page_cases)
    case (failed e)
    with Suc.prems(2) page show ?thesis by (auto simp: io_bind_def)
  next
    case (last pg)
    with Suc.prems(2) page show ?thesis
      by (auto simp: io_bind_def io_return_def Let_def page_size_of)
  next
    case (more pg t n)
    obtain r2 w2 where rest: "getFolderSize fuel s3 folder keyPattern (Some t) w = (r2, w2)" by fastforce
    have "length ?es - start (Some t) < fuel" using Suc.prems(1) more by simp
    note IH = Suc.IH [OF this rest]
    have split: "drop (start tok) ?es = take n (drop (start tok) ?es) @ drop (start (Some t)) ?es"
      using slices [OF more(5), of ?es] by simp
    have "r = (case r2 of Inl e \<Rightarrow> Inl e | Inr v \<Rightarrow> Inr (map_option (\<lambda>k. page_size keyPattern pg + k) v))" "w' = w2"
      using Suc.prems(2) page more rest by (auto simp: io_bind_def io_return_def Let_def split: sum.splits)
    with IH show ?thesis
      by (subst split) (auto simp: page_size_of [OF more(7)] split: sum.splits)
  qed
qed

lemma listFolders_total:
  assumes "length (listing w (folder @ ''/'') (Some ''/'')) - start tok < fuel"
    and "listFolders fuel s3 folder tok w = (r, w')"
  shows "w' = w \<and> (\<forall>v. r = Inr v \<longrightarrow>
    v = Some (folders_of (drop (start tok) (listing w (folder @ ''/'') (Some ''/'')))))"
  using assms
proof (induction fuel arbitrary: tok r w')
  case 0
  then show ?case by simp
next
  case (Suc fuel)
  let ?es = "listing w (folder @ ''/'') (Some ''/'')"
  obtain r1 w1 where page: "s3_await (list_objects s3 (folder @ ''/'') (Some ''/'') tok) w = (r1, w1)" by fastforce
  from page show ?case
  proof (cases rule: page_cases)
    case (failed e)
    with Suc.prems(2) page show ?thesis by (auto simp: io_bind_def)
  next
    case (last pg)
    with Suc.prems(2) page show ?thesis
      by (auto simp: io_bind_def io_return_def Let_def page_folders_of)
  next
    case (more pg t n)
    obtain r2 w2 where rest: "listFolders fuel s3 folder (Some t) w = (r2, w2)" by fastforce
    have "length ?es - start (Some t) < fuel" using Suc.prems(1) more by simp
    note IH = Suc.IH [OF this rest]
    have split: "drop (start tok) ?es = take n (drop (start tok) ?es) @ drop (start (Some t)) ?es"
      using slices [OF more(5), of ?es] by simp
    have "r = (case r2 of Inl e \<Rightarrow> Inl e | Inr v \<Rightarrow> Inr (map_option (\<lambda>k. page_folders pg @ k) v))" "w' = w2"
      using Suc.prems(2) page more rest by (auto simp: io_bind_def io_return_def Let_def split: sum.splits)
    with IH show ?thesis
      by (subst split) (auto simp: page_folders_of [OF more(7)] folders_of_append split: sum.splits)
  qed
qed

lemma fileExists_keeps: "keeps (\<lambda>w. w) (fileExists s3 k)"
  by (auto simp: keeps_def fileExists_def dest: head_law split: prod.split sum.split)

lemma getFile_keeps: "keeps (\<lambda>w. w) (getFile s3 k)"
  by (auto simp: keeps_def getFile_def dest: get_law split: prod.split sum.split)

end

section \<open>A bucket in memory\<close>

text \<open>
  Files with their bodies, listed in their order with pages of two entries; the length of a token is the
  position it points to.
\<close>

definition mem_entry :: "string \<Rightarrow> string option \<Rightarrow> string \<times> string \<Rightarrow> s3_entry" where
  "mem_entry p d = (\<lambda>(k, body).
     (let rest = drop (length p) k
      in if d \<noteq> None \<and> CHR ''/'' \<in> set rest then Folder (p @ takeWhile (\<lambda>c. c \<noteq> CHR ''/'') rest @ ''/'')
         else Stored k (Some (int (length body)))))"

definition mem_listing :: "(string \<times> string) list \<Rightarrow> string \<Rightarrow> string option \<Rightarrow> s3_entry list" where
  "mem_listing w p d = remdups (map (mem_entry p d) (filter (\<lambda>(k, _). js_startsWith k p) w))"

definition mem_bucket :: "bool \<Rightarrow> (string \<times> string) list image_s3" where
  "mem_bucket anonymous =
     \<lparr>is_unauthenticated = anonymous,
      head_object = (\<lambda>k w. (case map_of w k of
          None \<Rightarrow> Inl \<lparr>err_code = ''NotFound'', err_status = 404\<rparr> | Some _ \<Rightarrow> Inr (), w)),
      get_object = (\<lambda>k w. (case map_of w k of
          None \<Rightarrow> Inl \<lparr>err_code = ''NoSuchKey'', err_status = 404\<rparr> | Some body \<Rightarrow> Inr (Some body), w)),
      list_objects = (\<lambda>p d tok w.
        let es = mem_listing w p d; from = (case tok of None \<Rightarrow> 0 | Some t \<Rightarrow> length t);
            slice = take 2 (drop from es); more = from + 2 < length es
        in (Inr \<lparr>ip_contents = Some (List.map_filter entry_content slice),
                 ip_prefixes = Some (List.map_filter entry_prefix slice),
                 ip_truncated = more,
                 ip_next = (if more then Some (replicate (from + 2) CHR ''t'') else None)\<rparr>, w))\<rparr>"

interpretation mem_bucket: image_bucket "mem_bucket anonymous" mem_listing length
proof
  fix p d tok and w w' :: "(string \<times> string) list" and r
  assume "list_objects (mem_bucket anonymous) p d tok w = (r, w')"
  then show "w' = w \<and> (\<forall>pg. r = Inr pg \<longrightarrow>
      (\<exists>n. page_of (take n (drop (case tok of None \<Rightarrow> 0 | Some t \<Rightarrow> length t) (mem_listing w p d))) pg \<and>
         (case next_marker pg of
            None \<Rightarrow> length (mem_listing w p d) \<le> (case tok of None \<Rightarrow> 0 | Some t \<Rightarrow> length t) + n
          | Some t' \<Rightarrow> 0 < n \<and> length t' = (case tok of None \<Rightarrow> 0 | Some t \<Rightarrow> length t) + n \<and>
              length t' < length (mem_listing w p d))))"
    by (auto simp: mem_bucket_def Let_def page_of_def next_marker_def split: if_splits intro!: exI [of _ 2])
qed (auto simp: mem_bucket_def)

text \<open>
  Claim C32. The size of a folder of a build is always determined in finitely many requests: with more fuel
  than the folder has entries the recursion over the pages ends, and unless a request fails the answer is
  the sum of the sizes of all files of the folder whose name matches, wherever the pages are cut.
\<close>

theorem compressed_size_total:
  assumes "image_bucket (st_s3 env) listing position"
    and "length (listing w (getImageKey (st_prefix env) [slug, buildId, ''compressed''] @ ''/'') None) < fuel"
    and "getCompressedSize fuel env slug buildId w = (r, w')"
  shows "w' = w \<and> r \<noteq> Inr None \<and>
    (\<forall>n. r = Inr (Some n) \<longrightarrow> n = sum_list (map (counted (Some DEFLATE_REGEX))
       (listing w (getImageKey (st_prefix env) [slug, buildId, ''compressed''] @ ''/'') None)))"
  using image_bucket.getFolderSize_total [OF assms(1) _ assms(3) [unfolded getCompressedSize_def]] assms(2)
  by auto

definition demo_storage :: "(string \<times> string) list storage_env" where
  "demo_storage =
     \<lparr>st_s3 = mem_bucket False, st_prefix = ''images'', st_files_host = Some ''files'',
      st_json_parse = (\<lambda>body. if body = ''broken'' then Inl (JsError ''SyntaxError'')
                              else Inr (JObj [(''slug'', JStr body)]))\<rparr>"

definition demo_files :: "(string \<times> string) list" where
  "demo_files =
     [(''images/pi/1.0.0/compressed/a.deflate'', ''12345''), (''images/pi/1.0.0/compressed/b.deflate'', ''123''),
      (''images/pi/1.0.0/compressed/image.json'', ''1234567''), (''images/pi/1.0.0/device-type.json'', ''pi''),
      (''images/pi/1.0.0/compressed/c.deflate'', ''1'')]"

theorem compressed_size_total_witness:
  "getCompressedSize 5 demo_storage ''pi'' ''1.0.0'' demo_files = (Inr (Some 9), demo_files) \<and>
   (9 :: int) = sum_list (map (counted (Some DEFLATE_REGEX))
     (mem_listing demo_files (getImageKey ''images'' [''pi'', ''1.0.0'', ''compressed''] @ ''/'') None))"
proof -
  have run: "getCompressedSize 5 demo_storage ''pi'' ''1.0.0'' demo_files = (Inr (Some 9), demo_files)"
    by code_simp
  have fuel: "length (mem_listing demo_files
      (getImageKey (st_prefix demo_storage) [''pi'', ''1.0.0'', ''compressed''] @ ''/'') None) < 5"
    by code_simp
  have "image_bucket (st_s3 demo_storage) mem_listing length"
    by (simp add: demo_storage_def mem_bucket.image_bucket_axioms)
  from compressed_size_total [OF this fuel run] run show ?thesis by (simp add: demo_storage_def)
qed

end
