(* ===== verification/DeviceTypes.thy ===== *)
theory DeviceTypes
  imports ImageStorage ReleaseVersioning Provisioning
begin

text \<open>
  Device types (\<^verbatim>\<open>src/features/device-types\<close>): the list of all types with what is published of each,
  their lookup by slug or alias, the size of an image, the endpoints and the hooks that forget the list.

  The rows of the queries are fields of an environment and the options of a query (filters, order, number
  of rows) are evaluated on them.  Versions are compared by a library, texts by the database.  The tasks
  that run together run in their order; what is written to the error log is left out.
\<close>

section \<open>Rows and queries\<close>

record release_asset =
  ra_key :: string
  ra_href :: "string option"
  ra_size :: "int option"

text \<open>\<open>ra_href\<close> is \<open>None\<close> when the asset has no file; the size of a file may be unknown.\<close>

record os_release = ReleaseVersioning.release_row +
  os_status :: string
  os_invalidated :: bool
  os_created :: int
  os_assets :: "release_asset list"

record host_app =
  ha_type :: int
  ha_host :: bool
  ha_tags :: "string list"
  ha_releases :: "os_release list"

definition ESR_MIN_MAJOR :: int where
  "ESR_MIN_MAJOR = 2000"

record 'w types_env =
  te_storage :: "'w storage_env"
  te_allowlist :: "string list"
  te_prerelease :: "string \<Rightarrow> bool"
  te_rcompare :: "string \<Rightarrow> string \<Rightarrow> int"
  te_parse :: "string \<Rightarrow> semver option"
  te_getRevision :: "semver \<Rightarrow> int option"
  te_collate :: "string \<Rightarrow> string \<Rightarrow> int"
  te_types :: "('w, (string \<times> host_app list) list) io"
  te_types_of_alias :: "request \<Rightarrow> string \<Rightarrow> ('w, (int \<times> string) list) io"
  te_visible_types :: "request \<Rightarrow> ('w, string list) io"
  te_visible_apps :: "request \<Rightarrow> ('w, host_app list) io"
  te_fetch :: "string \<Rightarrow> ('w, bool \<times> json res) io"

text \<open>A stable sort by a comparison, and the first comparison that decides.\<close>

fun insert_by :: "('a \<Rightarrow> 'a \<Rightarrow> int) \<Rightarrow> 'a \<Rightarrow> 'a list \<Rightarrow> 'a list" where
  "insert_by cmp x [] = [x]"
| "insert_by cmp x (y # ys) = (if cmp x y \<le> 0 then x # y # ys else y # insert_by cmp x ys)"

definition sort_by :: "('a \<Rightarrow> 'a \<Rightarrow> int) \<Rightarrow> 'a list \<Rightarrow> 'a list" where
  "sort_by cmp xs = foldr (insert_by cmp) xs []"

fun first_difference :: "int list \<Rightarrow> int" where
  "first_difference [] = 0"
| "first_difference (d # ds) = (if d \<noteq> 0 then d else first_difference ds)"

text \<open>Descending orders put an absent revision first.\<close>

definition revision_desc :: "int option \<Rightarrow> int option \<Rightarrow> int" where
  "revision_desc a b =
     (case (a, b) of (None, None) \<Rightarrow> 0 | (None, Some _) \<Rightarrow> -1 | (Some _, None) \<Rightarrow> 1 | (Some m, Some n) \<Rightarrow> n - m)"

definition version_desc :: "os_release \<Rightarrow> os_release \<Rightarrow> int list" where
  "version_desc a b =
     [rl_major b - rl_major a, rl_minor b - rl_minor a, rl_patch b - rl_patch a,
      revision_desc (rl_revision a) (rl_revision b)]"

definition catalog_order :: "'w types_env \<Rightarrow> os_release \<Rightarrow> os_release \<Rightarrow> int" where
  "catalog_order env a b =
     first_difference (version_desc a b @ [te_collate env (rl_variant b) (rl_variant a), os_created b - os_created a])"

definition is_final_row :: "os_release \<Rightarrow> bool" where
  "is_final_row r \<longleftrightarrow> is_final_release (ReleaseVersioning.release_row.truncate r)"

definition with_policy :: "host_app \<Rightarrow> bool" where
  "with_policy app \<longleftrightarrow> ''release-policy'' \<in> set (ha_tags app)"

definition listed_release :: "os_release \<Rightarrow> bool" where
  "listed_release r \<longleftrightarrow> os_status r = ''success'' \<and> is_final_row r \<and> \<not> os_invalidated r \<and>
     rl_major r < ESR_MIN_MAJOR \<and> 0 < rl_major r"

definition device_type_assets :: "os_release \<Rightarrow> release_asset list" where
  "device_type_assets r = filter (\<lambda>ra. ra_key ra = ''device-type.json'') (os_assets r)"

definition latest_listed :: "'w types_env \<Rightarrow> host_app \<Rightarrow> os_release list" where
  "latest_listed env app = take 1 (sort_by (catalog_order env) (filter listed_release (ha_releases app)))"

definition host_apps_of :: "host_app list \<Rightarrow> host_app list" where
  "host_apps_of apps = take 2 (filter (\<lambda>app. ha_host app \<and> \<not> with_policy app) apps)"

section \<open>The list of device types\<close>

definition sortBuildIds :: "'w types_env \<Rightarrow> string list \<Rightarrow> string list" where
  "sortBuildIds env ids = sort_by (\<lambda>a b.
     let d = (if te_prerelease env a then 1 else 0) - (if te_prerelease env b then 1 else 0)
     in if d \<noteq> 0 then d else te_rcompare env a b) ids"

fun getFirstValidBuild :: "'w storage_env \<Rightarrow> string \<Rightarrow> string list \<Rightarrow> ('w, json option) io" where
  "getFirstValidBuild st slug [] = io_return None"
| "getFirstValidBuild st slug (buildId # versions) =
     io_bind (io_catch (getDeviceTypeJson st slug buildId) (\<lambda>_. io_return None)) (\<lambda>deviceType.
       case deviceType of
         Some j \<Rightarrow>
           if truthy (Some j)
           then io_bind (getLogoUrl st slug buildId) (\<lambda>logoUrl.
             case logoUrl of
               None \<Rightarrow> io_return (Some j)
             | Some url \<Rightarrow>
                 if url = [] then io_return (Some j)
                 else io_bind (io_lift (set_field ''logoUrl'' (JStr url) j)) (\<lambda>j'. io_return (Some j')))
           else getFirstValidBuild st slug versions
       | None \<Rightarrow> getFirstValidBuild st slug versions)"

definition getDeviceTypeJsonFromAsset :: "'w types_env \<Rightarrow> string \<Rightarrow> ('w, json) io" where
  "getDeviceTypeJsonFromAsset env href =
     io_bind (te_fetch env href) (\<lambda>(ok, body).
       if ok then io_lift body
       else io_throw (InternalRequestError ''Failed to retrieve device type json from release asset''))"

text \<open>\<^verbatim>\<open>/^hw.device-type\/([\w-]+)$/\<close>\<close>

definition HW_CONTRACT_REGEX :: re where
  "HW_CONTRACT_REGEX =
     RSeqs [RBegin, RLit ''hw'', RClass (\<lambda>c. c \<noteq> CHR 0x0A \<and> c \<noteq> CHR 0x0D), RLit ''device-type/'',
            RGroup 1 (RPlus (RClass (\<lambda>c. is_word_char c \<or> c = CHR ''-''))), REnd]"

definition ALLOWLISTED_DT_SLUGS :: "string list \<Rightarrow> string list" where
  "ALLOWLISTED_DT_SLUGS allowlist =
     List.map_filter (\<lambda>contractPath.
       case re_match HW_CONTRACT_REGEX contractPath of None \<Rightarrow> None | Some groups \<Rightarrow> map_of groups 1) allowlist"

definition device_types_query :: "'w types_env \<Rightarrow> ('w, (string \<times> os_release list) list) io" where
  "device_types_query env =
     io_bind (te_types env) (\<lambda>types.
       let slugs = ALLOWLISTED_DT_SLUGS (te_allowlist env);
           chosen = (if slugs \<noteq> [] then filter (\<lambda>(slug, _). slug \<in> set slugs) types else types)
       in io_return (map (\<lambda>(slug, apps). (slug, concat (map (latest_listed env) (host_apps_of apps)))) chosen))"

text \<open>The release whose file describes a type, with the address of that file.\<close>

definition first_href :: "os_release \<Rightarrow> string option" where
  "first_href r = (case device_type_assets r of [] \<Rightarrow> None | ra # _ \<Rightarrow> ra_href ra)"

definition assetRelease :: "os_release list \<Rightarrow> (os_release \<times> string) option" where
  "assetRelease releases =
     (case List.find (\<lambda>r. first_href r \<noteq> None) releases of
        None \<Rightarrow> None
      | Some r \<Rightarrow> map_option (\<lambda>href. (r, href)) (first_href r))"

definition asset_task ::
  "'w types_env \<Rightarrow> string \<times> os_release \<times> string \<Rightarrow> json obj \<Rightarrow> ('w, json obj option) io"
where
  "asset_task env = (\<lambda>(slug, r, href) result.
     io_catch
       (io_bind (getDeviceTypeJsonFromAsset env href) (\<lambda>deviceTypeJson.
        io_bind (io_lift (set_field ''buildId'' (JStr (raw_version (os_created r) (ReleaseVersioning.release_row.truncate r))) deviceTypeJson))
          (\<lambda>j. io_return (Some (obj_set slug j result)))))
       (\<lambda>_. io_return (Some result)))"

definition storage_task ::
  "nat \<Rightarrow> 'w types_env \<Rightarrow> string \<Rightarrow> json obj \<Rightarrow> ('w, json obj option) io"
where
  "storage_task fuel env slug result =
     io_catch
       (io_bind (listFolders fuel (st_s3 (te_storage env)) (getImageKey (st_prefix (te_storage env)) [slug]) None) (\<lambda>builds.
          case builds of
            None \<Rightarrow> io_return None
          | Some bs \<Rightarrow>
              if bs = [] then io_return (Some result)
              else io_bind (getFirstValidBuild (te_storage env) slug (sortBuildIds env bs)) (\<lambda>latest.
                io_return (Some (case latest of
                    None \<Rightarrow> result
                  | Some j \<Rightarrow> if truthy (Some j) then obj_set slug j result else result)))))
       (\<lambda>_. io_return (Some result))"

fun run_tasks :: "('a \<Rightarrow> 'b \<Rightarrow> ('w, 'b option) io) \<Rightarrow> 'a list \<Rightarrow> 'b \<Rightarrow> ('w, 'b option) io" where
  "run_tasks task [] result = io_return (Some result)"
| "run_tasks task (x # xs) result =
     io_bind (task x result) (\<lambda>r. case r of None \<Rightarrow> io_return None | Some result' \<Rightarrow> run_tasks task xs result')"

text \<open>The key that a value becomes when it names a field.\<close>

fun property_key :: "json \<Rightarrow> string" where
  "property_key (JStr s) = s"
| "property_key (JNum n) = show_int n"
| "property_key (JBool b) = (if b then ''true'' else ''false'')"
| "property_key JNull = ''null''"
| "property_key (JObj _) = ''[object Object]''"
| "property_key (JArr xs) = js_join '','' (map (\<lambda>x. if x = JNull then [] else property_key x) xs)"

text \<open>What \<^verbatim>\<open>for (const alias of dtJson.aliases)\<close> visits; a text is visited by its characters.\<close>

fun visited :: "json \<Rightarrow> string list res" where
  "visited (JArr xs) = Inr (map property_key xs)"
| "visited (JStr s) = Inr (map (\<lambda>c. [c]) s)"
| "visited _ = Inl JsTypeError"

definition alias_names :: "json \<Rightarrow> string list res" where
  "alias_names dtJson =
     (case field_of ''aliases'' dtJson of
        None \<Rightarrow> Inr []
      | Some a \<Rightarrow> if a = JNull then Inr [] else visited a)"

text \<open>The aliases of a type get what its slug has at that time.\<close>

definition set_aliases :: "string \<Rightarrow> string list \<Rightarrow> json obj \<Rightarrow> json obj" where
  "set_aliases slug names result =
     foldl (\<lambda>result alias. case map_of result slug of None \<Rightarrow> result | Some j \<Rightarrow> obj_set alias j result) result names"

fun add_aliases :: "(string \<times> json) list \<Rightarrow> json obj \<Rightarrow> json obj res" where
  "add_aliases [] result = Inr result"
| "add_aliases ((slug, dtJson) # entries) result =
     res_bind (alias_names dtJson) (\<lambda>names. add_aliases entries (set_aliases slug names result))"

definition with_file :: "(string \<times> os_release list) list \<Rightarrow> (string \<times> os_release \<times> string) list" where
  "with_file types = List.map_filter (\<lambda>(slug, rs). map_option (\<lambda>(r, href). (slug, r, href)) (assetRelease rs)) types"

definition without_file :: "(string \<times> os_release list) list \<Rightarrow> string list" where
  "without_file types = map fst (filter (\<lambda>(slug, rs). assetRelease rs = None) types)"

definition getDeviceTypeJsons :: "nat \<Rightarrow> 'w types_env \<Rightarrow> ('w, json obj option) io" where
  "getDeviceTypeJsons fuel env =
     io_bind (device_types_query env) (\<lambda>deviceTypes.
       let dtsWithAssets = with_file deviceTypes; dtsWithoutAssets = without_file deviceTypes
       in io_bind
            (if dtsWithoutAssets \<noteq> []
             then io_bind (listFolders fuel (st_s3 (te_storage env)) (st_prefix (te_storage env)) None) (\<lambda>folders.
               io_return (map_option (\<lambda>fs. filter (\<lambda>slug. slug \<in> set fs) dtsWithoutAssets) folders))
             else io_return (Some dtsWithoutAssets))
            (\<lambda>stored. case stored of
               None \<Rightarrow> io_return None
             | Some slugs \<Rightarrow>
                 io_bind (run_tasks (asset_task env) dtsWithAssets []) (\<lambda>r1. case r1 of
                   None \<Rightarrow> io_return None
                 | Some result1 \<Rightarrow>
                     io_bind (run_tasks (storage_task fuel env) slugs result1) (\<lambda>r2. case r2 of
                       None \<Rightarrow> io_return None
                     | Some result \<Rightarrow>
                         if deviceTypes \<noteq> [] \<and> result = []
                         then io_throw (InternalRequestError ''Could not retrieve any device type'')
                         else io_bind (io_lift (add_aliases result result)) (\<lambda>all. io_return (Some all))))))"

section \<open>Types, images and endpoints\<close>

definition validateSlug :: "string option \<Rightarrow> string res" where
  "validateSlug slug =
     (case slug of
        None \<Rightarrow> Inl (BadRequestError ''Invalid device type'')
      | Some s \<Rightarrow>
          if re_test (RSeqs [RBegin, RPlus (RClass (\<lambda>c. is_word_char c \<or> c = CHR ''-'')), REnd]) s then Inr s
          else Inl (BadRequestError ''Invalid device type''))"

definition getAccessibleDeviceTypeJsons :: "nat \<Rightarrow> 'w types_env \<Rightarrow> request \<Rightarrow> ('w, json list option) io" where
  "getAccessibleDeviceTypeJsons fuel env req =
     io_bind (getDeviceTypeJsons fuel env) (\<lambda>infos.
     io_bind (te_visible_types env req) (\<lambda>slugs.
       io_return (map_option (\<lambda>deviceTypeInfosBySlug.
         filter (\<lambda>j. j \<noteq> JNull) (List.map_filter (map_of deviceTypeInfosBySlug) slugs)) infos)))"

definition getDeviceTypeJsonBySlug :: "nat \<Rightarrow> 'w types_env \<Rightarrow> request \<Rightarrow> string \<Rightarrow> ('w, json option) io" where
  "getDeviceTypeJsonBySlug fuel env req slug =
     io_bind (getDeviceTypeBySlug (te_types_of_alias env) req slug) (\<lambda>(_, resourceSlug).
     io_bind (getDeviceTypeJsons fuel env) (\<lambda>infos.
       case infos of
         None \<Rightarrow> io_return None
       | Some deviceTypeJsons \<Rightarrow>
           (case map_of deviceTypeJsons resourceSlug of
              Some j \<Rightarrow> if j = JNull then io_throw (UnknownDeviceTypeError slug) else io_return (Some j)
            | None \<Rightarrow> io_throw (UnknownDeviceTypeError slug))))"

definition UnknownVersionError :: "string \<Rightarrow> string \<Rightarrow> exn" where
  "UnknownVersionError slug buildId =
     NotFoundError (''Device '' @ slug @ '' not found for '' @ buildId @ '' version'')"

datatype wanted = Latest | Exactly semver

definition wanted_version :: "'w types_env \<Rightarrow> string \<Rightarrow> wanted option" where
  "wanted_version env buildId =
     (if buildId = ''latest'' then Some Latest
      else case te_parse env buildId of
             None \<Rightarrow> None
           | Some v \<Rightarrow> if sv_major v \<ge> ESR_MIN_MAJOR then None else Some (Exactly v))"

definition variant_of :: "semver \<Rightarrow> string" where
  "variant_of v =
     (case List.find (\<lambda>b. b = ''dev'' \<or> b = ''prod'') (sv_build v) of None \<Rightarrow> [] | Some b \<Rightarrow> b)"

fun releaseFilters :: "'w types_env \<Rightarrow> wanted \<Rightarrow> os_release \<Rightarrow> bool" where
  "releaseFilters env Latest r \<longleftrightarrow> \<not> os_invalidated r \<and> rl_major r < ESR_MIN_MAJOR"
| "releaseFilters env (Exactly v) r \<longleftrightarrow>
     rl_major r = sv_major v \<and> rl_minor r = sv_minor v \<and> rl_patch r = sv_patch v \<and>
     rl_prerelease r = js_join ''.'' (sv_prerelease v) \<and>
     rl_build r = js_join ''.'' (filter (\<lambda>b. b \<noteq> variant_of v) (sv_build v)) \<and>
     rl_variant r = variant_of v \<and>
     (rl_revision r = None \<or> rl_revision r = Some (case te_getRevision env v of None \<Rightarrow> 0 | Some n \<Rightarrow> n))"

definition image_order :: "'w types_env \<Rightarrow> os_release \<Rightarrow> os_release \<Rightarrow> int" where
  "image_order env a b =
     first_difference
       ([(if is_final_row b then 1 else 0) - (if is_final_row a then 1 else 0)] @ version_desc a b @
        [te_collate env (rl_prerelease b) (rl_prerelease a), te_collate env (rl_variant b) (rl_variant a),
         os_created b - os_created a])"

definition image_releases :: "'w types_env \<Rightarrow> request \<Rightarrow> int \<Rightarrow> wanted \<Rightarrow> ('w, os_release list) io" where
  "image_releases env req typeId wanted =
     io_bind (te_visible_apps env req) (\<lambda>apps.
       let hosts = filter (\<lambda>app. ha_host app \<and> ha_type app = typeId \<and> \<not> with_policy app) apps;
           releases = filter (\<lambda>r. os_status r = ''success'' \<and> releaseFilters env wanted r) (concat (map ha_releases hosts))
       in io_return (take (if wanted = Latest then 1 else 2) (sort_by (image_order env) releases)))"

definition compressed_assets :: "os_release \<Rightarrow> release_asset list" where
  "compressed_assets r =
     filter (\<lambda>ra. js_startsWith (ra_key ra) ''compressed/'' \<and> js_endsWith (ra_key ra) ''.deflate'') (os_assets r)"

text \<open>An asset without a file, and a file of unknown size, count as nothing.\<close>

definition asset_size :: "release_asset \<Rightarrow> int" where
  "asset_size ra = (if ra_href ra = None then 0 else case ra_size ra of None \<Rightarrow> 0 | Some n \<Rightarrow> n)"

definition storage_build :: "os_release \<Rightarrow> string" where
  "storage_build r =
     (let v = semver_text (ReleaseVersioning.release_row.truncate r)
      in if rl_variant r \<noteq> [] then v @ ''.'' @ rl_variant r else v)"

definition getImageSize :: "nat \<Rightarrow> 'w types_env \<Rightarrow> request \<Rightarrow> string \<Rightarrow> string \<Rightarrow> ('w, int option) io" where
  "getImageSize fuel env req slug buildId =
     io_bind (getDeviceTypeBySlug (te_types_of_alias env) req slug) (\<lambda>(typeId, normalizedSlug).
       case wanted_version env buildId of
         None \<Rightarrow> io_throw (UnknownVersionError slug buildId)
       | Some wanted \<Rightarrow>
           io_bind (image_releases env req typeId wanted) (\<lambda>releases.
             case releases of
               [] \<Rightarrow> io_throw (UnknownVersionError slug buildId)
             | r # others \<Rightarrow>
                 if others \<noteq> []
                 then io_throw (InternalRequestError (''Found more than one OS releases for device-type '' @ slug @
                        '' and version '' @ buildId))
                 else if compressed_assets r = []
                 then io_bind (getDeviceTypeJson (te_storage env) normalizedSlug (storage_build r)) (\<lambda>deviceTypeJson.
                        if \<not> truthy deviceTypeJson then io_throw (UnknownVersionError slug (storage_build r))
                        else getCompressedSize fuel (te_storage env) normalizedSlug (storage_build r))
                 else io_return (Some (foldl (\<lambda>sum ra. sum + asset_size ra) 0 (compressed_assets r)))))"

text \<open>\<open>ReplyFailed\<close> is the status 500 with the translated error.\<close>

datatype types_reply = ReplyTypes "json list" | ReplyType json | ReplySize int | ReplyHttpError exn | ReplyFailed exn

definition types_error :: "exn \<Rightarrow> ('w, types_reply option) io" where
  "types_error err = io_return (Some (if is_http_error err then ReplyHttpError err else ReplyFailed err))"

definition getDeviceTypes :: "nat \<Rightarrow> 'w types_env \<Rightarrow> request \<Rightarrow> ('w, types_reply option) io" where
  "getDeviceTypes fuel env req =
     io_catch (io_bind (getAccessibleDeviceTypeJsons fuel env req) (\<lambda>js. io_return (map_option ReplyTypes js))) types_error"

definition getDeviceType :: "nat \<Rightarrow> 'w types_env \<Rightarrow> request \<Rightarrow> string option \<Rightarrow> ('w, types_reply option) io" where
  "getDeviceType fuel env req deviceType =
     io_catch
       (io_bind (io_lift (validateSlug deviceType)) (\<lambda>slug.
        io_bind (getDeviceTypeJsonBySlug fuel env req slug) (\<lambda>j. io_return (map_option ReplyType j))))
       types_error"

definition downloadImageSize ::
  "nat \<Rightarrow> 'w types_env \<Rightarrow> request \<Rightarrow> string option \<Rightarrow> string option \<Rightarrow> ('w, types_reply option) io"
where
  "downloadImageSize fuel env req deviceType version =
     io_catch
       (io_bind (io_lift (validateSlug deviceType)) (\<lambda>slug.
        io_bind (getImageSize fuel env req slug (case version of Some v \<Rightarrow> if v = [] then ''latest'' else v | None \<Rightarrow> ''latest''))
          (\<lambda>size. io_return (map_option ReplySize size))))
       types_error"

text \<open>The hooks after a change; \<open>forget\<close> drops the memoized list.\<close>

definition device_type_created :: "('w \<Rightarrow> 'w) \<Rightarrow> json \<Rightarrow> ('w, unit) io" where
  "device_type_created forget result = (\<lambda>w. (Inr (), case result of JNum _ \<Rightarrow> forget w | _ \<Rightarrow> w))"

definition host_app_created :: "('w \<Rightarrow> 'w) \<Rightarrow> json obj \<Rightarrow> ('w, unit) io" where
  "host_app_created forget body = (\<lambda>w. (Inr (), if truthy (map_of body ''is_host'') then forget w else w))"

definition host_apps_marked :: "('w \<Rightarrow> 'w) \<Rightarrow> json obj \<Rightarrow> int list \<Rightarrow> ('w, unit) io" where
  "host_apps_marked forget body affectedIds =
     (\<lambda>w. (Inr (), if truthy (map_of body ''is_host'') \<and> affectedIds \<noteq> [] then forget w else w))"

section \<open>What the list holds\<close>

text \<open>
  The reference: what a type is answered with, read off the answers of the services in one world.  A type
  with a published file has the content of that file, any other the first of its builds in the order of
  versions that can be read.
\<close>

definition build_answer :: "'w storage_env \<Rightarrow> 'w \<Rightarrow> string \<Rightarrow> string \<Rightarrow> json option" where
  "build_answer st w slug b =
     (case fst (getDeviceTypeJson st slug b w) of
        Inr (Some j) \<Rightarrow>
          if truthy (Some j)
          then (case fst (getLogoUrl st slug b w) of
                  Inr (Some url) \<Rightarrow>
                    if url = [] then Some j
                    else (case set_field ''logoUrl'' (JStr url) j of Inr j' \<Rightarrow> Some j' | Inl _ \<Rightarrow> None)
                | _ \<Rightarrow> Some j)
          else None
      | _ \<Rightarrow> None)"

definition stored_answer :: "nat \<Rightarrow> 'w types_env \<Rightarrow> 'w \<Rightarrow> string \<Rightarrow> json option" where
  "stored_answer fuel env w slug =
     (case fst (listFolders fuel (st_s3 (te_storage env)) (getImageKey (st_prefix (te_storage env)) [slug]) None w) of
        Inr (Some builds) \<Rightarrow> first_some (map (build_answer (te_storage env) w slug) (sortBuildIds env builds))
      | _ \<Rightarrow> None)"

definition asset_answer :: "'w types_env \<Rightarrow> 'w \<Rightarrow> os_release \<Rightarrow> string \<Rightarrow> json option" where
  "asset_answer env w r href =
     (case fst (te_fetch env href w) of
        Inr (True, Inr j) \<Rightarrow>
          (case set_field ''buildId'' (JStr (raw_version (os_created r) (ReleaseVersioning.release_row.truncate r))) j of
             Inr j' \<Rightarrow> Some j' | Inl _ \<Rightarrow> None)
      | _ \<Rightarrow> None)"

definition type_answer :: "nat \<Rightarrow> 'w types_env \<Rightarrow> 'w \<Rightarrow> string list \<Rightarrow> string \<times> os_release list \<Rightarrow> json option" where
  "type_answer fuel env w folders = (\<lambda>(slug, rs).
     (case assetRelease rs of
        Some (r, href) \<Rightarrow> asset_answer env w r href
      | None \<Rightarrow> if slug \<in> set folders then stored_answer fuel env w slug else None))"

lemma sortBuildIds_Nil: "sortBuildIds env [] = []"
  by (simp add: sortBuildIds_def sort_by_def)

lemma build_answer_truthy: "build_answer st w slug b = Some j \<Longrightarrow> truthy (Some j)"
  by (auto simp: build_answer_def split: sum.splits option.splits if_splits dest!: set_field_shape)

text \<open>Tasks that succeed one after the other, each adding at most one new entry.\<close>

lemma run_tasks_all:
  assumes "\<And>x res. x \<in> set xs \<Longrightarrow> task x res w = (Inr (Some (g x res)), w)"
  shows "run_tasks task xs result w = (Inr (Some (foldl (\<lambda>res x. g x res) result xs)), w)"
  using assms by (induction xs arbitrary: result) (simp_all add: io_simps)

lemma obj_set_new: "k \<notin> fst ` set o' \<Longrightarrow> obj_set k v o' = o' @ [(k, v)]"
  by (induction o') auto

lemma entries_added:
  assumes "distinct (map fst result @ map key xs)"
  shows "foldl (\<lambda>res x. case answer x of None \<Rightarrow> res | Some j \<Rightarrow> obj_set (key x) j res) result xs =
     result @ List.map_filter (\<lambda>x. map_option (Pair (key x)) (answer x)) xs"
  using assms
proof (induction xs arbitrary: result)
  case Nil
  then show ?case by (simp add: List.map_filter_simps)
next
  case (Cons x xs)
  show ?case
  proof (cases "answer x")
    case None
    with Cons show ?thesis by (simp add: List.map_filter_simps)
  next
    case (Some j)
    with Cons.prems Cons.IH [of "result @ [(key x, j)]"] show ?thesis
      by (auto simp: List.map_filter_simps obj_set_new)
  qed
qed

text \<open>The loop over the aliases.\<close>

lemma map_of_set_aliases:
  "map_of result slug = Some j \<Longrightarrow>
   map_of (set_aliases slug names result) = (\<lambda>n. if n \<in> set names then Some j else map_of result n)"
proof (induction names arbitrary: result)
  case Nil
  then show ?case by (simp add: set_aliases_def)
next
  case (Cons a names)
  then have "map_of (obj_set a j result) slug = Some j" by simp
  from Cons.IH [OF this] Cons.prems show ?case by (auto simp: set_aliases_def fun_eq_iff)
qed

definition aliases :: "json \<Rightarrow> string set" where
  "aliases j = (case alias_names j of Inr names \<Rightarrow> set names | Inl _ \<Rightarrow> {})"

lemma add_aliases_result:
  assumes "\<And>s j s' j' n. (s, j) \<in> set base \<Longrightarrow> (s', j') \<in> set base \<Longrightarrow>
      n \<in> insert s (aliases j) \<Longrightarrow> n \<in> insert s' (aliases j') \<Longrightarrow> s = s' \<and> j = j'"
    and "set entries \<subseteq> set base" and "set E \<subseteq> set base"
    and "\<And>n j. map_of result n = Some j \<longleftrightarrow> (\<exists>s. (s, j) \<in> set base \<and> (n = s \<or> (s, j) \<in> set E \<and> n \<in> aliases j))"
    and "add_aliases entries result = Inr all"
  shows "map_of all n = Some j \<longleftrightarrow>
    (\<exists>s. (s, j) \<in> set base \<and> (n = s \<or> (s, j) \<in> set (entries @ E) \<and> n \<in> aliases j))"
  using assms(2-)
proof (induction entries arbitrary: result E)
  case Nil
  then show ?case by simp
next
  case (Cons e entries)
  obtain s0 j0 where e: "e = (s0, j0)" by (cases e)
  obtain names where names: "alias_names j0 = Inr names"
    "add_aliases entries (set_aliases s0 names result) = Inr all"
    using Cons.prems(4) e by (auto simp: res_bind_Inr_iff)
  have in_base: "(s0, j0) \<in> set base" using Cons.prems(1) e by simp
  then have "map_of result s0 = Some j0" using Cons.prems(3) by blast
  note put = map_of_set_aliases [OF this, of names]
  have al: "aliases j0 = set names" by (simp add: aliases_def names)
  have step: "map_of (set_aliases s0 names result) n = Some j \<longleftrightarrow>
      (\<exists>s. (s, j) \<in> set base \<and> (n = s \<or> (s, j) \<in> set (e # E) \<and> n \<in> aliases j))" for n j
  proof (cases "n \<in> set names")
    case True
    have "j = j0" if "(s, j) \<in> set base" "n = s \<or> n \<in> aliases j" for s
      using assms(1) [OF in_base that(1), of n] True al that(2) by auto
    then show ?thesis using True put al e in_base by auto
  next
    case False
    then show ?thesis using put Cons.prems(3) [of n j] al e by auto
  qed
  have "set entries \<subseteq> set base" "set (e # E) \<subseteq> set base" using Cons.prems(1,2) by auto
  from Cons.IH [OF this step names(2)] show ?case by auto
qed

lemma add_aliases_fails: "add_aliases entries result = Inl e \<Longrightarrow> \<exists>(s, j) \<in> set entries. \<exists>e. alias_names j = Inl e"
  by (induction entries arbitrary: result) (fastforce simp: res_bind_Inl_iff)+

text \<open>No name, slug or alias, belongs to two types that are answered.\<close>

definition own_names ::
  "nat \<Rightarrow> 'w types_env \<Rightarrow> 'w \<Rightarrow> string list \<Rightarrow> (string \<times> os_release list) list \<Rightarrow> bool"
where
  "own_names fuel env w folders types \<longleftrightarrow>
     (\<forall>t1 \<in> set types. \<forall>t2 \<in> set types.
        case (type_answer fuel env w folders t1, type_answer fuel env w folders t2) of
          (Some j1, Some j2) \<Rightarrow> t1 = t2 \<or> insert (fst t1) (aliases j1) \<inter> insert (fst t2) (aliases j2) = {}
        | _ \<Rightarrow> True)"

lemma own_namesD:
  assumes "own_names fuel env w folders types" "t1 \<in> set types" "t2 \<in> set types"
    and "type_answer fuel env w folders t1 = Some j1" "type_answer fuel env w folders t2 = Some j2"
    and "n \<in> insert (fst t1) (aliases j1)" "n \<in> insert (fst t2) (aliases j2)"
  shows "t1 = t2 \<and> j1 = j2"
  using assms unfolding own_names_def by (fastforce split: option.splits)

lemma map_filter_keys:
  assumes "distinct (map f xs)"
  shows "distinct (map fst (List.map_filter (\<lambda>x. map_option (Pair (f x)) (g x)) xs))"
    and "set (map fst (List.map_filter (\<lambda>x. map_option (Pair (f x)) (g x)) xs)) \<subseteq> f ` set xs"
  using assms by (induction xs) (auto simp: List.map_filter_simps image_iff split: option.splits)

lemma in_map_filter_keys:
  "(a, b) \<in> set (List.map_filter (\<lambda>x. map_option (Pair (f x)) (g x)) xs) \<longleftrightarrow> (\<exists>x \<in> set xs. f x = a \<and> g x = Some b)"
  by (auto simp: set_map_filter)

lemma in_with_file:
  "(slug, r, href) \<in> set (with_file types) \<longleftrightarrow> (\<exists>rs. (slug, rs) \<in> set types \<and> assetRelease rs = Some (r, href))"
  by (force simp: with_file_def set_map_filter)

lemma in_without_file: "slug \<in> set (without_file types) \<longleftrightarrow> (\<exists>rs. (slug, rs) \<in> set types \<and> assetRelease rs = None)"
  by (force simp: without_file_def)

lemma with_file_slugs:
  assumes "distinct (map fst types)"
  shows "distinct (map fst (with_file types) @ without_file types)"
proof -
  have "map fst (with_file types) = map fst (filter (\<lambda>(slug, rs). assetRelease rs \<noteq> None) types)"
    by (induction types) (auto simp: with_file_def List.map_filter_simps split: option.splits)
  moreover have "b = b'" if "(a, b) \<in> set types" "(a, b') \<in> set types" for a b b'
    using eq_key_imp_eq_value [OF assms that] .
  ultimately show ?thesis
    using assms by (fastforce simp: without_file_def distinct_map_filter)
qed

text \<open>The services are read only: an answer leaves them as they were.\<close>

locale type_services =
  fixes env :: "'w types_env" and listing :: "'w \<Rightarrow> string \<Rightarrow> string option \<Rightarrow> s3_entry list"
    and position :: "string \<Rightarrow> nat"
  assumes bucket: "image_bucket (st_s3 (te_storage env)) listing position"
    and types_keep: "keeps (\<lambda>w. w) (te_types env)"
    and fetch_keep: "keeps (\<lambda>w. w) (te_fetch env href)"

sublocale type_services \<subseteq> image_bucket "st_s3 (te_storage env)" listing position
  by (rule bucket)

context type_services
begin

lemma getDeviceTypeJson_keeps: "keeps (\<lambda>w. w) (getDeviceTypeJson (te_storage env) slug b)"
  unfolding getDeviceTypeJson_def
  by (auto simp: fileExists_keeps getFile_keeps split: option.split intro!: keeps_bind)

lemma getLogoUrl_run: "\<exists>url. getLogoUrl (te_storage env) slug b w = (Inr url, w)"
proof -
  have "keeps (\<lambda>w. w) (getLogoUrl (te_storage env) slug b)"
    unfolding getLogoUrl_def encoded_logo_path_def Let_def
    by (auto simp: fileExists_keeps split: option.split intro!: keeps_bind keeps_catch)
  then show ?thesis using getLogoUrl_settles [of "te_storage env" slug b w] by (metis keepsD)
qed

lemma first_valid_run:
  "getFirstValidBuild (te_storage env) slug bs w =
     (Inr (first_some (map (build_answer (te_storage env) w slug) bs)), w)"
proof (induction bs)
  case Nil
  then show ?case by (simp add: io_return_def)
next
  case (Cons b bs)
  obtain r where run: "getDeviceTypeJson (te_storage env) slug b w = (r, w)"
    using keepsD [OF getDeviceTypeJson_keeps] by (metis surj_pair)
  obtain url where url: "getLogoUrl (te_storage env) slug b w = (Inr url, w)"
    using getLogoUrl_run by blast
  show ?case
  proof (cases "\<exists>j. r = Inr (Some j) \<and> truthy (Some j)")
    case True
    then obtain j where j: "r = Inr (Some j)" "truthy (Some j)" by blast
    with run getDeviceTypeJson_shape [of "te_storage env" slug b w j w] obtain j' where
      j': "\<And>v. set_field ''logoUrl'' v j \<noteq> Inl JsTypeError" "\<And>v e. set_field ''logoUrl'' v j \<noteq> Inl e" by auto
    show ?thesis
      using run url j j'(2)
      by (auto simp: build_answer_def io_simps split: option.split sum.split)
  next
    case False
    with run have none: "build_answer (te_storage env) w slug b = None"
      by (auto simp: build_answer_def split: sum.split option.split)
    from False run Cons.IH none show ?thesis
      by (auto simp: io_simps split: sum.split option.split)
  qed
qed

lemma asset_task_run:
  "asset_task env (slug, r, href) result w =
     (Inr (Some (case asset_answer env w r href of None \<Rightarrow> result | Some j \<Rightarrow> obj_set slug j result)), w)"
proof -
  obtain a where run: "te_fetch env href w = (a, w)"
    using keepsD [OF fetch_keep] by (metis surj_pair)
  then show ?thesis
    by (auto simp: asset_task_def asset_answer_def getDeviceTypeJsonFromAsset_def io_simps
        split: sum.split option.split)
qed

lemma storage_task_run:
  assumes fuel: "\<And>p d. length (listing w p d) < fuel"
  shows "storage_task fuel env slug result w =
     (Inr (Some (case stored_answer fuel env w slug of None \<Rightarrow> result | Some j \<Rightarrow> obj_set slug j result)), w)"
proof -
  let ?run = "listFolders fuel (st_s3 (te_storage env)) (getImageKey (st_prefix (te_storage env)) [slug]) None w"
  obtain r w1 where run: "?run = (r, w1)" by fastforce
  have "w1 = w" and some: "\<And>v. r = Inr v \<Longrightarrow> \<exists>bs. v = Some bs"
    using listFolders_total [OF _ run] fuel by auto
  show ?thesis
  proof (cases r)
    case (Inl e)
    then show ?thesis using run \<open>w1 = w\<close> by (simp add: storage_task_def stored_answer_def io_simps)
  next
    case (Inr v)
    then obtain bs where bs: "r = Inr (Some bs)" using some by blast
    have "truthy (Some j)" if "first_some (map (build_answer (te_storage env) w slug) (sortBuildIds env bs)) = Some j" for j
      using first_some_in [OF that] by (auto dest!: sym [of "Some j"] simp: build_answer_truthy)
    then show ?thesis
      using run \<open>w1 = w\<close> bs
      by (auto simp: storage_task_def stored_answer_def io_simps first_valid_run sortBuildIds_Nil split: option.split)
  qed
qed

lemma catalog_run:
  assumes fuel: "\<And>p d. length (listing w p d) < fuel"
    and query: "device_types_query env w = (Inr types, w)" and slugs: "distinct (map fst types)"
    and folders: "listFolders fuel (st_s3 (te_storage env)) (st_prefix (te_storage env)) None w = (Inr (Some folders), w)"
  shows "\<exists>base. distinct (map fst base) \<and>
      set base = {(slug, j). \<exists>rs. (slug, rs) \<in> set types \<and> type_answer fuel env w folders (slug, rs) = Some j} \<and>
      getDeviceTypeJsons fuel env w =
        (if types \<noteq> [] \<and> base = [] then Inl (InternalRequestError ''Could not retrieve any device type'')
         else res_bind (add_aliases base base) (\<lambda>all. Inr (Some all)), w)"
proof -
  define kept where "kept = filter (\<lambda>slug. slug \<in> set folders) (without_file types)"
  define assets where "assets = List.map_filter
    (\<lambda>x. map_option (Pair (fst x)) (case x of (_, r, href) \<Rightarrow> asset_answer env w r href)) (with_file types)"
  define stored where "stored = List.map_filter (\<lambda>slug. map_option (Pair slug) (stored_answer fuel env w slug)) kept"
  have apart: "distinct (map fst (with_file types) @ kept)"
    using with_file_slugs [OF slugs] by (auto simp: kept_def)
  have stored_fst: "set (map fst stored) \<subseteq> set kept" "distinct (map fst stored)"
    using apart map_filter_keys [of "\<lambda>x. x" kept "stored_answer fuel env w"] by (simp_all add: stored_def)
  have assets_fst: "set (map fst assets) \<subseteq> set (map fst (with_file types))" "distinct (map fst assets)"
    using apart map_filter_keys [of fst "with_file types" "\<lambda>(_, r, href). asset_answer env w r href"]
    by (simp_all add: assets_def)
  have "run_tasks (asset_task env) (with_file types) [] w =
      (Inr (Some (foldl (\<lambda>res x. case (case x of (_, r, href) \<Rightarrow> asset_answer env w r href) of
         None \<Rightarrow> res | Some j \<Rightarrow> obj_set (fst x) j res) [] (with_file types))), w)"
    by (rule run_tasks_all) (auto simp: asset_task_run split: option.split)
  also have "\<dots> = (Inr (Some assets), w)"
    using apart by (subst entries_added) (auto simp: assets_def)
  finally have run1: "run_tasks (asset_task env) (with_file types) [] w = (Inr (Some assets), w)" .
  have "run_tasks (storage_task fuel env) kept assets w =
      (Inr (Some (foldl (\<lambda>res slug. case stored_answer fuel env w slug of
         None \<Rightarrow> res | Some j \<Rightarrow> obj_set slug j res) assets kept)), w)"
    by (rule run_tasks_all) (simp add: storage_task_run [OF fuel])
  also have "\<dots> = (Inr (Some (assets @ stored)), w)"
    using apart assets_fst by (subst entries_added) (auto simp: stored_def)
  finally have run2: "run_tasks (storage_task fuel env) kept assets w = (Inr (Some (assets @ stored)), w)" .
  have set: "set (assets @ stored) =
      {(slug, j). \<exists>rs. (slug, rs) \<in> set types \<and> type_answer fuel env w folders (slug, rs) = Some j}"
  proof (rule set_eqI, clarify)
    fix slug j
    have a: "(slug, j) \<in> set assets \<longleftrightarrow> (\<exists>rs r href. (slug, rs) \<in> set types \<and> assetRelease rs = Some (r, href) \<and>
        asset_answer env w r href = Some j)"
      unfolding assets_def in_map_filter_keys Bex_def split_paired_Ex in_with_file by auto
    have b: "(slug, j) \<in> set stored \<longleftrightarrow> (\<exists>rs. (slug, rs) \<in> set types \<and> assetRelease rs = None \<and>
        slug \<in> set folders \<and> stored_answer fuel env w slug = Some j)"
      unfolding stored_def kept_def in_map_filter_keys by (auto simp: in_without_file)
    have c: "type_answer fuel env w folders (slug, rs) = Some j \<longleftrightarrow>
        (\<exists>r href. assetRelease rs = Some (r, href) \<and> asset_answer env w r href = Some j) \<or>
        (assetRelease rs = None \<and> slug \<in> set folders \<and> stored_answer fuel env w slug = Some j)" for rs
      by (auto simp: type_answer_def split: option.split)
    show "(slug, j) \<in> set (assets @ stored) \<longleftrightarrow> (slug, j) \<in> {(slug, j).
        \<exists>rs. (slug, rs) \<in> set types \<and> type_answer fuel env w folders (slug, rs) = Some j}"
      unfolding set_append Un_iff a b c mem_Collect_eq prod.case by blast
  qed
  have run: "getDeviceTypeJsons fuel env w =
        (if types \<noteq> [] \<and> assets @ stored = [] then Inl (InternalRequestError ''Could not retrieve any device type'')
         else res_bind (add_aliases (assets @ stored) (assets @ stored)) (\<lambda>all. Inr (Some all)), w)"
  proof (cases "without_file types = []")
    case True
    then have "kept = []" by (simp add: kept_def)
    with True run1 run2 query show ?thesis
      by (simp add: getDeviceTypeJsons_def io_bind_run io_return_def io_throw_def io_lift_def)
        (auto simp: io_simps split: sum.split)
  next
    case False
    with run1 run2 query folders show ?thesis
      by (simp add: getDeviceTypeJsons_def io_bind_run io_return_def io_throw_def io_lift_def kept_def)
        (auto simp: io_simps split: sum.split)
  qed
  from apart stored_fst assets_fst have "distinct (map fst (assets @ stored))" by auto
  with set run show ?thesis by blast
qed

end

text \<open>
  Claim C13. Unless it fails, the list of device types holds, under the slug of a type and under each of its
  aliases, exactly what the type is answered with: the content of its published file, or else the first of
  its builds, in the order of versions, that can be read.  It fails only when no type at all is answered or
  a type has aliases that are not a list; a type or a build that cannot be read takes no other type from the
  list.  (No two types share a name, reading leaves the services as they are, and the fuel exceeds the
  length of every listing.)
\<close>

theorem device_types_listed:
  assumes "type_services env listing position" and "\<And>p d. length (listing w p d) < fuel"
    and "device_types_query env w = (Inr types, w)" and "distinct (map fst types)"
    and "listFolders fuel (st_s3 (te_storage env)) (st_prefix (te_storage env)) None w = (Inr (Some folders), w)"
    and "own_names fuel env w folders types"
    and "getDeviceTypeJsons fuel env w = (r, w')"
  shows "w' = w \<and> r \<noteq> Inr None \<and>
    (\<forall>result n j. r = Inr (Some result) \<longrightarrow> (map_of result n = Some j \<longleftrightarrow>
       (\<exists>t \<in> set types. type_answer fuel env w folders t = Some j \<and> (n = fst t \<or> n \<in> aliases j)))) \<and>
    (\<forall>e. r = Inl e \<longrightarrow> (types \<noteq> [] \<and> (\<forall>t \<in> set types. type_answer fuel env w folders t = None)) \<or>
       (\<exists>t \<in> set types. \<exists>j. type_answer fuel env w folders t = Some j \<and> (\<exists>e. alias_names j = Inl e)))"
proof -
  obtain base where base: "distinct (map fst base)"
    "set base = {(slug, j). \<exists>rs. (slug, rs) \<in> set types \<and> type_answer fuel env w folders (slug, rs) = Some j}"
    and run: "getDeviceTypeJsons fuel env w =
        (if types \<noteq> [] \<and> base = [] then Inl (InternalRequestError ''Could not retrieve any device type'')
         else res_bind (add_aliases base base) (\<lambda>all. Inr (Some all)), w)"
    using type_services.catalog_run [OF assms(1-5)] by blast
  have answered: "(s, j) \<in> set base \<longleftrightarrow> (\<exists>t \<in> set types. type_answer fuel env w folders t = Some j \<and> fst t = s)" for s j
    by (auto simp: base(2))
  have single: "s = s' \<and> j = j'" if "(s, j) \<in> set base" "(s', j') \<in> set base"
    "n \<in> insert s (aliases j)" "n \<in> insert s' (aliases j')" for s j s' j' n
    using that own_namesD [OF assms(6)] unfolding answered by blast
  have result: "map_of all n = Some j \<longleftrightarrow> (\<exists>s. (s, j) \<in> set base \<and> (n = s \<or> n \<in> aliases j))"
    if "add_aliases base base = Inr all" for all n j
  proof -
    have "map_of base n = Some j \<longleftrightarrow> (\<exists>s. (s, j) \<in> set base \<and> (n = s \<or> (s, j) \<in> set [] \<and> n \<in> aliases j))" for n j
      using base(1) by simp
    from add_aliases_result [OF single subset_refl _ this that] show ?thesis by auto
  qed
  have failed: "\<exists>t \<in> set types. \<exists>j. type_answer fuel env w folders t = Some j \<and> (\<exists>e. alias_names j = Inl e)"
    if "add_aliases base base = Inl e" for e
    using add_aliases_fails [OF that] answered by blast
  have none: "type_answer fuel env w folders t = None" if "base = []" "t \<in> set types" for t
    using answered [of "fst t"] that by (cases "type_answer fuel env w folders t") auto
  have "w' = w" and r: "r = (if types \<noteq> [] \<and> base = [] then Inl (InternalRequestError ''Could not retrieve any device type'')
      else res_bind (add_aliases base base) (\<lambda>all. Inr (Some all)))"
    using assms(7) run by auto
  moreover have "map_of all n = Some j \<longleftrightarrow>
      (\<exists>t \<in> set types. type_answer fuel env w folders t = Some j \<and> (n = fst t \<or> n \<in> aliases j))"
    if "r = Inr (Some all)" for all n j
    using result [of all n j] that r answered by (auto simp: res_bind_Inr_iff split: if_splits)
  moreover have "(types \<noteq> [] \<and> (\<forall>t \<in> set types. type_answer fuel env w folders t = None)) \<or>
       (\<exists>t \<in> set types. \<exists>j. type_answer fuel env w folders t = Some j \<and> (\<exists>e. alias_names j = Inl e))"
    if "r = Inl e" for e
    using that r none failed by (auto simp: res_bind_Inl_iff split: if_splits)
  moreover have "r \<noteq> Inr None" using r by (auto simp: res_bind_Inr_iff)
  ultimately show ?thesis by blast
qed

text \<open>
  In an order of versions that is total, the build a type is answered with is not behind any build that
  can be read.
\<close>

lemma insert_by_sorted:
  assumes "\<And>a b c. cmp a b \<le> 0 \<Longrightarrow> cmp b c \<le> 0 \<Longrightarrow> cmp a c \<le> (0 :: int)"
    and "\<And>a b. cmp a b \<le> 0 \<or> cmp b a \<le> 0"
    and "sorted_wrt (\<lambda>a b. cmp a b \<le> 0) ys"
  shows "set (insert_by cmp x ys) = insert x (set ys) \<and> sorted_wrt (\<lambda>a b. cmp a b \<le> 0) (insert_by cmp x ys)"
  using assms(3)
proof (induction ys)
  case Nil
  then show ?case by simp
next
  case (Cons y ys)
  show ?case
  proof (cases "cmp x y \<le> 0")
    case True
    then have "\<forall>z \<in> set ys. cmp x z \<le> 0" using Cons.prems assms(1) [OF True] by simp
    with True Cons.prems show ?thesis by simp
  next
    case False
    then have "cmp y x \<le> 0" using assms(2) [of x y] by simp
    moreover have "set (insert_by cmp x ys) = insert x (set ys)"
      "sorted_wrt (\<lambda>a b. cmp a b \<le> 0) (insert_by cmp x ys)"
      using Cons.IH Cons.prems by simp_all
    ultimately show ?thesis using False Cons.prems by auto
  qed
qed

lemma sort_by_sorted:
  assumes "\<And>a b c. cmp a b \<le> 0 \<Longrightarrow> cmp b c \<le> 0 \<Longrightarrow> cmp a c \<le> (0 :: int)"
    and "\<And>a b. cmp a b \<le> 0 \<or> cmp b a \<le> 0"
  shows "set (sort_by cmp xs) = set xs \<and> sorted_wrt (\<lambda>a b. cmp a b \<le> 0) (sort_by cmp xs)"
proof (induction xs)
  case Nil
  then show ?case by (simp add: sort_by_def)
next
  case (Cons x xs)
  then show ?case
    using insert_by_sorted [of cmp "sort_by cmp xs" x, OF assms] by (simp add: sort_by_def)
qed

lemma first_some_best:
  assumes "sorted_wrt R xs" and "\<And>x. R x x" and "first_some (map f xs) = Some y"
  shows "\<exists>x \<in> set xs. f x = Some y \<and> (\<forall>x' \<in> set xs. f x' \<noteq> None \<longrightarrow> R x x')"
  using assms by (induction xs) (auto simp: first_some_Cons split: option.splits)

lemma answered_build_is_latest:
  fixes env :: "'w types_env"
  defines "cmp \<equiv> \<lambda>a b. let d = (if te_prerelease env a then 1 else 0) - (if te_prerelease env b then 1 else 0)
     in if d \<noteq> 0 then d else te_rcompare env a b"
  assumes "\<And>a b c. cmp a b \<le> 0 \<Longrightarrow> cmp b c \<le> 0 \<Longrightarrow> cmp a c \<le> 0"
    and "\<And>a b. cmp a b \<le> 0 \<or> cmp b a \<le> 0"
    and "stored_answer fuel env w slug = Some j"
  shows "\<exists>builds. fst (listFolders fuel (st_s3 (te_storage env)) (getImageKey (st_prefix (te_storage env)) [slug]) None w)
      = Inr (Some builds) \<and> (\<exists>b \<in> set builds. build_answer (te_storage env) w slug b = Some j \<and>
        (\<forall>b' \<in> set builds. build_answer (te_storage env) w slug b' \<noteq> None \<longrightarrow> cmp b b' \<le> 0))"
proof -
  obtain builds where b: "fst (listFolders fuel (st_s3 (te_storage env)) (getImageKey (st_prefix (te_storage env)) [slug]) None w)
      = Inr (Some builds)"
    "first_some (map (build_answer (te_storage env) w slug) (sortBuildIds env builds)) = Some j"
    using assms(4) by (auto simp: stored_answer_def split: sum.splits option.splits)
  have "sortBuildIds env builds = sort_by cmp builds" by (simp add: sortBuildIds_def cmp_def)
  with sort_by_sorted [of cmp builds, OF assms(2,3)]
  have "set (sortBuildIds env builds) = set builds"
    "sorted_wrt (\<lambda>a b. cmp a b \<le> 0) (sortBuildIds env builds)" by auto
  moreover have "cmp a a \<le> 0" for a using assms(3) [of a a] by blast
  ultimately have "\<exists>b \<in> set builds. build_answer (te_storage env) w slug b = Some j \<and>
      (\<forall>b' \<in> set builds. build_answer (te_storage env) w slug b' \<noteq> None \<longrightarrow> cmp b b' \<le> 0)"
    using first_some_best [of "\<lambda>a b. cmp a b \<le> 0", OF _ _ b(2)] by simp
  with b(1) show ?thesis by blast
qed

section \<open>A list in memory\<close>

text \<open>
  One type with a published file, one with builds in storage of which the latest cannot be read, and one
  whose only build is broken.
\<close>

definition demo_os_release :: os_release where
  "demo_os_release =
     \<lparr>rl_app = 1, rl_major = 5, rl_minor = 1, rl_patch = 0, rl_prerelease = [], rl_build = [], rl_variant = [],
      rl_revision = Some 0, rl_finalized = Some 1, os_status = ''success'', os_invalidated = False, os_created = 1,
      os_assets = [\<lparr>ra_key = ''device-type.json'', ra_href = Some ''http://f/1'', ra_size = Some 3\<rparr>]\<rparr>"

definition demo_types_env :: "(string \<times> string) list types_env" where
  "demo_types_env =
     \<lparr>te_storage = demo_storage, te_allowlist = [], te_prerelease = (\<lambda>v. CHR ''-'' \<in> set v),
      te_rcompare = (\<lambda>a b. of_char (hd b) - of_char (hd a)),
      te_parse = (\<lambda>_. None), te_getRevision = (\<lambda>_. None), te_collate = (\<lambda>a b. int (length a) - int (length b)),
      te_types = io_return [(''nuc'', [\<lparr>ha_type = 1, ha_host = True, ha_tags = [], ha_releases = [demo_os_release]\<rparr>]),
                            (''pi'', []), (''bad'', [])],
      te_types_of_alias = (\<lambda>req alias. io_return []), te_visible_types = (\<lambda>req. io_return [''nuc'', ''pi'']),
      te_visible_apps = (\<lambda>req. io_return []),
      te_fetch = (\<lambda>href. io_return (True, Inr (JObj [(''aliases'', JArr [JStr ''intel-nuc''])])))\<rparr>"

definition demo_type_files :: "(string \<times> string) list" where
  "demo_type_files =
     [(''images/pi/1.0.0/device-type.json'', ''raspberry''), (''images/pi/2.0.0/device-type.json'', ''broken''),
      (''images/bad/1.0.0/device-type.json'', ''broken'')]"

interpretation demo_types: type_services demo_types_env mem_listing length
  by (rule type_services.intro)
    (simp_all add: demo_types_env_def demo_storage_def mem_bucket.image_bucket_axioms)

definition demo_listed :: "(string \<times> os_release list) list" where
  "demo_listed = [(''nuc'', [demo_os_release]), (''pi'', []), (''bad'', [])]"

theorem device_types_listed_witness:
  "\<exists>result. getDeviceTypeJsons 9 demo_types_env demo_type_files = (Inr (Some result), demo_type_files) \<and>
     (\<exists>j. map_of result ''intel-nuc'' = Some j \<and> map_of result ''nuc'' = Some j) \<and>
     map_of result ''pi'' \<noteq> None \<and> (\<forall>j. map_of result ''bad'' \<noteq> Some j)"
proof -
  have fuel: "length (mem_listing demo_type_files p d) < 9" for p d
    using length_filter_le [of "\<lambda>(k, _). js_startsWith k p" demo_type_files]
    by (auto simp: mem_listing_def demo_type_files_def intro!: le_less_trans [OF length_remdups_leq])
  have query: "device_types_query demo_types_env demo_type_files = (Inr demo_listed, demo_type_files)"
    by code_simp
  have slugs: "distinct (map fst demo_listed)" by (simp add: demo_listed_def)
  have folders: "listFolders 9 (st_s3 (te_storage demo_types_env)) (st_prefix (te_storage demo_types_env)) None
      demo_type_files = (Inr (Some [''pi'', ''bad'']), demo_type_files)"
    by code_simp
  have own: "own_names 9 demo_types_env demo_type_files [''pi'', ''bad''] demo_listed" by code_simp
  define j1 where "j1 = JObj [(''aliases'', JArr [JStr ''intel-nuc'']), (''buildId'', JStr ''5.1.0'')]"
  define j2 where "j2 = JObj [(''slug'', JStr ''raspberry''), (''buildId'', JStr ''1.0.0'')]"
  have answers: "map (type_answer 9 demo_types_env demo_type_files [''pi'', ''bad'']) demo_listed = [Some j1, Some j2, None]"
    and names: "''intel-nuc'' \<in> aliases j1" "''bad'' \<notin> aliases j1" "''bad'' \<notin> aliases j2"
    unfolding j1_def j2_def by code_simp+
  have run: "getDeviceTypeJsons 9 demo_types_env demo_type_files =
      (Inr (Some [(''nuc'', j1), (''pi'', j2), (''intel-nuc'', j1)]), demo_type_files)"
    unfolding j1_def j2_def by code_simp
  let ?result = "[(''nuc'', j1), (''pi'', j2), (''intel-nuc'', j1)]"
  have spec: "map_of ?result n = Some j \<longleftrightarrow> (\<exists>t \<in> set demo_listed.
      type_answer 9 demo_types_env demo_type_files [''pi'', ''bad''] t = Some j \<and> (n = fst t \<or> n \<in> aliases j))" for n j
    using device_types_listed [OF demo_types.type_services_axioms fuel query slugs folders own run] by blast
  have "map_of ?result ''intel-nuc'' = Some j1" "map_of ?result ''nuc'' = Some j1" "map_of ?result ''pi'' = Some j2"
    "map_of ?result ''bad'' \<noteq> Some j" for j
    unfolding spec using answers names by (auto simp: demo_listed_def)
  with run show ?thesis by (intro exI [of _ ?result]) auto
qed

end
