(* ===== verification/AbstractSql.thy ===== *)
theory AbstractSql
  imports JsRegex
begin

text \<open>
  Terms of abstract SQL and the helpers that build them and change the model they belong to
  (\<^verbatim>\<open>src/abstract-sql-utils.ts\<close>).

  A term is a value of the datatype \<open>sql\<close>, as the sources write it.  What a term means is up to the compiler
  and the database, so it is a parameter, \<open>eval\<close>, of which the locale \<open>sql_meaning\<close> says for every kind of
  node what the sources rely on; comparisons are only described for operands that are not null, since that
  is where they are used.  \<open>sql_eval\<close> is an evaluator that satisfies all of it.
\<close>

section \<open>Terms\<close>

datatype sql =
    NNull
  | NBool bool
  | NText string
  | NNumber int
  | NField string
  | NRef string string
  | NNot sql
  | NAnd "sql list"
  | NOr "sql list"
  | NEquals sql sql
  | NNotEquals sql sql
  | NGreater sql sql
  | NIn sql "sql list"
  | NLike sql sql
  | NExists sql
  | NNotExists sql
  | NCoalesce "sql list"
  | NCase "(sql \<times> sql) list" "sql option"
  | NCast sql string
  | NConcat "sql list"
  | NConcatWith sql "sql list"
  | NReplace sql sql sql
  | NFloor sql
  | NMultiply sql sql
  | NSeconds sql
  | NRound sql
  | NAverage sql
  | NToJson sql
  | NBind string
  | NAlias sql string
  | NSelect "sql list" "(string \<times> string) list" sql "sql list" "nat option"

text \<open>
  \<open>NSelect columns sources condition order limit\<close>: the sources are tables or resources with their aliases, a
  missing condition is \<open>NBool True\<close>, every order is ascending.  \<open>NExists\<close> and \<open>NNotExists\<close> take a value or a
  query.
\<close>

datatype sql_value = VNull | VBool bool | VNum rat | VText string | VTime int

type_synonym sql_row = "(string \<times> sql_value) list"
type_synonym sql_db = "(string \<times> sql_row list) list"
type_synonym sql_scope = "(string \<times> sql_row) list"

definition row_value :: "sql_row \<Rightarrow> string \<Rightarrow> sql_value" where
  "row_value r f = (case map_of r f of None \<Rightarrow> VNull | Some v \<Rightarrow> v)"

definition scope_value :: "sql_scope \<Rightarrow> string \<Rightarrow> string \<Rightarrow> sql_value" where
  "scope_value sc a f = (case map_of sc a of None \<Rightarrow> VNull | Some r \<Rightarrow> row_value r f)"

definition table_rows :: "sql_db \<Rightarrow> string \<Rightarrow> sql_row list" where
  "table_rows db t = (case map_of db t of None \<Rightarrow> [] | Some rs \<Rightarrow> rs)"

section \<open>Templates\<close>

text \<open>A piece of a template is a text of it or a term between two texts.\<close>

datatype piece = PText string | PTerm sql

text \<open>\<^verbatim>\<open>node.replace(/\s*\n\s*/g, '')\<close>: a line break with the white space around it is removed.\<close>

fun one_line_trim :: "string \<Rightarrow> string" where
  "one_line_trim s =
     (let white = takeWhile is_space_char s; rest = dropWhile is_space_char s
      in (if CHR 0x0A \<in> set white then [] else white) @
         (case rest of
            [] \<Rightarrow> []
          | c # cs \<Rightarrow> c # (if length cs < length s then one_line_trim cs else [])))"

declare one_line_trim.simps [simp del]

definition add_piece :: "(string \<Rightarrow> string) \<Rightarrow> piece \<Rightarrow> sql list" where
  "add_piece transformer p =
     (case p of
        PText s \<Rightarrow> if length (transformer s) > 0 then [NText (transformer s)] else []
      | PTerm t \<Rightarrow> [t])"

definition sqlConcat :: "(string \<Rightarrow> string) \<Rightarrow> piece list \<Rightarrow> sql" where
  "sqlConcat transformer pieces = NConcat (concat (map (add_piece transformer) pieces))"

definition oneLineTrimSqlConcat :: "piece list \<Rightarrow> sql" where
  "oneLineTrimSqlConcat pieces = sqlConcat one_line_trim pieces"

definition DQ :: string where
  "DQ = [CHR 0x22]"

definition splitStringParts :: "sql \<Rightarrow> string \<Rightarrow> sql" where
  "splitStringParts field separator =
     oneLineTrimSqlConcat [PText DQ, PTerm (NReplace field (NText separator) (NText (DQ @ '','' @ DQ))), PText DQ]"

definition joinTextParts :: "string \<Rightarrow> (sql \<times> sql) list \<Rightarrow> sql res" where
  "joinTextParts separator parts =
     (if length parts < 2 then Inl (JsError ''joinTextParts requires at least two parts to join'')
      else Inr (NConcatWith (NText separator)
             (map (\<lambda>(showPart, partValue). NCast (NCase [(showPart, partValue)] None) ''Text'') parts)))"

definition joinTextPartsAndPrefix :: "string \<Rightarrow> string \<Rightarrow> (sql \<times> sql) list \<Rightarrow> sql res" where
  "joinTextPartsAndPrefix pfx separator parts =
     res_bind (joinTextParts separator parts) (\<lambda>joinedParts.
       Inr (if pfx = [] then joinedParts
            else NConcat [NCast (NCase [(NOr (map fst parts), NText pfx)] (Some (NText []))) ''Text'', joinedParts]))"

section \<open>Meaning\<close>

text \<open>The text of a value in a concatenation; numbers are the integers the sources concatenate.\<close>

fun value_text :: "sql_value \<Rightarrow> string" where
  "value_text (VText s) = s"
| "value_text (VNum n) = show_int \<lfloor>n\<rfloor>"
| "value_text (VBool b) = (if b then ''true'' else ''false'')"
| "value_text (VTime t) = show_int t"
| "value_text VNull = []"

fun cast_value :: "string \<Rightarrow> sql_value \<Rightarrow> sql_value" where
  "cast_value t (VNum n) = (if t = ''Text'' then VText (show_int \<lfloor>n\<rfloor>) else VNum n)"
| "cast_value t v = v"

definition first_value :: "sql_value list \<Rightarrow> sql_value" where
  "first_value vs = (case List.find (\<lambda>v. v \<noteq> VNull) vs of None \<Rightarrow> VNull | Some v \<Rightarrow> v)"

text \<open>The rows a query selects, each in the scope of the query.\<close>

definition matching :: "(sql_db \<Rightarrow> sql_scope \<Rightarrow> sql \<Rightarrow> sql_value) \<Rightarrow> sql_db \<Rightarrow> sql_scope \<Rightarrow> string \<times> string \<Rightarrow> sql \<Rightarrow> sql_scope list" where
  "matching eval db sc source condition =
     filter (\<lambda>s. eval db s condition = VBool True) (map (\<lambda>r. (snd source, r) # sc) (table_rows db (fst source)))"

text \<open>Half a unit is rounded away from zero.\<close>

definition round_number :: "rat \<Rightarrow> rat" where
  "round_number q = (if q \<ge> 0 then of_int \<lfloor>q + 1 / 2\<rfloor> else - of_int \<lfloor>1 / 2 - q\<rfloor>)"

fun number_of :: "sql_value \<Rightarrow> rat" where
  "number_of (VNum n) = n"
| "number_of _ = 0"

definition average :: "sql_value list \<Rightarrow> sql_value" where
  "average vs =
     (let ns = map number_of (filter (\<lambda>v. v \<noteq> VNull) vs)
      in if ns = [] then VNull else VNum (sum_list ns / of_nat (length ns)))"

text \<open>A table is ordered by texts in the order of their characters.\<close>

fun text_le :: "string \<Rightarrow> string \<Rightarrow> bool" where
  "text_le [] t = True"
| "text_le (c # s) [] = False"
| "text_le (c # s) (d # t) \<longleftrightarrow>
     (of_char c :: nat) < of_char d \<or> (of_char c :: nat) = of_char d \<and> text_le s t"

text \<open>A column that combines all rows of a query into one.\<close>

fun has_average :: "sql \<Rightarrow> bool" where
  "has_average (NAverage x) = True"
| "has_average (NRound x) = has_average x"
| "has_average (NCast x t) = has_average x"
| "has_average _ = False"

locale sql_meaning =
  fixes eval :: "sql_db \<Rightarrow> sql_scope \<Rightarrow> sql \<Rightarrow> sql_value"
  assumes null: "eval db sc NNull = VNull"
    and bool: "eval db sc (NBool b) = VBool b"
    and embedded: "eval db sc (NText str) = VText str"
    and number: "eval db sc (NNumber i) = VNum (of_int i)"
    and field: "eval db sc (NField f) = scope_value sc [] f"
    and ref: "eval db sc (NRef a f) = scope_value sc a f"
    and neg: "eval db sc (NNot x) = VBool True \<longleftrightarrow> eval db sc x = VBool False"
    and conj: "eval db sc (NAnd xs) = VBool True \<longleftrightarrow> (\<forall>x \<in> set xs. eval db sc x = VBool True)"
    and disj: "eval db sc (NOr xs) = VBool True \<longleftrightarrow> (\<exists>x \<in> set xs. eval db sc x = VBool True)"
    and equals: "eval db sc x \<noteq> VNull \<or> eval db sc y \<noteq> VNull \<Longrightarrow>
      eval db sc (NEquals x y) = VBool True \<longleftrightarrow> eval db sc x = eval db sc y"
    and not_equals: "eval db sc x \<noteq> VNull \<Longrightarrow> eval db sc y \<noteq> VNull \<Longrightarrow>
      eval db sc (NNotEquals x y) = VBool True \<longleftrightarrow> eval db sc x \<noteq> eval db sc y"
    and greater: "eval db sc (NGreater x y) = VBool True \<longleftrightarrow>
      (\<exists>m n. eval db sc x = VNum m \<and> eval db sc y = VNum n \<and> m > n)"
    and member: "eval db sc x \<noteq> VNull \<Longrightarrow>
      eval db sc (NIn x ys) = VBool True \<longleftrightarrow> eval db sc x \<in> eval db sc ` set ys"
    and member_null: "eval db sc x = VNull \<Longrightarrow> eval db sc (NIn x ys) \<noteq> VBool True"
    and exists_value: "(\<And>cs ss wh os l. x \<noteq> NSelect cs ss wh os l) \<Longrightarrow>
      eval db sc (NExists x) = VBool True \<longleftrightarrow> eval db sc x \<noteq> VNull"
    and exists_rows: "eval db sc (NExists (NSelect [] [source] wh [] None)) = VBool True \<longleftrightarrow>
      matching eval db sc source wh \<noteq> []"
    and not_exists: "eval db sc (NNotExists x) = VBool True \<longleftrightarrow> eval db sc (NExists x) \<noteq> VBool True"
    and coalesce: "eval db sc (NCoalesce xs) = first_value (map (eval db sc) xs)"
    and case_first: "eval db sc (NCase ((c, x) # whens) els) =
      (if eval db sc c = VBool True then eval db sc x else eval db sc (NCase whens els))"
    and case_else: "eval db sc (NCase [] (Some x)) = eval db sc x"
    and case_none: "eval db sc (NCase [] None) = VNull"
    and cast: "eval db sc (NCast x t) = cast_value t (eval db sc x)"
    and concat: "\<forall>x \<in> set xs. eval db sc x \<noteq> VNull \<Longrightarrow>
      eval db sc (NConcat xs) = VText (concat (map (\<lambda>x. value_text (eval db sc x)) xs))"
    and concat_with: "eval db sc (NConcatWith (NText sep) xs) =
      VText (js_join sep (map value_text (filter (\<lambda>v. v \<noteq> VNull) (map (eval db sc) xs))))"
    and floor: "eval db sc x = VNum n \<Longrightarrow> eval db sc (NFloor x) = VNum (of_int \<lfloor>n\<rfloor>)"
    and multiply: "eval db sc x = VNum m \<Longrightarrow> eval db sc y = VNum n \<Longrightarrow> eval db sc (NMultiply x y) = VNum (m * n)"
    and seconds: "eval db sc x = VTime ms \<Longrightarrow> eval db sc (NSeconds x) = VNum (of_int ms / 1000)"
    and like: "eval db sc x = VText str \<Longrightarrow> eval db sc y = VText (CHR ''%'' # mid @ ''%'') \<Longrightarrow>
      CHR ''%'' \<notin> set mid \<Longrightarrow> CHR ''_'' \<notin> set mid \<Longrightarrow> CHR 0x5C \<notin> set mid \<Longrightarrow>
      eval db sc (NLike x y) = (if sublist mid str then VBool True else VBool False)"
    and replace: "eval db sc x = VText str \<Longrightarrow>
      eval db sc (NReplace x (NText [ch]) (NText new)) = VText (js_join new (js_split ch str))"
    and select_one: "length (matching eval db sc source wh) \<le> 1 \<Longrightarrow> \<not> has_average x \<Longrightarrow>
      eval db sc (NSelect [x] [source] wh [] None) =
        (case matching eval db sc source wh of [] \<Rightarrow> VNull | s # _ \<Rightarrow> eval db s x)"
    and select_first: "matching eval db sc source wh \<noteq> [] \<Longrightarrow>
      (\<exists>s \<in> set (matching eval db sc source wh).
        eval db sc (NSelect [NRef a f] [source] wh [NRef a k] (Some 1)) = eval db s (NRef a f) \<and>
        (\<forall>s' \<in> set (matching eval db sc source wh).
           text_le (value_text (eval db s (NRef a k))) (value_text (eval db s' (NRef a k)))))"
    and select_none: "matching eval db sc source wh = [] \<Longrightarrow>
      eval db sc (NSelect [NRef a f] [source] wh [NRef a k] (Some 1)) = VNull"
    and select_average: "eval db sc (NSelect [NCast (NRound (NAverage x)) ''Integer''] [source] wh [] None) =
      (case average (map (\<lambda>s. eval db s x) (matching eval db sc source wh)) of
         VNum q \<Rightarrow> VNum (round_number q) | v \<Rightarrow> v)"

section \<open>An evaluator\<close>

fun source_scopes :: "sql_db \<Rightarrow> sql_scope \<Rightarrow> (string \<times> string) list \<Rightarrow> sql_scope list" where
  "source_scopes db sc [] = [sc]"
| "source_scopes db sc ((t, a) # ss) = concat (map (\<lambda>r. source_scopes db ((a, r) # sc) ss) (table_rows db t))"

fun like_match :: "string \<Rightarrow> string \<Rightarrow> bool" where
  "like_match [] s = (s = [])"
| "like_match (c # p) s =
     (if c = CHR ''%'' then list_ex (\<lambda>n. like_match p (drop n s)) [0..<Suc (length s)]
      else case s of [] \<Rightarrow> False | d # s' \<Rightarrow> (c = CHR ''_'' \<or> c = d) \<and> like_match p s')"

fun first_case :: "(bool \<times> sql_value) list \<Rightarrow> sql_value \<Rightarrow> sql_value" where
  "first_case [] v = v"
| "first_case ((b, x) # cs) v = (if b then x else first_case cs v)"

definition first_by :: "('a \<Rightarrow> string) \<Rightarrow> 'a list \<Rightarrow> 'a option" where
  "first_by key xs = List.find (\<lambda>x. list_all (\<lambda>y. text_le (key x) (key y)) xs) xs"

definition both :: "(sql_value \<Rightarrow> sql_value \<Rightarrow> sql_value) \<Rightarrow> sql_value \<Rightarrow> sql_value \<Rightarrow> sql_value" where
  "both f a b = (if a = VNull \<or> b = VNull then VNull else f a b)"

lemma size_of_argument: "x \<in> set xs \<Longrightarrow> size (x :: sql) \<le> size_list size xs + n"
  by (simp add: size_list_estimation' trans_le_add1)

lemma size_of_case:
  "(a :: sql, b :: sql) \<in> set whens \<Longrightarrow> size a + size b \<le> size_list (size_prod size size) whens"
  by (induction whens) auto

function sem :: "sql_db \<Rightarrow> sql_scope list \<Rightarrow> sql_scope \<Rightarrow> sql \<Rightarrow> sql_value" where
  "sem db g sc NNull = VNull"
| "sem db g sc (NBool b) = VBool b"
| "sem db g sc (NText s) = VText s"
| "sem db g sc (NNumber n) = VNum (of_int n)"
| "sem db g sc (NField f) = scope_value sc [] f"
| "sem db g sc (NRef a f) = scope_value sc a f"
| "sem db g sc (NNot x) = (case sem db g sc x of VBool b \<Rightarrow> VBool (\<not> b) | _ \<Rightarrow> VNull)"
| "sem db g sc (NAnd xs) =
     (if list_all (\<lambda>x. sem db g sc x = VBool True) xs then VBool True
      else if list_ex (\<lambda>x. sem db g sc x = VBool False) xs then VBool False else VNull)"
| "sem db g sc (NOr xs) =
     (if list_ex (\<lambda>x. sem db g sc x = VBool True) xs then VBool True
      else if list_all (\<lambda>x. sem db g sc x = VBool False) xs then VBool False else VNull)"
| "sem db g sc (NEquals x y) = both (\<lambda>a b. VBool (a = b)) (sem db g sc x) (sem db g sc y)"
| "sem db g sc (NNotEquals x y) = both (\<lambda>a b. VBool (a \<noteq> b)) (sem db g sc x) (sem db g sc y)"
| "sem db g sc (NGreater x y) =
     (case (sem db g sc x, sem db g sc y) of (VNum m, VNum n) \<Rightarrow> VBool (m > n) | _ \<Rightarrow> VNull)"
| "sem db g sc (NIn x ys) =
     (if sem db g sc x = VNull then VNull else VBool (list_ex (\<lambda>y. sem db g sc x = sem db g sc y) ys))"
| "sem db g sc (NLike x y) =
     (case (sem db g sc x, sem db g sc y) of (VText s, VText p) \<Rightarrow> VBool (like_match p s) | _ \<Rightarrow> VNull)"
| "sem db g sc (NExists x) = VBool (sem db g sc x \<noteq> VNull)"
| "sem db g sc (NNotExists x) = VBool (sem db g sc x = VNull)"
| "sem db g sc (NCoalesce xs) = first_value (map (\<lambda>x. sem db g sc x) xs)"
| "sem db g sc (NCase whens els) =
     first_case (map (\<lambda>w. (sem db g sc (fst w) = VBool True, sem db g sc (snd w))) whens)
       (case els of None \<Rightarrow> VNull | Some x \<Rightarrow> sem db g sc x)"
| "sem db g sc (NCast x t) = cast_value t (sem db g sc x)"
| "sem db g sc (NConcat xs) =
     (if list_ex (\<lambda>x. sem db g sc x = VNull) xs then VNull
      else VText (concat (map (\<lambda>x. value_text (sem db g sc x)) xs)))"
| "sem db g sc (NConcatWith d xs) =
     (case sem db g sc d of
        VText s \<Rightarrow> VText (js_join s (map value_text (filter (\<lambda>v. v \<noteq> VNull) (map (\<lambda>x. sem db g sc x) xs))))
      | _ \<Rightarrow> VNull)"
| "sem db g sc (NReplace x a b) =
     (case (sem db g sc x, sem db g sc a, sem db g sc b) of
        (VText s, VText [c], VText r) \<Rightarrow> VText (js_join r (js_split c s)) | _ \<Rightarrow> VNull)"
| "sem db g sc (NFloor x) = (case sem db g sc x of VNum n \<Rightarrow> VNum (of_int \<lfloor>n\<rfloor>) | _ \<Rightarrow> VNull)"
| "sem db g sc (NMultiply x y) =
     (case (sem db g sc x, sem db g sc y) of (VNum m, VNum n) \<Rightarrow> VNum (m * n) | _ \<Rightarrow> VNull)"
| "sem db g sc (NSeconds x) = (case sem db g sc x of VTime t \<Rightarrow> VNum (of_int t / 1000) | _ \<Rightarrow> VNull)"
| "sem db g sc (NRound x) = (case sem db g sc x of VNum n \<Rightarrow> VNum (round_number n) | _ \<Rightarrow> VNull)"
| "sem db g sc (NAverage x) = average (map (\<lambda>s. sem db [] s x) g)"
| "sem db g sc (NToJson x) = sem db g sc x"
| "sem db g sc (NBind b) = scope_value sc ''@'' b"
| "sem db g sc (NAlias x a) = sem db g sc x"
| "sem db g sc (NSelect cs ss wh os l) =
     (let scs = filter (\<lambda>s. sem db [] s wh = VBool True) (source_scopes db sc ss);
          ordered = (case os of [] \<Rightarrow> (case scs of [] \<Rightarrow> None | s # _ \<Rightarrow> Some s)
                     | k # _ \<Rightarrow> first_by (\<lambda>s. value_text (sem db [] s k)) scs)
      in case cs of
           [] \<Rightarrow> if scs = [] then VNull else VBool True
         | c # _ \<Rightarrow>
             if has_average c then sem db scs sc c
             else (case ordered of None \<Rightarrow> VNull | Some s \<Rightarrow> sem db [] s c))"
  by pat_completeness auto

termination
proof (relation "measure (\<lambda>(db, g, sc, x). size x)", goal_cases)
  case (21 db g sc whens els w)
  then show ?case using size_of_case [of "fst w" "snd w" whens] by simp
next
  case (22 db g sc whens els w)
  then show ?case using size_of_case [of "fst w" "snd w" whens] by simp
qed (auto simp: less_Suc_eq_le size_of_argument size_list_estimation')

definition sql_eval :: "sql_db \<Rightarrow> sql_scope \<Rightarrow> sql \<Rightarrow> sql_value" where
  "sql_eval db sc x = sem db [] sc x"

lemma single_source:
  "filter (\<lambda>s. sem db [] s wh = VBool True) (source_scopes db sc [source]) = matching sql_eval db sc source wh"
proof -
  have "source_scopes db sc [source] = map (\<lambda>r. (snd source, r) # sc) (table_rows db (fst source))"
    by (cases source) (simp add: concat_map_singleton)
  then show ?thesis by (simp add: matching_def sql_eval_def)
qed

lemma like_plain:
  "CHR ''%'' \<notin> set m \<Longrightarrow> CHR ''_'' \<notin> set m \<Longrightarrow> like_match (m @ p) s \<longleftrightarrow> (\<exists>t. s = m @ t \<and> like_match p t)"
  by (induction m arbitrary: s) (auto split: list.split)

lemma like_any: "like_match [CHR ''%''] s"
proof -
  have "length s \<in> set [0..<Suc (length s)]" by simp
  then show ?thesis unfolding like_match.simps list_ex_iff by (auto intro: bexI [of _ "length s"])
qed

lemma like_infix:
  assumes "CHR ''%'' \<notin> set m" "CHR ''_'' \<notin> set m"
  shows "like_match (CHR ''%'' # m @ ''%'') s \<longleftrightarrow> sublist m s"
proof -
  have "like_match (CHR ''%'' # m @ ''%'') s \<longleftrightarrow> (\<exists>n \<le> length s. like_match (m @ ''%'') (drop n s))"
    by (auto simp: list_ex_iff less_Suc_eq_le simp del: upt_Suc)
  also have "\<dots> \<longleftrightarrow> (\<exists>n \<le> length s. \<exists>t. drop n s = m @ t)"
    using like_plain [OF assms, of "''%''"] like_any by simp
  also have "\<dots> \<longleftrightarrow> sublist m s"
    unfolding sublist_def by (metis append_eq_conv_conj append_take_drop_id length_append le_add1)
  finally show ?thesis .
qed

lemma text_le_total: "text_le s t \<or> text_le t s"
  by (induction s t rule: text_le.induct) auto

lemma text_le_trans: "text_le s t \<Longrightarrow> text_le t u \<Longrightarrow> text_le s u"
proof (induction s t arbitrary: u rule: text_le.induct)
  case (3 c s d t)
  then show ?case by (cases u) auto
qed auto

lemma first_by_some:
  assumes "xs \<noteq> []"
  shows "\<exists>x \<in> set xs. first_by key xs = Some x \<and> (\<forall>y \<in> set xs. text_le (key x) (key y))"
proof -
  have "\<exists>x \<in> set xs. \<forall>y \<in> set xs. text_le (key x) (key y)"
    using assms
  proof (induction xs rule: list_nonempty_induct)
    case (single x)
    then show ?case using text_le_total [of "key x" "key x"] by simp
  next
    case (cons x xs)
    then obtain m where m: "m \<in> set xs" "\<forall>y \<in> set xs. text_le (key m) (key y)" by blast
    show ?case
    proof (cases "text_le (key m) (key x)")
      case True
      with m show ?thesis by auto
    next
      case False
      then have "text_le (key x) (key m)" using text_le_total by blast
      with m text_le_total [of "key x" "key x"] show ?thesis by (auto intro: text_le_trans)
    qed
  qed
  then have "first_by key xs \<noteq> None" by (auto simp: first_by_def find_None_iff list_all_iff)
  then obtain x where x: "first_by key xs = Some x" by blast
  then have "x \<in> set xs \<and> (\<forall>y \<in> set xs. text_le (key x) (key y))"
    unfolding first_by_def using find_Some_in by (fastforce simp: list_all_iff)
  with x show ?thesis by blast
qed

lemma sql_eval_fun: "sql_eval db sc = sem db [] sc"
  by (rule ext) (simp add: sql_eval_def)

interpretation evaluator: sql_meaning sql_eval
proof (unfold_locales, goal_cases)
  case (7 db sc x)
  then show ?case by (auto simp: sql_eval_fun split: sql_value.split)
next
  case (12 db sc x y)
  then show ?case by (auto simp: sql_eval_fun split: sql_value.splits)
next
  case (13 db sc x ys)
  then show ?case by (simp add: sql_eval_fun list_ex_iff image_iff)
next
  case (28 db sc x str y mid)
  then show ?case by (simp add: sql_eval_fun like_infix del: like_match.simps)
next
  case (30 db sc source wh x)
  then show ?case by (auto simp: sql_eval_fun single_source split: list.split)
next
  case (31 db sc source wh a f k)
  then obtain s where "s \<in> set (matching sql_eval db sc source wh)"
    "first_by (\<lambda>s. value_text (sem db [] s (NRef a k))) (matching sql_eval db sc source wh) = Some s"
    "\<forall>s' \<in> set (matching sql_eval db sc source wh).
       text_le (value_text (sem db [] s (NRef a k))) (value_text (sem db [] s' (NRef a k)))"
    using first_by_some [of _ "\<lambda>s. value_text (sem db [] s (NRef a k))"] by blast
  then show ?case by (auto simp: sql_eval_fun single_source)
next
  case (32 db sc source wh a f k)
  then show ?case by (simp add: sql_eval_fun single_source first_by_def)
next
  case (33 db sc x source wh)
  then show ?case
    by (auto simp: sql_eval_fun single_source comp_def average_def Let_def)
qed (auto simp: sql_eval_fun list_all_iff list_ex_iff both_def single_source)

end
