(* ===== verification/SqlModel.thy ===== *)
theory SqlModel
  imports AbstractSql
begin

text \<open>
  The model the terms belong to: its tables with their fields and its relationships, and the changes the
  sources make to it before it is compiled (\<^verbatim>\<open>src/abstract-sql-utils.ts\<close>, \<^verbatim>\<open>src/balena.ts\<close>,
  \<^verbatim>\<open>src/translations\<close>, \<^verbatim>\<open>src/features/applications/models\<close>).

  Relationships are nested objects, kept as JSON.  A change of an object in place is the changed model.
\<close>

section \<open>Tables, fields and relationships\<close>

record sql_field =
  sf_name :: string
  sf_type :: string
  sf_required :: bool
  sf_computed :: "sql option"

record sql_table =
  tb_fields :: "sql_field list"
  tb_indexes :: "string list list"
  tb_name :: string
  tb_resource :: string
  tb_definition :: "sql option"

record sql_model =
  sm_tables :: "(string \<times> sql_table) list"
  sm_relationships :: "json obj"

definition table_of :: "sql_model \<Rightarrow> string \<Rightarrow> sql_table res" where
  "table_of m resource = (case map_of (sm_tables m) resource of None \<Rightarrow> Inl JsTypeError | Some t \<Rightarrow> Inr t)"

definition set_table :: "string \<Rightarrow> sql_table \<Rightarrow> sql_model \<Rightarrow> sql_model" where
  "set_table resource t m = m\<lparr>sm_tables := obj_set resource t (sm_tables m)\<rparr>"

text \<open>\<^verbatim>\<open>_.get\<close> and \<^verbatim>\<open>_.set\<close> with a path: what is not an object on the way is replaced by one.\<close>

fun json_get :: "string list \<Rightarrow> json \<Rightarrow> json option" where
  "json_get [] j = Some j"
| "json_get (k # ks) (JObj o') = (case map_of o' k of None \<Rightarrow> None | Some j \<Rightarrow> json_get ks j)"
| "json_get (k # ks) _ = None"

definition json_object :: "json \<Rightarrow> json obj" where
  "json_object j = (case j of JObj o' \<Rightarrow> o' | _ \<Rightarrow> [])"

fun json_set :: "string list \<Rightarrow> json \<Rightarrow> json \<Rightarrow> json" where
  "json_set [] v j = v"
| "json_set (k # ks) v j =
     JObj (obj_set k (json_set ks v (case map_of (json_object j) k of None \<Rightarrow> JObj [] | Some j' \<Rightarrow> j')) (json_object j))"

text \<open>\<^verbatim>\<open>o[to] = o[from]; delete o[from]\<close>; a field without a value is one that is not there.\<close>

definition move_key :: "string \<Rightarrow> string \<Rightarrow> json obj \<Rightarrow> json obj" where
  "move_key from to o' =
     obj_delete from (case map_of o' from of None \<Rightarrow> obj_delete to o' | Some v \<Rightarrow> obj_set to v o')"

section \<open>Changes of the model\<close>

definition aliasTable :: "string \<Rightarrow> string \<Rightarrow> sql option \<Rightarrow> sql_model \<Rightarrow> sql_model res" where
  "aliasTable resourceName toResourceName definition' m =
     res_bind (table_of m resourceName) (\<lambda>t.
       let t' = t\<lparr>tb_name := toResourceName, tb_resource := toResourceName,
                  tb_definition := (case definition' of None \<Rightarrow> tb_definition t | d \<Rightarrow> d)\<rparr>;
           m' = set_table toResourceName t' m
       in Inr (m'\<lparr>sm_relationships :=
            (case map_of (sm_relationships m) resourceName of
               None \<Rightarrow> obj_delete toResourceName (sm_relationships m)
             | Some r \<Rightarrow> obj_set toResourceName r (sm_relationships m))\<rparr>))"

definition rename_columns :: "string \<Rightarrow> string \<Rightarrow> sql_table \<Rightarrow> sql_table" where
  "rename_columns from to t =
     t\<lparr>tb_fields := map (\<lambda>f. if sf_name f = from then f\<lparr>sf_name := to\<rparr> else f) (tb_fields t),
       tb_indexes := map (map (\<lambda>f. if f = from then to else f)) (tb_indexes t)\<rparr>"

definition rename_relationship :: "string list \<Rightarrow> string \<Rightarrow> string \<Rightarrow> json \<Rightarrow> json res" where
  "rename_relationship path from to relationship =
     (case json_get path relationship of
        Some (JObj orig) \<Rightarrow>
          (let moved = json_set path (JObj (move_key from to orig)) relationship
           in Inr (json_set [to, ''$''] (JArr [JStr to]) (JObj (move_key from to (json_object moved)))))
      | _ \<Rightarrow> Inl JsTypeError)"

definition renameField :: "string \<Rightarrow> string list \<Rightarrow> string \<Rightarrow> string \<Rightarrow> sql_model \<Rightarrow> sql_model res" where
  "renameField resourceName path from to m =
     res_bind (table_of m resourceName) (\<lambda>t.
       case map_of (sm_relationships m) resourceName of
         None \<Rightarrow> Inl JsTypeError
       | Some r \<Rightarrow>
           res_bind (rename_relationship path from to r) (\<lambda>r'.
             Inr ((set_table resourceName (rename_columns from to t) m)
               \<lparr>sm_relationships := obj_set resourceName r' (sm_relationships m)\<rparr>)))"

definition renameResourceField :: "string \<Rightarrow> string \<Rightarrow> string \<Rightarrow> sql_model \<Rightarrow> sql_model res" where
  "renameResourceField resource from to m =
     (let name = resource @ ''-has-'' @ from
      in res_bind (renameField name (js_split CHR ''-'' resource @ [''has'']) from to m) (renameField name [''has''] from to))"

definition renameVarResourcesName :: "sql_model \<Rightarrow> sql_model res" where
  "renameVarResourcesName m =
     res_bind (renameResourceField ''device'' ''config var name'' ''name'' m) (\<lambda>m.
     res_bind (renameResourceField ''device'' ''env var name'' ''name'' m) (\<lambda>m.
     res_bind (renameResourceField ''application'' ''config var name'' ''name'' m)
       (renameResourceField ''application'' ''env var name'' ''name'')))"

definition overrideFieldType :: "string \<Rightarrow> string \<Rightarrow> string \<Rightarrow> sql_model \<Rightarrow> sql_model res" where
  "overrideFieldType resourceName fieldName newFieldType m =
     (case map_of (sm_tables m) resourceName of
        None \<Rightarrow> Inl (JsError (''Could not find resource '' @ DQ @ resourceName @ DQ @
                  '' while trying to override field type for '' @ DQ @ fieldName @ DQ))
      | Some t \<Rightarrow>
          (case List.find (\<lambda>f. sf_name f = fieldName) (tb_fields t) of
             None \<Rightarrow> Inl (JsError (''Could not find field '' @ DQ @ fieldName @ DQ @ '' on resource '' @ DQ @ resourceName @
                       DQ @ '' while trying to change its type to '' @ DQ @ newFieldType @ DQ))
           | Some f \<Rightarrow>
               if sf_type f = newFieldType
               then Inl (JsError (''Field '' @ DQ @ fieldName @ DQ @ '' on resource '' @ DQ @ resourceName @ DQ @
                      '' is already of type '' @ DQ @ newFieldType @ DQ))
               else (case find_index (\<lambda>f. sf_name f = fieldName) (tb_fields t) of
                       None \<Rightarrow> Inr m
                     | Some i \<Rightarrow>
                         Inr (set_table resourceName
                           (t\<lparr>tb_fields := (tb_fields t)[i := f\<lparr>sf_type := newFieldType\<rparr>]\<rparr>) m))))"

text \<open>An alias of a field is another field or a term; an empty text is none.\<close>

datatype alias_node = AliasField string | AliasTerm sql

definition aliasFields :: "string \<Rightarrow> (string \<times> alias_node) list \<Rightarrow> sql_model \<Rightarrow> sql list res" where
  "aliasFields resourceName aliases m =
     res_bind (table_of m resourceName) (\<lambda>t.
       let fieldNames = map sf_name (tb_fields t);
           nonexistentFields = filter (\<lambda>k. k \<notin> set fieldNames \<and> k \<noteq> ''$toResource'') (map fst aliases)
       in if nonexistentFields \<noteq> []
          then Inl (JsError (''Tried to alias non-existent fields: '' @ [CHR 0x27] @ js_join '', '' nonexistentFields @ [CHR 0x27]))
          else Inr (map (\<lambda>fieldName.
            case map_of aliases fieldName of
              Some (AliasField f) \<Rightarrow>
                if f = [] then NRef resourceName fieldName else NAlias (NRef resourceName f) fieldName
            | Some (AliasTerm x) \<Rightarrow> NAlias x fieldName
            | None \<Rightarrow> NRef resourceName fieldName) fieldNames))"

text \<open>Every field of the resource is selected once, under its own name and in its place.\<close>

fun selected_name :: "sql \<Rightarrow> string" where
  "selected_name (NRef a f) = f"
| "selected_name (NAlias x f) = f"
| "selected_name _ = []"

lemma aliasFields_names:
  assumes "aliasFields resourceName aliases m = Inr xs"
  shows "\<exists>t. map_of (sm_tables m) resourceName = Some t \<and> map selected_name xs = map sf_name (tb_fields t)"
  using assms
  by (auto simp: aliasFields_def table_of_def res_bind_Inr_iff Let_def comp_def
      split: if_splits option.splits alias_node.split)

text \<open>Changing the type of a field keeps the names of all fields; a second change to the same type is refused.\<close>

lemma overrideFieldType_once:
  assumes "overrideFieldType resourceName fieldName ty m = Inr m'"
  shows "\<exists>e. overrideFieldType resourceName fieldName ty m' = Inl (JsError e)"
proof -
  obtain t f i where t: "map_of (sm_tables m) resourceName = Some t"
    and f: "List.find (\<lambda>f. sf_name f = fieldName) (tb_fields t) = Some f"
    and i: "find_index (\<lambda>f. sf_name f = fieldName) (tb_fields t) = Some i"
    and m': "m' = set_table resourceName (t\<lparr>tb_fields := (tb_fields t)[i := f\<lparr>sf_type := ty\<rparr>]\<rparr>) m"
    using assms
    by (auto simp: overrideFieldType_def find_index_None find_Some_iff split: option.splits if_splits)
  have "List.find (\<lambda>f. sf_name f = fieldName) (xs[i := f\<lparr>sf_type := ty\<rparr>]) = Some (f\<lparr>sf_type := ty\<rparr>)"
    if "List.find (\<lambda>f. sf_name f = fieldName) xs = Some f" "find_index (\<lambda>f. sf_name f = fieldName) xs = Some i" for xs i
    using that by (induction xs arbitrary: i) (auto split: if_splits)
  from this [OF f i] show ?thesis by (simp add: m' overrideFieldType_def set_table_def)
qed

section \<open>Direct access of a user to applications\<close>

definition plain_field :: "string \<Rightarrow> string \<Rightarrow> sql_field" where
  "plain_field name ty = \<lparr>sf_name = name, sf_type = ty, sf_required = True, sf_computed = None\<rparr>"

definition ACCESS_TABLE :: string where
  "ACCESS_TABLE = ''user-has direct access to-application''"

definition direct_access_query :: sql where
  "direct_access_query =
     NSelect [NAlias NNull ''id'', NAlias (NRef ''application.user'' ''id'') ''user'',
              NAlias (NRef ''application'' ''id'') ''has direct access to-application'']
       [(''application'', ''application''), (''user'', ''application.user'')]
       (NEquals (NRef ''application.user'' ''actor'') (NBind ''@__ACTOR_ID'')) [] None"

definition dollar :: "json \<Rightarrow> json" where
  "dollar j = JObj [(''$'', j)]"

definition access_relationships :: json where
  "access_relationships =
     JObj [(''user'', dollar (JArr [JStr ''user'', JArr [JStr ''user'', JStr ''id'']])),
           (''application'', dollar (JArr [JStr ''has direct access to-application'', JArr [JStr ''application'', JStr ''id'']])),
           (''has direct access to'', JObj [(''application'',
              dollar (JArr [JStr ''has direct access to-application'', JArr [JStr ''application'', JStr ''id'']]))]),
           (''is directly accessible by'', JObj [(''user'', dollar (JArr [JStr ''user'', JArr [JStr ''user'', JStr ''id'']]))])]"

text \<open>\<^verbatim>\<open>_.merge\<close> of objects: fields that both have are merged in turn, others of the second are added.\<close>

fun json_merge :: "json \<Rightarrow> json \<Rightarrow> json" where
  "json_merge (JObj a) (JObj b) =
     JObj (map (\<lambda>(k, v). (k, case map_of b k of Some v' \<Rightarrow> json_merge v v' | None \<Rightarrow> v)) a @
           filter (\<lambda>(k, v). map_of a k = None) b)"
| "json_merge a b = b"

definition merge_relationship :: "string \<Rightarrow> json \<Rightarrow> json obj \<Rightarrow> json obj" where
  "merge_relationship k v rs =
     obj_set k (case map_of rs k of None \<Rightarrow> v | Some r \<Rightarrow> json_merge r v) rs"

definition add_direct_access :: "(sql \<Rightarrow> sql) \<Rightarrow> sql_model \<Rightarrow> sql_model" where
  "add_direct_access selectQueryNodeTransformer m =
     (let t = \<lparr>tb_fields = [plain_field ''id'' ''Big Integer'', plain_field ''user'' ''ForeignKey'',
                            plain_field ''has direct access to-application'' ''ForeignKey''],
               tb_indexes = [], tb_name = ACCESS_TABLE, tb_resource = ACCESS_TABLE,
               tb_definition = Some (selectQueryNodeTransformer direct_access_query)\<rparr>;
          rs1 = obj_set ACCESS_TABLE access_relationships (sm_relationships m);
          rs2 = merge_relationship ''user'' (JObj [(''has direct access to'', JObj [(''application'',
                  dollar (JArr [JStr ''id'', JArr [JStr ACCESS_TABLE, JStr ''user'']]))])]) rs1;
          rs3 = merge_relationship ''application'' (JObj [(''is directly accessible by'', JObj [(''user'',
                  dollar (JArr [JStr ''id'', JArr [JStr ACCESS_TABLE, JStr ''has direct access to-application'']]))])]) rs2
      in (set_table ACCESS_TABLE t m)\<lparr>sm_relationships := rs3\<rparr>)"

end
