(* ===== verification/DeviceStatus.thy ===== *)
theory DeviceStatus
  imports SqlModel
begin

text \<open>
  The computed fields of a device (\<^verbatim>\<open>src/features/devices/models/device-additions.ts\<close>): its overall status and
  progress and the release it should run, and the status that version 6 of the API answers
  (\<^verbatim>\<open>src/translations/v6/v6.ts\<close>).

  The terms are written as the sources write them; the lemmas say what they mean in any interpretation of
  abstract SQL that satisfies \<open>sql_meaning\<close>.
\<close>

section \<open>Terms\<close>

abbreviation device_field :: "string \<Rightarrow> sql" where
  "device_field f \<equiv> NRef ''device'' f"

definition isInactiveFn :: "bool \<Rightarrow> sql" where
  "isInactiveFn isActiveNotExist = (if isActiveNotExist then NBool False else NNot (device_field ''is active''))"

definition isOverallOffline :: sql where
  "isOverallOffline =
     NAnd [NNot (device_field ''is connected to vpn''),
           NIn (device_field ''api heartbeat state'') [NText ''offline'', NText ''unknown'']]"

definition isPreProvisioning :: sql where
  "isPreProvisioning =
     NAnd [NNot (device_field ''is connected to vpn''),
           NNotExists (device_field ''last connectivity event''),
           NEquals (device_field ''api heartbeat state'') (NText ''unknown'')]"

definition isPostProvisioning :: sql where
  "isPostProvisioning = NEquals (device_field ''provisioning state'') (NText ''Post-Provisioning'')"

definition vpn_control_of :: "string \<Rightarrow> string \<Rightarrow> string \<Rightarrow> string \<Rightarrow> sql" where
  "vpn_control_of table alias owner field =
     NSelect [NRef alias ''value''] [(table, alias)]
       (NAnd [NEquals (NRef alias owner) (device_field field),
              NIn (NRef alias ''name'') [NText ''BALENA_SUPERVISOR_VPN_CONTROL'', NText ''RESIN_SUPERVISOR_VPN_CONTROL'']])
       [NRef alias ''name''] (Some 1)"

definition isVpnEnabled :: sql where
  "isVpnEnabled =
     NNotEquals
       (NCoalesce [vpn_control_of ''device config variable'' ''dcv'' ''device'' ''id'',
                   vpn_control_of ''application config variable'' ''acv'' ''application'' ''belongs to-application'',
                   NText ''not set''])
       (NText ''false'')"

definition hasPartialConnectivity :: sql where
  "hasPartialConnectivity =
     NOr [NEquals (device_field ''api heartbeat state'') (NText ''timeout''),
          NAnd [device_field ''is connected to vpn'',
                NNotEquals (device_field ''api heartbeat state'') (NText ''online'')],
          NAnd [NNot (device_field ''is connected to vpn''),
                NEquals (device_field ''api heartbeat state'') (NText ''online''), isVpnEnabled]]"

definition device_downloading :: sql where
  "device_downloading =
     NAnd [NExists (device_field ''download progress''), NEquals (device_field ''status'') (NText ''Downloading'')]"

definition heard_from :: sql where
  "heard_from = NIn (device_field ''api heartbeat state'') [NText ''online'', NText ''timeout'']"

definition installs_downloading :: "string \<Rightarrow> sql" where
  "installs_downloading resource =
     NExists (NSelect [] [(resource, ''ii'')]
       (NAnd [NEquals (NRef ''ii'' ''device'') (device_field ''id''), NExists (NRef ''ii'' ''download progress''),
              NEquals (NRef ''ii'' ''status'') (NText ''Downloading'')]) [] None)"

definition overall_status :: "bool \<Rightarrow> sql" where
  "overall_status isActiveNotExist =
     NCase [(isInactiveFn isActiveNotExist, NText ''inactive''),
            (isPostProvisioning, NText ''post-provisioning''),
            (isPreProvisioning, NText ''configuring''),
            (isOverallOffline, NText ''disconnected''),
            (NAnd [heard_from, NExists (device_field ''download progress''),
                   NEquals (device_field ''status'') (NText ''Downloading'')], NText ''updating''),
            (NExists (device_field ''provisioning progress''), NText ''configuring''),
            (NAnd [heard_from, installs_downloading ''image install''], NText ''updating''),
            (hasPartialConnectivity, NText ''reduced-functionality'')]
       (Some (NText ''operational''))"

definition should_run :: sql where
  "should_run =
     NSelect [NRef ''a'' ''should be running-release''] [(''application'', ''a'')]
       (NEquals (device_field ''belongs to-application'') (NRef ''a'' ''id'')) [] None"

definition overall_progress :: "bool \<Rightarrow> sql" where
  "overall_progress isActiveNotExist =
     NCase [(isInactiveFn isActiveNotExist, NNull),
            (isPostProvisioning, device_field ''provisioning progress''),
            (isPreProvisioning, device_field ''provisioning progress''),
            (isOverallOffline, NNull),
            (device_downloading, device_field ''download progress''),
            (NExists (device_field ''provisioning progress''), device_field ''provisioning progress''),
            (installs_downloading ''image install'',
             NSelect [NCast (NRound (NAverage (NCoalesce [NRef ''ii'' ''download progress'', NNumber 100]))) ''Integer'']
               [(''image install'', ''ii'')]
               (NAnd [NEquals (NRef ''ii'' ''device'') (device_field ''id''),
                      NNotEquals (NRef ''ii'' ''status'') (NText ''deleted''),
                      NOr [NEquals (NRef ''ii'' ''status'') (NText ''Downloading''),
                           NEquals (NRef ''ii'' ''is provided by-release'')
                             (NCoalesce [device_field ''is pinned on-release'', should_run])]]) [] None)]
       None"

definition should_be_running_release :: sql where
  "should_be_running_release =
     NCase [(NExists (device_field ''is pinned on-release''), device_field ''is pinned on-release'')]
       (Some (NSelect [NRef ''a'' ''should be running-release''] [(''application'', ''a'')]
          (NEquals (NRef ''a'' ''id'') (device_field ''belongs to-application'')) [] None))"

definition computed_field :: "string \<Rightarrow> string \<Rightarrow> sql \<Rightarrow> sql_field" where
  "computed_field name ty x = \<lparr>sf_name = name, sf_type = ty, sf_required = False, sf_computed = Some x\<rparr>"

definition add_device_fields :: "sql_model \<Rightarrow> sql_model res" where
  "add_device_fields m =
     res_bind (table_of m ''device'') (\<lambda>t.
       let names = map sf_name (tb_fields t);
           shim = (\<lambda>name. if name \<in> set names then [] else [computed_field name ''Boolean'' (NBool False)]);
           inactive = ''is active'' \<notin> set names;
           fields = tb_fields t @ shim ''is web accessible'' @ shim ''is frozen'' @
             [computed_field ''overall status'' ''Short Text'' (overall_status inactive),
              computed_field ''overall progress'' ''Integer'' (overall_progress inactive)]
       in case find_index (\<lambda>f. sf_name f = ''should be running-release'') fields of
            None \<Rightarrow> Inl (JsError (''Could not find '' @ [CHR 0x27] @ ''should be running-release'' @ [CHR 0x27] @ '' field in device model''))
          | Some i \<Rightarrow>
              Inr (set_table ''device''
                (t\<lparr>tb_fields := fields[i := (fields ! i)\<lparr>sf_computed := Some should_be_running_release\<rparr>]\<rparr>) m))"

text \<open>The status of version 6; \<open>toVersion\<close> names the version it is translated to.\<close>

definition overall_status_v6 :: "bool \<Rightarrow> string \<Rightarrow> sql" where
  "overall_status_v6 isActiveNotExist toVersion =
     NCase [(isInactiveFn isActiveNotExist, NText ''inactive''),
            (isPostProvisioning, NText ''post-provisioning''),
            (isPreProvisioning, NText ''configuring''),
            (isOverallOffline, NText ''offline''),
            (device_downloading, NText ''updating''),
            (NExists (device_field ''provisioning progress''), NText ''configuring''),
            (installs_downloading (''device-installs-image$'' @ toVersion @ ''$bypass''), NText ''updating'')]
       (Some (NText ''idle''))"

section \<open>The status of a device\<close>

text \<open>What the status depends on.\<close>

record device_facts =
  df_inactive :: bool
  df_post :: bool
  df_vpn :: bool
  df_heartbeat :: string
  df_never_seen :: bool
  df_downloading :: bool
  df_provisioning :: bool
  df_installing :: bool
  df_vpn_wanted :: bool

definition status_of :: "device_facts \<Rightarrow> string" where
  "status_of d =
     (let silent = \<not> df_vpn d \<and> df_heartbeat d \<in> {''offline'', ''unknown''};
          heard = df_heartbeat d \<in> {''online'', ''timeout''};
          partial = df_heartbeat d = ''timeout'' \<or> (df_vpn d \<and> df_heartbeat d \<noteq> ''online'') \<or>
            (\<not> df_vpn d \<and> df_heartbeat d = ''online'' \<and> df_vpn_wanted d)
      in if df_inactive d then ''inactive''
         else if df_post d then ''post-provisioning''
         else if silent \<and> df_heartbeat d = ''unknown'' \<and> df_never_seen d then ''configuring''
         else if silent then ''disconnected''
         else if heard \<and> df_downloading d then ''updating''
         else if df_provisioning d then ''configuring''
         else if heard \<and> df_installing d then ''updating''
         else if partial then ''reduced-functionality''
         else ''operational'')"

definition status_of_v6 :: "device_facts \<Rightarrow> string" where
  "status_of_v6 d =
     (let silent = \<not> df_vpn d \<and> df_heartbeat d \<in> {''offline'', ''unknown''}
      in if df_inactive d then ''inactive''
         else if df_post d then ''post-provisioning''
         else if silent \<and> df_heartbeat d = ''unknown'' \<and> df_never_seen d then ''configuring''
         else if silent then ''offline''
         else if df_downloading d then ''updating''
         else if df_provisioning d then ''configuring''
         else if df_installing d then ''updating''
         else ''idle'')"

text \<open>Reading the facts off the rows: the device's own row, its installs, and the configuration variables.\<close>

definition vpn_rows :: "sql_db \<Rightarrow> string \<Rightarrow> string \<Rightarrow> sql_value \<Rightarrow> sql_row list" where
  "vpn_rows db table owner i =
     filter (\<lambda>r. row_value r owner = i \<and>
        row_value r ''name'' \<in> {VText ''BALENA_SUPERVISOR_VPN_CONTROL'', VText ''RESIN_SUPERVISOR_VPN_CONTROL''})
       (table_rows db table)"

definition preferred_value :: "sql_row list \<Rightarrow> sql_value" where
  "preferred_value rs =
     (case List.find (\<lambda>r. row_value r ''name'' = VText ''BALENA_SUPERVISOR_VPN_CONTROL'') rs of
        Some r \<Rightarrow> row_value r ''value''
      | None \<Rightarrow> (case rs of [] \<Rightarrow> VNull | r # _ \<Rightarrow> row_value r ''value''))"

definition vpn_wanted :: "sql_db \<Rightarrow> sql_row \<Rightarrow> bool" where
  "vpn_wanted db d \<longleftrightarrow>
     first_value [preferred_value (vpn_rows db ''device config variable'' ''device'' (row_value d ''id'')),
                  preferred_value (vpn_rows db ''application config variable'' ''application''
                    (row_value d ''belongs to-application'')), VText ''not set''] \<noteq> VText ''false''"

definition facts_of :: "bool \<Rightarrow> string \<Rightarrow> sql_db \<Rightarrow> sql_row \<Rightarrow> device_facts" where
  "facts_of isActiveNotExist installs db d =
     \<lparr>df_inactive = (\<not> isActiveNotExist \<and> row_value d ''is active'' = VBool False),
      df_post = (row_value d ''provisioning state'' = VText ''Post-Provisioning''),
      df_vpn = (row_value d ''is connected to vpn'' = VBool True),
      df_heartbeat = value_text (row_value d ''api heartbeat state''),
      df_never_seen = (row_value d ''last connectivity event'' = VNull),
      df_downloading = (row_value d ''download progress'' \<noteq> VNull \<and> row_value d ''status'' = VText ''Downloading''),
      df_provisioning = (row_value d ''provisioning progress'' \<noteq> VNull),
      df_installing = (\<exists>r \<in> set (table_rows db installs). row_value r ''device'' = row_value d ''id'' \<and>
        row_value r ''download progress'' \<noteq> VNull \<and> row_value r ''status'' = VText ''Downloading''),
      df_vpn_wanted = vpn_wanted db d\<rparr>"

text \<open>
  A row of the device table has an id, an application, a state of its heartbeat and of its VPN; a device
  and an application set each configuration variable at most once, and to something.
\<close>

definition device_row :: "sql_row \<Rightarrow> bool" where
  "device_row d \<longleftrightarrow> row_value d ''id'' \<noteq> VNull \<and> row_value d ''belongs to-application'' \<noteq> VNull \<and>
     (\<exists>s. row_value d ''api heartbeat state'' = VText s) \<and> (\<exists>b. row_value d ''is connected to vpn'' = VBool b)"

definition variables_once :: "sql_db \<Rightarrow> string \<Rightarrow> string \<Rightarrow> bool" where
  "variables_once db table owner \<longleftrightarrow>
     (\<forall>r \<in> set (table_rows db table). \<forall>r' \<in> set (table_rows db table).
        row_value r owner = row_value r' owner \<longrightarrow> row_value r ''name'' = row_value r' ''name'' \<longrightarrow>
        row_value r ''value'' = row_value r' ''value'')"

context sql_meaning
begin

lemmas laws = null bool embedded number ref neg conj disj coalesce case_first case_else case_none cast

lemma device_value: "eval db ((''device'', d) # sc) (device_field f) = row_value d f"
  by (simp add: ref scope_value_def)

lemma alias_value: "a \<noteq> ''device'' \<Longrightarrow> eval db ((a, r) # (''device'', d) # sc) (device_field f) = row_value d f"
  by (simp add: ref scope_value_def)

lemma own_value: "eval db ((a, r) # sc) (NRef a f) = row_value r f"
  by (simp add: ref scope_value_def)

lemma installs_run:
  assumes "row_value d ''id'' \<noteq> VNull"
  shows "eval db [(''device'', d)] (installs_downloading resource) = VBool True \<longleftrightarrow>
    (\<exists>r \<in> set (table_rows db resource). row_value r ''device'' = row_value d ''id'' \<and>
        row_value r ''download progress'' \<noteq> VNull \<and> row_value r ''status'' = VText ''Downloading'')"
  using assms unfolding installs_downloading_def exists_rows
  by (auto simp: matching_def filter_empty_conv conj equals exists_value alias_value own_value embedded)

lemma vpn_matching:
  assumes "a \<noteq> ''device''" "row_value d field' \<noteq> VNull"
  shows "matching eval db [(''device'', d)] (table, a)
      (NAnd [NEquals (NRef a owner) (device_field field'),
             NIn (NRef a ''name'') [NText ''BALENA_SUPERVISOR_VPN_CONTROL'', NText ''RESIN_SUPERVISOR_VPN_CONTROL'']]) =
    map (\<lambda>r. [(a, r), (''device'', d)]) (vpn_rows db table owner (row_value d field'))"
proof -
  have "eval db [(a, r), (''device'', d)] (NIn (NRef a ''name'')
        [NText ''BALENA_SUPERVISOR_VPN_CONTROL'', NText ''RESIN_SUPERVISOR_VPN_CONTROL'']) = VBool True \<longleftrightarrow>
      row_value r ''name'' \<in> {VText ''BALENA_SUPERVISOR_VPN_CONTROL'', VText ''RESIN_SUPERVISOR_VPN_CONTROL''}" for r
  proof (cases "row_value r ''name'' = VNull")
    case True
    then show ?thesis by (simp add: member_null own_value)
  next
    case False
    then show ?thesis by (simp add: member own_value embedded)
  qed
  then show ?thesis
    using assms
    by (simp add: matching_def vpn_rows_def filter_map comp_def conj equals own_value alias_value)
qed

lemma vpn_control_run:
  assumes "a \<noteq> ''device''" "row_value d field' \<noteq> VNull" "variables_once db table owner"
  shows "eval db [(''device'', d)] (vpn_control_of table a owner field') =
    preferred_value (vpn_rows db table owner (row_value d field'))"
proof -
  let ?rs = "vpn_rows db table owner (row_value d field')"
  let ?wh = "NAnd [NEquals (NRef a owner) (device_field field'),
    NIn (NRef a ''name'') [NText ''BALENA_SUPERVISOR_VPN_CONTROL'', NText ''RESIN_SUPERVISOR_VPN_CONTROL'']]"
  note m = vpn_matching [OF assms(1,2), of db table owner]
  show ?thesis
  proof (cases "?rs = []")
    case True
    then show ?thesis using m by (simp add: vpn_control_of_def select_none preferred_value_def del: One_nat_def)
  next
    case False
    then have "matching eval db [(''device'', d)] (table, a) ?wh \<noteq> []" using m by simp
    from select_first [OF this, of a "''value''" "''name''"] obtain r where r: "r \<in> set ?rs"
      "eval db [(''device'', d)] (vpn_control_of table a owner field') = row_value r ''value''"
      "\<And>r'. r' \<in> set ?rs \<Longrightarrow> text_le (value_text (row_value r ''name'')) (value_text (row_value r' ''name''))"
      unfolding vpn_control_of_def m by (auto simp: own_value simp del: One_nat_def)
    have same: "row_value r ''value'' = row_value r' ''value''"
      if "r' \<in> set ?rs" "row_value r ''name'' = row_value r' ''name''" for r'
      using assms(3) r(1) that by (auto simp: variables_once_def vpn_rows_def)
    have names: "row_value r' ''name'' \<in> {VText ''BALENA_SUPERVISOR_VPN_CONTROL'', VText ''RESIN_SUPERVISOR_VPN_CONTROL''}"
      if "r' \<in> set ?rs" for r'
      using that by (auto simp: vpn_rows_def)
    show ?thesis
    proof (cases "List.find (\<lambda>r. row_value r ''name'' = VText ''BALENA_SUPERVISOR_VPN_CONTROL'') ?rs")
      case None
      then have "row_value r' ''name'' = VText ''RESIN_SUPERVISOR_VPN_CONTROL''" if "r' \<in> set ?rs" for r'
        using names [OF that] that by (auto simp: find_None_iff)
      then have "row_value r ''value'' = row_value (hd ?rs) ''value''"
        using same [of "hd ?rs"] r(1) False by auto
      with None False r(2) show ?thesis by (cases ?rs) (simp_all add: preferred_value_def)
    next
      case (Some b)
      then have b: "b \<in> set ?rs" "row_value b ''name'' = VText ''BALENA_SUPERVISOR_VPN_CONTROL''"
        using find_Some_in by fastforce+
      from r(3) [OF b(1)] names [OF r(1)] b(2) have "row_value r ''name'' = row_value b ''name''"
        by (auto simp: char_of_def)
      with same [OF b(1)] Some r(2) show ?thesis by (simp add: preferred_value_def)
    qed
  qed
qed

lemma vpn_enabled_run:
  assumes "device_row d" "variables_once db ''device config variable'' ''device''"
    "variables_once db ''application config variable'' ''application''"
  shows "eval db [(''device'', d)] isVpnEnabled = VBool True \<longleftrightarrow> vpn_wanted db d"
proof -
  have "eval db [(''device'', d)] (NCoalesce
      [vpn_control_of ''device config variable'' ''dcv'' ''device'' ''id'',
       vpn_control_of ''application config variable'' ''acv'' ''application'' ''belongs to-application'',
       NText ''not set'']) =
    first_value [preferred_value (vpn_rows db ''device config variable'' ''device'' (row_value d ''id'')),
      preferred_value (vpn_rows db ''application config variable'' ''application'' (row_value d ''belongs to-application'')),
      VText ''not set'']"
    using assms by (simp add: coalesce vpn_control_run device_row_def embedded)
  moreover have "first_value [u, v, VText t] \<noteq> VNull" for u v t
    by (cases "u = VNull"; cases "v = VNull") (simp_all add: first_value_def)
  ultimately show ?thesis
    by (simp add: isVpnEnabled_def vpn_wanted_def not_equals embedded)
qed

lemma heartbeat_run:
  assumes "device_row d"
  shows "eval db [(''device'', d)] (NIn (device_field ''api heartbeat state'') (map NText ts)) = VBool True \<longleftrightarrow>
      value_text (row_value d ''api heartbeat state'') \<in> set ts"
    and "eval db [(''device'', d)] (NEquals (device_field ''api heartbeat state'') (NText t)) = VBool True \<longleftrightarrow>
      value_text (row_value d ''api heartbeat state'') = t"
    and "eval db [(''device'', d)] (NNotEquals (device_field ''api heartbeat state'') (NText t)) = VBool True \<longleftrightarrow>
      value_text (row_value d ''api heartbeat state'') \<noteq> t"
    and "row_value d ''is connected to vpn'' = VBool False \<longleftrightarrow> row_value d ''is connected to vpn'' \<noteq> VBool True"
  using assms
  by (auto simp: device_row_def member equals not_equals device_value embedded image_image image_iff)

lemmas heartbeat_texts = heartbeat_run(1) [where ts = "[t, t']" for t t', simplified] heartbeat_run(2-4)

lemma conditions_run:
  assumes "device_row d"
  shows "eval db [(''device'', d)] (isInactiveFn b) = VBool True \<longleftrightarrow> df_inactive (facts_of b r db d)"
    and "eval db [(''device'', d)] isPostProvisioning = VBool True \<longleftrightarrow> df_post (facts_of b r db d)"
    and "eval db [(''device'', d)] isPreProvisioning = VBool True \<longleftrightarrow>
      \<not> df_vpn (facts_of b r db d) \<and> df_heartbeat (facts_of b r db d) = ''unknown'' \<and> df_never_seen (facts_of b r db d)"
    and "eval db [(''device'', d)] isOverallOffline = VBool True \<longleftrightarrow>
      \<not> df_vpn (facts_of b r db d) \<and> df_heartbeat (facts_of b r db d) \<in> {''offline'', ''unknown''}"
    and "eval db [(''device'', d)] heard_from = VBool True \<longleftrightarrow>
      df_heartbeat (facts_of b r db d) \<in> {''online'', ''timeout''}"
    and "eval db [(''device'', d)] device_downloading = VBool True \<longleftrightarrow> df_downloading (facts_of b r db d)"
    and "eval db [(''device'', d)] (NExists (device_field ''provisioning progress'')) = VBool True \<longleftrightarrow>
      df_provisioning (facts_of b r db d)"
    and "eval db [(''device'', d)] (installs_downloading r) = VBool True \<longleftrightarrow> df_installing (facts_of b r db d)"
  using assms heartbeat_texts [OF assms]
  by (auto simp: isInactiveFn_def isPostProvisioning_def isPreProvisioning_def isOverallOffline_def heard_from_def
      device_downloading_def facts_of_def bool neg conj equals not_exists exists_value device_value embedded
      installs_run device_row_def)

lemma partial_run:
  assumes "device_row d" "variables_once db ''device config variable'' ''device''"
    "variables_once db ''application config variable'' ''application''"
  shows "eval db [(''device'', d)] hasPartialConnectivity = VBool True \<longleftrightarrow>
    (df_heartbeat (facts_of b r db d) = ''timeout'' \<or>
     df_vpn (facts_of b r db d) \<and> df_heartbeat (facts_of b r db d) \<noteq> ''online'' \<or>
     \<not> df_vpn (facts_of b r db d) \<and> df_heartbeat (facts_of b r db d) = ''online'' \<and> df_vpn_wanted (facts_of b r db d))"
  using heartbeat_texts [OF assms(1)] vpn_enabled_run [OF assms]
  by (simp add: hasPartialConnectivity_def facts_of_def disj conj neg device_value)

lemma overall_status_run:
  assumes "device_row d" "variables_once db ''device config variable'' ''device''"
    "variables_once db ''application config variable'' ''application''"
  shows "eval db [(''device'', d)] (overall_status b) = VText (status_of (facts_of b ''image install'' db d))"
proof -
  let ?e = "eval db [(''device'', d)]"
  have down: "?e (NAnd [heard_from, NExists (device_field ''download progress''),
        NEquals (device_field ''status'') (NText ''Downloading'')]) = VBool True \<longleftrightarrow>
      ?e heard_from = VBool True \<and> ?e device_downloading = VBool True"
    by (simp add: device_downloading_def conj)
  have inst: "?e (NAnd [heard_from, installs_downloading ''image install'']) = VBool True \<longleftrightarrow>
      ?e heard_from = VBool True \<and> ?e (installs_downloading ''image install'') = VBool True"
    by (simp add: conj)
  show ?thesis
    unfolding overall_status_def case_first case_else embedded down inst
      conditions_run [OF assms(1), where b = b and r = "''image install''"]
      partial_run [OF assms, where b = b and r = "''image install''"]
    by (auto simp: status_of_def Let_def)
qed

lemma overall_status_v6_run:
  assumes "device_row d"
  shows "eval db [(''device'', d)] (overall_status_v6 b v) =
    VText (status_of_v6 (facts_of b (''device-installs-image$'' @ v @ ''$bypass'') db d))"
  unfolding overall_status_v6_def case_first case_else embedded
    conditions_run [OF assms, where b = b and r = "''device-installs-image$'' @ v @ ''$bypass''"]
  by (auto simp: status_of_v6_def Let_def)

lemma no_progress:
  assumes "device_row d" "status_of (facts_of b ''image install'' db d) \<in> {''inactive'', ''disconnected''}"
  shows "eval db [(''device'', d)] (overall_progress b) = VNull"
  using assms(2) unfolding overall_progress_def case_first null
    conditions_run [OF assms(1), where b = b and r = "''image install''"]
  by (auto simp: status_of_def Let_def split: if_splits)

text \<open>A pinned device runs its own release, any other the one of its application.\<close>

lemma should_be_running_release_run:
  assumes "row_value d ''belongs to-application'' \<noteq> VNull"
    and "filter (\<lambda>r. row_value r ''id'' = row_value d ''belongs to-application'') (table_rows db ''application'') = [a]"
  shows "eval db [(''device'', d)] should_be_running_release =
    (if row_value d ''is pinned on-release'' \<noteq> VNull then row_value d ''is pinned on-release''
     else row_value a ''should be running-release'')"
proof -
  have "matching eval db [(''device'', d)] (''application'', ''a'')
      (NEquals (NRef ''a'' ''id'') (device_field ''belongs to-application'')) = [[(''a'', a), (''device'', d)]]"
    using assms by (simp add: matching_def filter_map comp_def equals own_value alias_value)
  then show ?thesis
    by (simp add: should_be_running_release_def case_first case_else exists_value device_value select_one own_value)
qed

end

text \<open>
  Claim C8. In every interpretation of abstract SQL, the overall status of a device is what the decision
  \<open>status_of\<close> gives for the facts of its rows: whether it is active, provisioned, connected to the VPN, the state
  of its heartbeat, its own and its images' downloads, and whether its VPN is switched off by the
  variable of the device or else of its application, the newer name first; and while the status is
  inactive or disconnected there is no overall progress.
\<close>

theorem overall_status_decided:
  assumes "sql_meaning eval" and "device_row d"
    and "variables_once db ''device config variable'' ''device''"
    and "variables_once db ''application config variable'' ''application''"
  shows "eval db [(''device'', d)] (overall_status b) = VText (status_of (facts_of b ''image install'' db d)) \<and>
    (status_of (facts_of b ''image install'' db d) \<in> {''inactive'', ''disconnected''} \<longrightarrow>
     eval db [(''device'', d)] (overall_progress b) = VNull)"
  using sql_meaning.overall_status_run [OF assms] sql_meaning.no_progress [OF assms(1,2)] by blast

definition demo_device :: sql_row where
  "demo_device =
     [(''id'', VNum 1), (''belongs to-application'', VNum 7), (''api heartbeat state'', VText ''online''),
      (''is connected to vpn'', VBool False), (''is active'', VBool True), (''status'', VText ''Idle'')]"

definition demo_device_db :: sql_db where
  "demo_device_db =
     [(''device config variable'',
        [[(''device'', VNum 1), (''name'', VText ''RESIN_SUPERVISOR_VPN_CONTROL''), (''value'', VText ''true'')],
         [(''device'', VNum 1), (''name'', VText ''BALENA_SUPERVISOR_VPN_CONTROL''), (''value'', VText ''false'')]]),
      (''image install'', [[(''device'', VNum 2), (''status'', VText ''Downloading''), (''download progress'', VNum 5)]])]"

lemma demo_device_row: "device_row demo_device"
  unfolding device_row_def demo_device_def row_value_def by auto

theorem overall_status_decided_witness:
  "sql_eval demo_device_db [(''device'', demo_device)] (overall_status False) = VText ''operational''"
proof -
  have "variables_once demo_device_db ''device config variable'' ''device''"
    "variables_once demo_device_db ''application config variable'' ''application''"
    by code_simp+
  then have "sql_eval demo_device_db [(''device'', demo_device)] (overall_status False) =
      VText (status_of (facts_of False ''image install'' demo_device_db demo_device))"
    using overall_status_decided [OF evaluator.sql_meaning_axioms demo_device_row] by blast
  also have "status_of (facts_of False ''image install'' demo_device_db demo_device) = ''operational''"
    by code_simp
  finally show ?thesis .
qed

definition old_status :: "string \<Rightarrow> string" where
  "old_status s =
     (if s = ''disconnected'' then ''offline''
      else if s \<in> {''operational'', ''reduced-functionality''} then ''idle'' else s)"

definition heartbeat_states :: "string list" where
  "heartbeat_states = [''online'', ''timeout'', ''offline'', ''unknown'']"

text \<open>
  Version 6 of the API answers the status of the current model under its old names, disconnected
  as offline, operational and reduced functionality as idle, for every device whose heartbeat is
  heard or whose VPN is down.  (A device on the VPN whose heartbeat is lost can be updating in
  version 6 only.)
\<close>

lemma old_status_agrees:
  assumes "sql_meaning eval" and "device_row d"
    and "variables_once db ''device config variable'' ''device''"
    and "variables_once db ''application config variable'' ''application''"
    and "table_rows db (''device-installs-image$'' @ v @ ''$bypass'') = table_rows db ''image install''"
    and "row_value d ''api heartbeat state'' \<in> VText ` set heartbeat_states"
    and "row_value d ''api heartbeat state'' \<in> {VText ''online'', VText ''timeout''} \<or>
      row_value d ''is connected to vpn'' = VBool False"
  shows "\<exists>s. eval db [(''device'', d)] (overall_status b) = VText s \<and>
    eval db [(''device'', d)] (overall_status_v6 b v) = VText (old_status s)"
proof -
  let ?f = "facts_of b ''image install'' db d"
  have same: "facts_of b (''device-installs-image$'' @ v @ ''$bypass'') db d = ?f"
    unfolding facts_of_def assms(5) ..
  have "df_heartbeat ?f \<in> {''online'', ''timeout''} \<or> \<not> df_vpn ?f \<and> df_heartbeat ?f \<in> {''offline'', ''unknown''}"
    using assms(6,7) by (auto simp: facts_of_def heartbeat_states_def)
  then have "status_of_v6 ?f = old_status (status_of ?f)"
    by (elim disjE) (simp_all add: status_of_def status_of_v6_def old_status_def Let_def)
  with sql_meaning.overall_status_run [OF assms(1-4), of b] sql_meaning.overall_status_v6_run [OF assms(1,2), of db b v]
  show ?thesis unfolding same by simp
qed

definition demo_device_db6 :: sql_db where
  "demo_device_db6 =
     (''device-installs-image$v7$bypass'', table_rows demo_device_db ''image install'') # demo_device_db"

end
