(* ===== verification/VersionTerms.thy ===== *)
theory VersionTerms
  imports SqlModel ReleaseVersioning
begin

text \<open>
  The computed fields of a release as terms of abstract SQL (\<^verbatim>\<open>src/features/ci-cd/models/release-additions.ts\<close>).

  \<open>ReleaseVersioning\<close> computes the same texts from the fields of a release directly; the terms agree with
  it in every interpretation of abstract SQL.
\<close>

section \<open>Terms\<close>

definition hasText :: "string \<Rightarrow> sql" where
  "hasText f = NNotEquals (NField f) (NText [])"

definition hasPrerelease :: sql where
  "hasPrerelease = hasText ''semver prerelease''"

definition hasBuild :: sql where
  "hasBuild = hasText ''semver build''"

definition hasVariant :: sql where
  "hasVariant = hasText ''variant''"

definition isDraft :: sql where
  "isDraft = NNotExists (NField ''revision'')"

definition isFinal :: sql where
  "isFinal = NExists (NField ''revision'')"

definition revN :: sql where
  "revN = oneLineTrimSqlConcat [PText ''rev'', PTerm (NField ''revision''), PText []]"

definition versionCore :: sql where
  "versionCore =
     oneLineTrimSqlConcat [PText [], PTerm (NField ''semver major''), PText ''.'', PTerm (NField ''semver minor''),
       PText ''.'', PTerm (NField ''semver patch''), PText []]"

definition text_when :: "sql \<Rightarrow> sql \<Rightarrow> sql" where
  "text_when c x = NCast (NCase [(c, x)] (Some (NText []))) ''Text''"

definition semverField :: sql where
  "semverField =
     oneLineTrimSqlConcat [PText [], PTerm versionCore, PText [],
       PTerm (text_when hasPrerelease (oneLineTrimSqlConcat [PText ''-'', PTerm (NField ''semver prerelease''), PText []])),
       PText [],
       PTerm (text_when hasBuild (oneLineTrimSqlConcat [PText ''+'', PTerm (NField ''semver build''), PText []])),
       PText []]"

definition createdAtTimestampNode :: sql where
  "createdAtTimestampNode =
     NCast (NFloor (NMultiply (NSeconds (NField ''created at'')) (NNumber 1000))) ''Text''"

text \<open>All joins are of two parts and more, so the helpers succeed.\<close>

definition joined :: "sql res \<Rightarrow> sql" where
  "joined r = (case r of Inr x \<Rightarrow> x | Inl _ \<Rightarrow> NNull)"

definition versionCoreAndPrerelease :: sql where
  "versionCoreAndPrerelease =
     oneLineTrimSqlConcat [PText [], PTerm versionCore, PText [],
       PTerm (joined (joinTextPartsAndPrefix ''-'' ''.''
         [(hasPrerelease, NField ''semver prerelease''), (isDraft, createdAtTimestampNode)])),
       PText []]"

definition positiveRevision :: sql where
  "positiveRevision = NGreater (NField ''revision'') (NNumber 0)"

definition hasPositiveRevisionNotInBuild :: sql where
  "hasPositiveRevisionNotInBuild =
     NAnd [positiveRevision,
       NNot (NLike (oneLineTrimSqlConcat [PText ''.'', PTerm (NField ''semver build''), PText ''.''])
               (oneLineTrimSqlConcat [PText ''%.'', PTerm revN, PText ''.%'']))]"

definition rawVersionField :: sql where
  "rawVersionField =
     oneLineTrimSqlConcat [PText [], PTerm versionCoreAndPrerelease, PText [],
       PTerm (text_when (NOr [hasBuild, positiveRevision, hasVariant]) (NText ''+'')), PText [],
       PTerm (joined (joinTextParts ''.''
         [(hasBuild, NField ''semver build''), (hasPositiveRevisionNotInBuild, revN), (hasVariant, NField ''variant'')])),
       PText []]"

text \<open>The version as JSON; a line break of the template comes with its indentation.\<close>

definition line_break :: "nat \<Rightarrow> string" where
  "line_break n = CHR 0x0A # replicate n CHR 0x09"

definition json_name :: "string \<Rightarrow> string" where
  "json_name k = DQ @ k @ DQ @ '': ''"

definition versionField :: sql where
  "versionField =
     NCast (oneLineTrimSqlConcat
       [PText (''{'' @ line_break 3 @ json_name ''raw'' @ DQ), PTerm rawVersionField,
        PText (DQ @ '','' @ line_break 3 @ json_name ''major''), PTerm (NField ''semver major''),
        PText ('','' @ line_break 3 @ json_name ''minor''), PTerm (NField ''semver minor''),
        PText ('','' @ line_break 3 @ json_name ''patch''), PTerm (NField ''semver patch''),
        PText ('','' @ line_break 3 @ json_name ''prerelease'' @ ''[''),
        PTerm (joined (joinTextParts '','' [(hasPrerelease, splitStringParts (NField ''semver prerelease'') ''.''),
          (isDraft, createdAtTimestampNode)])),
        PText (''],'' @ line_break 3 @ json_name ''build'' @ ''[''),
        PTerm (joined (joinTextParts '','' [(hasBuild, splitStringParts (NField ''semver build'') ''.''),
          (hasPositiveRevisionNotInBuild, oneLineTrimSqlConcat [PText DQ, PTerm revN, PText DQ]),
          (hasVariant, oneLineTrimSqlConcat [PText DQ, PTerm (NField ''variant''), PText DQ])])),
        PText (''],'' @ line_break 3 @ json_name ''version'' @ DQ), PTerm versionCoreAndPrerelease,
        PText (DQ @ line_break 2 @ ''}'')]) ''JSON''"

definition add_release_fields :: "sql_model \<Rightarrow> sql_model res" where
  "add_release_fields m =
     res_bind (table_of m ''release'') (\<lambda>t.
       let new = (\<lambda>name ty x. \<lparr>sf_name = name, sf_type = ty, sf_required = True, sf_computed = Some x\<rparr>)
       in Inr (set_table ''release'' (t\<lparr>tb_fields := tb_fields t @
            [new ''is final'' ''Boolean'' isFinal, new ''semver'' ''Short Text'' semverField,
             new ''raw version'' ''Short Text'' rawVersionField, new ''version'' ''JSON'' versionField]\<rparr>) m))"

section \<open>The terms against the texts of a release\<close>

definition version_row :: "int \<Rightarrow> release_row \<Rightarrow> sql_row" where
  "version_row created r =
     [(''revision'', case rl_revision r of None \<Rightarrow> VNull | Some n \<Rightarrow> VNum (of_int n)),
      (''semver major'', VNum (of_int (rl_major r))), (''semver minor'', VNum (of_int (rl_minor r))),
      (''semver patch'', VNum (of_int (rl_patch r))), (''semver prerelease'', VText (rl_prerelease r)),
      (''semver build'', VText (rl_build r)), (''variant'', VText (rl_variant r)), (''created at'', VTime created)]"

lemma trim_plain: "\<forall>c \<in> set s. \<not> is_space_char c \<Longrightarrow> one_line_trim s = s"
proof (induction s)
  case Nil
  then show ?case by (simp add: one_line_trim.simps)
next
  case (Cons c cs)
  then show ?case by (subst one_line_trim.simps) simp
qed

lemma show_int_chars: "\<forall>c \<in> set (show_int i). is_digit_char c \<or> c = CHR ''-''"
  using show_nat_digits by (auto simp: show_int_def)

fun plain_piece :: "piece \<Rightarrow> bool" where
  "plain_piece (PText s) \<longleftrightarrow> (\<forall>c \<in> set s. \<not> is_space_char c)"
| "plain_piece (PTerm t) \<longleftrightarrow> True"

context sql_meaning
begin

fun piece_text :: "sql_db \<Rightarrow> sql_scope \<Rightarrow> piece \<Rightarrow> string" where
  "piece_text db sc (PText s) = s"
| "piece_text db sc (PTerm t) = value_text (eval db sc t)"

lemma concat_run:
  assumes "list_all plain_piece pieces" "\<forall>t. PTerm t \<in> set pieces \<longrightarrow> eval db sc t \<noteq> VNull"
  shows "eval db sc (oneLineTrimSqlConcat pieces) = VText (List.concat (map (piece_text db sc) pieces))"
proof -
  let ?xs = "List.concat (map (add_piece one_line_trim) pieces)"
  have "\<forall>x \<in> set ?xs. eval db sc x \<noteq> VNull"
    using assms(2) by (auto simp: add_piece_def embedded split: piece.splits if_splits)
  moreover have "List.concat (map (\<lambda>x. value_text (eval db sc x)) ?xs) = List.concat (map (piece_text db sc) pieces)"
    using assms(1)
  proof (induction pieces)
    case Nil
    then show ?case by simp
  next
    case (Cons p pieces)
    then show ?case by (cases p) (auto simp: add_piece_def trim_plain embedded)
  qed
  ultimately show ?thesis by (simp add: oneLineTrimSqlConcat_def sqlConcat_def concat)
qed

lemma own_field: "eval db [([], version_row created r)] (NField f) = row_value (version_row created r) f"
  by (simp add: field scope_value_def)

lemma row_simps:
  shows "eval db [([], version_row created r)] (NField ''revision'') = (case rl_revision r of None \<Rightarrow> VNull | Some n \<Rightarrow> VNum (of_int n))"
  and "eval db [([], version_row created r)] (NField ''semver major'') = (VNum (of_int (rl_major r)))"
  and "eval db [([], version_row created r)] (NField ''semver minor'') = (VNum (of_int (rl_minor r)))"
  and "eval db [([], version_row created r)] (NField ''semver patch'') = (VNum (of_int (rl_patch r)))"
  and "eval db [([], version_row created r)] (NField ''semver prerelease'') = (VText (rl_prerelease r))"
  and "eval db [([], version_row created r)] (NField ''semver build'') = (VText (rl_build r))"
  and "eval db [([], version_row created r)] (NField ''variant'') = (VText (rl_variant r))"
  and "eval db [([], version_row created r)] (NField ''created at'') = (VTime created)"
  unfolding own_field by (simp_all add: version_row_def row_value_def)

lemma text_when_run:
  "eval db sc (text_when c x) = (if eval db sc c = VBool True then cast_value ''Text'' (eval db sc x) else VText [])"
  by (simp add: text_when_def cast case_first case_else embedded)

lemma joinTextParts_run:
  assumes "2 \<le> length parts"
  shows "eval db sc (joined (joinTextParts sep parts)) = VText (js_join sep (map value_text (filter (\<lambda>v. v \<noteq> VNull)
    (map (\<lambda>(c, x). if eval db sc c = VBool True then cast_value ''Text'' (eval db sc x) else VNull) parts))))"
proof -
  have "map (eval db sc) (map (\<lambda>(showPart, partValue). NCast (NCase [(showPart, partValue)] None) ''Text'') parts) =
      map (\<lambda>(c, x). if eval db sc c = VBool True then cast_value ''Text'' (eval db sc x) else VNull) parts"
    by (auto simp: cast case_first case_none)
  with assms show ?thesis by (simp add: joinTextParts_def joined_def concat_with del: map_map)
qed

lemma versionCore_run:
  "eval db [([], version_row created r)] versionCore = VText (version_core_text r)"
  unfolding versionCore_def
  by (subst concat_run) (auto simp: row_simps version_core_text_def is_space_char_def)

lemma parts_run:
  shows "eval db [([], version_row created r)] hasPrerelease = VBool True \<longleftrightarrow> rl_prerelease r \<noteq> []"
    and "eval db [([], version_row created r)] hasBuild = VBool True \<longleftrightarrow> rl_build r \<noteq> []"
    and "eval db [([], version_row created r)] hasVariant = VBool True \<longleftrightarrow> rl_variant r \<noteq> []"
    and "eval db [([], version_row created r)] isFinal = VBool True \<longleftrightarrow> is_final_release r"
    and "eval db [([], version_row created r)] isDraft = VBool True \<longleftrightarrow> \<not> is_final_release r"
    and "eval db [([], version_row created r)] positiveRevision = VBool True \<longleftrightarrow>
      (case rl_revision r of None \<Rightarrow> False | Some n \<Rightarrow> n > 0)"
    and "eval db [([], version_row created r)] createdAtTimestampNode = VText (show_int created)"
proof -
  have "eval db [([], version_row created r)] (NSeconds (NField ''created at'')) = VNum (of_int created / 1000)"
    by (rule seconds) (rule row_simps)
  then have "eval db [([], version_row created r)] (NMultiply (NSeconds (NField ''created at'')) (NNumber 1000)) =
      VNum (of_int created)"
    using multiply [of db _ _ "of_int created / 1000" "NNumber 1000" "of_int 1000"] number by simp
  then show "eval db [([], version_row created r)] createdAtTimestampNode = VText (show_int created)"
    by (simp add: createdAtTimestampNode_def cast floor)
qed (auto simp: hasPrerelease_def hasBuild_def hasVariant_def hasText_def not_equals isFinal_def isDraft_def not_exists
      exists_value is_final_release_def positiveRevision_def greater number embedded row_simps split: option.split)

lemma semver_run:
  "eval db [([], version_row created r)] semverField = VText (semver_text r)"
proof -
  let ?e = "eval db [([], version_row created r)]"
  have "?e (oneLineTrimSqlConcat [PText ''-'', PTerm (NField ''semver prerelease''), PText []]) = VText (''-'' @ rl_prerelease r)"
    by (subst concat_run) (auto simp: row_simps is_space_char_def)
  moreover have "?e (oneLineTrimSqlConcat [PText ''+'', PTerm (NField ''semver build''), PText []]) = VText (''+'' @ rl_build r)"
    by (subst concat_run) (auto simp: row_simps is_space_char_def)
  ultimately show ?thesis
    unfolding semverField_def
    by (subst concat_run) (auto simp: versionCore_run text_when_run parts_run semver_text_def)
qed

lemma core_and_prerelease_run:
  "eval db [([], version_row created r)] versionCoreAndPrerelease =
     VText (ReleaseVersioning.versionCoreAndPrerelease created r)"
proof -
  let ?e = "eval db [([], version_row created r)]"
  let ?parts = "[(hasPrerelease, NField ''semver prerelease''), (isDraft, createdAtTimestampNode)]"
  have own: "?e (NField ''semver prerelease'') = VText (rl_prerelease r)" by (simp add: row_simps)
  have "?e (joined (joinTextParts ''.'' ?parts)) = VText (js_join ''.''
      ((if rl_prerelease r \<noteq> [] then [rl_prerelease r] else []) @ (if \<not> is_final_release r then [show_int created] else [])))"
    by (subst joinTextParts_run) (auto simp: own parts_run)
  moreover have "joined (joinTextPartsAndPrefix ''-'' ''.'' ?parts) =
      NConcat [text_when (NOr [hasPrerelease, isDraft]) (NText ''-''), joined (joinTextParts ''.'' ?parts)]"
    by (simp add: joinTextPartsAndPrefix_def joined_def joinTextParts_def text_when_def)
  moreover have "?e (text_when (NOr [hasPrerelease, isDraft]) (NText ''-'')) =
      VText (if rl_prerelease r \<noteq> [] \<or> \<not> is_final_release r then ''-'' else [])"
    by (simp add: text_when_run disj parts_run embedded)
  ultimately have "?e (joined (joinTextPartsAndPrefix ''-'' ''.'' ?parts)) =
      VText ((if rl_prerelease r \<noteq> [] \<or> \<not> is_final_release r then ''-'' else []) @ js_join ''.''
      ((if rl_prerelease r \<noteq> [] then [rl_prerelease r] else []) @ (if \<not> is_final_release r then [show_int created] else [])))"
    by (simp add: concat)
  then show ?thesis
    unfolding versionCoreAndPrerelease_def
    by (subst concat_run) (auto simp: versionCore_run ReleaseVersioning.versionCoreAndPrerelease_def)
qed

lemma revN_run:
  assumes "rl_revision r = Some n"
  shows "eval db [([], version_row created r)] revN = VText (rev_text n)"
  unfolding revN_def
  by (subst concat_run) (auto simp: row_simps assms rev_text_def is_space_char_def)

lemma not_in_build_run:
  "eval db [([], version_row created r)] hasPositiveRevisionNotInBuild = VBool True \<longleftrightarrow>
     ReleaseVersioning.hasPositiveRevisionNotInBuild r"
proof (cases "rl_revision r")
  case None
  then show ?thesis
    by (simp add: hasPositiveRevisionNotInBuild_def conj parts_run ReleaseVersioning.hasPositiveRevisionNotInBuild_def)
next
  case (Some n)
  let ?e = "eval db [([], version_row created r)]"
  have a: "?e (oneLineTrimSqlConcat [PText ''.'', PTerm (NField ''semver build''), PText ''.'']) = VText (''.'' @ rl_build r @ ''.'')"
    by (subst concat_run) (auto simp: row_simps is_space_char_def)
  have b: "?e (oneLineTrimSqlConcat [PText ''%.'', PTerm revN, PText ''.%'']) = VText (CHR ''%'' # (''.'' @ rev_text n @ ''.'') @ ''%'')"
    by (subst concat_run) (auto simp: revN_run [OF Some] is_space_char_def)
  have "\<forall>c \<in> set (''.'' @ rev_text n @ ''.''). c \<noteq> CHR ''%'' \<and> c \<noteq> CHR ''_'' \<and> c \<noteq> CHR 0x5C"
    using show_int_chars [of n] by (auto simp: rev_text_def is_digit_char_def)
  then have "?e (NLike (oneLineTrimSqlConcat [PText ''.'', PTerm (NField ''semver build''), PText ''.''])
      (oneLineTrimSqlConcat [PText ''%.'', PTerm revN, PText ''.%''])) =
      (if sublist (''.'' @ rev_text n @ ''.'') (''.'' @ rl_build r @ ''.'') then VBool True else VBool False)"
    using like [OF a b] by blast
  with Some show ?thesis
    by (simp add: hasPositiveRevisionNotInBuild_def conj neg parts_run ReleaseVersioning.hasPositiveRevisionNotInBuild_def)
qed

lemma raw_version_run:
  "eval db [([], version_row created r)] rawVersionField = VText (raw_version created r)"
proof -
  let ?e = "eval db [([], version_row created r)]"
  have "?e (NField ''semver build'') = VText (rl_build r)" "?e (NField ''variant'') = VText (rl_variant r)"
    by (rule row_simps)+
  moreover have "?e revN = VText (rev_text (the (rl_revision r)))" if "ReleaseVersioning.hasPositiveRevisionNotInBuild r"
    using that revN_run by (auto simp: ReleaseVersioning.hasPositiveRevisionNotInBuild_def split: option.splits)
  ultimately have parts: "?e (joined (joinTextParts ''.''
      [(hasBuild, NField ''semver build''), (hasPositiveRevisionNotInBuild, revN), (hasVariant, NField ''variant'')])) =
      VText (js_join ''.'' (build_parts r))"
    by (subst joinTextParts_run) (auto simp: parts_run not_in_build_run build_parts_def)
  have plus: "?e (text_when (NOr [hasBuild, positiveRevision, hasVariant]) (NText ''+'')) =
      VText (if rl_build r \<noteq> [] \<or> (case rl_revision r of None \<Rightarrow> False | Some n \<Rightarrow> n > 0) \<or> rl_variant r \<noteq> [] then ''+'' else [])"
    by (simp add: text_when_run disj parts_run embedded)
  show ?thesis
    unfolding rawVersionField_def
    by (subst concat_run) (auto simp: parts plus core_and_prerelease_run raw_version_def)
qed

end

text \<open>
  Claim C21. The computed fields of a release, which the database evaluates from terms built out of
  templates, are what the version texts say: in every interpretation of abstract SQL the fields for finality,
  semantic version and raw version of a row have the values of \<open>is_final_release\<close>, \<open>semver_text\<close> and
  \<open>raw_version\<close> for the release of that row.
\<close>

theorem version_terms_agree:
  assumes "sql_meaning eval"
  shows "eval db [([], version_row created r)] semverField = VText (semver_text r) \<and>
    eval db [([], version_row created r)] rawVersionField = VText (raw_version created r) \<and>
    (eval db [([], version_row created r)] isFinal = VBool True \<longleftrightarrow> is_final_release r)"
  using sql_meaning.semver_run [OF assms] sql_meaning.raw_version_run [OF assms] sql_meaning.parts_run(4) [OF assms]
  by blast

definition demo_version :: release_row where
  "demo_version =
     \<lparr>rl_app = 1, rl_major = 1, rl_minor = 2, rl_patch = 3, rl_prerelease = ''beta.1'', rl_build = ''abc'',
      rl_variant = ''dev'', rl_revision = Some 2, rl_finalized = Some 1\<rparr>"

theorem version_terms_agree_witness:
  "sql_eval [] [([], version_row 5 demo_version)] rawVersionField = VText ''1.2.3-beta.1+abc.rev2.dev'' \<and>
   raw_version 5 demo_version = ''1.2.3-beta.1+abc.rev2.dev''"
proof -
  have "raw_version 5 demo_version = ''1.2.3-beta.1+abc.rev2.dev''" by code_simp
  with version_terms_agree [OF evaluator.sql_meaning_axioms, of "[]" 5 demo_version] show ?thesis by simp
qed

end
