(* ===== verification/Translations.thy ===== *)
theory Translations
  imports DeviceStatus VersionTerms Provisioning
begin

text \<open>
  The model as it is put together (\<^verbatim>\<open>src/balena.ts\<close>) and the older versions of the API: the models they are
  translated from, the terms that translate their resources and the hooks that translate what is written
  (\<^verbatim>\<open>src/translations/v6\<close>, \<^verbatim>\<open>src/translations/v7\<close>).
\<close>

section \<open>The models\<close>

definition balena_model :: "sql_model \<Rightarrow> sql_model res" where
  "balena_model m =
     res_bind (renameVarResourcesName m) (\<lambda>m.
     res_bind (add_device_fields (add_direct_access id m)) add_release_fields)"

definition v6_my_application :: "string \<Rightarrow> sql_model \<Rightarrow> sql res" where
  "v6_my_application toVersion m =
     res_bind (aliasFields ''application'' [(''depends on-application'', AliasTerm (NCast NNull ''Integer''))] m) (\<lambda>xs.
       Inr (NSelect xs [(''application$'' @ toVersion, ''application'')]
         (NExists (NSelect [] [(ACCESS_TABLE @ ''$'' @ toVersion, ACCESS_TABLE)]
           (NEquals (NRef ACCESS_TABLE ''has direct access to-application'') (NRef ''application'' ''id'')) [] None))
         [] None))"

definition v6_release :: "string \<Rightarrow> sql_model \<Rightarrow> sql res" where
  "v6_release toVersion m =
     res_bind (aliasFields ''release''
         [(''release type'', AliasTerm (NCase [(NRef ''release'' ''is final'', NText ''final'')] (Some (NText ''draft'')))),
          (''contract'', AliasTerm (NCast (NToJson (NCast (NRef ''release'' ''contract'') ''Text'')) ''Text''))] m) (\<lambda>xs.
       Inr (NSelect xs [(''release$'' @ toVersion, ''release'')] (NBool True) [] None))"

definition v6_gateway_download :: sql where
  "v6_gateway_download =
     NSelect [NAlias (NCast NNull ''Integer'') ''id'', NAlias (NCast NNull ''Date'') ''created at'',
              NAlias (NCast NNull ''Integer'') ''is downloaded by-device'', NAlias (NCast NNull ''Short Text'') ''status'',
              NAlias (NCast NNull ''Integer'') ''download progress'', NAlias (NCast NNull ''Integer'') ''image'']
       [] (NBool False) [] None"

definition v6_model :: "sql_model \<Rightarrow> sql_model res" where
  "v6_model m =
     res_bind (aliasTable ''application'' ''my application'' None m) (\<lambda>m.
     res_bind (overrideFieldType ''release'' ''version'' ''JSON'' (add_direct_access id m)) (\<lambda>m.
     res_bind (overrideFieldType ''user'' ''actor'' ''Integer'' m) (\<lambda>m.
     res_bind (overrideFieldType ''device'' ''actor'' ''Integer'' m) (\<lambda>m.
     res_bind (overrideFieldType ''application'' ''actor'' ''Integer'' m) (\<lambda>m.
     res_bind (renameResourceField ''device'' ''env var name'' ''name'' m) (\<lambda>m.
     res_bind (renameResourceField ''application'' ''env var name'' ''name'' m)
       (overrideFieldType ''image'' ''image size'' ''Numeric Big Integer'')))))))"

definition v7_model :: "sql_model \<Rightarrow> sql_model res" where
  "v7_model m =
     res_bind (renameVarResourcesName m) (\<lambda>m.
     res_bind (overrideFieldType ''release'' ''version'' ''JSON'' m) (\<lambda>m. Inr (add_direct_access id m)))"

text \<open>The fields of a device that version 6 reads from terms or under other names.\<close>

definition v6_device :: "bool \<Rightarrow> string \<Rightarrow> (string \<times> alias_node) list" where
  "v6_device isActiveNotExist toVersion =
     [(''is managed by-device'', AliasTerm (NCast NNull ''Integer'')),
      (''logs channel'', AliasTerm (NCast NNull ''Short Text'')),
      (''vpn address'', AliasTerm (NCast NNull ''Short Text'')),
      (''should be running-release'', AliasField ''is pinned on-release''),
      (''overall status'', AliasTerm (overall_status_v6 isActiveNotExist toVersion))]"

definition v6_redirects :: "(string \<times> string) list" where
  "v6_redirects =
     [(''application-has-name'', ''application-has-config var name''), (''device-has-name'', ''device-has-config var name''),
      (''image-is downloaded by-device'', ''device'')]"

definition v7_redirects :: "(string \<times> string) list" where
  "v7_redirects =
     [(''device-installs-application-has-service name-has-name'', ''device-has-application-has-service name-has-name'')]"

text \<open>Big integers come as texts and are read back as numbers.\<close>

definition fetch_big_integer :: "('a \<Rightarrow> string option) \<Rightarrow> 'a \<Rightarrow> int option option" where
  "fetch_big_integer fetchProcessing data = map_option parseInt10 (fetchProcessing data)"

text \<open>In version 6 a contract may also be the text of one; \<open>parse\<close> is \<^verbatim>\<open>JSON.parse\<close>.\<close>

definition contract_of_text :: "(string \<Rightarrow> json res) \<Rightarrow> json \<Rightarrow> json" where
  "contract_of_text parse value =
     (case value of JStr s \<Rightarrow> (case parse s of Inr j \<Rightarrow> j | Inl _ \<Rightarrow> value) | _ \<Rightarrow> value)"

section \<open>The hooks of version 6\<close>

definition translatePropertyTo :: "string \<Rightarrow> string \<Rightarrow> json obj \<Rightarrow> json obj" where
  "translatePropertyTo currentModelField newerModelField vals =
     (case map_of vals currentModelField of
        None \<Rightarrow> vals
      | Some v \<Rightarrow> obj_delete currentModelField (obj_set newerModelField v vals))"

text \<open>The request of the hook comes with a query for the types of an alias.\<close>

definition translateDeviceTypeTo ::
  "(request \<Rightarrow> string \<Rightarrow> ('w, (int \<times> string) list) io) \<Rightarrow> request \<Rightarrow> string \<Rightarrow> json obj \<Rightarrow> ('w, json obj) io"
where
  "translateDeviceTypeTo device_types req toField vals =
     (case map_of vals ''device_type'' of
        None \<Rightarrow> io_return vals
      | Some slug \<Rightarrow>
          io_bind (getDeviceTypeBySlug device_types req (case slug of JStr s \<Rightarrow> s | _ \<Rightarrow> [])) (\<lambda>(i, _).
            io_return (obj_set toField (JNum i) (obj_delete ''device_type'' vals))))"

definition refuse_field :: "string \<Rightarrow> json obj \<Rightarrow> json obj res" where
  "refuse_field f vals = (if not_nullish (map_of vals f) then Inl (BadRequestError []) else Inr vals)"

definition v6_write_application :: "json obj \<Rightarrow> json obj res" where
  "v6_write_application vals = refuse_field ''depends_on__application'' vals"

definition v6_write_device :: "json obj \<Rightarrow> json obj res" where
  "v6_write_device vals =
     res_bind (refuse_field ''is_managed_by__device'' vals) (\<lambda>vals.
       Inr (translatePropertyTo ''should_be_running__release'' ''is_pinned_on__release'' vals))"

definition releaseTypeToIsFinalMap :: "(string \<times> bool) list" where
  "releaseTypeToIsFinalMap = [(''draft'', False), (''final'', True)]"

text \<open>The names that \<^verbatim>\<open>in\<close> finds in every object, since it inherits them.\<close>

definition inherited_names :: "string list" where
  "inherited_names =
     [''constructor'', ''__defineGetter__'', ''__defineSetter__'', ''hasOwnProperty'', ''__lookupGetter__'',
      ''__lookupSetter__'', ''isPrototypeOf'', ''propertyIsEnumerable'', ''toString'', ''valueOf'', ''__proto__'',
      ''toLocaleString'']"

text \<open>
  What the hook leaves: values, or values whose \<open>is_final\<close> is the inherited member instead of a truth value
  (\<open>None\<close> as the finality).
\<close>

record release_values =
  rv_values :: "json obj"
  rv_final :: "bool option option"

definition v6_write_release :: "json obj \<Rightarrow> release_values res" where
  "v6_write_release vals =
     (case map_of vals ''release_type'' of
        Some (JStr release_type) \<Rightarrow>
          if release_type \<notin> set (map fst releaseTypeToIsFinalMap) \<and> release_type \<notin> set inherited_names
          then Inl (BadRequestError (''It is necessary that each release has a release type that is '' @
                 DQ @ ''final'' @ DQ @ '' or '' @ DQ @ ''draft'' @ DQ @ ''.''))
          else (let translatedIsFinal = map_of releaseTypeToIsFinalMap release_type;
                    is_final = map_of vals ''is_final''
                in if not_nullish is_final \<and>
                      (case translatedIsFinal of None \<Rightarrow> True | Some b \<Rightarrow> is_final \<noteq> Some (JBool b))
                   then Inl (BadRequestError ''Conflict between the provided is_final and release_type values'')
                   else Inr \<lparr>rv_values = obj_delete ''release_type'' vals, rv_final = Some translatedIsFinal\<rparr>)
      | _ \<Rightarrow> Inr \<lparr>rv_values = vals, rv_final = None\<rparr>)"

text \<open>\<open>messages\<close> are the texts of the status codes; \<open>None\<close> is a body that was not set.\<close>

definition v6_respond :: "(int \<Rightarrow> json option) \<Rightarrow> int \<Rightarrow> json option \<Rightarrow> json option" where
  "v6_respond messages statusCode body = (if not_nullish body then body else messages statusCode)"

text \<open>
  Claim C35. A release type written through version 6 is accepted exactly when it is draft or final (or, by
  an oversight, the name of a member that every object inherits) and does not contradict a finality
  that is written with it; what is accepted has its type removed and, for draft and final, the finality
  of that type.  Every other text is refused with a bad request.
\<close>

theorem release_type_written:
  assumes "map_of vals ''release_type'' = Some (JStr t)"
  shows "(\<forall>v. v6_write_release vals = Inr v \<longrightarrow>
      map_of (rv_values v) ''release_type'' = None \<and> (\<forall>f. f \<noteq> ''release_type'' \<longrightarrow> map_of (rv_values v) f = map_of vals f) \<and>
      (t = ''final'' \<and> rv_final v = Some (Some True) \<and> map_of vals ''is_final'' \<in> {None, Some JNull, Some (JBool True)} \<or>
       t = ''draft'' \<and> rv_final v = Some (Some False) \<and> map_of vals ''is_final'' \<in> {None, Some JNull, Some (JBool False)} \<or>
       t \<in> set inherited_names \<and> rv_final v = Some None \<and> map_of vals ''is_final'' \<in> {None, Some JNull})) \<and>
    (\<forall>e. v6_write_release vals = Inl e \<longrightarrow> (\<exists>m. e = BadRequestError m)) \<and>
    ((\<exists>e. v6_write_release vals = Inl e) \<longleftrightarrow>
       t \<notin> {''draft'', ''final''} \<union> set inherited_names \<or>
       map_of vals ''is_final'' \<notin> {None, Some JNull} \<and> map_of vals ''is_final'' \<noteq> map_option JBool (map_of releaseTypeToIsFinalMap t))"
proof -
  have inh: "''draft'' \<notin> set inherited_names" "''final'' \<notin> set inherited_names"
    by (simp_all add: inherited_names_def)
  consider (final) "t = ''final''" | (draft) "t = ''draft''" | (inherited) "t \<in> set inherited_names" "t \<noteq> ''final''" "t \<noteq> ''draft''"
    | (other) "t \<notin> set inherited_names" "t \<noteq> ''final''" "t \<noteq> ''draft''" by blast
  then show ?thesis
    using assms inh
    by cases (auto simp: v6_write_release_def releaseTypeToIsFinalMap_def not_nullish_def Let_def)
qed

theorem release_type_written_witness:
  "v6_write_release [(''release_type'', JStr ''final''), (''commit'', JStr ''a'')] =
     Inr \<lparr>rv_values = [(''commit'', JStr ''a'')], rv_final = Some (Some True)\<rparr> \<and>
   (\<exists>e. v6_write_release [(''release_type'', JStr ''final''), (''is_final'', JBool False)] = Inl e)"
proof -
  have a: "map_of [(''release_type'', JStr ''final''), (''is_final'', JBool False)] ''release_type'' = Some (JStr ''final'')"
    by simp
  have "v6_write_release [(''release_type'', JStr ''final''), (''commit'', JStr ''a'')] =
     Inr \<lparr>rv_values = [(''commit'', JStr ''a'')], rv_final = Some (Some True)\<rparr>" by code_simp
  moreover have "\<exists>e. v6_write_release [(''release_type'', JStr ''final''), (''is_final'', JBool False)] = Inl e"
    using release_type_written [OF a] by (simp add: releaseTypeToIsFinalMap_def)
  ultimately show ?thesis by blast
qed

end
