(* ===== verification/DeviceAccess.thy ===== *)
theory DeviceAccess
  imports DeviceGate ApiRoles
begin

text \<open>
  Who reaches a device and the registry: the endpoints of the VPN (\<^verbatim>\<open>src/features/vpn\<close>), the access to the host
  operating system (\<^verbatim>\<open>src/features/host-os-access\<close>) and the credentials of a request for a registry token
  (\<^verbatim>\<open>src/features/registry/middleware.ts\<close>).

  Queries and changes of rows are fields of an environment; a comparison of versions and the reading of a
  basic authorization header are parameters.
\<close>

datatype access_reply = ReplyCode int | ReplyHttpErr exn | ReplyServerErr exn

definition access_error :: "exn \<Rightarrow> access_reply" where
  "access_error err = (if is_http_error err then ReplyHttpErr err else ReplyServerErr err)"

section \<open>The VPN\<close>

text \<open>
  The action \<^verbatim>\<open>cloudlink\<close> on a device, and a change of the devices with given UUIDs, optionally only of those
  managed by an instance, to a connection and a managing instance.
\<close>

record 'w vpn_env =
  vp_can_access :: "request \<Rightarrow> string \<Rightarrow> ('w, unit) io"
  vp_patch :: "request \<Rightarrow> string list \<Rightarrow> int option \<Rightarrow> bool \<times> int option \<Rightarrow> ('w, unit) io"

text \<open>The part of a request that its permissions come from.\<close>

definition perm_req_of :: "request \<Rightarrow> perm_req" where
  "perm_req_of req =
     \<lparr>req_user = map_option (\<lambda>c. \<lparr>holder_actor = cr_actor c, holder_permissions = cr_permissions c\<rparr>) (rq_user req),
      req_apiKey = map_option (\<lambda>k. \<lparr>holder_actor = Some (ak_actor k), holder_permissions = ak_permissions k\<rparr>) (rq_apiKey req)\<rparr>"

definition vpn_auth_key :: "(string \<Rightarrow> string) \<Rightarrow> string \<times> request \<Rightarrow> string" where
  "vpn_auth_key fnv1a = (\<lambda>(uuid, req). uuid @ ''$'' @ reqPermissionNormalizer fnv1a (perm_req_of req))"

definition cloudlink_status :: "'w vpn_env \<Rightarrow> string \<times> request \<Rightarrow> ('w, int option) io" where
  "cloudlink_status env = (\<lambda>(uuid, req).
     io_catch (io_bind (vp_can_access env req uuid) (\<lambda>_. io_return (Some 200)))
       (\<lambda>err. if err = UnauthorizedError then io_return (Some 401) else io_throw err))"

definition checkAuth ::
  "('w, int option) level_store \<Rightarrow> (string \<Rightarrow> string) \<Rightarrow> 'w vpn_env \<Rightarrow> string \<Rightarrow> request \<Rightarrow> ('w, int option) io"
where
  "checkAuth cache fnv1a env uuid req =
     memoizedFn cache (vpn_auth_key fnv1a) None (cloudlink_status env) (uuid, req)"

text \<open>\<open>None\<close> lets the request go on.\<close>

definition denyDeletedDevices :: "(string \<Rightarrow> ('w, (int \<times> bool) option) io) \<Rightarrow> string \<Rightarrow> ('w, access_reply option) io" where
  "denyDeletedDevices check uuid =
     io_bind (check uuid) (\<lambda>device. io_return (if device = None then Some (ReplyCode 401) else None))"

definition authDevice ::
  "('w, int option) level_store \<Rightarrow> (string \<Rightarrow> string) \<Rightarrow> 'w vpn_env \<Rightarrow> string \<Rightarrow> request \<Rightarrow> ('w, access_reply) io"
where
  "authDevice cache fnv1a env uuid req =
     io_catch
       (io_bind (checkAuth cache fnv1a env uuid req) (\<lambda>statusCode.
          io_return (ReplyCode (case statusCode of None \<Rightarrow> 0 | Some s \<Rightarrow> s))))
       (\<lambda>err. io_return (access_error err))"

text \<open>The validated body: at least one UUID and a number.\<close>

fun json_text :: "json \<Rightarrow> string option" where
  "json_text (JStr s) = Some s"
| "json_text _ = None"

definition vpn_body :: "json obj \<Rightarrow> (string list \<times> int) option" where
  "vpn_body body =
     (case (map_of body ''uuids'', map_of body ''serviceId'') of
        (Some (JArr js), Some (JNum n)) \<Rightarrow>
          if js \<noteq> [] \<and> list_all (\<lambda>j. json_text j \<noteq> None) js then Some (List.map_filter json_text js, n) else None
      | _ \<Rightarrow> None)"

definition vpn_change ::
  "'w vpn_env \<Rightarrow> request \<Rightarrow> json obj \<Rightarrow> (string list \<Rightarrow> int \<Rightarrow> int option \<times> bool \<times> int option) \<Rightarrow> ('w, access_reply) io"
where
  "vpn_change env req body change =
     (case vpn_body body of
        None \<Rightarrow> io_return (ReplyCode 400)
      | Some (uuids, serviceId) \<Rightarrow>
          (case change uuids serviceId of
             (manager, vals) \<Rightarrow>
               io_catch (io_bind (vp_patch env req uuids manager vals) (\<lambda>_. io_return (ReplyCode 200)))
                 (\<lambda>err. io_return (access_error err))))"

definition clientConnect :: "'w vpn_env \<Rightarrow> request \<Rightarrow> json obj \<Rightarrow> ('w, access_reply) io" where
  "clientConnect env req body = vpn_change env req body (\<lambda>uuids serviceId. (None, True, Some serviceId))"

definition clientDisconnect :: "'w vpn_env \<Rightarrow> request \<Rightarrow> json obj \<Rightarrow> ('w, access_reply) io" where
  "clientDisconnect env req body = vpn_change env req body (\<lambda>uuids serviceId. (Some serviceId, False, None))"

text \<open>Registration of an instance; \<open>now\<close> is the time of the request, \<open>ip_of\<close> its address.\<close>

definition service_instance_created ::
  "(string \<Rightarrow> bool) \<Rightarrow> (json \<Rightarrow> string) \<Rightarrow> json \<Rightarrow> json \<Rightarrow> request \<Rightarrow> json obj \<Rightarrow> json obj res"
where
  "service_instance_created isValid text_of_value ip_of now req vals =
     (let vals1 = (case getServiceFromRequest req of
                     None \<Rightarrow> obj_delete ''service_type'' vals | Some s \<Rightarrow> obj_set ''service_type'' (JStr s) vals)
      in res_bind
           (if not_nullish (map_of vals1 ''ip_address'')
            then (if isValid (text_of_value (the (map_of vals1 ''ip_address''))) then Inr vals1
                  else Inl (BadRequestError ''Invalid ip address''))
            else Inr (obj_set ''ip_address'' ip_of vals1))
           (\<lambda>vals2. Inr (obj_set ''last_heartbeat'' now vals2)))"

definition service_instance_changed :: "json \<Rightarrow> json obj \<Rightarrow> json obj" where
  "service_instance_changed now vals =
     (if truthy (map_of vals ''is_alive'') then obj_set ''last_heartbeat'' now vals else vals)"

section \<open>Access to the host operating system\<close>

definition HOSTOS_ACCESS_MIN_OS_VER :: string where
  "HOSTOS_ACCESS_MIN_OS_VER = ''2.0.0''"

text \<open>A device with its version, and the devices that the action \<^verbatim>\<open>ssh-host\<close> on it is allowed for.\<close>

record 'w hostos_env =
  ho_device :: "request \<Rightarrow> string \<Rightarrow> ('w, (int \<times> string option) option) io"
  ho_allowed :: "request \<Rightarrow> int \<Rightarrow> ('w, int list option) io"
  ho_gte :: "string \<Rightarrow> string \<Rightarrow> bool"

definition hostos_version_ok :: "'w hostos_env \<Rightarrow> string option \<Rightarrow> bool" where
  "hostos_version_ok env v =
     (case v of None \<Rightarrow> True | Some s \<Rightarrow> s = [] \<or> ho_gte env s HOSTOS_ACCESS_MIN_OS_VER)"

definition hostOSAccess :: "'w hostos_env \<Rightarrow> request \<Rightarrow> string \<Rightarrow> ('w, int) io" where
  "hostOSAccess env req uuid =
     io_bind (ho_device env req uuid) (\<lambda>device.
       case device of
         None \<Rightarrow> io_return 401
       | Some (i, os_version) \<Rightarrow>
           io_catch
             (io_bind (ho_allowed env req i) (\<lambda>allowed.
                case allowed of
                  Some [allowedDevice] \<Rightarrow>
                    if allowedDevice \<noteq> i then io_return 401
                    else if reqHasPermission req ''support.home'' \<or> reqHasPermission req ''admin.home'' then io_return 200
                    else if hostos_version_ok env os_version then io_return 200
                    else io_return 401
                | _ \<Rightarrow> io_return 401))
             (\<lambda>_. io_return 401))"

section \<open>Credentials for the registry\<close>

text \<open>
  What the middleware does with a request: it goes on, is answered with 401, or an error goes to the next
  handler.  The name in a basic authorization becomes the subject.
\<close>

datatype registry_gate = GoOn | Refuse401 | GoOnWith exn

definition first_given :: "string option list \<Rightarrow> bool" where
  "first_given vs = (case first_some vs of None \<Rightarrow> False | Some s \<Rightarrow> s \<noteq> [])"

definition body_apikey :: "request \<Rightarrow> string option" where
  "body_apikey req = (case rq_body req of JObj o' \<Rightarrow> Option.bind (map_of o' ''apikey'') json_text | _ \<Rightarrow> None)"

definition basicApiKeyAuthenticate ::
  "'w auth_env \<Rightarrow> (string \<Rightarrow> (string \<times> string) option) \<Rightarrow> string \<Rightarrow> ('w ctx, string option \<times> registry_gate) io"
where
  "basicApiKeyAuthenticate env basicAuthParse BUILDER_TOKEN =
     io_bind get_req (\<lambda>req0.
       let creds = Option.bind (rq_authorization req0) basicAuthParse
       in io_bind
            (case creds of
               None \<Rightarrow> io_return ()
             | Some (name, pass) \<Rightarrow> change_req (\<lambda>q. q\<lparr>rq_params_apikey := Some pass, rq_prefetch := None, rq_apiKey := None\<rparr>))
            (\<lambda>_. io_bind get_req (\<lambda>req1.
              let subject = map_option fst creds
              in if rq_params_apikey req1 = Some BUILDER_TOKEN then io_return (subject, GoOn)
                 else io_catch
                   (io_bind (retrieveAPIKey env) (\<lambda>_. io_bind get_req (\<lambda>req.
                      if (case rq_apiKey req of None \<Rightarrow> True | Some k \<Rightarrow> ak_permissions k = None \<or> ak_permissions k = Some []) \<and>
                         rq_user req = None
                      then (if first_given [rq_authorization req, rq_params_apikey req, body_apikey req, rq_query_apikey req]
                            then io_return (subject, Refuse401) else io_return (subject, GoOn))
                      else io_return (subject, GoOn))))
                   (\<lambda>err. io_return (subject, GoOnWith err)))))"

section \<open>What the instances of the VPN do to the devices\<close>

text \<open>
  The interface to the rows of devices: a change that succeeds gives exactly the rows of the named devices
  that match the filter on the managing instance the new values, one that fails changes no row.
\<close>

locale vpn_db =
  fixes env :: "'w vpn_env"
    and req :: request
    and row :: "'w \<Rightarrow> string \<Rightarrow> (bool \<times> int option) option"
  assumes patch_done: "vp_patch env req uuids manager vals w = (Inr (), w') \<Longrightarrow>
      row w' u = (case row w u of
          None \<Rightarrow> None
        | Some (c, m) \<Rightarrow> Some (if u \<in> set uuids \<and> (manager = None \<or> manager = m) then vals else (c, m)))"
    and patch_failed: "vp_patch env req uuids manager vals w = (Inl e, w') \<Longrightarrow> row w' = row w"

text \<open>A request of an instance, with its body.\<close>

datatype vpn_event = ClientConnect "json obj" | ClientDisconnect "json obj"

fun vpn_serve :: "'w vpn_env \<Rightarrow> request \<Rightarrow> vpn_event \<Rightarrow> ('w, access_reply) io" where
  "vpn_serve env req (ClientConnect body) = clientConnect env req body"
| "vpn_serve env req (ClientDisconnect body) = clientDisconnect env req body"

fun vpn_serve_all :: "'w vpn_env \<Rightarrow> request \<Rightarrow> vpn_event list \<Rightarrow> ('w, access_reply list) io" where
  "vpn_serve_all env req evs = io_mapM (vpn_serve env req) evs"

text \<open>
  The link of one device as the instances see it: the instance that holds its tunnel.  An answer other than
  200 leaves it, a connection takes it over, a disconnection ends it only for the instance that holds it.
\<close>

fun link_step :: "string \<Rightarrow> int option \<Rightarrow> vpn_event \<times> access_reply \<Rightarrow> int option" where
  "link_step u held (ClientConnect body, reply) =
     (case vpn_body body of
        Some (uuids, s) \<Rightarrow> if reply = ReplyCode 200 \<and> u \<in> set uuids then Some s else held
      | None \<Rightarrow> held)"
| "link_step u held (ClientDisconnect body, reply) =
     (case vpn_body body of
        Some (uuids, s) \<Rightarrow> if reply = ReplyCode 200 \<and> u \<in> set uuids \<and> held = Some s then None else held
      | None \<Rightarrow> held)"

definition linked_row :: "int option \<Rightarrow> bool \<times> int option" where
  "linked_row held = (held \<noteq> None, held)"

lemma access_error_not_200 [simp]: "access_error err \<noteq> ReplyCode c"
  by (simp add: access_error_def)

context vpn_db
begin

lemma change_effect:
  assumes "vpn_change env req body ch w = (r, w')" and "row w u = Some (c, m)"
  obtains reply where "r = Inr reply" and "row w' u = Some (case vpn_body body of
      None \<Rightarrow> (c, m)
    | Some (uuids, s) \<Rightarrow> (case ch uuids s of (manager, vals) \<Rightarrow>
        if reply = ReplyCode 200 \<and> u \<in> set uuids \<and> (manager = None \<or> manager = m) then vals else (c, m)))"
  using assms
  by (auto simp: vpn_change_def io_simps patch_done dest: patch_failed
      split: option.splits prod.splits sum.splits if_splits)

lemma serve_follows_link:
  assumes "vpn_serve env req ev w = (r, w')" and "row w u = Some (linked_row held)"
  obtains reply where "r = Inr reply" and "row w' u = Some (linked_row (link_step u held (ev, reply)))"
proof (cases ev)
  case (ClientConnect body)
  then have "vpn_change env req body (\<lambda>uuids s. (None, True, Some s)) w = (r, w')"
    using assms(1) by (simp add: clientConnect_def)
  note change = this assms(2) [unfolded linked_row_def]
  from change show ?thesis
  proof (rule change_effect)
    fix reply
    assume "r = Inr reply" and "row w' u = Some (case vpn_body body of None \<Rightarrow> (held \<noteq> None, held)
      | Some (uuids, s) \<Rightarrow> (case (None, True, Some s) of (manager, vals) \<Rightarrow>
          if reply = ReplyCode 200 \<and> u \<in> set uuids \<and> (manager = None \<or> manager = held) then vals else (held \<noteq> None, held)))"
    then show ?thesis
      using that ClientConnect by (cases "vpn_body body") (auto simp: linked_row_def split: if_splits)
  qed
next
  case (ClientDisconnect body)
  then have "vpn_change env req body (\<lambda>uuids s. (Some s, False, None)) w = (r, w')"
    using assms(1) by (simp add: clientDisconnect_def)
  note change = this assms(2) [unfolded linked_row_def]
  from change show ?thesis
  proof (rule change_effect)
    fix reply
    assume "r = Inr reply" and "row w' u = Some (case vpn_body body of None \<Rightarrow> (held \<noteq> None, held)
      | Some (uuids, s) \<Rightarrow> (case (Some s, False, None) of (manager, vals) \<Rightarrow>
          if reply = ReplyCode 200 \<and> u \<in> set uuids \<and> (manager = None \<or> manager = held) then vals else (held \<noteq> None, held)))"
    then show ?thesis
      using that ClientDisconnect by (cases "vpn_body body") (auto simp: linked_row_def split: if_splits)
  qed
qed

lemma serve_all_follows_link:
  "row w u = Some (linked_row held) \<Longrightarrow>
   \<exists>replies w'. vpn_serve_all env req evs w = (Inr replies, w') \<and> length replies = length evs \<and>
     row w' u = Some (linked_row (foldl (link_step u) held (zip evs replies)))"
proof (induction evs arbitrary: w held)
  case Nil
  then show ?case by (simp add: io_simps)
next
  case (Cons ev evs)
  obtain r w1 where run: "vpn_serve env req ev w = (r, w1)" by fastforce
  obtain reply where reply: "r = Inr reply" "row w1 u = Some (linked_row (link_step u held (ev, reply)))"
    using serve_follows_link [OF run Cons.prems] by blast
  show ?case
    using Cons.IH [OF reply(2)] run reply(1) by (auto simp: io_simps)
qed

end

text \<open>An implementation in memory: the rows are a list and a change fails for a request without a user.\<close>

definition mem_vpn :: "(string \<times> bool \<times> int option) list vpn_env" where
  "mem_vpn =
     \<lparr>vp_can_access = (\<lambda>req uuid rows. if map_of rows uuid = None then (Inl UnauthorizedError, rows) else (Inr (), rows)),
      vp_patch = (\<lambda>req uuids manager vals rows.
        if rq_user req = None \<and> rq_apiKey req = None then (Inl UnauthorizedError, rows)
        else (Inr (), map (\<lambda>(u, c, m). (u, if u \<in> set uuids \<and> (manager = None \<or> manager = m) then vals else (c, m))) rows))\<rparr>"

lemma map_of_map_keyed: "map_of (map (\<lambda>(k, c, m). (k, f k c m)) kvs) k = (case map_of kvs k of None \<Rightarrow> None | Some (c, m) \<Rightarrow> Some (f k c m))"
  by (induction kvs) auto

interpretation mem_vpn: vpn_db mem_vpn req map_of
  by unfold_locales (auto simp: mem_vpn_def map_of_map_keyed split: if_splits option.splits)

text \<open>
  Claim C16.  Take any run of connections and disconnections that the VPN instances report, valid or not,
  and a device whose row agrees with the link that holds it.  Every request is answered, and afterwards the
  row is the one of the link that the answers determine: the device is connected exactly when some
  instance holds it, the last one whose connection was answered with 200, and a disconnection that
  arrives late from an instance which no longer holds the device changes nothing.
\<close>

theorem vpn_link_tracked:
  assumes "vpn_db env req row" and "row w u = Some (linked_row held)"
  shows "\<exists>replies w'. vpn_serve_all env req evs w = (Inr replies, w') \<and> length replies = length evs \<and>
    row w' u = Some (linked_row (foldl (link_step u) held (zip evs replies)))"
  using vpn_db.serve_all_follows_link [OF assms] .

definition vpn_request :: request where
  "vpn_request = empty_request\<lparr>rq_user := Some no_creds\<rparr>"

text \<open>The tunnel moves from instance 1 to instance 2, and the disconnection of instance 1 comes late.\<close>

theorem vpn_link_tracked_witness:
  "\<exists>replies w'. vpn_serve_all mem_vpn vpn_request
      [ClientConnect [(''uuids'', JArr [JStr ''d'']), (''serviceId'', JNum 1)],
       ClientConnect [(''uuids'', JArr [JStr ''d'']), (''serviceId'', JNum 2)],
       ClientDisconnect [(''uuids'', JArr [JStr ''d'']), (''serviceId'', JNum 1)]] [(''d'', False, None)] = (Inr replies, w') \<and>
    length replies = 3 \<and> map_of w' ''d'' = Some (True, Some 2)"
proof -
  let ?evs = "[ClientConnect [(''uuids'', JArr [JStr ''d'']), (''serviceId'', JNum 1)],
       ClientConnect [(''uuids'', JArr [JStr ''d'']), (''serviceId'', JNum 2)],
       ClientDisconnect [(''uuids'', JArr [JStr ''d'']), (''serviceId'', JNum 1)]]"
  let ?run = "vpn_serve_all mem_vpn vpn_request ?evs [(''d'', False, None)]"
  have run: "?run = (Inr [ReplyCode 200, ReplyCode 200, ReplyCode 200], [(''d'', True, Some 2)])"
    by (simp add: clientConnect_def clientDisconnect_def vpn_change_def vpn_body_def mem_vpn_def vpn_request_def
        List.map_filter_def io_simps)
  show ?thesis
    using vpn_link_tracked [OF mem_vpn.vpn_db_axioms, of "[(''d'', False, None)]" "''d''" None vpn_request ?evs] run
    by (simp add: linked_row_def vpn_body_def List.map_filter_def)
qed

text \<open>
  Access to the host operating system is answered with 200 exactly when the device can be
  read, the action is allowed for this device and no other, and the caller is support or an administrator or
  the version is unknown or at least the minimum.  A failing check is a refusal.
\<close>

lemma hostos_access_granted:
  "(\<exists>w'. hostOSAccess env req uuid w = (Inr 200, w')) \<longleftrightarrow>
   (\<exists>i v w1 w2. ho_device env req uuid w = (Inr (Some (i, v)), w1) \<and>
      ho_allowed env req i w1 = (Inr (Some [i]), w2) \<and>
      (reqHasPermission req ''support.home'' \<or> reqHasPermission req ''admin.home'' \<or> hostos_version_ok env v))"
  by (auto simp: hostOSAccess_def io_simps split: prod.splits sum.splits option.splits list.splits if_splits)

text \<open>A refusal of the registry's middleware is for credentials that gave neither permissions nor a user.\<close>

lemma registry_refuses_useless_credentials:
  assumes "basicApiKeyAuthenticate env parse token c = (Inr (subject, Refuse401), c')"
  shows "rq_user (cx_req c') = None \<and>
    (case rq_apiKey (cx_req c') of None \<Rightarrow> True | Some k \<Rightarrow> ak_permissions k = None \<or> ak_permissions k = Some []) \<and>
    first_given [rq_authorization (cx_req c'), rq_params_apikey (cx_req c'), body_apikey (cx_req c'), rq_query_apikey (cx_req c')]"
  using assms
  by (auto simp: basicApiKeyAuthenticate_def get_req_def change_req_def Let_def io_simps
      split: prod.splits sum.splits option.splits if_splits)

end
