(* ===== verification/DeviceConfig.thy ===== *)
theory DeviceConfig
  imports ApiKeys Utils
begin

text \<open>
  The configuration file of a device (\<^verbatim>\<open>src/features/device-config\<close>) and the configuration of the services of
  its operating system (\<^verbatim>\<open>src/features/os-config\<close>).

  The library that writes the file is a parameter: it gets the record \<open>generate_options\<close> and the settings
  and answers with the properties of the file.  A property of the file may be \<^verbatim>\<open>undefined\<close> (\<open>None\<close>); the
  answer leaves such properties out.  The user is looked up before the key is made, one of the orders the
  promises of the transaction allow.
\<close>

section \<open>Device types and constants\<close>

datatype config_option = ConfigOption string | ConfigGroup string "string list"

record config_device_type =
  cdt_slug :: string
  cdt_options :: "config_option list"

record config_app =
  capp_id :: int
  capp_device_types :: "string list"

record generate_endpoints =
  ep_api :: string
  ep_delta :: string
  ep_registry :: string
  ep_vpn :: string
  ep_logs :: "string option"

record generate_options =
  go_application :: config_app
  go_device_type :: string
  go_user :: "creds option"
  go_api_key :: string
  go_mixpanel_token :: string
  go_vpn_port :: int
  go_endpoints :: generate_endpoints
  go_version :: "string option"

text \<open>The poll interval in milliseconds: absent, not a number, or a number.\<close>

datatype poll_interval = PollUndefined | PollNaN | PollMs int

record generate_settings =
  gs_poll :: poll_interval
  gs_rest :: "(string \<times> json option) list"

record config_constants =
  cc_API_HOST :: string
  cc_DELTA_HOST :: string
  cc_MIXPANEL_TOKEN :: string
  cc_NODE_EXTRA_CA_CERTS :: "string option"
  cc_REGISTRY2_HOST :: string
  cc_VPN_HOST :: string
  cc_VPN_PORT :: int
  cc_LOGS_HOST :: "string option"

record 'w config_env =
  dc_keys :: "'w key_env"
  dc_constants :: config_constants
  dc_lte :: "string \<Rightarrow> string \<Rightarrow> bool"
  dc_satisfies :: "string \<Rightarrow> string \<Rightarrow> bool"
  dc_transaction :: "('w ctx, creds option \<times> string) io \<Rightarrow> ('w ctx, creds option \<times> string) io"
  dc_read_file :: "string \<Rightarrow> ('w, string) io"
  dc_base64 :: "string \<Rightarrow> string"
  dc_generate :: "generate_options \<Rightarrow> generate_settings \<Rightarrow> json option obj res"
  dc_app :: "request \<Rightarrow> int \<Rightarrow> ('w, config_app option) io"
  dc_device_type :: "request \<Rightarrow> string \<Rightarrow> ('w, config_device_type) io"

section \<open>Making the file\<close>

definition poll_setting :: "json option \<Rightarrow> poll_interval" where
  "poll_setting v =
     (case v of
        Some (JStr s) \<Rightarrow> (case parseInt10 s of None \<Rightarrow> PollNaN | Some n \<Rightarrow> PollMs (n * 60 * 1000))
      | Some (JNum n) \<Rightarrow> PollMs (n * 60 * 1000)
      | _ \<Rightarrow> PollUndefined)"

definition logs_endpoint :: "config_constants \<Rightarrow> string option" where
  "logs_endpoint cs = map_option (\<lambda>host. ''https://'' @ host) (cc_LOGS_HOST cs)"

definition config_endpoints :: "config_constants \<Rightarrow> generate_endpoints" where
  "config_endpoints cs =
     \<lparr>ep_api = ''https://'' @ cc_API_HOST cs, ep_delta = ''https://'' @ cc_DELTA_HOST cs,
      ep_registry = cc_REGISTRY2_HOST cs, ep_vpn = cc_VPN_HOST cs, ep_logs = logs_endpoint cs\<rparr>"

text \<open>The options whose values are copied; those of two groups have been handled by the library.\<close>

definition copied_options :: "config_device_type \<Rightarrow> string list" where
  "copied_options dt =
     concat (map (\<lambda>opt. case opt of
         ConfigGroup name opts \<Rightarrow> if name \<in> {''network'', ''advanced''} then [] else opts
       | ConfigOption name \<Rightarrow> [name]) (cdt_options dt))"

definition bool_text :: "bool \<Rightarrow> string" where
  "bool_text b = (if b then ''true'' else ''false'')"

text \<open>The text of a parameter that is a string or a truth value.\<close>

definition param_text :: "json option \<Rightarrow> string option" where
  "param_text v = (case v of Some (JStr s) \<Rightarrow> Some s | Some (JBool b) \<Rightarrow> Some (bool_text b) | _ \<Rightarrow> None)"

definition switched_on :: "string option \<Rightarrow> bool" where
  "switched_on t \<longleftrightarrow> t \<in> {Some ''true'', Some ''on'', Some ''1''}"

definition development_mode :: "json obj \<Rightarrow> string option \<Rightarrow> bool" where
  "development_mode params osVersion =
     switched_on
       (if not_nullish (map_of params ''developmentMode'') then param_text (map_of params ''developmentMode'')
        else map_option (\<lambda>v. bool_text (js_endsWith v ''.dev'')) osVersion)"

definition finish_config ::
  "json obj \<Rightarrow> config_device_type \<Rightarrow> string option \<Rightarrow> string option \<Rightarrow> json option obj \<Rightarrow> json option obj"
where
  "finish_config params deviceType osVersion rootCA config0 =
     (let config1 = fold (\<lambda>optionName. obj_set optionName (map_of params optionName)) (copied_options deviceType) config0;
          config2 = (case rootCA of None \<Rightarrow> config1 | Some ca \<Rightarrow> obj_set ''balenaRootCA'' (Some (JStr ca)) config1);
          config3 = (if development_mode params osVersion then obj_set ''developmentMode'' (Some (JBool True)) config2
                     else config2)
      in if switched_on (param_text (map_of params ''secureboot''))
         then obj_set ''installer'' (Some (JObj [(''secureboot'', JBool True)])) config3 else config3)"

definition selfSignedRoot :: "'w config_env \<Rightarrow> ('w, string option) io" where
  "selfSignedRoot env =
     (case cc_NODE_EXTRA_CA_CERTS (dc_constants env) of
        None \<Rightarrow> io_return None
      | Some caFile \<Rightarrow>
          if caFile = [] then io_return None
          else io_catch (io_bind (dc_read_file env caFile) (\<lambda>pem. io_return (Some (dc_base64 env pem))))
                 (\<lambda>_. io_return None))"

definition too_old :: "'w config_env \<Rightarrow> string option \<Rightarrow> bool" where
  "too_old env osVersion \<longleftrightarrow> (case osVersion of None \<Rightarrow> False | Some v \<Rightarrow> dc_lte env v ''1.2.0'')"

definition needs_user_key :: "'w config_env \<Rightarrow> string option \<Rightarrow> bool" where
  "needs_user_key env osVersion \<longleftrightarrow> (case osVersion of None \<Rightarrow> False | Some v \<Rightarrow> dc_satisfies env v ''<2.7.8'')"

definition user_and_key ::
  "'w config_env \<Rightarrow> json obj \<Rightarrow> config_app \<Rightarrow> key_opts \<Rightarrow> string option \<Rightarrow> ('w ctx, creds option \<times> string) io"
where
  "user_and_key env params app opts osVersion =
     io_bind (getUser (ke_auth (dc_keys env)) True) (\<lambda>user.
     io_bind
       (if needs_user_key env osVersion
        then (case Option.bind user cr_id of
                None \<Rightarrow> io_throw UnauthorizedError
              | Some userId \<Rightarrow> createApiKey (dc_keys env) True ActorUser ''user-api-key'' params userId opts)
        else createApiKey (dc_keys env) True ActorApplication ''provisioning-api-key'' params (capp_id app) opts)
       (\<lambda>apiKey. io_return (user, apiKey)))"

definition library_options ::
  "'w config_env \<Rightarrow> config_app \<Rightarrow> config_device_type \<Rightarrow> creds option \<Rightarrow> string \<Rightarrow> string option \<Rightarrow> generate_options"
where
  "library_options env app deviceType user apiKey osVersion =
     \<lparr>go_application = app, go_device_type = cdt_slug deviceType, go_user = user, go_api_key = apiKey,
      go_mixpanel_token = cc_MIXPANEL_TOKEN (dc_constants env), go_vpn_port = cc_VPN_PORT (dc_constants env),
      go_endpoints = config_endpoints (dc_constants env), go_version = osVersion\<rparr>"

definition library_settings :: "json obj \<Rightarrow> generate_settings" where
  "library_settings params =
     \<lparr>gs_poll = poll_setting (map_of params ''appUpdatePollInterval''),
      gs_rest = map (\<lambda>k. (k, map_of params k)) [''network'', ''wifiSsid'', ''wifiKey'', ''ip'', ''gateway'', ''netmask'']\<rparr>"

definition generateConfig ::
  "'w config_env \<Rightarrow> json obj \<Rightarrow> config_app \<Rightarrow> key_opts \<Rightarrow> config_device_type \<Rightarrow> string option \<Rightarrow> ('w ctx, json option obj) io"
where
  "generateConfig env params app opts deviceType osVersion =
     (if too_old env osVersion
      then io_throw (BadRequestError ''balenaOS versions <= 1.2.0 are no longer supported, please update'')
      else io_bind (dc_transaction env (user_and_key env params app opts osVersion)) (\<lambda>(user, apiKey).
           io_bind (on_world (selfSignedRoot env)) (\<lambda>rootCA.
           io_bind (io_lift (dc_generate env (library_options env app deviceType user apiKey osVersion) (library_settings params))) (\<lambda>config.
           io_return (finish_config params deviceType osVersion rootCA config)))))"

section \<open>The endpoint\<close>

datatype config_reply = ConfigFile "json obj" | ConfigHttpError exn | ConfigFailed exn

definition getApp :: "'w config_env \<Rightarrow> int \<Rightarrow> ('w ctx, config_app) io" where
  "getApp env appId =
     io_bind get_req (\<lambda>req. io_bind (on_world (dc_app env req appId)) (\<lambda>app.
       case app of None \<Rightarrow> io_throw UnauthorizedError | Some a \<Rightarrow> io_return a))"

definition app_id_param :: "json option \<Rightarrow> int option" where
  "app_id_param v =
     (case checkInt (case v of Some (JStr s) \<Rightarrow> IStr s | Some (JNum n) \<Rightarrow> INum (Num (of_int n)) | _ \<Rightarrow> INull) of
        Some (Num q) \<Rightarrow> if q = 0 then None else Some \<lfloor>q\<rfloor>
      | _ \<Rightarrow> None)"

text \<open>What is left out of an answer in JSON.\<close>

definition defined_only :: "json option obj \<Rightarrow> json obj" where
  "defined_only config = List.map_filter (\<lambda>(k, v). map_option (Pair k) v) config"

definition hidden_unauthorized :: "exn \<Rightarrow> exn" where
  "hidden_unauthorized err = (if err = UnauthorizedError then NotFoundError [] else err)"

definition config_slug :: "json option \<Rightarrow> config_app \<Rightarrow> string res" where
  "config_slug deviceType app =
     (case text_of deviceType of
        Some s \<Rightarrow> Inr s
      | None \<Rightarrow> (case capp_device_types app of [] \<Rightarrow> Inl JsTypeError | s # _ \<Rightarrow> Inr s))"

definition build_config :: "'w config_env \<Rightarrow> json obj \<Rightarrow> ('w ctx, json option obj) io" where
  "build_config env body =
     (case app_id_param (map_of body ''appId'') of
        None \<Rightarrow> io_throw (BadRequestError ''An appId is required.'')
      | Some appId \<Rightarrow>
          if \<not> truthy (map_of body ''version'') then io_throw (BadRequestError ''A version is required.'')
          else if not_nullish (map_of body ''deviceType'') \<and> text_of (map_of body ''deviceType'') = None
          then io_throw (BadRequestError ''Device type must be a string if provided'')
          else io_bind (io_lift (getApiKeyOptsFromRequest (dc_keys env) body ''provisioningKey'' False)) (\<lambda>given.
            let opts = given\<lparr>ko_name := or_else (ko_name given) (Some ''Automatically generated provisioning key''),
                             ko_description := or_else (ko_description given)
                               (Some ''Automatically generated for a config file generation'')\<rparr>
            in io_bind (getApp env appId) (\<lambda>app.
               io_bind get_req (\<lambda>req.
               io_bind (io_lift (config_slug (map_of body ''deviceType'') app)) (\<lambda>slug.
               io_bind (on_world (dc_device_type env req slug)) (\<lambda>deviceType.
               generateConfig env body app opts deviceType (text_of (map_of body ''version''))))))))"

definition downloadImageConfig :: "'w config_env \<Rightarrow> json obj \<Rightarrow> json obj \<Rightarrow> ('w ctx, config_reply) io" where
  "downloadImageConfig env query body0 =
     (let body = obj_merge query body0
      in io_catch
        (io_bind (change_req (\<lambda>q. q\<lparr>rq_body := JObj body, rq_query_apikey := None\<rparr>)) (\<lambda>_.
         io_bind (build_config env body) (\<lambda>config. io_return (ConfigFile (defined_only config)))))
        (\<lambda>err. io_return (if is_http_error (hidden_unauthorized err) then ConfigHttpError (hidden_unauthorized err)
                          else ConfigFailed (hidden_unauthorized err))))"

section \<open>The services of the operating system\<close>

record os_services =
  openvpn_config :: string
  openvpn_ca :: string
  ssh_authorized_keys :: string

text \<open>The services, the overrides of the configuration file and the version of the schema.\<close>

definition os_config ::
  "config_constants \<Rightarrow> (string \<Rightarrow> string) \<Rightarrow> string \<Rightarrow> string \<Rightarrow> string \<Rightarrow> string option \<Rightarrow> os_services \<times> string obj \<times> string"
where
  "os_config cs b64decode CONFIG CA KEYS authorization =
     (let services = \<lparr>openvpn_config = CONFIG, openvpn_ca = b64decode CA, ssh_authorized_keys = KEYS\<rparr>
      in (if authorization \<noteq> None \<and> authorization \<noteq> Some [] then services\<lparr>ssh_authorized_keys := []\<rparr> else services,
          case logs_endpoint cs of None \<Rightarrow> [] | Some u \<Rightarrow> [(''logsEndpoint'', u)],
          ''1.0.0''))"

section \<open>What the file holds\<close>

lemma map_of_copied:
  "map_of (fold (\<lambda>k. obj_set k (f k)) ks o') k = (if k \<in> set ks then Some (f k) else map_of o' k)"
  by (induction ks arbitrary: o') auto

lemma finish_config_values:
  "map_of (finish_config params dt v rootCA base) k =
     (if k = ''installer'' \<and> switched_on (param_text (map_of params ''secureboot''))
      then Some (Some (JObj [(''secureboot'', JBool True)]))
      else if k = ''developmentMode'' \<and> development_mode params v then Some (Some (JBool True))
      else if k = ''balenaRootCA'' \<and> rootCA \<noteq> None then Some (map_option JStr rootCA)
      else if k \<in> set (copied_options dt) then Some (map_of params k)
      else map_of base k)"
  by (cases rootCA) (simp_all add: finish_config_def Let_def map_of_copied)

text \<open>The answer never tells that the caller lacks a permission.\<close>

lemma answer_hides_unauthorized:
  "downloadImageConfig env query body c = (r, c') \<Longrightarrow>
   r \<noteq> Inr (ConfigHttpError UnauthorizedError) \<and> r \<noteq> Inr (ConfigFailed UnauthorizedError) \<and> (\<exists>reply. r = Inr reply)"
  by (auto simp: downloadImageConfig_def hidden_unauthorized_def Let_def io_simps split: prod.splits sum.splits if_splits)

text \<open>
  Take a configuration file that was made.  The version of the operating system is supported,
  and every property of the file is decided: secure boot, the development mode and the certificate where they
  are wanted, then the parameter of the request for each option of the device type outside of the two groups that the
  library handles, and else what the library generated for the user and the key of one transaction, which asked for
  a user's own key exactly below version 2.7.8.
\<close>

lemma config_file_decided:
  assumes "generateConfig env params app opts dt v c = (Inr config, c')"
  shows "\<not> too_old env v \<and>
    (\<exists>user apiKey c1 rootCA base.
       dc_transaction env (user_and_key env params app opts v) c = (Inr (user, apiKey), c1) \<and>
       on_world (selfSignedRoot env) c1 = (Inr rootCA, c') \<and>
       dc_generate env (library_options env app dt user apiKey v) (library_settings params) = Inr base \<and>
       (\<forall>k. map_of config k =
          (if k = ''installer'' \<and> switched_on (param_text (map_of params ''secureboot''))
           then Some (Some (JObj [(''secureboot'', JBool True)]))
           else if k = ''developmentMode'' \<and> development_mode params v then Some (Some (JBool True))
           else if k = ''balenaRootCA'' \<and> rootCA \<noteq> None then Some (map_option JStr rootCA)
           else if k \<in> set (copied_options dt) then Some (map_of params k)
           else map_of base k)))"
proof -
  have new: "\<not> too_old env v" using assms by (auto simp: generateConfig_def io_throw_def split: if_splits)
  obtain user apiKey c1 rootCA base where
    run: "dc_transaction env (user_and_key env params app opts v) c = (Inr (user, apiKey), c1)"
      "on_world (selfSignedRoot env) c1 = (Inr rootCA, c')"
      "dc_generate env (library_options env app dt user apiKey v) (library_settings params) = Inr base"
    and "config = finish_config params dt v rootCA base"
    using assms new
    by (auto simp: generateConfig_def io_bind_Inr_iff io_return_Inr_iff io_lift_Inr_iff split: prod.splits)
  then show ?thesis using new finish_config_values by (intro conjI exI) auto
qed

definition demo_config :: "key_world config_env" where
  "demo_config =
     \<lparr>dc_keys = mem_key_env [(''provisioning-api-key'', 3)],
      dc_constants = \<lparr>cc_API_HOST = ''api'', cc_DELTA_HOST = ''delta'', cc_MIXPANEL_TOKEN = [], cc_NODE_EXTRA_CA_CERTS = None,
        cc_REGISTRY2_HOST = ''registry'', cc_VPN_HOST = ''vpn'', cc_VPN_PORT = 443, cc_LOGS_HOST = None\<rparr>,
      dc_lte = (\<lambda>v v'. False), dc_satisfies = (\<lambda>v r. False), dc_transaction = (\<lambda>m. m),
      dc_read_file = (\<lambda>f w. (Inl (JsError ''ENOENT''), w)), dc_base64 = id,
      dc_generate = (\<lambda>target settings. Inr [(''apiKey'', Some (JStr (go_api_key target))), (''keep'', Some JNull)]),
      dc_app = (\<lambda>req i w. (Inr (Some \<lparr>capp_id = i, capp_device_types = [''rpi'']\<rparr>), w)),
      dc_device_type = (\<lambda>req slug w. (Inr \<lparr>cdt_slug = slug, cdt_options = [ConfigOption ''ssid'']\<rparr>, w))\<rparr>"

lemma config_file_example:
  "\<exists>config c'. generateConfig demo_config [(''ssid'', JStr ''home'')] \<lparr>capp_id = 5, capp_device_types = [''rpi'']\<rparr>
      \<lparr>ko_apiKey = Some ''k'', ko_name = None, ko_description = None, ko_expiryDate = None\<rparr>
      \<lparr>cdt_slug = ''rpi'', cdt_options = [ConfigOption ''ssid'', ConfigGroup ''network'' [''ip'']]\<rparr> (Some ''2.9.0.dev'')
      \<lparr>cx_req = empty_request\<lparr>rq_user := Some no_creds, rq_creds := Some no_creds\<rparr>, cx_world = \<lparr>kw_keys = [], kw_roles = []\<rparr>\<rparr> =
        (Inr config, c') \<and>
     map_of config ''ssid'' = Some (Some (JStr ''home'')) \<and> map_of config ''ip'' = None \<and>
     map_of config ''developmentMode'' = Some (Some (JBool True)) \<and> map_of config ''apiKey'' = Some (Some (JStr ''k''))"
proof -
  let ?c = "\<lparr>cx_req = empty_request\<lparr>rq_user := Some no_creds, rq_creds := Some no_creds\<rparr>,
      cx_world = \<lparr>kw_keys = [], kw_roles = []\<rparr>\<rparr>"
  let ?app = "\<lparr>capp_id = 5, capp_device_types = [''rpi'']\<rparr>"
  let ?o = "\<lparr>ko_apiKey = Some ''k'', ko_name = None, ko_description = None, ko_expiryDate = None\<rparr>"
  let ?dt = "\<lparr>cdt_slug = ''rpi'', cdt_options = [ConfigOption ''ssid'', ConfigGroup ''network'' [''ip'']]\<rparr>"
  let ?p = "[(''ssid'', JStr ''home'')]"
  obtain c1 where key: "user_and_key demo_config ?p ?app ?o (Some ''2.9.0.dev'') ?c = (Inr (Some no_creds, ''k''), c1)"
    by (simp add: user_and_key_def needs_user_key_def getUser_def change_req_def demo_config_def mem_key_env_def
        createApiKey_def getApiKeyOptsFromRequest_def validateFieldProp_def not_nullish_def text_of_def Let_def
        create_key_row_def insert_key_def fresh_login_def get_req_def on_world_def io_simps empty_request_def)
  have demo: "dc_generate demo_config target settings = Inr [(''apiKey'', Some (JStr (go_api_key target))), (''keep'', Some JNull)]"
    "dc_transaction demo_config m = m"
    "dc_lte demo_config v v' = False" "cc_NODE_EXTRA_CA_CERTS (dc_constants demo_config) = None" for target settings m v v'
    by (simp_all add: demo_config_def)
  obtain config c' where run: "generateConfig demo_config ?p ?app ?o ?dt (Some ''2.9.0.dev'') ?c = (Inr config, c')"
    by (simp add: generateConfig_def io_simps key too_old_def selfSignedRoot_def on_world_def demo)
  show ?thesis
    using config_file_decided [OF run] run key
    by (auto simp: demo copied_options_def param_text_def switched_on_def development_mode_def not_nullish_def js_endsWith_def
        js_startsWith_def bool_text_def library_options_def)
qed

end
