(* ===== verification/FieldLimits.thy ===== *)
theory FieldLimits
  imports Prelude
begin

text \<open>
  The limits on the lengths of fields (\<^verbatim>\<open>src/features/field-size-limits\<close>) and the hook that stamps a changed
  release (\<^verbatim>\<open>src/features/ci-cd/hooks/release-update-timestamp.ts\<close>).

  The change of a name into the words of the data model is a parameter \<open>odataNameToSqlName\<close>.
\<close>

section \<open>Limits\<close>

record size_limits =
  sl_min :: "nat option"
  sl_max :: nat
  sl_nullable :: bool

datatype given_limits = LimitMax nat | LimitObject size_limits

definition limits_of :: "given_limits \<Rightarrow> size_limits" where
  "limits_of g = (case g of LimitMax n \<Rightarrow> \<lparr>sl_min = None, sl_max = n, sl_nullable = False\<rparr> | LimitObject l \<Rightarrow> l)"

definition limits_violated :: "size_limits \<Rightarrow> string \<Rightarrow> bool" where
  "limits_violated l value \<longleftrightarrow>
     length value > sl_max l \<or> (case sl_min l of None \<Rightarrow> False | Some m \<Rightarrow> length value \<le> m)"

definition field_vowels :: "char list" where
  "field_vowels = ''aeiou''"

text \<open>The last word of a field's name and the verb before it.\<close>

definition fact_type :: "string \<Rightarrow> string" where
  "fact_type sqlName =
     (let ws = rev (js_split (CHR ''-'') sqlName); term = hd ws;
          verb = (case tl ws of [] \<Rightarrow> ''has'' | v # _ \<Rightarrow> v);
          aOrAn = (case term of [] \<Rightarrow> ''a'' | c # _ \<Rightarrow> if c \<in> set field_vowels then ''an'' else ''a'')
      in verb @ '' '' @ aOrAn @ '' '' @ term)"

definition limit_message :: "(string \<Rightarrow> string) \<Rightarrow> string \<Rightarrow> string \<Rightarrow> size_limits \<Rightarrow> string" where
  "limit_message odataNameToSqlName resource field l =
     (let factType = fact_type (odataNameToSqlName field) in
        ''It is necessary that each '' @ odataNameToSqlName resource @ '' '' @
        (if sl_nullable l then ''that '' @ factType @ '', '' else []) @ factType @
        '' that has a Length (Type) that '' @
        (case sl_min l of None \<Rightarrow> [] | Some m \<Rightarrow> ''is greater than '' @ show_nat m @ '' and '') @
        ''is less than or equal to '' @ show_nat (sl_max l) @ ''.'')"

text \<open>The hook of a resource: the fields in the order they were given, the first violation is the error.\<close>

fun field_size_hook :: "(string \<Rightarrow> string) \<Rightarrow> string \<Rightarrow> (string \<times> given_limits) list \<Rightarrow> json obj \<Rightarrow> unit res" where
  "field_size_hook sqlName resource [] vals = Inr ()"
| "field_size_hook sqlName resource ((field, g) # rest) vals =
     (case map_of vals field of
        Some (JStr value) \<Rightarrow>
          if limits_violated (limits_of g) value
          then Inl (BadRequestError (limit_message sqlName resource field (limits_of g)))
          else field_size_hook sqlName resource rest vals
      | _ \<Rightarrow> field_size_hook sqlName resource rest vals)"

section \<open>The resources with limits\<close>

definition api_key_limits :: "(string \<times> given_limits) list" where
  "api_key_limits =
     [(''name'', LimitObject \<lparr>sl_min = None, sl_max = 50, sl_nullable = True\<rparr>),
      (''description'', LimitObject \<lparr>sl_min = None, sl_max = 150, sl_nullable = True\<rparr>)]"

text \<open>The limits by model and resource; each is checked when a row is created, changed or replaced.\<close>

definition FIELD_SIZE_LIMITS :: "((string \<times> string) \<times> (string \<times> given_limits) list) list" where
  "FIELD_SIZE_LIMITS =
     [((''resin'', ''api_key''), api_key_limits), ((''Auth'', ''api_key''), api_key_limits),
      ((''resin'', ''organization''), [(''name'', LimitMax 100), (''handle'', LimitMax 100)])] @
     map (\<lambda>resource. ((''resin'', resource), [(''value'', LimitMax 100000)]))
       [''application_config_variable'', ''application_environment_variable'', ''device_config_variable'',
        ''device_environment_variable'', ''device_service_environment_variable''] @
     [((''resin'', ''device_tag''), [(''value'', LimitMax 10000)])]"

definition field_size_checks :: "(string \<Rightarrow> string) \<Rightarrow> string \<Rightarrow> string \<Rightarrow> string \<Rightarrow> json obj \<Rightarrow> unit res" where
  "field_size_checks sqlName meth model resource vals =
     (if meth \<in> {''POST'', ''PATCH'', ''PUT''}
      then (case map_of FIELD_SIZE_LIMITS (model, resource) of
              None \<Rightarrow> Inr () | Some limits \<Rightarrow> field_size_hook sqlName resource limits vals)
      else Inr ())"

definition release_timestamp_hook :: "json \<Rightarrow> json obj \<Rightarrow> json obj" where
  "release_timestamp_hook now vals = obj_set ''update_timestamp'' now vals"

section \<open>What passes\<close>

definition within_limits :: "size_limits \<Rightarrow> string \<Rightarrow> bool" where
  "within_limits l value \<longleftrightarrow> (case sl_min l of None \<Rightarrow> True | Some m \<Rightarrow> m < length value) \<and> length value \<le> sl_max l"

lemma limits_violated_iff: "limits_violated l value \<longleftrightarrow> \<not> within_limits l value"
  by (auto simp: limits_violated_def within_limits_def split: option.splits)

definition field_ok :: "json obj \<Rightarrow> string \<times> given_limits \<Rightarrow> bool" where
  "field_ok vals fg =
     (case map_of vals (fst fg) of Some (JStr value) \<Rightarrow> within_limits (limits_of (snd fg)) value | _ \<Rightarrow> True)"

lemma field_size_hook_passes:
  "field_size_hook sqlName resource limits vals = Inr () \<longleftrightarrow> list_all (field_ok vals) limits"
  by (induction sqlName resource limits vals rule: field_size_hook.induct)
     (simp_all add: limits_violated_iff field_ok_def split: option.split json.split)

text \<open>A row passes exactly when every limited field is within its bounds; the error is about the first that is not.\<close>

lemma field_sizes_bounded:
  assumes "meth \<in> {''POST'', ''PATCH'', ''PUT''}" and "map_of FIELD_SIZE_LIMITS (model, resource) = Some limits"
  shows "field_size_checks sqlName meth model resource vals = Inr () \<longleftrightarrow> list_all (field_ok vals) limits"
  using assms by (simp add: field_size_checks_def field_size_hook_passes)

lemma first_violation_reported:
  assumes "list_all (field_ok vals) before" and "map_of vals field = Some (JStr value)"
    and "\<not> within_limits (limits_of g) value"
  shows "field_size_hook sqlName resource (before @ (field, g) # rest) vals =
    Inl (BadRequestError (limit_message sqlName resource field (limits_of g)))"
  using assms by (induction "before") (auto simp: limits_violated_iff field_ok_def split: option.splits json.splits)

lemma organization_name_limit:
  "field_size_checks sqlName ''PATCH'' ''resin'' ''organization'' [(''name'', JStr (replicate 100 c))] = Inr ()"
  "field_size_checks id ''PATCH'' ''resin'' ''organization'' [(''name'', JStr (replicate 101 c))] =
     Inl (BadRequestError
       ''It is necessary that each organization has a name that has a Length (Type) that is less than or equal to 100.'')"
  by (simp_all add: field_size_checks_def FIELD_SIZE_LIMITS_def limits_of_def limits_violated_def limit_message_def
      fact_type_def field_vowels_def show_nat.simps)
     code_simp

end
