(* ===== verification/LokiLogs.thy ===== *)
theory LokiLogs
  imports LogStore
begin

text \<open>
  The backend that keeps the logs of devices in Loki (\<^verbatim>\<open>src/features/device-logs/lib/backends/loki.ts\<close>) and
  the choice between the backends (\<^verbatim>\<open>device-logs/lib/config.ts\<close>).

  The service is a record of calls: a query of a range, a push, and the sockets of tail calls, whose
  events are the steps of a state machine.  The texts of JSON values are parameters.  Timestamps in answers, which are
  decimal texts, are taken as their numbers.  The counters only emit numbers and are left out.
\<close>

section \<open>Retries\<close>

definition MIN_BACKOFF :: nat where
  "MIN_BACKOFF = 100"

definition MAX_BACKOFF :: nat where
  "MAX_BACKOFF = 10 * 1000"

datatype 'e gave_up = Failed 'e | BackoffExceeded

text \<open>The loop, with fuel; \<open>delay\<close> is what a wait does to the world.\<close>

fun backoff_loop ::
  "nat \<Rightarrow> (nat \<Rightarrow> 'w \<Rightarrow> 'w) \<Rightarrow> ('e \<Rightarrow> bool) \<Rightarrow> ('w \<Rightarrow> ('e + 'a) \<times> 'w) \<Rightarrow> nat \<Rightarrow> nat \<Rightarrow> 'w \<Rightarrow> (('e gave_up + 'a) \<times> 'w) option"
where
  "backoff_loop 0 delay retryIf fn nextBackoff prevBackoff w = None"
| "backoff_loop (Suc fuel) delay retryIf fn nextBackoff prevBackoff w =
     (if nextBackoff > MAX_BACKOFF then Some (Inl BackoffExceeded, w)
      else case fn w of
        (Inr a, w1) \<Rightarrow> Some (Inr a, w1)
      | (Inl err, w1) \<Rightarrow>
          if retryIf err
          then backoff_loop fuel delay retryIf fn (nextBackoff + prevBackoff) nextBackoff (delay nextBackoff w1)
          else Some (Inl (Failed err), w1))"

definition backoff_fuel :: nat where
  "backoff_fuel = 11"

definition backoff ::
  "(nat \<Rightarrow> 'w \<Rightarrow> 'w) \<Rightarrow> ('e \<Rightarrow> bool) \<Rightarrow> ('w \<Rightarrow> ('e + 'a) \<times> 'w) \<Rightarrow> 'w \<Rightarrow> (('e gave_up + 'a) \<times> 'w) option"
where
  "backoff delay retryIf fn = backoff_loop backoff_fuel delay retryIf fn MIN_BACKOFF MIN_BACKOFF"

text \<open>Codes of the calls of the service.\<close>

definition UNAVAILABLE :: int where
  "UNAVAILABLE = 14"

definition RESOURCE_EXHAUSTED :: int where
  "RESOURCE_EXHAUSTED = 8"

text \<open>A missing code is \<open>None\<close>; a code 0 counts as it is.\<close>

definition retry_push :: "bool \<Rightarrow> int option \<Rightarrow> bool" where
  "retry_push LOKI_RETRIES_ENABLED code \<longleftrightarrow>
     LOKI_RETRIES_ENABLED \<and> (case code of None \<Rightarrow> -1 | Some c \<Rightarrow> c) \<in> {UNAVAILABLE, RESOURCE_EXHAUSTED}"

section \<open>Contexts, entries and streams\<close>

record loki_ctx = log_context +
  lc_appId :: "string option"
  lc_orgId :: "string option"

record loki_entry =
  en_seconds :: int
  en_nanos :: int
  en_line :: string
  en_device :: string

record loki_stream =
  sm_labels :: string
  sm_entries :: "loki_entry list"

record loki_query =
  qu_org :: string
  qu_query :: string
  qu_limit :: int
  qu_start :: int

text \<open>
  The memoized lookup of the application and organization of a device, a query with its status and the values of each
  stream, a push that may fail with a code, the clock's delay and the texts of JSON.
\<close>

record 'w loki_env =
  lk_context :: "int \<Rightarrow> ('w, (int \<times> int) option) io"
  lk_query :: "loki_query \<Rightarrow> ('w, int \<times> (int \<times> string) list list) io"
  lk_push :: "string \<Rightarrow> loki_stream \<Rightarrow> 'w \<Rightarrow> (int option + unit) \<times> 'w"
  lk_delay :: "nat \<Rightarrow> 'w \<Rightarrow> 'w"
  lk_retries :: bool
  lk_stringify :: "json \<Rightarrow> string"
  lk_parse :: "string \<Rightarrow> json res"

definition VERSION :: int where
  "VERSION = 2"

definition loki_context :: "(int \<times> int) option \<Rightarrow> (string \<times> string) option" where
  "loki_context app = map_option (\<lambda>(i, organization). (show_int i, show_int organization)) app"

definition assertLokiLogContext :: "'w loki_env \<Rightarrow> loki_ctx \<Rightarrow> ('w, loki_ctx) io" where
  "assertLokiLogContext env ctx =
     (if lc_appId ctx \<noteq> None \<and> lc_orgId ctx \<noteq> None then io_return ctx
      else io_bind (lk_context env (ctx_id ctx)) (\<lambda>app.
        case loki_context app of
          None \<Rightarrow> io_throw (JsError (''Device '' @ [CHR 0x27] @ show_int (ctx_id ctx) @ [CHR 0x27] @ '' app not found''))
        | Some (i, orgId) \<Rightarrow> io_return (ctx\<lparr>lc_appId := Some i, lc_orgId := Some orgId\<rparr>)))"

definition app_text :: "loki_ctx \<Rightarrow> string" where
  "app_text ctx = (case lc_appId ctx of None \<Rightarrow> ''undefined'' | Some a \<Rightarrow> a)"

definition org_text :: "loki_ctx \<Rightarrow> string" where
  "org_text ctx = (case lc_orgId ctx of None \<Rightarrow> ''undefined'' | Some a \<Rightarrow> a)"

definition quoted :: "string \<Rightarrow> string" where
  "quoted s = [CHR 0x22] @ s @ [CHR 0x22]"

definition getLabels :: "loki_ctx \<Rightarrow> string" where
  "getLabels ctx = ''{fleet_id='' @ quoted (app_text ctx) @ ''}''"

definition getDeviceQuery :: "loki_ctx \<Rightarrow> string" where
  "getDeviceQuery ctx = ''{fleet_id='' @ quoted (app_text ctx) @ ''} | device_id='' @ quoted (show_int (ctx_id ctx))"

definition getKey :: "loki_ctx \<Rightarrow> string" where
  "getKey ctx = ''o'' @ org_text ctx @ '':a'' @ app_text ctx @ '':d'' @ show_int (ctx_id ctx)"

text \<open>The stored object of a log: its fields but the time in nanoseconds, and the version.\<close>

definition log_object :: "internal_log \<Rightarrow> json obj" where
  "log_object l =
     [(''timestamp'', JNum (il_timestamp l)), (''isSystem'', JBool (il_isSystem l)), (''isStdErr'', JBool (il_isStdErr l)),
      (''message'', JStr (il_message l))] @
     (case il_serviceId l of None \<Rightarrow> [] | Some s \<Rightarrow> [(''serviceId'', JNum s)])"

definition fromDeviceLogsToEntries :: "'w loki_env \<Rightarrow> loki_ctx \<Rightarrow> internal_log list \<Rightarrow> loki_entry list" where
  "fromDeviceLogsToEntries env ctx logs =
     map (\<lambda>l. \<lparr>en_seconds = big_div (il_nano l) 1000000000, en_nanos = big_mod (il_nano l) 1000000000,
           en_line = lk_stringify env (JObj (log_object l @ [(''version'', JNum VERSION)])),
           en_device = show_int (ctx_id ctx)\<rparr>) logs"

definition fromLogEntriesToStream :: "loki_ctx \<Rightarrow> loki_entry list \<Rightarrow> loki_stream" where
  "fromLogEntriesToStream ctx logEntries = \<lparr>sm_labels = getLabels ctx, sm_entries = logEntries\<rparr>"

section \<open>History and publication\<close>

text \<open>A stored line becomes a log again, with the time it was stored at.\<close>

definition read_line :: "'w loki_env \<Rightarrow> int \<times> string \<Rightarrow> (int \<times> json obj) res" where
  "read_line env stored =
     res_bind (lk_parse env (snd stored)) (\<lambda>log.
       case log of
         JNull \<Rightarrow> Inl JsTypeError
       | JObj o' \<Rightarrow>
           if map_of o' ''version'' \<noteq> Some (JNum VERSION)
           then Inl (JsError (''Invalid Loki serialization version: '' @ lk_stringify env log))
           else Inr (fst stored, obj_set ''createdAt'' (JNum (big_div (fst stored) 1000000)) (obj_delete ''version'' o'))
       | _ \<Rightarrow> Inl (JsError (''Invalid Loki serialization version: '' @ lk_stringify env log)))"

text \<open>\<open>count\<close> is \<open>None\<close> when it is not finite.  The message of a failure leaves out the body of the answer.\<close>

definition loki_history :: "'w loki_env \<Rightarrow> loki_ctx \<Rightarrow> int option \<Rightarrow> int \<Rightarrow> ('w, json obj list) io" where
  "loki_history env ctx0 count start =
     io_bind (assertLokiLogContext env ctx0) (\<lambda>ctx.
     io_bind (lk_query env
         \<lparr>qu_org = org_text ctx, qu_query = getDeviceQuery ctx,
          qu_limit = (case count of None \<Rightarrow> 1000 | Some c \<Rightarrow> c), qu_start = start * 1000000\<rparr>) (\<lambda>(statusCode, result).
       if statusCode \<noteq> 200 then io_throw (JsError (''Failed to fetch loki history, statusCode='' @ show_int statusCode))
       else io_bind (io_lift (res_all (read_line env) (concat result))) (\<lambda>logs.
         io_return (map snd (sort_key fst logs)))))"

definition loki_push :: "'w loki_env \<Rightarrow> loki_ctx \<Rightarrow> loki_stream \<Rightarrow> 'w \<Rightarrow> ((int option gave_up + unit) \<times> 'w) option" where
  "loki_push env ctx stream =
     backoff (lk_delay env) (retry_push (lk_retries env)) (lk_push env (org_text ctx) stream)"

definition publish_failed :: "loki_ctx \<Rightarrow> exn" where
  "publish_failed ctx = BadRequestError (''Failed to publish logs for device '' @ ctx_uuid ctx)"

text \<open>The outer \<open>None\<close> is a push that was not done, which the fuel excludes.\<close>

definition loki_publish :: "'w loki_env \<Rightarrow> loki_ctx \<Rightarrow> internal_log list \<Rightarrow> 'w \<Rightarrow> (unit res \<times> 'w) option" where
  "loki_publish env ctx logs w =
     (let logEntries = fromDeviceLogsToEntries env ctx logs
      in case assertLokiLogContext env ctx w of
           (Inl err, w1) \<Rightarrow> Some (Inl err, w1)
         | (Inr lokiCtx, w1) \<Rightarrow>
             (case loki_push env lokiCtx (fromLogEntriesToStream lokiCtx logEntries) w1 of
                None \<Rightarrow> None
              | Some (Inr u, w2) \<Rightarrow> Some (Inr (), w2)
              | Some (Inl err, w2) \<Rightarrow> Some (Inl (publish_failed lokiCtx), w2)))"

section \<open>Tail calls\<close>

text \<open>
  The socket of each key, the listeners of each key in order, the sockets whose handlers are still attached with
  the key they report to, and the number of the next socket.  \<open>tl_seen\<close> collects what the listeners were given.
\<close>

record loki_tails =
  tl_calls :: "string \<Rightarrow> nat option"
  tl_listeners :: "string \<Rightarrow> nat list"
  tl_attached :: "nat \<Rightarrow> string option"
  tl_fresh :: nat
  tl_seen :: "(nat \<times> json obj) list"

definition tails_start :: loki_tails where
  "tails_start = \<lparr>tl_calls = (\<lambda>_. None), tl_listeners = (\<lambda>_. []), tl_attached = (\<lambda>_. None), tl_fresh = 0, tl_seen = []\<rparr>"

definition createTailCall :: "string \<Rightarrow> loki_tails \<Rightarrow> loki_tails" where
  "createTailCall key st =
     (if tl_calls st key \<noteq> None then st
      else st\<lparr>tl_calls := (tl_calls st)(key \<mapsto> tl_fresh st), tl_attached := (tl_attached st)(tl_fresh st \<mapsto> key),
              tl_fresh := tl_fresh st + 1\<rparr>)"

text \<open>The handler of a socket's errors and of its closing.\<close>

definition reconnect :: "nat \<Rightarrow> loki_tails \<Rightarrow> loki_tails" where
  "reconnect ws st =
     (case tl_attached st ws of
        None \<Rightarrow> st
      | Some key \<Rightarrow>
          let st1 = st\<lparr>tl_attached := (tl_attached st)(ws := None)\<rparr>
          in if tl_calls st1 key = Some ws
             then (let st2 = st1\<lparr>tl_calls := (tl_calls st1)(key := None)\<rparr>
                   in if tl_listeners st2 key \<noteq> [] then createTailCall key st2 else st2)
             else st1)"

text \<open>The lines of a message one after the other; an unreadable line ends it.\<close>

fun emit_lines :: "'w loki_env \<Rightarrow> string \<Rightarrow> (int \<times> string) list \<Rightarrow> loki_tails \<Rightarrow> loki_tails" where
  "emit_lines env key [] st = st"
| "emit_lines env key (stored # rest) st =
     (case read_line env stored of
        Inl err \<Rightarrow> st
      | Inr (_, logged) \<Rightarrow> emit_lines env key rest (st\<lparr>tl_seen := tl_seen st @ map (\<lambda>s. (s, logged)) (tl_listeners st key)\<rparr>))"

definition on_message :: "'w loki_env \<Rightarrow> nat \<Rightarrow> (int \<times> string) list \<Rightarrow> loki_tails \<Rightarrow> loki_tails" where
  "on_message env ws tls st = (case tl_attached st ws of None \<Rightarrow> st | Some key \<Rightarrow> emit_lines env key tls st)"

text \<open>Both for a completed context.\<close>

definition loki_subscribe :: "loki_ctx \<Rightarrow> nat \<Rightarrow> loki_tails \<Rightarrow> loki_tails" where
  "loki_subscribe ctx subscription st =
     (let st1 = createTailCall (getKey ctx) st
      in st1\<lparr>tl_listeners := (tl_listeners st1)(getKey ctx := tl_listeners st1 (getKey ctx) @ [subscription])\<rparr>)"

text \<open>Closing a socket leaves its handlers attached until it has closed.\<close>

definition loki_unsubscribe :: "loki_ctx \<Rightarrow> nat \<Rightarrow> loki_tails \<Rightarrow> loki_tails" where
  "loki_unsubscribe ctx subscription st =
     (let key = getKey ctx;
          st1 = st\<lparr>tl_listeners := (tl_listeners st)(key := rev (remove1 subscription (rev (tl_listeners st key))))\<rparr>
      in if tl_listeners st1 key = [] then st1\<lparr>tl_calls := (tl_calls st1)(key := None)\<rparr> else st1)"

datatype tail_event =
    Subscribe loki_ctx nat
  | Unsubscribe loki_ctx nat
  | SocketLost nat
  | SocketMessage nat "(int \<times> string) list"

fun tail_step :: "'w loki_env \<Rightarrow> tail_event \<Rightarrow> loki_tails \<Rightarrow> loki_tails" where
  "tail_step env (Subscribe ctx s) st = loki_subscribe ctx s st"
| "tail_step env (Unsubscribe ctx s) st = loki_unsubscribe ctx s st"
| "tail_step env (SocketLost ws) st = reconnect ws st"
| "tail_step env (SocketMessage ws tls) st = on_message env ws tls st"

definition tail_run :: "'w loki_env \<Rightarrow> tail_event list \<Rightarrow> loki_tails" where
  "tail_run env evs = fold (tail_step env) evs tails_start"

section \<open>The choice of backends\<close>

datatype log_backend = Loki | Redis

record logs_config =
  lg_primary_is_loki :: bool
  lg_primary_is_redis :: bool
  lg_loki_enabled :: bool
  lg_redis_enabled :: bool
  lg_loki_read_pct :: rat
  lg_loki_write_pct :: rat
  lg_redis_read_pct :: rat
  lg_redis_write_pct :: rat

definition secondary_backend :: "logs_config \<Rightarrow> log_backend" where
  "secondary_backend cfg = (if lg_primary_is_loki cfg then Redis else Loki)"

definition secondary_enabled :: "logs_config \<Rightarrow> bool" where
  "secondary_enabled cfg \<longleftrightarrow>
     (secondary_backend cfg = Loki \<and> lg_loki_enabled cfg) \<or> (secondary_backend cfg = Redis \<and> lg_redis_enabled cfg)"

text \<open>\<open>random\<close> is the number drawn, at least 0 and below 1.\<close>

definition shouldReadFromSecondary :: "logs_config \<Rightarrow> rat \<Rightarrow> bool" where
  "shouldReadFromSecondary cfg random \<longleftrightarrow> secondary_enabled cfg \<and>
     (case secondary_backend cfg of Loki \<Rightarrow> lg_loki_read_pct cfg > random * 100 | Redis \<Rightarrow> lg_redis_read_pct cfg > random * 100)"

definition shouldPublishToSecondary :: "logs_config \<Rightarrow> rat \<Rightarrow> bool" where
  "shouldPublishToSecondary cfg random \<longleftrightarrow> secondary_enabled cfg \<and>
     (case secondary_backend cfg of Loki \<Rightarrow> lg_loki_write_pct cfg > random * 100 | Redis \<Rightarrow> lg_redis_write_pct cfg > random * 100)"

definition primary_backend :: "logs_config \<Rightarrow> log_backend" where
  "primary_backend cfg = (if lg_primary_is_redis cfg then Redis else Loki)"

definition getSecondaryBackend :: "logs_config \<Rightarrow> log_backend res" where
  "getSecondaryBackend cfg =
     (if \<not> secondary_enabled cfg then Inl (JsError ''Secondary backend is not enabled'')
      else Inr (secondary_backend cfg))"

section \<open>The retries end\<close>

text \<open>
  \<open>calls\<close> counts the calls of the function in the world; a wait makes none.  The loop ends within its fuel,
  after at most ten calls.
\<close>

fun loop_calls :: "nat \<Rightarrow> nat \<Rightarrow> nat \<Rightarrow> nat" where
  "loop_calls 0 n p = 0"
| "loop_calls (Suc fuel) n p = (if n > MAX_BACKOFF then 0 else Suc (loop_calls fuel (n + p) n))"

fun loop_ends :: "nat \<Rightarrow> nat \<Rightarrow> nat \<Rightarrow> bool" where
  "loop_ends 0 n p = False"
| "loop_ends (Suc fuel) n p = (n > MAX_BACKOFF \<or> loop_ends fuel (n + p) n)"

lemma backoff_loop_ends: "loop_ends fuel n p \<Longrightarrow> \<exists>r w'. backoff_loop fuel delay retryIf fn n p w = Some (r, w')"
  by (induction fuel delay retryIf fn n p w rule: backoff_loop.induct) (auto split: sum.split prod.split)

lemma backoff_loop_calls:
  assumes "\<And>w r w'. fn w = (r, w') \<Longrightarrow> calls w' = calls w + (1 :: nat)" and "\<And>ms w. calls (delay ms w) = calls w"
  shows "backoff_loop fuel delay retryIf fn n p w = Some (r, w') \<Longrightarrow> calls w' \<le> calls w + loop_calls fuel n p"
proof (induction fuel arbitrary: n p w)
  case (Suc fuel)
  obtain x w1 where fn: "fn w = (x, w1)" by fastforce
  then have calls: "calls w1 = calls w + 1" by (rule assms(1))
  show ?case
    using Suc.prems Suc.IH [of "n + p" n "delay n w1"] fn calls
    by (auto simp: assms(2) split: if_splits sum.splits)
qed simp

lemma backoff_fuel_steps: "backoff_fuel = Suc (Suc (Suc (Suc (Suc (Suc (Suc (Suc (Suc (Suc (Suc 0))))))))))"
  by (simp add: backoff_fuel_def)

lemma backoff_ends: "\<exists>r w'. backoff delay retryIf fn w = Some (r, w')"
  unfolding backoff_def
  by (rule backoff_loop_ends) (simp add: backoff_fuel_steps MIN_BACKOFF_def MAX_BACKOFF_def)

lemma backoff_calls_bounded:
  assumes "\<And>w r w'. fn w = (r, w') \<Longrightarrow> calls w' = calls w + (1 :: nat)" and "\<And>ms w. calls (delay ms w) = calls w"
    and "backoff delay retryIf fn w = Some (r, w')"
  shows "calls w' \<le> calls w + 10"
proof -
  have "loop_calls backoff_fuel MIN_BACKOFF MIN_BACKOFF = 10"
    by (simp add: backoff_fuel_steps MIN_BACKOFF_def MAX_BACKOFF_def)
  then show ?thesis using backoff_loop_calls [OF assms(1,2) assms(3) [unfolded backoff_def]] by simp
qed

text \<open>A publication is always done: it succeeds, or fails with the one error for the caller.\<close>

lemma loki_publish_answers:
  "\<exists>r w'. loki_publish env ctx logs w = Some (r, w')"
proof (cases "assertLokiLogContext env ctx w")
  case (Pair r w1)
  then show ?thesis
  proof (cases r)
    case (Inr ctx1)
    obtain r' w2 where "loki_push env ctx1 (fromLogEntriesToStream ctx1 (fromDeviceLogsToEntries env ctx logs)) w1 = Some (r', w2)"
      using backoff_ends unfolding loki_push_def by fast
    then show ?thesis using Pair Inr by (cases r') (auto simp: loki_publish_def)
  qed (simp add: loki_publish_def)
qed

section \<open>What is stored comes back\<close>

lemma obj_delete_absent: "k \<notin> fst ` set o' \<Longrightarrow> obj_delete k o' = o'"
  by (induction o') (auto simp: obj_delete_def)

lemma obj_set_absent: "k \<notin> fst ` set o' \<Longrightarrow> obj_set k v o' = o' @ [(k, v)]"
  by (induction k v o' rule: obj_set.induct) auto

lemma stored_log_read_back:
  assumes "\<And>j. lk_parse env (lk_stringify env j) = Inr j"
  shows "map (\<lambda>e. read_line env (1000000000 * en_seconds e + en_nanos e, en_line e)) (fromDeviceLogsToEntries env ctx logs) =
    map (\<lambda>l. Inr (il_nano l, log_object l @ [(''createdAt'', JNum (big_div (il_nano l) 1000000))])) logs"
  by (auto simp: fromDeviceLogsToEntries_def read_line_def assms big_div_mod log_object_def obj_delete_def
      split: option.split)

lemma history_in_time_order:
  assumes "loki_history env ctx count start w = (Inr logs, w')"
  shows "\<exists>stored :: (int \<times> json obj) list. logs = map snd stored \<and> sorted (map fst stored)"
proof -
  obtain xs :: "(int \<times> json obj) list" where "logs = map snd (sort_key fst xs)"
    using assms by (auto simp: loki_history_def io_run_iffs split: prod.splits if_splits)
  then show ?thesis using sorted_sort_key by blast
qed

section \<open>Tail calls follow the listeners\<close>

definition tails_ok :: "loki_tails \<Rightarrow> bool" where
  "tails_ok st \<longleftrightarrow>
     (\<forall>key. tl_calls st key = None \<longleftrightarrow> tl_listeners st key = []) \<and>
     (\<forall>key ws. tl_calls st key = Some ws \<longrightarrow> tl_attached st ws = Some key) \<and>
     (\<forall>ws. tl_attached st ws \<noteq> None \<longrightarrow> ws < tl_fresh st)"

lemma tails_okD:
  assumes "tails_ok st"
  shows "tl_calls st key = None \<longleftrightarrow> tl_listeners st key = []"
    and "tl_calls st key = Some ws \<Longrightarrow> tl_attached st ws = Some key"
    and "tl_attached st ws \<noteq> None \<Longrightarrow> ws < tl_fresh st"
  using assms by (auto simp: tails_ok_def)

lemma tails_okI:
  assumes "\<And>key. tl_calls st key = None \<longleftrightarrow> tl_listeners st key = []"
    and "\<And>key ws. tl_calls st key = Some ws \<Longrightarrow> tl_attached st ws = Some key"
    and "\<And>ws key. tl_attached st ws = Some key \<Longrightarrow> ws < tl_fresh st"
  shows "tails_ok st"
  using assms by (auto simp: tails_ok_def)

lemma emit_lines_state:
  "tl_calls (emit_lines env key ls st) = tl_calls st" "tl_listeners (emit_lines env key ls st) = tl_listeners st"
  "tl_attached (emit_lines env key ls st) = tl_attached st" "tl_fresh (emit_lines env key ls st) = tl_fresh st"
  by (induction ls arbitrary: st) (simp_all split: sum.split prod.split)

lemma tails_ok_start: "tails_ok tails_start"
  by (simp add: tails_ok_def tails_start_def)

lemma tails_ok_subscribe: "tails_ok st \<Longrightarrow> tails_ok (loki_subscribe ctx s st)"
  by (rule tails_okI) (auto simp: loki_subscribe_def createTailCall_def Let_def less_Suc_eq tails_okD split: if_splits dest: tails_okD)

lemma tails_ok_unsubscribe: "tails_ok st \<Longrightarrow> tails_ok (loki_unsubscribe ctx s st)"
  by (rule tails_okI) (auto simp: loki_unsubscribe_def Let_def less_Suc_eq tails_okD split: if_splits dest: tails_okD)

lemma tails_ok_detach:
  assumes "tails_ok st" and "\<And>key. tl_calls st key \<noteq> Some ws"
  shows "tails_ok (st\<lparr>tl_attached := (tl_attached st)(ws := None)\<rparr>)"
  using assms by (intro tails_okI) (auto simp: tails_okD split: if_splits dest: tails_okD)

lemma tails_ok_recreate:
  assumes "tails_ok st" and "tl_calls st key = Some ws"
  shows "tails_ok (createTailCall key
    (st\<lparr>tl_attached := (tl_attached st)(ws := None), tl_calls := (tl_calls st)(key := None)\<rparr>))"
proof (rule tails_okI, goal_cases)
  case (1 k)
  then show ?case using assms tails_okD(1) [OF assms(1), of k] by (auto simp: createTailCall_def)
next
  case (2 k s)
  then show ?case
    using tails_okD(2) [OF assms] tails_okD(2) [OF assms(1), of k s] tails_okD(3) [OF assms(1), of s]
    by (auto simp: createTailCall_def split: if_splits)
next
  case (3 s k)
  then show ?case using tails_okD(3) [OF assms(1), of s] by (auto simp: createTailCall_def split: if_splits)
qed

lemma tails_ok_reconnect:
  assumes "tails_ok st"
  shows "tails_ok (reconnect ws st)"
proof (cases "tl_attached st ws")
  case (Some key)
  show ?thesis
  proof (cases "tl_calls st key = Some ws")
    case True
    then show ?thesis
      using Some tails_ok_recreate [OF assms True] tails_okD(1) [OF assms, of key] by (simp add: reconnect_def)
  next
    case False
    then have "tl_calls st k \<noteq> Some ws" for k using Some tails_okD(2) [OF assms, of k ws] by auto
    then show ?thesis using Some False tails_ok_detach [OF assms] by (simp add: reconnect_def)
  qed
qed (simp add: reconnect_def assms)

lemma tails_ok_message: "tails_ok st \<Longrightarrow> tails_ok (on_message env ws ls st)"
  by (cases "tl_attached st ws") (simp_all add: tails_ok_def on_message_def emit_lines_state)

lemma tails_ok_step: "tails_ok st \<Longrightarrow> tails_ok (tail_step env ev st)"
  by (cases ev) (simp_all add: tails_ok_subscribe tails_ok_unsubscribe tails_ok_reconnect tails_ok_message)

lemma tails_ok_run: "tails_ok (tail_run env evs)"
proof -
  have "tails_ok st \<Longrightarrow> tails_ok (fold (tail_step env) evs st)" for st
    by (induction evs arbitrary: st) (simp_all add: tails_ok_step)
  then show ?thesis by (simp add: tail_run_def tails_ok_start)
qed

text \<open>What a message is to its listeners: every log up to the first unreadable line, to each of them in order.\<close>

fun readable_logs :: "'w loki_env \<Rightarrow> (int \<times> string) list \<Rightarrow> json obj list" where
  "readable_logs env [] = []"
| "readable_logs env (stored # rest) =
     (case read_line env stored of Inl err \<Rightarrow> [] | Inr (_, logged) \<Rightarrow> logged # readable_logs env rest)"

lemma emit_lines_seen:
  "tl_seen (emit_lines env key ls st) =
     tl_seen st @ concat (map (\<lambda>logged. map (\<lambda>s. (s, logged)) (tl_listeners st key)) (readable_logs env ls))"
  by (induction ls arbitrary: st) (simp_all split: sum.split prod.split)


text \<open>
  A cancelled socket keeps its handlers until it has closed: a new listener of the same device gets a log that
  both sockets carry twice.
\<close>

lemma closing_socket_duplicates:
  assumes "read_line env stored = Inr (t, logged)"
  shows "tl_seen (tail_run env [Subscribe ctx 1, Unsubscribe ctx 1, Subscribe ctx 2,
    SocketMessage 0 [stored], SocketMessage 1 [stored]]) = [(2, logged), (2, logged)]"
  by (simp add: tail_run_def tails_start_def loki_subscribe_def loki_unsubscribe_def createTailCall_def on_message_def
      assms Let_def)

end
