(* ===== verification/WebLayer.thy ===== *)
theory WebLayer
  imports ApiRoles Utils
begin

text \<open>
  What every request passes: validation (\<^verbatim>\<open>src/infra/validation\<close>), the texts of errors
  (\<^verbatim>\<open>src/infra/error-handling\<close>), the line that is logged (\<^verbatim>\<open>src/features/request-logging\<close>) and the hook that
  notes the time of a changed update status (\<^verbatim>\<open>src/features/device-state/hooks.ts\<close>).

  A schema is a parser from JSON, a parameter; so are the escaping of HTML, the message of an error and the values
  that the logging library and the tracer supply.
\<close>

section \<open>Validation\<close>

text \<open>A schema answers with the parsed value or not at all; \<open>None\<close> for a body is \<^verbatim>\<open>undefined\<close>.\<close>

type_synonym schema = "json \<Rightarrow> json option"

record web_input =
  wi_query :: json
  wi_body :: "json option"

definition parsed_query :: "schema option \<Rightarrow> web_input \<Rightarrow> json option" where
  "parsed_query query inp = (case query of None \<Rightarrow> Some (JObj []) | Some parse \<Rightarrow> parse (wi_query inp))"

definition parsed_body :: "(json option \<Rightarrow> json option) option \<Rightarrow> web_input \<Rightarrow> json option option" where
  "parsed_body body inp = (case body of None \<Rightarrow> Some None | Some parse \<Rightarrow> map_option Some (parse (wi_body inp)))"

datatype 'r validated_reply = Invalid400 | Passed 'r

definition createValidatedRequestHandler ::
  "schema option \<Rightarrow> (json option \<Rightarrow> json option) option \<Rightarrow> (web_input \<Rightarrow> ('w, 'r) io) \<Rightarrow> web_input \<Rightarrow> ('w, 'r validated_reply) io"
where
  "createValidatedRequestHandler query body handler inp =
     (case parsed_query query inp of
        None \<Rightarrow> io_return Invalid400
      | Some q \<Rightarrow>
          (case parsed_body body inp of
             None \<Rightarrow> io_return Invalid400
           | Some b \<Rightarrow> io_bind (handler \<lparr>wi_query = q, wi_body = b\<rparr>) (\<lambda>r. io_return (Passed r))))"

definition withValidatedValues :: "(json obj \<Rightarrow> json obj option) \<Rightarrow> json obj \<Rightarrow> json obj res" where
  "withValidatedValues parse vals = (case parse vals of None \<Rightarrow> Inl (BadRequestError []) | Some v \<Rightarrow> Inr v)"

text \<open>A handler never sees input that its schemas did not produce, and without a schema it sees none at all.\<close>

lemma handler_sees_parsed_input:
  assumes "createValidatedRequestHandler query body handler inp w = (Inr (Passed r), w')"
  shows "\<exists>q b. handler \<lparr>wi_query = q, wi_body = b\<rparr> w = (Inr r, w') \<and>
    (case query of None \<Rightarrow> q = JObj [] | Some parse \<Rightarrow> parse (wi_query inp) = Some q) \<and>
    (case body of None \<Rightarrow> b = None | Some parse \<Rightarrow> \<exists>v. parse (wi_body inp) = Some v \<and> b = Some v)"
  using assms
  by (auto simp: createValidatedRequestHandler_def parsed_query_def parsed_body_def io_run_iffs split: option.splits)

section \<open>Errors\<close>

datatype thrown = ThrownError exn | ThrownOther string

definition translateError :: "(string \<Rightarrow> string) \<Rightarrow> (exn \<Rightarrow> string) \<Rightarrow> thrown \<Rightarrow> string" where
  "translateError escapeHtml message err =
     (case err of
        ThrownError (InternalRequestError m) \<Rightarrow> ''Server Error''
      | ThrownError e \<Rightarrow> escapeHtml (message e)
      | ThrownOther t \<Rightarrow> escapeHtml t)"

text \<open>The body of an internal error is filled in when it has none.\<close>

definition internal_error_body :: "exn \<Rightarrow> string option \<Rightarrow> string option" where
  "internal_error_body err body =
     (case err of InternalRequestError m \<Rightarrow> (case body of None \<Rightarrow> Some ''Server error'' | Some b \<Rightarrow> Some b) | _ \<Rightarrow> body)"

section \<open>Logging\<close>

definition some_nonzero :: "int option \<Rightarrow> int option" where
  "some_nonzero i = (if i = Some 0 then None else i)"

definition getCallerId :: "request \<Rightarrow> string" where
  "getCallerId req =
     (let of_key = (case some_nonzero (map_option ak_actor (rq_apiKey req)) of None \<Rightarrow> ''-'' | Some a \<Rightarrow> ''a/'' @ show_int a)
      in case rq_creds req of
           None \<Rightarrow> of_key
         | Some creds \<Rightarrow>
             (case getServiceFromRequest req of
                Some service \<Rightarrow> ''s/'' @ service
              | None \<Rightarrow>
                  if cr_service creds \<noteq> None \<or> (case cr_permissions creds of None \<Rightarrow> False | Some ps \<Rightarrow> ''service'' \<in> set ps)
                  then ''s/unknown''
                  else case some_nonzero (cr_actor creds) of
                    Some actor \<Rightarrow> ''a/'' @ show_int actor
                  | None \<Rightarrow> (case some_nonzero (cr_id creds) of Some i \<Rightarrow> ''u/'' @ show_int i | None \<Rightarrow> of_key)))"

record log_tokens =
  lt_ip :: "string option"
  lt_trace :: "string option"
  lt_method :: string
  lt_status :: "string option"
  lt_response_time :: "string option"
  lt_client :: "string option"

definition or_dash :: "string option \<Rightarrow> string" where
  "or_dash t = (case t of None \<Rightarrow> ''-'' | Some s \<Rightarrow> s)"

definition log_line :: "log_tokens \<Rightarrow> request \<Rightarrow> string \<Rightarrow> string" where
  "log_line t req url =
     js_join '' '' [case lt_ip t of None \<Rightarrow> ''undefined'' | Some ip \<Rightarrow> ip, or_dash (lt_trace t), getCallerId req, lt_method t, url,
       or_dash (lt_status t), or_dash (lt_response_time t) @ ''ms'', or_dash (lt_client t)]"

text \<open>In development the address is decoded where it can be.\<close>

definition logged_url :: "bool \<Rightarrow> (string \<Rightarrow> string option) \<Rightarrow> string \<Rightarrow> string" where
  "logged_url development decodeURIComponent url =
     (if development then (case decodeURIComponent url of None \<Rightarrow> url | Some u \<Rightarrow> u) else url)"

text \<open>A request with a token or a key that resolved to an actor or a user is never logged as anonymous.\<close>

lemma authenticated_caller_named:
  assumes "rq_creds req = Some creds" and "some_nonzero (cr_actor creds) \<noteq> None \<or> some_nonzero (cr_id creds) \<noteq> None"
  shows "getCallerId req \<noteq> ''-''"
  using assms by (auto simp: getCallerId_def Let_def split: option.split)

section \<open>Update status\<close>

definition update_status_hook :: "json \<Rightarrow> json obj \<Rightarrow> json obj" where
  "update_status_hook now vals =
     (if map_of vals ''update_status'' \<noteq> None then obj_set ''last_update_status_event'' now vals else vals)"

end
