(* ===== verification/Server.thy ===== *)
theory Server
  imports JsRegex
begin

text \<open>
  What a request meets before any feature (\<^verbatim>\<open>src/index.ts\<close>): the handlers that \<^verbatim>\<open>setup\<close> installs first, in their
  order, the redirection to https, and the choices of the parser of bodies and of compression.

  How the framework matches a mounted path and which remote addresses it trusts are parameters.
\<close>

section \<open>Requests and answers\<close>

record http_request =
  hr_method :: string
  hr_url :: string
  hr_protocol :: string
  hr_user_agent :: "string option"
  hr_origin :: "string option"
  hr_forwarded_for :: "string option"
  hr_remote_address :: "string option"

type_synonym headers = "(string \<times> string) list"

text \<open>\<open>GoesOn\<close> hands the request to the features, with the headers that its answer will have.\<close>

datatype early_reply =
    Answered int headers
  | RedirectedTo string
  | GoesOn headers

record server_config =
  sv_api_host :: string
  sv_skip_https :: "string list"
  sv_hide_unversioned :: bool
  sv_api_root :: string
  sv_mounted :: "string \<Rightarrow> string \<Rightarrow> bool"
  sv_trusted :: "string \<Rightarrow> bool"

section \<open>The handlers\<close>

text \<open>\<open>Some\<close> address is a redirection to it, \<open>None\<close> goes on.\<close>

definition fixProtocolMiddleware :: "server_config \<Rightarrow> http_request \<Rightarrow> string option" where
  "fixProtocolMiddleware cfg req =
     (if hr_protocol req = ''https'' \<or> hr_url req \<in> set (''/ping'' # sv_skip_https cfg) then None
      else if hr_forwarded_for req = None \<and>
              (case hr_remote_address req of None \<Rightarrow> False | Some a \<Rightarrow> a \<noteq> [] \<and> sv_trusted cfg a)
      then None
      else Some (''https://'' @ sv_api_host cfg @ hr_url req))"

definition dropped_headers :: "string option \<Rightarrow> bool" where
  "dropped_headers userAgent =
     (case userAgent of
        None \<Rightarrow> True
      | Some a \<Rightarrow> a = [] \<or> js_startsWith a ''Supervisor'' \<or> js_startsWith a ''curl'')"

definition browser_headers :: "http_request \<Rightarrow> headers" where
  "browser_headers req =
     [(''X-Frame-Options'', ''DENY''), (''X-Content-Type-Options'', ''nosniff''),
      (''Access-Control-Allow-Origin'', case hr_origin req of None \<Rightarrow> ''*'' | Some origin \<Rightarrow> origin),
      (''Access-Control-Allow-Credentials'', ''true''),
      (''Access-Control-Expose-Headers'', ''Retry-After'')]"

definition preflight_headers :: headers where
  "preflight_headers =
     [(''Access-Control-Allow-Methods'', ''GET, PUT, POST, PATCH, DELETE, OPTIONS, HEAD''),
      (''Access-Control-Allow-Headers'',
       ''Content-Type, Authorization, Application-Record-Count, MaxDataServiceVersion, X-Requested-With, X-Balena-Client''),
      (''Access-Control-Max-Age'', ''86400'')]"

definition cors :: "http_request \<Rightarrow> early_reply" where
  "cors req =
     (if dropped_headers (hr_user_agent req) then GoesOn []
      else if hr_method req \<noteq> ''OPTIONS'' then GoesOn (browser_headers req)
      else Answered 200 (browser_headers req @ preflight_headers))"

definition connectivity_reply :: early_reply where
  "connectivity_reply = Answered 204 []"

definition early_handlers :: "server_config \<Rightarrow> http_request \<Rightarrow> early_reply" where
  "early_handlers cfg req =
     (if sv_mounted cfg ''/connectivity-check'' (hr_url req) then connectivity_reply
      else case fixProtocolMiddleware cfg req of
        Some url \<Rightarrow> RedirectedTo url
      | None \<Rightarrow>
          (case cors req of
             GoesOn hs \<Rightarrow>
               if sv_mounted cfg ''/ping'' (hr_url req) then Answered 200 hs
               else if sv_hide_unversioned cfg \<and> sv_mounted cfg (''/'' @ sv_api_root cfg @ ''/*'') (hr_url req)
               then Answered 404 hs
               else GoesOn hs
           | reply \<Rightarrow> reply))"

text \<open>
  A request reaches the features only over https, or by an exempted address, or straight from a trusted
  sender; nothing is redirected that came over https; and browsers always get the headers against framing.
\<close>

lemma features_behind_https:
  assumes "early_handlers cfg req = GoesOn hs"
  shows "hr_protocol req = ''https'' \<or> hr_url req \<in> set (''/ping'' # sv_skip_https cfg) \<or>
    hr_forwarded_for req = None \<and> (\<exists>a. hr_remote_address req = Some a \<and> sv_trusted cfg a)"
  using assms by (auto simp: early_handlers_def connectivity_reply_def fixProtocolMiddleware_def split: if_splits option.splits)

lemma https_not_redirected:
  "hr_protocol req = ''https'' \<Longrightarrow> early_handlers cfg req \<noteq> RedirectedTo url"
  by (auto simp: early_handlers_def connectivity_reply_def fixProtocolMiddleware_def cors_def split: early_reply.splits)

lemma browsers_protected:
  assumes "early_handlers cfg req = GoesOn hs" and "\<not> dropped_headers (hr_user_agent req)"
  shows "map_of hs ''X-Frame-Options'' = Some ''DENY'' \<and> hr_method req \<noteq> ''OPTIONS''"
  using assms by (auto simp: early_handlers_def connectivity_reply_def cors_def browser_headers_def split: if_splits option.splits)

section \<open>Bodies and compression\<close>

text \<open>\<^verbatim>\<open>/^application\/(([\w!//$%&*`\-.^~]*\+)?json|csp-report)/i\<close>, tried on the text in lower case.\<close>

definition media_char :: "char \<Rightarrow> bool" where
  "media_char c \<longleftrightarrow> is_word_char c \<or> c \<in> set ''!/$%&*`-.^~''"

definition JSON_REGEXP :: re where
  "JSON_REGEXP =
     RSeqs [RBegin, RLit ''application/'',
       RGroup 1 (RAlt (RSeq (ROpt (RGroup 2 (RSeq (RStar (RClass media_char)) (RChar (CHR ''+''))))) (RLit ''json''))
                      (RLit ''csp-report''))]"

definition isJson :: "string option \<Rightarrow> bool" where
  "isJson contentType =
     (case contentType of None \<Rightarrow> False | Some t \<Rightarrow> re_test JSON_REGEXP (js_toLowerCase t))"

definition compressed_type :: "(string \<Rightarrow> bool option) \<Rightarrow> string option \<Rightarrow> bool" where
  "compressed_type compressible t =
     (case t of None \<Rightarrow> False | Some s \<Rightarrow> s = ''application/x-ndjson'' \<or> compressible s = Some True)"

lemma json_types_examples:
  "isJson (Some ''application/json; charset=utf-8'')" "isJson (Some ''Application/CSP-Report'')"
  "isJson (Some ''application/vnd.api+json'')" "\<not> isJson (Some ''text/json'')" "\<not> isJson None"
  by code_simp+

section \<open>The version\<close>

text \<open>The version is set once.\<close>

definition setVersion :: "string option \<Rightarrow> string \<Rightarrow> string res" where
  "setVersion version v =
     (case version of
        None \<Rightarrow> Inr v
      | Some old \<Rightarrow> Inl (JsError (''Can only set version once, trying to replace '' @ [CHR 0x27] @ old @ [CHR 0x27] @
                          '' with '' @ [CHR 0x27] @ v @ [CHR 0x27])))"

end
