(* ===== verification/Settings.thy ===== *)
theory Settings
  imports LokiLogs
begin

text \<open>
  The settings that are checked or put together from the environment (\<^verbatim>\<open>src/lib/config.ts\<close>,
  \<^verbatim>\<open>src/infra/redis/config.ts\<close>, \<^verbatim>\<open>src/features/registry/certs.ts\<close>, \<^verbatim>\<open>src/fileupload-handler.ts\<close>).

  The library that reads variables is not modelled: a record holds what it read, with \<open>None\<close> for a
  variable that is not set.
\<close>

section \<open>Redis\<close>

record host_port =
  hp_host :: string
  hp_port :: int

record redis_auth =
  au_username :: "string option"
  au_password :: "string option"

datatype redis_opts =
    RedisCluster "host_port list" redis_auth
  | RedisSingle "host_port option" redis_auth "host_port option" redis_auth

record redis_vars =
  rv_is_cluster :: "bool option"
  rv_hosts :: "host_port list option"
  rv_auth :: "string option"
  rv_ro_host :: "string option"
  rv_ro_hosts :: "host_port list option"
  rv_ro_auth :: "string option"

definition redisAuthVar :: "string \<Rightarrow> string option \<Rightarrow> redis_auth option \<Rightarrow> redis_auth res" where
  "redisAuthVar varName authPair defaultAuth =
     (case authPair of
        None \<Rightarrow> Inr (case defaultAuth of None \<Rightarrow> \<lparr>au_username = None, au_password = None\<rparr> | Some a \<Rightarrow> a)
      | Some p \<Rightarrow>
          (case js_split (CHR '':'') (js_trim p) of
             [x] \<Rightarrow> Inr \<lparr>au_username = None, au_password = Some x\<rparr>
           | [u, x] \<Rightarrow> Inr \<lparr>au_username = Some u, au_password = Some x\<rparr>
           | _ \<Rightarrow> Inl (JsError ([CHR 0x27] @ varName @ [CHR 0x27] @ '' must be in one of the following forms '' @
                    [CHR 0x27] @ ''username:password'' @ [CHR 0x27] @ '', '' @ [CHR 0x27] @ ''password'' @ [CHR 0x27] @
                    '', '' @ [CHR 0x27] @ '':password'' @ [CHR 0x27] @ '', or '' @ [CHR 0x27] @ ''username:'' @ [CHR 0x27]))))"

definition required :: "string \<Rightarrow> 'a option \<Rightarrow> 'a res" where
  "required varName v = (case v of None \<Rightarrow> Inl (JsError (''Missing env: '' @ varName)) | Some x \<Rightarrow> Inr x)"

definition first_host :: "host_port list \<Rightarrow> host_port option" where
  "first_host hosts = (case hosts of [] \<Rightarrow> None | h # _ \<Rightarrow> Some h)"

definition redisOpts ::
  "string \<Rightarrow> redis_vars \<Rightarrow> host_port list option \<Rightarrow> redis_auth option \<Rightarrow> bool option \<Rightarrow> redis_opts res"
where
  "redisOpts pre vars defaultHosts defaultAuth defaultIsCluster =
     res_bind (required (pre @ ''_HOST'') (case rv_hosts vars of None \<Rightarrow> defaultHosts | Some hs \<Rightarrow> Some hs)) (\<lambda>hosts.
     res_bind (redisAuthVar (pre @ ''_AUTH'') (rv_auth vars) defaultAuth) (\<lambda>auth.
     case (case rv_is_cluster vars of None \<Rightarrow> defaultIsCluster | Some b \<Rightarrow> Some b) of
       None \<Rightarrow> Inl (JsError (''Missing env: '' @ [CHR 0x27] @ pre @ ''_IS_CLUSTER'' @ [CHR 0x27]))
     | Some True \<Rightarrow>
         if rv_ro_host vars \<noteq> None
         then Inl (JsError ([CHR 0x27] @ pre @ ''_RO_HOST'' @ [CHR 0x27] @ '' must be empty when in cluster mode ''))
         else if rv_ro_auth vars \<noteq> None
         then Inl (JsError ([CHR 0x27] @ pre @ ''_RO_AUTH'' @ [CHR 0x27] @ '' must be empty when in cluster mode ''))
         else Inr (RedisCluster hosts auth)
     | Some False \<Rightarrow>
         if length hosts > 1
         then Inl (JsError ([CHR 0x27] @ pre @ ''_HOST'' @ [CHR 0x27] @ '' must contain only one entry when not in cluster mode''))
         else (let roHosts = (case rv_ro_hosts vars of None \<Rightarrow> hosts | Some hs \<Rightarrow> hs)
               in if length roHosts > 1
                  then Inl (JsError ([CHR 0x27] @ pre @ ''_RO_HOST'' @ [CHR 0x27] @ '' must contain at most one entry''))
                  else res_bind (redisAuthVar (pre @ ''_RO_AUTH'') (rv_ro_auth vars) (Some auth)) (\<lambda>roAuth.
                    Inr (RedisSingle (first_host hosts) auth (first_host roHosts) roAuth)))))"

text \<open>The general instance is never a cluster; the one for logs falls back to it.\<close>

definition redis_instances :: "redis_vars \<Rightarrow> redis_vars \<Rightarrow> (redis_opts \<times> redis_opts) res" where
  "redis_instances general_vars logs_vars =
     res_bind (redisOpts ''REDIS'' general_vars None None None) (\<lambda>general.
       case general of
         RedisCluster hosts auth \<Rightarrow> Inl (JsError ''Cluster mode is not supported for the general redis instance'')
       | RedisSingle host auth roHost roAuth \<Rightarrow>
           res_bind (redisOpts ''REDIS_LOGS'' logs_vars (Some (case host of None \<Rightarrow> [] | Some h \<Rightarrow> [h])) (Some auth) (Some False))
             (\<lambda>logs. Inr (general, logs)))"

text \<open>What a client of an instance connects to: all nodes of a cluster, or one host with its credentials.\<close>

datatype redis_target = ConnectCluster "host_port list" redis_auth | ConnectHost "host_port option" redis_auth

definition redis_target_of :: "bool \<Rightarrow> redis_opts \<Rightarrow> redis_target" where
  "redis_target_of readOnly r =
     (case r of
        RedisCluster hosts auth \<Rightarrow> ConnectCluster hosts auth
      | RedisSingle host auth roHost roAuth \<Rightarrow>
          ConnectHost (if readOnly then roHost else host) (if readOnly then roAuth else auth))"

definition hostPortToUrl :: "host_port \<Rightarrow> string" where
  "hostPortToUrl h = ''redis://'' @ hp_host h @ '':'' @ show_int (hp_port h)"

text \<open>Without settings of its own the instance for logs is the general one.\<close>

definition no_redis_vars :: redis_vars where
  "no_redis_vars = \<lparr>rv_is_cluster = None, rv_hosts = None, rv_auth = None, rv_ro_host = None, rv_ro_hosts = None, rv_ro_auth = None\<rparr>"

lemma redisOpts_defaults:
  "redisOpts pre no_redis_vars (Some (case host of None \<Rightarrow> [] | Some h \<Rightarrow> [h])) (Some auth) (Some False) =
     Inr (RedisSingle host auth host auth)"
  by (cases host) (simp_all add: redisOpts_def no_redis_vars_def required_def redisAuthVar_def first_host_def)

lemma logs_redis_defaults:
  assumes "redis_instances vars no_redis_vars = Inr (general, logs)"
  shows "redis_target_of False logs = redis_target_of False general"
proof -
  obtain g where g: "redisOpts ''REDIS'' vars None None None = Inr g"
    using assms by (auto simp: redis_instances_def res_bind_Inr_iff)
  then show ?thesis
    using assms by (cases g) (auto simp: redis_instances_def redisOpts_defaults redis_target_of_def)
qed

section \<open>Backends of the logs\<close>

record logs_settings =
  lo_ingester_host :: "string option"
  lo_query_host :: "string option"
  lo_loki_enabled :: "bool option"
  lo_loki_write_pct :: int
  lo_loki_read_pct :: int
  lo_redis_write_pct :: int
  lo_redis_read_pct :: int
  lo_redis_enabled :: bool
  lo_primary :: string

definition given_host :: "string option \<Rightarrow> bool" where
  "given_host h \<longleftrightarrow> h \<noteq> None \<and> h \<noteq> Some []"

definition loki_enabled :: "logs_settings \<Rightarrow> bool" where
  "loki_enabled lo =
     (case lo_loki_enabled lo of None \<Rightarrow> lo_ingester_host lo \<noteq> None \<and> lo_query_host lo \<noteq> None | Some b \<Rightarrow> b)"

definition check_loki_read :: "logs_settings \<Rightarrow> unit res" where
  "check_loki_read lo =
     (if lo_loki_write_pct lo < 100 \<and> lo_loki_read_pct lo > 0
      then Inl (JsError ''LOKI_READ_PCT can only be set if LOKI_WRITE_PCT is 100'') else Inr ())"

definition check_loki_hosts :: "logs_settings \<Rightarrow> unit res" where
  "check_loki_hosts lo =
     (if loki_enabled lo \<and> (\<not> given_host (lo_ingester_host lo) \<or> \<not> given_host (lo_query_host lo))
      then Inl (JsError ''If LOGS_LOKI_ENABLED is true then LOKI_INGESTER_HOST and LOKI_QUERY_HOST must be set'')
      else Inr ())"

definition check_redis_read :: "logs_settings \<Rightarrow> unit res" where
  "check_redis_read lo =
     (if lo_redis_write_pct lo < 100 \<and> lo_redis_read_pct lo > 0
      then Inl (JsError ''LOGS_REDIS_READ_PCT can only be set if LOGS_REDIS_WRITE_PCT is 100'') else Inr ())"

definition check_primary :: "logs_settings \<Rightarrow> unit res" where
  "check_primary lo =
     (if lo_primary lo \<noteq> ''redis'' \<and> lo_primary lo \<noteq> ''loki''
      then Inl (JsError (''LOGS_PRIMARY_BACKEND must be either '' @ quoted ''redis'' @ '' or '' @ quoted ''loki''))
      else if lo_primary lo = ''loki'' \<and> \<not> loki_enabled lo
      then Inl (JsError (''LOGS_PRIMARY_BACKEND cannot be '' @ quoted ''loki'' @ '' if LOGS_LOKI_ENABLED is false''))
      else if lo_primary lo = ''redis'' \<and> \<not> lo_redis_enabled lo
      then Inl (JsError (''LOGS_PRIMARY_BACKEND cannot be '' @ quoted ''redis'' @ '' if LOGS_REDIS_ENABLED is false''))
      else if lo_primary lo = ''redis'' \<and> (lo_redis_read_pct lo < 100 \<or> lo_redis_write_pct lo < 100)
      then Inl (JsError ''LOGS_REDIS_READ_PCT and LOGS_REDIS_WRITE_PCT must be 100 if using redis as the primary logs backend'')
      else if lo_primary lo = ''loki'' \<and> (lo_loki_read_pct lo < 100 \<or> lo_loki_write_pct lo < 100)
      then Inl (JsError ''LOKI_READ_PCT and LOKI_WRITE_PCT must be 100 if using loki as the primary logs backend'')
      else Inr ())"

text \<open>The checks in the order of the module.\<close>

definition check_logs_settings :: "logs_settings \<Rightarrow> unit res" where
  "check_logs_settings lo =
     res_bind (check_loki_read lo) (\<lambda>_. res_bind (check_loki_hosts lo) (\<lambda>_.
     res_bind (check_redis_read lo) (\<lambda>_. check_primary lo)))"

lemmas logs_check_defs = check_logs_settings_def check_loki_read_def check_loki_hosts_def check_redis_read_def check_primary_def

text \<open>The configuration that the choice of backends uses.\<close>

definition logs_config_of :: "logs_settings \<Rightarrow> logs_config" where
  "logs_config_of lo =
     \<lparr>lg_primary_is_loki = (lo_primary lo = ''loki''), lg_primary_is_redis = (lo_primary lo = ''redis''),
      lg_loki_enabled = loki_enabled lo, lg_redis_enabled = lo_redis_enabled lo,
      lg_loki_read_pct = of_int (lo_loki_read_pct lo), lg_loki_write_pct = of_int (lo_loki_write_pct lo),
      lg_redis_read_pct = of_int (lo_redis_read_pct lo), lg_redis_write_pct = of_int (lo_redis_write_pct lo)\<rparr>"

lemma check_logs_settings_passes:
  assumes "check_logs_settings lo = Inr ()"
  shows "lo_loki_read_pct lo > 0 \<Longrightarrow> lo_loki_write_pct lo \<ge> 100"
    and "lo_redis_read_pct lo > 0 \<Longrightarrow> lo_redis_write_pct lo \<ge> 100"
    and "lo_primary lo = ''redis'' \<and> lo_redis_enabled lo \<or> lo_primary lo = ''loki'' \<and> loki_enabled lo"
  using assms by (auto simp: logs_check_defs split: if_splits)

lemma pct_draw:
  assumes "0 \<le> (r :: rat)" and "r < 1" and "of_int n > r * 100"
  shows "n > 0"
  using assms by (metis le_less_trans mult_nonneg_nonneg of_int_0_less_iff zero_le_numeral)

lemma full_pct_draw:
  assumes "(r :: rat) < 1" and "n \<ge> 100"
  shows "of_int n > r * 100"
proof -
  have "r * 100 < 100" using assms(1) by simp
  also have "(100 :: rat) \<le> of_int n" using assms(2) by (metis of_int_le_iff of_int_numeral)
  finally show ?thesis .
qed

text \<open>
  Claim C29.  Settings that pass the checks at the start never let a log be looked for where it was not
  written: the primary backend is one that is enabled and differs from the secondary, and as soon as
  some draw lets a reader use the secondary backend, every draw of every writer publishes to it too.
\<close>

theorem secondary_reads_complete:
  assumes "check_logs_settings lo = Inr ()"
    and "shouldReadFromSecondary (logs_config_of lo) r" and "0 \<le> r" and "r < 1" and "r' < 1"
  shows "shouldPublishToSecondary (logs_config_of lo) r' \<and>
    primary_backend (logs_config_of lo) \<noteq> secondary_backend (logs_config_of lo) \<and>
    getSecondaryBackend (logs_config_of lo) = Inr (secondary_backend (logs_config_of lo)) \<and>
    (case primary_backend (logs_config_of lo) of Loki \<Rightarrow> loki_enabled lo | Redis \<Rightarrow> lo_redis_enabled lo)"
proof -
  note passes = check_logs_settings_passes [OF assms(1)]
  have pct: "shouldPublishToSecondary (logs_config_of lo) r'"
    using assms(2) passes(1,2) pct_draw [OF assms(3,4)] full_pct_draw [OF assms(5)]
    by (auto simp: shouldReadFromSecondary_def shouldPublishToSecondary_def logs_config_of_def split: log_backend.splits)
  moreover have "getSecondaryBackend (logs_config_of lo) = Inr (secondary_backend (logs_config_of lo))"
    using assms(2) by (simp add: getSecondaryBackend_def shouldReadFromSecondary_def)
  ultimately show ?thesis
    using passes(3) by (auto simp: primary_backend_def secondary_backend_def logs_config_of_def)
qed

definition both_backends :: logs_settings where
  "both_backends = \<lparr>lo_ingester_host = Some ''loki'', lo_query_host = Some ''loki'', lo_loki_enabled = None,
     lo_loki_write_pct = 100, lo_loki_read_pct = 25, lo_redis_write_pct = 100, lo_redis_read_pct = 100,
     lo_redis_enabled = True, lo_primary = ''redis''\<rparr>"

theorem secondary_reads_complete_witness:
  "shouldPublishToSecondary (logs_config_of both_backends) (999 / 1000) \<and>
   primary_backend (logs_config_of both_backends) = Redis"
proof -
  have ok: "check_logs_settings both_backends = Inr ()"
    by (simp add: logs_check_defs both_backends_def given_host_def loki_enabled_def)
  have reads: "shouldReadFromSecondary (logs_config_of both_backends) (1 / 5)"
    by (simp add: shouldReadFromSecondary_def secondary_enabled_def secondary_backend_def logs_config_of_def
        both_backends_def loki_enabled_def)
  from secondary_reads_complete [OF ok reads, of "999 / 1000"] show ?thesis
    by (simp add: primary_backend_def logs_config_of_def both_backends_def)
qed

section \<open>Texts and certificates\<close>

definition newline :: string where
  "newline = [CHR 0x0A]"

definition openVpnConfig :: string where
  "openVpnConfig = js_join newline
     [[], ''client'', ''{{VPN_DETAILS}}'', ''resolv-retry infinite'', [], ''remote-cert-tls server'', ''tls-version-min 1.2'',
      ''ca /etc/openvpn/ca.crt'', ''auth-user-pass /var/volatile/vpn-auth'', ''auth-retry none'', ''script-security 2'',
      ''up /etc/openvpn-misc/upscript.sh'', ''up-restart'', ''down /etc/openvpn-misc/downscript.sh'', [], ''comp-lzo'',
      ''dev resin-vpn'', ''dev-type tun'', ''proto tcp'', ''nobind'', [], ''persist-key'', ''persist-tun'', ''verb 3'',
      ''user openvpn'', ''group openvpn'', [], ''reneg-bytes 0'', ''reneg-pkts 0'', ''reneg-sec 0'', []]"

text \<open>Hosts and ports hold no pattern of a replacement.\<close>

definition device_openvpn_config :: "string option \<Rightarrow> string \<Rightarrow> string \<Rightarrow> string" where
  "device_openvpn_config VPN_UDP_HOST VPN_HOST VPN_PORT =
     (case VPN_UDP_HOST of
        Some (c # host) \<Rightarrow>
          js_replace_first (newline @ ''proto tcp'' @ newline) newline
            (js_replace_first ''{{VPN_DETAILS}}''
               (''remote '' @ (c # host) @ '' '' @ VPN_PORT @ '' udp'' @ newline @ ''remote '' @ VPN_HOST @ '' '' @ VPN_PORT @ '' tcp'')
               openVpnConfig)
      | _ \<Rightarrow> js_replace_first ''{{VPN_DETAILS}}'' (''remote '' @ VPN_HOST @ '' '' @ VPN_PORT) openVpnConfig)"

definition slug_allowlist :: "string \<Rightarrow> string set" where
  "slug_allowlist v = set (filter (\<lambda>slug. length slug > 0) (map js_trim (js_split (CHR '';'') v)))"

definition allowedAlgorithms :: "string list" where
  "allowedAlgorithms =
     [''HS256'', ''HS384'', ''HS512'', ''RS256'', ''RS384'', ''RS512'', ''ES256'', ''ES384'', ''ES512'', ''PS256'',
      ''PS384'', ''PS512'']"

record registry_cert =
  rc_algo :: string
  rc_issuer :: string
  rc_key :: string
  rc_pub :: string
  rc_kid :: string

definition registryAuth ::
  "(string \<Rightarrow> string) \<Rightarrow> string \<Rightarrow> string \<Rightarrow> string \<Rightarrow> string \<Rightarrow> string \<Rightarrow> registry_cert res"
where
  "registryAuth b64decode algo issuer key pub kid =
     (if algo \<notin> set allowedAlgorithms then Inl (JsError (''Invalid JWT algorithm: '' @ [CHR 0x27] @ algo @ [CHR 0x27]))
      else Inr \<lparr>rc_algo = algo, rc_issuer = issuer, rc_key = b64decode key, rc_pub = b64decode pub, rc_kid = b64decode kid\<rparr>)"

section \<open>Uploaded files\<close>

record upload_settings =
  us_access_key :: "string option"
  us_secret_key :: "string option"
  us_region :: "string option"
  us_host :: "string option"
  us_bucket :: "string option"
  us_key_path :: "string option"
  us_public_key :: "string option"
  us_cf_host :: "string option"

record s3_props =
  s3p_endpoint :: string
  s3p_access_key :: string
  s3p_secret_key :: string
  s3p_region :: string
  s3p_bucket :: string

datatype upload_handler =
    S3Upload s3_props
  | CloudFrontUpload string string string s3_props

definition getEndpointFromHost :: "string \<Rightarrow> string" where
  "getEndpointFromHost host = (if js_startsWith host ''http'' then host else ''https://'' @ host)"

definition getS3Config :: "upload_settings \<Rightarrow> s3_props option" where
  "getS3Config us =
     (case (us_access_key us, us_secret_key us, us_region us, us_host us, us_bucket us) of
        (Some a, Some s, Some r, Some h, Some b) \<Rightarrow>
          Some \<lparr>s3p_endpoint = getEndpointFromHost h, s3p_access_key = a, s3p_secret_key = s, s3p_region = r, s3p_bucket = b\<rparr>
      | _ \<Rightarrow> None)"

text \<open>\<open>read_key\<close> reads a file; \<open>None\<close> is an error of it.\<close>

definition getCloudfrontConfig :: "(string \<Rightarrow> string option) \<Rightarrow> upload_settings \<Rightarrow> upload_handler option" where
  "getCloudfrontConfig read_key us =
     (case (getS3Config us, us_key_path us, us_public_key us, us_cf_host us) of
        (Some s3Config, Some path, Some pub, Some h) \<Rightarrow>
          map_option (\<lambda>cfSecretKey. CloudFrontUpload (getEndpointFromHost h) pub cfSecretKey s3Config) (read_key path)
      | _ \<Rightarrow> None)"

text \<open>The handler is made once; without one the next call tries again.\<close>

definition getFileUploadHandler ::
  "(string \<Rightarrow> string option) \<Rightarrow> upload_settings \<Rightarrow> upload_handler option \<Rightarrow> upload_handler option"
where
  "getFileUploadHandler read_key us handler =
     (case handler of
        Some h \<Rightarrow> Some h
      | None \<Rightarrow>
          (case getCloudfrontConfig read_key us of
             Some h \<Rightarrow> Some h
           | None \<Rightarrow> map_option S3Upload (getS3Config us)))"

text \<open>A key file that cannot be read leaves plain storage, not no storage.\<close>

lemma unreadable_key_keeps_storage:
  "getS3Config us = Some c \<Longrightarrow> read_key = (\<lambda>_. None) \<Longrightarrow> getFileUploadHandler read_key us None = Some (S3Upload c)"
  by (auto simp: getFileUploadHandler_def getCloudfrontConfig_def split: option.split)

end
