(* ===== verification/RedisCodec.thy ===== *)
theory RedisCodec
  imports LogStore
begin

text \<open>
  The serialization of logs for redis (\<^verbatim>\<open>src/features/device-logs/lib/backends/redis.ts\<close>): a record of a schema,
  its bytes, and their compression where it is enabled.

  The schema library and the compression library are the interface \<open>log_codec\<close>.  Bytes are
  characters, as in the encoding that is used.
\<close>

section \<open>Stored logs\<close>

record redis_log =
  sl_version :: int
  sl_createdAt :: int
  sl_timestamp :: int
  sl_isSystem :: bool
  sl_isStdErr :: bool
  sl_serviceId :: "int option"
  sl_message :: string

definition REDIS_LOG_VERSION :: int where
  "REDIS_LOG_VERSION = 1"

text \<open>
  \<open>cd_compress\<close> and \<open>cd_uncompress\<close> are \<open>None\<close> when compression is disabled.
\<close>

record log_codec_env =
  cd_toBuffer :: "redis_log \<Rightarrow> string res"
  cd_fromBuffer :: "string \<Rightarrow> redis_log res"
  cd_compression :: "((string \<Rightarrow> string res) \<times> (string \<Rightarrow> string res)) option"

text \<open>The schema's default fills in the version.\<close>

definition redis_record :: "internal_log \<Rightarrow> redis_log" where
  "redis_record l =
     \<lparr>sl_version = REDIS_LOG_VERSION, sl_createdAt = big_div (il_nano l) 1000000, sl_timestamp = il_timestamp l,
      sl_isSystem = il_isSystem l, sl_isStdErr = il_isStdErr l, sl_serviceId = il_serviceId l, sl_message = il_message l\<rparr>"

definition toRedisLog :: "log_codec_env \<Rightarrow> internal_log \<Rightarrow> string res" where
  "toRedisLog cd l =
     (case res_bind (cd_toBuffer cd (redis_record l))
            (\<lambda>b. case cd_compression cd of None \<Rightarrow> Inr b | Some (compress, uncompress) \<Rightarrow> compress b) of
        Inl err \<Rightarrow> Inl (BadRequestError [])
      | Inr p \<Rightarrow> Inr p)"

definition output_of :: "redis_log \<Rightarrow> output_log" where
  "output_of r =
     \<lparr>log_message = sl_message r, log_timestamp = sl_timestamp r, log_isSystem = sl_isSystem r, log_isStdErr = sl_isStdErr r,
      log_serviceId = sl_serviceId r, log_createdAt = sl_createdAt r\<rparr>"

text \<open>What cannot be uncompressed is taken as it is; what cannot be read is left out.\<close>

definition fromRedisLog :: "log_codec_env \<Rightarrow> string \<Rightarrow> output_log option" where
  "fromRedisLog cd payload =
     (let buffer = (case cd_compression cd of
                      None \<Rightarrow> payload
                    | Some (compress, uncompress) \<Rightarrow> (case uncompress payload of Inl err \<Rightarrow> payload | Inr b \<Rightarrow> b))
      in case cd_fromBuffer cd buffer of
           Inl err \<Rightarrow> None
         | Inr r \<Rightarrow> if sl_version r \<noteq> REDIS_LOG_VERSION then None else Some (output_of r))"

definition handleMessage :: "log_codec_env \<Rightarrow> string \<Rightarrow> string \<Rightarrow> (string \<times> output_log) option" where
  "handleMessage cd payload key = map_option (Pair key) (fromRedisLog cd payload)"

section \<open>The libraries\<close>

locale log_codec =
  fixes cd :: log_codec_env
  assumes buffer_read: "cd_toBuffer cd r = Inr b \<Longrightarrow> cd_fromBuffer cd b = Inr r"
    and uncompressed: "cd_compression cd = Some (compress, uncompress) \<Longrightarrow> compress b = Inr p \<Longrightarrow> uncompress p = Inr b"
begin

lemma read_back:
  assumes "toRedisLog cd l = Inr p"
  shows "fromRedisLog cd p = Some (output_of (redis_record l))"
proof -
  obtain b where b: "cd_toBuffer cd (redis_record l) = Inr b"
    and p: "(case cd_compression cd of None \<Rightarrow> Inr b | Some (compress, uncompress) \<Rightarrow> compress b) = Inr p"
    using assms by (auto simp: toRedisLog_def res_bind_Inr_iff split: sum.splits)
  have "(case cd_compression cd of
           None \<Rightarrow> p
         | Some (compress, uncompress) \<Rightarrow> (case uncompress p of Inl err \<Rightarrow> p | Inr b \<Rightarrow> b)) = b"
  proof (cases "cd_compression cd")
    case (Some c)
    obtain compress uncompress where "c = (compress, uncompress)"
      by (cases c)
    with Some p uncompressed [of compress uncompress b p] show ?thesis
      by simp
  qed (use p in simp)
  with buffer_read [OF b] show ?thesis
    by (simp add: fromRedisLog_def redis_record_def)
qed

text \<open>Logs stored before compression was enabled are read as long as they cannot be uncompressed.\<close>

lemma uncompressed_still_read:
  assumes "cd_compression cd = Some (compress, uncompress)" and "cd_toBuffer cd (redis_record l) = Inr b"
    and "uncompress b = Inl err"
  shows "fromRedisLog cd b = Some (output_of (redis_record l))"
  using assms(1,3) buffer_read [OF assms(2)] by (simp add: fromRedisLog_def redis_record_def)

lemma failed_serialization: "toRedisLog cd l = Inl err \<Longrightarrow> err = BadRequestError []"
  by (auto simp: toRedisLog_def split: sum.splits)

end

text \<open>A codec for plain messages, with a reversal as its compression.\<close>

definition message_record :: "string \<Rightarrow> redis_log" where
  "message_record m =
     \<lparr>sl_version = 1, sl_createdAt = 0, sl_timestamp = 5, sl_isSystem = False, sl_isStdErr = False, sl_serviceId = None,
      sl_message = m\<rparr>"

definition message_codec :: log_codec_env where
  "message_codec =
     \<lparr>cd_toBuffer = (\<lambda>r. if r = message_record (sl_message r) then Inr (sl_message r) else Inl (JsError ''invalid'')),
      cd_fromBuffer = (\<lambda>b. Inr (message_record b)),
      cd_compression = Some (\<lambda>b. Inr (rev b), \<lambda>p. Inr (rev p))\<rparr>"

interpretation message_codec: log_codec message_codec
  by unfold_locales (auto simp: message_codec_def split: if_splits)

section \<open>Published logs come back\<close>

text \<open>
  Claim C34.  What is published can be read back, in order, within the retention limit, as the fields that were
  sent with the time the log arrived: once batches have been published for a device that had no logs, its
  history is the last \<^verbatim>\<open>count\<close> of the last \<^verbatim>\<open>retention_limit\<close> logs of all the batches, without those created before
  the requested start.  Compressed or not, nothing is lost between the formats.
\<close>

theorem redis_logs_roundtrip:
  assumes "log_codec cd" and "redis_publish_all cfg (toRedisLog cd) ctx bs rb = Inr rb'"
    and "0 < ctx_retention_limit ctx" and "rd_lists (rb_db rb) (redis_key ctx ''logs'') = []" and "0 < ho_count opts"
  shows "redis_history (fromRedisLog cd) True ctx opts rb' =
    Inr (filter (\<lambda>l. log_createdAt l \<ge> ho_start opts)
      (map (\<lambda>l. \<lparr>log_message = il_message l, log_timestamp = il_timestamp l, log_isSystem = il_isSystem l,
                 log_isStdErr = il_isStdErr l, log_serviceId = il_serviceId l,
                 log_createdAt = big_div (il_nano l) 1000000\<rparr>)
        (drop (length (concat bs) - min (nat (ho_count opts)) (ctx_retention_limit ctx)) (concat bs))))"
proof -
  have "toRedisLog cd l = Inr p \<Longrightarrow> fromRedisLog cd p = Some (output_of (redis_record l))" for l p
    by (rule log_codec.read_back [OF assms(1)])
  from redis_history_reads_back [OF assms(2,3,4) this assms(5)] show ?thesis
    by (simp add: output_of_def redis_record_def)
qed

definition message_log :: "string \<Rightarrow> internal_log" where
  "message_log m = \<lparr>il_nano = 999999, il_timestamp = 5, il_isSystem = False, il_isStdErr = False, il_serviceId = None,
     il_message = m\<rparr>"

definition message_out :: "string \<Rightarrow> output_log" where
  "message_out m = \<lparr>log_message = m, log_timestamp = 5, log_isSystem = False, log_isStdErr = False,
     log_serviceId = None, log_createdAt = 0\<rparr>"

theorem redis_logs_roundtrip_witness:
  "\<exists>rb'. redis_publish_all test_redis (toRedisLog message_codec) test_ctx
      [[message_log ''a'', message_log ''b''], [message_log ''c'']] (test_backend (\<lambda>_. None)) = Inr rb' \<and>
    redis_history (fromRedisLog message_codec) True test_ctx \<lparr>ho_count = 1000, ho_start = 0\<rparr> rb' =
      Inr [message_out ''b'', message_out ''c'']"
proof -
  obtain rb' where rb': "redis_publish_all test_redis (toRedisLog message_codec) test_ctx
      [[message_log ''a'', message_log ''b''], [message_log ''c'']] (test_backend (\<lambda>_. None)) = Inr rb'"
    by (simp add: redis_publish_def toRedisLog_def message_codec_def message_log_def redis_record_def big_div_def
        REDIS_LOG_VERSION_def message_record_def)
  have "redis_history (fromRedisLog message_codec) True test_ctx \<lparr>ho_count = 1000, ho_start = 0\<rparr> rb' =
      Inr [message_out ''b'', message_out ''c'']"
    by (subst redis_logs_roundtrip [OF message_codec.log_codec_axioms rb'])
      (auto simp: test_ctx_def test_backend_def message_log_def message_out_def big_div_def)
  with rb' show ?thesis by blast
qed

end
