(* ===== verification/Spec2Isabelle.thy ===== *)
theory Spec2Isabelle
  imports Prelude JsRegex Utils EnvVars CacheStore StateGet PatchUtils StatePatchV3 StatePatchV2 DeviceGate Registry RegistryStorage LogRead LogStore DeviceHeartbeat ReleaseVersioning ServiceInstalls TargetOs
    Scheduler RateLimit Credentials Accounts ApiRoles Permissions ApiKeys Applications HaikuName Devices Provisioning ImageDeletion
    CascadeDelete ContractFiles Contracts DeviceProxy UpdateTriggers ImageStorage DeviceTypes
    AbstractSql SqlModel DeviceStatus VersionTerms Translations DeviceAccess DeviceConfig FieldLimits LokiLogs WebLayer Server Settings RedisCodec
begin

text \<open>
  A formal model of the API server of openBalena.

  \<^bold>\<open>The program.\<close>  The API is an HTTP server in front of a database whose rules (permissions, SQL) are
  compiled by a library.  Its own logic is in the features under \<^verbatim>\<open>src/src/features\<close> and the
  infrastructure they share under \<^verbatim>\<open>src/src/infra\<close> and \<^verbatim>\<open>src/src/lib\<close>.  Devices poll the
  API for the state they should have (\<^verbatim>\<open>device-state/routes/state-get-*.ts\<close>), report the state
  they are in (\<^verbatim>\<open>state-patch-*.ts\<close>), send their logs (\<^verbatim>\<open>device-logs\<close>) and pull images with tokens
  that the API issues for the registry (\<^verbatim>\<open>registry\<close>).  Users set variables, whose names are
  checked by \<^verbatim>\<open>vars-schema\<close>, and read logs.  Nearly all of it goes through the two-level cache of
  \<^verbatim>\<open>infra/cache\<close>.

  \<^bold>\<open>Conventions.\<close>  A JavaScript object used as a dictionary is an association list in insertion order
  (\<open>'a obj\<close>), JSON is the datatype \<open>json\<close>, a thrown error is an \<open>exn\<close>.  A pure function that may throw
  returns a sum (\<open>'a res\<close>), an asynchronous one is a state transformer \<open>('w, 'a) io\<close> over an unspecified
  world \<open>'w\<close>, so that every database or cache access may change the world and may fail.  What is not
  under \<^verbatim>\<open>src\<close> (the database client, the caching library, redis, lodash, storage, signing) is an
  argument of the definitions, or a field of an environment record such as \<open>patch_env\<close>, and what the
  code relies on is a locale: \<open>patch_db\<close>, \<open>install_api\<close>, \<open>pick_contract\<close>, \<open>intersection_contract\<close>,
  \<open>group_by_contract\<close>, \<open>s3_contract\<close>, \<open>device_check\<close>, \<open>tags_api\<close>, \<open>heartbeat_services\<close>,
  \<open>release_db\<close>, \<open>installs_db\<close>, \<open>version_order\<close>, \<open>target_db\<close>, \<open>job_services\<close>,
  \<open>user_table\<close>, \<open>perm_db\<close>, \<open>key_tables\<close>, \<open>app_db\<close>, \<open>device_db\<close>, \<open>provision_db\<close>, \<open>image_store\<close>, \<open>s3_partial\<close>,
  \<open>cascade_db\<close>, \<open>contract_rows\<close>, \<open>device_proxy\<close> and \<open>update_triggers\<close>, which extends it, \<open>image_bucket\<close> and its
  extension \<open>type_services\<close>, \<open>sql_meaning\<close>, \<open>vpn_db\<close>, \<open>log_codec\<close>, and the store contracts of \<open>CacheStore\<close>.  Each is interpreted on
  definitions of the development, the code's own where the code provides the interface and an
  executable in-memory database where the outside does.  The operations that the code starts together with
  \<^verbatim>\<open>Promise.all\<close> run one after the other in the order of the list.

  \<^bold>\<open>Theories.\<close>
  \<^item> \<open>Prelude\<close>: errors, results, the state transformers and their invariants (\<open>keeps\<close>), objects, numbers
    and their texts, shared lemmas.
  \<^item> \<open>JsRegex\<close>: an executable matcher for the regular expressions the code uses, with captures, and
    lemmas that give their languages.
  \<^item> \<open>Utils\<close>: \<^verbatim>\<open>lib/utils.ts\<close> -- \<open>checkInt\<close>, \<open>throttledForEach\<close>, \<open>withRetries\<close>, \<open>groupByMap\<close>.
  \<^item> \<open>EnvVars\<close>: \<^verbatim>\<open>vars-schema\<close> -- tables of configuration variables, the checks of names and values, the
    hooks and the schema shown to clients; the lemmas say exactly what is accepted.
  \<^item> \<open>CacheStore\<close>: \<^verbatim>\<open>infra/cache\<close> -- the multi-level store, the memoizer and permission keys; the store
    refines a map under its key prefix, and a memoized call is the function or a cached result of it.
  \<^item> \<open>StateGet\<close>: \<^verbatim>\<open>state-get-utils.ts\<close>, \<^verbatim>\<open>state-get-v2.ts\<close>, \<^verbatim>\<open>state-get-v3.ts\<close> and
    \<^verbatim>\<open>fleet-state-get-v3.ts\<close> -- from the expanded rows of a device to the answer; which services, which
    environment, which configuration.
  \<^item> \<open>PatchUtils\<close>, \<open>StatePatchV3\<close>, \<open>StatePatchV2\<close>: \<^verbatim>\<open>state-patch-*.ts\<close> -- from the validated report to the
    database writes; truncation, rate limits of metrics and image installs, one transaction per report.
  \<^item> \<open>DeviceGate\<close>: \<^verbatim>\<open>device-state/middleware.ts\<close>, \<^verbatim>\<open>tags-patch-v3.ts\<close>, \<^verbatim>\<open>tags/validation.ts\<close>.
  \<^item> \<open>Registry\<close>, \<open>RegistryStorage\<close>: \<^verbatim>\<open>registry.ts\<close> -- scopes, access decisions, tokens; listing and
    deleting the objects of a repository.
  \<^item> \<open>LogRead\<close>, \<open>LogStore\<close>, \<open>RedisCodec\<close>, \<open>LokiLogs\<close>: \<^verbatim>\<open>device-logs/lib\<close> -- the reading and the writing stream as state machines
    over their callbacks, the redis backend on its lists, counters and channels, the form in which logs are stored there,
    and the Loki backend with its
    retries, its stored lines and its sockets, which follow the listeners.
  \<^item> \<open>DeviceHeartbeat\<close>: \<^verbatim>\<open>device-heartbeat/index.ts\<close> -- the state manager as a machine of polls, rounds of the
    consumer of its queue and passing time; who is online, and that a silent device gets offline.
  \<^item> \<open>ReleaseVersioning\<close>: \<^verbatim>\<open>ci-cd/hooks/release-versioning.ts\<close> and \<^verbatim>\<open>track-latest-release.ts\<close>,
    \<^verbatim>\<open>ci-cd/models/release-additions.ts\<close>, \<^verbatim>\<open>releases/hooks\<close> -- revisions of releases and their uniqueness.
  \<^item> \<open>ServiceInstalls\<close>: \<^verbatim>\<open>ci-cd/hooks/service-installs.ts\<close>, \<^verbatim>\<open>ci-cd/tasks/service-installs.ts\<close>,
    \<^verbatim>\<open>service-install/hooks\<close> -- which devices get which services, at once or by tasks.
  \<^item> \<open>TargetOs\<close>: \<^verbatim>\<open>hostapp/hooks\<close>, \<^verbatim>\<open>supervisor-app/hooks\<close> -- the releases of the host application and the
    supervisor a device is to run, never behind what it runs.
  \<^item> \<open>Scheduler\<close>: \<^verbatim>\<open>infra/scheduler\<close> -- one run of a job under its lock; who executes it, what is recorded.
  \<^item> \<open>RateLimit\<close>: \<^verbatim>\<open>infra/rate-limiting\<close> -- limiters, keys, resets and the answer to a limited request.
  \<^item> \<open>Credentials\<close>: \<^verbatim>\<open>infra/auth/{api-keys,auth,jwt,jwt-passport,middleware}.ts\<close> -- from a header to the
    credentials of a request and to who is admitted; which tokens end which sessions.
  \<^item> \<open>Accounts\<close>: \<^verbatim>\<open>features/auth\<close> -- login, refreshed tokens, handles and the hooks on users.
  \<^item> \<open>ApiRoles\<close>: \<^verbatim>\<open>lib/auth.ts\<close> -- the permissions of every role and service key.
  \<^item> \<open>Permissions\<close>: \<^verbatim>\<open>infra/auth/permissions.ts\<close>, \<^verbatim>\<open>infra/pinejs-client-helpers\<close> -- the rows of permissions, roles
    and keys brought in line with those tables.
  \<^item> \<open>ApiKeys\<close>: \<^verbatim>\<open>features/api-keys\<close> -- the creation of keys and who may create which.
  \<^item> \<open>Applications\<close>: \<^verbatim>\<open>features/applications/hooks\<close>, \<^verbatim>\<open>profiles\<close> -- creating, renaming and moving
    applications; slugs follow the names of applications and the handles of organizations.
  \<^item> \<open>HaikuName\<close>, \<open>Devices\<close>: \<^verbatim>\<open>infra/haiku-name\<close>, \<^verbatim>\<open>features/devices/hooks\<close>, \<^verbatim>\<open>device-urls\<close>,
    \<^verbatim>\<open>application-types\<close> -- new devices are typed and named, moved ones start clean.
  \<^item> \<open>Provisioning\<close>: \<^verbatim>\<open>features/device-provisioning\<close> -- registration of a device with its key, all or nothing.
  \<^item> \<open>ImageDeletion\<close>: \<^verbatim>\<open>features/images\<close> -- the tasks made for deleted images and their run, which spares what is
    still referenced.
  \<^item> \<open>CascadeDelete\<close>: \<^verbatim>\<open>features/cascade-delete\<close>, \<^verbatim>\<open>infra/cascade-delete\<close> -- the tables of dependents and the rows
    that go with a deleted one.
  \<^item> \<open>ContractFiles\<close>, \<open>Contracts\<close>: \<^verbatim>\<open>features/contracts\<close> -- from repositories and files to the rows they are
    synchronized with.
  \<^item> \<open>DeviceProxy\<close>, \<open>UpdateTriggers\<close>: \<^verbatim>\<open>features/device-proxy\<close>, \<^verbatim>\<open>ci-cd/hooks/*-update-trigger.ts\<close>,
    \<^verbatim>\<open>vars-schema/hooks/vars-update-trigger.ts\<close> -- which devices are reached by whom, and which are told about a change;
    the second uses the first as an interface.
  \<^item> \<open>ImageStorage\<close>, \<open>DeviceTypes\<close>: \<^verbatim>\<open>features/device-types\<close> -- files, folders and sizes in the storage of images,
    and the list of device types built from releases and storage.
  \<^item> \<open>AbstractSql\<close>, \<open>SqlModel\<close>: \<^verbatim>\<open>abstract-sql-utils.ts\<close> and the access relation of
    \<^verbatim>\<open>applications/models\<close> -- the terms of the query language as a datatype, their meaning as the locale
    \<open>sql_meaning\<close> with an evaluator, and the changes of the data model.
  \<^item> \<open>DeviceStatus\<close>, \<open>VersionTerms\<close>: \<^verbatim>\<open>devices/models/device-additions.ts\<close>, \<^verbatim>\<open>ci-cd/models/release-additions.ts\<close>
    -- the computed fields as terms; their meaning is a decision on the row, and for versions the text that the hooks compute.
  \<^item> \<open>Translations\<close>: \<^verbatim>\<open>src/translations\<close>, \<^verbatim>\<open>balena.ts\<close> -- the model and its versions 6 and 7 with their hooks.
  \<^item> \<open>DeviceAccess\<close>: \<^verbatim>\<open>features/vpn\<close>, \<^verbatim>\<open>features/host-os-access\<close>, \<^verbatim>\<open>registry/middleware.ts\<close> -- the link of a device
    to the VPN over any run of events, who gets to the host, which credentials go on.
  \<^item> \<open>DeviceConfig\<close>: \<^verbatim>\<open>features/device-config\<close>, \<^verbatim>\<open>features/os-config\<close> -- the configuration file of a device.
  \<^item> \<open>FieldLimits\<close>: \<^verbatim>\<open>features/field-size-limits\<close> and the time stamp of releases.
  \<^item> \<open>WebLayer\<close>: \<^verbatim>\<open>infra/validation\<close>, \<^verbatim>\<open>infra/error-handling\<close>, \<^verbatim>\<open>features/request-logging\<close> -- what every request
    passes.
  \<^item> \<open>Server\<close>: \<^verbatim>\<open>src/index.ts\<close> -- the handlers before the features: redirection to https, headers, preflights.
  \<^item> \<open>Settings\<close>: \<^verbatim>\<open>lib/config.ts\<close>, \<^verbatim>\<open>infra/redis/config.ts\<close>, \<^verbatim>\<open>registry/certs.ts\<close>, \<^verbatim>\<open>fileupload-handler.ts\<close> --
    settings that are checked or put together, and that readers of logs find what writers wrote.

  \<^bold>\<open>Loops and fuel.\<close>  Loops over lists are structural.  The loops over pages of a listing
  (\<open>list_pages\<close>, \<open>delete_pages\<close> in \<open>RegistryStorage\<close>, \<open>getFolderSize\<close>, \<open>listFolders\<close> in \<open>ImageStorage\<close>) take fuel, and
  \<open>deleteRepoManifests_complete\<close> and \<open>compressed_size_total\<close> show that one unit per entry is enough.  The retries of
  a push have fuel for eleven rounds, of which \<open>backoff_ends\<close> shows that they suffice: the growing delay ends them after ten
  calls.  The matcher of regular expressions ends by a measure.  Streams, subscriptions and links
  are runs over finite sequences of events of any length.

  \<^bold>\<open>Not modelled.\<close>  The compiler of the data model to SQL and the permissions the library enforces, whose
  answers are parameters with laws; generated types (\<^verbatim>\<open>balena-model.ts\<close>), migrations, the plain constants of
  \<^verbatim>\<open>lib/config.ts\<close>, which are parameters where they are used; the web framework, the wiring of routes and the
  startup; clients of services with their settings, counters and the reporting of exceptions; the rollback of a registration
  whose connection was closed; the schedule of the contract job.  In \<open>DeviceTypes\<close> and \<open>ImageStorage\<close> a memoized function is
  taken as the function it memoizes, the memoizer itself being in \<open>CacheStore\<close>.  The order in which a JavaScript
  object lists keys that look like integers is not modelled: keys come in the order they were inserted.
  Time is a parameter or a part of the world.  Concurrent requests are not interleaved
  inside one handler: a handler is a sequence of accesses to a world that the hypotheses leave free to
  change between them only where they say so.
\<close>

end
